(* ===== verification/Prelude.thy ===== *)
theory Prelude
  imports Main "HOL-Library.Word"
begin

text \<open>
  Shared vocabulary of the development: the machine-integer types of \<^verbatim>\<open>src/common/types.hpp\<close>,
  the saturating addition that the order book and the execution engine both use, the
  collections that later theories fill, and the word, list and map lemmas that several
  components need.  Nothing here knows anything about orders.
\<close>

unbundle bit_operations_syntax

section \<open>Machine integers\<close>

type_synonym u8 = "8 word"
type_synonym u16 = "16 word"
type_synonym u32 = "32 word"
type_synonym u64 = "64 word"
type_synonym u128 = "128 word"

text \<open>
  The aliases of \<^verbatim>\<open>src/common/types.hpp\<close>.  A \<open>FixedString<N>\<close> is represented by
  the string its \<open>view()\<close> returns: the bytes before the first NUL.
\<close>

type_synonym InternalOrderId = u32
type_synonym SecurityId = string
type_synonym InternalSecurityId = string
type_synonym Volume = u64
type_synonym DPrice = u64
type_synonym DValue = u64
type_synonym MdTime = u32
type_synonym StrategyId = u16
type_synonym AccountId = u32
type_synonym TimestampNs = u64

named_theorems frame_simps \<open>which parts of a state an operation leaves alone\<close>
named_theorems inv_intros \<open>an operation preserves its component's invariant\<close>

section \<open>Saturating addition\<close>

definition saturating_add :: "u64 \<Rightarrow> u64 \<Rightarrow> u64" where
  "saturating_add lhs rhs =
     (let limit = - 1 in if lhs > limit - rhs then limit else lhs + rhs)"

lemma unat_minus_one_u64: "unat (- 1 :: u64) = 2 ^ 64 - 1"
  by (simp add: unsigned_minus_1_eq_mask mask_eq_exp_minus_1)

lemma unat_limit_minus: "unat (- 1 - b :: u64) = 2 ^ 64 - 1 - unat b"
proof -
  have "b \<le> - 1" by simp
  then have "unat (- 1 - b :: u64) = unat (- 1 :: u64) - unat b"
    by (rule unat_sub)
  then show ?thesis by (simp only: unat_minus_one_u64)
qed

lemma unat_lt_2_64: "unat (a :: u64) < 2 ^ 64"
  using unsigned_less [of a] by simp

lemma unat_saturating_add:
  "unat (saturating_add a b) = min (2 ^ 64 - 1) (unat a + unat b)"
proof (cases "a > - 1 - b")
  case True
  then have "unat a > 2 ^ 64 - 1 - unat b"
    by (simp add: word_less_nat_alt unat_limit_minus)
  with True show ?thesis
    by (simp add: saturating_add_def unat_minus_one_u64 min_def)
next
  case False
  then have le: "unat a \<le> 2 ^ 64 - 1 - unat b"
    by (simp add: word_less_nat_alt unat_limit_minus)
  with unat_lt_2_64 [of b] have sum: "unat a + unat b < 2 ^ 64" by linarith
  then have "unat (a + b) = unat a + unat b"
    by (simp add: unat_word_ariths)
  with False sum show ?thesis
    by (simp add: saturating_add_def min_def)
qed

lemma saturating_add_0 [simp]:
  "saturating_add 0 a = a" "saturating_add a 0 = a"
  by (simp_all add: saturating_add_def not_less)

lemma saturating_add_commute: "saturating_add a b = saturating_add b a"
  by (rule word_unat_eq_iff [THEN iffD2]) (simp add: unat_saturating_add add.commute)

lemma saturating_add_assoc:
  "saturating_add (saturating_add a b) c = saturating_add a (saturating_add b c)"
  by (rule word_unat_eq_iff [THEN iffD2]) (simp add: unat_saturating_add)

lemma saturating_add_mono: "a \<le> saturating_add a b"
  using unat_lt_2_64 [of a]
  by (simp add: word_le_nat_alt unat_saturating_add)

lemma saturating_add_exact:
  "unat a + unat b < 2 ^ 64 \<Longrightarrow> saturating_add a b = a + b"
  by (rule word_unat_eq_iff [THEN iffD2]) (simp add: unat_saturating_add unat_word_ariths)

section \<open>Words: sums and differences that do not wrap\<close>

text \<open>
  The code detects overflow of \<open>a + b\<close> by comparing the sum with an operand.
\<close>

lemma word_add_no_wrap: "\<not> (a + b < (a :: u64)) \<Longrightarrow> unat (a + b) = unat a + unat b"
  by (simp add: not_less unat_plus_simple)

lemma word_add_no_wrap_iff: "\<not> (a + b < (a :: u64)) \<longleftrightarrow> unat a + unat b < 2 ^ 64"
proof
  assume "\<not> (a + b < a)"
  then have "unat (a + b) = unat a + unat b" by (rule word_add_no_wrap)
  with unat_lt_2_64 [of "a + b"] show "unat a + unat b < 2 ^ 64" by simp
next
  assume "unat a + unat b < 2 ^ 64"
  then have "unat (a + b) = unat a + unat b" by (simp add: unat_word_ariths)
  then show "\<not> (a + b < a)" by (simp add: word_less_nat_alt)
qed

lemma word_sub_no_wrap: "\<not> (a < (b :: u64)) \<Longrightarrow> unat (a - b) = unat a - unat b"
  by (simp add: not_less unat_sub)

lemma unat_ucast_u128 [simp]: "unat (ucast (a :: u64) :: u128) = unat a"
proof -
  have "unat a < 2 ^ 128" using unat_lt_2_64 [of a] by (rule less_trans) simp
  then show ?thesis by (simp add: unsigned_ucast_eq take_bit_nat_eq_self)
qed
end
