(* ===== verification/Spsc_Queue.thy ===== *)
theory Spsc_Queue
  imports Prelude
begin

text \<open>
  \<^verbatim>\<open>src/shm/spsc_queue.hpp\<close> (and its twin \<^verbatim>\<open>BaseCore/src/utils/spsc_queue.hpp\<close>): the ring
  buffer between one producer and one consumer that carries order indices and trade
  responses through shared memory.  The template parameter \<open>Capacity\<close> is an argument.

  The first part is the sequential queue and its contract, the locale \<open>bounded_fifo\<close>; the
  second part splits \<open>try_push\<close> and \<open>try_pop\<close> into their loads and stores and lets a producer
  and a consumer interleave them.
\<close>

section \<open>The ring buffer\<close>

record 'a spsc_queue =
  q_head :: u64
  q_tail :: u64
  q_buffer :: "u64 \<Rightarrow> 'a"

definition kMask :: "u64 \<Rightarrow> u64" where
  "kMask capacity = capacity - 1"

definition queue_init :: "'a spsc_queue \<Rightarrow> 'a spsc_queue" where
  "queue_init q = q\<lparr>q_head := 0, q_tail := 0\<rparr>"

definition try_push :: "u64 \<Rightarrow> 'a \<Rightarrow> 'a spsc_queue \<Rightarrow> bool \<times> 'a spsc_queue" where
  "try_push capacity item q =
     (let head = q_head q; tail = q_tail q
      in if (head + 1) AND kMask capacity = tail then (False, q)
         else (True, q\<lparr>q_buffer := (q_buffer q)(head := item),
                       q_head := (head + 1) AND kMask capacity\<rparr>))"

definition try_pop :: "u64 \<Rightarrow> 'a spsc_queue \<Rightarrow> 'a option \<times> 'a spsc_queue" where
  "try_pop capacity q =
     (let tail = q_tail q; head = q_head q
      in if tail = head then (None, q)
         else (Some (q_buffer q tail), q\<lparr>q_tail := (tail + 1) AND kMask capacity\<rparr>))"

definition try_peek :: "'a spsc_queue \<Rightarrow> 'a option" where
  "try_peek q = (if q_tail q = q_head q then None else Some (q_buffer q (q_tail q)))"

definition queue_size :: "u64 \<Rightarrow> 'a spsc_queue \<Rightarrow> u64" where
  "queue_size capacity q = (q_head q - q_tail q + capacity) AND kMask capacity"

definition queue_empty :: "'a spsc_queue \<Rightarrow> bool" where
  "queue_empty q = (q_head q = q_tail q)"

definition queue_capacity :: "u64 \<Rightarrow> u64" where
  "queue_capacity capacity = capacity - 1"

section \<open>Masking is reduction modulo the capacity\<close>

lemma unat_and_kMask:
  assumes "k < 64"
  shows "unat (x AND kMask (2 ^ k)) = unat x mod 2 ^ k"
proof -
  have "x AND kMask (2 ^ k) = take_bit k x"
    by (simp add: kMask_def take_bit_eq_mask mask_eq_exp_minus_1)
  then have "unat (x AND kMask (2 ^ k)) = take_bit k (unat x)"
    by (simp only: unsigned_take_bit_eq)
  then show ?thesis by (simp only: take_bit_eq_mod)
qed

lemma capacity_dvd: "k < 64 \<Longrightarrow> (2 :: nat) ^ k dvd 2 ^ 64"
  by (rule le_imp_power_dvd) simp

lemma capacity_less: "k < 64 \<Longrightarrow> (2 :: nat) ^ k < 2 ^ 64"
  by (rule power_strict_increasing) simp_all

lemma unat_capacity: "k < 64 \<Longrightarrow> unat (2 ^ k :: u64) = 2 ^ k"
  using unat_of_nat [of "2 ^ k", where 'a = 64] capacity_less [of k] by simp

lemma unat_of_nat_mod_capacity: "k < 64 \<Longrightarrow> unat (of_nat (i mod 2 ^ k) :: u64) = i mod 2 ^ k"
proof -
  assume k: "k < 64"
  have "i mod 2 ^ k < 2 ^ k" by simp
  also have "\<dots> < 2 ^ 64" using k by (rule capacity_less)
  finally show ?thesis by (simp add: unat_of_nat)
qed

lemma unat_succ_mask:
  assumes "k < 64"
  shows "unat ((x + 1) AND kMask (2 ^ k)) = (unat x + 1) mod 2 ^ k"
proof -
  have "unat (x + 1) = (unat x + 1) mod 2 ^ 64" by (simp add: unat_word_ariths)
  then show ?thesis
    using assms capacity_dvd [OF assms]
    by (simp only: unat_and_kMask mod_mod_cancel)
qed

section \<open>Ring positions as unbounded counters\<close>

text \<open>
  \<open>ring_at k q t h\<close>: \<open>t\<close> items were ever taken and \<open>h\<close> were ever put, both counted without
  wrap-around; the stored indices are these counters modulo the capacity.
\<close>

definition ring_at :: "nat \<Rightarrow> 'a spsc_queue \<Rightarrow> nat \<Rightarrow> nat \<Rightarrow> bool" where
  "ring_at k q t h \<longleftrightarrow> k < 64 \<and> t \<le> h \<and> h < t + 2 ^ k
     \<and> unat (q_tail q) = t mod 2 ^ k \<and> unat (q_head q) = h mod 2 ^ k"

definition ring_slot :: "nat \<Rightarrow> 'a spsc_queue \<Rightarrow> nat \<Rightarrow> 'a" where
  "ring_slot k q i = q_buffer q (of_nat (i mod 2 ^ k))"

definition q_ok :: "nat \<Rightarrow> 'a spsc_queue \<Rightarrow> bool" where
  "q_ok k q \<longleftrightarrow> k < 64 \<and> unat (q_head q) < 2 ^ k \<and> unat (q_tail q) < 2 ^ k"

definition q_list :: "nat \<Rightarrow> 'a spsc_queue \<Rightarrow> 'a list" where
  "q_list k q = map (\<lambda>i. ring_slot k q (unat (q_tail q) + i)) [0..<unat (queue_size (2 ^ k) q)]"

lemma q_ok_ring:
  assumes "q_ok k q"
  obtains t h where "ring_at k q t h"
proof
  show "ring_at k q (unat (q_tail q))
      (if unat (q_tail q) \<le> unat (q_head q) then unat (q_head q) else unat (q_head q) + 2 ^ k)"
    using assms by (auto simp: ring_at_def q_ok_def)
qed

lemma ring_q_ok: "ring_at k q t h \<Longrightarrow> q_ok k q"
  by (simp add: ring_at_def q_ok_def)

lemma mod_eq_same:
  fixes a b c :: nat
  assumes "a mod c = b mod c" "a \<le> b" "b < a + c"
  shows "a = b"
proof (rule ccontr)
  assume "a \<noteq> b"
  moreover have "c dvd b - a" using assms(1,2) by (metis mod_eq_dvd_iff_nat)
  ultimately show False using assms(2,3) nat_dvd_not_less [of "b - a" c] by simp
qed

lemma ring_size:
  assumes "ring_at k q t h"
  shows "unat (queue_size (2 ^ k) q) = h - t"
proof -
  let ?C = "2 ^ k :: nat"
  have k: "k < 64" and le: "t \<le> h" "h < t + ?C"
    and i: "unat (q_tail q) = t mod ?C" "unat (q_head q) = h mod ?C"
    using assms by (auto simp: ring_at_def)
  have "unat (queue_size (2 ^ k) q) = unat (q_head q - q_tail q + 2 ^ k) mod ?C"
    using k by (simp only: queue_size_def unat_and_kMask)
  also have "\<dots> = unat (q_head q - q_tail q) mod ?C"
  proof -
    have "unat (2 ^ k :: u64) = ?C" using k by (rule unat_capacity)
    then have "unat (q_head q - q_tail q + 2 ^ k) = (unat (q_head q - q_tail q) + ?C) mod 2 ^ 64"
      by (simp add: unat_word_ariths)
    then show ?thesis using capacity_dvd [OF k] by (simp only: mod_mod_cancel mod_add_self2)
  qed
  also have "\<dots> = h - t"
  proof -
    have dvd: "int ?C dvd 2 ^ 64"
      using k by (simp only: of_nat_power of_nat_numeral) (rule le_imp_power_dvd, simp)
    have "int (unat (q_head q - q_tail q)) = (int (h mod ?C) - int (t mod ?C)) mod 2 ^ 64"
      by (simp add: uint_word_ariths flip: i)
    then have "int (unat (q_head q - q_tail q)) mod int ?C = (int (h mod ?C) - int (t mod ?C)) mod int ?C"
      using dvd by (simp only: mod_mod_cancel)
    also have "\<dots> = (int h - int t) mod int ?C"
      by (simp only: zmod_int mod_diff_eq)
    also have "\<dots> = int (h - t)"
    proof -
      have "int h - int t = int (h - t)" "(h - t) mod ?C = h - t" using le by auto
      then show ?thesis by (metis zmod_int)
    qed
    finally show ?thesis by (metis nat_int zmod_int)
  qed
  finally show ?thesis .
qed

lemma ring_list:
  assumes "ring_at k q t h"
  shows "q_list k q = map (ring_slot k q) [t..<h]"
proof (rule nth_equalityI)
  show "length (q_list k q) = length (map (ring_slot k q) [t..<h])"
    using ring_size [OF assms] by (simp add: q_list_def)
  fix i assume "i < length (q_list k q)"
  then show "q_list k q ! i = map (ring_slot k q) [t..<h] ! i"
    using assms ring_size [OF assms]
    by (simp add: q_list_def ring_slot_def ring_at_def mod_add_left_eq)
qed

lemma ring_full:
  assumes "ring_at k q t h"
  shows "(q_head q + 1) AND kMask (2 ^ k) = q_tail q \<longleftrightarrow> Suc (h - t) = 2 ^ k"
proof -
  have k: "k < 64" and r: "t \<le> h" "h < t + 2 ^ k" "unat (q_tail q) = t mod 2 ^ k"
    "unat (q_head q) = h mod 2 ^ k"
    using assms by (auto simp: ring_at_def)
  have "(q_head q + 1) AND kMask (2 ^ k) = q_tail q
      \<longleftrightarrow> (unat (q_head q) + 1) mod 2 ^ k = unat (q_tail q)"
    using unat_succ_mask [OF k, of "q_head q"] by (simp add: word_unat_eq_iff)
  also have "\<dots> \<longleftrightarrow> Suc h mod 2 ^ k = t mod 2 ^ k"
    using r by (simp add: mod_Suc_eq)
  also have "\<dots> \<longleftrightarrow> Suc (h - t) = 2 ^ k"
  proof
    assume eq: "Suc h mod 2 ^ k = t mod 2 ^ k"
    then have "2 ^ k dvd Suc h - t" using r(1) by (metis le_SucI mod_eq_dvd_iff_nat)
    moreover have "0 < Suc h - t" "Suc h - t \<le> 2 ^ k" using r by auto
    ultimately show "Suc (h - t) = 2 ^ k"
      using r(1) by (simp add: Suc_diff_le dvd_imp_le le_antisym)
  next
    assume "Suc (h - t) = 2 ^ k"
    with r(1) have "Suc h = t + 2 ^ k" by linarith
    then show "Suc h mod 2 ^ k = t mod 2 ^ k" by simp
  qed
  finally show ?thesis .
qed

lemma ring_empty: "ring_at k q t h \<Longrightarrow> q_tail q = q_head q \<longleftrightarrow> t = h"
  using mod_eq_same [of t "2 ^ k" h] by (auto simp: ring_at_def word_unat_eq_iff)

lemma ring_slot_head: "ring_at k q t h \<Longrightarrow> ring_slot k q h = q_buffer q (q_head q)"
  unfolding ring_at_def ring_slot_def by (metis word_unat_eq_iff unat_of_nat_mod_capacity)

lemma ring_slot_tail: "ring_at k q t h \<Longrightarrow> ring_slot k q t = q_buffer q (q_tail q)"
  unfolding ring_at_def ring_slot_def by (metis word_unat_eq_iff unat_of_nat_mod_capacity)

lemma ring_slot_other:
  assumes "ring_at k q t h" "t \<le> i" "i < h"
  shows "(of_nat (i mod 2 ^ k) :: u64) \<noteq> q_head q"
proof
  assume eq: "(of_nat (i mod 2 ^ k) :: u64) = q_head q"
  have k: "k < 64" "h < t + 2 ^ k" "unat (q_head q) = h mod 2 ^ k"
    using assms(1) by (auto simp: ring_at_def)
  have "unat (of_nat (i mod 2 ^ k) :: u64) = i mod 2 ^ k"
    using k(1) by (rule unat_of_nat_mod_capacity)
  with eq k(3) have "i mod 2 ^ k = h mod 2 ^ k" by simp
  then show False using mod_eq_same [of i "2 ^ k" h] assms(2,3) k(2) by simp
qed

section \<open>The operations on the list of queued items\<close>

lemma try_push_ring:
  assumes "ring_at k q t h" "try_push (2 ^ k) x q = (ok, q')"
  shows "ok \<longleftrightarrow> Suc (h - t) < 2 ^ k"
    and "ok \<Longrightarrow> ring_at k q' t (Suc h) \<and> ring_slot k q' h = x
           \<and> (\<forall>i. t \<le> i \<and> i < h \<longrightarrow> ring_slot k q' i = ring_slot k q i)"
    and "\<not> ok \<Longrightarrow> q' = q"
proof -
  have k: "k < 64" and r: "t \<le> h" "h < t + 2 ^ k" "unat (q_head q) = h mod 2 ^ k"
    using assms(1) by (auto simp: ring_at_def)
  note full = ring_full [OF assms(1)]
  show okI: "ok \<longleftrightarrow> Suc (h - t) < 2 ^ k"
    using assms(2) full r by (auto simp: try_push_def Let_def split: if_splits)
  show "\<not> ok \<Longrightarrow> q' = q"
    using assms(2) by (auto simp: try_push_def Let_def split: if_splits)
  assume ok
  then have q': "q' = q\<lparr>q_buffer := (q_buffer q)(q_head q := x),
      q_head := (q_head q + 1) AND kMask (2 ^ k)\<rparr>"
    using assms(2) by (auto simp: try_push_def Let_def split: if_splits)
  have room: "Suc h < t + 2 ^ k" using okI \<open>ok\<close> r(1) by simp
  have "ring_at k q' t (Suc h)"
    using assms(1) room k by (simp add: q' ring_at_def unat_succ_mask r(3) mod_Suc_eq)
  moreover have "ring_slot k q' h = x"
    using k r(3) by (simp add: ring_slot_def q' word_unat_eq_iff unat_of_nat_mod_capacity)
  moreover have "\<forall>i. t \<le> i \<and> i < h \<longrightarrow> ring_slot k q' i = ring_slot k q i"
    using ring_slot_other [OF assms(1)] by (simp add: ring_slot_def q')
  ultimately show "ring_at k q' t (Suc h) \<and> ring_slot k q' h = x
      \<and> (\<forall>i. t \<le> i \<and> i < h \<longrightarrow> ring_slot k q' i = ring_slot k q i)" by blast
qed

lemma try_pop_ring:
  assumes "ring_at k q t h" "try_pop (2 ^ k) q = (r, q')"
  shows "r = None \<longleftrightarrow> t = h"
    and "t \<noteq> h \<Longrightarrow> r = Some (ring_slot k q t) \<and> ring_at k q' (Suc t) h
           \<and> ring_slot k q' = ring_slot k q"
    and "t = h \<Longrightarrow> q' = q"
proof -
  have k: "k < 64" and le: "t \<le> h" "unat (q_tail q) = t mod 2 ^ k"
    using assms(1) by (auto simp: ring_at_def)
  note empty = ring_empty [OF assms(1)]
  show "r = None \<longleftrightarrow> t = h" "t = h \<Longrightarrow> q' = q"
    using assms(2) empty by (auto simp: try_pop_def Let_def split: if_splits)
  assume "t \<noteq> h"
  then have q': "q' = q\<lparr>q_tail := (q_tail q + 1) AND kMask (2 ^ k)\<rparr>"
    and "r = Some (q_buffer q (q_tail q))"
    using assms(2) empty by (auto simp: try_pop_def Let_def split: if_splits)
  moreover have "ring_at k q' (Suc t) h"
    using assms(1) \<open>t \<noteq> h\<close> k by (simp add: q' ring_at_def unat_succ_mask le(2) mod_Suc_eq)
  ultimately show "r = Some (ring_slot k q t) \<and> ring_at k q' (Suc t) h
      \<and> ring_slot k q' = ring_slot k q"
    using ring_slot_tail [OF assms(1)] by (simp add: ring_slot_def fun_eq_iff)
qed

lemma try_push_list:
  assumes "q_ok k q" "try_push (2 ^ k) x q = (ok, q')"
  shows "q_ok k q' \<and> ok = (Suc (length (q_list k q)) < 2 ^ k)
    \<and> q_list k q' = (if ok then q_list k q @ [x] else q_list k q)"
proof -
  obtain t h where r: "ring_at k q t h" using assms(1) by (rule q_ok_ring)
  note p = try_push_ring [OF r assms(2)]
  show ?thesis
  proof (cases ok)
    case True
    with p(2) have r': "ring_at k q' t (Suc h)" by blast
    have "t \<le> h" using r by (simp add: ring_at_def)
    then have "q_list k q' = q_list k q @ [x]"
      using p(2) True by (simp add: ring_list [OF r] ring_list [OF r'])
    with True r' p(1) show ?thesis by (simp add: ring_list [OF r] ring_q_ok)
  next
    case False
    with p(1,3) assms(1) show ?thesis by (simp add: ring_list [OF r])
  qed
qed

lemma try_pop_list:
  assumes "q_ok k q" "try_pop (2 ^ k) q = (r, q')"
  shows "q_ok k q' \<and> (case q_list k q of
           [] \<Rightarrow> r = None \<and> q' = q
         | x # xs \<Rightarrow> r = Some x \<and> q_list k q' = xs)"
proof -
  obtain t h where r: "ring_at k q t h" using assms(1) by (rule q_ok_ring)
  note p = try_pop_ring [OF r assms(2)]
  show ?thesis
  proof (cases "t = h")
    case True
    with p assms(1) show ?thesis by (simp add: ring_list [OF r])
  next
    case False
    with p(2) have r': "ring_at k q' (Suc t) h" by blast
    have "t < h" using r False by (simp add: ring_at_def)
    then show ?thesis
      using p(2) False r' by (simp add: ring_list [OF r] ring_list [OF r'] upt_conv_Cons ring_q_ok)
  qed
qed

lemma try_peek_list: "q_ok k q \<Longrightarrow> try_peek q = (case q_list k q of [] \<Rightarrow> None | x # _ \<Rightarrow> Some x)"
  using try_pop_list [of k q "fst (try_pop (2 ^ k) q)" "snd (try_pop (2 ^ k) q)"]
  by (auto simp: try_peek_def try_pop_def Let_def split: list.splits if_splits)

lemma queue_size_list: "unat (queue_size (2 ^ k) q) = length (q_list k q)"
  by (simp add: q_list_def)

lemma queue_init_list: "k < 64 \<Longrightarrow> q_ok k (queue_init q) \<and> q_list k (queue_init q) = []"
proof -
  assume "k < 64"
  then have "ring_at k (queue_init q) 0 0" by (simp add: ring_at_def queue_init_def)
  then show ?thesis using ring_q_ok ring_list by fastforce
qed

section \<open>The contract of a bounded queue\<close>

text \<open>
  What the API, the router, the gateway and the event loop rely on.  \<open>contents\<close> is the
  abstract value, \<open>bound\<close> the number of items that fit.
\<close>

datatype 'a queue_op = Push 'a | Pop

text \<open>A client's run: what was accepted, what came out, and the final queue.\<close>

fun run_queue :: "('a \<Rightarrow> 'q \<Rightarrow> bool \<times> 'q) \<Rightarrow> ('q \<Rightarrow> 'a option \<times> 'q) \<Rightarrow> 'q \<Rightarrow> 'a queue_op list
    \<Rightarrow> 'a list \<times> 'a list \<times> 'q" where
  "run_queue push pop q [] = ([], [], q)"
| "run_queue push pop q (Push x # ops) =
     (let (ok, q') = push x q; (ins, outs, q'') = run_queue push pop q' ops
      in (if ok then x # ins else ins, outs, q''))"
| "run_queue push pop q (Pop # ops) =
     (let (r, q') = pop q; (ins, outs, q'') = run_queue push pop q' ops
      in (ins, case r of None \<Rightarrow> outs | Some x \<Rightarrow> x # outs, q''))"

locale bounded_fifo =
  fixes push :: "'a \<Rightarrow> 'q \<Rightarrow> bool \<times> 'q"
    and pop :: "'q \<Rightarrow> 'a option \<times> 'q"
    and contents :: "'q \<Rightarrow> 'a list"
    and ok_queue :: "'q \<Rightarrow> bool"
    and bound :: nat
  assumes push_law: "ok_queue q \<Longrightarrow> push x q = (b, q') \<Longrightarrow>
      ok_queue q' \<and> b = (length (contents q) < bound)
      \<and> contents q' = (if b then contents q @ [x] else contents q)"
    and pop_law: "ok_queue q \<Longrightarrow> pop q = (r, q') \<Longrightarrow>
      ok_queue q' \<and> (case contents q of
           [] \<Rightarrow> r = None \<and> q' = q
         | x # xs \<Rightarrow> r = Some x \<and> contents q' = xs)"
begin

lemma push_accepts:
  "ok_queue q \<Longrightarrow> length (contents q) < bound \<Longrightarrow>
   \<exists>q'. push x q = (True, q') \<and> ok_queue q' \<and> contents q' = contents q @ [x]"
  using push_law [of q x] by (cases "push x q") auto

lemma push_refuses:
  "ok_queue q \<Longrightarrow> bound \<le> length (contents q) \<Longrightarrow>
   \<exists>q'. push x q = (False, q') \<and> ok_queue q' \<and> contents q' = contents q"
  using push_law [of q x] by (cases "push x q") auto

lemma pop_empty: "ok_queue q \<Longrightarrow> contents q = [] \<Longrightarrow> pop q = (None, q)"
  using pop_law [of q] by (cases "pop q") auto

lemma pop_head:
  "ok_queue q \<Longrightarrow> contents q = x # xs \<Longrightarrow>
   \<exists>q'. pop q = (Some x, q') \<and> ok_queue q' \<and> contents q' = xs"
  using pop_law [of q] by (cases "pop q") auto

lemma push_bounded:
  "ok_queue q \<Longrightarrow> length (contents q) \<le> bound \<Longrightarrow> push x q = (b, q') \<Longrightarrow>
   length (contents q') \<le> bound"
  using push_law [of q x b q'] by (auto split: if_splits)

lemma run_fifo:
  "ok_queue q \<Longrightarrow> run_queue push pop q ops = (ins, outs, q') \<Longrightarrow>
   ok_queue q' \<and> contents q @ ins = outs @ contents q'"
proof (induction ops arbitrary: q ins outs q')
  case Nil
  then show ?case by simp
next
  case (Cons op ops)
  show ?case
  proof (cases op)
    case (Push x)
    obtain b q1 where p: "push x q = (b, q1)" by (cases "push x q")
    obtain ins1 outs1 q2 where r: "run_queue push pop q1 ops = (ins1, outs1, q2)"
      by (cases "run_queue push pop q1 ops")
    have "ok_queue q1" using push_law [OF Cons.prems(1) p] by blast
    with Cons.IH [OF this r] push_law [OF Cons.prems(1) p] Cons.prems(2) show ?thesis
      by (auto simp: Push p r split: if_splits)
  next
    case Pop
    obtain x q1 where p: "pop q = (x, q1)" by (cases "pop q")
    obtain ins1 outs1 q2 where r: "run_queue push pop q1 ops = (ins1, outs1, q2)"
      by (cases "run_queue push pop q1 ops")
    have "ok_queue q1" using pop_law [OF Cons.prems(1) p] by blast
    with Cons.IH [OF this r] pop_law [OF Cons.prems(1) p] Cons.prems(2) show ?thesis
      by (auto simp: Pop p r split: list.splits)
  qed
qed

end

text \<open>The three queues of the shared memory all have 262144 slots.\<close>

definition kQueueCapacity :: u64 where
  "kQueueCapacity = 262144"

lemma kQueueCapacity_pow: "kQueueCapacity = 2 ^ 18"
  by (simp add: kQueueCapacity_def)

interpretation shm_queue: bounded_fifo "try_push kQueueCapacity" "try_pop kQueueCapacity"
    "q_list 18" "q_ok 18" 262143
proof unfold_locales
  fix q :: "'a spsc_queue" and x b q'
  assume "q_ok 18 q" "try_push kQueueCapacity x q = (b, q')"
  then show "q_ok 18 q' \<and> b = (length (q_list 18 q) < 262143)
      \<and> q_list 18 q' = (if b then q_list 18 q @ [x] else q_list 18 q)"
    using try_push_list [of 18 q x b q'] by (auto simp: kQueueCapacity_pow)
next
  fix q :: "'a spsc_queue" and r q'
  assume "q_ok 18 q" "try_pop kQueueCapacity q = (r, q')"
  then show "q_ok 18 q' \<and> (case q_list 18 q of [] \<Rightarrow> r = None \<and> q' = q
      | x # xs \<Rightarrow> r = Some x \<and> q_list 18 q' = xs)"
    using try_pop_list [of 18 q r q'] by (simp add: kQueueCapacity_pow)
qed

section \<open>Properties\<close>

text \<open>C13: The ring buffer of any power-of-two capacity refines a bounded list: \<open>try_push\<close> appends
  exactly if fewer than capacity minus one items are queued and otherwise changes nothing,
  \<open>try_pop\<close> and \<open>try_peek\<close> return the oldest item, and \<open>size\<close> is the number of items, the
  wrap-around of the indices included.\<close>

theorem spsc_queue_refines_list:
  assumes "q_ok k q"
  shows "q_list k (snd (try_push (2 ^ k) x q))
      = (if Suc (length (q_list k q)) < 2 ^ k then q_list k q @ [x] else q_list k q)
    \<and> fst (try_push (2 ^ k) x q) = (Suc (length (q_list k q)) < 2 ^ k)
    \<and> fst (try_pop (2 ^ k) q) = (case q_list k q of [] \<Rightarrow> None | y # _ \<Rightarrow> Some y)
    \<and> q_list k (snd (try_pop (2 ^ k) q)) = tl (q_list k q)
    \<and> try_peek q = fst (try_pop (2 ^ k) q)
    \<and> unat (queue_size (2 ^ k) q) = length (q_list k q)
    \<and> q_ok k (snd (try_push (2 ^ k) x q)) \<and> q_ok k (snd (try_pop (2 ^ k) q))"
  using try_push_list [OF assms, of x "fst (try_push (2 ^ k) x q)" "snd (try_push (2 ^ k) x q)"]
    try_pop_list [OF assms, of "fst (try_pop (2 ^ k) q)" "snd (try_pop (2 ^ k) q)"]
    try_peek_list [OF assms] queue_size_list [of k q]
  by (auto split: list.splits)

theorem spsc_queue_refines_list_witness:
  "q_list 2 (snd (try_push (2 ^ 2) (7 :: u32) \<lparr>q_head = 2, q_tail = 3, q_buffer = (\<lambda>i. ucast i)\<rparr>))
     = [3, 0, 1]"
proof -
  let ?q = "\<lparr>q_head = 2, q_tail = 3, q_buffer = (\<lambda>i. ucast i)\<rparr> :: u32 spsc_queue"
  have "ring_at 2 ?q 3 6" by (simp add: ring_at_def)
  then have "q_ok 2 ?q" "q_list 2 ?q = [3, 0, 1]"
    by (simp_all add: ring_q_ok ring_list ring_slot_def upt_rec)
  then show ?thesis using spsc_queue_refines_list [of 2 ?q 7] by simp
qed

text \<open>First in, first out, without loss.  For the capacity the program uses and any mix of
  pushes and pops, the items that were queued at the start followed by the accepted pushes
  are exactly the items popped followed by those still queued, in this order.\<close>

theorem spsc_queue_fifo:
  assumes "q_ok 18 q"
    and "run_queue (try_push kQueueCapacity) (try_pop kQueueCapacity) q ops = (ins, outs, q')"
  shows "q_list 18 q @ ins = outs @ q_list 18 q' \<and> q_ok 18 q'"
  using shm_queue.run_fifo [OF assms] by blast

theorem spsc_queue_fifo_witness:
  "\<exists>q'. run_queue (try_push kQueueCapacity) (try_pop kQueueCapacity)
        (queue_init \<lparr>q_head = 5, q_tail = 9, q_buffer = (\<lambda>_. 0 :: u32)\<rparr>)
        [Push 1, Push 2, Pop] = ([1, 2], [1], q') \<and> q_list 18 q' = [2]"
proof -
  let ?q = "queue_init \<lparr>q_head = 5, q_tail = 9, q_buffer = (\<lambda>_. 0 :: u32)\<rparr>"
  obtain q' where r: "run_queue (try_push kQueueCapacity) (try_pop kQueueCapacity) ?q
      [Push 1, Push 2, Pop] = ([1, 2], [1], q')"
    by (simp add: queue_init_def try_push_def try_pop_def kMask_def kQueueCapacity_def Let_def)
  have "q_ok 18 ?q \<and> q_list 18 ?q = []" by (rule queue_init_list) simp
  with spsc_queue_fifo [OF _ r] r show ?thesis by auto
qed

end
