(* ===== verification/Spsc_Concurrent.thy ===== *)
theory Spsc_Concurrent
  imports Spsc_Queue
begin

text \<open>
  \<^verbatim>\<open>try_push\<close> and \<^verbatim>\<open>try_pop\<close> of \<^verbatim>\<open>src/shm/spsc_queue.hpp\<close> as they run in two
  processes: every load and store of a shared location is a step, and the steps of one
  producer and one consumer interleave freely.  The acquire loads and release stores on
  \<open>head\<close> and \<open>tail\<close> order the buffer accesses as a sequentially consistent interleaving does,
  because the producer alone writes \<open>head\<close> and the consumer alone writes \<open>tail\<close>.

  \<open>put\<close> and \<open>got\<close> are ghosts: the items whose push returned true and those a pop returned.
\<close>

section \<open>Program counters and steps\<close>

datatype 'a producer_pc =
    PIdle
  | PHead 'a u64 \<comment> \<open>the item and the loaded head\<close>
  | PTail 'a u64 u64 \<comment> \<open>and the loaded tail\<close>
  | PWritten 'a u64 \<comment> \<open>the buffer is written, the head not yet published\<close>

datatype 'a consumer_pc =
    CIdle
  | CTail u64
  | CHead u64 u64
  | CRead u64 'a

record 'a spsc_sys =
  sq :: "'a spsc_queue"
  producer :: "'a producer_pc"
  consumer :: "'a consumer_pc"
  put :: "'a list"
  got :: "'a list"

inductive spsc_step :: "u64 \<Rightarrow> 'a spsc_sys \<Rightarrow> 'a spsc_sys \<Rightarrow> bool" for capacity where
  p_load_head: "producer s = PIdle \<Longrightarrow>
     spsc_step capacity s (s\<lparr>producer := PHead x (q_head (sq s))\<rparr>)"
| p_load_tail: "producer s = PHead x h \<Longrightarrow>
     spsc_step capacity s (s\<lparr>producer := PTail x h (q_tail (sq s))\<rparr>)"
| p_full: "producer s = PTail x h t \<Longrightarrow> (h + 1) AND kMask capacity = t \<Longrightarrow>
     spsc_step capacity s (s\<lparr>producer := PIdle\<rparr>)"
| p_write: "producer s = PTail x h t \<Longrightarrow> (h + 1) AND kMask capacity \<noteq> t \<Longrightarrow>
     spsc_step capacity s
       (s\<lparr>sq := (sq s)\<lparr>q_buffer := (q_buffer (sq s))(h := x)\<rparr>, producer := PWritten x h\<rparr>)"
| p_publish: "producer s = PWritten x h \<Longrightarrow>
     spsc_step capacity s
       (s\<lparr>sq := (sq s)\<lparr>q_head := (h + 1) AND kMask capacity\<rparr>, producer := PIdle,
          put := put s @ [x]\<rparr>)"
| c_load_tail: "consumer s = CIdle \<Longrightarrow>
     spsc_step capacity s (s\<lparr>consumer := CTail (q_tail (sq s))\<rparr>)"
| c_load_head: "consumer s = CTail t \<Longrightarrow>
     spsc_step capacity s (s\<lparr>consumer := CHead t (q_head (sq s))\<rparr>)"
| c_empty: "consumer s = CHead t h \<Longrightarrow> t = h \<Longrightarrow>
     spsc_step capacity s (s\<lparr>consumer := CIdle\<rparr>)"
| c_read: "consumer s = CHead t h \<Longrightarrow> t \<noteq> h \<Longrightarrow>
     spsc_step capacity s (s\<lparr>consumer := CRead t (q_buffer (sq s) t)\<rparr>)"
| c_publish: "consumer s = CRead t x \<Longrightarrow>
     spsc_step capacity s
       (s\<lparr>sq := (sq s)\<lparr>q_tail := (t + 1) AND kMask capacity\<rparr>, consumer := CIdle,
          got := got s @ [x]\<rparr>)"

definition spsc_start :: "'a spsc_queue \<Rightarrow> 'a spsc_sys" where
  "spsc_start q = \<lparr>sq = queue_init q, producer = PIdle, consumer = CIdle, put = [], got = []\<rparr>"

section \<open>The invariant\<close>

text \<open>
  The producer may hold a stale tail: it was current when fewer items had been taken.  The
  consumer may hold a stale head.  Both are on the safe side.
\<close>

fun producer_ok :: "nat \<Rightarrow> 'a spsc_queue \<Rightarrow> nat \<Rightarrow> nat \<Rightarrow> 'a producer_pc \<Rightarrow> bool" where
  "producer_ok k q t h PIdle = True"
| "producer_ok k q t h (PHead x hw) = (hw = q_head q)"
| "producer_ok k q t h (PTail x hw tw) =
     (hw = q_head q \<and> (\<exists>t' \<le> t. unat tw = t' mod 2 ^ k \<and> h < t' + 2 ^ k))"
| "producer_ok k q t h (PWritten x hw) =
     (hw = q_head q \<and> ring_slot k q h = x \<and> Suc h < t + 2 ^ k)"

fun consumer_ok :: "nat \<Rightarrow> 'a spsc_queue \<Rightarrow> nat \<Rightarrow> nat \<Rightarrow> 'a list \<Rightarrow> 'a consumer_pc \<Rightarrow> bool" where
  "consumer_ok k q t h items CIdle = True"
| "consumer_ok k q t h items (CTail tw) = (tw = q_tail q)"
| "consumer_ok k q t h items (CHead tw hw) =
     (tw = q_tail q \<and> (\<exists>h'. t \<le> h' \<and> h' \<le> h \<and> unat hw = h' mod 2 ^ k))"
| "consumer_ok k q t h items (CRead tw x) = (tw = q_tail q \<and> t < h \<and> x = items ! t)"

definition spsc_inv :: "nat \<Rightarrow> 'a spsc_sys \<Rightarrow> bool" where
  "spsc_inv k s \<longleftrightarrow>
     (let t = length (got s); h = length (put s)
      in ring_at k (sq s) t h
         \<and> (\<forall>i. t \<le> i \<and> i < h \<longrightarrow> ring_slot k (sq s) i = put s ! i)
         \<and> got s = take t (put s)
         \<and> producer_ok k (sq s) t h (producer s)
         \<and> consumer_ok k (sq s) t h (put s) (consumer s))"

lemma spsc_inv_start: "k < 64 \<Longrightarrow> spsc_inv k (spsc_start q)"
  by (simp add: spsc_inv_def spsc_start_def ring_at_def queue_init_def)

lemma spsc_inv_list: "spsc_inv k s \<Longrightarrow> put s = got s @ q_list k (sq s)"
proof -
  assume inv: "spsc_inv k s"
  let ?t = "length (got s)" and ?h = "length (put s)"
  have r: "ring_at k (sq s) ?t ?h" and g: "got s = take ?t (put s)"
    and v: "\<And>i. ?t \<le> i \<Longrightarrow> i < ?h \<Longrightarrow> ring_slot k (sq s) i = put s ! i"
    using inv by (auto simp: spsc_inv_def Let_def)
  have "q_list k (sq s) = map (\<lambda>i. put s ! i) [?t..<?h]"
    using v by (simp add: ring_list [OF r])
  also have "\<dots> = drop ?t (put s)"
    by (rule nth_equalityI) simp_all
  finally show ?thesis by (metis append_take_drop_id g)
qed

text \<open>What a stale index still tells: the comparison fails only where there is no room, or no item.\<close>

lemma stale_tail_room:
  assumes r: "ring_at k q t h" and tw: "t' \<le> t" "unat tw = t' mod 2 ^ k" "h < t' + 2 ^ k"
    and ne: "(q_head q + 1) AND kMask (2 ^ k) \<noteq> tw"
  shows "Suc h < t + 2 ^ k"
proof -
  have k: "k < 64" "unat (q_head q) = h mod 2 ^ k" using r by (auto simp: ring_at_def)
  have "Suc h \<noteq> t' + 2 ^ k"
  proof
    assume "Suc h = t' + 2 ^ k"
    then have "Suc h mod 2 ^ k = t' mod 2 ^ k" by simp
    then have "unat ((q_head q + 1) AND kMask (2 ^ k)) = unat tw"
      using k tw(2) by (simp add: unat_succ_mask mod_Suc_eq)
    with ne show False by (simp add: word_unat_eq_iff)
  qed
  with tw(1,3) show ?thesis by linarith
qed

lemma stale_head_item:
  assumes r: "ring_at k q t h" and hw: "t \<le> h'" "h' \<le> h" "unat hw = h' mod 2 ^ k"
    and ne: "q_tail q \<noteq> hw"
  shows "t < h"
proof (rule ccontr)
  assume "\<not> t < h"
  with hw(1,2) have "h' = t" by simp
  with hw(3) r ne show False by (auto simp: ring_at_def word_unat_eq_iff)
qed

lemma ring_at_write:
  assumes "ring_at k q t h"
  shows "ring_at k (q\<lparr>q_buffer := (q_buffer q)(q_head q := x)\<rparr>) t h"
    "ring_slot k (q\<lparr>q_buffer := (q_buffer q)(q_head q := x)\<rparr>) h = x"
    "t \<le> i \<Longrightarrow> i < h \<Longrightarrow>
     ring_slot k (q\<lparr>q_buffer := (q_buffer q)(q_head q := x)\<rparr>) i = ring_slot k q i"
proof -
  let ?q = "q\<lparr>q_buffer := (q_buffer q)(q_head q := x)\<rparr>"
  show r: "ring_at k ?q t h" using assms by (simp add: ring_at_def)
  show "ring_slot k ?q h = x" using ring_slot_head [OF r] by simp
  show "t \<le> i \<Longrightarrow> i < h \<Longrightarrow> ring_slot k ?q i = ring_slot k q i"
    using ring_slot_other [OF assms] by (simp add: ring_slot_def)
qed

lemma ring_at_publish_head:
  assumes "ring_at k q t h" "Suc h < t + 2 ^ k"
  shows "ring_at k (q\<lparr>q_head := (q_head q + 1) AND kMask (2 ^ k)\<rparr>) t (Suc h)"
  using assms by (auto simp: ring_at_def unat_succ_mask mod_Suc_eq)

lemma ring_at_publish_tail:
  assumes "ring_at k q t h" "t < h"
  shows "ring_at k (q\<lparr>q_tail := (q_tail q + 1) AND kMask (2 ^ k)\<rparr>) (Suc t) h"
  using assms by (auto simp: ring_at_def unat_succ_mask mod_Suc_eq)

lemma ring_slot_index [simp]:
  "ring_slot k (q\<lparr>q_head := a\<rparr>) i = ring_slot k q i"
  "ring_slot k (q\<lparr>q_tail := a\<rparr>) i = ring_slot k q i"
  by (simp_all add: ring_slot_def)

section \<open>Every step keeps the invariant\<close>

lemma producer_ok_cong:
  assumes "q_head q' = q_head q" "ring_slot k q' h = ring_slot k q h" "t \<le> t'"
    and "producer_ok k q t h pc"
  shows "producer_ok k q' t' h pc"
  using assms by (cases pc) (auto intro: order_trans)

lemma consumer_ok_cong:
  assumes "q_tail q' = q_tail q" "h \<le> h'" "take h items' = items" "length items = h"
    and "consumer_ok k q t h items pc"
  shows "consumer_ok k q' t h' items' pc"
  using assms by (cases pc) (auto intro: order_trans)

lemma spsc_inv_producer:
  assumes "spsc_inv k s" "producer_ok k (sq s) (length (got s)) (length (put s)) pc"
  shows "spsc_inv k (s\<lparr>producer := pc\<rparr>)"
  using assms by (simp add: spsc_inv_def Let_def)

lemma spsc_inv_consumer:
  assumes "spsc_inv k s" "consumer_ok k (sq s) (length (got s)) (length (put s)) (put s) pc"
  shows "spsc_inv k (s\<lparr>consumer := pc\<rparr>)"
  using assms by (simp add: spsc_inv_def Let_def)

lemma spsc_inv_write:
  assumes inv: "spsc_inv k s" and pc: "producer s = PTail x h t"
    and ne: "(h + 1) AND kMask (2 ^ k) \<noteq> t"
  shows "spsc_inv k (s\<lparr>sq := (sq s)\<lparr>q_buffer := (q_buffer (sq s))(h := x)\<rparr>, producer := PWritten x h\<rparr>)"
proof -
  let ?T = "length (got s)" and ?H = "length (put s)"
  have r: "ring_at k (sq s) ?T ?H"
    and slots: "\<And>i. ?T \<le> i \<Longrightarrow> i < ?H \<Longrightarrow> ring_slot k (sq s) i = put s ! i"
    and g: "got s = take ?T (put s)"
    and c: "consumer_ok k (sq s) ?T ?H (put s) (consumer s)"
    using inv by (auto simp: spsc_inv_def Let_def)
  obtain t' where h: "h = q_head (sq s)" and t': "t' \<le> ?T" "unat t = t' mod 2 ^ k" "?H < t' + 2 ^ k"
    using inv pc by (auto simp: spsc_inv_def Let_def)
  have "Suc ?H < ?T + 2 ^ k"
    using stale_tail_room [OF r t'] ne h by simp
  moreover have "consumer_ok k ((sq s)\<lparr>q_buffer := (q_buffer (sq s))(h := x)\<rparr>) ?T ?H (put s) (consumer s)"
    using c by (rule consumer_ok_cong [rotated 4]) simp_all
  ultimately show ?thesis
    using ring_at_write [OF r] slots g by (simp add: spsc_inv_def Let_def h)
qed

lemma spsc_inv_publish_head:
  assumes inv: "spsc_inv k s" and pc: "producer s = PWritten x h"
  shows "spsc_inv k (s\<lparr>sq := (sq s)\<lparr>q_head := (h + 1) AND kMask (2 ^ k)\<rparr>, producer := PIdle,
      put := put s @ [x]\<rparr>)"
proof -
  let ?T = "length (got s)" and ?H = "length (put s)"
  let ?q = "(sq s)\<lparr>q_head := (h + 1) AND kMask (2 ^ k)\<rparr>"
  have r: "ring_at k (sq s) ?T ?H"
    and slots: "\<And>i. ?T \<le> i \<Longrightarrow> i < ?H \<Longrightarrow> ring_slot k (sq s) i = put s ! i"
    and g: "got s = take ?T (put s)"
    and c: "consumer_ok k (sq s) ?T ?H (put s) (consumer s)"
    and p: "h = q_head (sq s)" "ring_slot k (sq s) ?H = x" "Suc ?H < ?T + 2 ^ k"
    using inv pc by (auto simp: spsc_inv_def Let_def)
  have "consumer_ok k ?q ?T (Suc ?H) (put s @ [x]) (consumer s)"
    using c by (rule consumer_ok_cong [rotated 4]) simp_all
  moreover have "ring_at k ?q ?T (Suc ?H)"
    using ring_at_publish_head [OF r p(3)] p(1) by simp
  moreover have "?T \<le> ?H" using r by (simp add: ring_at_def)
  moreover have "\<forall>i. ?T \<le> i \<and> i < Suc ?H \<longrightarrow> ring_slot k ?q i = (put s @ [x]) ! i"
    using slots p(2) by (auto simp: nth_append less_Suc_eq)
  ultimately show ?thesis using g by (simp add: spsc_inv_def Let_def)
qed

lemma spsc_inv_publish_tail:
  assumes inv: "spsc_inv k s" and pc: "consumer s = CRead t x"
  shows "spsc_inv k (s\<lparr>sq := (sq s)\<lparr>q_tail := (t + 1) AND kMask (2 ^ k)\<rparr>, consumer := CIdle,
      got := got s @ [x]\<rparr>)"
proof -
  let ?T = "length (got s)" and ?H = "length (put s)"
  let ?q = "(sq s)\<lparr>q_tail := (t + 1) AND kMask (2 ^ k)\<rparr>"
  have r: "ring_at k (sq s) ?T ?H"
    and slots: "\<And>i. ?T \<le> i \<Longrightarrow> i < ?H \<Longrightarrow> ring_slot k (sq s) i = put s ! i"
    and g: "got s = take ?T (put s)"
    and p: "producer_ok k (sq s) ?T ?H (producer s)"
    and c: "t = q_tail (sq s)" "?T < ?H" "x = put s ! ?T"
    using inv pc by (auto simp: spsc_inv_def Let_def)
  have "producer_ok k ?q (Suc ?T) ?H (producer s)"
    using p by (rule producer_ok_cong [rotated 3]) simp_all
  moreover have "ring_at k ?q (Suc ?T) ?H"
    using ring_at_publish_tail [OF r c(2)] c(1) by simp
  moreover have "take (Suc ?T) (put s) = got s @ [x]"
    using g c(2,3) by (metis take_Suc_conv_app_nth)
  ultimately show ?thesis using slots c(2) by (simp add: spsc_inv_def Let_def min_def)
qed

lemma spsc_step_inv:
  assumes "spsc_step (2 ^ k) s s'" "spsc_inv k s"
  shows "spsc_inv k s'"
  using assms
proof (induction rule: spsc_step.induct)
  case (p_load_tail s x h)
  have r: "ring_at k (sq s) (length (got s)) (length (put s))"
    using p_load_tail.prems by (simp add: spsc_inv_def Let_def)
  then have "\<exists>t' \<le> length (got s). unat (q_tail (sq s)) = t' mod 2 ^ k \<and> length (put s) < t' + 2 ^ k"
    by (auto simp: ring_at_def)
  with p_load_tail show ?case by (intro spsc_inv_producer) (auto simp: spsc_inv_def Let_def)
next
  case (c_load_head s t)
  have "ring_at k (sq s) (length (got s)) (length (put s))"
    using c_load_head.prems by (simp add: spsc_inv_def Let_def)
  then have "\<exists>h'. length (got s) \<le> h' \<and> h' \<le> length (put s) \<and> unat (q_head (sq s)) = h' mod 2 ^ k"
    by (auto simp: ring_at_def)
  with c_load_head show ?case by (intro spsc_inv_consumer) (auto simp: spsc_inv_def Let_def)
next
  case (c_read s t h)
  let ?T = "length (got s)" and ?H = "length (put s)"
  have r: "ring_at k (sq s) ?T ?H" and t: "t = q_tail (sq s)"
    and slots: "\<And>i. ?T \<le> i \<Longrightarrow> i < ?H \<Longrightarrow> ring_slot k (sq s) i = put s ! i"
    using c_read by (auto simp: spsc_inv_def Let_def)
  have lt: "?T < ?H" using c_read stale_head_item [OF r] by (auto simp: spsc_inv_def Let_def)
  have "q_buffer (sq s) t = put s ! ?T"
    using ring_slot_tail [OF r] slots [OF le_refl lt] t by simp
  with c_read.prems lt t show ?case by (intro spsc_inv_consumer) auto
next
  case (p_write s x h t)
  then show ?case by (intro spsc_inv_write)
next
  case (p_publish s x h)
  then show ?case by (intro spsc_inv_publish_head)
next
  case (c_publish s t x)
  then show ?case by (intro spsc_inv_publish_tail)
qed (auto intro!: spsc_inv_producer spsc_inv_consumer)

inductive spsc_reachable :: "nat \<Rightarrow> 'a spsc_sys \<Rightarrow> bool" for k where
  reach_start: "spsc_reachable k (spsc_start q)"
| reach_step: "spsc_reachable k s \<Longrightarrow> spsc_step (2 ^ k) s s' \<Longrightarrow> spsc_reachable k s'"

lemma spsc_reachable_inv:
  assumes "spsc_reachable k s" "k < 64"
  shows "spsc_inv k s"
  using assms by (induction rule: spsc_reachable.induct) (auto intro: spsc_inv_start spsc_step_inv)

section \<open>Properties\<close>

text \<open>C12: Lock-free hand-over.  However the loads and stores of one producer and one consumer
  interleave, in every reachable state the items accepted so far are exactly the items
  delivered so far followed by those queued, in order: nothing is lost, duplicated,
  reordered or read before it was written, and fewer than capacity items are queued.\<close>

theorem spsc_concurrent_fifo:
  assumes "spsc_reachable k s" and "k < 64"
  shows "put s = got s @ q_list k (sq s) \<and> length (q_list k (sq s)) < 2 ^ k"
proof -
  have inv: "spsc_inv k s" using assms by (rule spsc_reachable_inv)
  then have "ring_at k (sq s) (length (got s)) (length (put s))" by (simp add: spsc_inv_def Let_def)
  then have "length (q_list k (sq s)) < 2 ^ k" by (auto simp: ring_list) (auto simp: ring_at_def)
  with spsc_inv_list [OF inv] show ?thesis by blast
qed

text \<open>The run of the witness: the producer pushes 5 while the consumer, which had already
  loaded the tail, loads the head only afterwards and takes the item.\<close>

lemma spsc_run_example:
  "\<exists>s. spsc_reachable 1 s \<and> put s = [5 :: nat] \<and> got s = [5]"
proof -
  let ?s0 = "spsc_start \<lparr>q_head = 9, q_tail = 3, q_buffer = (\<lambda>_. 0 :: nat)\<rparr>"
  let ?s1 = "?s0\<lparr>producer := PHead 5 0\<rparr>"
  let ?s2 = "?s1\<lparr>producer := PTail 5 0 0\<rparr>"
  let ?s3 = "?s2\<lparr>consumer := CTail 0\<rparr>"
  let ?s4 = "?s3\<lparr>sq := (sq ?s3)\<lparr>q_buffer := (q_buffer (sq ?s3))(0 := 5)\<rparr>, producer := PWritten 5 0\<rparr>"
  let ?s5 = "?s4\<lparr>sq := (sq ?s4)\<lparr>q_head := 1\<rparr>, producer := PIdle, put := [5]\<rparr>"
  let ?s6 = "?s5\<lparr>consumer := CHead 0 1\<rparr>"
  let ?s7 = "?s6\<lparr>consumer := CRead 0 5\<rparr>"
  let ?s8 = "?s7\<lparr>sq := (sq ?s7)\<lparr>q_tail := 1\<rparr>, consumer := CIdle, got := [5]\<rparr>"
  note d = spsc_start_def queue_init_def kMask_def
  have "spsc_reachable 1 ?s0" by (rule reach_start)
  then have "spsc_reachable 1 ?s1"
    by (rule reach_step) (use p_load_head [of ?s0 "2 ^ 1" 5] in \<open>simp add: d\<close>)
  then have "spsc_reachable 1 ?s2"
    by (rule reach_step) (use p_load_tail [of ?s1 5 0 "2 ^ 1"] in \<open>simp add: d\<close>)
  then have "spsc_reachable 1 ?s3"
    by (rule reach_step) (use c_load_tail [of ?s2 "2 ^ 1"] in \<open>simp add: d\<close>)
  then have "spsc_reachable 1 ?s4"
    by (rule reach_step) (use p_write [of ?s3 5 0 0 "2 ^ 1"] in \<open>simp add: d\<close>)
  then have "spsc_reachable 1 ?s5"
    by (rule reach_step) (use p_publish [of ?s4 5 0 "2 ^ 1"] in \<open>simp add: d\<close>)
  then have "spsc_reachable 1 ?s6"
    by (rule reach_step) (use c_load_head [of ?s5 0 "2 ^ 1"] in \<open>simp add: d\<close>)
  then have "spsc_reachable 1 ?s7"
    by (rule reach_step) (use c_read [of ?s6 0 1 "2 ^ 1"] in \<open>simp add: d\<close>)
  then have "spsc_reachable 1 ?s8"
    by (rule reach_step) (use c_publish [of ?s7 0 5 "2 ^ 1"] in \<open>simp add: d\<close>)
  then show ?thesis by (rule exI [of _ ?s8, OF conjI]) simp
qed

theorem spsc_concurrent_fifo_witness:
  "\<exists>s. spsc_reachable 1 s \<and> put s = [5 :: nat] \<and> got s = [5] \<and> q_list 1 (sq s) = []"
proof -
  obtain s where s: "spsc_reachable 1 s" "put s = [5 :: nat]" "got s = [5]"
    using spsc_run_example by blast
  have "put s = got s @ q_list 1 (sq s)" using spsc_concurrent_fifo [OF s(1)] by simp
  with s show ?thesis by auto
qed

end
