(* ===== verification/Order_Types.thy ===== *)
theory Order_Types
  imports Prelude
begin

text \<open>
  The data of the program: the enumerations of \<^verbatim>\<open>src/common/types.hpp\<close> and
  \<^verbatim>\<open>src/order/order_request.hpp\<close>, the shared-memory records \<open>OrderRequest\<close> and
  \<open>TradeResponse\<close>, the bounded \<open>FixedString\<close>, and the predicates on order states that
  the order book, the recovery scan, the event loop and the execution engine each define.
  The enumerators keep their source names; two enumerations with a common enumerator are told
  apart as in the source (\<open>OrderState.Finished\<close>, \<open>ExecutionState.Finished\<close>), and an
  enumerator \<open>None\<close> carries a prefix.
\<close>

section \<open>Fixed strings\<close>

text \<open>
  \<open>FixedString<N>\<close> is modelled by what \<open>view()\<close> returns: the bytes before the first NUL.
  \<open>assign\<close> copies at most \<open>N - 1\<close> bytes and terminates them.
\<close>

definition nul :: char where
  "nul = CHR 0x00"

definition cstr_view :: "string \<Rightarrow> string" where
  "cstr_view s = takeWhile (\<lambda>c. c \<noteq> nul) s"

definition fs_assign :: "nat \<Rightarrow> string \<Rightarrow> string" where
  "fs_assign n sv = cstr_view (take (n - 1) sv)"

lemma cstr_view_id [simp]: "nul \<notin> set s \<Longrightarrow> cstr_view s = s"
  by (auto simp: cstr_view_def takeWhile_eq_all_conv)

lemma nul_notin_cstr_view [simp]: "nul \<notin> set (cstr_view s)"
  by (auto simp: cstr_view_def dest: set_takeWhileD)

lemma nul_notin_fs_assign [simp]: "nul \<notin> set (fs_assign n s)"
  by (simp add: fs_assign_def)

lemma fs_assign_id: "nul \<notin> set s \<Longrightarrow> length s < n \<Longrightarrow> fs_assign n s = s"
  by (simp add: fs_assign_def)

lemma length_fs_assign: "0 < n \<Longrightarrow> length (fs_assign n s) < n"
proof -
  assume "0 < n"
  have "length (fs_assign n s) \<le> length (take (n - 1) s)"
    unfolding fs_assign_def cstr_view_def by (rule length_takeWhile_le)
  with \<open>0 < n\<close> show ?thesis by auto
qed

section \<open>Enumerations\<close>

datatype RiskResult =
    Pass | RejectInsufficientFund | RejectInsufficientPosition | RejectExceedMaxOrderValue
  | RejectExceedMaxOrderVolume | RejectExceedDailyLimit | RejectPriceOutOfRange
  | RejectSecurityNotAllowed | RejectAccountFrozen | RejectDuplicateOrder | RejectUnknown

datatype SplitStrategy = SplitNone | FixedSize | TWAP | VWAP | Iceberg

datatype PassiveExecutionAlgo =
    Default | AlgoNone | FixedSize | TWAP | VWAP | Iceberg

datatype OrderType = NotSet | New | Cancel | Unknown

datatype TradeSide = NotSet | Buy | Sell

datatype Market = NotSet | SZ | SH | BJ | HK | Unknown

datatype OrderState =
    NotSet | UserSubmitted
  | RiskControllerPending | RiskControllerRejected | RiskControllerAccepted
  | TraderPending | TraderRejected | TraderSubmitted | TraderError
  | BrokerRejected | BrokerAccepted
  | MarketRejected | MarketAccepted
  | Finished | Unknown

datatype ExecutionState = ExecNone | Running | Cancelling | Finished | Failed

datatype OrderSlotState =
    Empty | Reserved | UpstreamQueued | UpstreamDequeued | RiskRejected
  | DownstreamQueued | DownstreamDequeued | Terminal | QueuePushFailed

datatype order_slot_source_t = UnknownSource | User | AccountInternal

section \<open>Predicates on order states\<close>

text \<open>
  The same switch stands in \<^verbatim>\<open>order_book.cpp\<close>, \<^verbatim>\<open>event_loop.cpp\<close> and
  (as \<open>is_terminal_order_state\<close>) in \<^verbatim>\<open>orders_shm.hpp\<close>.
\<close>

fun is_terminal_state :: "OrderState \<Rightarrow> bool" where
  "is_terminal_state RiskControllerRejected = True"
| "is_terminal_state TraderRejected = True"
| "is_terminal_state TraderError = True"
| "is_terminal_state BrokerRejected = True"
| "is_terminal_state MarketRejected = True"
| "is_terminal_state OrderState.Finished = True"
| "is_terminal_state OrderState.Unknown = True"
| "is_terminal_state _ = False"

fun status_progress_rank :: "OrderState \<Rightarrow> int" where
  "status_progress_rank MarketAccepted = 7"
| "status_progress_rank BrokerAccepted = 6"
| "status_progress_rank TraderSubmitted = 5"
| "status_progress_rank TraderPending = 4"
| "status_progress_rank RiskControllerAccepted = 3"
| "status_progress_rank RiskControllerPending = 2"
| "status_progress_rank UserSubmitted = 1"
| "status_progress_rank _ = 0"

lemma terminal_rank_0: "is_terminal_state s \<Longrightarrow> status_progress_rank s = 0"
  by (cases s) auto

lemma status_progress_rank_nonneg [simp]: "0 \<le> status_progress_rank s"
  by (cases s) auto

section \<open>Order requests\<close>

text \<open>
  The fields of \<open>OrderRequest\<close> in declaration order, less padding and the two reserved
  flag bytes.  \<open>broker_order_id\<close> is the union read as \<open>as_uint\<close>, the only member the
  copy operations transfer.
\<close>

record OrderRequest =
  internal_order_id :: InternalOrderId
  passive_execution_algo :: PassiveExecutionAlgo
  order_type :: OrderType
  trade_side :: TradeSide
  market :: Market
  volume_entrust :: Volume
  dprice_entrust :: DPrice
  orig_internal_order_id :: InternalOrderId
  internal_security_id :: InternalSecurityId
  security_id :: SecurityId
  active_strategy_claimed :: u8
  broker_order_id :: u64
  volume_traded :: Volume
  volume_remain :: Volume
  dvalue_traded :: DValue
  dprice_traded :: DPrice
  dfee_estimate :: DValue
  dfee_executed :: DValue
  md_time_driven :: MdTime
  md_time_entrust :: MdTime
  md_time_cancel_sent :: MdTime
  md_time_cancel_done :: MdTime
  md_time_broker_response :: MdTime
  md_time_market_response :: MdTime
  md_time_traded_first :: MdTime
  md_time_traded_latest :: MdTime
  order_state :: OrderState
  execution_algo :: PassiveExecutionAlgo
  execution_state :: ExecutionState
  target_volume :: Volume
  working_volume :: Volume
  schedulable_volume :: Volume

definition OrderRequest_default :: OrderRequest where
  "OrderRequest_default = \<lparr>
     internal_order_id = 0, passive_execution_algo = Default, order_type = OrderType.NotSet,
     trade_side = TradeSide.NotSet, market = Market.NotSet, volume_entrust = 0,
     dprice_entrust = 0, orig_internal_order_id = 0, internal_security_id = [],
     security_id = [], active_strategy_claimed = 0, broker_order_id = 0, volume_traded = 0,
     volume_remain = 0, dvalue_traded = 0, dprice_traded = 0, dfee_estimate = 0,
     dfee_executed = 0, md_time_driven = 0, md_time_entrust = 0, md_time_cancel_sent = 0,
     md_time_cancel_done = 0, md_time_broker_response = 0, md_time_market_response = 0,
     md_time_traded_first = 0, md_time_traded_latest = 0, order_state = OrderState.NotSet,
     execution_algo = AlgoNone, execution_state = ExecNone, target_volume = 0,
     working_volume = 0, schedulable_volume = 0\<rparr>"

definition init_new ::
    "string \<Rightarrow> InternalSecurityId \<Rightarrow> InternalOrderId \<Rightarrow> TradeSide \<Rightarrow> Market \<Rightarrow> Volume
      \<Rightarrow> DPrice \<Rightarrow> MdTime \<Rightarrow> OrderRequest \<Rightarrow> OrderRequest" where
  "init_new sec_id internal_sec_id internal_id side mkt vol dpx md_time r = r\<lparr>
     internal_order_id := internal_id, order_type := New, trade_side := side, market := mkt,
     volume_entrust := vol, dprice_entrust := dpx, md_time_driven := md_time,
     md_time_entrust := 0, passive_execution_algo := Default,
     security_id := fs_assign 16 sec_id, internal_security_id := internal_sec_id,
     active_strategy_claimed := 0, md_time_cancel_sent := 0, md_time_cancel_done := 0,
     volume_traded := 0, volume_remain := vol, dvalue_traded := 0, dprice_traded := 0,
     dfee_estimate := 0, dfee_executed := 0, execution_algo := AlgoNone,
     execution_state := ExecNone, target_volume := 0, working_volume := 0,
     schedulable_volume := 0\<rparr>"

definition init_cancel ::
    "InternalOrderId \<Rightarrow> MdTime \<Rightarrow> InternalOrderId \<Rightarrow> OrderRequest \<Rightarrow> OrderRequest" where
  "init_cancel internal_id md_time orig_internal_id r = r\<lparr>
     internal_order_id := internal_id, order_type := Cancel, trade_side := TradeSide.NotSet,
     market := Market.NotSet, volume_entrust := 0, dprice_entrust := 0,
     md_time_driven := md_time, md_time_entrust := 0, passive_execution_algo := AlgoNone,
     security_id := fs_assign 16 [], internal_security_id := [], active_strategy_claimed := 0,
     orig_internal_order_id := orig_internal_id, md_time_cancel_sent := 0,
     md_time_cancel_done := 0, broker_order_id := 0, volume_traded := 0, volume_remain := 0,
     dvalue_traded := 0, dprice_traded := 0, dfee_estimate := 0, dfee_executed := 0,
     md_time_broker_response := 0, md_time_market_response := 0, md_time_traded_first := 0,
     md_time_traded_latest := 0, execution_algo := AlgoNone, execution_state := ExecNone,
     target_volume := 0, working_volume := 0, schedulable_volume := 0\<rparr>"

section \<open>Trade responses\<close>

record TradeResponse =
  tr_internal_order_id :: InternalOrderId
  tr_broker_order_id :: InternalOrderId
  tr_internal_security_id :: InternalSecurityId
  tr_trade_side :: TradeSide
  tr_new_state :: OrderState
  tr_volume_traded :: Volume
  tr_cancelled_volume :: Volume
  tr_dprice_traded :: DPrice
  tr_dvalue_traded :: DValue
  tr_dfee :: DValue
  tr_md_time_traded :: MdTime
  tr_recv_time_ns :: TimestampNs

definition TradeResponse_zero :: TradeResponse where
  "TradeResponse_zero = \<lparr>
     tr_internal_order_id = 0, tr_broker_order_id = 0, tr_internal_security_id = [],
     tr_trade_side = TradeSide.NotSet, tr_new_state = OrderState.NotSet, tr_volume_traded = 0,
     tr_cancelled_volume = 0, tr_dprice_traded = 0, tr_dvalue_traded = 0, tr_dfee = 0,
     tr_md_time_traded = 0, tr_recv_time_ns = 0\<rparr>"

section \<open>Orders in the order book\<close>

text \<open>
  \<open>OrderEntry\<close> extends the request with the book's bookkeeping; the request is the first
  field, as in the source.
\<close>

record OrderEntry =
  request :: OrderRequest
  submit_time_ns :: TimestampNs
  last_update_ns :: TimestampNs
  strategy_id :: StrategyId
  risk_result :: RiskResult
  retry_count :: u8
  is_split_child :: bool
  parent_order_id :: InternalOrderId
  shm_order_index :: u32
  fund_frozen :: DValue

definition kInvalidOrderIndex :: u32 where
  "kInvalidOrderIndex = - 1"

definition OrderEntry_default :: OrderEntry where
  "OrderEntry_default = \<lparr>
     request = OrderRequest_default, submit_time_ns = 0, last_update_ns = 0, strategy_id = 0,
     risk_result = Pass, retry_count = 0, is_split_child = False, parent_order_id = 0,
     shm_order_index = kInvalidOrderIndex, fund_frozen = 0\<rparr>"

definition entry_is_terminal :: "OrderEntry \<Rightarrow> bool" where
  "entry_is_terminal e = is_terminal_state (order_state (request e))"

definition entry_is_active :: "OrderEntry \<Rightarrow> bool" where
  "entry_is_active e = (\<not> entry_is_terminal e)"

end
