(* ===== verification/Orders_Shm.thy ===== *)
theory Orders_Shm
  imports Order_Types
begin

text \<open>
  \<^verbatim>\<open>src/shm/orders_shm.hpp\<close> and the pool of \<^verbatim>\<open>src/shm/shm_layout.hpp\<close>: the order slots
  that the API, the account service, the gateway and the monitors share.  Slots are handed
  out in increasing order and never reused within a day.  Every write brackets the slot with
  its sequence number (odd while a write is in progress), every read checks it.

  The functions here run without interference: one call is one step.  The header's time is that of the
  slot; the code reads the clock once more for it.  The header's magic,
  version and sizes belong to \<^verbatim>\<open>shm_manager.cpp\<close> and are left out.
\<close>

section \<open>Layout\<close>

type_synonym OrderIndex = u32

record OrderSlot =
  slot_seq :: u64
  slot_last_update_ns :: TimestampNs
  slot_stage :: OrderSlotState
  slot_source :: order_slot_source_t
  slot_request :: OrderRequest

record orders_shm_layout =
  os_capacity :: u32
  os_next_index :: OrderIndex
  os_full_reject_count :: u64
  os_last_update :: TimestampNs
  os_slots :: "OrderIndex \<Rightarrow> OrderSlot"

record order_slot_snapshot =
  ss_request :: OrderRequest
  ss_stage :: OrderSlotState
  ss_source :: order_slot_source_t
  ss_last_update_ns :: TimestampNs

definition OrderSlot_default :: OrderSlot where
  "OrderSlot_default = \<lparr>slot_seq = 0, slot_last_update_ns = 0, slot_stage = Empty,
     slot_source = UnknownSource, slot_request = OrderRequest_default\<rparr>"

definition orders_shm_new :: "u32 \<Rightarrow> orders_shm_layout" where
  "orders_shm_new capacity = \<lparr>os_capacity = capacity, os_next_index = 0,
     os_full_reject_count = 0, os_last_update = 0, os_slots = (\<lambda>_. OrderSlot_default)\<rparr>"

section \<open>Names of the dated pool\<close>

definition is_digit :: "char \<Rightarrow> bool" where
  "is_digit c = (48 \<le> (of_char c :: nat) \<and> (of_char c :: nat) \<le> 57)"

definition is_valid_trading_day :: "string \<Rightarrow> bool" where
  "is_valid_trading_day trading_day =
     (if length trading_day \<noteq> 8 then False else list_all is_digit trading_day)"

definition make_orders_shm_name :: "string \<Rightarrow> string \<Rightarrow> string" where
  "make_orders_shm_name base_name trading_day = base_name @ ''_'' @ trading_day"

text \<open>\<open>find_last_of('_')\<close>: the suffix after the last underscore, \<open>None\<close> if there is none.\<close>

definition after_last_underscore :: "string \<Rightarrow> string option" where
  "after_last_underscore s =
     (if CHR ''_'' \<in> set s then Some (rev (takeWhile (\<lambda>c. c \<noteq> CHR ''_'') (rev s))) else None)"

definition extract_trading_day_from_name :: "string \<Rightarrow> string option" where
  "extract_trading_day_from_name shm_name =
     (case after_last_underscore shm_name of
        None \<Rightarrow> None
      | Some suffix \<Rightarrow> if is_valid_trading_day suffix then Some suffix else None)"

section \<open>Slot operations\<close>

definition orders_shm_index_exists :: "orders_shm_layout \<Rightarrow> OrderIndex \<Rightarrow> bool" where
  "orders_shm_index_exists shm index =
     (if index = kInvalidOrderIndex then False
      else let upper = os_next_index shm in index < upper \<and> index < os_capacity shm)"

definition orders_shm_try_allocate :: "orders_shm_layout \<Rightarrow> OrderIndex option \<times> orders_shm_layout" where
  "orders_shm_try_allocate shm =
     (let current = os_next_index shm
      in if current \<ge> os_capacity shm
         then (None, shm\<lparr>os_full_reject_count := os_full_reject_count shm + 1\<rparr>)
         else (Some current, shm\<lparr>os_next_index := current + 1\<rparr>))"

definition orders_shm_mutate_slot ::
    "(OrderSlot \<Rightarrow> OrderSlot) \<Rightarrow> TimestampNs \<Rightarrow> OrderIndex \<Rightarrow> orders_shm_layout
      \<Rightarrow> bool \<times> orders_shm_layout" where
  "orders_shm_mutate_slot mutator now index shm =
     (if \<not> orders_shm_index_exists shm index then (False, shm)
      else let slot = os_slots shm index;
               seq = slot_seq slot;
               seq = (if seq AND 1 \<noteq> 0 then seq + 1 else seq);
               slot = slot\<lparr>slot_seq := seq + 1\<rparr>;
               slot = mutator slot;
               slot = slot\<lparr>slot_seq := seq + 2\<rparr>
           in (True, shm\<lparr>os_slots := (os_slots shm)(index := slot), os_last_update := now\<rparr>))"

definition orders_shm_write_order ::
    "OrderIndex \<Rightarrow> OrderRequest \<Rightarrow> OrderSlotState \<Rightarrow> order_slot_source_t \<Rightarrow> TimestampNs
      \<Rightarrow> orders_shm_layout \<Rightarrow> bool \<times> orders_shm_layout" where
  "orders_shm_write_order index req stage source update_ns shm =
     orders_shm_mutate_slot
       (\<lambda>slot. slot\<lparr>slot_request := req, slot_stage := stage, slot_source := source,
                    slot_last_update_ns := update_ns\<rparr>) update_ns index shm"

definition orders_shm_sync_order ::
    "OrderIndex \<Rightarrow> OrderRequest \<Rightarrow> TimestampNs \<Rightarrow> orders_shm_layout \<Rightarrow> bool \<times> orders_shm_layout" where
  "orders_shm_sync_order index req update_ns shm =
     orders_shm_mutate_slot
       (\<lambda>slot. slot\<lparr>slot_request := req, slot_last_update_ns := update_ns\<rparr>) update_ns index shm"

definition orders_shm_update_stage ::
    "OrderIndex \<Rightarrow> OrderSlotState \<Rightarrow> TimestampNs \<Rightarrow> orders_shm_layout \<Rightarrow> bool \<times> orders_shm_layout" where
  "orders_shm_update_stage index stage update_ns shm =
     orders_shm_mutate_slot
       (\<lambda>slot. slot\<lparr>slot_stage := stage, slot_last_update_ns := update_ns\<rparr>) update_ns index shm"

definition orders_shm_append ::
    "OrderRequest \<Rightarrow> OrderSlotState \<Rightarrow> order_slot_source_t \<Rightarrow> TimestampNs
      \<Rightarrow> orders_shm_layout \<Rightarrow> OrderIndex option \<times> orders_shm_layout" where
  "orders_shm_append req stage source update_ns shm =
     (case orders_shm_try_allocate shm of
        (None, shm) \<Rightarrow> (None, shm)
      | (Some index, shm) \<Rightarrow>
          (let (written, shm) = orders_shm_write_order index req stage source update_ns shm
           in (if written then Some index else None, shm)))"

text \<open>
  The read loop gives up after 32 attempts.  Without interference all attempts see the same
  slot.
\<close>

fun orders_shm_read_attempts :: "nat \<Rightarrow> OrderSlot \<Rightarrow> order_slot_snapshot option" where
  "orders_shm_read_attempts 0 slot = None"
| "orders_shm_read_attempts (Suc n) slot =
     (let seq0 = slot_seq slot
      in if seq0 AND 1 \<noteq> 0 then orders_shm_read_attempts n slot
         else let snapshot = \<lparr>ss_request = slot_request slot, ss_stage = slot_stage slot,
                              ss_source = slot_source slot,
                              ss_last_update_ns = slot_last_update_ns slot\<rparr>;
                  seq1 = slot_seq slot
              in if seq0 = seq1 \<and> seq1 AND 1 = 0 then Some snapshot
                 else orders_shm_read_attempts n slot)"

definition orders_shm_read_snapshot :: "orders_shm_layout \<Rightarrow> OrderIndex \<Rightarrow> order_slot_snapshot option" where
  "orders_shm_read_snapshot shm index =
     (if \<not> orders_shm_index_exists shm index then None
      else orders_shm_read_attempts 32 (os_slots shm index))"

section \<open>Facts\<close>

definition slot_snapshot :: "OrderSlot \<Rightarrow> order_slot_snapshot" where
  "slot_snapshot slot = \<lparr>ss_request = slot_request slot, ss_stage = slot_stage slot,
     ss_source = slot_source slot, ss_last_update_ns = slot_last_update_ns slot\<rparr>"

definition pool_ok :: "orders_shm_layout \<Rightarrow> bool" where
  "pool_ok shm \<longleftrightarrow> os_next_index shm \<le> os_capacity shm
     \<and> (\<forall>i. slot_seq (os_slots shm i) AND 1 = 0)"

lemma even_and_1: "(x AND 1 = 0) = even (x :: u64)"
  by (simp add: and_one_eq even_iff_mod_2_eq_zero)

lemma seq_after_mutate_even:
  "((if (seq :: u64) AND 1 \<noteq> 0 then seq + 1 else seq) + 2) AND 1 = 0"
  by (simp add: even_and_1)

lemma read_attempts:
  "orders_shm_read_attempts n slot =
     (if n \<noteq> 0 \<and> slot_seq slot AND 1 = 0 then Some (slot_snapshot slot) else None)"
  by (induction n) (auto simp: Let_def slot_snapshot_def)

lemma read_snapshot_eq:
  "orders_shm_read_snapshot shm index =
     (if orders_shm_index_exists shm index \<and> slot_seq (os_slots shm index) AND 1 = 0
      then Some (slot_snapshot (os_slots shm index)) else None)"
  by (simp add: orders_shm_read_snapshot_def read_attempts)

lemma pool_ok_new: "pool_ok (orders_shm_new c)"
  by (simp add: pool_ok_def orders_shm_new_def OrderSlot_default_def)

lemma pool_ok_allocate: "pool_ok shm \<Longrightarrow> pool_ok (snd (orders_shm_try_allocate shm))"
  by (auto simp: pool_ok_def orders_shm_try_allocate_def Let_def not_le inc_le)

lemma pool_ok_mutate: "pool_ok shm \<Longrightarrow> pool_ok (snd (orders_shm_mutate_slot f now i shm))"
  by (auto simp: even_and_1 pool_ok_def orders_shm_mutate_slot_def Let_def)

lemma mutate_header [frame_simps]:
  "os_next_index (snd (orders_shm_mutate_slot f now i shm)) = os_next_index shm"
  "os_capacity (snd (orders_shm_mutate_slot f now i shm)) = os_capacity shm"
  "os_full_reject_count (snd (orders_shm_mutate_slot f now i shm)) = os_full_reject_count shm"
  by (simp_all add: orders_shm_mutate_slot_def Let_def)

lemma mutate_other_slot [frame_simps]:
  "j \<noteq> i \<Longrightarrow> os_slots (snd (orders_shm_mutate_slot f now i shm)) j = os_slots shm j"
  by (simp add: orders_shm_mutate_slot_def Let_def)

lemma mutate_exists [frame_simps]:
  "orders_shm_index_exists (snd (orders_shm_mutate_slot f now i shm)) j = orders_shm_index_exists shm j"
  by (simp add: orders_shm_index_exists_def mutate_header)

lemma fst_mutate: "fst (orders_shm_mutate_slot f now i shm) = orders_shm_index_exists shm i"
  by (simp add: orders_shm_mutate_slot_def Let_def)

lemmas slot_write_defs = orders_shm_write_order_def orders_shm_sync_order_def
  orders_shm_update_stage_def

lemma read_after_mutate:
  assumes "orders_shm_index_exists shm i"
  shows "orders_shm_read_snapshot (snd (orders_shm_mutate_slot f now i shm)) i =
    Some (slot_snapshot (f ((os_slots shm i)\<lparr>slot_seq :=
      (if slot_seq (os_slots shm i) AND 1 \<noteq> 0 then slot_seq (os_slots shm i) + 1
       else slot_seq (os_slots shm i)) + 1\<rparr>)))"
  using assms
  by (auto simp: read_snapshot_eq mutate_exists even_and_1)
    (auto simp: orders_shm_mutate_slot_def Let_def slot_snapshot_def even_and_1)

lemma read_other_after_mutate:
  "j \<noteq> i \<Longrightarrow> orders_shm_read_snapshot (snd (orders_shm_mutate_slot f now i shm)) j
    = orders_shm_read_snapshot shm j"
  by (simp add: read_snapshot_eq frame_simps)

lemma allocate_Some:
  assumes "orders_shm_try_allocate shm = (Some i, shm')"
  shows "i = os_next_index shm" "i < os_capacity shm" "os_next_index shm' = i + 1"
    "os_capacity shm' = os_capacity shm" "os_slots shm' = os_slots shm"
    "orders_shm_index_exists shm' i" "i < i + 1"
proof -
  show i: "i = os_next_index shm" "i < os_capacity shm" "os_next_index shm' = i + 1"
    "os_capacity shm' = os_capacity shm" "os_slots shm' = os_slots shm"
    using assms by (auto simp: orders_shm_try_allocate_def Let_def split: if_splits)
  have lt: "unat i < unat (os_capacity shm)" using i(2) by (simp add: word_less_nat_alt)
  then have "unat i + 1 < 2 ^ 32" using unsigned_less [where ?'a = nat, of "os_capacity shm"] by simp
  then have "unat (i + 1) = unat i + 1" by (simp add: unat_word_ariths)
  then show l: "i < i + 1" by (simp add: word_less_nat_alt)
  have "i \<noteq> kInvalidOrderIndex" using l by (auto simp: kInvalidOrderIndex_def)
  with i l show "orders_shm_index_exists shm' i"
    by (simp add: orders_shm_index_exists_def Let_def)
qed

lemma exists_after_allocate:
  assumes "orders_shm_try_allocate shm = (Some i, shm')" "orders_shm_index_exists shm j"
  shows "orders_shm_index_exists shm' j" "j \<noteq> i"
  using assms allocate_Some [OF assms(1)]
  by (auto simp: orders_shm_index_exists_def Let_def split: if_splits)

lemma append_Some:
  assumes "orders_shm_append req stage source now shm = (Some i, shm')"
  shows "i = os_next_index shm \<and> \<not> orders_shm_index_exists shm i
    \<and> os_next_index shm' = i + 1 \<and> os_capacity shm' = os_capacity shm
    \<and> orders_shm_index_exists shm' i
    \<and> (pool_ok shm \<longrightarrow> pool_ok shm')
    \<and> orders_shm_read_snapshot shm' i
        = Some \<lparr>ss_request = req, ss_stage = stage, ss_source = source, ss_last_update_ns = now\<rparr>
    \<and> (\<forall>j. orders_shm_index_exists shm j \<longrightarrow>
          orders_shm_index_exists shm' j
          \<and> orders_shm_read_snapshot shm' j = orders_shm_read_snapshot shm j)"
proof -
  obtain shm1 where a: "orders_shm_try_allocate shm = (Some i, shm1)"
    and s': "shm' = snd (orders_shm_write_order i req stage source now shm1)"
    using assms by (auto simp: orders_shm_append_def split: option.splits prod.splits if_splits)
  note al = allocate_Some [OF a]
  have "\<not> orders_shm_index_exists shm i"
    using al(1) by (simp add: orders_shm_index_exists_def Let_def)
  moreover have "pool_ok shm \<Longrightarrow> pool_ok shm'"
    using pool_ok_allocate [of shm] by (simp add: a s' slot_write_defs pool_ok_mutate)
  moreover have "orders_shm_read_snapshot shm' i
      = Some \<lparr>ss_request = req, ss_stage = stage, ss_source = source, ss_last_update_ns = now\<rparr>"
    using al(6) by (simp add: s' slot_write_defs read_after_mutate slot_snapshot_def)
  moreover have "orders_shm_index_exists shm' j
      \<and> orders_shm_read_snapshot shm' j = orders_shm_read_snapshot shm j"
    if "orders_shm_index_exists shm j" for j
  proof -
    have j: "orders_shm_index_exists shm1 j" "j \<noteq> i" using exists_after_allocate [OF a that] by auto
    then have "orders_shm_read_snapshot shm' j = orders_shm_read_snapshot shm1 j"
      by (simp add: s' slot_write_defs read_other_after_mutate)
    with j that al(5) show ?thesis
      by (simp add: s' slot_write_defs mutate_exists read_snapshot_eq)
  qed
  ultimately show ?thesis using al
    by (simp add: s' slot_write_defs mutate_header mutate_exists)
qed

lemma append_None:
  "orders_shm_append req stage source now shm = (None, shm') \<Longrightarrow>
   os_capacity shm \<le> os_next_index shm
   \<and> shm' = shm\<lparr>os_full_reject_count := os_full_reject_count shm + 1\<rparr>"
proof -
  assume a: "orders_shm_append req stage source now shm = (None, shm')"
  obtain r shm1 where al: "orders_shm_try_allocate shm = (r, shm1)" by (cases "orders_shm_try_allocate shm")
  show ?thesis
  proof (cases r)
    case None
    with al a show ?thesis
      by (auto simp: orders_shm_append_def orders_shm_try_allocate_def Let_def split: if_splits)
  next
    case (Some i)
    then have "orders_shm_index_exists shm1 i" using allocate_Some(6) al by blast
    with Some al a show ?thesis
      by (auto simp: orders_shm_append_def slot_write_defs fst_mutate split: prod.splits
          dest: arg_cong [of _ _ fst])
  qed
qed

lemma append_full:
  "fst (orders_shm_append req stage source now shm) = None \<longleftrightarrow> os_capacity shm \<le> os_next_index shm"
proof -
  obtain r shm' where a: "orders_shm_append req stage source now shm = (r, shm')" by fastforce
  show ?thesis
  proof (cases r)
    case None
    with append_None a show ?thesis by (metis fst_conv)
  next
    case (Some i)
    then have "orders_shm_try_allocate shm \<noteq> (None, shm\<lparr>os_full_reject_count := os_full_reject_count shm + 1\<rparr>)"
      using a by (auto simp: orders_shm_append_def)
    then show ?thesis using Some a by (simp add: orders_shm_try_allocate_def Let_def split: if_splits)
  qed
qed

lemma make_name_extract:
  assumes "is_valid_trading_day day"
  shows "extract_trading_day_from_name (make_orders_shm_name base day) = Some day"
proof -
  have "CHR ''_'' \<notin> set day"
    using assms by (auto simp: is_valid_trading_day_def list_all_iff is_digit_def
        split: if_splits)
  then have "after_last_underscore (make_orders_shm_name base day) = Some day"
    by (simp add: after_last_underscore_def make_orders_shm_name_def takeWhile_append)
  with assms show ?thesis by (simp add: extract_trading_day_from_name_def)
qed

lemma extract_make:
  assumes "extract_trading_day_from_name shm_name = Some day"
  shows "is_valid_trading_day day \<and> (\<exists>base. shm_name = make_orders_shm_name base day)"
proof -
  let ?p = "\<lambda>c. c \<noteq> CHR ''_''"
  from assms have "CHR ''_'' \<in> set shm_name" and d: "day = rev (takeWhile ?p (rev shm_name))"
    and v: "is_valid_trading_day day"
    by (auto simp: extract_trading_day_from_name_def after_last_underscore_def
        split: option.splits if_splits)
  then have ne: "dropWhile ?p (rev shm_name) \<noteq> []" by (auto simp: dropWhile_eq_Nil_conv)
  then obtain rest where r: "dropWhile ?p (rev shm_name) = CHR ''_'' # rest"
    using hd_dropWhile [OF ne] by (cases "dropWhile ?p (rev shm_name)") auto
  have "rev shm_name = takeWhile ?p (rev shm_name) @ CHR ''_'' # rest"
    by (metis r takeWhile_dropWhile_id)
  then have "shm_name = rev (takeWhile ?p (rev shm_name) @ CHR ''_'' # rest)" by (metis rev_rev_ident)
  then have "shm_name = rev rest @ ''_'' @ day" by (simp only: d rev_append rev.simps append.assoc append_Cons append_Nil)
  then have "shm_name = make_orders_shm_name (rev rest) day" by (simp add: make_orders_shm_name_def)
  with v show ?thesis by blast
qed

section \<open>Runs of the pool\<close>

text \<open>
  Any sequence of the pool's writes, by any of its processes, one after the other.
\<close>

datatype pool_op =
    Append OrderRequest OrderSlotState order_slot_source_t
  | WriteOrder OrderIndex OrderRequest OrderSlotState order_slot_source_t
  | SyncOrder OrderIndex OrderRequest
  | UpdateStage OrderIndex OrderSlotState

fun pool_step :: "TimestampNs \<Rightarrow> pool_op \<Rightarrow> orders_shm_layout \<Rightarrow> orders_shm_layout" where
  "pool_step now (Append req stage source) shm = snd (orders_shm_append req stage source now shm)"
| "pool_step now (WriteOrder i req stage source) shm =
     snd (orders_shm_write_order i req stage source now shm)"
| "pool_step now (SyncOrder i req) shm = snd (orders_shm_sync_order i req now shm)"
| "pool_step now (UpdateStage i stage) shm = snd (orders_shm_update_stage i stage now shm)"

definition pool_run :: "(TimestampNs \<times> pool_op) list \<Rightarrow> orders_shm_layout \<Rightarrow> orders_shm_layout" where
  "pool_run ops shm = fold (\<lambda>(now, op). pool_step now op) ops shm"

lemma pool_ok_append: "pool_ok shm \<Longrightarrow> pool_ok (snd (orders_shm_append req stage source now shm))"
proof -
  assume ok: "pool_ok shm"
  obtain r shm' where a: "orders_shm_append req stage source now shm = (r, shm')"
    by (cases "orders_shm_append req stage source now shm")
  show ?thesis
  proof (cases r)
    case None
    with a append_None have "shm' = shm\<lparr>os_full_reject_count := os_full_reject_count shm + 1\<rparr>" by blast
    with ok a show ?thesis by (simp add: pool_ok_def)
  next
    case (Some i)
    with append_Some a ok have "pool_ok shm'" by blast
    with a show ?thesis by simp
  qed
qed

lemma pool_ok_step: "pool_ok shm \<Longrightarrow> pool_ok (pool_step now op shm)"
  by (cases op) (simp_all add: pool_ok_append pool_ok_mutate slot_write_defs)

lemma pool_run_ok: "pool_ok shm \<Longrightarrow> pool_ok (pool_run ops shm)"
  by (induction ops arbitrary: shm) (auto simp: pool_run_def pool_ok_step)

text \<open>
  C17: the daily pool never hands out an index twice and never loses a published order.
  After any run of pool operations on a well-formed pool, an append either returns the next
  unpublished index, under which a reader then finds exactly the order that was written,
  while every order published before reads as before; or the pool is full, and the append
  changes nothing but the counter of refused appends.
\<close>

theorem orders_shm_append_publishes:
  assumes "pool_ok shm0" and "shm = pool_run ops shm0"
    and "orders_shm_append req stage source now shm = (res, shm')"
  shows "(case res of
      Some i \<Rightarrow> i = os_next_index shm \<and> \<not> orders_shm_index_exists shm i
        \<and> orders_shm_read_snapshot shm' i
            = Some \<lparr>ss_request = req, ss_stage = stage, ss_source = source, ss_last_update_ns = now\<rparr>
        \<and> (\<forall>j. orders_shm_index_exists shm j \<longrightarrow>
              orders_shm_read_snapshot shm j \<noteq> None
              \<and> orders_shm_read_snapshot shm' j = orders_shm_read_snapshot shm j)
    | None \<Rightarrow> os_next_index shm = os_capacity shm
        \<and> shm' = shm\<lparr>os_full_reject_count := os_full_reject_count shm + 1\<rparr>)
    \<and> pool_ok shm'"
proof -
  have ok: "pool_ok shm" using assms(1,2) by (simp add: pool_run_ok)
  show ?thesis
  proof (cases res)
    case None
    with append_None assms(3) ok show ?thesis by (fastforce simp: pool_ok_def)
  next
    case (Some i)
    from ok have "orders_shm_index_exists shm j \<Longrightarrow> orders_shm_read_snapshot shm j \<noteq> None" for j
      by (simp add: read_snapshot_eq pool_ok_def)
    with Some append_Some assms(3) ok show ?thesis by simp
  qed
qed

lemma orders_shm_append_publishes_witness:
  "fst (orders_shm_append (OrderRequest_default\<lparr>internal_order_id := 7\<rparr>) UpstreamQueued User 9
      (pool_run [(5, Append OrderRequest_default Reserved User), (6, UpdateStage 0 OrderSlotState.Terminal)]
        (orders_shm_new 3))) = Some 1"
proof -
  let ?shm = "pool_run [(5, Append OrderRequest_default Reserved User), (6, UpdateStage 0 OrderSlotState.Terminal)]
    (orders_shm_new 3)"
  let ?a = "orders_shm_append (OrderRequest_default\<lparr>internal_order_id := 7\<rparr>) UpstreamQueued User 9 ?shm"
  have n: "os_next_index ?shm = 1" "os_capacity ?shm = 3" by code_simp+
  show ?thesis
    using orders_shm_append_publishes [OF pool_ok_new refl prod.collapse [of ?a, symmetric]] n
    by (auto split: option.splits)
qed

text \<open>
  A trading day survives the naming scheme of the dated pool: the day read back from
  the name made for it is the day, whatever the base name; and a name is only ever read
  as a valid day, eight digits.
\<close>

theorem orders_shm_name_roundtrip:
  "(is_valid_trading_day day \<longrightarrow>
      extract_trading_day_from_name (make_orders_shm_name base_name day) = Some day)
    \<and> (extract_trading_day_from_name shm_name = Some day' \<longrightarrow> is_valid_trading_day day'
        \<and> (\<exists>base. shm_name = make_orders_shm_name base day'))"
  using make_name_extract extract_make by blast

lemma orders_shm_name_roundtrip_witness:
  "extract_trading_day_from_name (make_orders_shm_name ''/orders_shm'' ''20260225'')
     = Some ''20260225''
   \<and> is_valid_trading_day ''20260225''"
proof -
  have v: "is_valid_trading_day ''20260225''" by code_simp
  with orders_shm_name_roundtrip [of "''20260225''" "''/orders_shm''" "''x''" "''''"] show ?thesis
    by blast
qed

end
