(* ===== verification/Security_Identity.thy ===== *)
theory Security_Identity
  imports Order_Types
begin

text \<open>
  \<^verbatim>\<open>src/common/security_identity.hpp\<close>: the canonical key \<open><MIC>_<security_id>\<close> of a
  security, the legacy form \<open><market>.<security_id>\<close>, and the normalisation that the
  order book, the risk rules and the position table apply to every key.  An output parameter
  with a \<open>bool\<close> return is an option.
\<close>

definition kInternalSecurityIdSize :: nat where
  "kInternalSecurityIdSize = 16"

fun market_to_mic :: "Market \<Rightarrow> string" where
  "market_to_mic SZ = ''XSHE''"
| "market_to_mic SH = ''XSHG''"
| "market_to_mic BJ = ''BJSE''"
| "market_to_mic HK = ''XHKG''"
| "market_to_mic _ = []"

definition parse_legacy_market_prefix :: "string \<Rightarrow> Market option" where
  "parse_legacy_market_prefix prefix =
     (if prefix = ''SZ'' then Some SZ
      else if prefix = ''SH'' then Some SH
      else if prefix = ''BJ'' then Some BJ
      else if prefix = ''HK'' then Some HK
      else None)"

definition parse_mic_market_prefix :: "string \<Rightarrow> Market option" where
  "parse_mic_market_prefix prefix =
     (if prefix = ''XSHE'' then Some SZ
      else if prefix = ''XSHG'' then Some SH
      else if prefix = ''BJSE'' then Some BJ
      else if prefix = ''XHKG'' then Some HK
      else None)"

text \<open>
  \<open>find(delimiter)\<close> is the split at the first delimiter; no delimiter, an empty prefix and an
  empty code are refused.
\<close>

definition split_internal_security_id :: "string \<Rightarrow> char \<Rightarrow> (string \<times> string) option" where
  "split_internal_security_id internal_id delimiter =
     (let prefix = takeWhile (\<lambda>c. c \<noteq> delimiter) internal_id
      in case dropWhile (\<lambda>c. c \<noteq> delimiter) internal_id of
           [] \<Rightarrow> None
         | _ # code \<Rightarrow> if prefix = [] \<or> code = [] then None else Some (prefix, code))"

definition parse_internal_security_id :: "string \<Rightarrow> (Market \<times> string) option" where
  "parse_internal_security_id internal_id =
     (case split_internal_security_id internal_id CHR ''_'' of
        Some (prefix, code) \<Rightarrow>
          (if code \<noteq> [] then map_option (\<lambda>m. (m, code)) (parse_mic_market_prefix prefix) else None)
      | None \<Rightarrow>
          (case split_internal_security_id internal_id CHR ''.'' of
             Some (prefix, code) \<Rightarrow>
               (if code \<noteq> [] then map_option (\<lambda>m. (m, code)) (parse_legacy_market_prefix prefix)
                else None)
           | None \<Rightarrow> None))"

definition build_internal_security_id :: "Market \<Rightarrow> string \<Rightarrow> InternalSecurityId option" where
  "build_internal_security_id mkt sec_id =
     (let prefix = market_to_mic mkt;
          capacity = kInternalSecurityIdSize - 1
      in if prefix = [] then None
         else if sec_id = [] \<or> length sec_id > capacity - length prefix - 1 then None
         else Some (fs_assign kInternalSecurityIdSize (prefix @ [CHR ''_''] @ sec_id)))"

definition normalize_internal_security_id :: "string \<Rightarrow> InternalSecurityId option" where
  "normalize_internal_security_id internal_id =
     (case parse_internal_security_id internal_id of
        None \<Rightarrow> None
      | Some (mkt, code) \<Rightarrow> build_internal_security_id mkt code)"

section \<open>Prefixes\<close>

lemma market_to_mic_eq_Nil [simp]:
  "market_to_mic m = [] \<longleftrightarrow> m = Market.NotSet \<or> m = Market.Unknown"
  by (cases m) auto

lemma market_to_mic_length: "market_to_mic m \<noteq> [] \<Longrightarrow> length (market_to_mic m) = 4"
  by (cases m) auto

lemma market_to_mic_chars:
  "CHR ''_'' \<notin> set (market_to_mic m)" "nul \<notin> set (market_to_mic m)"
  by (cases m; simp add: nul_def)+

lemma parse_mic_market_to_mic:
  "market_to_mic m \<noteq> [] \<Longrightarrow> parse_mic_market_prefix (market_to_mic m) = Some m"
  by (cases m) (auto simp: parse_mic_market_prefix_def)

lemma parse_mic_Some: "parse_mic_market_prefix p = Some m \<Longrightarrow> market_to_mic m = p \<and> p \<noteq> []"
  by (auto simp: parse_mic_market_prefix_def split: if_splits)

lemma parse_legacy_Some: "parse_legacy_market_prefix p = Some m \<Longrightarrow> market_to_mic m \<noteq> []"
  by (auto simp: parse_legacy_market_prefix_def split: if_splits)

lemma parse_Some_mic: "parse_internal_security_id s = Some (m, c) \<Longrightarrow> market_to_mic m \<noteq> [] \<and> c \<noteq> []"
  by (auto simp: parse_internal_security_id_def dest: parse_mic_Some parse_legacy_Some
      split: option.splits prod.splits if_splits)

section \<open>Splitting and rebuilding\<close>

lemma split_at_delimiter:
  assumes "d \<notin> set p" "p \<noteq> []" "c \<noteq> []"
  shows "split_internal_security_id (p @ d # c) d = Some (p, c)"
proof -
  have "takeWhile (\<lambda>x. x \<noteq> d) (p @ d # c) = p" "dropWhile (\<lambda>x. x \<noteq> d) (p @ d # c) = d # c"
    using assms(1) by (auto simp: takeWhile_append dropWhile_append)
  with assms(2,3) show ?thesis by (simp add: split_internal_security_id_def)
qed

lemma split_Some_join:
  assumes "split_internal_security_id s d = Some (p, c)"
  shows "s = p @ d # c \<and> p \<noteq> [] \<and> c \<noteq> []"
proof (cases "dropWhile (\<lambda>x. x \<noteq> d) s")
  case Nil
  with assms show ?thesis by (simp add: split_internal_security_id_def)
next
  case (Cons x xs)
  then have "x = d" using hd_dropWhile [of "\<lambda>x. x \<noteq> d" s] by simp
  moreover have "takeWhile (\<lambda>x. x \<noteq> d) s @ dropWhile (\<lambda>x. x \<noteq> d) s = s" by simp
  ultimately show ?thesis using assms Cons
    by (auto simp: split_internal_security_id_def Let_def split: if_splits)
qed

lemma build_Some:
  assumes "build_internal_security_id m c = Some k"
  shows "market_to_mic m \<noteq> []" "c \<noteq> []" "length c \<le> 10"
    "k = fs_assign 16 (market_to_mic m @ CHR ''_'' # c)"
  using assms market_to_mic_length [of m]
  by (auto simp: build_internal_security_id_def kInternalSecurityIdSize_def Let_def
      split: if_splits)

lemma build_plain:
  assumes "build_internal_security_id m c = Some k" "nul \<notin> set c"
  shows "k = market_to_mic m @ CHR ''_'' # c"
proof -
  note b = build_Some [OF assms(1)]
  have "length (market_to_mic m @ CHR ''_'' # c) < 16"
    using market_to_mic_length [OF b(1)] b(3) by simp
  moreover have "nul \<notin> set (market_to_mic m @ CHR ''_'' # c)"
    using assms(2) market_to_mic_chars(2) [of m] by (simp add: nul_def)
  ultimately show ?thesis using b(4) fs_assign_id by metis
qed

lemma build_defined:
  "market_to_mic m \<noteq> [] \<Longrightarrow> c \<noteq> [] \<Longrightarrow> length c \<le> 10 \<Longrightarrow>
   \<exists>k. build_internal_security_id m c = Some k"
  using market_to_mic_length [of m]
  by (auto simp: build_internal_security_id_def kInternalSecurityIdSize_def Let_def)

lemma build_nonempty: "build_internal_security_id m c = Some k \<Longrightarrow> k \<noteq> []"
proof -
  assume b: "build_internal_security_id m c = Some k"
  have "market_to_mic m \<noteq> []" "k = fs_assign 16 (market_to_mic m @ CHR ''_'' # c)"
    using build_Some [OF b] by auto
  then show "k \<noteq> []" by (cases m) (auto simp: fs_assign_def cstr_view_def nul_def)
qed

lemma parse_build:
  assumes "build_internal_security_id m c = Some k" "nul \<notin> set c"
  shows "parse_internal_security_id k = Some (m, c)"
proof -
  note b = build_Some [OF assms(1)]
  have "split_internal_security_id k CHR ''_'' = Some (market_to_mic m, c)"
    using build_plain [OF assms] split_at_delimiter [OF market_to_mic_chars(1) b(1,2)] by simp
  with b show ?thesis
    by (simp add: parse_internal_security_id_def parse_mic_market_to_mic)
qed

lemma parse_code_chars: "parse_internal_security_id s = Some (m, c) \<Longrightarrow> set c \<subseteq> set s"
  by (auto simp: parse_internal_security_id_def dest!: split_Some_join
      split: option.splits prod.splits if_splits)

lemma normalize_Some_build:
  assumes "normalize_internal_security_id s = Some k"
  obtains m c where "parse_internal_security_id s = Some (m, c)"
    "build_internal_security_id m c = Some k"
  using assms by (auto simp: normalize_internal_security_id_def split: option.splits prod.splits)

lemma normalize_no_nul: "normalize_internal_security_id s = Some k \<Longrightarrow> nul \<notin> set k"
  by (auto elim!: normalize_Some_build dest!: build_Some(4))

lemma normalize_nonempty: "normalize_internal_security_id s = Some k \<Longrightarrow> k \<noteq> []"
  by (auto elim!: normalize_Some_build dest: build_nonempty)

lemma normalize_build:
  "build_internal_security_id m c = Some k \<Longrightarrow> nul \<notin> set c \<Longrightarrow>
   normalize_internal_security_id k = Some k"
  by (simp add: normalize_internal_security_id_def parse_build)

lemma normalize_idem:
  assumes "normalize_internal_security_id s = Some k" "nul \<notin> set s"
  shows "normalize_internal_security_id k = Some k"
  using assms parse_code_chars by (fastforce elim!: normalize_Some_build intro: normalize_build)

lemma normalize_empty [simp]: "normalize_internal_security_id [] = None"
  by (simp add: normalize_internal_security_id_def parse_internal_security_id_def
      split_internal_security_id_def)

lemma normalize_parse:
  assumes "normalize_internal_security_id s = Some k" "nul \<notin> set s"
  shows "parse_internal_security_id k = parse_internal_security_id s"
proof -
  obtain m c where "parse_internal_security_id s = Some (m, c)"
    "build_internal_security_id m c = Some k"
    using assms(1) by (rule normalize_Some_build)
  moreover from this have "nul \<notin> set c" using assms(2) parse_code_chars by blast
  ultimately show ?thesis by (simp add: parse_build)
qed

section \<open>Properties\<close>

text \<open>The normal form is canonical.  For a NUL-free key \<open>s\<close> with normal form \<open>k\<close>:
  \<open>k\<close> denotes the market and code that \<open>s\<close> denotes, is its own normal form, and any other
  NUL-free key has the normal form \<open>k\<close> exactly if it denotes the same market and code,
  whether it is written in the MIC or in the legacy form.\<close>

theorem normalize_internal_security_id_canonical:
  assumes "normalize_internal_security_id s = Some k" and "nul \<notin> set s" and "nul \<notin> set t"
  shows "parse_internal_security_id k = parse_internal_security_id s
    \<and> normalize_internal_security_id k = Some k
    \<and> (normalize_internal_security_id t = Some k
        \<longleftrightarrow> parse_internal_security_id t = parse_internal_security_id s)"
proof (intro conjI iffI)
  show "parse_internal_security_id k = parse_internal_security_id s"
    using assms by (simp add: normalize_parse)
  show "normalize_internal_security_id k = Some k"
    using assms by (simp add: normalize_idem)
  show "parse_internal_security_id t = parse_internal_security_id s"
    if "normalize_internal_security_id t = Some k"
    using that assms normalize_parse by metis
  show "normalize_internal_security_id t = Some k"
    if "parse_internal_security_id t = parse_internal_security_id s"
    using that assms(1) by (simp add: normalize_internal_security_id_def)
qed

theorem normalize_internal_security_id_canonical_witness:
  "normalize_internal_security_id ''XSHE_000001'' = Some ''XSHE_000001''
    \<and> parse_internal_security_id ''XSHE_000001'' = Some (SZ, ''000001'')"
proof -
  have p: "parse_internal_security_id ''SZ.000001'' = Some (SZ, ''000001'')"
    by (simp add: parse_internal_security_id_def split_internal_security_id_def
        parse_legacy_market_prefix_def)
  have n: "normalize_internal_security_id ''SZ.000001'' = Some ''XSHE_000001''"
    by (simp add: normalize_internal_security_id_def p build_internal_security_id_def
        kInternalSecurityIdSize_def fs_assign_def cstr_view_def nul_def)
  show ?thesis
    using normalize_internal_security_id_canonical [OF n, of "''XSHE_000001''"] p
    by (simp add: nul_def)
qed

end
