(* ===== verification/Market_Data.thy ===== *)
theory Market_Data
  imports Security_Identity Order_Types
begin

text \<open>
  \<^verbatim>\<open>src/market_data/market_data_service.cpp\<close> and \<^verbatim>\<open>src/strategy/active_strategy.cpp\<close>: the
  view of market data and predictions that the execution sessions price with, and the built-in
  strategy that may take a slice early.  The snapshot reader is a third-party library and
  enters as the value of its calls (\<open>md_reader\<close>, and the outcome of opening it); of its order
  book snapshot only the fields the program reads are kept.  A \<open>float\<close> is its 32-bit
  IEEE pattern, compared as the hardware does.
\<close>

section \<open>Single-precision comparison\<close>

type_synonym float32 = "32 word"

definition float_magnitude :: "float32 \<Rightarrow> nat" where
  "float_magnitude x = unat x mod 2 ^ 31"

definition float_is_nan :: "float32 \<Rightarrow> bool" where
  "float_is_nan x = (float_magnitude x > 0x7F800000)"

definition float_order :: "float32 \<Rightarrow> int" where
  "float_order x = (if unat x \<ge> 2 ^ 31 then - int (float_magnitude x) else int (float_magnitude x))"

definition float_le :: "float32 \<Rightarrow> float32 \<Rightarrow> bool" where
  "float_le x y = (\<not> float_is_nan x \<and> \<not> float_is_nan y \<and> float_order x \<le> float_order y)"

definition float_neg :: "float32 \<Rightarrow> float32" where
  "float_neg x = x + 0x80000000"

lemma unat_float_neg:
  "unat (float_neg x) = (if unat x < 2 ^ 31 then unat x + 2 ^ 31 else unat x - 2 ^ 31)"
proof -
  have x: "unat x < 2 ^ 32" using unsigned_less [where ?'a = nat, of x] by simp
  have "unat (float_neg x) = (unat x + 2 ^ 31) mod 2 ^ 32"
    by (simp add: float_neg_def unat_word_ariths)
  also have "\<dots> = (if unat x < 2 ^ 31 then unat x + 2 ^ 31 else unat x - 2 ^ 31)"
    using x by (auto simp: mod_if)
  finally show ?thesis .
qed

lemma float_neg_facts:
  "float_magnitude (float_neg x) = float_magnitude x"
  "float_order (float_neg x) = - float_order x"
  "float_is_nan (float_neg x) = float_is_nan x"
proof -
  have x: "unat x < 2 ^ 32" using unsigned_less [where ?'a = nat, of x] by simp
  show m: "float_magnitude (float_neg x) = float_magnitude x"
    using x by (auto simp: float_magnitude_def unat_float_neg mod_if)
  show "float_order (float_neg x) = - float_order x"
    using x unfolding float_order_def m unat_float_neg by auto
  show "float_is_nan (float_neg x) = float_is_nan x" by (simp add: float_is_nan_def m)
qed

section \<open>Market data\<close>

datatype PredictionState = PredNone | Fresh | Carried

datatype SnapshotPredictionState = kNone | kFresh | kCarried

record SnapshotLevel =
  level_price :: DPrice
  level_volume :: Volume

record LobSnapshot =
  total_bid_levels :: nat
  total_ask_levels :: nat
  lob_bids :: "nat \<Rightarrow> SnapshotLevel"
  lob_asks :: "nat \<Rightarrow> SnapshotLevel"

record PredictionView =
  pv_signal :: float32
  pv_flags :: u32
  pv_state :: PredictionState
  pv_publish_seq_no :: u64
  pv_publish_mono_ns :: u64

record MarketDataView =
  mv_symbol :: string
  mv_seq :: u64
  mv_snapshot :: LobSnapshot
  mv_prediction :: PredictionView

definition has_prediction :: "PredictionView \<Rightarrow> bool" where
  "has_prediction p = (pv_state p \<noteq> PredNone)"

definition has_fresh_prediction :: "PredictionView \<Rightarrow> bool" where
  "has_fresh_prediction p = (pv_state p = Fresh)"

text \<open>What a successful read of the third-party reader returns.\<close>

record ReadResult =
  rr_symbol :: string
  rr_seq :: u64
  rr_snapshot :: LobSnapshot
  rr_signal :: float32
  rr_flags :: u32
  rr_prediction_state :: SnapshotPredictionState
  rr_publish_seq_no :: u64
  rr_publish_mono_ns :: u64

record MarketDataConfig =
  mdc_enabled :: bool
  snapshot_shm_name :: string
  mdc_allow_order_price_fallback :: bool

record MarketDataService =
  md_config :: MarketDataConfig
  md_ready :: bool
  md_reader :: "string \<Rightarrow> ReadResult option"

text \<open>
  \<open>opened\<close> is what \<open>reader_.open\<close> returns, \<open>header_ok\<close> whether the reader is open
  with a header afterwards.
\<close>

definition md_initialize :: "bool \<Rightarrow> bool \<Rightarrow> MarketDataService \<Rightarrow> bool \<times> MarketDataService" where
  "md_initialize opened header_ok s =
     (let s = s\<lparr>md_ready := False\<rparr>; c = md_config s
      in if \<not> mdc_enabled c then (True, s)
      else if snapshot_shm_name c = [] then (False, s)
      else if \<not> opened
           then if mdc_allow_order_price_fallback c then (True, s) else (False, s)
      else let s = s\<lparr>md_ready := header_ok\<rparr>
           in if \<not> md_ready s \<and> mdc_allow_order_price_fallback c then (True, s)
              else (md_ready s, s))"

definition md_close :: "MarketDataService \<Rightarrow> MarketDataService" where
  "md_close s = s\<lparr>md_ready := False\<rparr>"

definition allow_order_price_fallback :: "MarketDataService \<Rightarrow> bool" where
  "allow_order_price_fallback s = mdc_allow_order_price_fallback (md_config s)"

definition normalize_symbol :: "string \<Rightarrow> string option" where
  "normalize_symbol sid = normalize_internal_security_id sid"

fun map_prediction_state :: "SnapshotPredictionState \<Rightarrow> PredictionState" where
  "map_prediction_state kFresh = Fresh"
| "map_prediction_state kCarried = Carried"
| "map_prediction_state kNone = PredNone"

definition md_read :: "string \<Rightarrow> MarketDataService \<Rightarrow> MarketDataView option" where
  "md_read sid s =
     (if \<not> md_ready s then None
      else case normalize_symbol sid of
        None \<Rightarrow> None
      | Some symbol \<Rightarrow>
          (case md_reader s symbol of
             None \<Rightarrow> None
           | Some result \<Rightarrow> Some
               \<lparr>mv_symbol = rr_symbol result, mv_seq = rr_seq result,
                mv_snapshot = rr_snapshot result,
                mv_prediction =
                  \<lparr>pv_signal = rr_signal result, pv_flags = rr_flags result,
                   pv_state = map_prediction_state (rr_prediction_state result),
                   pv_publish_seq_no = rr_publish_seq_no result,
                   pv_publish_mono_ns = rr_publish_mono_ns result\<rparr>\<rparr>))"

section \<open>The active strategy\<close>

record ActiveDecision =
  should_submit :: bool
  dec_volume :: Volume
  dec_price :: DPrice

record ActiveStrategyConfig =
  asc_enabled :: bool
  asc_name :: string
  asc_signal_threshold :: float32

text \<open>
  The only strategy is \<open>PredictionSignalStrategy\<close>; its object is its threshold, kept as the
  \<open>float\<close> it is converted to at each comparison.
\<close>

datatype ActiveStrategy = PredictionSignal float32

definition float_abs :: "float32 \<Rightarrow> float32" where
  "float_abs x = (if unat x \<ge> 2 ^ 31 then float_neg x else x)"

definition create_strategy :: "ActiveStrategyConfig \<Rightarrow> ActiveStrategy option" where
  "create_strategy config =
     (if \<not> asc_enabled config then None
      else let name = asc_name config
      in if name = [] \<or> name = ''none'' then None
      else if name = ''prediction_signal''
           then Some (PredictionSignal (float_abs (asc_signal_threshold config)))
      else None)"

fun evaluate_strategy :: "ActiveStrategy \<Rightarrow> OrderRequest \<Rightarrow> MarketDataView \<Rightarrow> Volume \<Rightarrow> ActiveDecision" where
  "evaluate_strategy (PredictionSignal threshold) parent_request market_data budget_volume =
     (let decision = \<lparr>should_submit = False, dec_volume = 0, dec_price = 0\<rparr>
      in if \<not> has_fresh_prediction (mv_prediction market_data) \<or> budget_volume = 0 then decision
      else let signal = pv_signal (mv_prediction market_data);
               buy_hit = (trade_side parent_request = Buy \<and> float_le threshold signal);
               sell_hit = (trade_side parent_request = Sell \<and> float_le signal (float_neg threshold))
      in if \<not> buy_hit \<and> \<not> sell_hit then decision
      else \<lparr>should_submit = True, dec_volume = budget_volume,
            dec_price = dprice_entrust parent_request\<rparr>)"

text \<open>A decision spends the whole budget, and only on a fresh signal beyond the threshold.\<close>

lemma evaluate_strategy_submits:
  "should_submit (evaluate_strategy (PredictionSignal t) r v budget) \<longleftrightarrow>
     has_fresh_prediction (mv_prediction v) \<and> budget \<noteq> 0
     \<and> \<not> float_is_nan t \<and> \<not> float_is_nan (pv_signal (mv_prediction v))
     \<and> (trade_side r = Buy \<and> float_order t \<le> float_order (pv_signal (mv_prediction v))
        \<or> trade_side r = Sell \<and> float_order (pv_signal (mv_prediction v)) \<le> - float_order t)"
  by (auto simp: Let_def float_le_def float_neg_facts)

lemma evaluate_strategy_volume:
  "should_submit (evaluate_strategy s r v budget) \<Longrightarrow> dec_volume (evaluate_strategy s r v budget) = budget"
  by (cases s) (auto simp: Let_def split: if_splits)

end
