(* ===== verification/Error_Model.thy ===== *)
theory Error_Model
  imports Order_Types
begin

text \<open>
  \<^verbatim>\<open>src/common/error.hpp\<close> and \<^verbatim>\<open>error.cpp\<close>: error codes, the policy that
  \<open>classify\<close> attaches to a code raised in a domain, the bounded history of
  \<open>ErrorRegistry\<close> and the shutdown latch.  The globals of the file (last error of the
  thread, latest error, registry, shutdown reason) are the fields of one record that
  \<open>record_error\<close> updates; the spin locks around them vanish, each call being one step.
\<close>

section \<open>Codes and policies\<close>

datatype ErrorDomain = 
    D_none | D_config | D_shm | D_core | D_order | D_risk | D_portfolio | D_api

datatype ErrorCode =
    Ok
  | InvalidParam | InvalidState | ComponentUnavailable | HealthCheckFailed | InternalError
  | InvalidConfig | ConfigParseFailed | ConfigValidateFailed
  | ShmOpenFailed | ShmFstatFailed | ShmResizeFailed | ShmMmapFailed | ShmHeaderInvalid
  | ShmHeaderCorrupted
  | InvalidOrderId | DuplicateOrder | OrderBookFull | OrderNotFound | QueueFull
  | ErrQueuePushFailed | QueuePopFailed | RouteFailed | SplitFailed | OrderInvariantBroken
  | OrderPoolFull
  | PositionUpdateFailed
  | LoggerInitFailed | LoggerThreadFailed | LoggerQueueFull

fun error_code_value :: "ErrorCode \<Rightarrow> u16" where
  "error_code_value Ok = 0"
| "error_code_value InvalidParam = 1000"
| "error_code_value InvalidState = 1001"
| "error_code_value ComponentUnavailable = 1002"
| "error_code_value HealthCheckFailed = 1003"
| "error_code_value InternalError = 1099"
| "error_code_value InvalidConfig = 2000"
| "error_code_value ConfigParseFailed = 2001"
| "error_code_value ConfigValidateFailed = 2002"
| "error_code_value ShmOpenFailed = 3000"
| "error_code_value ShmFstatFailed = 3001"
| "error_code_value ShmResizeFailed = 3002"
| "error_code_value ShmMmapFailed = 3003"
| "error_code_value ShmHeaderInvalid = 3004"
| "error_code_value ShmHeaderCorrupted = 3005"
| "error_code_value InvalidOrderId = 4000"
| "error_code_value DuplicateOrder = 4001"
| "error_code_value OrderBookFull = 4002"
| "error_code_value OrderNotFound = 4003"
| "error_code_value QueueFull = 4004"
| "error_code_value ErrQueuePushFailed = 4005"
| "error_code_value QueuePopFailed = 4006"
| "error_code_value RouteFailed = 4007"
| "error_code_value SplitFailed = 4008"
| "error_code_value OrderInvariantBroken = 4009"
| "error_code_value OrderPoolFull = 4010"
| "error_code_value PositionUpdateFailed = 6000"
| "error_code_value LoggerInitFailed = 7000"
| "error_code_value LoggerThreadFailed = 7001"
| "error_code_value LoggerQueueFull = 7002"

datatype ErrorSeverity = Recoverable | Critical | Fatal

fun severity_value :: "ErrorSeverity \<Rightarrow> int" where
  "severity_value Recoverable = 0"
| "severity_value Critical = 1"
| "severity_value Fatal = 2"

record ErrorPolicy =
  severity :: ErrorSeverity
  stop_service :: bool
  exit_process :: bool

definition kRecoverablePolicy :: ErrorPolicy where
  "kRecoverablePolicy = \<lparr>severity = Recoverable, stop_service = False, exit_process = False\<rparr>"

definition kCriticalPolicy :: ErrorPolicy where
  "kCriticalPolicy = \<lparr>severity = Critical, stop_service = True, exit_process = True\<rparr>"

definition kFatalPolicy :: ErrorPolicy where
  "kFatalPolicy = \<lparr>severity = Fatal, stop_service = True, exit_process = True\<rparr>"

definition kApiCriticalPolicy :: ErrorPolicy where
  "kApiCriticalPolicy = \<lparr>severity = Critical, stop_service = False, exit_process = False\<rparr>"

definition kApiFatalPolicy :: ErrorPolicy where
  "kApiFatalPolicy = \<lparr>severity = Fatal, stop_service = False, exit_process = False\<rparr>"

lemmas policy_defs = kRecoverablePolicy_def kCriticalPolicy_def kFatalPolicy_def
  kApiCriticalPolicy_def kApiFatalPolicy_def

definition code_in_range :: "ErrorCode \<Rightarrow> u16 \<Rightarrow> u16 \<Rightarrow> bool" where
  "code_in_range code lo hi =
     (let value = error_code_value code in value \<ge> lo \<and> value \<le> hi)"

fun classify_by_code :: "ErrorCode \<Rightarrow> ErrorPolicy" where
  "classify_by_code Ok = kRecoverablePolicy"
| "classify_by_code InvalidOrderId = kRecoverablePolicy"
| "classify_by_code DuplicateOrder = kRecoverablePolicy"
| "classify_by_code InvalidParam = kRecoverablePolicy"
| "classify_by_code OrderBookFull = kRecoverablePolicy"
| "classify_by_code OrderNotFound = kRecoverablePolicy"
| "classify_by_code QueueFull = kRecoverablePolicy"
| "classify_by_code ErrQueuePushFailed = kRecoverablePolicy"
| "classify_by_code QueuePopFailed = kRecoverablePolicy"
| "classify_by_code RouteFailed = kRecoverablePolicy"
| "classify_by_code SplitFailed = kRecoverablePolicy"
| "classify_by_code OrderPoolFull = kRecoverablePolicy"
| "classify_by_code HealthCheckFailed = kRecoverablePolicy"
| "classify_by_code LoggerQueueFull = kRecoverablePolicy"
| "classify_by_code InvalidConfig = kCriticalPolicy"
| "classify_by_code ConfigParseFailed = kCriticalPolicy"
| "classify_by_code ConfigValidateFailed = kCriticalPolicy"
| "classify_by_code InvalidState = kCriticalPolicy"
| "classify_by_code ComponentUnavailable = kCriticalPolicy"
| "classify_by_code ShmOpenFailed = kCriticalPolicy"
| "classify_by_code ShmFstatFailed = kCriticalPolicy"
| "classify_by_code ShmResizeFailed = kCriticalPolicy"
| "classify_by_code ShmMmapFailed = kCriticalPolicy"
| "classify_by_code ShmHeaderInvalid = kCriticalPolicy"
| "classify_by_code LoggerInitFailed = kCriticalPolicy"
| "classify_by_code LoggerThreadFailed = kCriticalPolicy"
| "classify_by_code PositionUpdateFailed = kFatalPolicy"
| "classify_by_code OrderInvariantBroken = kFatalPolicy"
| "classify_by_code ShmHeaderCorrupted = kFatalPolicy"
| "classify_by_code InternalError = kFatalPolicy"

definition classify_for_api :: "ErrorCode \<Rightarrow> ErrorPolicy" where
  "classify_for_api code =
     (case severity (classify_by_code code) of
        Recoverable \<Rightarrow> kRecoverablePolicy
      | Critical \<Rightarrow> kApiCriticalPolicy
      | Fatal \<Rightarrow> kApiFatalPolicy)"

definition classify :: "ErrorDomain \<Rightarrow> ErrorCode \<Rightarrow> ErrorPolicy" where
  "classify domain code =
     (case domain of
        D_api \<Rightarrow> classify_for_api code
      | D_config \<Rightarrow>
          if code_in_range code 2000 2099 then kCriticalPolicy else classify_by_code code
      | D_shm \<Rightarrow>
          if code = ShmHeaderCorrupted then kFatalPolicy
          else if code_in_range code 3000 3099 then kCriticalPolicy
          else classify_by_code code
      | D_order \<Rightarrow>
          if code = OrderInvariantBroken then kFatalPolicy
          else if code_in_range code 4000 4099 then kRecoverablePolicy
          else classify_by_code code
      | D_portfolio \<Rightarrow>
          if code = PositionUpdateFailed \<or> code = ShmHeaderCorrupted then kFatalPolicy
          else if code = ComponentUnavailable \<or> code = ShmHeaderInvalid then kCriticalPolicy
          else classify_by_code code
      | _ \<Rightarrow> classify_by_code code)"

lemma classify_stop_exit:
  "stop_service (classify d c) = exit_process (classify d c)"
  by (cases d; cases c) (simp_all add: classify_def classify_for_api_def policy_defs
      code_in_range_def)

lemma classify_domain:
  "d \<noteq> D_api \<Longrightarrow> classify d c = classify_by_code c"
  by (cases d; cases c) (simp_all add: classify_def policy_defs code_in_range_def)

lemma classify_stop_severity:
  "stop_service (classify d c) \<longleftrightarrow> d \<noteq> D_api \<and> severity (classify d c) \<noteq> Recoverable"
  by (cases d; cases c) (simp_all add: classify_def classify_for_api_def policy_defs
      code_in_range_def)

section \<open>Statuses and the registry\<close>

record ErrorStatus =
  es_domain :: ErrorDomain
  es_code :: ErrorCode
  es_sys_errno :: int
  es_ts_ns :: TimestampNs
  es_line :: u32
  es_module :: string
  es_file :: string
  es_message :: string

definition ErrorStatus_default :: ErrorStatus where
  "ErrorStatus_default = \<lparr>es_domain = D_none, es_code = Ok, es_sys_errno = 0, es_ts_ns = 0,
     es_line = 0, es_module = [], es_file = [], es_message = []\<rparr>"

definition error_ok :: "ErrorStatus \<Rightarrow> bool" where
  "error_ok s = (es_code s = Ok)"

definition make_error_status ::
    "ErrorDomain \<Rightarrow> ErrorCode \<Rightarrow> string \<Rightarrow> string \<Rightarrow> u32 \<Rightarrow> string \<Rightarrow> int \<Rightarrow> TimestampNs \<Rightarrow> ErrorStatus" where
  "make_error_status domain code mdl file line message sys_errno now =
     \<lparr>es_domain = domain, es_code = code, es_sys_errno = sys_errno, es_ts_ns = now,
      es_line = line, es_module = fs_assign 24 mdl, es_file = fs_assign 96 file,
      es_message = fs_assign 192 message\<rparr>"

text \<open>
  \<open>history_\<close> is an array of \<open>kHistoryCapacity\<close> statuses written round-robin at
  \<open>history_pos_\<close>; the array is the function from positions to statuses.
\<close>

definition kHistoryCapacity :: nat where
  "kHistoryCapacity = 4096"

record ErrorRegistry =
  counters :: "ErrorCode \<Rightarrow> u64 option"
  history :: "nat \<Rightarrow> ErrorStatus"
  history_pos :: nat
  history_size :: nat

definition ErrorRegistry_init :: ErrorRegistry where
  "ErrorRegistry_init = \<lparr>counters = Map.empty, history = (\<lambda>_. ErrorStatus_default),
     history_pos = 0, history_size = 0\<rparr>"

definition registry_record :: "ErrorStatus \<Rightarrow> ErrorRegistry \<Rightarrow> ErrorRegistry" where
  "registry_record status r =
     (let c = (case counters r (es_code status) of None \<Rightarrow> 0 | Some n \<Rightarrow> n)
      in r\<lparr>counters := (counters r)(es_code status \<mapsto> c + 1),
           history := (history r)(history_pos r := status),
           history_pos := (history_pos r + 1) mod kHistoryCapacity,
           history_size := (if history_size r < kHistoryCapacity
                            then history_size r + 1 else history_size r)\<rparr>)"

definition registry_count :: "ErrorCode \<Rightarrow> ErrorRegistry \<Rightarrow> u64" where
  "registry_count code r = (case counters r code of None \<Rightarrow> 0 | Some n \<Rightarrow> n)"

definition recent_errors :: "ErrorRegistry \<Rightarrow> ErrorStatus list" where
  "recent_errors r =
     (let start = (if history_size r = kHistoryCapacity then history_pos r else 0)
      in map (\<lambda>i. history r ((start + i) mod kHistoryCapacity)) [0..<history_size r])"

definition registry_reset :: "ErrorRegistry \<Rightarrow> ErrorRegistry" where
  "registry_reset r = r\<lparr>counters := Map.empty, history_pos := 0, history_size := 0\<rparr>"

section \<open>The error globals and the shutdown latch\<close>

record error_state =
  g_thread_last_error :: ErrorStatus
  g_latest_error :: ErrorStatus
  g_registry :: ErrorRegistry
  g_shutdown_reason :: int

definition error_state_init :: error_state where
  "error_state_init = \<lparr>g_thread_last_error = ErrorStatus_default,
     g_latest_error = ErrorStatus_default, g_registry = ErrorRegistry_init,
     g_shutdown_reason = -1\<rparr>"

definition request_shutdown :: "ErrorSeverity \<Rightarrow> error_state \<Rightarrow> error_state" where
  "request_shutdown sev g =
     (let desired = severity_value sev
      in if g_shutdown_reason g < desired then g\<lparr>g_shutdown_reason := desired\<rparr> else g)"

definition record_error :: "ErrorStatus \<Rightarrow> error_state \<Rightarrow> error_state" where
  "record_error status g =
     (let g = g\<lparr>g_thread_last_error := status, g_latest_error := status\<rparr>
      in if \<not> error_ok status then
           let g = g\<lparr>g_registry := registry_record status (g_registry g)\<rparr>;
               policy = classify (es_domain status) (es_code status)
           in if stop_service policy \<or> exit_process policy
              then request_shutdown (severity policy) g else g
         else g)"

definition shutdown_reason :: "error_state \<Rightarrow> ErrorSeverity" where
  "shutdown_reason g =
     (let value = g_shutdown_reason g
      in if value \<le> severity_value Recoverable then Recoverable
         else if value \<ge> severity_value Fatal then Fatal
         else Critical)"

definition clear_shutdown_reason :: "error_state \<Rightarrow> error_state" where
  "clear_shutdown_reason g = g\<lparr>g_shutdown_reason := -1\<rparr>"

definition clear_last_error :: "error_state \<Rightarrow> error_state" where
  "clear_last_error g = g\<lparr>g_thread_last_error := ErrorStatus_default\<rparr>"

definition should_stop_service :: "error_state \<Rightarrow> bool" where
  "should_stop_service g = (g_shutdown_reason g \<ge> severity_value Critical)"

definition should_exit_process :: "error_state \<Rightarrow> bool" where
  "should_exit_process g = (g_shutdown_reason g \<ge> severity_value Critical)"

definition record_errors :: "ErrorStatus list \<Rightarrow> error_state \<Rightarrow> error_state" where
  "record_errors es g = fold record_error es g"

section \<open>The history is the last \<open>kHistoryCapacity\<close> statuses\<close>

definition registry_holds :: "ErrorRegistry \<Rightarrow> ErrorStatus list \<Rightarrow> bool" where
  "registry_holds r es \<longleftrightarrow>
     history_size r = min (length es) kHistoryCapacity
     \<and> history_pos r = length es mod kHistoryCapacity
     \<and> (\<forall>i < length es. length es \<le> i + kHistoryCapacity
            \<longrightarrow> history r (i mod kHistoryCapacity) = es ! i)
     \<and> (\<forall>c. registry_count c r = of_nat (count_list (map es_code es) c))"

lemma registry_holds_init: "registry_holds ErrorRegistry_init []"
  by (simp add: registry_holds_def ErrorRegistry_init_def registry_count_def)

lemma mod_eq_window:
  fixes i n k :: nat
  assumes "i mod k = n mod k" "i < n" "n < i + k"
  shows False
proof -
  have "k dvd n - i" using assms(1,2) by (metis mod_eq_dvd_iff_nat less_imp_le)
  with assms(2,3) show False using nat_dvd_not_less [of "n - i" k] by simp
qed

lemma registry_holds_record:
  assumes "registry_holds r es"
  shows "registry_holds (registry_record e r) (es @ [e])"
proof -
  let ?n = "length es" and ?r = "registry_record e r"
  have r: "history_size r = min ?n kHistoryCapacity" "history_pos r = ?n mod kHistoryCapacity"
    and h: "\<And>i. i < ?n \<Longrightarrow> ?n \<le> i + kHistoryCapacity \<Longrightarrow> history r (i mod kHistoryCapacity) = es ! i"
    and c: "\<And>c. registry_count c r = of_nat (count_list (map es_code es) c)"
    using assms by (auto simp: registry_holds_def)
  have "history ?r (i mod kHistoryCapacity) = (es @ [e]) ! i"
    if "i < Suc ?n" "Suc ?n \<le> i + kHistoryCapacity" for i
  proof (cases "i = ?n")
    case True
    then show ?thesis by (simp add: registry_record_def Let_def r)
  next
    case False
    then have "i mod kHistoryCapacity \<noteq> ?n mod kHistoryCapacity"
      using that mod_eq_window [of i kHistoryCapacity ?n] by auto
    then show ?thesis using that False h [of i]
      by (simp add: registry_record_def Let_def r nth_append)
  qed
  moreover have "registry_count x ?r = of_nat (count_list (map es_code (es @ [e])) x)" for x
    using c [of x] by (auto simp: registry_count_def registry_record_def Let_def split: option.splits)
  moreover have "history_pos ?r = Suc ?n mod kHistoryCapacity"
    by (simp add: registry_record_def Let_def r mod_Suc_eq)
  moreover have "history_size ?r = min (Suc ?n) kHistoryCapacity"
    by (simp add: registry_record_def Let_def r)
  ultimately show ?thesis by (simp add: registry_holds_def)
qed

lemma registry_holds_fold: "registry_holds (fold registry_record es ErrorRegistry_init) es"
proof (induction es rule: rev_induct)
  case Nil
  then show ?case by (simp add: registry_holds_init)
next
  case (snoc e es)
  then show ?case by (simp add: registry_holds_record)
qed

lemma recent_errors_eq:
  assumes "registry_holds r es"
  shows "recent_errors r = drop (length es - kHistoryCapacity) es"
proof (rule nth_equalityI)
  show "length (recent_errors r) = length (drop (length es - kHistoryCapacity) es)"
    using assms by (simp add: recent_errors_def registry_holds_def)
next
  fix i assume "i < length (recent_errors r)"
  then have i: "i < min (length es) kHistoryCapacity"
    using assms by (simp add: recent_errors_def registry_holds_def)
  show "recent_errors r ! i = drop (length es - kHistoryCapacity) es ! i"
  proof (cases "length es < kHistoryCapacity")
    case True
    with assms i show ?thesis
      by (auto simp: recent_errors_def registry_holds_def)
  next
    case False
    let ?j = "length es - kHistoryCapacity + i"
    have "(length es mod kHistoryCapacity + i) mod kHistoryCapacity = ?j mod kHistoryCapacity"
    proof -
      have "(length es mod kHistoryCapacity + i) mod kHistoryCapacity
          = (?j + kHistoryCapacity) mod kHistoryCapacity"
        using False by (simp add: mod_add_left_eq)
      then show ?thesis by simp
    qed
    moreover have "history r (?j mod kHistoryCapacity) = es ! ?j"
      using assms i False unfolding registry_holds_def by simp
    moreover have "history_size r = kHistoryCapacity" "history_pos r = length es mod kHistoryCapacity"
      using assms False by (auto simp: registry_holds_def min_def)
    ultimately show ?thesis using i False by (simp add: recent_errors_def)
  qed
qed

section \<open>The latch\<close>

definition requests_stop :: "ErrorStatus \<Rightarrow> bool" where
  "requests_stop e \<longleftrightarrow> es_domain e \<noteq> D_api
     \<and> severity (classify (es_domain e) (es_code e)) \<noteq> Recoverable"

lemma severity_Ok: "severity (classify d Ok) = Recoverable"
  by (cases d) (simp_all add: classify_def classify_for_api_def policy_defs code_in_range_def)

lemma record_error_shutdown:
  "g_shutdown_reason (record_error e g) =
     (if requests_stop e
      then max (g_shutdown_reason g) (severity_value (severity (classify (es_domain e) (es_code e))))
      else g_shutdown_reason g)"
proof (cases "es_code e = Ok")
  case True
  then show ?thesis
    by (simp add: record_error_def error_ok_def requests_stop_def severity_Ok Let_def)
next
  case False
  then show ?thesis
    by (simp add: record_error_def error_ok_def requests_stop_def request_shutdown_def Let_def
        classify_stop_exit [symmetric] classify_stop_severity)
qed

lemma severity_value_stop: "severity s \<noteq> Recoverable \<Longrightarrow> 1 \<le> severity_value (severity s)"
  by (cases "severity s") auto

lemma severity_value_fatal: "2 \<le> severity_value s \<longleftrightarrow> s = Fatal"
  by (cases s) auto

lemma record_errors_shutdown_ge:
  "(\<forall>e \<in> set es. requests_stop e
      \<longrightarrow> severity_value (severity (classify (es_domain e) (es_code e)))
            \<le> g_shutdown_reason (record_errors es g))
   \<and> g_shutdown_reason g \<le> g_shutdown_reason (record_errors es g)
   \<and> (g_shutdown_reason (record_errors es g) = g_shutdown_reason g
       \<or> (\<exists>e \<in> set es. requests_stop e \<and> g_shutdown_reason (record_errors es g)
            = severity_value (severity (classify (es_domain e) (es_code e)))))"
proof (induction es rule: rev_induct)
  case Nil
  then show ?case by (simp add: record_errors_def)
next
  case (snoc e es)
  then show ?case by (auto simp: record_errors_def record_error_shutdown max_def)
qed

lemma record_errors_stop:
  assumes "g_shutdown_reason g \<le> 0"
  shows "should_stop_service (record_errors es g) \<longleftrightarrow> (\<exists>e \<in> set es. requests_stop e)"
proof
  assume "should_stop_service (record_errors es g)"
  then show "\<exists>e \<in> set es. requests_stop e"
    using record_errors_shutdown_ge [of es g] assms by (auto simp: should_stop_service_def)
next
  assume "\<exists>e \<in> set es. requests_stop e"
  then obtain e where e: "e \<in> set es" "requests_stop e" by blast
  then have "1 \<le> severity_value (severity (classify (es_domain e) (es_code e)))"
    by (auto simp: requests_stop_def intro: severity_value_stop)
  with e show "should_stop_service (record_errors es g)"
    using record_errors_shutdown_ge [of es g] by (fastforce simp: should_stop_service_def)
qed

lemma record_errors_registry:
  assumes "\<forall>e \<in> set es. es_code e \<noteq> Ok"
  shows "g_registry (record_errors es g) = fold registry_record es (g_registry g)"
  using assms
proof (induction es arbitrary: g)
  case Nil
  then show ?case by (simp add: record_errors_def)
next
  case (Cons e es)
  have "g_registry (record_error e g) = registry_record e (g_registry g)"
    using Cons.prems by (simp add: record_error_def error_ok_def request_shutdown_def Let_def)
  with Cons show ?case by (simp add: record_errors_def)
qed

section \<open>Properties\<close>

text \<open>C18: The latch and its reason.  From a fresh error state, the service is told to stop (and
  the process to exit) exactly if some error recorded outside the API domain has a policy other
  than Recoverable.  The reason it reports is the worst among those errors, whatever the order
  they came in: Fatal if one of them is Fatal, Critical if there are some but none is Fatal,
  Recoverable if there is none; and the number behind it is the maximum of their severities,
  so a later, milder error never hides it.\<close>

theorem shutdown_latch:
  "should_stop_service (record_errors es error_state_init) = (\<exists>e \<in> set es. requests_stop e)
   \<and> should_exit_process (record_errors es error_state_init) = (\<exists>e \<in> set es. requests_stop e)
   \<and> shutdown_reason (record_errors es error_state_init) =
       (if \<exists>e \<in> set es. requests_stop e \<and> severity (classify (es_domain e) (es_code e)) = Fatal then Fatal
        else if \<exists>e \<in> set es. requests_stop e then Critical else Recoverable)
   \<and> g_shutdown_reason (record_errors es error_state_init) =
       Max (insert (-1) ((\<lambda>e. severity_value (severity (classify (es_domain e) (es_code e))))
              ` {e \<in> set es. requests_stop e}))"
proof -
  let ?g = "record_errors es error_state_init"
  let ?sev = "\<lambda>e. severity_value (severity (classify (es_domain e) (es_code e)))"
  have init: "g_shutdown_reason error_state_init = -1" by (simp add: error_state_init_def)
  have stop: "should_stop_service ?g = (\<exists>e \<in> set es. requests_stop e)"
    by (rule record_errors_stop) (simp add: init)
  have exits: "should_exit_process ?g = should_stop_service ?g"
    by (simp add: should_exit_process_def should_stop_service_def)
  have top: "g_shutdown_reason ?g = Max (insert (-1) (?sev ` {e \<in> set es. requests_stop e}))"
    using record_errors_shutdown_ge [of es error_state_init] unfolding init
    by (intro Max_eqI [symmetric]) auto
  have fatal: "2 \<le> g_shutdown_reason ?g \<longleftrightarrow> (\<exists>e \<in> set es. requests_stop e
      \<and> severity (classify (es_domain e) (es_code e)) = Fatal)"
    unfolding top by (subst Max_ge_iff) (auto simp: severity_value_fatal)
  have "1 \<le> g_shutdown_reason ?g \<longleftrightarrow> (\<exists>e \<in> set es. requests_stop e)"
    using stop by (simp add: should_stop_service_def)
  with fatal have "shutdown_reason ?g =
       (if \<exists>e \<in> set es. requests_stop e \<and> severity (classify (es_domain e) (es_code e)) = Fatal then Fatal
        else if \<exists>e \<in> set es. requests_stop e then Critical else Recoverable)"
    by (simp add: shutdown_reason_def Let_def) linarith
  with stop exits top show ?thesis by simp
qed

theorem shutdown_latch_witness:
  "shutdown_reason (record_errors
     [ErrorStatus_default\<lparr>es_domain := D_config, es_code := ConfigValidateFailed\<rparr>,
      ErrorStatus_default\<lparr>es_domain := D_order, es_code := ErrQueuePushFailed\<rparr>] error_state_init) = Critical"
proof -
  let ?c = "ErrorStatus_default\<lparr>es_domain := D_config, es_code := ConfigValidateFailed\<rparr>"
  let ?q = "ErrorStatus_default\<lparr>es_domain := D_order, es_code := ErrQueuePushFailed\<rparr>"
  have sev: "severity (classify D_config ConfigValidateFailed) = Critical"
    "severity (classify D_order ErrQueuePushFailed) = Recoverable" by code_simp+
  then have r: "requests_stop ?c" "\<not> requests_stop ?q" by (simp_all add: requests_stop_def)
  have f: "\<not> (\<exists>e \<in> set [?c, ?q]. requests_stop e \<and> severity (classify (es_domain e) (es_code e)) = Fatal)"
    using sev r(2) by auto
  have "\<exists>e \<in> set [?c, ?q]. requests_stop e" using r(1) by simp
  with f shutdown_latch [of "[?c, ?q]"] show ?thesis by (simp only: if_True if_False)
qed

text \<open>The registry is a ring of fixed capacity and behaves as the list of the most recent
  statuses: after any sequence of recorded errors \<open>recent_errors\<close> returns the last 4096 of
  them in order, and the counter of a code is the number of its occurrences (modulo the
  counter's width).\<close>

theorem registry_keeps_most_recent:
  assumes "\<forall>e \<in> set es. es_code e \<noteq> Ok"
  shows "recent_errors (g_registry (record_errors es error_state_init)) = drop (length es - kHistoryCapacity) es
    \<and> registry_count c (g_registry (record_errors es error_state_init))
        = of_nat (count_list (map es_code es) c)"
proof -
  have "registry_holds (g_registry (record_errors es error_state_init)) es"
    using registry_holds_fold [of es] assms
    by (simp add: record_errors_registry error_state_init_def)
  then show ?thesis by (simp add: recent_errors_eq) (simp add: registry_holds_def)
qed

theorem registry_keeps_most_recent_witness:
  "registry_count OrderNotFound
     (g_registry (record_errors [ErrorStatus_default\<lparr>es_code := OrderNotFound\<rparr>] error_state_init)) = 1"
  using registry_keeps_most_recent [of "[ErrorStatus_default\<lparr>es_code := OrderNotFound\<rparr>]" OrderNotFound]
  by simp

end
