(* ===== verification/Order_Book.thy ===== *)
theory Order_Book
  imports Security_Identity Error_Model
begin

text \<open>
  \<^verbatim>\<open>src/order/order_book.hpp\<close> and \<^verbatim>\<open>src/order/order_book.cpp\<close>: the slot array with its id,
  broker-id and security indices, the parent/child links of split orders, and the
  aggregation of a parent from its children.  Every operation runs under the book's lock and is
  one step.  It returns its result, the new book and, in order, the calls it makes to the
  outside: the change callback (\<open>Notify\<close>) and \<open>record_error\<close> (\<open>Raise\<close>).  \<open>now_ns()\<close> is an
  argument.  The capacity is an argument of the constructor (\<open>kMaxActiveOrders\<close> in the source);
  the free-slot stack is a list whose head is the vector's back.
\<close>

section \<open>Data\<close>

datatype order_book_event = Added | StatusUpdated | TradeUpdated | Archived | ParentRefreshed

datatype ob_effect =
    Notify OrderEntry order_book_event
  | Raise ErrorDomain ErrorCode

record ManagedParentView =
  v_execution_algo :: PassiveExecutionAlgo
  v_execution_state :: ExecutionState
  v_target_volume :: Volume
  v_working_volume :: Volume
  v_schedulable_volume :: Volume
  v_confirmed_traded_volume :: Volume
  v_confirmed_traded_value :: DValue
  v_confirmed_fee :: DValue

record OrderBook =
  ob_orders :: "nat \<Rightarrow> OrderEntry"
  id_to_index :: "InternalOrderId \<Rightarrow> nat option"
  broker_id_map :: "u64 \<Rightarrow> InternalOrderId option"
  security_orders :: "InternalSecurityId \<Rightarrow> InternalOrderId list option"
  parent_to_children :: "InternalOrderId \<Rightarrow> InternalOrderId list option"
  child_to_parent :: "InternalOrderId \<Rightarrow> InternalOrderId option"
  managed_parent_ids :: "InternalOrderId set"
  split_parent_error_latched :: "InternalOrderId set"
  free_slots :: "nat list"
  ob_active_count :: nat
  ob_next_order_id :: InternalOrderId

type_synonym 'a book_result = "'a \<times> OrderBook \<times> ob_effect list"

definition OrderBook_new :: "nat \<Rightarrow> OrderBook" where
  "OrderBook_new capacity = \<lparr>ob_orders = (\<lambda>_. OrderEntry_default), id_to_index = Map.empty,
     broker_id_map = Map.empty, security_orders = Map.empty, parent_to_children = Map.empty,
     child_to_parent = Map.empty, managed_parent_ids = {}, split_parent_error_latched = {},
     free_slots = [0..<capacity], ob_active_count = 0, ob_next_order_id = 1\<rparr>"

section \<open>Helpers\<close>

definition saturated_next_order_id :: "InternalOrderId \<Rightarrow> InternalOrderId" where
  "saturated_next_order_id order_id = (if order_id = - 1 then order_id else order_id + 1)"

definition normalize_order_security_key :: "string \<Rightarrow> InternalSecurityId option" where
  "normalize_order_security_key security_key =
     (if security_key = [] then None else normalize_internal_security_id security_key)"

definition ensure_next_order_id_at_least :: "InternalOrderId \<Rightarrow> OrderBook \<Rightarrow> OrderBook" where
  "ensure_next_order_id_at_least next_id b =
     (if ob_next_order_id b < next_id then b\<lparr>ob_next_order_id := next_id\<rparr> else b)"

definition next_order_id :: "OrderBook \<Rightarrow> InternalOrderId \<times> OrderBook" where
  "next_order_id b = (ob_next_order_id b, b\<lparr>ob_next_order_id := ob_next_order_id b + 1\<rparr>)"

definition is_managed_parent :: "InternalOrderId \<Rightarrow> OrderBook \<Rightarrow> bool" where
  "is_managed_parent parent_id b = (parent_id \<in> managed_parent_ids b)"

definition find_order :: "InternalOrderId \<Rightarrow> OrderBook \<Rightarrow> OrderEntry option" where
  "find_order order_id b = map_option (ob_orders b) (id_to_index b order_id)"

text \<open>Writing through the pointer that \<open>find_order\<close> returns.\<close>

definition modify_order :: "InternalOrderId \<Rightarrow> (OrderEntry \<Rightarrow> OrderEntry) \<Rightarrow> OrderBook \<Rightarrow> OrderBook" where
  "modify_order order_id f b =
     (case id_to_index b order_id of
        None \<Rightarrow> b
      | Some index \<Rightarrow> b\<lparr>ob_orders := (ob_orders b)(index := f (ob_orders b index))\<rparr>)"

definition find_by_broker_id :: "u64 \<Rightarrow> OrderBook \<Rightarrow> OrderEntry option" where
  "find_by_broker_id bid b =
     (case broker_id_map b bid of None \<Rightarrow> None | Some order_id \<Rightarrow> find_order order_id b)"

section \<open>A parent from its children\<close>

record child_totals =
  ct_volume_traded :: Volume
  ct_volume_remain :: Volume
  ct_dvalue_traded :: DValue
  ct_fee :: DValue
  ct_latest_update_ns :: TimestampNs
  ct_all_terminal :: bool
  ct_best_status :: OrderState
  ct_best_rank :: int
  ct_new_child_count :: nat

definition add_child :: "OrderBook \<Rightarrow> InternalOrderId \<Rightarrow> child_totals \<Rightarrow> child_totals" where
  "add_child b child_id t =
     (case find_order child_id b of
        None \<Rightarrow> t
      | Some child \<Rightarrow>
          if order_type (request child) \<noteq> New then t
          else let child_status = order_state (request child);
                   rank = status_progress_rank child_status
          in t\<lparr>ct_new_child_count := ct_new_child_count t + 1,
               ct_volume_traded := saturating_add (ct_volume_traded t) (volume_traded (request child)),
               ct_volume_remain := saturating_add (ct_volume_remain t) (volume_remain (request child)),
               ct_dvalue_traded := saturating_add (ct_dvalue_traded t) (dvalue_traded (request child)),
               ct_fee := saturating_add (ct_fee t) (dfee_executed (request child)),
               ct_latest_update_ns := max (ct_latest_update_ns t) (last_update_ns child),
               ct_all_terminal := (if \<not> is_terminal_state child_status then False else ct_all_terminal t),
               ct_best_status := (if rank > ct_best_rank t then child_status else ct_best_status t),
               ct_best_rank := (if rank > ct_best_rank t then rank else ct_best_rank t)\<rparr>)"

definition collect_children :: "OrderBook \<Rightarrow> InternalOrderId list \<Rightarrow> TimestampNs \<Rightarrow> child_totals" where
  "collect_children b children start_ns =
     fold (add_child b) children
       \<lparr>ct_volume_traded = 0, ct_volume_remain = 0, ct_dvalue_traded = 0, ct_fee = 0,
        ct_latest_update_ns = start_ns, ct_all_terminal = True, ct_best_status = OrderState.NotSet,
        ct_best_rank = - 1, ct_new_child_count = 0\<rparr>"

definition apply_totals :: "bool \<Rightarrow> child_totals \<Rightarrow> OrderEntry \<Rightarrow> OrderEntry" where
  "apply_totals latched t parent =
     (let r = (request parent)\<lparr>volume_traded := ct_volume_traded t, volume_remain := ct_volume_remain t,
                dvalue_traded := ct_dvalue_traded t, dfee_executed := ct_fee t\<rparr>;
          r = (if ct_volume_traded t > 0
               then r\<lparr>dprice_traded := ct_dvalue_traded t div ct_volume_traded t\<rparr> else r);
          r = (if volume_entrust r > 0 \<and> volume_remain r > volume_entrust r
               then r\<lparr>volume_remain := volume_entrust r\<rparr> else r);
          r = (if latched then r\<lparr>order_state := TraderError\<rparr>
               else if ct_all_terminal t then r\<lparr>order_state := OrderState.Finished\<rparr>
               else if ct_best_status t \<noteq> OrderState.NotSet then r\<lparr>order_state := ct_best_status t\<rparr>
               else r)
      in parent\<lparr>request := r, last_update_ns := ct_latest_update_ns t\<rparr>)"

definition refresh_parent_from_children ::
    "InternalOrderId \<Rightarrow> OrderBook \<Rightarrow> OrderBook \<times> ob_effect list" where
  "refresh_parent_from_children parent_id b =
     (if is_managed_parent parent_id b then (b, [])
      else case find_order parent_id b of
        None \<Rightarrow> (b, [Raise D_order OrderInvariantBroken])
      | Some parent \<Rightarrow>
          (case parent_to_children b parent_id of
             None \<Rightarrow> (b, [])
           | Some children \<Rightarrow>
               let t = collect_children b children (last_update_ns parent)
               in if ct_new_child_count t = 0 then (b, [])
                  else let parent = apply_totals (parent_id \<in> split_parent_error_latched b) t parent
                  in (modify_order parent_id (\<lambda>_. parent) b, [Notify parent ParentRefreshed])))"

text \<open>The tail that \<open>update_state\<close> and \<open>update_trade\<close> share.\<close>

definition refresh_parent_of :: "InternalOrderId \<Rightarrow> OrderBook \<Rightarrow> OrderBook \<times> ob_effect list" where
  "refresh_parent_of order_id b =
     (case child_to_parent b order_id of
        None \<Rightarrow> (b, [])
      | Some parent_id \<Rightarrow>
          if \<not> is_managed_parent parent_id b then refresh_parent_from_children parent_id b
          else (b, []))"

section \<open>Operations\<close>

definition stored_entry :: "TimestampNs \<Rightarrow> OrderEntry \<Rightarrow> OrderEntry" where
  "stored_entry now entry =
     (let stored = entry;
          stored = (if submit_time_ns stored = 0 then stored\<lparr>submit_time_ns := now\<rparr> else stored);
          stored = (if last_update_ns stored = 0
                    then stored\<lparr>last_update_ns := submit_time_ns stored\<rparr> else stored);
          r = request stored
      in if order_type r = New \<and> volume_remain r = 0 \<and> volume_entrust r \<ge> volume_traded r
         then stored\<lparr>request := r\<lparr>volume_remain := volume_entrust r - volume_traded r\<rparr>\<rparr>
         else stored)"

definition push_back :: "'a \<Rightarrow> 'a list option \<Rightarrow> 'a list option" where
  "push_back x xs = Some ((case xs of None \<Rightarrow> [] | Some xs \<Rightarrow> xs) @ [x])"

text \<open>
  The security key of the entry is normalised for the index only: the assignment to
  \<open>stored.request.internal_security_id\<close> comes after \<open>stored\<close> was copied into the slot.
\<close>

definition add_order :: "OrderEntry \<Rightarrow> TimestampNs \<Rightarrow> OrderBook \<Rightarrow> bool book_result" where
  "add_order entry now b =
     (let order_id = internal_order_id (request entry)
      in if order_id = 0 then (False, b, [Raise D_order InvalidOrderId])
      else if id_to_index b order_id \<noteq> None then (False, b, [Raise D_order DuplicateOrder])
      else case free_slots b of
        [] \<Rightarrow> (False, b, [Raise D_order OrderBookFull])
      | index # free \<Rightarrow>
          let stored = stored_entry now entry;
              b = b\<lparr>free_slots := free, ob_orders := (ob_orders b)(index := stored),
                    id_to_index := (id_to_index b)(order_id \<mapsto> index)\<rparr>;
              b = ensure_next_order_id_at_least (saturated_next_order_id order_id) b;
              bid = broker_order_id (request stored);
              b = (if bid \<noteq> 0 then b\<lparr>broker_id_map := (broker_id_map b)(bid \<mapsto> order_id)\<rparr> else b);
              sec = internal_security_id (request stored);
              b = (if sec \<noteq> []
                   then case normalize_order_security_key sec of
                          None \<Rightarrow> b
                        | Some key \<Rightarrow> b\<lparr>security_orders :=
                            (security_orders b)(key := push_back order_id (security_orders b key))\<rparr>
                   else b);
              parent_id = parent_order_id stored;
              (b, fx) =
                (if is_split_child stored \<and> parent_id \<noteq> 0
                 then let b = b\<lparr>parent_to_children :=
                            (parent_to_children b)(parent_id := push_back order_id (parent_to_children b parent_id)),
                            child_to_parent := (child_to_parent b)(order_id \<mapsto> parent_id)\<rparr>
                      in if \<not> is_managed_parent parent_id b
                         then refresh_parent_from_children parent_id b else (b, [])
                 else (b, []));
              b = b\<lparr>ob_active_count := ob_active_count b + 1\<rparr>;
              snapshot = ob_orders b index
          in (True, b, fx @ [Notify snapshot Added]))"

definition update_state ::
    "InternalOrderId \<Rightarrow> OrderState \<Rightarrow> TimestampNs \<Rightarrow> OrderBook \<Rightarrow> bool book_result" where
  "update_state order_id new_state now b =
     (case id_to_index b order_id of
        None \<Rightarrow> (False, b, [Raise D_order OrderNotFound])
      | Some index \<Rightarrow>
          let b = modify_order order_id
                    (\<lambda>e. e\<lparr>request := (request e)\<lparr>order_state := new_state\<rparr>, last_update_ns := now\<rparr>) b;
              b = (if new_state = TraderError \<and> parent_to_children b order_id \<noteq> None
                      \<and> \<not> is_managed_parent order_id b
                   then b\<lparr>split_parent_error_latched := insert order_id (split_parent_error_latched b)\<rparr>
                   else b);
              (b, fx) = refresh_parent_of order_id b;
              snapshot = ob_orders b index
          in (True, b, fx @ [Notify snapshot StatusUpdated]))"

definition trade_request :: "Volume \<Rightarrow> DPrice \<Rightarrow> DValue \<Rightarrow> DValue \<Rightarrow> OrderRequest \<Rightarrow> OrderRequest" where
  "trade_request vol px val fee r =
     (let r = r\<lparr>volume_traded := saturating_add (volume_traded r) vol\<rparr>;
          r = (if volume_entrust r > 0 \<and> volume_traded r > volume_entrust r
               then r\<lparr>volume_traded := volume_entrust r\<rparr> else r);
          r = (if vol \<ge> volume_remain r then r\<lparr>volume_remain := 0\<rparr>
               else r\<lparr>volume_remain := volume_remain r - vol\<rparr>);
          r = r\<lparr>dvalue_traded := saturating_add (dvalue_traded r) val,
                dfee_executed := saturating_add (dfee_executed r) fee\<rparr>;
          r = (if volume_traded r > 0
               then if dvalue_traded r > 0
                    then r\<lparr>dprice_traded := dvalue_traded r div volume_traded r\<rparr>
                    else r\<lparr>dprice_traded := px\<rparr>
               else r)
      in if volume_remain r = 0
         then let current = order_state r
              in if \<not> is_terminal_state current then r\<lparr>order_state := OrderState.Finished\<rparr> else r
         else r)"

definition update_trade ::
    "InternalOrderId \<Rightarrow> Volume \<Rightarrow> DPrice \<Rightarrow> DValue \<Rightarrow> DValue \<Rightarrow> TimestampNs \<Rightarrow> OrderBook
      \<Rightarrow> bool book_result" where
  "update_trade order_id vol px val fee now b =
     (case id_to_index b order_id of
        None \<Rightarrow> (False, b, [Raise D_order OrderNotFound])
      | Some index \<Rightarrow>
          let b = modify_order order_id
                    (\<lambda>e. e\<lparr>request := trade_request vol px val fee (request e), last_update_ns := now\<rparr>) b;
              (b, fx) = refresh_parent_of order_id b;
              snapshot = ob_orders b index
          in (True, b, fx @ [Notify snapshot TradeUpdated]))"

definition mark_managed_parent :: "InternalOrderId \<Rightarrow> OrderBook \<Rightarrow> bool book_result" where
  "mark_managed_parent parent_id b =
     (case find_order parent_id b of
        None \<Rightarrow> (False, b, [Raise D_order OrderNotFound])
      | Some _ \<Rightarrow> (True, b\<lparr>managed_parent_ids := insert parent_id (managed_parent_ids b)\<rparr>, []))"

definition view_volume_remain :: "ManagedParentView \<Rightarrow> Volume" where
  "view_volume_remain view =
     (if v_target_volume view \<ge> v_confirmed_traded_volume view
      then v_target_volume view - v_confirmed_traded_volume view else 0)"

definition view_dprice_traded :: "ManagedParentView \<Rightarrow> DPrice" where
  "view_dprice_traded view =
     (if v_confirmed_traded_volume view > 0
      then v_confirmed_traded_value view div v_confirmed_traded_volume view else 0)"

definition apply_view :: "ManagedParentView \<Rightarrow> OrderState \<Rightarrow> OrderRequest \<Rightarrow> OrderRequest" where
  "apply_view view parent_state r = r\<lparr>
     execution_algo := v_execution_algo view, execution_state := v_execution_state view,
     target_volume := v_target_volume view, working_volume := v_working_volume view,
     schedulable_volume := v_schedulable_volume view, volume_entrust := v_target_volume view,
     volume_traded := v_confirmed_traded_volume view, volume_remain := view_volume_remain view,
     dvalue_traded := v_confirmed_traded_value view, dfee_executed := v_confirmed_fee view,
     dprice_traded := view_dprice_traded view, order_state := parent_state\<rparr>"

definition view_unchanged :: "ManagedParentView \<Rightarrow> OrderState \<Rightarrow> OrderRequest \<Rightarrow> bool" where
  "view_unchanged view parent_state r \<longleftrightarrow>
     execution_algo r = v_execution_algo view \<and> execution_state r = v_execution_state view
     \<and> target_volume r = v_target_volume view \<and> working_volume r = v_working_volume view
     \<and> schedulable_volume r = v_schedulable_volume view \<and> volume_entrust r = v_target_volume view
     \<and> volume_traded r = v_confirmed_traded_volume view \<and> volume_remain r = view_volume_remain view
     \<and> dvalue_traded r = v_confirmed_traded_value view \<and> dfee_executed r = v_confirmed_fee view
     \<and> dprice_traded r = view_dprice_traded view \<and> order_state r = parent_state"

definition sync_managed_parent_view ::
    "InternalOrderId \<Rightarrow> ManagedParentView \<Rightarrow> OrderState \<Rightarrow> TimestampNs \<Rightarrow> OrderBook \<Rightarrow> bool book_result" where
  "sync_managed_parent_view parent_id view parent_state now b =
     (case find_order parent_id b of
        None \<Rightarrow> (False, b, [Raise D_order OrderNotFound])
      | Some parent \<Rightarrow>
          let b = b\<lparr>managed_parent_ids := insert parent_id (managed_parent_ids b)\<rparr>
          in if view_unchanged view parent_state (request parent) then (True, b, [])
             else let parent = parent\<lparr>request := apply_view view parent_state (request parent),
                                      last_update_ns := now\<rparr>
             in (True, modify_order parent_id (\<lambda>_. parent) b, [Notify parent ParentRefreshed]))"

definition archive_order :: "InternalOrderId \<Rightarrow> OrderBook \<Rightarrow> bool book_result" where
  "archive_order order_id b =
     (case id_to_index b order_id of
        None \<Rightarrow> (False, b, [Raise D_order OrderNotFound])
      | Some index \<Rightarrow>
          let snapshot = ob_orders b index;
              bid = broker_order_id (request snapshot);
              b = (if bid \<noteq> 0 \<and> broker_id_map b bid = Some order_id
                   then b\<lparr>broker_id_map := (broker_id_map b)(bid := None)\<rparr> else b);
              sec = internal_security_id (request snapshot);
              b = (if sec \<noteq> []
                   then case normalize_order_security_key sec of
                          None \<Rightarrow> b
                        | Some key \<Rightarrow>
                            (case security_orders b key of
                               None \<Rightarrow> b
                             | Some ids \<Rightarrow>
                                 let ids = removeAll order_id ids
                                 in b\<lparr>security_orders := (security_orders b)
                                        (key := (if ids = [] then None else Some ids))\<rparr>)
                   else b);
              b = b\<lparr>id_to_index := (id_to_index b)(order_id := None),
                    managed_parent_ids := managed_parent_ids b - {order_id},
                    split_parent_error_latched := split_parent_error_latched b - {order_id},
                    ob_orders := (ob_orders b)(index := OrderEntry_default),
                    free_slots := index # free_slots b,
                    ob_active_count := ob_active_count b - 1\<rparr>
          in (True, b, [Notify snapshot Archived]))"

text \<open>The order in which an \<open>unordered_map\<close> is walked is unspecified: the answer is a set.\<close>

definition get_active_order_ids :: "OrderBook \<Rightarrow> InternalOrderId set" where
  "get_active_order_ids b = dom (id_to_index b)"

definition get_orders_by_security :: "InternalSecurityId \<Rightarrow> OrderBook \<Rightarrow> InternalOrderId list" where
  "get_orders_by_security sec b =
     (case normalize_order_security_key sec of
        None \<Rightarrow> []
      | Some key \<Rightarrow> (case security_orders b key of None \<Rightarrow> [] | Some ids \<Rightarrow> ids))"

definition get_children :: "InternalOrderId \<Rightarrow> OrderBook \<Rightarrow> InternalOrderId list" where
  "get_children parent_id b =
     (case parent_to_children b parent_id of None \<Rightarrow> [] | Some ids \<Rightarrow> ids)"

definition try_get_parent :: "InternalOrderId \<Rightarrow> OrderBook \<Rightarrow> InternalOrderId option" where
  "try_get_parent child_id b = child_to_parent b child_id"

definition clear_book :: "nat \<Rightarrow> OrderBook \<Rightarrow> OrderBook" where
  "clear_book capacity b = b\<lparr>id_to_index := Map.empty, broker_id_map := Map.empty,
     security_orders := Map.empty, parent_to_children := Map.empty, child_to_parent := Map.empty,
     managed_parent_ids := {}, split_parent_error_latched := {}, free_slots := [0..<capacity],
     ob_orders := (\<lambda>i. if i < capacity then OrderEntry_default else ob_orders b i),
     ob_active_count := 0\<rparr>"

section \<open>Changes that leave the indices alone\<close>

definition entry_key ::
    "OrderEntry \<Rightarrow> InternalOrderId \<times> u64 \<times> InternalSecurityId \<times> OrderType \<times> bool \<times> InternalOrderId \<times> u32" where
  "entry_key e = (internal_order_id (request e), broker_order_id (request e),
     internal_security_id (request e), order_type (request e), is_split_child e, parent_order_id e,
     shm_order_index e)"

definition content_change :: "OrderBook \<Rightarrow> OrderBook \<Rightarrow> bool" where
  "content_change b b' \<longleftrightarrow> b' = b\<lparr>ob_orders := ob_orders b'\<rparr>
     \<and> (\<forall>i. entry_key (ob_orders b' i) = entry_key (ob_orders b i))"

lemma content_change_refl [simp]: "content_change b b"
  by (simp add: content_change_def)

lemma content_change_trans: "content_change a b \<Longrightarrow> content_change b c \<Longrightarrow> content_change a c"
  unfolding content_change_def
  by (metis (no_types, lifting) OrderBook.surjective OrderBook.update_convs(1))

lemma content_change_sel:
  assumes "content_change b b'"
  shows "id_to_index b' = id_to_index b" "broker_id_map b' = broker_id_map b"
    "security_orders b' = security_orders b" "parent_to_children b' = parent_to_children b"
    "child_to_parent b' = child_to_parent b" "managed_parent_ids b' = managed_parent_ids b"
    "split_parent_error_latched b' = split_parent_error_latched b" "free_slots b' = free_slots b"
    "ob_active_count b' = ob_active_count b" "ob_next_order_id b' = ob_next_order_id b"
    "entry_key (ob_orders b' i) = entry_key (ob_orders b i)"
proof -
  have e: "b' = b\<lparr>ob_orders := ob_orders b'\<rparr>" and k: "entry_key (ob_orders b' i) = entry_key (ob_orders b i)"
    using assms by (auto simp: content_change_def)
  show "entry_key (ob_orders b' i) = entry_key (ob_orders b i)" by (rule k)
  show "id_to_index b' = id_to_index b" "broker_id_map b' = broker_id_map b"
    "security_orders b' = security_orders b" "parent_to_children b' = parent_to_children b"
    "child_to_parent b' = child_to_parent b" "managed_parent_ids b' = managed_parent_ids b"
    "split_parent_error_latched b' = split_parent_error_latched b" "free_slots b' = free_slots b"
    "ob_active_count b' = ob_active_count b" "ob_next_order_id b' = ob_next_order_id b"
    by (subst e, simp)+
qed

lemma modify_order_content [intro]:
  assumes "\<And>e. find_order order_id b = Some e \<Longrightarrow> entry_key (f e) = entry_key e"
  shows "content_change b (modify_order order_id f b)"
  using assms by (auto simp: content_change_def modify_order_def find_order_def split: option.splits)

lemma apply_totals_key [simp]: "entry_key (apply_totals latched t e) = entry_key e"
  by (simp add: apply_totals_def entry_key_def Let_def)

lemma refresh_parent_content: "content_change b (fst (refresh_parent_from_children p b))"
  by (auto simp: refresh_parent_from_children_def Let_def split: option.splits)

lemma refresh_parent_of_content: "content_change b (fst (refresh_parent_of c b))"
  by (auto simp: refresh_parent_of_def refresh_parent_content split: option.splits)

lemma find_modify_order:
  "find_order order_id (modify_order order_id f b) = map_option f (find_order order_id b)"
  by (auto simp: find_order_def modify_order_def split: option.splits)

section \<open>Well-formed books\<close>

definition slots_ok :: "nat \<Rightarrow> OrderBook \<Rightarrow> bool" where
  "slots_ok cap b \<longleftrightarrow> distinct (free_slots b) \<and> set (free_slots b) \<subseteq> {..<cap}
     \<and> (\<forall>a i. id_to_index b a = Some i \<longrightarrow> a \<noteq> 0 \<and> i < cap \<and> i \<notin> set (free_slots b)
           \<and> internal_order_id (request (ob_orders b i)) = a)
     \<and> ob_active_count b = card (dom (id_to_index b))
     \<and> ob_active_count b + length (free_slots b) = cap"

definition entry_security :: "OrderEntry \<Rightarrow> InternalSecurityId option" where
  "entry_security e = normalize_order_security_key (internal_security_id (request e))"

definition security_ok :: "OrderBook \<Rightarrow> bool" where
  "security_ok b \<longleftrightarrow>
     (\<forall>sec ids. security_orders b sec = Some ids \<longrightarrow> ids \<noteq> [] \<and> distinct ids)
     \<and> (\<forall>sec a. (\<exists>ids. security_orders b sec = Some ids \<and> a \<in> set ids)
          \<longleftrightarrow> (\<exists>e. find_order a b = Some e \<and> entry_security e = Some sec))"

definition broker_ok :: "OrderBook \<Rightarrow> bool" where
  "broker_ok b \<longleftrightarrow> (\<forall>bid a. broker_id_map b bid = Some a \<longrightarrow> bid \<noteq> 0
     \<and> (\<exists>e. find_order a b = Some e \<and> broker_order_id (request e) = bid))"

definition links_ok :: "OrderBook \<Rightarrow> bool" where
  "links_ok b \<longleftrightarrow> (\<forall>c p. child_to_parent b c = Some p \<longrightarrow> c \<in> set (get_children p b))
     \<and> managed_parent_ids b \<subseteq> dom (id_to_index b)
     \<and> split_parent_error_latched b \<subseteq> dom (id_to_index b)"

definition book_ok :: "nat \<Rightarrow> OrderBook \<Rightarrow> bool" where
  "book_ok cap b \<longleftrightarrow> slots_ok cap b \<and> security_ok b \<and> broker_ok b \<and> links_ok b"

lemmas book_ok_defs = book_ok_def slots_ok_def security_ok_def broker_ok_def links_ok_def

lemma book_ok_new: "book_ok cap (OrderBook_new cap)"
  by (auto simp: book_ok_defs OrderBook_new_def find_order_def)

lemma slots_ok_inj:
  "slots_ok cap b \<Longrightarrow> id_to_index b a = Some i \<Longrightarrow> id_to_index b a' = Some i \<Longrightarrow> a = a'"
  unfolding slots_ok_def by metis

lemma slots_ok_finite:
  assumes "slots_ok cap b"
  shows "finite (dom (id_to_index b))"
proof (rule finite_subset)
  show "dom (id_to_index b) \<subseteq> (\<lambda>i. internal_order_id (request (ob_orders b i))) ` {..<cap}"
    using assms by (force simp: slots_ok_def)
qed simp

lemma find_order_key:
  "content_change b b' \<Longrightarrow> map_option entry_key (find_order a b') = map_option entry_key (find_order a b)"
  by (auto simp: find_order_def content_change_sel option.map_comp comp_def)

lemma entry_key_eqD:
  assumes "entry_key e = entry_key e'"
  shows "internal_order_id (request e) = internal_order_id (request e')"
    "broker_order_id (request e) = broker_order_id (request e')"
    "entry_security e = entry_security e'" "shm_order_index e = shm_order_index e'"
  using assms by (auto simp: entry_key_def entry_security_def)

lemma find_order_content:
  assumes "content_change b b'"
  shows "(\<exists>e. find_order a b' = Some e \<and> entry_security e = s)
      \<longleftrightarrow> (\<exists>e. find_order a b = Some e \<and> entry_security e = s)"
    "(\<exists>e. find_order a b' = Some e \<and> broker_order_id (request e) = bid)
      \<longleftrightarrow> (\<exists>e. find_order a b = Some e \<and> broker_order_id (request e) = bid)"
proof -
  have k: "entry_key (ob_orders b' i) = entry_key (ob_orders b i)" for i
    using assms by (rule content_change_sel)
  note k' = entry_key_eqD [OF k]
  show "(\<exists>e. find_order a b' = Some e \<and> entry_security e = s)
      \<longleftrightarrow> (\<exists>e. find_order a b = Some e \<and> entry_security e = s)"
    "(\<exists>e. find_order a b' = Some e \<and> broker_order_id (request e) = bid)
      \<longleftrightarrow> (\<exists>e. find_order a b = Some e \<and> broker_order_id (request e) = bid)"
    using assms by (auto simp: find_order_def content_change_sel k')
qed

lemma book_ok_content [inv_intros]:
  assumes "content_change b b'" "book_ok cap b"
  shows "book_ok cap b'"
proof -
  have k: "internal_order_id (request (ob_orders b' i)) = internal_order_id (request (ob_orders b i))" for i
    using content_change_sel(11) [OF assms(1)] by (rule entry_key_eqD)
  have "slots_ok cap b'" "links_ok b'"
    using assms by (auto simp: book_ok_defs content_change_sel k get_children_def)
  moreover have "security_ok b'" "broker_ok b'"
    using assms find_order_content [OF assms(1)]
    by (simp_all add: book_ok_def security_ok_def broker_ok_def content_change_sel)
  ultimately show ?thesis by (simp add: book_ok_def)
qed

section \<open>Adding an order\<close>

text \<open>The book just after the indices were written, before the parent is refreshed.\<close>

definition insert_indices :: "nat \<Rightarrow> nat list \<Rightarrow> OrderEntry \<Rightarrow> OrderBook \<Rightarrow> OrderBook" where
  "insert_indices index free stored b =
     (let order_id = internal_order_id (request stored); bid = broker_order_id (request stored);
          parent_id = parent_order_id stored
      in b\<lparr>free_slots := free, ob_orders := (ob_orders b)(index := stored),
        id_to_index := (id_to_index b)(order_id \<mapsto> index),
        ob_next_order_id := max (ob_next_order_id b) (saturated_next_order_id order_id),
        broker_id_map := (if bid \<noteq> 0 then (broker_id_map b)(bid \<mapsto> order_id) else broker_id_map b),
        security_orders := (case entry_security stored of None \<Rightarrow> security_orders b
          | Some key \<Rightarrow> (security_orders b)(key := push_back order_id (security_orders b key))),
        parent_to_children := (if is_split_child stored \<and> parent_id \<noteq> 0
          then (parent_to_children b)(parent_id := push_back order_id (parent_to_children b parent_id))
          else parent_to_children b),
        child_to_parent := (if is_split_child stored \<and> parent_id \<noteq> 0
          then (child_to_parent b)(order_id \<mapsto> parent_id) else child_to_parent b)\<rparr>)"

lemma entry_security_empty:
  "entry_security e = (if internal_security_id (request e) \<noteq> []
     then normalize_order_security_key (internal_security_id (request e)) else None)"
  by (simp add: entry_security_def normalize_order_security_key_def)

lemma stored_entry_key [simp]: "entry_key (stored_entry now e) = entry_key e"
  by (simp add: stored_entry_def entry_key_def Let_def)

lemma stored_entry_sel [simp]:
  "internal_order_id (request (stored_entry now e)) = internal_order_id (request e)"
  "broker_order_id (request (stored_entry now e)) = broker_order_id (request e)"
  "internal_security_id (request (stored_entry now e)) = internal_security_id (request e)"
  "entry_security (stored_entry now e) = entry_security e"
  "parent_order_id (stored_entry now e) = parent_order_id e"
  "is_split_child (stored_entry now e) = is_split_child e"
  "shm_order_index (stored_entry now e) = shm_order_index e"
  using stored_entry_key [of now e] by (auto simp: entry_key_def entry_security_def)

lemma ensure_next_max:
  "ensure_next_order_id_at_least n b = b\<lparr>ob_next_order_id := max (ob_next_order_id b) n\<rparr>"
  by (auto simp: ensure_next_order_id_at_least_def max_def)

lemma add_order_eq:
  assumes "internal_order_id (request entry) \<noteq> 0"
    "id_to_index b (internal_order_id (request entry)) = None" "free_slots b = index # free"
  shows "add_order entry now b =
    (let b1 = insert_indices index free (stored_entry now entry) b;
         (b2, fx) = (if is_split_child entry \<and> parent_order_id entry \<noteq> 0
           then refresh_parent_of (internal_order_id (request entry)) b1 else (b1, []))
     in (True, b2\<lparr>ob_active_count := ob_active_count b2 + 1\<rparr>,
         fx @ [Notify (ob_orders b2 index) Added]))"
  using assms
  by (cases "broker_order_id (request entry) = 0"; cases "internal_security_id (request entry) = []";
      cases "normalize_order_security_key (internal_security_id (request entry))";
      cases "is_split_child entry"; cases "parent_order_id entry = 0")
    (simp_all add: add_order_def Let_def ensure_next_max insert_indices_def
        refresh_parent_of_def entry_security_empty is_managed_parent_def case_prod_beta)

lemma removeAll_Nil: "removeAll x xs = [] \<longleftrightarrow> set xs \<subseteq> {x}"
  by (induction xs) auto

definition remove_indices :: "InternalOrderId \<Rightarrow> nat \<Rightarrow> OrderBook \<Rightarrow> OrderBook" where
  "remove_indices order_id index b =
     (let e = ob_orders b index; bid = broker_order_id (request e)
      in b\<lparr>ob_orders := (ob_orders b)(index := OrderEntry_default),
        id_to_index := (id_to_index b)(order_id := None),
        broker_id_map := (if bid \<noteq> 0 \<and> broker_id_map b bid = Some order_id
          then (broker_id_map b)(bid := None) else broker_id_map b),
        security_orders := (case entry_security e of None \<Rightarrow> security_orders b
          | Some key \<Rightarrow> (case security_orders b key of None \<Rightarrow> security_orders b
             | Some ids \<Rightarrow> (security_orders b)(key :=
                 (if removeAll order_id ids = [] then None else Some (removeAll order_id ids))))),
        managed_parent_ids := managed_parent_ids b - {order_id},
        split_parent_error_latched := split_parent_error_latched b - {order_id},
        free_slots := index # free_slots b, ob_active_count := ob_active_count b - 1\<rparr>)"

lemma archive_order_eq:
  assumes "id_to_index b order_id = Some index"
  shows "archive_order order_id b
    = (True, remove_indices order_id index b, [Notify (ob_orders b index) Archived])"
proof -
  let ?e = "ob_orders b index" let ?sec = "internal_security_id (request ?e)"
  show ?thesis
    using assms
    by (cases "broker_order_id (request ?e) = 0";
        cases "broker_id_map b (broker_order_id (request ?e)) = Some order_id";
        cases "?sec = []"; cases "normalize_order_security_key ?sec";
        cases "security_orders b (the (normalize_order_security_key ?sec))")
      (simp_all add: archive_order_def Let_def remove_indices_def entry_security_empty)
qed

lemma insert_indices_sel:
  "free_slots (insert_indices index free stored b) = free"
  "ob_orders (insert_indices index free stored b) = (ob_orders b)(index := stored)"
  "id_to_index (insert_indices index free stored b)
     = (id_to_index b)(internal_order_id (request stored) \<mapsto> index)"
  "ob_active_count (insert_indices index free stored b) = ob_active_count b"
  "broker_id_map (insert_indices index free stored b)
     = (if broker_order_id (request stored) \<noteq> 0
        then (broker_id_map b)(broker_order_id (request stored) \<mapsto> internal_order_id (request stored))
        else broker_id_map b)"
  "managed_parent_ids (insert_indices index free stored b) = managed_parent_ids b"
  "split_parent_error_latched (insert_indices index free stored b) = split_parent_error_latched b"
  "child_to_parent (insert_indices index free stored b)
     = (if is_split_child stored \<and> parent_order_id stored \<noteq> 0
        then (child_to_parent b)(internal_order_id (request stored) \<mapsto> parent_order_id stored)
        else child_to_parent b)"
  "parent_to_children (insert_indices index free stored b)
     = (if is_split_child stored \<and> parent_order_id stored \<noteq> 0
        then (parent_to_children b)(parent_order_id stored :=
          push_back (internal_order_id (request stored)) (parent_to_children b (parent_order_id stored)))
        else parent_to_children b)"
  "ob_next_order_id (insert_indices index free stored b)
     = max (ob_next_order_id b) (saturated_next_order_id (internal_order_id (request stored)))"
  by (simp_all add: insert_indices_def Let_def)

lemma find_insert_indices:
  "find_order a (insert_indices index free stored b) =
    (if a = internal_order_id (request stored) then Some stored
     else map_option (\<lambda>i. if i = index then stored else ob_orders b i) (id_to_index b a))"
  by (cases "id_to_index b a") (auto simp: find_order_def insert_indices_sel)

lemma insert_find_other:
  assumes "slots_ok cap b" "free_slots b = index # free" "a \<noteq> internal_order_id (request stored)"
  shows "find_order a (insert_indices index free stored b) = find_order a b"
proof (cases "id_to_index b a")
  case (Some i)
  then have "i \<noteq> index" using assms(1,2) by (auto simp: slots_ok_def)
  with Some assms(3) show ?thesis by (simp add: find_insert_indices find_order_def [of a b])
qed (use assms in \<open>simp add: find_insert_indices find_order_def [of a b]\<close>)

lemma push_back_members:
  "push_back x xs = Some ys \<longleftrightarrow> ys = (case xs of None \<Rightarrow> [] | Some xs \<Rightarrow> xs) @ [x]"
  by (auto simp: push_back_def)

lemma book_ok_insert:
  assumes ok: "book_ok cap b" and f: "free_slots b = index # free"
    and id: "internal_order_id (request stored) \<noteq> 0" "id_to_index b (internal_order_id (request stored)) = None"
  defines "b' \<equiv> (insert_indices index free stored b)\<lparr>ob_active_count := ob_active_count b + 1\<rparr>"
  shows "book_ok cap b'"
proof -
  let ?id = "internal_order_id (request stored)"
  have s: "slots_ok cap b" using ok by (simp add: book_ok_def)
  have sel: "free_slots b' = free" "ob_orders b' = (ob_orders b)(index := stored)"
    "id_to_index b' = (id_to_index b)(?id \<mapsto> index)" "ob_active_count b' = ob_active_count b + 1"
    by (simp_all add: b'_def insert_indices_def Let_def)
  have find: "find_order a b' = (if a = ?id then Some stored else find_order a b)" for a
    using insert_find_other [OF s f] by (simp add: b'_def find_order_def insert_indices_def Let_def)
  have none: "find_order ?id b = None" using id by (simp add: find_order_def)
  have "card (dom ((id_to_index b)(?id \<mapsto> index))) = Suc (card (dom (id_to_index b)))"
    using slots_ok_finite [OF s] id by (simp add: domIff)
  then have "slots_ok cap b'"
    unfolding slots_ok_def sel using s f id by (auto simp: slots_ok_def)
  moreover have "broker_ok b'"
  proof -
    have "bid \<noteq> 0 \<and> (\<exists>e. find_order a b' = Some e \<and> broker_order_id (request e) = bid)"
      if "broker_id_map b' bid = Some a" for bid a
    proof -
      note m = that
      show ?thesis
      proof (cases "broker_order_id (request stored) \<noteq> 0 \<and> bid = broker_order_id (request stored)")
        case True
        with m have "a = ?id" by (simp add: b'_def insert_indices_sel)
        with True show ?thesis by (simp add: find)
      next
        case False
        with m have "broker_id_map b bid = Some a" by (auto simp: b'_def insert_indices_sel split: if_splits)
        with ok have "bid \<noteq> 0 \<and> (\<exists>e. find_order a b = Some e \<and> broker_order_id (request e) = bid)"
          by (simp add: book_ok_def broker_ok_def)
        with none show ?thesis by (auto simp: find)
      qed
    qed
    then show ?thesis by (simp add: broker_ok_def)
  qed
  moreover have "links_ok b'"
    using ok by (auto simp: b'_def book_ok_def links_ok_def get_children_def insert_indices_def
        Let_def push_back_def split: option.splits)
  moreover have "security_ok b'"
  proof -
    have so: "security_orders b' = (case entry_security stored of None \<Rightarrow> security_orders b
          | Some key \<Rightarrow> (security_orders b)(key := push_back ?id (security_orders b key)))"
      by (simp add: b'_def insert_indices_def Let_def)
    have b1: "\<And>sec ids. security_orders b sec = Some ids \<Longrightarrow> ids \<noteq> [] \<and> distinct ids"
      and b2: "\<And>sec a. (\<exists>ids. security_orders b sec = Some ids \<and> a \<in> set ids)
          \<longleftrightarrow> (\<exists>e. find_order a b = Some e \<and> entry_security e = Some sec)"
      using ok by (auto simp: book_ok_def security_ok_def)
    have notin: "security_orders b sec = Some ids \<Longrightarrow> ?id \<notin> set ids" for sec ids
      using b2 [of sec ?id] none by auto
    show ?thesis
    proof (cases "entry_security stored")
      case None
      then show ?thesis using b1 b2 none by (auto simp: security_ok_def so find)
    next
      case (Some key)
      have "(\<exists>ids. security_orders b' sec = Some ids \<and> a \<in> set ids)
          \<longleftrightarrow> (\<exists>e. find_order a b' = Some e \<and> entry_security e = Some sec)" for sec a
        using b2 [of sec a] none Some
        by (auto simp: so find push_back_def split: option.splits if_splits)
      moreover have "security_orders b' sec = Some ids \<Longrightarrow> ids \<noteq> [] \<and> distinct ids" for sec ids
        using b1 [of sec] notin [of sec] Some
        by (auto simp: so push_back_def split: option.splits if_splits)
      ultimately show ?thesis by (auto simp: security_ok_def)
    qed
  qed
  ultimately show ?thesis by (simp add: book_ok_def)
qed

lemma content_change_count:
  "content_change b b' \<Longrightarrow> content_change (b\<lparr>ob_active_count := n\<rparr>) (b'\<lparr>ob_active_count := n\<rparr>)"
  by (cases b; cases b') (auto simp: content_change_def)

lemma book_ok_remove:
  assumes ok: "book_ok cap b" and i: "id_to_index b order_id = Some index"
  shows "book_ok cap (remove_indices order_id index b)"
proof -
  let ?b' = "remove_indices order_id index b"
  have s: "slots_ok cap b" using ok by (simp add: book_ok_def)
  have other: "id_to_index b a = Some j \<Longrightarrow> a \<noteq> order_id \<Longrightarrow> j \<noteq> index" for a j
    using slots_ok_inj [OF s i] by blast
  have find: "find_order a ?b' = (if a = order_id then None else find_order a b)" for a
    using other by (cases "id_to_index b a") (auto simp: find_order_def remove_indices_def Let_def)
  have fo: "find_order order_id b = Some (ob_orders b index)" using i by (simp add: find_order_def)
  have oid: "internal_order_id (request (ob_orders b index)) = order_id" using s i by (auto simp: slots_ok_def)
  have "card (dom (id_to_index b)) = Suc (card (dom ((id_to_index b)(order_id := None))))"
    using card.remove [OF slots_ok_finite [OF s], of order_id] i by (simp add: domI)
  then have "slots_ok cap ?b'"
    using s i other by (auto simp: slots_ok_def remove_indices_def Let_def split: if_splits)
  moreover have "broker_ok ?b'"
  proof -
    have m: "broker_id_map ?b' = (if broker_order_id (request (ob_orders b index)) \<noteq> 0
          \<and> broker_id_map b (broker_order_id (request (ob_orders b index))) = Some order_id
        then (broker_id_map b)(broker_order_id (request (ob_orders b index)) := None) else broker_id_map b)"
      by (simp add: remove_indices_def Let_def)
    have "bid \<noteq> 0 \<and> (\<exists>e. find_order a ?b' = Some e \<and> broker_order_id (request e) = bid)"
      if "broker_id_map ?b' bid = Some a" for bid a
    proof -
      have o: "broker_id_map b bid = Some a" using that by (auto simp: m split: if_splits)
      then have e: "bid \<noteq> 0" "\<exists>e. find_order a b = Some e \<and> broker_order_id (request e) = bid"
        using ok by (auto simp: book_ok_def broker_ok_def)
      moreover have "a \<noteq> order_id"
      proof
        assume "a = order_id"
        with e fo have "broker_order_id (request (ob_orders b index)) = bid" by simp
        with o \<open>a = order_id\<close> e(1) that show False by (simp add: m)
      qed
      ultimately show ?thesis by (simp add: find)
    qed
    then show ?thesis by (simp add: broker_ok_def)
  qed
  moreover have "links_ok ?b'"
    using ok by (auto simp: book_ok_def links_ok_def get_children_def remove_indices_def Let_def)
  moreover have "security_ok ?b'"
  proof -
    let ?key = "entry_security (ob_orders b index)"
    have b1: "\<And>sec ids. security_orders b sec = Some ids \<Longrightarrow> ids \<noteq> [] \<and> distinct ids"
      and b2: "\<And>sec a. (\<exists>ids. security_orders b sec = Some ids \<and> a \<in> set ids)
          \<longleftrightarrow> (\<exists>e. find_order a b = Some e \<and> entry_security e = Some sec)"
      using ok by (auto simp: book_ok_def security_ok_def)
    have so: "security_orders ?b' sec = (case security_orders b sec of None \<Rightarrow> None
        | Some ids \<Rightarrow> if removeAll order_id ids = [] then None else Some (removeAll order_id ids))" for sec
    proof (cases "?key = Some sec")
      case True
      then show ?thesis by (auto simp: remove_indices_def Let_def split: option.splits)
    next
      case False
      then have "security_orders b sec = Some ids \<Longrightarrow> order_id \<notin> set ids" for ids
        using b2 [of sec order_id] fo by auto
      moreover have "security_orders ?b' sec = security_orders b sec"
        using False by (auto simp: remove_indices_def Let_def split: option.splits)
      ultimately show ?thesis using b1 [of sec] by (auto split: option.splits)
    qed
    have "(\<exists>ids. security_orders ?b' sec = Some ids \<and> a \<in> set ids)
        \<longleftrightarrow> (\<exists>e. find_order a ?b' = Some e \<and> entry_security e = Some sec)" for sec a
    proof -
      have "(\<exists>ids. security_orders ?b' sec = Some ids \<and> a \<in> set ids)
        \<longleftrightarrow> a \<noteq> order_id \<and> (\<exists>ids. security_orders b sec = Some ids \<and> a \<in> set ids)"
        by (cases "security_orders b sec") (auto simp: so removeAll_Nil)
      then show ?thesis using b2 [of sec a] by (simp add: find)
    qed
    moreover have "security_orders ?b' sec = Some ids \<Longrightarrow> ids \<noteq> [] \<and> distinct ids" for sec ids
      using b1 [of sec] by (auto simp: so distinct_removeAll split: option.splits if_splits)
    ultimately show ?thesis by (auto simp: security_ok_def)
  qed
  ultimately show ?thesis by (simp add: book_ok_def)
qed

section \<open>Every operation keeps the book well-formed\<close>

datatype book_op =
    AddOrder OrderEntry
  | UpdateState InternalOrderId OrderState
  | UpdateTrade InternalOrderId Volume DPrice DValue DValue
  | MarkManagedParent InternalOrderId
  | SyncManagedParentView InternalOrderId ManagedParentView OrderState
  | ArchiveOrder InternalOrderId

fun apply_book_op :: "book_op \<Rightarrow> TimestampNs \<Rightarrow> OrderBook \<Rightarrow> bool book_result" where
  "apply_book_op (AddOrder entry) now b = add_order entry now b"
| "apply_book_op (UpdateState i st) now b = update_state i st now b"
| "apply_book_op (UpdateTrade i vol px val fee) now b = update_trade i vol px val fee now b"
| "apply_book_op (MarkManagedParent i) now b = mark_managed_parent i b"
| "apply_book_op (SyncManagedParentView i view st) now b = sync_managed_parent_view i view st now b"
| "apply_book_op (ArchiveOrder i) now b = archive_order i b"

definition book_step :: "TimestampNs \<times> book_op \<Rightarrow> OrderBook \<Rightarrow> bool \<times> OrderBook" where
  "book_step o' b = (let (r, b', fx) = apply_book_op (snd o') (fst o') b in (r, b'))"

definition run_book :: "(TimestampNs \<times> book_op) list \<Rightarrow> OrderBook \<Rightarrow> OrderBook" where
  "run_book ops b = fold (\<lambda>o' b. snd (book_step o' b)) ops b"

lemma add_order_cases:
  assumes "add_order entry now b = (r, b', fx)"
  obtains (refused) "\<not> r" "b' = b"
      "internal_order_id (request entry) = 0 \<or> id_to_index b (internal_order_id (request entry)) \<noteq> None
        \<or> free_slots b = []"
  | (accepted) index free b2 where "r" "internal_order_id (request entry) \<noteq> 0"
      "id_to_index b (internal_order_id (request entry)) = None" "free_slots b = index # free"
      "content_change (insert_indices index free (stored_entry now entry) b) b2"
      "b' = b2\<lparr>ob_active_count := ob_active_count b2 + 1\<rparr>"
proof -
  let ?id = "internal_order_id (request entry)"
  consider "?id = 0" | "?id \<noteq> 0" "id_to_index b ?id \<noteq> None"
    | "?id \<noteq> 0" "id_to_index b ?id = None" "free_slots b = []"
    | index free where "?id \<noteq> 0" "id_to_index b ?id = None" "free_slots b = index # free"
    by (cases "free_slots b") auto
  then show thesis
  proof cases
    case (4 index free)
    let ?b1 = "insert_indices index free (stored_entry now entry) b"
    define p where "p = (if is_split_child entry \<and> parent_order_id entry \<noteq> 0
       then refresh_parent_of ?id ?b1 else (?b1, []))"
    have c: "content_change ?b1 (fst p)" by (simp add: p_def refresh_parent_of_content)
    have "r" "b' = (fst p)\<lparr>ob_active_count := ob_active_count (fst p) + 1\<rparr>"
      using assms add_order_eq [OF 4, of now, unfolded Let_def case_prod_beta, folded p_def] by auto
    then show thesis by (rule accepted [OF _ 4 c])
  qed (use assms in \<open>auto simp: add_order_def intro: refused\<close>)
qed

lemma book_ok_add:
  assumes "book_ok cap b" "add_order entry now b = (r, b', fx)"
  shows "book_ok cap b'"
  using assms(2)
proof (cases rule: add_order_cases)
  case (accepted index free b2)
  let ?b1 = "insert_indices index free (stored_entry now entry) b"
  have "book_ok cap (?b1\<lparr>ob_active_count := ob_active_count b + 1\<rparr>)"
    by (rule book_ok_insert) (use assms(1) accepted in simp_all)
  moreover have "content_change (?b1\<lparr>ob_active_count := ob_active_count b + 1\<rparr>)
      (b2\<lparr>ob_active_count := ob_active_count b + 1\<rparr>)"
    using accepted(5) by (rule content_change_count)
  moreover have "ob_active_count b2 = ob_active_count b"
    using content_change_sel(9) [OF accepted(5)] by (simp add: insert_indices_sel)
  ultimately show ?thesis using book_ok_content by (simp add: accepted(6))
qed (use assms in simp)

text \<open>What a trade does to a request, field by field.\<close>

lemma trade_request_eq:
  "trade_request vol px val fee r =
    (let vt = saturating_add (volume_traded r) vol;
         vt = (if volume_entrust r > 0 \<and> vt > volume_entrust r then volume_entrust r else vt);
         vr = (if vol \<ge> volume_remain r then 0 else volume_remain r - vol);
         dv = saturating_add (dvalue_traded r) val
     in r\<lparr>volume_traded := vt, volume_remain := vr, dvalue_traded := dv,
          dfee_executed := saturating_add (dfee_executed r) fee,
          dprice_traded := (if vt > 0 then if dv > 0 then dv div vt else px else dprice_traded r),
          order_state := (if vr = 0 \<and> \<not> is_terminal_state (order_state r)
                          then OrderState.Finished else order_state r)\<rparr>)"
proof -
  have u: "(if c then q\<lparr>volume_traded := x\<rparr> else q) = q\<lparr>volume_traded := if c then x else volume_traded q\<rparr>"
    "(if c then q\<lparr>volume_remain := x\<rparr> else q\<lparr>volume_remain := y\<rparr>) = q\<lparr>volume_remain := if c then x else y\<rparr>"
    "(if c then if d then q\<lparr>dprice_traded := x\<rparr> else q\<lparr>dprice_traded := y\<rparr> else q)
      = q\<lparr>dprice_traded := if c then if d then x else y else dprice_traded q\<rparr>"
    "(if c then if d then q\<lparr>order_state := st\<rparr> else q else q)
      = q\<lparr>order_state := if c \<and> d then st else order_state q\<rparr>"
    for c d x y st and q :: OrderRequest by simp_all
  show ?thesis unfolding trade_request_def Let_def u by simp
qed

lemma trade_request_key [simp]:
  "internal_order_id (trade_request vol px val fee r) = internal_order_id r"
  "broker_order_id (trade_request vol px val fee r) = broker_order_id r"
  "internal_security_id (trade_request vol px val fee r) = internal_security_id r"
  "order_type (trade_request vol px val fee r) = order_type r"
  "volume_entrust (trade_request vol px val fee r) = volume_entrust r"
  by (simp_all add: trade_request_eq Let_def)

lemma update_request_key:
  "entry_key (e\<lparr>request := (request e)\<lparr>order_state := st\<rparr>, last_update_ns := now\<rparr>) = entry_key e"
  "entry_key (e\<lparr>request := trade_request vol px val fee (request e), last_update_ns := now\<rparr>) = entry_key e"
  "entry_key (e\<lparr>request := apply_view view st (request e), last_update_ns := now\<rparr>) = entry_key e"
  by (simp_all add: entry_key_def apply_view_def)

lemma book_ok_latch:
  "book_ok cap b \<Longrightarrow> id_to_index b a \<noteq> None \<Longrightarrow>
   book_ok cap (b\<lparr>split_parent_error_latched := insert a (split_parent_error_latched b)\<rparr>)"
  "book_ok cap b \<Longrightarrow> id_to_index b a \<noteq> None \<Longrightarrow>
   book_ok cap (b\<lparr>managed_parent_ids := insert a (managed_parent_ids b)\<rparr>)"
  unfolding book_ok_def slots_ok_def security_ok_def broker_ok_def links_ok_def get_children_def
    find_order_def
  by (simp_all add: domIff)

lemma modify_order_sel:
  "id_to_index (modify_order a f b) = id_to_index b"
  "parent_to_children (modify_order a f b) = parent_to_children b"
  "child_to_parent (modify_order a f b) = child_to_parent b"
  "managed_parent_ids (modify_order a f b) = managed_parent_ids b"
  "split_parent_error_latched (modify_order a f b) = split_parent_error_latched b"
  by (auto simp: modify_order_def split: option.splits)

lemma book_ok_update_state:
  assumes "book_ok cap b"
  shows "book_ok cap (fst (snd (update_state a st now b)))"
proof (cases "id_to_index b a")
  case (Some index)
  let ?f = "\<lambda>e. e\<lparr>request := (request e)\<lparr>order_state := st\<rparr>, last_update_ns := now\<rparr>"
  have "book_ok cap (modify_order a ?f b)"
    using assms by (intro book_ok_content [OF modify_order_content]) (simp_all add: update_request_key)
  then show ?thesis
    using Some book_ok_latch(1) [of cap "modify_order a ?f b" a]
    by (auto simp: update_state_def Let_def case_prod_beta modify_order_sel
        intro: book_ok_content [OF refresh_parent_of_content])
qed (use assms in \<open>simp add: update_state_def\<close>)

lemma book_ok_update_trade:
  assumes "book_ok cap b"
  shows "book_ok cap (fst (snd (update_trade a vol px val fee now b)))"
proof (cases "id_to_index b a")
  case (Some index)
  let ?f = "\<lambda>e. e\<lparr>request := trade_request vol px val fee (request e), last_update_ns := now\<rparr>"
  have "book_ok cap (modify_order a ?f b)"
    using assms by (intro book_ok_content [OF modify_order_content]) (simp_all add: update_request_key)
  then show ?thesis
    using Some by (auto simp: update_trade_def Let_def case_prod_beta
        intro: book_ok_content [OF refresh_parent_of_content])
qed (use assms in \<open>simp add: update_trade_def\<close>)

lemma book_ok_sync:
  assumes "book_ok cap b"
  shows "book_ok cap (fst (snd (sync_managed_parent_view a view st now b)))"
proof (cases "find_order a b")
  case (Some e)
  then have i: "id_to_index b a \<noteq> None" by (auto simp: find_order_def)
  let ?b = "b\<lparr>managed_parent_ids := insert a (managed_parent_ids b)\<rparr>"
  have ok: "book_ok cap ?b" using assms i by (rule book_ok_latch)
  have f: "find_order a ?b = Some e" using Some by (simp add: find_order_def)
  have "content_change ?b (modify_order a (\<lambda>_. e\<lparr>request := apply_view view st (request e), last_update_ns := now\<rparr>) ?b)"
    by (rule modify_order_content) (use f in \<open>simp add: update_request_key\<close>)
  with ok have "book_ok cap (modify_order a (\<lambda>_. e\<lparr>request := apply_view view st (request e), last_update_ns := now\<rparr>) ?b)"
    by (rule book_ok_content [rotated])
  with ok Some show ?thesis by (simp add: sync_managed_parent_view_def Let_def)
qed (use assms in \<open>simp add: sync_managed_parent_view_def\<close>)

lemma book_ok_step: "book_ok cap b \<Longrightarrow> book_ok cap (snd (book_step (now, op) b))"
proof (cases op)
  case (AddOrder entry)
  then show "book_ok cap b \<Longrightarrow> ?thesis"
    using book_ok_add by (cases "add_order entry now b") (auto simp: book_step_def)
next
  case (MarkManagedParent a)
  assume "book_ok cap b"
  with MarkManagedParent book_ok_latch(2) [of cap b a] show ?thesis
    by (auto simp: book_step_def mark_managed_parent_def find_order_def split: option.splits)
next
  case (ArchiveOrder a)
  assume "book_ok cap b"
  with ArchiveOrder show ?thesis
    by (cases "id_to_index b a") (auto simp: book_step_def archive_order_eq book_ok_remove,
      simp add: archive_order_def)
qed (auto simp: book_step_def case_prod_beta Let_def
      intro: book_ok_update_state book_ok_update_trade book_ok_sync)

text \<open>
  C7: the order book stays consistent.  Starting from the constructor, after any sequence of
  operations whatever their arguments: each live id has a slot of its own, below the capacity
  and not free, whose entry carries that id; free slots are distinct and, with the active
  count, make up the capacity; the security index lists exactly the live orders of each
  canonical security, each once; the broker index points to live orders with that broker id;
  and managed or latched ids are live.
\<close>

theorem order_book_invariant: "book_ok cap (run_book ops (OrderBook_new cap))"
proof -
  have "book_ok cap b \<Longrightarrow> book_ok cap (run_book ops b)" for b
    by (induction ops arbitrary: b) (auto simp: run_book_def book_ok_step)
  then show ?thesis using book_ok_new .
qed

section \<open>The book as a bounded registry of ids\<close>

text \<open>
  What the router and the event loop rely on: each operation adds, removes or ignores ids,
  an add succeeds exactly for a valid id that is not live while there is room, a removal
  exactly for a live id.
\<close>

locale bounded_registry =
  fixes step :: "'op \<Rightarrow> 's \<Rightarrow> bool \<times> 's"
    and adds :: "'op \<Rightarrow> 'k option" and removes :: "'op \<Rightarrow> 'k option"
    and live :: "'s \<Rightarrow> 'k set" and valid :: "'k \<Rightarrow> bool" and ok :: "'s \<Rightarrow> bool" and bound :: nat
  assumes step_ok: "ok s \<Longrightarrow> ok (snd (step op s))"
    and live_finite: "ok s \<Longrightarrow> finite (live s)"
    and live_bound: "ok s \<Longrightarrow> card (live s) \<le> bound"
    and add_accepts: "ok s \<Longrightarrow> adds op = Some k \<Longrightarrow>
      fst (step op s) \<longleftrightarrow> valid k \<and> k \<notin> live s \<and> card (live s) < bound"
    and add_live: "ok s \<Longrightarrow> adds op = Some k \<Longrightarrow>
      live (snd (step op s)) = (if fst (step op s) then insert k (live s) else live s)"
    and remove_accepts: "ok s \<Longrightarrow> adds op = None \<Longrightarrow> removes op = Some k \<Longrightarrow>
      fst (step op s) \<longleftrightarrow> k \<in> live s"
    and remove_live: "ok s \<Longrightarrow> adds op = None \<Longrightarrow> removes op = Some k \<Longrightarrow>
      live (snd (step op s)) = live s - {k}"
    and other_live: "ok s \<Longrightarrow> adds op = None \<Longrightarrow> removes op = None \<Longrightarrow>
      live (snd (step op s)) = live s"
begin

definition run_ops :: "'op list \<Rightarrow> 's \<Rightarrow> 's" where
  "run_ops ops s = fold (\<lambda>op s. snd (step op s)) ops s"

lemma run_ok: "ok s \<Longrightarrow> ok (run_ops ops s)"
  by (induction ops arbitrary: s) (auto simp: run_ops_def step_ok)

lemma live_step: "ok s \<Longrightarrow> k \<in> live s \<Longrightarrow> adds op \<noteq> None \<or> removes op \<noteq> Some k \<Longrightarrow>
  k \<in> live (snd (step op s))"
  by (cases "adds op"; cases "removes op") (auto simp: add_live remove_live other_live)

lemma stays_live:
  "ok s \<Longrightarrow> k \<in> live s \<Longrightarrow> (\<forall>op\<in>set ops. adds op \<noteq> None \<or> removes op \<noteq> Some k) \<Longrightarrow>
   k \<in> live (run_ops ops s)"
  by (induction ops arbitrary: s) (auto simp: run_ops_def step_ok live_step)

lemma no_second_add:
  assumes "ok s" "adds op1 = Some k" "fst (step op1 s)" "adds op2 = Some k"
    "\<forall>op\<in>set ops. adds op \<noteq> None \<or> removes op \<noteq> Some k"
  shows "\<not> fst (step op2 (run_ops ops (snd (step op1 s))))"
proof -
  have "k \<in> live (run_ops ops (snd (step op1 s)))"
    using assms by (intro stays_live) (auto simp: step_ok add_live)
  with assms(1,4) show ?thesis by (simp add: add_accepts run_ok step_ok)
qed

lemma add_after_remove:
  assumes "ok s" "adds op1 = None" "removes op1 = Some k" "fst (step op1 s)" "valid k" "adds op2 = Some k"
  shows "fst (step op2 (snd (step op1 s)))"
proof -
  have k: "k \<in> live s" using assms remove_accepts by blast
  have "card (live s - {k}) < card (live s)" by (rule card_Diff1_less) (use live_finite [OF assms(1)] k in auto)
  with live_bound [OF assms(1)] have "card (live s - {k}) < bound" by linarith
  with assms show ?thesis by (simp add: add_accepts step_ok remove_live)
qed

end

fun op_adds :: "TimestampNs \<times> book_op \<Rightarrow> InternalOrderId option" where
  "op_adds (now, AddOrder entry) = Some (internal_order_id (request entry))"
| "op_adds _ = None"

fun op_removes :: "TimestampNs \<times> book_op \<Rightarrow> InternalOrderId option" where
  "op_removes (now, ArchiveOrder a) = Some a"
| "op_removes _ = None"

lemma live_content: "content_change b b' \<Longrightarrow> dom (id_to_index b') = dom (id_to_index b)"
  by (simp add: content_change_sel)

lemma book_room:
  "book_ok cap b \<Longrightarrow> free_slots b = [] \<longleftrightarrow> \<not> card (get_active_order_ids b) < cap"
  by (auto simp: book_ok_def slots_ok_def get_active_order_ids_def)

lemma add_order_live:
  assumes "book_ok cap b" "add_order entry now b = (r, b', fx)"
  shows "r \<longleftrightarrow> internal_order_id (request entry) \<noteq> 0
      \<and> internal_order_id (request entry) \<notin> get_active_order_ids b \<and> card (get_active_order_ids b) < cap"
    "get_active_order_ids b' = (if r then insert (internal_order_id (request entry)) (get_active_order_ids b)
       else get_active_order_ids b)"
  using assms(2) book_room [OF assms(1)]
  by (cases rule: add_order_cases;
      auto simp: get_active_order_ids_def content_change_sel insert_indices_sel domIff)+

lemma other_op_live:
  assumes "op_adds (now, op) = None" "op_removes (now, op) = None"
  shows "get_active_order_ids (snd (book_step (now, op) b)) = get_active_order_ids b"
  using assms
proof (cases op)
  case (UpdateState a st)
  then show ?thesis
    by (cases "id_to_index b a")
      (simp_all add: book_step_def update_state_def get_active_order_ids_def Let_def case_prod_beta
        content_change_sel [OF refresh_parent_of_content] modify_order_sel)
next
  case (UpdateTrade a vol px val fee)
  then show ?thesis
    by (cases "id_to_index b a")
      (simp_all add: book_step_def update_trade_def get_active_order_ids_def Let_def case_prod_beta
        content_change_sel [OF refresh_parent_of_content] modify_order_sel)
qed (auto simp: book_step_def mark_managed_parent_def sync_managed_parent_view_def
      get_active_order_ids_def modify_order_sel Let_def split: option.splits if_splits)

interpretation book: bounded_registry book_step op_adds op_removes get_active_order_ids
  "\<lambda>k. k \<noteq> 0" "book_ok cap" cap for cap
proof
  fix s :: OrderBook and op :: "TimestampNs \<times> book_op" and k
  assume ok: "book_ok cap s"
  obtain now o' where op: "op = (now, o')" by (cases op)
  show "book_ok cap (snd (book_step op s))" using ok by (simp add: op book_ok_step)
  show "finite (get_active_order_ids s)" "card (get_active_order_ids s) \<le> cap"
    using ok slots_ok_finite [of cap s]
    by (auto simp: book_ok_def slots_ok_def get_active_order_ids_def)
  {
    assume "op_adds op = Some k"
    then obtain entry where e: "o' = AddOrder entry" "k = internal_order_id (request entry)"
      by (cases o') (auto simp: op)
    obtain r b' fx where a: "add_order entry now s = (r, b', fx)" by (cases "add_order entry now s")
    show "fst (book_step op s) = (k \<noteq> 0 \<and> k \<notin> get_active_order_ids s \<and> card (get_active_order_ids s) < cap)"
      using add_order_live(1) [OF ok a] by (simp add: op e book_step_def a)
    show "get_active_order_ids (snd (book_step op s)) =
        (if fst (book_step op s) then insert k (get_active_order_ids s) else get_active_order_ids s)"
      using add_order_live(2) [OF ok a] by (simp add: op e book_step_def a)
  }
  {
    assume "op_removes op = Some k"
    then have e: "o' = ArchiveOrder k" by (cases o') (auto simp: op)
    have "fst (book_step op s) = (k \<in> get_active_order_ids s)
      \<and> get_active_order_ids (snd (book_step op s)) = get_active_order_ids s - {k}"
    proof (cases "id_to_index s k")
      case None
      then have "k \<notin> get_active_order_ids s" by (simp add: get_active_order_ids_def domIff)
      moreover have "book_step op s = (False, s)" using None by (simp add: op e book_step_def archive_order_def)
      ultimately show ?thesis by simp
    next
      case (Some i)
      then have "book_step op s = (True, remove_indices k i s)" by (simp add: op e book_step_def archive_order_eq)
      with Some show ?thesis by (auto simp: get_active_order_ids_def remove_indices_def Let_def)
    qed
    then show "fst (book_step op s) = (k \<in> get_active_order_ids s)"
      "get_active_order_ids (snd (book_step op s)) = get_active_order_ids s - {k}" by simp_all
  }
  assume "op_adds op = None" "op_removes op = None"
  then show "get_active_order_ids (snd (book_step op s)) = get_active_order_ids s"
    using other_op_live by (simp add: op)
qed

text \<open>
  An order id is in the book at most once.  Once an order was accepted, every further
  order with its id is refused until the id is archived, whatever happens in between; and
  after an archive the id is accepted again.
\<close>

theorem order_id_unique_until_archived:
  assumes "b = run_book pre (OrderBook_new cap)"
    and "add_order entry now b = (True, b1, fx)"
    and "\<forall>o'\<in>set ops. snd o' \<noteq> ArchiveOrder (internal_order_id (request entry))"
    and "internal_order_id (request entry2) = internal_order_id (request entry)"
  shows "fst (add_order entry2 now2 (run_book ops b1)) = False
    \<and> (\<forall>b2 fx2. archive_order (internal_order_id (request entry)) (run_book ops b1) = (True, b2, fx2)
        \<longrightarrow> fst (add_order entry2 now2 b2))"
proof -
  let ?id = "internal_order_id (request entry)"
  have ok: "book_ok cap b" unfolding assms(1)
    by (induction pre rule: rev_induct) (auto simp: run_book_def book_ok_new book_ok_step)
  have r: "run_book = book.run_ops" by (intro ext) (simp add: run_book_def book.run_ops_def)
  have s1: "book_step (now, AddOrder entry) b = (True, b1)" using assms(2) by (simp add: book_step_def)
  have ops: "\<forall>op\<in>set ops. op_adds op \<noteq> None \<or> op_removes op \<noteq> Some ?id"
    using assms(3) by (auto elim!: op_removes.elims)
  have "\<not> fst (book_step (now2, AddOrder entry2) (run_book ops b1))"
    using book.no_second_add [OF ok, of "(now, AddOrder entry)" ?id "(now2, AddOrder entry2)" ops] s1 ops assms(4)
    by (simp add: r)
  moreover have "fst (book_step (now2, AddOrder entry2) b2)"
    if a: "archive_order ?id (run_book ops b1) = (True, b2, fx2)" for b2 fx2
  proof -
    have ok1: "book_ok cap (run_book ops b1)" using book.run_ok [OF book.step_ok [OF ok, of "(now, AddOrder entry)"]] s1 by (simp add: r)
    have "?id \<noteq> 0" using book.add_accepts [OF ok, of "(now, AddOrder entry)" ?id] s1 by simp
    with book.add_after_remove [OF ok1, of "(now, ArchiveOrder ?id)" ?id "(now2, AddOrder entry2)"] a assms(4)
    show ?thesis by (simp add: book_step_def)
  qed
  ultimately show ?thesis by (auto simp: book_step_def split: prod.splits)
qed

definition order_example :: "InternalOrderId \<Rightarrow> Volume \<Rightarrow> OrderEntry" where
  "order_example i vol = OrderEntry_default\<lparr>request := OrderRequest_default\<lparr>internal_order_id := i,
     order_type := New, volume_entrust := vol, internal_security_id := ''SZ.000001''\<rparr>\<rparr>"

lemma order_id_unique_until_archived_witness:
  "\<not> fst (add_order (order_example 7 10) 9 (run_book [(6, UpdateState 7 TraderSubmitted)]
      (fst (snd (add_order (order_example 7 100) 5 (OrderBook_new 2))))))"
proof -
  let ?e = "order_example 7 100"
  have a: "fst (add_order ?e 5 (OrderBook_new 2))" by code_simp
  have e: "add_order ?e 5 (OrderBook_new 2)
      = (True, fst (snd (add_order ?e 5 (OrderBook_new 2))), snd (snd (add_order ?e 5 (OrderBook_new 2))))"
    using a by (simp add: prod_eq_iff)
  have r: "OrderBook_new 2 = run_book [] (OrderBook_new 2)" by (simp add: run_book_def)
  have "internal_order_id (request (order_example 7 10)) = internal_order_id (request ?e)"
    by (simp add: order_example_def)
  from order_id_unique_until_archived [OF r e _ this, of "[(6, UpdateState 7 TraderSubmitted)]" 9]
  show ?thesis by simp
qed

end
