(* ===== verification/Order_Book_Facts.thy ===== *)
theory Order_Book_Facts
  imports Order_Book
begin

text \<open>
  What the operations of the order book do to the orders: the aggregation of a split parent,
  the effect of trade reports, the mirror of a managed parent, the order-id generator, and two
  places where the book falls short of its intent.
\<close>

section \<open>The aggregation of a split parent\<close>

text \<open>The children that count: live, and not themselves cancels.\<close>

definition new_children :: "OrderBook \<Rightarrow> InternalOrderId list \<Rightarrow> OrderEntry list" where
  "new_children b ids = [c \<leftarrow> List.map_filter (\<lambda>i. find_order i b) ids. order_type (request c) = New]"

definition sat_sum :: "(OrderEntry \<Rightarrow> u64) \<Rightarrow> OrderEntry list \<Rightarrow> nat" where
  "sat_sum f es = min (2 ^ 64 - 1) (\<Sum>e\<leftarrow>es. unat (f e))"

definition child_rank :: "OrderEntry \<Rightarrow> int" where
  "child_rank c = status_progress_rank (order_state (request c))"

lemma new_children_Cons:
  "new_children b (i # ids) = (case find_order i b of
     Some c \<Rightarrow> if order_type (request c) = New then c # new_children b ids else new_children b ids
   | None \<Rightarrow> new_children b ids)"
  by (simp add: new_children_def List.map_filter_def split: option.splits)

definition totals_of :: "OrderEntry list \<Rightarrow> child_totals \<Rightarrow> child_totals" where
  "totals_of cs t = fold (\<lambda>c t. t\<lparr>ct_new_child_count := ct_new_child_count t + 1,
       ct_volume_traded := saturating_add (ct_volume_traded t) (volume_traded (request c)),
       ct_volume_remain := saturating_add (ct_volume_remain t) (volume_remain (request c)),
       ct_dvalue_traded := saturating_add (ct_dvalue_traded t) (dvalue_traded (request c)),
       ct_fee := saturating_add (ct_fee t) (dfee_executed (request c)),
       ct_latest_update_ns := max (ct_latest_update_ns t) (last_update_ns c),
       ct_all_terminal := (ct_all_terminal t \<and> entry_is_terminal c),
       ct_best_status := (if child_rank c > ct_best_rank t then order_state (request c) else ct_best_status t),
       ct_best_rank := max (child_rank c) (ct_best_rank t)\<rparr>) cs t"

lemma fold_add_child: "fold (add_child b) ids t = totals_of (new_children b ids) t"
proof (induction ids arbitrary: t)
  case Nil
  then show ?case by (simp add: totals_of_def new_children_def List.map_filter_def)
next
  case (Cons i ids)
  then show ?case
    by (auto simp: totals_of_def new_children_Cons add_child_def Let_def child_rank_def
        entry_is_terminal_def max_def intro!: arg_cong [where f = "fold _ _"] split: option.splits)
qed

lemma sat_fold:
  "unat (fold (\<lambda>c s. saturating_add s (f c)) cs s0) = min (2 ^ 64 - 1) (unat s0 + (\<Sum>c\<leftarrow>cs. unat (f c)))"
proof (induction cs arbitrary: s0)
  case Nil
  then show ?case using unat_lt_2_64 [of s0] by simp
next
  case (Cons c cs)
  then show ?case by (simp add: unat_saturating_add)
qed

lemma totals_of_sel:
  "ct_volume_traded (totals_of cs t) = fold (\<lambda>c s. saturating_add s (volume_traded (request c))) cs (ct_volume_traded t)"
  "ct_volume_remain (totals_of cs t) = fold (\<lambda>c s. saturating_add s (volume_remain (request c))) cs (ct_volume_remain t)"
  "ct_dvalue_traded (totals_of cs t) = fold (\<lambda>c s. saturating_add s (dvalue_traded (request c))) cs (ct_dvalue_traded t)"
  "ct_fee (totals_of cs t) = fold (\<lambda>c s. saturating_add s (dfee_executed (request c))) cs (ct_fee t)"
  "ct_new_child_count (totals_of cs t) = ct_new_child_count t + length cs"
  "ct_all_terminal (totals_of cs t) = (ct_all_terminal t \<and> list_all entry_is_terminal cs)"
  "ct_latest_update_ns (totals_of cs t) = fold max (map last_update_ns cs) (ct_latest_update_ns t)"
  by (induction cs arbitrary: t) (auto simp: totals_of_def max.commute)

lemma totals_best:
  assumes "\<exists>c\<in>set cs. child_rank c > ct_best_rank t"
  shows "\<exists>c\<in>set cs. ct_best_status (totals_of cs t) = order_state (request c)
     \<and> (\<forall>d\<in>set cs. child_rank d \<le> child_rank c)"
  using assms
proof (induction cs arbitrary: t)
  case (Cons c cs)
  define t' where "t' = totals_of [c] t"
  have t: "totals_of (c # cs) t = totals_of cs t'" by (simp add: totals_of_def t'_def)
  have r: "ct_best_rank t' = max (child_rank c) (ct_best_rank t)"
    "ct_best_status t' = (if child_rank c > ct_best_rank t then order_state (request c) else ct_best_status t)"
    by (simp_all add: t'_def totals_of_def)
  show ?case
  proof (cases "\<exists>d\<in>set cs. child_rank d > ct_best_rank t'")
    case True
    with Cons.IH [of t'] obtain d where d: "d \<in> set cs"
      "ct_best_status (totals_of cs t') = order_state (request d)" "\<forall>x\<in>set cs. child_rank x \<le> child_rank d"
      by blast
    moreover from True r d(3) have "child_rank c \<le> child_rank d" by fastforce
    ultimately show ?thesis by (auto simp: t)
  next
    case False
    have "ct_best_status (totals_of cs t') = ct_best_status t' \<and> ct_best_rank (totals_of cs t') = ct_best_rank t'"
      using False
    proof (induction cs arbitrary: t' rule: rev_induct)
      case (snoc x xs)
      then show ?case by (simp add: totals_of_def)
    qed (simp add: totals_of_def)
    moreover have "child_rank c > ct_best_rank t" using Cons.prems False r by (auto simp: max_def split: if_splits)
    ultimately show ?thesis using False r by (auto simp: t not_less max_def split: if_splits)
  qed
qed simp

lemma unat_sat_sum_Nil_t0:
  "ct_volume_traded t = 0 \<Longrightarrow> unat (ct_volume_traded (totals_of cs t)) = sat_sum (\<lambda>c. volume_traded (request c)) cs"
  "ct_volume_remain t = 0 \<Longrightarrow> unat (ct_volume_remain (totals_of cs t)) = sat_sum (\<lambda>c. volume_remain (request c)) cs"
  "ct_dvalue_traded t = 0 \<Longrightarrow> unat (ct_dvalue_traded (totals_of cs t)) = sat_sum (\<lambda>c. dvalue_traded (request c)) cs"
  "ct_fee t = 0 \<Longrightarrow> unat (ct_fee (totals_of cs t)) = sat_sum (\<lambda>c. dfee_executed (request c)) cs"
  by (simp_all add: totals_of_sel sat_fold sat_sum_def)

lemma apply_totals_eq:
  "apply_totals latched t parent = parent\<lparr>request := (request parent)
     \<lparr>volume_traded := ct_volume_traded t,
      volume_remain := (if volume_entrust (request parent) > 0
          \<and> ct_volume_remain t > volume_entrust (request parent)
        then volume_entrust (request parent) else ct_volume_remain t),
      dvalue_traded := ct_dvalue_traded t, dfee_executed := ct_fee t,
      dprice_traded := (if ct_volume_traded t > 0 then ct_dvalue_traded t div ct_volume_traded t
        else dprice_traded (request parent)),
      order_state := (if latched then TraderError else if ct_all_terminal t then OrderState.Finished
        else if ct_best_status t \<noteq> OrderState.NotSet then ct_best_status t
        else order_state (request parent))\<rparr>, last_update_ns := ct_latest_update_ns t\<rparr>"
proof -
  have u: "(if c then q\<lparr>dprice_traded := x\<rparr> else q) = q\<lparr>dprice_traded := if c then x else dprice_traded q\<rparr>"
    "(if c then q\<lparr>volume_remain := x\<rparr> else q) = q\<lparr>volume_remain := if c then x else volume_remain q\<rparr>"
    "(if c then q\<lparr>order_state := s1\<rparr> else if d then q\<lparr>order_state := s2\<rparr>
        else if e then q\<lparr>order_state := s3\<rparr> else q)
      = q\<lparr>order_state := if c then s1 else if d then s2 else if e then s3 else order_state q\<rparr>"
    for c d e x s1 s2 s3 and q :: OrderRequest by simp_all
  show ?thesis unfolding apply_totals_def Let_def u by simp
qed

text \<open>
  C10: a split parent mirrors its children.  When the book refreshes a parent that the
  execution engine does not manage, from at least one live child order, then the parent's
  traded volume, value and fee become the sums over exactly those children, saturating at
  \<open>2 ^ 64 - 1\<close>; its remaining volume the sum of theirs, capped by its own entrusted volume if
  that is set; its update time the latest of all.  Its state becomes TraderError if the split
  error is latched, else Finished if every child is terminal, else the state of a child that
  has progressed furthest (unless that is NotSet).  Everything else in the book stays and one
  ParentRefreshed is announced.
\<close>

theorem parent_mirrors_children:
  assumes "\<not> is_managed_parent p b" and "find_order p b = Some parent"
    and "parent_to_children b p = Some ids" and "new_children b ids = cs" and "cs \<noteq> []"
    and "refresh_parent_from_children p b = (b', fx)"
  shows "\<exists>parent'. find_order p b' = Some parent' \<and> fx = [Notify parent' ParentRefreshed]
    \<and> b' = modify_order p (\<lambda>_. parent') b
    \<and> unat (volume_traded (request parent')) = sat_sum (\<lambda>c. volume_traded (request c)) cs
    \<and> unat (dvalue_traded (request parent')) = sat_sum (\<lambda>c. dvalue_traded (request c)) cs
    \<and> unat (dfee_executed (request parent')) = sat_sum (\<lambda>c. dfee_executed (request c)) cs
    \<and> unat (volume_remain (request parent')) =
        (if volume_entrust (request parent) = 0 then sat_sum (\<lambda>c. volume_remain (request c)) cs
         else min (sat_sum (\<lambda>c. volume_remain (request c)) cs) (unat (volume_entrust (request parent))))
    \<and> last_update_ns parent' = Max (set (last_update_ns parent # map last_update_ns cs))
    \<and> (if p \<in> split_parent_error_latched b then order_state (request parent') = TraderError
       else if list_all entry_is_terminal cs then order_state (request parent') = OrderState.Finished
       else \<exists>c\<in>set cs. (\<forall>d\<in>set cs. child_rank d \<le> child_rank c)
         \<and> order_state (request parent') = (if order_state (request c) = OrderState.NotSet
             then order_state (request parent) else order_state (request c)))"
proof -
  define t0 where "t0 = \<lparr>ct_volume_traded = 0, ct_volume_remain = 0, ct_dvalue_traded = 0, ct_fee = 0,
        ct_latest_update_ns = last_update_ns parent, ct_all_terminal = True,
        ct_best_status = OrderState.NotSet, ct_best_rank = - 1, ct_new_child_count = 0\<rparr>"
  define t where "t = totals_of cs t0"
  define parent' where "parent' = apply_totals (p \<in> split_parent_error_latched b) t parent"
  have t: "collect_children b ids (last_update_ns parent) = t"
    by (simp add: collect_children_def fold_add_child assms(4) t_def t0_def)
  have n: "ct_new_child_count t \<noteq> 0" using assms(5) by (simp add: t_def totals_of_sel)
  have b': "b' = modify_order p (\<lambda>_. parent') b" "fx = [Notify parent' ParentRefreshed]"
    using assms(1,2,3,6) n by (simp_all add: refresh_parent_from_children_def t parent'_def Let_def)
  have found: "find_order p b' = Some parent'" by (simp add: b' find_modify_order assms(2))
  have sums: "unat (ct_volume_traded t) = sat_sum (\<lambda>c. volume_traded (request c)) cs"
    "unat (ct_volume_remain t) = sat_sum (\<lambda>c. volume_remain (request c)) cs"
    "unat (ct_dvalue_traded t) = sat_sum (\<lambda>c. dvalue_traded (request c)) cs"
    "unat (ct_fee t) = sat_sum (\<lambda>c. dfee_executed (request c)) cs"
    by (simp_all add: t_def t0_def unat_sat_sum_Nil_t0)
  have latest: "ct_latest_update_ns t = Max (set (last_update_ns parent # map last_update_ns cs))"
    by (simp add: t_def t0_def totals_of_sel Max.set_eq_fold del: set_map)
      (metis Max.set_eq_fold list.set_map list.simps(15) set_map)
  have allt: "ct_all_terminal t = list_all entry_is_terminal cs"
    by (simp add: t_def t0_def totals_of_sel)
  have "\<exists>c\<in>set cs. ct_best_status t = order_state (request c)
      \<and> (\<forall>d\<in>set cs. child_rank d \<le> child_rank c)"
    unfolding t_def
  proof (rule totals_best)
    obtain c where "c \<in> set cs" using assms(5) by (cases cs) auto
    moreover have "child_rank c > ct_best_rank t0"
      using status_progress_rank_nonneg [of "order_state (request c)"]
      unfolding t0_def child_rank_def by (simp del: status_progress_rank_nonneg)
    ultimately show "\<exists>c\<in>set cs. child_rank c > ct_best_rank t0" by blast
  qed
  then obtain c where c: "c \<in> set cs" "ct_best_status t = order_state (request c)"
    "\<forall>d\<in>set cs. child_rank d \<le> child_rank c" by blast
  have st: "order_state (request parent') = (if p \<in> split_parent_error_latched b then TraderError
      else if list_all entry_is_terminal cs then OrderState.Finished
      else if order_state (request c) \<noteq> OrderState.NotSet then order_state (request c)
      else order_state (request parent))"
    by (simp add: parent'_def apply_totals_eq allt c(2))
  have vr: "volume_remain (request parent') = (if volume_entrust (request parent) > 0
        \<and> ct_volume_remain t > volume_entrust (request parent)
      then volume_entrust (request parent) else ct_volume_remain t)"
    by (simp add: parent'_def apply_totals_eq)
  have rem: "unat (volume_remain (request parent')) =
      (if volume_entrust (request parent) = 0 then sat_sum (\<lambda>c. volume_remain (request c)) cs
       else min (sat_sum (\<lambda>c. volume_remain (request c)) cs) (unat (volume_entrust (request parent))))"
    unfolding vr sums(2) [symmetric] by (simp add: word_neq_0_conv word_less_nat_alt min_def)
  have sel: "volume_traded (request parent') = ct_volume_traded t"
    "dvalue_traded (request parent') = ct_dvalue_traded t" "dfee_executed (request parent') = ct_fee t"
    "last_update_ns parent' = ct_latest_update_ns t"
    by (simp_all add: parent'_def apply_totals_eq)
  have state: "if p \<in> split_parent_error_latched b then order_state (request parent') = TraderError
       else if list_all entry_is_terminal cs then order_state (request parent') = OrderState.Finished
       else \<exists>c\<in>set cs. (\<forall>d\<in>set cs. child_rank d \<le> child_rank c)
         \<and> order_state (request parent') = (if order_state (request c) = OrderState.NotSet
             then order_state (request parent) else order_state (request c))"
    unfolding st using c(1,3) by auto
  show ?thesis
    using found b' sums(1,3,4) [folded sel(1-3)] rem latest [folded sel(4)] state
    by (intro exI [of _ parent'] conjI) assumption+
qed

definition book_split :: OrderBook where
  "book_split = run_book [(1, AddOrder (order_example 1 100)),
     (2, AddOrder ((order_example 2 60)\<lparr>is_split_child := True, parent_order_id := 1\<rparr>)),
     (3, AddOrder ((order_example 3 40)\<lparr>is_split_child := True, parent_order_id := 1\<rparr>)),
     (4, UpdateState 2 MarketAccepted)] (OrderBook_new 4)"

lemma parent_mirrors_children_witness:
  "\<exists>parent'. find_order 1 (fst (refresh_parent_from_children 1 book_split)) = Some parent'
     \<and> unat (volume_remain (request parent')) = 100"
proof -
  let ?r = "refresh_parent_from_children 1 book_split"
  have m: "\<not> is_managed_parent 1 book_split" by code_simp
  have p: "find_order 1 book_split = Some (the (find_order 1 book_split))"
  proof -
    have "find_order 1 book_split \<noteq> None" by code_simp
    then show ?thesis by auto
  qed
  have c: "parent_to_children book_split 1 = Some [2, 3]" by code_simp
  have n: "length (new_children book_split [2, 3]) = 2" by code_simp
  then have ne: "new_children book_split [2, 3] \<noteq> []" by auto
  have "(\<Sum>c\<leftarrow>new_children book_split [2, 3]. unat (volume_remain (request c))) = 100" by code_simp
  then have s: "sat_sum (\<lambda>c. volume_remain (request c)) (new_children book_split [2, 3]) = 100"
    by (simp add: sat_sum_def)
  have v: "volume_entrust (request (the (find_order 1 book_split))) = 100" by code_simp
  from parent_mirrors_children [OF m p c refl ne prod.collapse [of ?r, symmetric]]
  obtain parent' where "find_order 1 (fst ?r) = Some parent'"
    "unat (volume_remain (request parent')) =
        (if volume_entrust (request (the (find_order 1 book_split))) = 0
         then sat_sum (\<lambda>c. volume_remain (request c)) (new_children book_split [2, 3])
         else min (sat_sum (\<lambda>c. volume_remain (request c)) (new_children book_split [2, 3]))
           (unat (volume_entrust (request (the (find_order 1 book_split))))))"
    by blast
  then show ?thesis unfolding s v by simp
qed

section \<open>Trades\<close>

text \<open>The figures of a trade report, one by one.\<close>

lemma trade_figures:
  assumes "q' = trade_request vol px val fee q"
  shows "unat (volume_traded q') = (if volume_entrust q = 0
      then min (2 ^ 64 - 1) (unat (volume_traded q) + unat vol)
      else min (unat (volume_entrust q)) (unat (volume_traded q) + unat vol))"
    and "unat (volume_remain q') = unat (volume_remain q) - unat vol"
    and "unat (dvalue_traded q') = min (2 ^ 64 - 1) (unat (dvalue_traded q) + unat val)"
    and "unat (dfee_executed q') = min (2 ^ 64 - 1) (unat (dfee_executed q) + unat fee)"
    and "dprice_traded q' = (if volume_traded q' = 0 then dprice_traded q
      else if dvalue_traded q' = 0 then px else dvalue_traded q' div volume_traded q')"
    and "order_state q' = (if volume_remain q' = 0 \<and> \<not> is_terminal_state (order_state q)
      then OrderState.Finished else order_state q)"
    and "q' = q\<lparr>volume_traded := volume_traded q', volume_remain := volume_remain q',
      dvalue_traded := dvalue_traded q', dfee_executed := dfee_executed q',
      dprice_traded := dprice_traded q', order_state := order_state q'\<rparr>"
proof -
  have lt: "unat (volume_entrust q) < 2 ^ 64" by (rule unat_lt_2_64)
  have sat: "unat (saturating_add (volume_traded q) vol) = min (2 ^ 64 - 1) (unat (volume_traded q) + unat vol)"
    by (rule unat_saturating_add)
  show "unat (volume_traded q') = (if volume_entrust q = 0
      then min (2 ^ 64 - 1) (unat (volume_traded q) + unat vol)
      else min (unat (volume_entrust q)) (unat (volume_traded q) + unat vol))"
    using sat lt by (simp add: assms trade_request_eq Let_def word_less_nat_alt word_neq_0_conv min_def unat_eq_0)
  show "unat (volume_remain q') = unat (volume_remain q) - unat vol"
    by (simp add: assms trade_request_eq Let_def word_le_nat_alt unat_sub)
  show "unat (dvalue_traded q') = min (2 ^ 64 - 1) (unat (dvalue_traded q) + unat val)"
    "unat (dfee_executed q') = min (2 ^ 64 - 1) (unat (dfee_executed q) + unat fee)"
    "dprice_traded q' = (if volume_traded q' = 0 then dprice_traded q
      else if dvalue_traded q' = 0 then px else dvalue_traded q' div volume_traded q')"
    "order_state q' = (if volume_remain q' = 0 \<and> \<not> is_terminal_state (order_state q)
      then OrderState.Finished else order_state q)"
    "q' = q\<lparr>volume_traded := volume_traded q', volume_remain := volume_remain q',
      dvalue_traded := dvalue_traded q', dfee_executed := dfee_executed q',
      dprice_traded := dprice_traded q', order_state := order_state q'\<rparr>"
    by (simp_all add: assms trade_request_eq Let_def unat_saturating_add word_gt_0)
qed

lemma find_order_modified:
  assumes "slots_ok cap b" "x \<noteq> a"
  shows "find_order x (modify_order a f b) = find_order x b"
proof (cases "id_to_index b a")
  case (Some i)
  have "id_to_index b x \<noteq> Some i"
    using assms Some unfolding slots_ok_def by metis
  with Some show ?thesis by (cases "id_to_index b x") (simp_all add: find_order_def modify_order_def)
qed (simp add: modify_order_def)

lemma find_refresh_parent_other:
  assumes "slots_ok cap b" "child_to_parent b a \<noteq> Some x"
  shows "find_order x (fst (refresh_parent_of a b)) = find_order x b"
  using assms
  by (auto simp: refresh_parent_of_def refresh_parent_from_children_def Let_def find_order_modified
      split: option.splits)

text \<open>
  C11: the effect of a trade report, on every branch.  For an order the book does not hold the
  report is refused as OrderNotFound and nothing changes.  Otherwise the order is changed in six
  figures and its update time, and in nothing else: the traded volume grows by the reported
  volume, never beyond the entrusted one when there is one (nor beyond 64 bits); the remaining
  volume shrinks by it, never below 0; value and fee accumulate, saturating; the average price is
  value over traded volume, the reported price while no value is known, and as it was while
  nothing is traded; the order is Finished as soon as nothing remains (unless it was terminal),
  and its state is otherwise untouched.  An order whose traded and remaining volumes made up the
  entrusted one keeps doing so.  The parent of a split child, unless an execution session
  manages it, is then refreshed from a book in which only this order has changed; no other
  order changes, and the new entry is announced last.
\<close>

theorem update_trade_effect:
  assumes "book_ok cap b" and "child_to_parent b a \<noteq> Some a"
    and "update_trade a vol px val fee now b = (ok, b', fx)"
  shows "case find_order a b of
      None \<Rightarrow> \<not> ok \<and> b' = b \<and> fx = [Raise D_order OrderNotFound]
    | Some e \<Rightarrow> ok \<and> (\<exists>t r d f p st e' b1 fx1.
        unat t = (if volume_entrust (request e) = 0
          then min (2 ^ 64 - 1) (unat (volume_traded (request e)) + unat vol)
          else min (unat (volume_entrust (request e))) (unat (volume_traded (request e)) + unat vol))
      \<and> unat r = unat (volume_remain (request e)) - unat vol
      \<and> unat d = min (2 ^ 64 - 1) (unat (dvalue_traded (request e)) + unat val)
      \<and> unat f = min (2 ^ 64 - 1) (unat (dfee_executed (request e)) + unat fee)
      \<and> p = (if t = 0 then dprice_traded (request e) else if d = 0 then px else d div t)
      \<and> st = (if r = 0 \<and> \<not> entry_is_terminal e then OrderState.Finished else order_state (request e))
      \<and> e' = e\<lparr>request := (request e)\<lparr>volume_traded := t, volume_remain := r, dvalue_traded := d,
                 dfee_executed := f, dprice_traded := p, order_state := st\<rparr>, last_update_ns := now\<rparr>
      \<and> (0 < volume_entrust (request e)
           \<and> unat (volume_traded (request e)) + unat (volume_remain (request e)) = unat (volume_entrust (request e))
         \<longrightarrow> unat t + unat r = unat (volume_entrust (request e)))
      \<and> find_order a b1 = Some e' \<and> (\<forall>x. x \<noteq> a \<longrightarrow> find_order x b1 = find_order x b)
      \<and> (b', fx1) = (case child_to_parent b a of None \<Rightarrow> (b1, [])
           | Some parent \<Rightarrow> if parent \<in> managed_parent_ids b then (b1, [])
               else refresh_parent_from_children parent b1)
      \<and> find_order a b' = Some e' \<and> fx = fx1 @ [Notify e' TradeUpdated]
      \<and> (\<forall>x. x \<noteq> a \<and> child_to_parent b a \<noteq> Some x \<longrightarrow> find_order x b' = find_order x b))"
proof (cases "find_order a b")
  case None
  then show ?thesis using assms(3) by (auto simp: update_trade_def find_order_def split: option.splits)
next
  case (Some e)
  then obtain i where i: "id_to_index b a = Some i" "ob_orders b i = e" by (auto simp: find_order_def)
  let ?q = "request e"
  let ?q' = "trade_request vol px val fee ?q"
  let ?e = "e\<lparr>request := ?q', last_update_ns := now\<rparr>"
  define b1 where "b1 = modify_order a (\<lambda>e. e\<lparr>request := trade_request vol px val fee (request e), last_update_ns := now\<rparr>) b"
  have s: "slots_ok cap b" using assms(1) by (simp add: book_ok_def)
  have "content_change b b1" unfolding b1_def by (rule modify_order_content) (rule update_request_key)
  then have s1: "slots_ok cap b1" using book_ok_content [OF _ assms(1)] by (simp add: book_ok_def)
  have c1: "child_to_parent b1 = child_to_parent b" "managed_parent_ids b1 = managed_parent_ids b"
    "id_to_index b1 = id_to_index b" by (simp_all add: b1_def modify_order_sel)
  have f1: "find_order a b1 = Some ?e" "\<And>x. x \<noteq> a \<Longrightarrow> find_order x b1 = find_order x b"
    using s by (simp_all add: b1_def find_modify_order Some find_order_modified)
  define fx1 where "fx1 = snd (refresh_parent_of a b1)"
  have b': "b' = fst (refresh_parent_of a b1)" "ok"
    "fx = fx1 @ [Notify (ob_orders b' i) TradeUpdated]"
    using assms(3) i by (auto simp: update_trade_def Let_def b1_def fx1_def case_prod_beta)
  have fo: "\<And>x. child_to_parent b a \<noteq> Some x \<Longrightarrow> find_order x b' = find_order x b1"
    unfolding b' using find_refresh_parent_other [OF s1] by (simp add: c1)
  have fa: "find_order a b' = Some ?e" using fo [OF assms(2)] f1(1) by simp
  have snap: "ob_orders b' i = ?e"
    using fa i(1) by (simp add: find_order_def b'(1) content_change_sel [OF refresh_parent_of_content] c1)
  have split: "(b', fx1) = (case child_to_parent b a of None \<Rightarrow> (b1, [])
      | Some parent \<Rightarrow> if parent \<in> managed_parent_ids b then (b1, [])
          else refresh_parent_from_children parent b1)"
    by (simp add: b'(1) fx1_def refresh_parent_of_def c1 is_managed_parent_def split: option.splits)
  note fig = trade_figures [OF refl, of vol px val fee ?q]
  have entry: "?e = e\<lparr>request := ?q\<lparr>volume_traded := volume_traded ?q', volume_remain := volume_remain ?q',
      dvalue_traded := dvalue_traded ?q', dfee_executed := dfee_executed ?q', dprice_traded := dprice_traded ?q',
      order_state := order_state ?q'\<rparr>, last_update_ns := now\<rparr>"
    by (rule arg_cong [OF fig(7)])
  have total: "0 < volume_entrust ?q
      \<and> unat (volume_traded ?q) + unat (volume_remain ?q) = unat (volume_entrust ?q)
    \<longrightarrow> unat (volume_traded ?q') + unat (volume_remain ?q') = unat (volume_entrust ?q)"
    unfolding fig(1,2) by (auto simp: word_less_nat_alt)
  have st: "order_state ?q' = (if volume_remain ?q' = 0 \<and> \<not> entry_is_terminal e
      then OrderState.Finished else order_state ?q)"
    using fig(6) unfolding entry_is_terminal_def .
  have last: "fx = fx1 @ [Notify ?e TradeUpdated]" using b'(3) unfolding snap .
  have rest: "\<forall>x. x \<noteq> a \<and> child_to_parent b a \<noteq> Some x \<longrightarrow> find_order x b' = find_order x b"
    using fo f1(2) by simp
  show ?thesis unfolding Some option.case
    using b'(2) fig(1-5) st entry total f1 split fa last rest by blast
qed

lemma update_trade_effect_witness:
  "\<exists>e'. find_order 1 (fst (snd (update_trade 1 30 10 0 3 9 (run_book [(1, AddOrder (order_example 1 100))] (OrderBook_new 4)))))
       = Some e' \<and> volume_remain (request e') = 70 \<and> dprice_traded (request e') = 10"
proof -
  let ?b = "run_book [(1, AddOrder (order_example 1 100))] (OrderBook_new 4)"
  obtain ok b' fx where r: "update_trade 1 30 10 0 3 9 ?b = (ok, b', fx)" by (metis prod_cases3)
  have "case find_order 1 ?b of None \<Rightarrow> False | Some e \<Rightarrow> volume_traded (request e) = 0
      \<and> volume_remain (request e) = 100 \<and> volume_entrust (request e) = 100 \<and> dvalue_traded (request e) = 0"
    by code_simp
  then obtain e where e: "find_order 1 ?b = Some e" "volume_traded (request e) = 0"
    "volume_remain (request e) = 100" "volume_entrust (request e) = 100" "dvalue_traded (request e) = 0"
    by (auto split: option.splits)
  have ok: "book_ok 4 ?b" by (simp add: run_book_def book_ok_step book_ok_new)
  have n: "child_to_parent ?b 1 \<noteq> Some 1" by code_simp
  from update_trade_effect [OF ok n r]
  obtain t rem d f p st e' where fig:
    "unat t = (if volume_entrust (request e) = 0 then min (2 ^ 64 - 1) (unat (volume_traded (request e)) + unat (30 :: u64))
      else min (unat (volume_entrust (request e))) (unat (volume_traded (request e)) + unat (30 :: u64)))"
    "unat rem = unat (volume_remain (request e)) - unat (30 :: u64)"
    "unat d = min (2 ^ 64 - 1) (unat (dvalue_traded (request e)) + unat (0 :: u64))"
    "p = (if t = 0 then dprice_traded (request e) else if d = 0 then 10 else d div t)"
    "e' = e\<lparr>request := (request e)\<lparr>volume_traded := t, volume_remain := rem, dvalue_traded := d,
       dfee_executed := f, dprice_traded := p, order_state := st\<rparr>, last_update_ns := 9\<rparr>"
    "find_order 1 b' = Some e'"
    unfolding e(1) option.case by - (elim conjE exE, rule that; assumption)
  have "t = 30" "rem = 70" "d = 0" using fig(1-3) e(2-5) by (simp_all add: word_unat_eq_iff)
  with fig(4-6) show ?thesis by (simp add: r)
qed

section \<open>The mirror of a managed parent\<close>

text \<open>
  Syncing the mirror of a managed parent is idempotent and quiet.  After a view was
  synced the parent shows exactly the view; syncing the same view again, at any later time,
  changes nothing and announces nothing.
\<close>

theorem sync_managed_parent_idempotent:
  assumes "sync_managed_parent_view p view st now b = (True, b1, fx1)"
  shows "(\<exists>e. find_order p b1 = Some e \<and> view_unchanged view st (request e))
    \<and> is_managed_parent p b1
    \<and> sync_managed_parent_view p view st now' b1 = (True, b1, [])"
proof -
  obtain e where e: "find_order p b = Some e"
    using assms by (auto simp: sync_managed_parent_view_def split: option.splits)
  let ?b = "b\<lparr>managed_parent_ids := insert p (managed_parent_ids b)\<rparr>"
  have fe: "find_order p ?b = Some e" using e by (simp add: find_order_def)
  have m: "p \<in> managed_parent_ids b1"
    using assms e by (auto simp: sync_managed_parent_view_def Let_def modify_order_sel split: if_splits)
  obtain e1 where e1: "find_order p b1 = Some e1" "view_unchanged view st (request e1)"
    using assms e fe
    by (auto simp: sync_managed_parent_view_def Let_def find_modify_order view_unchanged_def apply_view_def
        split: if_splits)
  have "b1\<lparr>managed_parent_ids := insert p (managed_parent_ids b1)\<rparr> = b1" using m by (simp add: insert_absorb)
  with e1 m show ?thesis
    by (auto simp: sync_managed_parent_view_def Let_def is_managed_parent_def)
qed

definition view_example :: ManagedParentView where
  "view_example = \<lparr>v_execution_algo = PassiveExecutionAlgo.TWAP, v_execution_state = Running,
     v_target_volume = 100, v_working_volume = 20, v_schedulable_volume = 50,
     v_confirmed_traded_volume = 30, v_confirmed_traded_value = 300, v_confirmed_fee = 3\<rparr>"

lemma sync_managed_parent_idempotent_witness:
  "snd (snd (sync_managed_parent_view 1 view_example MarketAccepted 20
     (fst (snd (sync_managed_parent_view 1 view_example MarketAccepted 10 book_split))))) = []"
proof -
  let ?r = "sync_managed_parent_view 1 view_example MarketAccepted 10 book_split"
  have "fst ?r" by code_simp
  then have "?r = (True, fst (snd ?r), snd (snd ?r))" by (simp add: prod_eq_iff)
  from sync_managed_parent_idempotent [OF this, of 20] show ?thesis by simp
qed

section \<open>The order-id generator\<close>

text \<open>
  Recovered ids are never given out again.  After any history of the book in which the
  generator stayed below its maximum, the next generated id is larger than the id of every
  order that the history added.
\<close>

theorem next_order_id_fresh:
  assumes "add_order entry now (run_book pre b0) = (True, b1, fx)"
    and "ob_next_order_id (run_book ops b1) \<noteq> - 1"
  shows "internal_order_id (request entry) < fst (next_order_id (run_book ops b1))"
proof -
  have mono: "ob_next_order_id b \<le> ob_next_order_id (snd (book_step o' b))" for o' b
  proof -
    obtain t op where o': "o' = (t, op)" by (cases o')
    have c: "content_change b b' \<Longrightarrow> ob_next_order_id b \<le> ob_next_order_id b'" for b b'
      by (simp add: content_change_sel)
    show ?thesis
    proof (cases op)
      case (AddOrder e)
      obtain r b' f where a: "add_order e t b = (r, b', f)" by (cases "add_order e t b")
      then show ?thesis unfolding o' AddOrder
        by (cases rule: add_order_cases)
          (simp_all add: book_step_def a content_change_sel insert_indices_sel)
    next
      case (ArchiveOrder i)
      show ?thesis unfolding o' ArchiveOrder
        by (cases "id_to_index b i")
          (simp_all add: book_step_def archive_order_eq remove_indices_def Let_def, simp add: archive_order_def)
    qed (auto simp: o' book_step_def update_state_def update_trade_def mark_managed_parent_def
        sync_managed_parent_view_def Let_def case_prod_beta modify_order_def
        content_change_sel [OF refresh_parent_of_content] split: option.splits)
  qed
  have run: "ob_next_order_id b \<le> ob_next_order_id (run_book ops b)" for b
  proof (induction ops arbitrary: b)
    case (Cons o' ops)
    then show ?case using mono [of b o'] order_trans by (fastforce simp: run_book_def)
  qed (simp add: run_book_def)
  let ?id = "internal_order_id (request entry)"
  have "saturated_next_order_id ?id \<le> ob_next_order_id b1"
    using assms(1)
    by (cases rule: add_order_cases) (simp_all add: content_change_sel insert_indices_sel)
  then have le: "saturated_next_order_id ?id \<le> ob_next_order_id (run_book ops b1)"
    using run by (rule order_trans)
  have "?id \<noteq> - 1"
    using le assms(2) word_order.extremum_unique [of "ob_next_order_id (run_book ops b1)"]
    by (auto simp: saturated_next_order_id_def)
  then have "1 + ?id \<noteq> 0" using max_word_wrap [of ?id] by (auto simp: add.commute)
  then have "?id < ?id + 1" using unatSuc [of ?id] by (simp add: word_less_nat_alt add.commute)
  with le \<open>?id \<noteq> - 1\<close> show ?thesis by (simp add: saturated_next_order_id_def next_order_id_def)
qed

lemma next_order_id_fresh_witness:
  "(500 :: InternalOrderId) < fst (next_order_id (run_book [(2, UpdateState 500 TraderSubmitted)]
     (fst (snd (add_order (order_example 500 10) 1 (OrderBook_new 2))))))"
proof -
  let ?r = "add_order (order_example 500 10) 1 (run_book [] (OrderBook_new 2))"
  have "fst ?r" by code_simp
  then have e: "?r = (True, fst (snd ?r), snd (snd ?r))" by (simp add: prod_eq_iff)
  have n: "ob_next_order_id (run_book [(2, UpdateState 500 TraderSubmitted)] (fst (snd ?r))) \<noteq> - 1" by code_simp
  from next_order_id_fresh [OF e n] show ?thesis by (simp add: order_example_def run_book_def)
qed

section \<open>Two places where the book falls short\<close>

text \<open>
  Archiving a split parent before its children turns the next child update into a fatal
  error.  \<open>archive_order\<close> leaves the parent/child links in place, so when an (unmanaged)
  parent has been archived, updating the state of one of its live children raises
  OrderInvariantBroken, whose policy is fatal and ends the process.
\<close>

theorem archived_parent_breaks_child:
  assumes "child_to_parent b c = Some p" and "p \<noteq> c" and "id_to_index b c \<noteq> None"
    and "archive_order p b = (True, b1, fx1)"
    and "update_state c st now b1 = (ok, b2, fx2)"
  shows "Raise D_order OrderInvariantBroken \<in> set fx2
    \<and> severity (classify D_order OrderInvariantBroken) = Fatal"
proof -
  obtain i where i: "id_to_index b p = Some i"
    using assms(4) by (auto simp: archive_order_def split: option.splits)
  have b1: "b1 = remove_indices p i b" using assms(4) archive_order_eq [OF i] by simp
  obtain j where j: "id_to_index b1 c = Some j"
    using assms(2,3) by (auto simp: b1 remove_indices_def Let_def)
  let ?b = "modify_order c (\<lambda>e. e\<lparr>request := (request e)\<lparr>order_state := st\<rparr>, last_update_ns := now\<rparr>) b1"
  have fp: "find_order p b1 = None" by (simp add: b1 find_order_def remove_indices_def Let_def)
  have m: "p \<notin> managed_parent_ids b1" and cp: "child_to_parent b1 c = Some p"
    using assms(1) by (simp_all add: b1 remove_indices_def Let_def)
  have "snd (refresh_parent_of c b') = [Raise D_order OrderInvariantBroken]"
    if "child_to_parent b' = child_to_parent b1" "managed_parent_ids b' = managed_parent_ids b1"
      "id_to_index b' = id_to_index b1" for b'
    using that fp m cp
    by (simp add: refresh_parent_of_def is_managed_parent_def refresh_parent_from_children_def find_order_def)
  then have "Raise D_order OrderInvariantBroken \<in> set fx2"
    using assms(5) j by (auto simp: update_state_def Let_def case_prod_beta modify_order_sel)
  then show ?thesis by (simp add: classify_def kFatalPolicy_def)
qed

lemma archived_parent_breaks_child_witness:
  "Raise D_order OrderInvariantBroken \<in> set (snd (snd (update_state 2 MarketAccepted 9
     (fst (snd (archive_order 1 book_split))))))"
proof -
  have c: "child_to_parent book_split 2 = Some 1" by code_simp
  have i: "id_to_index book_split 2 \<noteq> None" by code_simp
  have "fst (archive_order 1 book_split)" by code_simp
  then have a: "archive_order 1 book_split
      = (True, fst (snd (archive_order 1 book_split)), snd (snd (archive_order 1 book_split)))"
    by (simp add: prod_eq_iff)
  let ?u = "update_state 2 MarketAccepted 9 (fst (snd (archive_order 1 book_split)))"
  have u: "?u = (fst ?u, fst (snd ?u), snd (snd ?u))" by simp
  have "(1 :: InternalOrderId) \<noteq> 2" by simp
  from archived_parent_breaks_child [OF c this i a u] show ?thesis by blast
qed

text \<open>
  The book stores an order under the key it came with, not under the canonical one.  The
  normalised key is written to the local copy after that copy went into the slot, so the
  stored order and the one announced still carry, say, a legacy key, while the security index
  lists the order under the canonical key.
\<close>

theorem add_order_keeps_legacy_key:
  assumes "normalize_order_security_key (internal_security_id (request entry)) = Some key"
    and "nul \<notin> set (internal_security_id (request entry))"
    and "\<not> is_split_child entry" and "add_order entry now b = (True, b', fx)"
  shows "\<exists>e. find_order (internal_order_id (request entry)) b' = Some e \<and> fx = [Notify e Added]
    \<and> internal_security_id (request e) = internal_security_id (request entry)
    \<and> internal_order_id (request entry) \<in> set (get_orders_by_security key b')"
proof -
  let ?id = "internal_order_id (request entry)" let ?e = "stored_entry now entry"
  obtain index free where a: "?id \<noteq> 0" "id_to_index b ?id = None" "free_slots b = index # free"
    using assms(4) by (cases rule: add_order_cases) auto
  have b': "b' = (insert_indices index free ?e b)\<lparr>ob_active_count := ob_active_count b + 1\<rparr>"
    "fx = [Notify ?e Added]"
    using assms(3,4) add_order_eq [OF a, of now] by (auto simp: insert_indices_sel)
  have "entry_security ?e = Some key" using assms(1) by (simp add: entry_security_def)
  then have "security_orders b' key = push_back ?id (security_orders b key)"
    by (simp add: b' insert_indices_def Let_def)
  moreover have "normalize_order_security_key key = Some key"
    using assms(1,2) normalize_idem normalize_nonempty
    by (auto simp: normalize_order_security_key_def split: if_splits)
  ultimately have "?id \<in> set (get_orders_by_security key b')"
    by (simp add: get_orders_by_security_def push_back_def)
  moreover have "find_order ?id b' = Some ?e" by (simp add: b' find_order_def insert_indices_sel)
  ultimately show ?thesis using b'(2) by (intro exI [of _ ?e]) auto
qed

lemma add_order_keeps_legacy_key_witness:
  "\<exists>e. find_order 7 (fst (snd (add_order (order_example 7 100) 5 (OrderBook_new 2)))) = Some e
     \<and> internal_security_id (request e) = ''SZ.000001''"
proof -
  let ?r = "add_order (order_example 7 100) 5 (OrderBook_new 2)"
  have k: "normalize_order_security_key (internal_security_id (request (order_example 7 100)))
      = Some ''XSHE_000001''"
    and n: "nul \<notin> set (internal_security_id (request (order_example 7 100)))" by code_simp+
  have s: "\<not> is_split_child (order_example 7 100)"
    by (simp add: order_example_def OrderEntry_default_def)
  have "fst ?r" by code_simp
  then have a: "?r = (True, fst (snd ?r), snd (snd ?r))" by (simp add: prod_eq_iff)
  have i: "internal_security_id (request (order_example 7 100)) = ''SZ.000001''"
    "internal_order_id (request (order_example 7 100)) = 7" by (simp_all add: order_example_def)
  from add_order_keeps_legacy_key [OF k n s a] i show ?thesis by auto
qed

end
