(* ===== verification/Order_Router.thy ===== *)
theory Order_Router
  imports Order_Book_Facts Orders_Shm Spsc_Queue
begin

text \<open>
  \<^verbatim>\<open>src/order/order_router.cpp\<close>, with the part of \<^verbatim>\<open>src/core/event_loop.cpp\<close> that the order
  book calls back into: the world of shared memories around the book, the change callback that
  mirrors every change of an order into its slot of the order pool, and the router that hands
  orders and cancels to the downstream queue.  A null pointer to a shared memory is \<open>None\<close>.
  An error status is recorded with its domain, code and time; the module, line and message it
  also carries are display data and left out, as are the header time stamps of the queues and
  the event recorder (a log writer).  All calls of \<open>now_ns()\<close> in one operation share one value.
\<close>

section \<open>The world around the book\<close>

record upstream_shm_layout =
  us_next_order_id :: InternalOrderId
  us_queue :: "OrderIndex spsc_queue"

record router_stats =
  orders_received :: u64
  orders_sent :: u64
  orders_rejected :: u64
  queue_full_count :: u64
  rt_last_order_time :: TimestampNs

record world =
  w_book :: OrderBook
  w_downstream :: "OrderIndex spsc_queue option"
  w_orders :: "orders_shm_layout option"
  w_upstream :: "upstream_shm_layout option"
  w_errors :: error_state
  w_router :: router_stats
  w_callback :: bool

definition router_stats_zero :: router_stats where
  "router_stats_zero = \<lparr>orders_received = 0, orders_sent = 0, orders_rejected = 0,
     queue_full_count = 0, rt_last_order_time = 0\<rparr>"

definition raise_error :: "ErrorDomain \<Rightarrow> ErrorCode \<Rightarrow> TimestampNs \<Rightarrow> world \<Rightarrow> world" where
  "raise_error domain code now w =
     w\<lparr>w_errors := record_error (make_error_status domain code [] [] 0 [] 0 now) (w_errors w)\<rparr>"

text \<open>An operation on the order pool behind the pointer \<open>orders_shm_\<close>; null is not dereferenced.\<close>

definition on_pool :: "(orders_shm_layout \<Rightarrow> bool \<times> orders_shm_layout) \<Rightarrow> world \<Rightarrow> bool \<times> world" where
  "on_pool f w =
     (case w_orders w of
        None \<Rightarrow> (False, w)
      | Some shm \<Rightarrow> (let (r, shm) = f shm in (r, w\<lparr>w_orders := Some shm\<rparr>)))"

section \<open>The change callback\<close>

definition on_order_book_changed ::
    "OrderEntry \<Rightarrow> order_book_event \<Rightarrow> TimestampNs \<Rightarrow> world \<Rightarrow> world" where
  "on_order_book_changed entry event now w =
     (if w_orders w = None \<or> shm_order_index entry = kInvalidOrderIndex then w
      else let status = order_state (request entry);
               (synced, w) =
                 (if event = Archived \<or> is_terminal_state status
                  then on_pool (orders_shm_write_order (shm_order_index entry) (request entry)
                         OrderSlotState.Terminal AccountInternal now) w
                  else if status = RiskControllerRejected
                  then on_pool (orders_shm_write_order (shm_order_index entry) (request entry)
                         RiskRejected AccountInternal now) w
                  else on_pool (orders_shm_sync_order (shm_order_index entry) (request entry) now) w)
           in if \<not> synced then raise_error D_order OrderNotFound now w else w)"

fun apply_effect :: "TimestampNs \<Rightarrow> ob_effect \<Rightarrow> world \<Rightarrow> world" where
  "apply_effect now (Notify entry event) w =
     (if w_callback w then on_order_book_changed entry event now w else w)"
| "apply_effect now (Raise domain code) w = raise_error domain code now w"

text \<open>A call of an order-book operation: the book changes, then its calls to the outside happen.\<close>

definition on_book :: "(OrderBook \<Rightarrow> 'a book_result) \<Rightarrow> TimestampNs \<Rightarrow> world \<Rightarrow> 'a \<times> world" where
  "on_book f now w =
     (let (r, b, fx) = f (w_book w)
      in (r, fold (apply_effect now) fx (w\<lparr>w_book := b\<rparr>)))"

section \<open>The router\<close>

definition on_stats :: "(router_stats \<Rightarrow> router_stats) \<Rightarrow> world \<Rightarrow> world" where
  "on_stats f w = w\<lparr>w_router := f (w_router w)\<rparr>"

abbreviation count_received :: "TimestampNs \<Rightarrow> world \<Rightarrow> world" where
  "count_received now \<equiv> on_stats (\<lambda>s. s\<lparr>orders_received := orders_received s + 1, rt_last_order_time := now\<rparr>)"

abbreviation count_sent :: "world \<Rightarrow> world" where
  "count_sent \<equiv> on_stats (\<lambda>s. s\<lparr>orders_sent := orders_sent s + 1\<rparr>)"

abbreviation count_rejected :: "world \<Rightarrow> world" where
  "count_rejected \<equiv> on_stats (\<lambda>s. s\<lparr>orders_rejected := orders_rejected s + 1\<rparr>)"

abbreviation count_queue_full :: "world \<Rightarrow> world" where
  "count_queue_full \<equiv> on_stats (\<lambda>s. s\<lparr>orders_rejected := orders_rejected s + 1,
     queue_full_count := queue_full_count s + 1\<rparr>)"

definition allocate_internal_order_id :: "world \<Rightarrow> InternalOrderId \<times> world" where
  "allocate_internal_order_id w =
     (case w_upstream w of
        Some up \<Rightarrow> (us_next_order_id up,
          w\<lparr>w_upstream := Some (up\<lparr>us_next_order_id := us_next_order_id up + 1\<rparr>)\<rparr>)
      | None \<Rightarrow> (let (i, b) = next_order_id (w_book w) in (i, w\<lparr>w_book := b\<rparr>)))"

definition send_to_downstream :: "OrderIndex \<Rightarrow> TimestampNs \<Rightarrow> world \<Rightarrow> bool \<times> world" where
  "send_to_downstream index now w =
     (case w_downstream w of
        None \<Rightarrow> (False, raise_error D_order ComponentUnavailable now w)
      | Some q \<Rightarrow>
          if w_orders w = None then (False, raise_error D_order ComponentUnavailable now w)
          else let (pushed, q) = try_push kQueueCapacity index q;
                   w = w\<lparr>w_downstream := Some q\<rparr>
               in (pushed, snd (on_pool (orders_shm_update_stage index
                     (if pushed then DownstreamQueued else QueuePushFailed) now) w)))"

definition create_internal_order_slot ::
    "OrderRequest \<Rightarrow> OrderSlotState \<Rightarrow> order_slot_source_t \<Rightarrow> TimestampNs \<Rightarrow> world
      \<Rightarrow> OrderIndex option \<times> world" where
  "create_internal_order_slot req stage source now w =
     (case w_orders w of
        None \<Rightarrow> (None, w)
      | Some shm \<Rightarrow> (let (i, shm) = orders_shm_append req stage source now shm
                    in (i, w\<lparr>w_orders := Some shm\<rparr>)))"

text \<open>
  The common end of the three routes: push the slot index, and report the outcome in the
  statistics, the order's state and the error log.
\<close>

definition send_and_mark ::
    "InternalOrderId \<Rightarrow> OrderIndex \<Rightarrow> TimestampNs \<Rightarrow> world \<Rightarrow> bool \<times> world" where
  "send_and_mark order_id index now w =
     (let (pushed, w) = send_to_downstream index now w
      in if \<not> pushed
         then let w = count_queue_full w;
                  w = snd (on_book (update_state order_id TraderError now) now w)
              in (False, raise_error D_order ErrQueuePushFailed now w)
         else let w = count_sent w
              in (True, snd (on_book (update_state order_id TraderSubmitted now) now w)))"

text \<open>The cancel order that \<open>route_cancel\<close> makes, and its path into the pool and the book.\<close>

definition make_cancel_request :: "InternalOrderId \<Rightarrow> MdTime \<Rightarrow> InternalOrderId \<Rightarrow> OrderRequest" where
  "make_cancel_request cancel_id time orig_id =
     (init_cancel cancel_id time orig_id OrderRequest_default)\<lparr>order_state := TraderPending\<rparr>"

definition submit_cancel ::
    "OrderRequest \<Rightarrow> StrategyId \<Rightarrow> bool \<Rightarrow> InternalOrderId \<Rightarrow> TimestampNs \<Rightarrow> world \<Rightarrow> bool \<times> world" where
  "submit_cancel cancel_request strat split parent_id now w =
     (case create_internal_order_slot cancel_request UpstreamDequeued AccountInternal now w of
        (None, w) \<Rightarrow> (False, raise_error D_order OrderPoolFull now (count_rejected w))
      | (Some cancel_index, w) \<Rightarrow>
          let cancel_entry = OrderEntry_default\<lparr>request := cancel_request, submit_time_ns := now,
                last_update_ns := now, strategy_id := strat, risk_result := Pass, retry_count := 0,
                is_split_child := split, parent_order_id := parent_id, shm_order_index := cancel_index\<rparr>;
              (added, w) = on_book (add_order cancel_entry now) now w
          in if \<not> added
             then let w = snd (on_pool (orders_shm_update_stage cancel_index QueuePushFailed now) w)
                  in (False, raise_error D_order OrderBookFull now (count_rejected w))
             else send_and_mark (internal_order_id cancel_request) cancel_index now w)"

fun cancel_children ::
    "InternalOrderId \<Rightarrow> InternalOrderId \<Rightarrow> MdTime \<Rightarrow> TimestampNs \<Rightarrow> InternalOrderId list
      \<Rightarrow> bool \<times> bool \<times> bool \<times> world \<Rightarrow> bool \<times> bool \<times> bool \<times> world" where
  "cancel_children orig_id cancel_id time now [] st = st"
| "cancel_children orig_id cancel_id time now (child_id # children) (any_sent, any_failed, used_cancel_id, w) =
     (case find_order child_id (w_book w) of
        None \<Rightarrow> cancel_children orig_id cancel_id time now children (any_sent, any_failed, used_cancel_id, w)
      | Some child \<Rightarrow>
          if order_type (request child) \<noteq> New \<or> entry_is_terminal child
          then cancel_children orig_id cancel_id time now children (any_sent, any_failed, used_cancel_id, w)
          else let (child_cancel_id, w) =
                     (if used_cancel_id then allocate_internal_order_id w else (cancel_id, w));
                   (sent, w) = submit_cancel (make_cancel_request child_cancel_id time child_id)
                                 (strategy_id child) True orig_id now w
               in cancel_children orig_id cancel_id time now children
                    (any_sent \<or> sent, any_failed \<or> \<not> sent, True, w))"

definition route_cancel ::
    "InternalOrderId \<Rightarrow> InternalOrderId \<Rightarrow> MdTime \<Rightarrow> TimestampNs \<Rightarrow> world \<Rightarrow> bool \<times> world" where
  "route_cancel orig_id cancel_id time now w =
     (let w = count_received now w;
          children = get_children orig_id (w_book w)
      in if children \<noteq> []
         then let (any_sent, any_failed, used, w) =
                    cancel_children orig_id cancel_id time now children (False, False, False, w);
                  w = (if any_failed then snd (on_book (update_state orig_id TraderError now) now w) else w)
              in (any_sent, w)
         else submit_cancel (make_cancel_request cancel_id time orig_id) 0 False 0 now w)"

definition route_order :: "OrderEntry \<Rightarrow> TimestampNs \<Rightarrow> world \<Rightarrow> bool \<times> world" where
  "route_order entry now w =
     (if order_type (request entry) = Cancel
      then route_cancel (orig_internal_order_id (request entry)) (internal_order_id (request entry))
             (md_time_driven (request entry)) now w
      else let w = count_received now w
           in if shm_order_index entry = kInvalidOrderIndex
              then let w = count_rejected w;
                       w = snd (on_book (update_state (internal_order_id (request entry)) TraderError now) now w)
                   in (False, raise_error D_order OrderInvariantBroken now w)
              else send_and_mark (internal_order_id (request entry)) (shm_order_index entry) now w)"

text \<open>\<open>entries\<close> are pointers into the book's slots, read when their turn comes; null is skipped.\<close>

fun route_orders :: "InternalOrderId option list \<Rightarrow> TimestampNs \<Rightarrow> world \<Rightarrow> nat \<times> world" where
  "route_orders [] now w = (0, w)"
| "route_orders (p # ps) now w =
     (let (ok, w) = (case Option.bind p (\<lambda>i. find_order i (w_book w)) of
                       None \<Rightarrow> (False, w) | Some entry \<Rightarrow> route_order entry now w);
          (n, w) = route_orders ps now w
      in ((if ok then n + 1 else n), w))"

text \<open>
  The caller's entry is updated in place: it is returned with the result.  Its id and time
  stamps are filled in first.
\<close>

definition prepare_internal_order :: "OrderEntry \<Rightarrow> TimestampNs \<Rightarrow> world \<Rightarrow> OrderEntry \<times> world" where
  "prepare_internal_order entry now w =
     (let (entry, w) =
            (if internal_order_id (request entry) = 0
             then let (i, w) = allocate_internal_order_id w
                  in (entry\<lparr>request := (request entry)\<lparr>internal_order_id := i\<rparr>\<rparr>, w)
             else (entry, w));
          entry = (if submit_time_ns entry = 0 then entry\<lparr>submit_time_ns := now\<rparr> else entry);
          entry = (if last_update_ns entry = 0
                   then entry\<lparr>last_update_ns := submit_time_ns entry\<rparr> else entry)
      in (entry\<lparr>request := (request entry)\<lparr>order_state := TraderPending\<rparr>\<rparr>, w))"

definition submit_internal_order ::
    "OrderEntry \<Rightarrow> TimestampNs \<Rightarrow> world \<Rightarrow> bool \<times> OrderEntry \<times> world" where
  "submit_internal_order entry now w =
     (let (entry, w) = prepare_internal_order entry now (count_received now w);
          (slot, w) =
            (if shm_order_index entry = kInvalidOrderIndex
             then create_internal_order_slot (request entry) UpstreamDequeued AccountInternal now w
             else (Some (shm_order_index entry), w))
      in case slot of
           None \<Rightarrow> (False, entry, raise_error D_order OrderPoolFull now (count_rejected w))
         | Some index \<Rightarrow>
             let entry = entry\<lparr>shm_order_index := index\<rparr>;
                 (added, w) = on_book (add_order entry now) now w
             in if \<not> added
                then let w = snd (on_pool (orders_shm_update_stage index QueuePushFailed now) w)
                     in (False, entry, raise_error D_order OrderBookFull now (count_rejected w))
                else let (ok, w) = send_and_mark (internal_order_id (request entry)) index now w
                     in (ok, entry, w))"

definition reset_router_stats :: "world \<Rightarrow> world" where
  "reset_router_stats w = w\<lparr>w_router := router_stats_zero\<rparr>"

section \<open>Frames\<close>

lemma raise_error_sel [frame_simps]:
  "w_book (raise_error d c now w) = w_book w"
  "w_downstream (raise_error d c now w) = w_downstream w"
  "w_orders (raise_error d c now w) = w_orders w"
  "w_upstream (raise_error d c now w) = w_upstream w"
  "w_router (raise_error d c now w) = w_router w"
  "w_callback (raise_error d c now w) = w_callback w"
  by (simp_all add: raise_error_def)

lemma on_stats_sel [frame_simps]:
  "w_book (on_stats f w) = w_book w" "w_downstream (on_stats f w) = w_downstream w"
  "w_orders (on_stats f w) = w_orders w" "w_upstream (on_stats f w) = w_upstream w"
  "w_router (on_stats f w) = f (w_router w)" "w_callback (on_stats f w) = w_callback w"
  "w_errors (on_stats f w) = w_errors w"
  by (simp_all add: on_stats_def)

lemma on_pool_sel [frame_simps]:
  "w_book (snd (on_pool f w)) = w_book w"
  "w_downstream (snd (on_pool f w)) = w_downstream w"
  "w_upstream (snd (on_pool f w)) = w_upstream w"
  "w_router (snd (on_pool f w)) = w_router w"
  "w_callback (snd (on_pool f w)) = w_callback w"
  "w_errors (snd (on_pool f w)) = w_errors w"
  "w_orders (snd (on_pool f w)) = map_option (\<lambda>shm. snd (f shm)) (w_orders w)"
  by (auto simp: on_pool_def split: option.splits prod.splits)

lemma fst_on_pool: "fst (on_pool f w) = (case w_orders w of None \<Rightarrow> False | Some shm \<Rightarrow> fst (f shm))"
  by (auto simp: on_pool_def split: option.splits prod.splits)

lemma changed_sel [frame_simps]:
  "w_book (on_order_book_changed e ev now w) = w_book w"
  "w_downstream (on_order_book_changed e ev now w) = w_downstream w"
  "w_upstream (on_order_book_changed e ev now w) = w_upstream w"
  "w_router (on_order_book_changed e ev now w) = w_router w"
  "w_callback (on_order_book_changed e ev now w) = w_callback w"
  by (auto simp: on_order_book_changed_def Let_def case_prod_beta frame_simps)

lemma effect_sel [frame_simps]:
  "w_book (apply_effect now fx w) = w_book w"
  "w_downstream (apply_effect now fx w) = w_downstream w"
  "w_upstream (apply_effect now fx w) = w_upstream w"
  "w_router (apply_effect now fx w) = w_router w"
  "w_callback (apply_effect now fx w) = w_callback w"
  by (cases fx; simp add: frame_simps)+

lemma effects_sel [frame_simps]:
  "w_book (fold (apply_effect now) fx w) = w_book w"
  "w_downstream (fold (apply_effect now) fx w) = w_downstream w"
  "w_upstream (fold (apply_effect now) fx w) = w_upstream w"
  "w_router (fold (apply_effect now) fx w) = w_router w"
  "w_callback (fold (apply_effect now) fx w) = w_callback w"
  by (induction fx arbitrary: w) (auto simp: frame_simps)

lemma on_book_sel [frame_simps]:
  "w_book (snd (on_book f now w)) = fst (snd (f (w_book w)))"
  "w_downstream (snd (on_book f now w)) = w_downstream w"
  "w_upstream (snd (on_book f now w)) = w_upstream w"
  "w_router (snd (on_book f now w)) = w_router w"
  "w_callback (snd (on_book f now w)) = w_callback w"
  "fst (on_book f now w) = fst (f (w_book w))"
  by (auto simp: on_book_def case_prod_beta frame_simps)

section \<open>Handing an order to the downstream queue\<close>

lemma send_to_downstream_queue:
  assumes "w_downstream w = Some q" "q_ok 18 q" "w_orders w \<noteq> None"
    and "send_to_downstream i now w = (pushed, w')"
  shows "pushed = (length (q_list 18 q) < 262143)"
    "\<exists>q'. w_downstream w' = Some q' \<and> q_ok 18 q'
      \<and> q_list 18 q' = q_list 18 q @ (if pushed then [i] else [])"
    "w_book w' = w_book w" "w_router w' = w_router w" "w_callback w' = w_callback w"
proof -
  obtain r q' where p: "try_push kQueueCapacity i q = (r, q')" by (cases "try_push kQueueCapacity i q")
  have w': "w' = snd (on_pool (orders_shm_update_stage i
      (if pushed then DownstreamQueued else QueuePushFailed) now) (w\<lparr>w_downstream := Some q'\<rparr>))"
    and r: "pushed = r"
    using assms(1,3,4) p by (auto simp: send_to_downstream_def Let_def case_prod_beta)
  show "pushed = (length (q_list 18 q) < 262143)" "\<exists>q'. w_downstream w' = Some q' \<and> q_ok 18 q'
      \<and> q_list 18 q' = q_list 18 q @ (if pushed then [i] else [])"
    "w_book w' = w_book w" "w_router w' = w_router w" "w_callback w' = w_callback w"
    using shm_queue.push_law [OF assms(2) p] unfolding w' r by (auto simp: frame_simps)
qed

lemma update_state_no_parent:
  assumes "child_to_parent b a = None" "id_to_index b a \<noteq> None"
  shows "map_option (\<lambda>e. order_state (request e)) (find_order a (fst (snd (update_state a st now b)))) = Some st"
  using assms
  by (auto simp: update_state_def refresh_parent_of_def Let_def modify_order_def find_order_def)

text \<open>
  C20: a routed order is handed over or reported, never both nor neither.  For an order of the
  book that has a pool slot and no parent, \<open>route_order\<close> succeeds exactly if the downstream
  queue has room.  Then the order's slot index is the new last element of the queue, the order
  is marked submitted and counted as sent; otherwise the queue is as before, the order is in
  error and counted as rejected for a full queue.
\<close>

theorem route_order_outcome:
  assumes "order_type (request e) \<noteq> Cancel" and "shm_order_index e \<noteq> kInvalidOrderIndex"
    and "w_downstream w = Some q" and "q_ok 18 q" and "w_orders w \<noteq> None"
    and "id_to_index (w_book w) (internal_order_id (request e)) \<noteq> None"
    and "child_to_parent (w_book w) (internal_order_id (request e)) = None"
    and "route_order e now w = (ok, w')"
  shows "ok = (length (q_list 18 q) < 262143)
    \<and> (\<exists>q'. w_downstream w' = Some q' \<and> q_ok 18 q'
         \<and> q_list 18 q' = q_list 18 q @ (if ok then [shm_order_index e] else []))
    \<and> map_option (\<lambda>e. order_state (request e)) (find_order (internal_order_id (request e)) (w_book w'))
        = Some (if ok then TraderSubmitted else TraderError)
    \<and> orders_received (w_router w') = orders_received (w_router w) + 1
    \<and> orders_sent (w_router w') = orders_sent (w_router w) + (if ok then 1 else 0)
    \<and> orders_rejected (w_router w') = orders_rejected (w_router w) + (if ok then 0 else 1)
    \<and> queue_full_count (w_router w') = queue_full_count (w_router w) + (if ok then 0 else 1)"
proof -
  let ?id = "internal_order_id (request e)" and ?i = "shm_order_index e"
  let ?w = "count_received now w"
  obtain pushed w1 where s: "send_to_downstream ?i now ?w = (pushed, w1)" by (cases "send_to_downstream ?i now ?w")
  have pre: "w_downstream ?w = Some q" "w_orders ?w \<noteq> None" using assms(3,5) by (simp_all add: frame_simps)
  note q = send_to_downstream_queue [OF pre(1) assms(4) pre(2) s]
  have b: "w_book w1 = w_book w" using q(3) by (simp add: frame_simps)
  have st: "map_option (\<lambda>e. order_state (request e)) (find_order ?id (fst (snd (update_state ?id x now (w_book w))))) = Some x" for x
    using assms(6,7) by (intro update_state_no_parent)
  have r: "route_order e now w = send_and_mark ?id ?i now ?w"
    using assms(1,2) by (simp add: route_order_def Let_def)
  show ?thesis
  proof (cases pushed)
    case True
    then have "ok" "w' = snd (on_book (update_state ?id TraderSubmitted now) now (count_sent w1))"
      using assms(8) unfolding r by (simp_all add: send_and_mark_def s)
    with q True st show ?thesis by (simp add: frame_simps b)
  next
    case False
    then have "\<not> ok" "w' = raise_error D_order ErrQueuePushFailed now
        (snd (on_book (update_state ?id TraderError now) now (count_queue_full w1)))"
      using assms(8) unfolding r by (simp_all add: send_and_mark_def s Let_def)
    with q False st show ?thesis by (simp add: frame_simps b)
  qed
qed

definition route_example :: world where
  "route_example =
     \<lparr>w_book = fst (snd (add_order ((order_example 7 100)\<lparr>shm_order_index := 0\<rparr>) 5 (OrderBook_new 2))),
      w_downstream = Some \<lparr>q_head = 0, q_tail = 0, q_buffer = (\<lambda>_. 0)\<rparr>,
      w_orders = Some (orders_shm_new 4), w_upstream = None,
      w_errors = error_state_init, w_router = router_stats_zero, w_callback = True\<rparr>"

lemma route_order_outcome_witness:
  "\<exists>w' q'. route_order ((order_example 7 100)\<lparr>shm_order_index := 0\<rparr>) 6 route_example = (True, w')
     \<and> w_downstream w' = Some q' \<and> q_list 18 q' = [0]"
proof -
  let ?e = "(order_example 7 100)\<lparr>shm_order_index := 0\<rparr>"
  let ?q = "\<lparr>q_head = 0, q_tail = 0, q_buffer = (\<lambda>_. 0 :: u32)\<rparr>"
  have q: "q_ok 18 ?q" "q_list 18 ?q = []" using queue_init_list [of 18 ?q] by (simp_all add: queue_init_def)
  have h: "order_type (request ?e) \<noteq> Cancel" "shm_order_index ?e \<noteq> kInvalidOrderIndex"
    "w_downstream route_example = Some ?q" "w_orders route_example \<noteq> None"
    by (simp_all add: order_example_def kInvalidOrderIndex_def route_example_def)
  have i: "id_to_index (w_book route_example) (internal_order_id (request ?e)) \<noteq> None"
    "child_to_parent (w_book route_example) (internal_order_id (request ?e)) = None" by code_simp+
  obtain ok w' where r: "route_order ?e 6 route_example = (ok, w')" by (cases "route_order ?e 6 route_example")
  from route_order_outcome [OF h(1-3) q(1) h(4) i r] q(2) show ?thesis by (auto simp: r)
qed

section \<open>A cancel under an id the book already holds\<close>

lemma add_order_duplicate:
  assumes "internal_order_id (request e) \<in> get_active_order_ids b" "internal_order_id (request e) \<noteq> 0"
  shows "add_order e now b = (False, b, [Raise D_order DuplicateOrder])"
  using assms by (auto simp: add_order_def get_active_order_ids_def Let_def)

lemma init_cancel_id [simp]:
  "internal_order_id (make_cancel_request c t i) = c"
  "order_type (make_cancel_request c t i) = Cancel"
  "orig_internal_order_id (make_cancel_request c t i) = i"
  by (simp_all add: make_cancel_request_def init_cancel_def)

lemma create_slot_sel [frame_simps]:
  "w_book (snd (create_internal_order_slot r st src now w)) = w_book w"
  "w_downstream (snd (create_internal_order_slot r st src now w)) = w_downstream w"
  "w_upstream (snd (create_internal_order_slot r st src now w)) = w_upstream w"
  "w_router (snd (create_internal_order_slot r st src now w)) = w_router w"
  "w_callback (snd (create_internal_order_slot r st src now w)) = w_callback w"
  by (auto simp: create_internal_order_slot_def case_prod_beta split: option.splits)

lemma submit_cancel_duplicate:
  assumes "internal_order_id r \<in> get_active_order_ids (w_book w)" "internal_order_id r \<noteq> 0"
  shows "fst (submit_cancel r strat split p now w) = False"
    "w_book (snd (submit_cancel r strat split p now w)) = w_book w"
    "w_downstream (snd (submit_cancel r strat split p now w)) = w_downstream w"
proof (atomize (full))
  obtain s w1 where c: "create_internal_order_slot r UpstreamDequeued AccountInternal now w = (s, w1)"
    by (cases "create_internal_order_slot r UpstreamDequeued AccountInternal now w")
  then have w1: "w_book w1 = w_book w" "w_downstream w1 = w_downstream w"
    using create_slot_sel(1,2) [of r UpstreamDequeued AccountInternal now w] by simp_all
  show "fst (submit_cancel r strat split p now w) = False
    \<and> w_book (snd (submit_cancel r strat split p now w)) = w_book w
    \<and> w_downstream (snd (submit_cancel r strat split p now w)) = w_downstream w"
  proof (cases s)
    case None
    then show ?thesis by (simp add: submit_cancel_def c w1 frame_simps)
  next
    case (Some i)
    then show ?thesis
      using assms w1
      by (simp add: submit_cancel_def c Let_def case_prod_beta frame_simps add_order_duplicate)
  qed
qed

text \<open>
  A cancel whose id is already in the book is never sent.  When \<open>route_cancel\<close> is asked
  to use an id that a live order holds, and the original has no children, nothing is pushed
  downstream, the book stays as it is and the answer is false.
\<close>

theorem route_cancel_duplicate_id:
  assumes "cancel_id \<in> get_active_order_ids (w_book w)" and "cancel_id \<noteq> 0"
    and "get_children orig_id (w_book w) = []"
    and "route_cancel orig_id cancel_id time now w = (ok, w')"
  shows "\<not> ok \<and> w_downstream w' = w_downstream w \<and> w_book w' = w_book w"
proof -
  let ?w = "count_received now w"
  have "route_cancel orig_id cancel_id time now w
      = submit_cancel (make_cancel_request cancel_id time orig_id) 0 False 0 now ?w"
    using assms(3) by (simp add: route_cancel_def Let_def frame_simps)
  with submit_cancel_duplicate [of "make_cancel_request cancel_id time orig_id" ?w 0 False 0 now] assms(1,2,4)
  show ?thesis by (simp add: frame_simps)
qed

end
