(* ===== verification/World_Invariant.thy ===== *)
theory World_Invariant
  imports Order_Router
begin

text \<open>
  What the router and, later, the execution engine and the event loop may rely on to keep a
  property of the world: a locale whose laws name the elementary actions those components are
  built from; \<open>funds_ok\<close> says what the fresh orders may bring as reserved funds.  An invariant is proved for these actions once and then holds after every
  routing, cancelling, submission, session tick and handler; \<open>Order_Mirror\<close>,
  \<open>Execution_Invariant\<close> and \<open>Reservations\<close> interpret it.
\<close>

locale world_invariant =
  fixes P :: "world \<Rightarrow> bool" and funds_ok :: "DValue \<Rightarrow> bool"
  assumes funds_ok_0: "funds_ok 0"
    and keeps_error: "P w \<Longrightarrow> P (raise_error d c now w)"
    and keeps_stats: "P w \<Longrightarrow> P (on_stats f w)"
    and keeps_downstream: "P w \<Longrightarrow> P (w\<lparr>w_downstream := q\<rparr>)"
    and keeps_alloc: "P w \<Longrightarrow> P (snd (allocate_internal_order_id w))"
    and keeps_stage: "P w \<Longrightarrow> P (snd (on_pool (orders_shm_update_stage i st now) w))"
    and keeps_slot: "P w \<Longrightarrow> P (snd (create_internal_order_slot r st src now w))"
    and keeps_add: "P w \<Longrightarrow> create_internal_order_slot r st src now w = (Some i, w') \<Longrightarrow>
      shm_order_index e = i \<Longrightarrow> funds_ok (fund_frozen e) \<Longrightarrow> P (snd (on_book (add_order e now) now w'))"
    and keeps_state: "P w \<Longrightarrow> P (snd (on_book (update_state a ost now) now w))"
    and keeps_mark: "P w \<Longrightarrow> P (snd (on_book (mark_managed_parent a) now w))"
    and keeps_sync: "P w \<Longrightarrow> P (snd (on_book (sync_managed_parent_view a view ost now) now w))"
begin

lemma keeps_send_to_downstream: "P w \<Longrightarrow> P (snd (send_to_downstream i now w))"
  by (auto simp: send_to_downstream_def Let_def case_prod_beta split: option.splits
      intro: keeps_error keeps_stage keeps_downstream)

lemma keeps_send_and_mark: "P w \<Longrightarrow> P (snd (send_and_mark a i now w))"
  by (auto simp: send_and_mark_def Let_def case_prod_beta
      intro: keeps_error keeps_state keeps_stats keeps_send_to_downstream)

lemma keeps_submit_cancel:
  assumes "P w"
  shows "P (snd (submit_cancel r strat split p now w))"
proof (cases "create_internal_order_slot r UpstreamDequeued AccountInternal now w")
  case (Pair slot w1)
  have w1: "P w1" using keeps_slot [OF assms, of r UpstreamDequeued AccountInternal now] Pair by simp
  show ?thesis
  proof (cases slot)
    case None
    with w1 Pair show ?thesis by (simp add: submit_cancel_def keeps_error keeps_stats)
  next
    case (Some i)
    define e where "e = OrderEntry_default\<lparr>request := r, submit_time_ns := now,
                last_update_ns := now, strategy_id := strat, risk_result := Pass, retry_count := 0,
                is_split_child := split, parent_order_id := p, shm_order_index := i\<rparr>"
    have "P (snd (on_book (add_order e now) now w1))"
      using keeps_add [OF assms Pair [unfolded Some], of e] by (simp add: e_def OrderEntry_default_def funds_ok_0)
    then show ?thesis
      by (auto simp: submit_cancel_def Pair Some Let_def case_prod_beta e_def [symmetric]
          intro: keeps_error keeps_stats keeps_stage keeps_send_and_mark)
  qed
qed

lemma keeps_cancel_children:
  "P w \<Longrightarrow> P (snd (snd (snd (cancel_children orig c t now ids (s, f, u, w)))))"
proof (induction ids arbitrary: s f u w)
  case (Cons i ids)
  have "P (snd (if u then allocate_internal_order_id w else (c, w)))"
    using Cons.prems keeps_alloc by auto
  note m = keeps_submit_cancel [OF this]
  show ?case
    using Cons.IH [OF Cons.prems] Cons.IH [OF m]
    by (auto simp: case_prod_beta Let_def split: option.splits)
qed simp

lemma keeps_route_cancel:
  assumes "P w"
  shows "P (snd (route_cancel orig c t now w))"
proof -
  have m: "P (count_received now w)" using assms by (rule keeps_stats)
  note mc = keeps_cancel_children [OF m, of orig c t now "get_children orig (w_book (count_received now w))" False False False]
  from m mc show ?thesis
    by (auto simp: route_cancel_def Let_def case_prod_beta intro: keeps_submit_cancel keeps_state)
qed

lemma keeps_route_order: "P w \<Longrightarrow> P (snd (route_order e now w))"
  by (auto simp: route_order_def Let_def case_prod_beta
      intro: keeps_error keeps_stats keeps_route_cancel keeps_state keeps_send_and_mark)

lemma keeps_submit_internal:
  assumes "P w" "shm_order_index e = kInvalidOrderIndex" "funds_ok (fund_frozen e)"
  shows "P (snd (snd (submit_internal_order e now w)))"
proof -
  let ?p = "prepare_internal_order e now (count_received now w)"
  have "P (count_received now w)" using assms(1) by (rule keeps_stats)
  then have mw: "P (snd ?p)" "shm_order_index (fst ?p) = kInvalidOrderIndex" "funds_ok (fund_frozen (fst ?p))"
    using keeps_alloc assms(2,3) by (auto simp: prepare_internal_order_def Let_def case_prod_beta)
  obtain e1 w0 where p: "?p = (e1, w0)" by (cases ?p)
  obtain slot w1 where c: "create_internal_order_slot (request e1) UpstreamDequeued AccountInternal now w0 = (slot, w1)"
    by (cases "create_internal_order_slot (request e1) UpstreamDequeued AccountInternal now w0")
  have w0: "P w0" using mw(1) p by simp
  have w1: "P w1" using keeps_slot [OF w0, of "request e1" UpstreamDequeued AccountInternal now] c by simp
  note eq = submit_internal_order_def [of e now w, unfolded p Let_def prod.case]
  have e1: "shm_order_index e1 = kInvalidOrderIndex" "funds_ok (fund_frozen e1)" using mw(2,3) p by simp_all
  show ?thesis
  proof (cases slot)
    case None
    with w1 show ?thesis by (simp add: eq e1 c keeps_error keeps_stats)
  next
    case (Some i)
    have "P (snd (on_book (add_order (e1\<lparr>shm_order_index := i\<rparr>) now) now w1))"
      using keeps_add [OF w0 c [unfolded Some], of "e1\<lparr>shm_order_index := i\<rparr>"] e1 by simp
    then show ?thesis
      by (auto simp: eq e1 c Some case_prod_beta
          intro: keeps_error keeps_stats keeps_stage keeps_send_and_mark)
  qed
qed

lemma keeps_route_orders: "P w \<Longrightarrow> P (snd (route_orders ps now w))"
proof (induction ps arbitrary: w)
  case (Cons p ps)
  then show ?case
    by (auto simp: Let_def case_prod_beta keeps_route_order split: option.splits)
qed simp

end

end
