(* ===== verification/Order_Mirror.thy ===== *)
theory Order_Mirror
  imports World_Invariant
begin

text \<open>
  The order pool mirrors the order book: with the event loop's change callback installed,
  whatever the router and the book do, the slot of every live order holds that order's
  request.  The proof follows the announcements: every operation of the book announces, last
  for each slot, the state in which it leaves the order of that slot.
\<close>

section \<open>Announcements\<close>

text \<open>What a list of effects leaves in the slot \<open>i\<close>, if it writes it at all.\<close>

definition final_request :: "ob_effect list \<Rightarrow> OrderIndex \<Rightarrow> OrderRequest option" where
  "final_request fx i = fold (\<lambda>f r. case f of
      Notify e event \<Rightarrow> if shm_order_index e = i then Some (request e) else r
    | Raise d c \<Rightarrow> r) fx None"

lemma final_request_append:
  "final_request (fx @ [Notify e event]) i =
     (if shm_order_index e = i then Some (request e) else final_request fx i)"
  "final_request [] i = None"
  "final_request (fx @ [Raise d c]) i = final_request fx i"
  by (simp_all add: final_request_def)

lemma final_request_fold:
  "fold (\<lambda>f r. case f of Notify e event \<Rightarrow> if shm_order_index e = i then Some (request e) else r
    | Raise d c \<Rightarrow> r) fx r0 = (case final_request fx i of None \<Rightarrow> r0 | Some r \<Rightarrow> Some r)"
proof (induction fx rule: rev_induct)
  case (snoc f fx)
  then show ?case by (cases f) (auto simp: final_request_def split: option.splits)
qed (simp add: final_request_def)

lemma final_request_app:
  "final_request (fx @ gx) i = (case final_request gx i of None \<Rightarrow> final_request fx i | Some r \<Rightarrow> Some r)"
  using final_request_fold [of i gx "final_request fx i"] by (simp add: final_request_def)

definition idx_inj :: "OrderBook \<Rightarrow> bool" where
  "idx_inj b \<longleftrightarrow> (\<forall>a a' e e'. find_order a b = Some e \<and> find_order a' b = Some e'
     \<and> shm_order_index e = shm_order_index e' \<and> shm_order_index e \<noteq> kInvalidOrderIndex \<longrightarrow> a = a')"

text \<open>All live orders except those of \<open>X\<close> are either as before or announced as they now are.\<close>

definition announced :: "InternalOrderId set \<Rightarrow> OrderBook \<Rightarrow> OrderBook \<Rightarrow> ob_effect list \<Rightarrow> bool" where
  "announced X b b' fx \<longleftrightarrow> (\<forall>a e'. a \<notin> X \<and> find_order a b' = Some e'
      \<and> shm_order_index e' \<noteq> kInvalidOrderIndex \<longrightarrow>
     final_request fx (shm_order_index e') = Some (request e')
     \<or> final_request fx (shm_order_index e') = None
       \<and> (\<exists>e. find_order a b = Some e \<and> request e = request e'
            \<and> shm_order_index e = shm_order_index e'))"

lemma announcedD:
  "announced X b b' fx \<Longrightarrow> a \<notin> X \<Longrightarrow> find_order a b' = Some e' \<Longrightarrow>
   shm_order_index e' \<noteq> kInvalidOrderIndex \<Longrightarrow>
     final_request fx (shm_order_index e') = Some (request e')
     \<or> final_request fx (shm_order_index e') = None
       \<and> (\<exists>e. find_order a b = Some e \<and> request e = request e'
            \<and> shm_order_index e = shm_order_index e')"
  unfolding announced_def by blast

lemma announced_refl: "announced X b b []"
  by (simp add: announced_def final_request_append)

lemma announced_trans:
  assumes "announced X b b1 fx" "announced {} b1 b2 gx"
  shows "announced X b b2 (fx @ gx)"
  unfolding announced_def
proof (intro allI impI)
  fix a e2
  assume a: "a \<notin> X \<and> find_order a b2 = Some e2 \<and> shm_order_index e2 \<noteq> kInvalidOrderIndex"
  show "final_request (fx @ gx) (shm_order_index e2) = Some (request e2)
     \<or> final_request (fx @ gx) (shm_order_index e2) = None
       \<and> (\<exists>e. find_order a b = Some e \<and> request e = request e2 \<and> shm_order_index e = shm_order_index e2)"
  proof (cases "final_request gx (shm_order_index e2)")
    case (Some r)
    with announcedD [OF assms(2), of a e2] a show ?thesis by (simp add: final_request_app)
  next
    case None
    with announcedD [OF assms(2), of a e2] a obtain e1 where e1: "find_order a b1 = Some e1"
      "request e1 = request e2" "shm_order_index e1 = shm_order_index e2" by auto
    with announcedD [OF assms(1), of a e1] a None show ?thesis by (simp add: final_request_app)
  qed
qed

lemma announce_last:
  assumes "announced {a} b b' fx" "find_order a b' = Some e" "idx_inj b'"
  shows "announced {} b b' (fx @ [Notify e event])"
  unfolding announced_def
proof (intro allI impI)
  fix c e'
  assume c: "c \<notin> {} \<and> find_order c b' = Some e' \<and> shm_order_index e' \<noteq> kInvalidOrderIndex"
  show "final_request (fx @ [Notify e event]) (shm_order_index e') = Some (request e')
     \<or> final_request (fx @ [Notify e event]) (shm_order_index e') = None
       \<and> (\<exists>x. find_order c b = Some x \<and> request x = request e' \<and> shm_order_index x = shm_order_index e')"
  proof (cases "c = a")
    case True
    with c assms(2) show ?thesis by (simp add: final_request_append)
  next
    case False
    then have "shm_order_index e \<noteq> shm_order_index e'"
      using assms(2,3) c unfolding idx_inj_def by metis
    with announcedD [OF assms(1), of c e'] c False show ?thesis by (simp add: final_request_append)
  qed
qed

lemma idx_inj_content:
  assumes "content_change b b'" "idx_inj b"
  shows "idx_inj b'"
proof -
  have k: "shm_order_index (ob_orders b' i) = shm_order_index (ob_orders b i)" for i
    using content_change_sel(11) [OF assms(1)] by (rule entry_key_eqD)
  show ?thesis
    unfolding idx_inj_def
  proof (intro allI impI)
    fix a a' e e'
    assume a: "find_order a b' = Some e \<and> find_order a' b' = Some e'
      \<and> shm_order_index e = shm_order_index e' \<and> shm_order_index e \<noteq> kInvalidOrderIndex"
    then obtain i i' where i: "id_to_index b a = Some i" "e = ob_orders b' i"
      "id_to_index b a' = Some i'" "e' = ob_orders b' i'"
      by (auto simp: find_order_def content_change_sel(1) [OF assms(1)])
    then have "find_order a b = Some (ob_orders b i)" "find_order a' b = Some (ob_orders b i')"
      by (simp_all add: find_order_def)
    with assms(2) a i(2,4) k show "a = a'" unfolding idx_inj_def by metis
  qed
qed

definition slot_inj :: "OrderBook \<Rightarrow> bool" where
  "slot_inj b \<longleftrightarrow> (\<forall>a a' i. id_to_index b a = Some i \<and> id_to_index b a' = Some i \<longrightarrow> a = a')"

lemma book_ok_slot_inj: "book_ok cap b \<Longrightarrow> slot_inj b"
  using slots_ok_inj [of cap b] by (auto simp: book_ok_def slot_inj_def)

lemma find_modify_other:
  assumes "slot_inj b" "c \<noteq> a"
  shows "find_order c (modify_order a f b) = find_order c b"
  using assms unfolding slot_inj_def
  by (cases "id_to_index b a"; cases "id_to_index b c")
    (auto simp: find_order_def modify_order_def)

lemma modify_announced:
  "slot_inj b \<Longrightarrow> announced {a} b (modify_order a f b) []"
  unfolding announced_def final_request_append(2) using find_modify_other [of b _ a f] by auto

lemma announced_same_find:
  assumes "\<And>a. find_order a b1 = find_order a b2"
  shows "announced X b b1 fx \<longleftrightarrow> announced X b b2 fx" "announced X b1 b fx \<longleftrightarrow> announced X b2 b fx"
    "idx_inj b1 \<longleftrightarrow> idx_inj b2"
  using assms by (simp_all add: announced_def idx_inj_def)

lemma refresh_announced:
  assumes "slot_inj b" "idx_inj b"
  shows "announced {} b (fst (refresh_parent_from_children p b)) (snd (refresh_parent_from_children p b))"
proof (cases "\<exists>e. snd (refresh_parent_from_children p b) = [Notify e ParentRefreshed]")
  case True
  then obtain e where fx: "snd (refresh_parent_from_children p b) = [Notify e ParentRefreshed]"
    and b': "fst (refresh_parent_from_children p b) = modify_order p (\<lambda>_. e) b"
    and f: "find_order p b \<noteq> None"
    by (auto simp: refresh_parent_from_children_def Let_def split: option.splits if_splits)
  have "announced {} b (modify_order p (\<lambda>_. e) b) ([] @ [Notify e ParentRefreshed])"
  proof (rule announce_last)
    show "announced {p} b (modify_order p (\<lambda>_. e) b) []" using assms(1) by (rule modify_announced)
    show "find_order p (modify_order p (\<lambda>_. e) b) = Some e" using f by (auto simp: find_modify_order)
    show "idx_inj (modify_order p (\<lambda>_. e) b)"
      using idx_inj_content [OF refresh_parent_content assms(2), of p] by (simp add: b')
  qed
  then show ?thesis by (simp add: fx b')
next
  case False
  then have "fst (refresh_parent_from_children p b) = b
    \<and> (snd (refresh_parent_from_children p b) = [] \<or> snd (refresh_parent_from_children p b) = [Raise D_order OrderInvariantBroken])"
    by (auto simp: refresh_parent_from_children_def Let_def split: option.splits if_splits)
  then show ?thesis
    using final_request_append(3) [of "[]"] by (auto simp: announced_def final_request_append)
qed

lemma refresh_of_announced:
  assumes "slot_inj b" "idx_inj b"
  shows "announced {} b (fst (refresh_parent_of c b)) (snd (refresh_parent_of c b))"
  using refresh_announced [OF assms]
  by (auto simp: refresh_parent_of_def announced_refl split: option.splits)

section \<open>Every operation announces what it changes\<close>

lemma find_by_index: "id_to_index b a = Some i \<Longrightarrow> find_order a b = Some (ob_orders b i)"
  by (simp add: find_order_def)

lemma refresh_of_index:
  "id_to_index b a = Some i \<Longrightarrow> find_order a (fst (refresh_parent_of c b))
     = Some (ob_orders (fst (refresh_parent_of c b)) i)"
  by (simp add: find_order_def content_change_sel [OF refresh_parent_of_content])

text \<open>An operation that rewrites one order, refreshes its parent, and announces the order.\<close>

lemma rewrite_announced:
  assumes "book_ok cap b" "idx_inj b" "id_to_index b a = Some i"
    "\<And>e. entry_key (f e) = entry_key e"
    "\<And>c. find_order c b1 = find_order c (modify_order a f b)" "book_ok cap b1"
    "id_to_index b1 = id_to_index b"
    "fx = snd (refresh_parent_of a b1) @ [Notify (ob_orders (fst (refresh_parent_of a b1)) i) event]"
  shows "announced {} b (fst (refresh_parent_of a b1)) fx" "idx_inj (fst (refresh_parent_of a b1))"
proof -
  have s: "slot_inj b" "slot_inj b1" using assms(1,6) book_ok_slot_inj by blast+
  have c: "content_change b (modify_order a f b)" using assms(4) by (intro modify_order_content)
  have inj1: "idx_inj b1" using idx_inj_content [OF c assms(2)] announced_same_find(3) [OF assms(5)] by simp
  have "announced {a} b b1 []"
    using modify_announced [OF s(1)] announced_same_find(1) assms(5)
    by (simp add: announced_def final_request_append)
  then have an: "announced {a} b (fst (refresh_parent_of a b1)) ([] @ snd (refresh_parent_of a b1))"
    using refresh_of_announced [OF s(2) inj1] by (rule announced_trans)
  show inj: "idx_inj (fst (refresh_parent_of a b1))"
    using refresh_parent_of_content inj1 by (rule idx_inj_content)
  show "announced {} b (fst (refresh_parent_of a b1)) fx"
    using announce_last [OF an _ inj] refresh_of_index [of b1 a i a] assms(3,7,8) by simp
qed

lemma update_state_announced:
  assumes "book_ok cap b" "idx_inj b"
  shows "announced {} b (fst (snd (update_state a st now b))) (snd (snd (update_state a st now b)))"
    "idx_inj (fst (snd (update_state a st now b)))"
proof (atomize (full), cases "id_to_index b a")
  case (Some i)
  let ?f = "\<lambda>e. e\<lparr>request := (request e)\<lparr>order_state := st\<rparr>, last_update_ns := now\<rparr>"
  let ?b0 = "modify_order a ?f b"
  let ?b1 = "if st = TraderError \<and> parent_to_children ?b0 a \<noteq> None \<and> \<not> is_managed_parent a ?b0
     then ?b0\<lparr>split_parent_error_latched := insert a (split_parent_error_latched ?b0)\<rparr> else ?b0"
  have ok0: "book_ok cap ?b0"
    using assms(1) by (intro book_ok_content [OF modify_order_content]) (simp_all add: update_request_key)
  then have ok1: "book_ok cap ?b1" using ok0 book_ok_latch(1) [OF ok0, of a] Some
    by (cases "st = TraderError") (simp_all add: modify_order_sel)
  have f1: "find_order c ?b1 = find_order c ?b0" for c by (simp add: find_order_def)
  have i1: "id_to_index ?b1 = id_to_index b" by (simp add: modify_order_sel)
  have r: "announced {} b (fst (refresh_parent_of a ?b1)) (snd (refresh_parent_of a ?b1)
      @ [Notify (ob_orders (fst (refresh_parent_of a ?b1)) i) StatusUpdated])" "idx_inj (fst (refresh_parent_of a ?b1))"
    by (rule rewrite_announced [OF assms Some _ f1 ok1 i1 refl], simp add: update_request_key)+
  have e: "update_state a st now b = (True, fst (refresh_parent_of a ?b1), snd (refresh_parent_of a ?b1)
      @ [Notify (ob_orders (fst (refresh_parent_of a ?b1)) i) StatusUpdated])"
    using Some by (simp add: update_state_def Let_def case_prod_beta)
  show "announced {} b (fst (snd (update_state a st now b))) (snd (snd (update_state a st now b))) \<and>
    idx_inj (fst (snd (update_state a st now b)))"
    unfolding e using r by simp
next
  case None
  with assms(2) final_request_append(3) [of "[]"] show "announced {} b (fst (snd (update_state a st now b))) (snd (snd (update_state a st now b))) \<and>
    idx_inj (fst (snd (update_state a st now b)))"
    by (auto simp: update_state_def announced_def final_request_append)
qed

lemma update_trade_announced:
  assumes "book_ok cap b" "idx_inj b"
  shows "announced {} b (fst (snd (update_trade a vol px val fee now b))) (snd (snd (update_trade a vol px val fee now b)))"
    "idx_inj (fst (snd (update_trade a vol px val fee now b)))"
proof (atomize (full), cases "id_to_index b a")
  case (Some i)
  let ?f = "\<lambda>e. e\<lparr>request := trade_request vol px val fee (request e), last_update_ns := now\<rparr>"
  let ?b1 = "modify_order a ?f b"
  have ok1: "book_ok cap ?b1"
    using assms(1) by (intro book_ok_content [OF modify_order_content]) (simp_all add: update_request_key)
  have i1: "id_to_index ?b1 = id_to_index b" by (simp add: modify_order_sel)
  have r: "announced {} b (fst (refresh_parent_of a ?b1)) (snd (refresh_parent_of a ?b1)
      @ [Notify (ob_orders (fst (refresh_parent_of a ?b1)) i) TradeUpdated])" "idx_inj (fst (refresh_parent_of a ?b1))"
    by (rule rewrite_announced [OF assms Some _ refl ok1 i1 refl], simp add: update_request_key)+
  have e: "update_trade a vol px val fee now b = (True, fst (refresh_parent_of a ?b1), snd (refresh_parent_of a ?b1)
      @ [Notify (ob_orders (fst (refresh_parent_of a ?b1)) i) TradeUpdated])"
    using Some by (simp add: update_trade_def Let_def case_prod_beta)
  show "announced {} b (fst (snd (update_trade a vol px val fee now b))) (snd (snd (update_trade a vol px val fee now b))) \<and>
    idx_inj (fst (snd (update_trade a vol px val fee now b)))"
    unfolding e using r by simp
next
  case None
  with assms(2) final_request_append(3) [of "[]"] show "announced {} b (fst (snd (update_trade a vol px val fee now b))) (snd (snd (update_trade a vol px val fee now b))) \<and>
    idx_inj (fst (snd (update_trade a vol px val fee now b)))"
    by (auto simp: update_trade_def announced_def final_request_append)
qed

text \<open>An order comes with a slot of its own.\<close>

definition fresh_slot :: "OrderEntry \<Rightarrow> OrderBook \<Rightarrow> bool" where
  "fresh_slot entry b \<longleftrightarrow> shm_order_index entry = kInvalidOrderIndex
     \<or> (\<forall>a e. find_order a b = Some e \<longrightarrow> shm_order_index e \<noteq> shm_order_index entry)"

lemma add_order_announced:
  assumes "book_ok cap b" "idx_inj b" "fresh_slot entry b"
  shows "announced {} b (fst (snd (add_order entry now b))) (snd (snd (add_order entry now b)))"
    "idx_inj (fst (snd (add_order entry now b)))"
proof (atomize (full))
  let ?id = "internal_order_id (request entry)"
  have s: "slots_ok cap b" using assms(1) by (simp add: book_ok_def)
  show "announced {} b (fst (snd (add_order entry now b))) (snd (snd (add_order entry now b))) \<and>
    idx_inj (fst (snd (add_order entry now b)))"
  proof (cases "?id \<noteq> 0 \<and> id_to_index b ?id = None \<and> free_slots b \<noteq> []")
    case False
    then have "\<exists>d c. add_order entry now b = (False, b, [Raise d c])"
      by (auto simp: add_order_def Let_def split: list.splits)
    then show ?thesis
      using assms(2) final_request_append(3) [of "[]"] by (auto simp: announced_def final_request_append)
  next
    case True
    then obtain index free where free: "free_slots b = index # free" by (cases "free_slots b") auto
    let ?e = "stored_entry now entry"
    let ?b1 = "insert_indices index free ?e b"
    define p where "p = (if is_split_child entry \<and> parent_order_id entry \<noteq> 0
       then refresh_parent_of ?id ?b1 else (?b1, []))"
    have eq: "add_order entry now b = (True, (fst p)\<lparr>ob_active_count := ob_active_count (fst p) + 1\<rparr>,
        snd p @ [Notify (ob_orders (fst p) index) Added])"
      using True add_order_eq [OF _ _ free, of entry now, unfolded Let_def case_prod_beta, folded p_def] by simp
    have f1: "find_order c ?b1 = (if c = ?id then Some ?e else find_order c b)" for c
      using insert_find_other [OF s free, of c ?e] by (auto simp: find_insert_indices)
    have inj1: "idx_inj ?b1"
      unfolding idx_inj_def
    proof (intro allI impI)
      fix a a' e e'
      assume h: "find_order a ?b1 = Some e \<and> find_order a' ?b1 = Some e'
        \<and> shm_order_index e = shm_order_index e' \<and> shm_order_index e \<noteq> kInvalidOrderIndex"
      have new: "shm_order_index x \<noteq> shm_order_index entry" if "find_order y b = Some x"
        "shm_order_index entry \<noteq> kInvalidOrderIndex" for x y
        using assms(3) that unfolding fresh_slot_def by blast
      consider "a = ?id" "a' = ?id" | "a = ?id" "a' \<noteq> ?id" | "a \<noteq> ?id" "a' = ?id"
        | "a \<noteq> ?id" "a' \<noteq> ?id" by blast
      then show "a = a'"
      proof cases
        case 2
        with h new [of a' e'] show ?thesis by (auto simp: f1)
      next
        case 3
        with h new [of a e] show ?thesis by (auto simp: f1)
      next
        case 4
        then have "find_order a b = Some e" "find_order a' b = Some e'" using h by (auto simp: f1)
        with h assms(2) show ?thesis unfolding idx_inj_def by blast
      qed simp
    qed
    have c: "content_change ?b1 (fst p)" by (simp add: p_def refresh_parent_of_content)
    have i1: "id_to_index ?b1 ?id = Some index" by (simp add: insert_indices_sel)
    have inj: "slot_inj ?b1"
      unfolding slot_inj_def insert_indices_sel
    proof (intro allI impI)
      fix c c' j
      have "id_to_index b x = Some j \<Longrightarrow> j \<noteq> index" for x
        using s free by (auto simp: slots_ok_def)
      then show "((id_to_index b)(internal_order_id (request ?e) \<mapsto> index)) c = Some j
          \<and> ((id_to_index b)(internal_order_id (request ?e) \<mapsto> index)) c' = Some j \<Longrightarrow> c = c'"
        using slots_ok_inj [OF s] by (auto split: if_splits)
    qed
    have "announced {?id} b ?b1 []" by (auto simp: announced_def final_request_append f1)
    moreover have "announced {} ?b1 (fst p) (snd p)"
      using refresh_of_announced [OF inj inj1] by (simp add: p_def announced_refl)
    ultimately have "announced {?id} b (fst p) ([] @ snd p)" by (rule announced_trans)
    moreover have "idx_inj (fst p)" using c inj1 by (rule idx_inj_content)
    moreover have "find_order ?id (fst p) = Some (ob_orders (fst p) index)"
      using i1 content_change_sel(1) [OF c] by (simp add: find_order_def)
    ultimately have "announced {} b (fst p) (snd p @ [Notify (ob_orders (fst p) index) Added])"
      using announce_last [of ?id b "fst p" "snd p"] by simp
    moreover have cnt: "find_order c (fst p) = find_order c ((fst p)\<lparr>ob_active_count := n\<rparr>)" for c n
      by (simp add: find_order_def)
    ultimately show ?thesis
      unfolding eq fst_conv snd_conv
      using announced_same_find(1) [OF cnt] announced_same_find(3) [OF cnt] \<open>idx_inj (fst p)\<close> by blast
  qed
qed

lemma find_remove_indices:
  assumes "slot_inj b" "id_to_index b a = Some i"
  shows "find_order c (remove_indices a i b) = (if c = a then None else find_order c b)"
proof -
  have "id_to_index b c = Some j \<Longrightarrow> c \<noteq> a \<Longrightarrow> j \<noteq> i" for j
    using assms unfolding slot_inj_def by blast
  then show ?thesis
    by (cases "id_to_index b c") (auto simp: find_order_def remove_indices_def Let_def)
qed

lemma archive_announced:
  assumes "book_ok cap b" "idx_inj b"
  shows "announced {} b (fst (snd (archive_order a b))) (snd (snd (archive_order a b)))"
    "idx_inj (fst (snd (archive_order a b)))"
proof (atomize (full), cases "id_to_index b a")
  case (Some i)
  note f = find_remove_indices [OF book_ok_slot_inj [OF assms(1)] Some]
  have inj: "idx_inj (remove_indices a i b)"
    using assms(2) unfolding idx_inj_def f by (metis option.distinct(1))
  have "announced {} b (remove_indices a i b) [Notify (ob_orders b i) Archived]"
    unfolding announced_def
  proof (intro allI impI)
    fix c e'
    assume c: "c \<notin> {} \<and> find_order c (remove_indices a i b) = Some e' \<and> shm_order_index e' \<noteq> kInvalidOrderIndex"
    then have "c \<noteq> a" "find_order c b = Some e'" by (auto simp: f split: if_splits)
    moreover from this have "shm_order_index (ob_orders b i) \<noteq> shm_order_index e'"
      using assms(2) find_by_index [OF Some] c unfolding idx_inj_def by metis
    ultimately show "final_request [Notify (ob_orders b i) Archived] (shm_order_index e') = Some (request e') \<or>
       final_request [Notify (ob_orders b i) Archived] (shm_order_index e') = None \<and>
       (\<exists>e. find_order c b = Some e \<and> request e = request e' \<and> shm_order_index e = shm_order_index e')"
      by (simp add: final_request_def)
  qed
  with inj Some show "announced {} b (fst (snd (archive_order a b))) (snd (snd (archive_order a b))) \<and>
    idx_inj (fst (snd (archive_order a b)))" by (simp add: archive_order_eq)
next
  case None
  with assms(2) final_request_append(3) [of "[]"] show "announced {} b (fst (snd (archive_order a b))) (snd (snd (archive_order a b))) \<and>
    idx_inj (fst (snd (archive_order a b)))"
    by (auto simp: archive_order_def announced_def final_request_append)
qed

lemma mark_announced:
  assumes "idx_inj b"
  shows "announced {} b (fst (snd (mark_managed_parent a b))) (snd (snd (mark_managed_parent a b)))"
    "idx_inj (fst (snd (mark_managed_parent a b)))"
proof (atomize (full), cases "find_order a b")
  case None
  with assms final_request_append(3) [of "[]"] show "announced {} b (fst (snd (mark_managed_parent a b))) (snd (snd (mark_managed_parent a b)))
    \<and> idx_inj (fst (snd (mark_managed_parent a b)))"
    by (auto simp: mark_managed_parent_def announced_def final_request_append)
next
  case (Some e)
  have m: "find_order c b = find_order c (b\<lparr>managed_parent_ids := X\<rparr>)" for c X by (simp add: find_order_def)
  from Some assms show "announced {} b (fst (snd (mark_managed_parent a b))) (snd (snd (mark_managed_parent a b)))
    \<and> idx_inj (fst (snd (mark_managed_parent a b)))"
    using announced_same_find(1) [OF m, of "{}" b "[]"] announced_same_find(3) [OF m] announced_refl [of "{}" b]
    by (simp add: mark_managed_parent_def)
qed

lemma sync_announced:
  assumes "book_ok cap b" "idx_inj b"
  shows "announced {} b (fst (snd (sync_managed_parent_view a view st now b))) (snd (snd (sync_managed_parent_view a view st now b)))"
    "idx_inj (fst (snd (sync_managed_parent_view a view st now b)))"
proof (atomize (full), cases "find_order a b")
  case None
  with assms final_request_append(3) [of "[]"] show "announced {} b (fst (snd (sync_managed_parent_view a view st now b)))
      (snd (snd (sync_managed_parent_view a view st now b)))
    \<and> idx_inj (fst (snd (sync_managed_parent_view a view st now b)))"
    by (auto simp: sync_managed_parent_view_def announced_def final_request_append)
next
  case (Some e)
  define b1 where "b1 = b\<lparr>managed_parent_ids := insert a (managed_parent_ids b)\<rparr>"
  define e' where "e' = e\<lparr>request := apply_view view st (request e), last_update_ns := now\<rparr>"
  have m: "find_order c b = find_order c b1" for c by (simp add: find_order_def b1_def)
  have s1: "slot_inj b1" using book_ok_slot_inj [OF assms(1)] by (simp add: slot_inj_def b1_def)
  have i1: "idx_inj b1" using announced_same_find(3) [OF m] assms(2) by simp
  have c: "content_change b1 (modify_order a (\<lambda>_. e') b1)"
    by (rule modify_order_content) (use Some m in \<open>simp add: e'_def update_request_key\<close>)
  have inj: "idx_inj (modify_order a (\<lambda>_. e') b1)" using c i1 by (rule idx_inj_content)
  have "announced {} b1 (modify_order a (\<lambda>_. e') b1) ([] @ [Notify e' ParentRefreshed])"
    using modify_announced [OF s1] by (rule announce_last) (use Some m inj in \<open>simp_all add: find_modify_order\<close>)
  then have "announced {} b (modify_order a (\<lambda>_. e') b1) [Notify e' ParentRefreshed]"
    using announced_same_find(2) [OF m] by simp
  moreover have "announced {} b b1 []"
    using announced_same_find(1) [OF m, of "{}" b "[]"] announced_refl [of "{}" b] by simp
  ultimately show "announced {} b (fst (snd (sync_managed_parent_view a view st now b)))
      (snd (snd (sync_managed_parent_view a view st now b)))
    \<and> idx_inj (fst (snd (sync_managed_parent_view a view st now b)))"
    using Some inj i1 by (simp add: sync_managed_parent_view_def Let_def b1_def e'_def)
qed

section \<open>What the announcements do to the pool\<close>

definition slot_written :: "orders_shm_layout \<Rightarrow> orders_shm_layout \<Rightarrow> (OrderIndex \<Rightarrow> OrderRequest option) \<Rightarrow> bool" where
  "slot_written shm shm' final \<longleftrightarrow> (pool_ok shm \<longrightarrow> pool_ok shm')
     \<and> os_next_index shm' = os_next_index shm \<and> os_capacity shm' = os_capacity shm
     \<and> (\<forall>i. orders_shm_index_exists shm i \<longrightarrow>
          slot_request (os_slots shm' i)
            = (case final i of None \<Rightarrow> slot_request (os_slots shm i) | Some r \<Rightarrow> r))"

lemma mutate_slot_written:
  assumes "\<And>s. slot_request (f s) = (case upd of None \<Rightarrow> slot_request s | Some r \<Rightarrow> r)"
  shows "slot_written shm (snd (orders_shm_mutate_slot f now i shm)) (\<lambda>j. if j = i then upd else None)"
proof -
  have "slot_request (os_slots (snd (orders_shm_mutate_slot f now i shm)) i)
      = (case upd of None \<Rightarrow> slot_request (os_slots shm i) | Some r \<Rightarrow> r)" if "orders_shm_index_exists shm i"
    using that assms by (cases upd) (simp_all add: orders_shm_mutate_slot_def Let_def)
  then show ?thesis
    using mutate_other_slot [of _ i f now shm]
    by (auto simp: slot_written_def pool_ok_mutate mutate_header split: option.splits)
qed

lemma effect_slot_written:
  assumes "w_orders w = Some shm" "w_callback w"
  shows "\<exists>shm'. w_orders (apply_effect now f w) = Some shm' \<and> slot_written shm shm' (final_request [f])"
proof (cases f)
  case (Raise d c)
  with assms show ?thesis by (auto simp: frame_simps slot_written_def final_request_def)
next
  case (Notify e ev)
  show ?thesis
  proof (cases "shm_order_index e = kInvalidOrderIndex")
    case True
    with Notify assms show ?thesis
      by (auto simp: on_order_book_changed_def slot_written_def final_request_def orders_shm_index_exists_def)
  next
    case False
    obtain g where g: "w_orders (on_order_book_changed e ev now w)
        = Some (snd (orders_shm_mutate_slot g now (shm_order_index e) shm))"
      "\<And>s. slot_request (g s) = (case Some (request e) of None \<Rightarrow> slot_request s | Some r \<Rightarrow> r)"
    proof -
      let ?wr = "\<lambda>st. orders_shm_write_order (shm_order_index e) (request e) st AccountInternal now"
      let ?g1 = "\<lambda>st slot. slot\<lparr>slot_request := request e, slot_stage := st, slot_source := AccountInternal,
                    slot_last_update_ns := now\<rparr>"
      let ?g2 = "\<lambda>slot. slot\<lparr>slot_request := request e, slot_last_update_ns := now\<rparr>"
      have "w_orders (on_order_book_changed e ev now w) \<in>
          {Some (snd (orders_shm_mutate_slot (?g1 OrderSlotState.Terminal) now (shm_order_index e) shm)),
           Some (snd (orders_shm_mutate_slot (?g1 RiskRejected) now (shm_order_index e) shm)),
           Some (snd (orders_shm_mutate_slot ?g2 now (shm_order_index e) shm))}"
        using False assms
        by (simp add: on_order_book_changed_def Let_def case_prod_beta frame_simps
            orders_shm_write_order_def orders_shm_sync_order_def)
      then consider "w_orders (on_order_book_changed e ev now w)
            = Some (snd (orders_shm_mutate_slot (?g1 OrderSlotState.Terminal) now (shm_order_index e) shm))"
        | "w_orders (on_order_book_changed e ev now w)
            = Some (snd (orders_shm_mutate_slot (?g1 RiskRejected) now (shm_order_index e) shm))"
        | "w_orders (on_order_book_changed e ev now w)
            = Some (snd (orders_shm_mutate_slot ?g2 now (shm_order_index e) shm))" by blast
      then show thesis by cases (rule that, assumption, simp)+
    qed
    have fin: "final_request [f] = (\<lambda>j. if j = shm_order_index e then Some (request e) else None)"
      by (auto simp: final_request_def Notify)
    from mutate_slot_written [OF g(2), of shm now "shm_order_index e"] g(1) assms(2) show ?thesis
      unfolding fin by (simp add: Notify)
  qed
qed

lemma slot_written_trans:
  assumes "slot_written a b f" "slot_written b c g"
  shows "slot_written a c (\<lambda>i. case g i of None \<Rightarrow> f i | Some r \<Rightarrow> Some r)"
proof -
  have "orders_shm_index_exists b i = orders_shm_index_exists a i" for i
    using assms(1) by (simp add: slot_written_def orders_shm_index_exists_def)
  with assms show ?thesis by (auto simp: slot_written_def split: option.splits)
qed

lemma effects_slot_written:
  assumes "w_orders w = Some shm" "w_callback w"
  shows "\<exists>shm'. w_orders (fold (apply_effect now) fx w) = Some shm' \<and> slot_written shm shm' (final_request fx)"
proof (induction fx rule: rev_induct)
  case Nil
  then show ?case using assms by (simp add: slot_written_def final_request_def)
next
  case (snoc f fx)
  then obtain shm1 where 1: "w_orders (fold (apply_effect now) fx w) = Some shm1"
    "slot_written shm shm1 (final_request fx)" by blast
  have "w_callback (fold (apply_effect now) fx w)" using assms(2) by (simp add: frame_simps)
  with 1(1) obtain shm2 where 2: "w_orders (apply_effect now f (fold (apply_effect now) fx w)) = Some shm2"
    "slot_written shm1 shm2 (final_request [f])" using effect_slot_written by blast
  have "final_request (fx @ [f]) = (\<lambda>i. case final_request [f] i of None \<Rightarrow> final_request fx i | Some r \<Rightarrow> Some r)"
    by (simp add: final_request_app fun_eq_iff)
  with slot_written_trans [OF 1(2) 2(2)] 2(1) show ?case by simp
qed


section \<open>The pool mirrors the book\<close>

definition live_slots :: "OrderBook \<Rightarrow> OrderIndex set" where
  "live_slots b = {shm_order_index e | a e. find_order a b = Some e}"

definition pool_mirrors :: "OrderBook \<Rightarrow> orders_shm_layout \<Rightarrow> bool" where
  "pool_mirrors b shm \<longleftrightarrow> pool_ok shm
     \<and> (\<forall>a e. find_order a b = Some e \<and> shm_order_index e \<noteq> kInvalidOrderIndex \<longrightarrow>
          orders_shm_index_exists shm (shm_order_index e)
          \<and> slot_request (os_slots shm (shm_order_index e)) = request e)"

definition mirrored :: "nat \<Rightarrow> world \<Rightarrow> bool" where
  "mirrored cap w \<longleftrightarrow> w_callback w \<and> book_ok cap (w_book w) \<and> idx_inj (w_book w)
     \<and> (\<exists>shm. w_orders w = Some shm \<and> pool_mirrors (w_book w) shm)"

lemma live_slotsD: "find_order a b = Some e \<Longrightarrow> shm_order_index e \<in> live_slots b"
  unfolding live_slots_def by blast

lemma live_slots_content:
  assumes "content_change b b'"
  shows "live_slots b' = live_slots b"
proof -
  have k: "shm_order_index (ob_orders b' i) = shm_order_index (ob_orders b i)" for i
    using content_change_sel(11) [OF assms] by (rule entry_key_eqD)
  have "(\<exists>e. find_order a b' = Some e \<and> shm_order_index e = i)
      \<longleftrightarrow> (\<exists>e. find_order a b = Some e \<and> shm_order_index e = i)" for a i
    by (auto simp: find_order_def content_change_sel(1) [OF assms] k)
  then show ?thesis unfolding live_slots_def set_eq_iff mem_Collect_eq by metis
qed

lemma live_slots_fields [simp]:
  "live_slots (b\<lparr>split_parent_error_latched := X\<rparr>) = live_slots b"
  "live_slots (b\<lparr>managed_parent_ids := X\<rparr>) = live_slots b"
  "live_slots (b\<lparr>ob_active_count := n\<rparr>) = live_slots b"
  by (simp_all add: live_slots_def find_order_def)

lemma live_slots_update:
  "live_slots (fst (snd (update_state a st now b))) = live_slots b"
  "live_slots (fst (snd (update_trade a vol px val fee now b))) = live_slots b"
proof -
  have m: "live_slots (modify_order a f b) = live_slots b"
    if "\<And>e. entry_key (f e) = entry_key e" for f
    using that by (intro live_slots_content modify_order_content)
  show "live_slots (fst (snd (update_state a st now b))) = live_slots b"
    "live_slots (fst (snd (update_trade a vol px val fee now b))) = live_slots b"
    by (auto simp: update_state_def update_trade_def Let_def case_prod_beta m update_request_key
        live_slots_content [OF refresh_parent_of_content] split: option.splits)
qed

lemma live_slots_sync:
  "live_slots (fst (snd (sync_managed_parent_view a view st now b))) = live_slots b"
proof (cases "find_order a b")
  case (Some e)
  let ?b = "b\<lparr>managed_parent_ids := insert a (managed_parent_ids b)\<rparr>"
  have f: "find_order a ?b = Some e" using Some by (simp add: find_order_def)
  have "content_change ?b (modify_order a (\<lambda>_. e\<lparr>request := apply_view view st (request e), last_update_ns := now\<rparr>) ?b)"
    by (rule modify_order_content) (use f in \<open>simp add: update_request_key\<close>)
  then have "live_slots (modify_order a (\<lambda>_. e\<lparr>request := apply_view view st (request e), last_update_ns := now\<rparr>) ?b)
      = live_slots b"
    using live_slots_content [of ?b] by simp
  with Some show ?thesis by (simp add: sync_managed_parent_view_def Let_def)
qed (simp add: sync_managed_parent_view_def)

lemma live_slots_add:
  "live_slots (fst (snd (add_order entry now b))) \<subseteq> insert (shm_order_index entry) (live_slots b)"
proof -
  obtain r b' fx where a: "add_order entry now b = (r, b', fx)" by (cases "add_order entry now b")
  then show ?thesis
  proof (cases rule: add_order_cases)
    case (accepted index free b2)
    have "live_slots (insert_indices index free (stored_entry now entry) b)
        \<subseteq> insert (shm_order_index entry) (live_slots b)"
      by (auto simp: live_slots_def find_order_def insert_indices_sel split: if_splits)
    then show ?thesis using a accepted(6) live_slots_content [OF accepted(5)] by simp
  qed (use a in auto)
qed

text \<open>A call into the book keeps the mirror when the slots it introduces exist.\<close>

lemma on_book_mirrored:
  fixes f :: "OrderBook \<Rightarrow> 'a book_result"
  defines "b' \<equiv> \<lambda>w. fst (snd (f (w_book w)))"
  assumes m: "mirrored cap w"
    and an: "announced {} (w_book w) (b' w) (snd (snd (f (w_book w))))"
    and inj: "idx_inj (b' w)" and ok: "book_ok cap (b' w)"
    and new: "\<And>i shm. i \<in> live_slots (b' w) \<Longrightarrow> i \<notin> live_slots (w_book w) \<Longrightarrow> w_orders w = Some shm
      \<Longrightarrow> i = kInvalidOrderIndex \<or> orders_shm_index_exists shm i"
  shows "mirrored cap (snd (on_book f now w))"
proof -
  let ?fx = "snd (snd (f (w_book w)))"
  obtain shm where shm: "w_orders w = Some shm" "pool_mirrors (w_book w) shm" "w_callback w"
    using m by (auto simp: mirrored_def)
  from effects_slot_written [of "w\<lparr>w_book := b' w\<rparr>" shm now ?fx] shm obtain shm' where
    s': "w_orders (fold (apply_effect now) ?fx (w\<lparr>w_book := b' w\<rparr>)) = Some shm'"
    "slot_written shm shm' (final_request ?fx)" by auto
  have "pool_mirrors (b' w) shm'"
    unfolding pool_mirrors_def
  proof (intro conjI allI impI)
    show "pool_ok shm'" using s'(2) shm(2) by (simp add: slot_written_def pool_mirrors_def)
    fix a e assume e: "find_order a (b' w) = Some e \<and> shm_order_index e \<noteq> kInvalidOrderIndex"
    have "orders_shm_index_exists shm (shm_order_index e)"
    proof (cases "shm_order_index e \<in> live_slots (w_book w)")
      case True
      with e shm(2) show ?thesis by (auto simp: live_slots_def pool_mirrors_def)
    next
      case False
      with new [OF live_slotsD False shm(1)] e show ?thesis by blast
    qed
    with s'(2) show "orders_shm_index_exists shm' (shm_order_index e)"
      by (simp add: slot_written_def orders_shm_index_exists_def split: if_splits)
    have w: "slot_request (os_slots shm' (shm_order_index e))
        = (case final_request ?fx (shm_order_index e) of
             None \<Rightarrow> slot_request (os_slots shm (shm_order_index e)) | Some r \<Rightarrow> r)"
      using s'(2) \<open>orders_shm_index_exists shm (shm_order_index e)\<close> by (simp add: slot_written_def)
    have "final_request ?fx (shm_order_index e) = Some (request e)
      \<or> final_request ?fx (shm_order_index e) = None
       \<and> (\<exists>e0. find_order a (w_book w) = Some e0 \<and> request e0 = request e
            \<and> shm_order_index e0 = shm_order_index e)"
      using announcedD [OF an, of a e] e by blast
    then show "slot_request (os_slots shm' (shm_order_index e)) = request e"
    proof (elim disjE conjE exE)
      fix e0
      assume none: "final_request ?fx (shm_order_index e) = None"
        and e0: "find_order a (w_book w) = Some e0" "request e0 = request e"
          "shm_order_index e0 = shm_order_index e"
      have "slot_request (os_slots shm (shm_order_index e0)) = request e0"
        using shm(2) e e0(1,3) unfolding pool_mirrors_def by metis
      with none e0 show ?thesis by (simp add: w)
    qed (simp_all add: w)
  qed
  with s' inj ok shm(3) show ?thesis by (auto simp: mirrored_def on_book_def case_prod_beta frame_simps b'_def)
qed

lemma mirrored_update_state: "mirrored cap w \<Longrightarrow> mirrored cap (snd (on_book (update_state a st now) now w))"
proof -
  assume m: "mirrored cap w"
  then have b: "book_ok cap (w_book w)" "idx_inj (w_book w)" by (simp_all add: mirrored_def)
  show ?thesis
    by (rule on_book_mirrored [where f = "update_state a st now", OF m update_state_announced [OF b] book_ok_update_state [OF b(1)]])
      (simp add: live_slots_update)
qed

lemma mirrored_update_trade:
  "mirrored cap w \<Longrightarrow> mirrored cap (snd (on_book (update_trade a vol px val fee now) now w))"
proof -
  assume m: "mirrored cap w"
  then have b: "book_ok cap (w_book w)" "idx_inj (w_book w)" by (simp_all add: mirrored_def)
  show ?thesis
    by (rule on_book_mirrored [where f = "update_trade a vol px val fee now", OF m update_trade_announced [OF b] book_ok_update_trade [OF b(1)]])
      (simp add: live_slots_update)
qed

definition slot_for :: "OrderEntry \<Rightarrow> world \<Rightarrow> bool" where
  "slot_for e w \<longleftrightarrow> fresh_slot e (w_book w)
     \<and> (shm_order_index e = kInvalidOrderIndex
        \<or> (\<exists>shm. w_orders w = Some shm \<and> orders_shm_index_exists shm (shm_order_index e)))"

lemma mirrored_add_order:
  assumes m: "mirrored cap w" and s: "slot_for e w"
  shows "mirrored cap (snd (on_book (add_order e now) now w))"
proof -
  from m have b: "book_ok cap (w_book w)" "idx_inj (w_book w)" by (simp_all add: mirrored_def)
  have "fresh_slot e (w_book w)" using s by (simp add: slot_for_def)
  note an = add_order_announced [OF b this]
  have ok: "book_ok cap (fst (snd (add_order e now (w_book w))))"
    using book_ok_add [OF b(1)] by (cases "add_order e now (w_book w)") auto
  show ?thesis
  proof (rule on_book_mirrored [where f = "add_order e now", OF m an ok])
    fix i shm
    assume "i \<in> live_slots (fst (snd (add_order e now (w_book w))))" "i \<notin> live_slots (w_book w)"
      "w_orders w = Some shm"
    then show "i = kInvalidOrderIndex \<or> orders_shm_index_exists shm i"
      using live_slots_add [of e now "w_book w"] s by (auto simp: slot_for_def)
  qed
qed


section \<open>The router keeps the mirror\<close>

lemma mirrored_same:
  assumes "mirrored cap w" "w_callback w' = w_callback w" "w_orders w' = w_orders w"
    "content_change (w_book w) ((w_book w')\<lparr>ob_next_order_id := ob_next_order_id (w_book w)\<rparr>)"
    "ob_orders (w_book w') = ob_orders (w_book w)"
  shows "mirrored cap w'"
proof -
  let ?b = "(w_book w')\<lparr>ob_next_order_id := ob_next_order_id (w_book w)\<rparr>"
  have e: "?b = w_book w" using assms(4,5) by (simp add: content_change_def)
  have "find_order a (w_book w') = find_order a ?b" for a by (simp add: find_order_def)
  moreover have "book_ok cap (w_book w') \<longleftrightarrow> book_ok cap ?b"
    by (simp add: book_ok_defs find_order_def get_children_def)
  moreover from calculation(1) have "idx_inj (w_book w') = idx_inj ?b" "pool_mirrors (w_book w') = pool_mirrors ?b"
    by (simp only: idx_inj_def, intro ext, simp only: pool_mirrors_def)
  ultimately show ?thesis using assms(1-3) unfolding e by (simp add: mirrored_def)
qed

lemma mirrored_other [inv_intros]:
  assumes "mirrored cap w"
  shows "mirrored cap (raise_error d c now w)" "mirrored cap (on_stats f w)"
    "mirrored cap (w\<lparr>w_downstream := q\<rparr>)" "mirrored cap (snd (allocate_internal_order_id w))"
proof -
  show "mirrored cap (raise_error d c now w)" "mirrored cap (on_stats f w)"
    "mirrored cap (w\<lparr>w_downstream := q\<rparr>)" using assms by (simp_all add: mirrored_def frame_simps)
  show "mirrored cap (snd (allocate_internal_order_id w))"
  proof (cases "w_upstream w")
    case None
    then have "snd (allocate_internal_order_id w) = w\<lparr>w_book := snd (next_order_id (w_book w))\<rparr>"
      by (simp add: allocate_internal_order_id_def case_prod_beta)
    then show ?thesis
      by (intro mirrored_same [OF assms]) (simp_all add: next_order_id_def)
  next
    case (Some up)
    with assms show ?thesis by (simp add: allocate_internal_order_id_def mirrored_def)
  qed
qed

lemma pool_mirrors_stage:
  "pool_mirrors b shm \<Longrightarrow> pool_mirrors b (snd (orders_shm_update_stage i st now shm))"
proof -
  assume m: "pool_mirrors b shm"
  have "slot_written shm (snd (orders_shm_update_stage i st now shm)) (\<lambda>j. if j = i then None else None)"
    unfolding orders_shm_update_stage_def by (rule mutate_slot_written) simp
  with m show ?thesis
    by (auto simp: pool_mirrors_def slot_written_def orders_shm_update_stage_def mutate_exists)
qed

lemma mirrored_stage [inv_intros]:
  "mirrored cap w \<Longrightarrow> mirrored cap (snd (on_pool (orders_shm_update_stage i st now) w))"
  by (auto simp: mirrored_def frame_simps pool_mirrors_stage)

lemma create_slot_mirrored:
  assumes m: "mirrored cap w" and c: "create_internal_order_slot r st src now w = (slot, w')"
  shows "mirrored cap w' \<and> (\<forall>i. slot = Some i \<longrightarrow> i \<noteq> kInvalidOrderIndex \<and>
     (\<forall>e. shm_order_index e = i \<longrightarrow> slot_for e w'))"
proof -
  obtain shm where shm: "w_orders w = Some shm" "pool_mirrors (w_book w) shm"
    using m by (auto simp: mirrored_def)
  obtain shm' where a: "orders_shm_append r st src now shm = (slot, shm')" and w': "w' = w\<lparr>w_orders := Some shm'\<rparr>"
    using c shm(1) by (auto simp: create_internal_order_slot_def split: prod.splits)
  show ?thesis
  proof (cases slot)
    case None
    with a have "shm' = shm\<lparr>os_full_reject_count := os_full_reject_count shm + 1\<rparr>"
      using append_None [of r st src now shm shm'] by simp
    then have "orders_shm_index_exists shm' = orders_shm_index_exists shm" "os_slots shm' = os_slots shm"
      "pool_ok shm' = pool_ok shm" by (simp_all add: pool_ok_def orders_shm_index_exists_def fun_eq_iff)
    then have "pool_mirrors (w_book w) shm'" using shm(2) unfolding pool_mirrors_def by simp blast
    with m None show ?thesis by (auto simp: mirrored_def w')
  next
    case (Some i)
    note ap = append_Some [OF a [unfolded Some]]
    have old: "orders_shm_index_exists shm j \<Longrightarrow> slot_request (os_slots shm' j) = slot_request (os_slots shm j)" for j
      using ap shm(2) by (auto simp: pool_mirrors_def read_snapshot_eq pool_ok_def slot_snapshot_def)
    then have p: "pool_mirrors (w_book w) shm'" using ap shm(2) by (auto simp: pool_mirrors_def)
    have "shm_order_index e \<noteq> i" if "find_order a (w_book w) = Some e" for a e
    proof
      assume i: "shm_order_index e = i"
      have "i \<noteq> kInvalidOrderIndex" using ap by (auto simp: orders_shm_index_exists_def)
      with that i shm(2) have "orders_shm_index_exists shm i" unfolding pool_mirrors_def by metis
      with ap show False by blast
    qed
    with ap p m Some show ?thesis
      by (auto simp: mirrored_def w' slot_for_def fresh_slot_def)
        (auto simp: orders_shm_index_exists_def)
  qed
qed

lemma mirrored_mark: "mirrored cap w \<Longrightarrow> mirrored cap (snd (on_book (mark_managed_parent a) now w))"
proof -
  assume m: "mirrored cap w"
  then have b: "book_ok cap (w_book w)" "idx_inj (w_book w)" by (simp_all add: mirrored_def)
  have ok: "book_ok cap (fst (snd (mark_managed_parent a (w_book w))))"
    using b(1) by (auto simp: mark_managed_parent_def find_order_def intro: book_ok_latch split: option.splits)
  have l: "live_slots (fst (snd (mark_managed_parent a (w_book w)))) = live_slots (w_book w)"
    by (auto simp: mark_managed_parent_def split: option.splits)
  show ?thesis
    by (rule on_book_mirrored [where f = "mark_managed_parent a", OF m mark_announced [OF b(2)] ok])
      (simp add: l)
qed

lemma mirrored_sync:
  "mirrored cap w \<Longrightarrow> mirrored cap (snd (on_book (sync_managed_parent_view a view st now) now w))"
proof -
  assume m: "mirrored cap w"
  then have b: "book_ok cap (w_book w)" "idx_inj (w_book w)" by (simp_all add: mirrored_def)
  show ?thesis
    by (rule on_book_mirrored [where f = "sync_managed_parent_view a view st now", OF m sync_announced [OF b]
          book_ok_sync [OF b(1)]])
      (simp add: live_slots_sync)
qed

interpretation mirror: world_invariant "mirrored cap" "\<lambda>_. True" for cap
proof
  show "mirrored cap (snd (create_internal_order_slot r st src now w))" if "mirrored cap w" for w r st src now
    using create_slot_mirrored [OF that, of r st src now] by (metis prod.collapse)
  show "mirrored cap (snd (on_book (add_order e now) now w'))"
    if "mirrored cap w" "create_internal_order_slot r st src now w = (Some i, w')" "shm_order_index e = i"
    for w r st src now i w' e
    using create_slot_mirrored [OF that(1,2)] that(3) mirrored_add_order by blast
qed (auto intro: mirrored_other mirrored_stage mirrored_update_state mirrored_mark mirrored_sync)

section \<open>Runs of the router and the book\<close>

datatype router_op =
    RouteOrder OrderEntry
  | RouteCancel InternalOrderId InternalOrderId MdTime
  | SubmitInternal OrderEntry
  | SetState InternalOrderId OrderState
  | ApplyTrade InternalOrderId Volume DPrice DValue DValue

fun router_step :: "TimestampNs \<times> router_op \<Rightarrow> world \<Rightarrow> world" where
  "router_step (now, RouteOrder e) w = snd (route_order e now w)"
| "router_step (now, RouteCancel orig c t) w = snd (route_cancel orig c t now w)"
| "router_step (now, SubmitInternal e) w = snd (snd (submit_internal_order e now w))"
| "router_step (now, SetState a st) w = snd (on_book (update_state a st now) now w)"
| "router_step (now, ApplyTrade a vol px val fee) w = snd (on_book (update_trade a vol px val fee now) now w)"

fun brings_slot :: "router_op \<Rightarrow> bool" where
  "brings_slot (SubmitInternal e) = (shm_order_index e \<noteq> kInvalidOrderIndex)"
| "brings_slot op = False"

definition world_new :: "nat \<Rightarrow> u32 \<Rightarrow> world" where
  "world_new max_active pool_capacity =
     \<lparr>w_book = OrderBook_new max_active,
      w_downstream = Some \<lparr>q_head = 0, q_tail = 0, q_buffer = (\<lambda>_. 0)\<rparr>,
      w_orders = Some (orders_shm_new pool_capacity), w_upstream = None,
      w_errors = error_state_init, w_router = router_stats_zero, w_callback = True\<rparr>"

lemma mirrored_new: "mirrored cap (world_new cap pool_capacity)"
proof -
  have "find_order a (OrderBook_new cap) = None" for a by (simp add: find_order_def OrderBook_new_def)
  then show ?thesis
    by (simp add: mirrored_def world_new_def book_ok_new idx_inj_def pool_mirrors_def pool_ok_new)
qed

lemma mirrored_step: "\<not> brings_slot op \<Longrightarrow> mirrored cap w \<Longrightarrow> mirrored cap (router_step (now, op) w)"
  by (cases op) (auto intro: mirror.keeps_route_order mirror.keeps_route_cancel mirror.keeps_submit_internal
      mirrored_update_state mirrored_update_trade)

lemma mirrored_run:
  "\<forall>x \<in> set ops. \<not> brings_slot (snd x) \<Longrightarrow> mirrored cap w
   \<Longrightarrow> mirrored cap (fold router_step ops w)"
proof (induction ops arbitrary: w)
  case (Cons x ops)
  obtain now op where x: "x = (now, op)" by (cases x)
  have "mirrored cap (router_step x w)" unfolding x by (rule mirrored_step) (use Cons.prems x in auto)
  with Cons have "mirrored cap (fold router_step ops (router_step x w))" by simp
  then show ?case by simp
qed simp

text \<open>
  C19: the monitor sees what the book holds.  From a start with an empty book and an empty
  order pool, after any sequence of router calls, state updates and trades, a reader of the
  pool who takes a snapshot of the slot of a live order gets exactly the request the book
  holds for that order, and no two live orders share a slot.  The only restriction is that an
  internal order does not bring a slot index of its own.
\<close>

theorem pool_mirrors_book:
  assumes "\<forall>x \<in> set ops. \<not> brings_slot (snd x)"
    and "w = fold router_step ops (world_new max_active pool_capacity)"
    and "find_order a (w_book w) = Some e" and "shm_order_index e \<noteq> kInvalidOrderIndex"
  shows "\<exists>shm s. w_orders w = Some shm \<and> orders_shm_read_snapshot shm (shm_order_index e) = Some s
      \<and> ss_request s = request e
      \<and> (\<forall>a' e'. find_order a' (w_book w) = Some e' \<and> shm_order_index e' = shm_order_index e \<longrightarrow> a' = a)"
proof -
  have m: "mirrored max_active w" unfolding assms(2) using assms(1) mirrored_new by (rule mirrored_run)
  then obtain shm where shm: "w_orders w = Some shm" "pool_mirrors (w_book w) shm"
    by (auto simp: mirrored_def)
  have inj: "a' = a" if "find_order a' (w_book w) = Some e' \<and> shm_order_index e' = shm_order_index e" for a' e'
    using m assms(3,4) that unfolding mirrored_def idx_inj_def by metis
  have s: "orders_shm_index_exists shm (shm_order_index e)"
    "slot_request (os_slots shm (shm_order_index e)) = request e" "pool_ok shm"
    using shm(2) assms(3,4) unfolding pool_mirrors_def by metis+
  then have "orders_shm_read_snapshot shm (shm_order_index e) = Some (slot_snapshot (os_slots shm (shm_order_index e)))"
    by (simp add: read_snapshot_eq pool_ok_def)
  with shm(1) s(2) inj show ?thesis
    by (intro exI [of _ shm] exI [of _ "slot_snapshot (os_slots shm (shm_order_index e))"])
      (auto simp: slot_snapshot_def)
qed

definition router_example :: "(TimestampNs \<times> router_op) list" where
  "router_example = [(5, SubmitInternal (order_example 7 100)), (6, SetState 7 BrokerAccepted),
     (8, ApplyTrade 7 40 1000 40000 5), (9, RouteCancel 7 8 93000)]"

lemma pool_mirrors_book_witness:
  "\<exists>w e shm s. w = fold router_step router_example (world_new 4 16)
     \<and> find_order 7 (w_book w) = Some e \<and> volume_traded (request e) = 40
     \<and> w_orders w = Some shm \<and> orders_shm_read_snapshot shm (shm_order_index e) = Some s
     \<and> ss_request s = request e"
proof -
  define w where "w = fold router_step router_example (world_new 4 16)"
  have n: "\<forall>x \<in> set router_example. \<not> brings_slot (snd x)"
    by (auto simp: router_example_def order_example_def OrderEntry_default_def)
  have f: "map_option (\<lambda>e. (volume_traded (request e), shm_order_index e)) (find_order 7 (w_book w)) = Some (40, 0)"
    unfolding w_def by code_simp
  then obtain e where e: "find_order 7 (w_book w) = Some e" "volume_traded (request e) = 40"
    "shm_order_index e \<noteq> kInvalidOrderIndex" by (auto simp: kInvalidOrderIndex_def)
  from pool_mirrors_book [OF n w_def e(1,3)] obtain shm s where "w_orders w = Some shm"
    "orders_shm_read_snapshot shm (shm_order_index e) = Some s" "ss_request s = request e" by (elim exE conjE)
  with w_def e(1,2) show ?thesis by (intro exI [of _ w] exI [of _ e] exI [of _ shm] exI [of _ s] conjI)
qed

end
