(* ===== verification/Execution.thy ===== *)
theory Execution
  imports Market_Data Order_Mirror
begin

text \<open>
  \<^verbatim>\<open>src/execution/execution_engine.cpp\<close> and \<^verbatim>\<open>src/order/passive_execution.hpp\<close>: the
  engine that works a parent order off in child orders.  A session keeps a ledger for each
  child and is ticked by the event loop; its class (\<open>SequentialClipSession\<close>, with the two
  subclasses that add nothing, or \<open>TwapSession\<close>) is a constructor of \<open>session_kind\<close> with
  the fields that class adds.  The order book and the router are those of the world; the
  market data service and the strategy are read only.  The event recorder and the price trace
  it is given are logging and left out, and so are the warnings.  Where the code walks an
  \<open>unordered_map\<close> of child ledgers, the list here is in order of insertion: the sums and the
  best rank do not depend on the order.
\<close>

section \<open>Choosing the algorithm\<close>

fun passive_execution_algo_to_split_strategy :: "PassiveExecutionAlgo \<Rightarrow> SplitStrategy" where
  "passive_execution_algo_to_split_strategy AlgoNone = SplitNone"
| "passive_execution_algo_to_split_strategy PassiveExecutionAlgo.FixedSize = SplitStrategy.FixedSize"
| "passive_execution_algo_to_split_strategy PassiveExecutionAlgo.TWAP = SplitStrategy.TWAP"
| "passive_execution_algo_to_split_strategy PassiveExecutionAlgo.VWAP = SplitStrategy.VWAP"
| "passive_execution_algo_to_split_strategy PassiveExecutionAlgo.Iceberg = SplitStrategy.Iceberg"
| "passive_execution_algo_to_split_strategy Default = SplitNone"

fun split_strategy_to_passive_execution_algo :: "SplitStrategy \<Rightarrow> PassiveExecutionAlgo" where
  "split_strategy_to_passive_execution_algo SplitStrategy.FixedSize = PassiveExecutionAlgo.FixedSize"
| "split_strategy_to_passive_execution_algo SplitStrategy.TWAP = PassiveExecutionAlgo.TWAP"
| "split_strategy_to_passive_execution_algo SplitStrategy.VWAP = PassiveExecutionAlgo.VWAP"
| "split_strategy_to_passive_execution_algo SplitStrategy.Iceberg = PassiveExecutionAlgo.Iceberg"
| "split_strategy_to_passive_execution_algo SplitNone = AlgoNone"

definition resolve_passive_split_strategy :: "PassiveExecutionAlgo \<Rightarrow> SplitStrategy \<Rightarrow> SplitStrategy" where
  "resolve_passive_split_strategy algo default_strategy =
     (if algo = Default then default_strategy else passive_execution_algo_to_split_strategy algo)"

text \<open>\<open>randomize_factor\<close> is not read by the engine.\<close>

record split_config =
  sc_strategy :: SplitStrategy
  max_child_volume :: Volume
  min_child_volume :: Volume
  max_child_count :: u32
  interval_ms :: u32

definition resolve_execution_strategy :: "OrderRequest \<Rightarrow> split_config \<Rightarrow> SplitStrategy" where
  "resolve_execution_strategy req config =
     resolve_passive_split_strategy (passive_execution_algo req) (sc_strategy config)"

fun is_managed_strategy :: "SplitStrategy \<Rightarrow> bool" where
  "is_managed_strategy SplitStrategy.FixedSize = True"
| "is_managed_strategy SplitStrategy.TWAP = True"
| "is_managed_strategy SplitStrategy.VWAP = True"
| "is_managed_strategy SplitStrategy.Iceberg = True"
| "is_managed_strategy SplitNone = False"

fun is_supported_session_strategy :: "SplitStrategy \<Rightarrow> bool" where
  "is_supported_session_strategy SplitStrategy.FixedSize = True"
| "is_supported_session_strategy SplitStrategy.TWAP = True"
| "is_supported_session_strategy SplitStrategy.Iceberg = True"
| "is_supported_session_strategy SplitStrategy.VWAP = False"
| "is_supported_session_strategy SplitNone = False"

fun is_failure_terminal_state :: "OrderState \<Rightarrow> bool" where
  "is_failure_terminal_state TraderRejected = True"
| "is_failure_terminal_state TraderError = True"
| "is_failure_terminal_state BrokerRejected = True"
| "is_failure_terminal_state MarketRejected = True"
| "is_failure_terminal_state OrderState.Unknown = True"
| "is_failure_terminal_state _ = False"

definition resolve_clip_volume :: "split_config \<Rightarrow> Volume" where
  "resolve_clip_volume config =
     (if max_child_volume config \<noteq> 0 then max_child_volume config
      else max (min_child_volume config) 1)"

section \<open>The slices of a TWAP order\<close>

fun slice_loop :: "nat \<Rightarrow> Volume \<Rightarrow> Volume \<Rightarrow> Volume list" where
  "slice_loop 0 base_volume remainder = []"
| "slice_loop (Suc n) base_volume remainder =
     (let slice_volume = (if remainder > 0 then base_volume + 1 else base_volume);
          remainder' = (if remainder > 0 then remainder - 1 else remainder);
          rest = slice_loop n base_volume remainder'
      in if slice_volume > 0 then slice_volume # rest else rest)"

definition build_twap_slice_plan :: "OrderRequest \<Rightarrow> split_config \<Rightarrow> bool \<times> Volume list" where
  "build_twap_slice_plan parent_request config =
     (if volume_entrust parent_request = 0 \<or> max_child_count config = 0 then (False, [])
      else let target_volume = resolve_clip_volume config
      in if target_volume = 0 then (False, [])
      else let child_count = (volume_entrust parent_request + target_volume - 1) div target_volume;
               child_count = max child_count 1;
               child_count = min child_count (ucast (max_child_count config))
      in if child_count = 0 then (False, [])
      else let base_volume = volume_entrust parent_request div child_count;
               remainder = volume_entrust parent_request mod child_count;
               slices = slice_loop (unat child_count) base_volume remainder
      in (slices \<noteq> [], slices))"

section \<open>Ledgers and sessions\<close>

record child_execution_ledger =
  led_child_order_id :: InternalOrderId
  led_shm_order_index :: OrderIndex
  entrust_volume :: Volume
  entrust_price :: DPrice
  led_traded_volume :: Volume
  led_traded_value :: DValue
  led_fee :: DValue
  final_cancelled_volume :: Volume
  finalized :: bool
  led_cancel_requested :: bool
  led_order_state :: OrderState

definition ledger_default :: child_execution_ledger where
  "ledger_default = \<lparr>led_child_order_id = 0, led_shm_order_index = kInvalidOrderIndex,
     entrust_volume = 0, entrust_price = 0, led_traded_volume = 0, led_traded_value = 0,
     led_fee = 0, final_cancelled_volume = 0, finalized = False, led_cancel_requested = False,
     led_order_state = OrderState.NotSet\<rparr>"

definition unresolved_volume :: "child_execution_ledger \<Rightarrow> Volume" where
  "unresolved_volume l =
     (if finalized l then 0
      else let known = led_traded_volume l + final_cancelled_volume l
      in if known \<ge> entrust_volume l then 0 else entrust_volume l - known)"

definition average_traded_price :: "child_execution_ledger \<Rightarrow> DPrice" where
  "average_traded_price l =
     (if led_traded_volume l = 0 then 0
      else if led_traded_value l = 0 then 0
      else led_traded_value l div led_traded_volume l)"

record twap_state =
  tw_valid :: bool
  tw_start_time_ns :: TimestampNs
  tw_interval_ns :: TimestampNs
  tw_next_deadline_ns :: TimestampNs
  tw_slice_index :: nat
  tw_slice_consumed :: bool
  tw_slice_volumes :: "Volume list"

datatype session_kind = SequentialClip Volume | Twap twap_state

record ExecutionSession =
  s_parent_index :: OrderIndex
  s_parent_request :: OrderRequest
  s_strategy_id :: StrategyId
  s_execution_algo :: PassiveExecutionAlgo
  s_ledgers :: "(InternalOrderId \<times> child_execution_ledger) list"
  s_last_active_publish_seq_no :: u64
  s_order_price_fallback_logged :: bool
  s_cancel_requested :: bool
  s_failed :: bool
  s_terminal :: bool
  s_kind :: session_kind

text \<open>What a session reads but does not change.\<close>

record exec_env =
  ee_market_data :: "MarketDataService option"
  ee_active_strategy :: "ActiveStrategy option"

definition new_session ::
    "OrderIndex \<Rightarrow> OrderRequest \<Rightarrow> StrategyId \<Rightarrow> PassiveExecutionAlgo \<Rightarrow> session_kind \<Rightarrow> ExecutionSession" where
  "new_session parent_index parent_request strat algo kind =
     \<lparr>s_parent_index = parent_index, s_parent_request = parent_request, s_strategy_id = strat,
      s_execution_algo = algo, s_ledgers = [], s_last_active_publish_seq_no = 0,
      s_order_price_fallback_logged = False, s_cancel_requested = False, s_failed = False,
      s_terminal = False, s_kind = kind\<rparr>"

definition parent_order_id_of :: "ExecutionSession \<Rightarrow> InternalOrderId" where
  "parent_order_id_of s = internal_order_id (s_parent_request s)"

definition is_valid :: "ExecutionSession \<Rightarrow> bool" where
  "is_valid s = (case s_kind s of SequentialClip clip \<Rightarrow> clip \<noteq> 0 | Twap t \<Rightarrow> tw_valid t)"

section \<open>Sums over the ledgers\<close>

definition sum_ledgers :: "(child_execution_ledger \<Rightarrow> u64) \<Rightarrow> ExecutionSession \<Rightarrow> u64" where
  "sum_ledgers f s = fold (\<lambda>(i, l) total. saturating_add total (f l)) (s_ledgers s) 0"

definition confirmed_traded_volume :: "ExecutionSession \<Rightarrow> Volume" where
  "confirmed_traded_volume s = sum_ledgers led_traded_volume s"

definition confirmed_traded_value :: "ExecutionSession \<Rightarrow> DValue" where
  "confirmed_traded_value s = sum_ledgers led_traded_value s"

definition confirmed_fee :: "ExecutionSession \<Rightarrow> DValue" where
  "confirmed_fee s = sum_ledgers led_fee s"

definition session_working_volume :: "ExecutionSession \<Rightarrow> Volume" where
  "session_working_volume s = sum_ledgers unresolved_volume s"

definition remaining_target :: "ExecutionSession \<Rightarrow> Volume" where
  "remaining_target s =
     (let traded = confirmed_traded_volume s; target = volume_entrust (s_parent_request s)
      in if traded \<ge> target then 0 else target - traded)"

definition session_schedulable_volume :: "ExecutionSession \<Rightarrow> Volume" where
  "session_schedulable_volume s =
     (let remaining = remaining_target s; working = session_working_volume s
      in if working \<ge> remaining then 0 else remaining - working)"

definition has_working_children :: "ExecutionSession \<Rightarrow> bool" where
  "has_working_children s = (session_working_volume s > 0)"

section \<open>The parent's view\<close>

definition derive_parent_state :: "ExecutionSession \<Rightarrow> OrderState" where
  "derive_parent_state s =
     (if s_failed s then TraderError
      else if s_terminal s then OrderState.Finished
      else fst (fold (\<lambda>(i, l) (best, rank).
                  if status_progress_rank (led_order_state l) > rank
                  then (led_order_state l, status_progress_rank (led_order_state l)) else (best, rank))
                (s_ledgers s) (TraderPending, status_progress_rank TraderPending)))"

definition derive_execution_state :: "ExecutionSession \<Rightarrow> ExecutionState" where
  "derive_execution_state s =
     (if s_failed s then Failed else if s_terminal s then ExecutionState.Finished
      else if s_cancel_requested s then Cancelling else Running)"

definition session_view :: "ExecutionSession \<Rightarrow> ManagedParentView" where
  "session_view s =
     \<lparr>v_execution_algo = s_execution_algo s, v_execution_state = derive_execution_state s,
      v_target_volume = volume_entrust (s_parent_request s),
      v_working_volume = session_working_volume s,
      v_schedulable_volume = session_schedulable_volume s,
      v_confirmed_traded_volume = confirmed_traded_volume s,
      v_confirmed_traded_value = confirmed_traded_value s, v_confirmed_fee = confirmed_fee s\<rparr>"

definition sync_parent_view :: "TimestampNs \<Rightarrow> ExecutionSession \<Rightarrow> world \<Rightarrow> world" where
  "sync_parent_view now s w =
     snd (on_book (sync_managed_parent_view (parent_order_id_of s) (session_view s)
            (derive_parent_state s) now) now w)"

text \<open>
  \<open>refresh_parent_state\<close>: each cancel order among the parent's children marks the session,
  and the ledger of the child it cancels.
\<close>

definition mark_cancel :: "OrderBook \<Rightarrow> InternalOrderId \<Rightarrow> ExecutionSession \<Rightarrow> ExecutionSession" where
  "mark_cancel b related_id s =
     (case find_order related_id b of
        None \<Rightarrow> s
      | Some entry \<Rightarrow>
          if order_type (request entry) \<noteq> Cancel then s
          else s\<lparr>s_cancel_requested := True,
                 s_ledgers := map (\<lambda>(i, l).
                    if i = orig_internal_order_id (request entry)
                    then (i, l\<lparr>led_cancel_requested := True\<rparr>) else (i, l)) (s_ledgers s)\<rparr>)"

definition refresh_parent_state :: "ExecutionSession \<Rightarrow> world \<Rightarrow> bool \<times> ExecutionSession" where
  "refresh_parent_state s w =
     (case find_order (parent_order_id_of s) (w_book w) of
        None \<Rightarrow> (False, s\<lparr>s_failed := True, s_terminal := True\<rparr>)
      | Some _ \<Rightarrow> (True, fold (mark_cancel (w_book w)) (get_children (parent_order_id_of s) (w_book w))
                          (s\<lparr>s_cancel_requested := False\<rparr>)))"


section \<open>Pricing a child\<close>

definition is_valid_level :: "SnapshotLevel \<Rightarrow> bool" where
  "is_valid_level level = (level_price level \<noteq> 0 \<and> level_volume level \<noteq> 0)"

definition read_market_data_view :: "exec_env \<Rightarrow> ExecutionSession \<Rightarrow> MarketDataView option" where
  "read_market_data_view env s =
     (case ee_market_data env of
        None \<Rightarrow> None
      | Some md \<Rightarrow> if \<not> md_ready md then None
                   else md_read (internal_security_id (s_parent_request s)) md)"

definition allow_price_fallback :: "exec_env \<Rightarrow> bool" where
  "allow_price_fallback env =
     (case ee_market_data env of None \<Rightarrow> False | Some md \<Rightarrow> allow_order_price_fallback md)"

definition resolve_market_price :: "MarketDataView \<Rightarrow> ExecutionSession \<Rightarrow> DPrice option" where
  "resolve_market_price view s =
     (let snapshot = mv_snapshot view;
          has_best_bid = (total_bid_levels snapshot > 0 \<and> is_valid_level (lob_bids snapshot 0));
          has_best_ask = (total_ask_levels snapshot > 0 \<and> is_valid_level (lob_asks snapshot 0))
      in if \<not> has_best_bid \<and> \<not> has_best_ask then None
      else let candidate_price =
             (if trade_side (s_parent_request s) = Buy
              then Some (if has_best_ask then level_price (lob_asks snapshot 0)
                         else level_price (lob_bids snapshot 0))
              else if trade_side (s_parent_request s) = Sell
              then Some (if has_best_bid then level_price (lob_bids snapshot 0)
                         else level_price (lob_asks snapshot 0))
              else None)
           in case candidate_price of
                None \<Rightarrow> None
              | Some price \<Rightarrow> if price = 0 then None else Some price)"

text \<open>
  The view that was read, if any, the price to submit at, if any, and the session, which
  remembers that it has logged a fallback.
\<close>

definition resolve_submit_price ::
    "exec_env \<Rightarrow> ExecutionSession \<Rightarrow> MarketDataView option \<times> DPrice option \<times> ExecutionSession" where
  "resolve_submit_price env s =
     (let view = read_market_data_view env s;
          market_price = (case view of None \<Rightarrow> None | Some v \<Rightarrow> resolve_market_price v s)
      in if market_price \<noteq> None then (view, market_price, s)
      else if \<not> allow_price_fallback env then (view, None, s)
      else let s = s\<lparr>s_order_price_fallback_logged := True\<rparr>
      in if dprice_entrust (s_parent_request s) = 0 then (view, None, s)
      else (view, Some (dprice_entrust (s_parent_request s)), s))"

section \<open>Submitting a child\<close>

definition make_child_request ::
    "OrderRequest \<Rightarrow> InternalOrderId \<Rightarrow> Volume \<Rightarrow> DPrice \<Rightarrow> bool \<Rightarrow> OrderRequest" where
  "make_child_request parent_request child_order_id volume price active_claimed = parent_request\<lparr>
     internal_order_id := child_order_id, passive_execution_algo := AlgoNone,
     active_strategy_claimed := (if active_claimed then 1 else 0),
     volume_entrust := volume, dprice_entrust := price, volume_remain := volume,
     volume_traded := 0, dvalue_traded := 0, dprice_traded := 0, dfee_estimate := 0,
     dfee_executed := 0, md_time_traded_first := 0, md_time_traded_latest := 0,
     md_time_broker_response := 0, md_time_market_response := 0, broker_order_id := 0,
     orig_internal_order_id := 0, execution_algo := AlgoNone, execution_state := ExecNone,
     target_volume := 0, working_volume := 0, schedulable_volume := 0\<rparr>"

definition emplace_ledger ::
    "InternalOrderId \<Rightarrow> child_execution_ledger \<Rightarrow> ExecutionSession \<Rightarrow> ExecutionSession" where
  "emplace_ledger i l s =
     (if map_of (s_ledgers s) i \<noteq> None then s else s\<lparr>s_ledgers := s_ledgers s @ [(i, l)]\<rparr>)"

definition submit_child ::
    "Volume \<Rightarrow> DPrice \<Rightarrow> bool \<Rightarrow> TimestampNs \<Rightarrow> ExecutionSession \<Rightarrow> world
      \<Rightarrow> bool \<times> ExecutionSession \<times> world" where
  "submit_child volume price active_claimed now s w =
     (if volume = 0 \<or> price = 0 then (False, s, w)
      else let child_entry = OrderEntry_default\<lparr>
                 request := make_child_request (s_parent_request s) 0 volume price active_claimed,
                 submit_time_ns := now, last_update_ns := now, strategy_id := s_strategy_id s,
                 risk_result := Pass, retry_count := 0, is_split_child := True,
                 parent_order_id := parent_order_id_of s, shm_order_index := kInvalidOrderIndex\<rparr>;
               (sent, child_entry, w) = submit_internal_order child_entry now w
      in if \<not> sent
         then let s = s\<lparr>s_failed := True, s_terminal := True\<rparr>
              in (False, s, sync_parent_view now s w)
         else let ledger = ledger_default\<lparr>
                    led_child_order_id := internal_order_id (request child_entry),
                    led_shm_order_index := shm_order_index child_entry,
                    entrust_volume := volume, entrust_price := price,
                    led_order_state := TraderSubmitted\<rparr>
              in (True, emplace_ledger (led_child_order_id ledger) ledger s, w))"

definition try_active_submit ::
    "exec_env \<Rightarrow> MarketDataView \<Rightarrow> DPrice \<Rightarrow> Volume \<Rightarrow> TimestampNs \<Rightarrow> ExecutionSession \<Rightarrow> world
      \<Rightarrow> bool \<times> ExecutionSession \<times> world" where
  "try_active_submit env view market_price budget_volume now s w =
     (case ee_active_strategy env of
        None \<Rightarrow> (False, s, w)
      | Some strategy \<Rightarrow>
          if budget_volume = 0 then (False, s, w)
          else if \<not> has_fresh_prediction (mv_prediction view) then (False, s, w)
          else if pv_publish_seq_no (mv_prediction view) = s_last_active_publish_seq_no s then (False, s, w)
          else let decision = evaluate_strategy strategy (s_parent_request s) view budget_volume;
                   s = s\<lparr>s_last_active_publish_seq_no := pv_publish_seq_no (mv_prediction view)\<rparr>
               in if \<not> should_submit decision \<or> dec_volume decision = 0
                     \<or> dec_volume decision > budget_volume
                  then (False, s, w)
                  else submit_child (dec_volume decision) market_price True now s w)"

section \<open>Ending a session\<close>

definition finalize_parent_if_idle :: "TimestampNs \<Rightarrow> ExecutionSession \<Rightarrow> world \<Rightarrow> ExecutionSession \<times> world" where
  "finalize_parent_if_idle now s w =
     (let done = s\<lparr>s_terminal := True\<rparr>
      in if s_failed s then (done, sync_parent_view now done w)
      else if s_cancel_requested s \<and> \<not> has_working_children s then (done, sync_parent_view now done w)
      else if remaining_target s = 0 \<and> \<not> has_working_children s then (done, sync_parent_view now done w)
      else (s, w))"

text \<open>The ending that all ticks share: show the state unless ending the session did.\<close>

definition idle_or_sync :: "TimestampNs \<Rightarrow> ExecutionSession \<times> world \<Rightarrow> ExecutionSession \<times> world" where
  "idle_or_sync now = (\<lambda>(s, w). if s_terminal s then (s, w) else (s, sync_parent_view now s w))"

section \<open>Ticks\<close>

definition tick_sequential ::
    "exec_env \<Rightarrow> Volume \<Rightarrow> TimestampNs \<Rightarrow> ExecutionSession \<Rightarrow> world \<Rightarrow> ExecutionSession \<times> world" where
  "tick_sequential env clip_volume now s w =
     (let (found, s) = refresh_parent_state s w
      in if \<not> found then (s, sync_parent_view now s w)
      else if s_failed s then let s = s\<lparr>s_terminal := True\<rparr> in (s, sync_parent_view now s w)
      else if has_working_children s then (s, sync_parent_view now s w)
      else if s_cancel_requested s then let s = s\<lparr>s_terminal := True\<rparr> in (s, sync_parent_view now s w)
      else let budget_volume = min clip_volume (session_schedulable_volume s)
      in if budget_volume = 0 then idle_or_sync now (finalize_parent_if_idle now s w)
      else case resolve_submit_price env s of
             (view, None, s) \<Rightarrow> (s, sync_parent_view now s w)
           | (view, Some market_price, s) \<Rightarrow>
               let (taken, s, w) =
                     (case view of
                        None \<Rightarrow> (False, s, w)
                      | Some v \<Rightarrow> try_active_submit env v market_price budget_volume now s w);
                   (s, w) = (if \<not> taken
                             then snd (submit_child budget_volume market_price False now s w)
                             else (s, w))
               in (s, sync_parent_view now s w))"

definition advance_slice_if_ready :: "ExecutionSession \<Rightarrow> ExecutionSession" where
  "advance_slice_if_ready s =
     (case s_kind s of
        SequentialClip clip \<Rightarrow> s
      | Twap t \<Rightarrow>
          if \<not> tw_slice_consumed t \<or> has_working_children s then s
          else let t = (if tw_slice_index t < length (tw_slice_volumes t)
                        then t\<lparr>tw_slice_index := tw_slice_index t + 1\<rparr> else t)
          in s\<lparr>s_kind := Twap (t\<lparr>tw_slice_consumed := False,
                 tw_next_deadline_ns := tw_start_time_ns t + of_nat (tw_slice_index t) * tw_interval_ns t\<rparr>),
               s_last_active_publish_seq_no := 0\<rparr>)"

definition twap_of :: "ExecutionSession \<Rightarrow> twap_state option" where
  "twap_of s = (case s_kind s of SequentialClip clip \<Rightarrow> None | Twap t \<Rightarrow> Some t)"

definition slices_done :: "ExecutionSession \<Rightarrow> bool" where
  "slices_done s = (case twap_of s of None \<Rightarrow> False
     | Some t \<Rightarrow> tw_slice_index t \<ge> length (tw_slice_volumes t))"

definition current_budget_volume :: "ExecutionSession \<Rightarrow> Volume" where
  "current_budget_volume s =
     (case twap_of s of
        None \<Rightarrow> 0
      | Some t \<Rightarrow> if tw_slice_index t \<ge> length (tw_slice_volumes t) then 0
                  else min (tw_slice_volumes t ! tw_slice_index t) (session_schedulable_volume s))"

definition slice_consumed :: "ExecutionSession \<Rightarrow> bool" where
  "slice_consumed s = (case twap_of s of None \<Rightarrow> False | Some t \<Rightarrow> tw_slice_consumed t)"

definition set_slice_consumed :: "bool \<Rightarrow> ExecutionSession \<Rightarrow> ExecutionSession" where
  "set_slice_consumed c s =
     (case s_kind s of SequentialClip clip \<Rightarrow> s | Twap t \<Rightarrow> s\<lparr>s_kind := Twap (t\<lparr>tw_slice_consumed := c\<rparr>)\<rparr>)"

text \<open>The submission part of a TWAP tick: the strategy first, the clock when the slice is due.\<close>

definition twap_submit ::
    "exec_env \<Rightarrow> MarketDataView option \<Rightarrow> DPrice \<Rightarrow> Volume \<Rightarrow> TimestampNs \<Rightarrow> TimestampNs
      \<Rightarrow> ExecutionSession \<Rightarrow> world \<Rightarrow> ExecutionSession \<times> world" where
  "twap_submit env view market_price budget_volume now_ns_value now s w =
     (let (s, w) =
            (case view of
               None \<Rightarrow> (s, w)
             | Some v \<Rightarrow>
                 if slice_consumed s then (s, w)
                 else let (taken, s, w) = try_active_submit env v market_price budget_volume now s w
                      in (set_slice_consumed taken s, w));
          due = (case twap_of s of None \<Rightarrow> False | Some t \<Rightarrow> now_ns_value \<ge> tw_next_deadline_ns t)
      in if \<not> slice_consumed s \<and> due
         then let (taken, s, w) = submit_child budget_volume market_price False now s w
              in (set_slice_consumed taken s, w)
         else (s, w))"

text \<open>The end of a TWAP tick.\<close>

definition twap_close :: "TimestampNs \<Rightarrow> ExecutionSession \<times> world \<Rightarrow> ExecutionSession \<times> world" where
  "twap_close now = (\<lambda>(s, w).
     let s = advance_slice_if_ready s;
         s = (if slices_done s \<and> \<not> has_working_children s then s\<lparr>s_terminal := True\<rparr> else s)
     in idle_or_sync now (s, w))"

definition tick_twap ::
    "exec_env \<Rightarrow> TimestampNs \<Rightarrow> TimestampNs \<Rightarrow> ExecutionSession \<Rightarrow> world \<Rightarrow> ExecutionSession \<times> world" where
  "tick_twap env now_ns_value now s w =
     (let (found, s) = refresh_parent_state s w
      in if \<not> found then (s, sync_parent_view now s w)
      else if s_failed s then let s = s\<lparr>s_terminal := True\<rparr> in (s, sync_parent_view now s w)
      else let s = advance_slice_if_ready s
      in if slices_done s
         then let s = (if \<not> has_working_children s then s\<lparr>s_terminal := True\<rparr> else s)
              in (s, sync_parent_view now s w)
      else if s_cancel_requested s then idle_or_sync now (finalize_parent_if_idle now s w)
      else let budget_volume = current_budget_volume s
      in if budget_volume > 0
         then case resolve_submit_price env s of
                (view, None, s) \<Rightarrow> (s, sync_parent_view now s w)
              | (view, Some market_price, s) \<Rightarrow>
                  twap_close now (twap_submit env view market_price budget_volume now_ns_value now s w)
         else twap_close now (s, w))"

text \<open>\<open>now_ns_value\<close> is the argument of \<open>tick\<close>, \<open>now\<close> the clock that it reads.\<close>

definition session_tick ::
    "exec_env \<Rightarrow> TimestampNs \<Rightarrow> TimestampNs \<Rightarrow> ExecutionSession \<Rightarrow> world \<Rightarrow> ExecutionSession \<times> world" where
  "session_tick env now_ns_value now s w =
     (case s_kind s of
        SequentialClip clip \<Rightarrow> tick_sequential env clip now s w
      | Twap _ \<Rightarrow> tick_twap env now_ns_value now s w)"


section \<open>Responses\<close>

text \<open>\<open>on_child_finalized\<close>, virtual: only the TWAP session does something.\<close>

definition on_child_finalized :: "ExecutionSession \<Rightarrow> ExecutionSession" where
  "on_child_finalized s = (case s_kind s of SequentialClip clip \<Rightarrow> s | Twap t \<Rightarrow> advance_slice_if_ready s)"

definition put_ledger ::
    "InternalOrderId \<Rightarrow> child_execution_ledger \<Rightarrow> ExecutionSession \<Rightarrow> ExecutionSession" where
  "put_ledger i l s = s\<lparr>s_ledgers := map (\<lambda>(j, l'). if j = i then (j, l) else (j, l')) (s_ledgers s)\<rparr>"

definition finish_ledger :: "Volume \<Rightarrow> child_execution_ledger \<Rightarrow> child_execution_ledger" where
  "finish_ledger cancelled_volume l =
     (let unresolved_before = unresolved_volume l
      in l\<lparr>final_cancelled_volume :=
             (if cancelled_volume > 0
              then let max_cancelled = (if led_traded_volume l \<ge> entrust_volume l then 0
                                        else entrust_volume l - led_traded_volume l)
                   in min cancelled_volume max_cancelled
              else if unresolved_before = 0 then 0
              else unresolved_before),
           finalized := True\<rparr>)"

definition finalize_finished_child ::
    "InternalOrderId \<Rightarrow> child_execution_ledger \<Rightarrow> Volume \<Rightarrow> ExecutionSession \<Rightarrow> ExecutionSession" where
  "finalize_finished_child i l cancelled_volume s =
     (let s = put_ledger i (finish_ledger cancelled_volume l) s
      in if s_cancel_requested s \<and> \<not> has_working_children s
         then s\<lparr>s_last_active_publish_seq_no := 0\<rparr> else s)"

definition ledger_after_response :: "TradeResponse \<Rightarrow> child_execution_ledger \<Rightarrow> child_execution_ledger" where
  "ledger_after_response response l =
     (let l = (if tr_volume_traded response > 0
               then l\<lparr>led_traded_volume := min (entrust_volume l) (led_traded_volume l + tr_volume_traded response),
                      led_traded_value := saturating_add (led_traded_value l) (tr_dvalue_traded response),
                      led_fee := saturating_add (led_fee l) (tr_dfee response)\<rparr>
               else l)
      in l\<lparr>led_order_state := tr_new_state response\<rparr>)"

definition session_on_trade_response :: "TradeResponse \<Rightarrow> ExecutionSession \<Rightarrow> ExecutionSession" where
  "session_on_trade_response response s =
     (let i = tr_internal_order_id response
      in case map_of (s_ledgers s) i of
           None \<Rightarrow> s
         | Some ledger \<Rightarrow>
             if finalized ledger then s
             else let ledger = ledger_after_response response ledger
             in if tr_new_state response = OrderState.Finished
                then on_child_finalized
                       (finalize_finished_child i ledger (tr_cancelled_volume response) s)
             else if is_failure_terminal_state (tr_new_state response)
                then let ledger = ledger\<lparr>final_cancelled_volume := unresolved_volume ledger, finalized := True\<rparr>
                     in on_child_finalized ((put_ledger i ledger s)\<lparr>s_failed := True\<rparr>)
             else put_ledger i ledger s)"

section \<open>The engine\<close>

datatype SessionStartResult =
    Started | Unsupported | InvalidConfig | Duplicate | MarketDataUnavailable | Unsplittable

text \<open>
  The sessions are kept in the order in which \<open>tick\<close> visits them; for an
  \<open>unordered_map\<close> that order is not specified, and nothing below relies on it.
\<close>

record ExecutionEngine =
  en_split_config :: split_config
  en_env :: exec_env
  en_sessions :: "(InternalOrderId \<times> ExecutionSession) list"

definition should_manage :: "ExecutionEngine \<Rightarrow> OrderRequest \<Rightarrow> bool" where
  "should_manage eng req =
     (if order_type req \<noteq> New then False
      else is_managed_strategy (resolve_execution_strategy req (en_split_config eng)))"

definition has_active_strategy :: "ExecutionEngine \<Rightarrow> bool" where
  "has_active_strategy eng = (ee_active_strategy (en_env eng) \<noteq> None)"

definition new_twap_state :: "OrderRequest \<Rightarrow> split_config \<Rightarrow> TimestampNs \<Rightarrow> twap_state" where
  "new_twap_state parent_request config start_time_ns =
     (let interval = ucast (interval_ms config) * 1000000;
          (ok, slices) = (if interval \<noteq> 0 then build_twap_slice_plan parent_request config else (False, []))
      in \<lparr>tw_valid = (interval \<noteq> 0 \<and> ok), tw_start_time_ns = start_time_ns, tw_interval_ns = interval,
          tw_next_deadline_ns = start_time_ns, tw_slice_index = 0, tw_slice_consumed = False,
          tw_slice_volumes = slices\<rparr>)"

definition create_execution_session ::
    "split_config \<Rightarrow> OrderIndex \<Rightarrow> OrderRequest \<Rightarrow> StrategyId \<Rightarrow> TimestampNs \<Rightarrow> ExecutionSession option" where
  "create_execution_session config parent_index parent_request strat start_time_ns =
     (case resolve_execution_strategy parent_request config of
        SplitStrategy.FixedSize \<Rightarrow> Some (new_session parent_index parent_request strat
          PassiveExecutionAlgo.FixedSize (SequentialClip (resolve_clip_volume config)))
      | SplitStrategy.Iceberg \<Rightarrow> Some (new_session parent_index parent_request strat
          PassiveExecutionAlgo.Iceberg (SequentialClip (resolve_clip_volume config)))
      | SplitStrategy.TWAP \<Rightarrow> Some (new_session parent_index parent_request strat
          PassiveExecutionAlgo.TWAP (Twap (new_twap_state parent_request config start_time_ns)))
      | _ \<Rightarrow> None)"

definition start_session ::
    "OrderIndex \<Rightarrow> OrderRequest \<Rightarrow> StrategyId \<Rightarrow> TimestampNs \<Rightarrow> TimestampNs \<Rightarrow> ExecutionEngine \<Rightarrow> world
      \<Rightarrow> SessionStartResult \<times> ExecutionEngine \<times> world" where
  "start_session parent_index parent_request strat start_time_ns now eng w =
     (let i = internal_order_id parent_request; config = en_split_config eng; env = en_env eng
      in if \<not> should_manage eng parent_request then (InvalidConfig, eng, w)
      else if map_of (en_sessions eng) i \<noteq> None then (Duplicate, eng, w)
      else if \<not> is_supported_session_strategy (resolve_execution_strategy parent_request config)
           then (Unsupported, eng, w)
      else let market_data_ready = (case ee_market_data env of None \<Rightarrow> False | Some md \<Rightarrow> md_ready md)
      in if \<not> market_data_ready \<and> \<not> allow_price_fallback env then (MarketDataUnavailable, eng, w)
      else case create_execution_session config parent_index parent_request strat start_time_ns of
        None \<Rightarrow> (InvalidConfig, eng, w)
      | Some session \<Rightarrow>
          if \<not> is_valid session then (Unsplittable, eng, w)
          else let (marked, w) = on_book (mark_managed_parent i) now w
          in if \<not> marked then (InvalidConfig, eng, w)
          else let (session, w) = session_tick env start_time_ns now session w
               in (Started, eng\<lparr>en_sessions := en_sessions eng @ [(i, session)]\<rparr>, w))"

fun tick_sessions ::
    "exec_env \<Rightarrow> TimestampNs \<Rightarrow> TimestampNs \<Rightarrow> (InternalOrderId \<times> ExecutionSession) list \<Rightarrow> world
      \<Rightarrow> (InternalOrderId \<times> ExecutionSession) list \<times> world" where
  "tick_sessions env now_ns_value now [] w = ([], w)"
| "tick_sessions env now_ns_value now ((i, s) # rest) w =
     (let (s, w) = session_tick env now_ns_value now s w;
          (rest, w) = tick_sessions env now_ns_value now rest w
      in ((i, s) # rest, w))"

definition engine_tick :: "TimestampNs \<Rightarrow> TimestampNs \<Rightarrow> ExecutionEngine \<Rightarrow> world \<Rightarrow> ExecutionEngine \<times> world" where
  "engine_tick now_ns_value now eng w =
     (let (sessions, w) = tick_sessions (en_env eng) now_ns_value now (en_sessions eng) w
      in (eng\<lparr>en_sessions := filter (\<lambda>(i, s). \<not> s_terminal s) sessions\<rparr>, w))"

definition engine_on_trade_response :: "TradeResponse \<Rightarrow> ExecutionEngine \<Rightarrow> world \<Rightarrow> ExecutionEngine" where
  "engine_on_trade_response response eng w =
     (case try_get_parent (tr_internal_order_id response) (w_book w) of
        None \<Rightarrow> eng
      | Some parent_id \<Rightarrow> eng\<lparr>en_sessions := map (\<lambda>(i, s).
          if i = parent_id then (i, session_on_trade_response response s) else (i, s)) (en_sessions eng)\<rparr>)"

end
