(* ===== verification/Execution_Facts.thy ===== *)
theory Execution_Facts
  imports Execution
begin

text \<open>
  What the execution sessions guarantee: the TWAP plan cuts the parent's volume into slices
  without loss, no run of ticks and responses ever commits more than the parent's volume, and
  a clip session is done after the expected number of filled rounds.
\<close>

section \<open>The TWAP plan\<close>

lemma unat_ucast_32_64 [simp]: "unat (ucast (x :: u32) :: u64) = unat x"
proof -
  have "unat x < 2 ^ 64" using unsigned_less [where ?'a = nat, of x] by simp
  then show ?thesis by (simp add: unsigned_ucast_eq take_bit_nat_eq_self)
qed

lemma slice_loop_sum:
  assumes "unat base_volume * n + unat remainder < 2 ^ 64" "unat remainder < n \<or> n = 0 \<and> remainder = 0"
  shows "(\<Sum>v\<leftarrow>slice_loop n base_volume remainder. unat v) = unat base_volume * n + unat remainder
    \<and> length (slice_loop n base_volume remainder) \<le> n
    \<and> (\<forall>v\<in>set (slice_loop n base_volume remainder). v \<noteq> 0
         \<and> unat base_volume \<le> unat v \<and> unat v \<le> unat base_volume + 1)"
  using assms
proof (induction n base_volume remainder rule: slice_loop.induct)
  case (2 n base_volume remainder)
  show ?case
  proof (cases "remainder > 0")
    case True
    then have r: "unat (remainder - 1) = unat remainder - 1" "0 < unat remainder"
      by (simp_all add: unat_minus_one word_gt_0 unat_gt_0)
    have n: "n \<noteq> 0 \<or> remainder = 1"
      using "2.prems"(2) r by (cases n) (auto simp: word_unat_eq_iff)
    have b1: "unat base_volume + 1 < 2 ^ 64" using "2.prems"(1) r(2) by (simp add: algebra_simps)
    then have b: "unat (base_volume + 1) = unat base_volume + 1" by (simp add: unat_word_ariths)
    then have "base_volume + 1 > 0" by (metis add_gr_0 less_one unat_gt_0 word_gt_0)
    moreover have "(\<Sum>v\<leftarrow>slice_loop n base_volume (remainder - 1). unat v)
        = unat base_volume * n + unat (remainder - 1)
      \<and> length (slice_loop n base_volume (remainder - 1)) \<le> n
      \<and> (\<forall>v\<in>set (slice_loop n base_volume (remainder - 1)). v \<noteq> 0
         \<and> unat base_volume \<le> unat v \<and> unat v \<le> unat base_volume + 1)"
      using "2.IH" [OF refl refl] True "2.prems" r n by (simp add: Let_def algebra_simps)
    ultimately show ?thesis using True r b by (auto simp: Let_def)
  next
    case False
    then have z: "remainder = 0" by (simp add: word_gt_0)
    have "unat base_volume * n < 2 ^ 64" using "2.prems"(1) by (simp add: z)
    then have IH: "(\<Sum>v\<leftarrow>slice_loop n base_volume 0. unat v) = unat base_volume * n
      \<and> length (slice_loop n base_volume 0) \<le> n
      \<and> (\<forall>v\<in>set (slice_loop n base_volume 0). v \<noteq> 0
         \<and> unat base_volume \<le> unat v \<and> unat v \<le> unat base_volume + 1)"
      using "2.IH" [OF refl refl] z by (cases n) simp_all
    then show ?thesis by (cases "base_volume = 0") (auto simp: z word_gt_0)
  qed
qed simp

lemma build_twap_slice_plan_Some:
  assumes "build_twap_slice_plan r c = (True, slices)"
  obtains n where "0 < n" "n \<le> unat (max_child_count c)"
    "slices = slice_loop n (of_nat (unat (volume_entrust r) div n)) (of_nat (unat (volume_entrust r) mod n))"
    "unat (of_nat (unat (volume_entrust r) div n) :: u64) = unat (volume_entrust r) div n"
    "unat (of_nat (unat (volume_entrust r) mod n) :: u64) = unat (volume_entrust r) mod n"
proof -
  define k where "k = min (max ((volume_entrust r + resolve_clip_volume c - 1) div resolve_clip_volume c) 1)
    (ucast (max_child_count c))"
  have k: "k \<noteq> 0" "slices = slice_loop (unat k) (volume_entrust r div k) (volume_entrust r mod k)"
    using assms by (auto simp: build_twap_slice_plan_def Let_def k_def split: if_splits)
  have "k \<le> ucast (max_child_count c)" by (simp add: k_def)
  then have "unat k \<le> unat (max_child_count c)"
    by (simp add: word_le_nat_alt unat_ucast_32_64)
  moreover have u: "unat (volume_entrust r div k) = unat (volume_entrust r) div unat k"
    "unat (volume_entrust r mod k) = unat (volume_entrust r) mod unat k"
    by (simp_all add: unat_div unat_mod)
  moreover have "volume_entrust r div k = of_nat (unat (volume_entrust r) div unat k)"
    "volume_entrust r mod k = of_nat (unat (volume_entrust r) mod unat k)"
    by (simp_all only: u [symmetric] of_nat_unat ucast_id)
  ultimately show thesis using k by (intro that [of "unat k"]) (simp_all add: unat_gt_0)
qed

lemma twap_plan_slices:
  assumes "build_twap_slice_plan parent_request config = (True, slices)"
  shows "\<exists>n. 0 < n \<and> n \<le> unat (max_child_count config) \<and> (\<Sum>v\<leftarrow>slices. unat v) = unat (volume_entrust parent_request)
    \<and> length slices \<le> n \<and> (\<forall>v\<in>set slices. v \<noteq> 0
         \<and> unat (volume_entrust parent_request) div n \<le> unat v
         \<and> unat v \<le> unat (volume_entrust parent_request) div n + 1)"
proof -
  let ?v = "unat (volume_entrust parent_request)"
  from build_twap_slice_plan_Some [OF assms] obtain n where n: "0 < n" "n \<le> unat (max_child_count config)"
    "slices = slice_loop n (of_nat (?v div n)) (of_nat (?v mod n))"
    "unat (of_nat (?v div n) :: u64) = ?v div n" "unat (of_nat (?v mod n) :: u64) = ?v mod n" .
  have "?v div n * n + ?v mod n = ?v" by simp
  then have "unat (of_nat (?v div n) :: u64) * n + unat (of_nat (?v mod n) :: u64) < 2 ^ 64"
    using unat_lt_2_64 [of "volume_entrust parent_request"] n(4,5) by simp
  moreover have "unat (of_nat (?v mod n) :: u64) < n" using n(1,5) by simp
  ultimately show ?thesis
    using slice_loop_sum [of "of_nat (?v div n)" n "of_nat (?v mod n)"] n by (intro exI [of _ n]) simp
qed

lemma slice_sum: "build_twap_slice_plan req config = (True, slices) \<Longrightarrow>
    (\<Sum>v\<leftarrow>slices. unat v) = unat (volume_entrust req)"
  using twap_plan_slices [of req config slices] by blast

text \<open>
  C15: the TWAP plan loses nothing.  When a plan is made, its slices add up to exactly the
  parent's volume, there are at most \<open>max_child_count\<close> of them, none is empty, and no two
  differ by more than one unit.
\<close>

theorem twap_plan_partitions:
  assumes "build_twap_slice_plan parent_request config = (True, slices)"
  shows "(\<Sum>v\<leftarrow>slices. unat v) = unat (volume_entrust parent_request)
    \<and> slices \<noteq> [] \<and> length slices \<le> unat (max_child_count config)
    \<and> (\<forall>v\<in>set slices. v \<noteq> 0) \<and> (\<forall>v\<in>set slices. \<forall>v'\<in>set slices. unat v \<le> unat v' + 1)"
proof -
  from twap_plan_slices [OF assms] obtain n where s: "n \<le> unat (max_child_count config)"
    "(\<Sum>v\<leftarrow>slices. unat v) = unat (volume_entrust parent_request)" "length slices \<le> n"
    "\<forall>v\<in>set slices. v \<noteq> 0 \<and> unat (volume_entrust parent_request) div n \<le> unat v
         \<and> unat v \<le> unat (volume_entrust parent_request) div n + 1" by blast
  have "slices \<noteq> []" using assms by (auto simp: build_twap_slice_plan_def Let_def split: if_splits)
  moreover have "unat v \<le> unat v' + 1" if "v \<in> set slices" "v' \<in> set slices" for v v'
    using s(4) that by (meson add_le_mono1 order_trans)
  ultimately show ?thesis using s by auto
qed

definition split_example :: "SplitStrategy \<Rightarrow> split_config" where
  "split_example strategy = \<lparr>sc_strategy = strategy, max_child_volume = 300, min_child_volume = 100,
     max_child_count = 100, interval_ms = 1000\<rparr>"

lemma twap_plan_partitions_witness:
  "build_twap_slice_plan (request (order_example 7 1000)) (split_example SplitStrategy.TWAP)
     = (True, [250, 250, 250, 250])
   \<and> (\<Sum>v\<leftarrow>[250, 250, 250, 250 :: u64]. unat v) = 1000"
proof -
  have p: "build_twap_slice_plan (request (order_example 7 1000)) (split_example SplitStrategy.TWAP)
     = (True, [250, 250, 250, 250])" by code_simp
  have v: "unat (volume_entrust (request (order_example 7 1000))) = 1000"
    by (simp add: order_example_def)
  from twap_plan_partitions [OF p] v p show ?thesis by (simp del: sum_list.Cons list.map)
qed


section \<open>The budget of a session\<close>

text \<open>What a ledger has traded or may still trade, and what the open slices are reserved for.\<close>

definition committed :: "child_execution_ledger \<Rightarrow> nat" where
  "committed l = unat (led_traded_volume l) + unat (unresolved_volume l)"

definition ledger_ok :: "child_execution_ledger \<Rightarrow> bool" where
  "ledger_ok l \<longleftrightarrow> led_traded_volume l \<le> entrust_volume l \<and> (\<not> finalized l \<longrightarrow> final_cancelled_volume l = 0)"

definition ledger_total :: "(InternalOrderId \<times> child_execution_ledger) list \<Rightarrow> nat" where
  "ledger_total ls = (\<Sum>(i, l)\<leftarrow>ls. committed l)"

fun reserved :: "session_kind \<Rightarrow> nat" where
  "reserved (SequentialClip clip) = 0"
| "reserved (Twap t) = (\<Sum>v\<leftarrow>drop (tw_slice_index t + (if tw_slice_consumed t then 1 else 0)) (tw_slice_volumes t). unat v)"

definition ledgers_ok :: "(InternalOrderId \<times> child_execution_ledger) list \<Rightarrow> bool" where
  "ledgers_ok ls \<longleftrightarrow> (\<forall>(i, l)\<in>set ls. ledger_ok l) \<and> distinct (map fst ls)"

definition fits_in :: "nat \<Rightarrow> ExecutionSession \<Rightarrow> bool" where
  "fits_in n s \<longleftrightarrow> ledgers_ok (s_ledgers s)
     \<and> ledger_total (s_ledgers s) + reserved (s_kind s) + n \<le> unat (volume_entrust (s_parent_request s))"

abbreviation session_ok :: "ExecutionSession \<Rightarrow> bool" where
  "session_ok \<equiv> fits_in 0"

lemma committed_eq:
  assumes "ledger_ok l"
  shows "committed l = (if finalized l then unat (led_traded_volume l) else unat (entrust_volume l))"
  using assms by (auto simp: committed_def ledger_ok_def unresolved_volume_def Let_def unat_sub word_le_nat_alt)

lemma committed_le: "ledger_ok l \<Longrightarrow> unat (led_traded_volume l) \<le> committed l \<and> committed l \<le> unat (entrust_volume l)"
  by (simp add: committed_eq) (simp add: ledger_ok_def word_le_nat_alt)

lemma unat_sum_ledgers:
  "unat (sum_ledgers f s) = min (2 ^ 64 - 1) (\<Sum>(i, l)\<leftarrow>s_ledgers s. unat (f l))"
  using sat_fold [of "\<lambda>(i, l). f l" "s_ledgers s" 0]
  by (simp add: sum_ledgers_def case_prod_beta')

lemma session_sums:
  assumes "fits_in n s"
  shows "unat (confirmed_traded_volume s) + unat (session_working_volume s) = ledger_total (s_ledgers s)"
    "unat (remaining_target s) = unat (volume_entrust (s_parent_request s)) - unat (confirmed_traded_volume s)"
    "unat (session_schedulable_volume s) = unat (volume_entrust (s_parent_request s)) - ledger_total (s_ledgers s)"
proof -
  let ?T = "unat (volume_entrust (s_parent_request s))"
  have t: "(\<Sum>(i, l)\<leftarrow>s_ledgers s. unat (led_traded_volume l)) + (\<Sum>(i, l)\<leftarrow>s_ledgers s. unat (unresolved_volume l))
      = ledger_total (s_ledgers s)"
    unfolding ledger_total_def by (induction "s_ledgers s") (auto simp: committed_def sum_list_addf case_prod_beta)
  moreover have le: "ledger_total (s_ledgers s) \<le> ?T" using assms by (simp add: fits_in_def)
  moreover have "?T < 2 ^ 64" by (rule unat_lt_2_64)
  ultimately show c: "unat (confirmed_traded_volume s) + unat (session_working_volume s) = ledger_total (s_ledgers s)"
    by (simp add: confirmed_traded_volume_def session_working_volume_def unat_sum_ledgers)
  show r: "unat (remaining_target s) = ?T - unat (confirmed_traded_volume s)"
    by (simp add: remaining_target_def Let_def word_le_nat_alt unat_sub)
  show "unat (session_schedulable_volume s) = ?T - ledger_total (s_ledgers s)"
    using c le by (auto simp: session_schedulable_volume_def Let_def word_le_nat_alt unat_sub r)
qed

lemma fits_in_mono: "fits_in n s \<Longrightarrow> m \<le> n \<Longrightarrow> fits_in m s"
  by (auto simp: fits_in_def)

lemma fits_in_fields [simp]:
  "fits_in n (s\<lparr>s_failed := a\<rparr>) = fits_in n s" "fits_in n (s\<lparr>s_terminal := a\<rparr>) = fits_in n s"
  "fits_in n (s\<lparr>s_cancel_requested := a\<rparr>) = fits_in n s"
  "fits_in n (s\<lparr>s_order_price_fallback_logged := a\<rparr>) = fits_in n s"
  "fits_in n (s\<lparr>s_last_active_publish_seq_no := q\<rparr>) = fits_in n s"
  by (simp_all add: fits_in_def)

section \<open>Ticks and responses keep the budget\<close>

lemma committed_flag [simp]:
  "committed (l\<lparr>led_cancel_requested := c\<rparr>) = committed l"
  "ledger_ok (l\<lparr>led_cancel_requested := c\<rparr>) = ledger_ok l"
  by (simp_all add: committed_def ledger_ok_def unresolved_volume_def Let_def)

lemma mark_cancel_fits: "fits_in n s \<Longrightarrow> fits_in n (mark_cancel b i s)"
proof -
  assume f: "fits_in n s"
  have t: "ledger_total (map (\<lambda>(i, l). if i = j then (i, l\<lparr>led_cancel_requested := True\<rparr>) else (i, l)) ls)
      = ledger_total ls" for j ls
    by (induction ls) (auto simp: ledger_total_def)
  have k: "map fst (map (\<lambda>(i, l). if i = j then (i, l\<lparr>led_cancel_requested := True\<rparr>) else (i, l)) ls) = map fst ls" for j ls
    by (induction ls) auto
  show ?thesis
    using f unfolding fits_in_def mark_cancel_def ledgers_ok_def
    by (auto simp: t k simp del: map_map split: option.splits if_splits)
qed

lemma mark_cancel_sel:
  "s_kind (mark_cancel b i s) = s_kind s" "s_parent_request (mark_cancel b i s) = s_parent_request s"
  by (simp_all add: mark_cancel_def split: option.splits)

lemma refresh_fits:
  assumes "refresh_parent_state s w = (found, s')"
  shows "fits_in n s \<Longrightarrow> fits_in n s'" "s_kind s' = s_kind s" "s_parent_request s' = s_parent_request s"
proof -
  have "fits_in n s0 \<Longrightarrow> fits_in n (fold (mark_cancel b) ids s0)"
    "s_kind (fold (mark_cancel b) ids s0) = s_kind s0"
    "s_parent_request (fold (mark_cancel b) ids s0) = s_parent_request s0" for b ids s0
    by (induction ids arbitrary: s0) (auto simp: mark_cancel_fits mark_cancel_sel)
  then show "fits_in n s \<Longrightarrow> fits_in n s'" "s_kind s' = s_kind s" "s_parent_request s' = s_parent_request s"
    using assms by (auto simp: refresh_parent_state_def split: option.splits)
qed

text \<open>What a submission of at most \<open>b\<close> does to the ledgers.\<close>

definition submitted :: "Volume \<Rightarrow> bool \<Rightarrow> ExecutionSession \<Rightarrow> ExecutionSession \<Rightarrow> bool" where
  "submitted b taken s s' \<longleftrightarrow> s_kind s' = s_kind s \<and> s_parent_request s' = s_parent_request s
     \<and> (ledgers_ok (s_ledgers s) \<longrightarrow> ledgers_ok (s_ledgers s'))
     \<and> ledger_total (s_ledgers s') \<le> ledger_total (s_ledgers s) + (if taken then unat b else 0)"

lemma submitted_fits:
  "submitted b taken s s' \<Longrightarrow> fits_in (n + unat b) s \<Longrightarrow> fits_in (if taken then n else n + unat b) s'"
  by (auto simp: submitted_def fits_in_def)

lemma submit_child_submitted:
  assumes "submit_child v p a now s w = (taken, s', w')"
  shows "submitted v taken s s'"
proof (cases "v = 0 \<or> p = 0")
  case True
  with assms show ?thesis by (auto simp: submit_child_def submitted_def)
next
  case False
  then have v: "v \<noteq> 0" "p \<noteq> 0" by auto
  define e where "e = OrderEntry_default\<lparr>
                 request := make_child_request (s_parent_request s) 0 v p a,
                 submit_time_ns := now, last_update_ns := now, strategy_id := s_strategy_id s,
                 risk_result := Pass, retry_count := 0, is_split_child := True,
                 parent_order_id := parent_order_id_of s, shm_order_index := kInvalidOrderIndex\<rparr>"
  obtain sent e' w1 where sub: "submit_internal_order e now w = (sent, e', w1)"
    by (cases "submit_internal_order e now w")
  define l where "l = ledger_default\<lparr>led_child_order_id := internal_order_id (request e'),
                    led_shm_order_index := shm_order_index e', entrust_volume := v, entrust_price := p,
                    led_order_state := TraderSubmitted\<rparr>"
  have eq: "submit_child v p a now s w = (if \<not> sent then (False, s\<lparr>s_failed := True, s_terminal := True\<rparr>,
        sync_parent_view now (s\<lparr>s_failed := True, s_terminal := True\<rparr>) w1)
      else (True, emplace_ledger (led_child_order_id l) l s, w1))"
    using False sub by (simp add: submit_child_def e_def [symmetric] l_def Let_def)
  have l: "ledger_ok l" "committed l = unat v"
    by (simp_all add: l_def ledger_default_def ledger_ok_def committed_eq)
  show ?thesis
  proof (cases sent)
    case False
    with assms eq show ?thesis by (auto simp: submitted_def)
  next
    case True
    have t: "ledger_total (s_ledgers s @ [(i, l)]) = ledger_total (s_ledgers s) + unat v" for i
      by (simp add: ledger_total_def l(2))
    have "taken" "s' = emplace_ledger (led_child_order_id l) l s" using assms eq True by simp_all
    then show ?thesis
      using l(1) map_of_eq_None_iff [of "s_ledgers s" "led_child_order_id l"]
      by (auto simp: submitted_def emplace_ledger_def t ledgers_ok_def)
  qed
qed

lemma try_active_submitted:
  assumes "try_active_submit env view p b now s w = (taken, s', w')"
  shows "submitted b taken s s'"
proof (cases "s' = s \<and> \<not> taken")
  case False
  then obtain strategy where str: "ee_active_strategy env = Some strategy"
    and c: "b \<noteq> 0" "has_fresh_prediction (mv_prediction view)"
      "pv_publish_seq_no (mv_prediction view) \<noteq> s_last_active_publish_seq_no s"
    using assms by (auto simp: try_active_submit_def split: option.splits if_splits)
  define s1 where "s1 = s\<lparr>s_last_active_publish_seq_no := pv_publish_seq_no (mv_prediction view)\<rparr>"
  define d where "d = evaluate_strategy strategy (s_parent_request s) view b"
  have eq: "try_active_submit env view p b now s w =
      (if \<not> should_submit d \<or> dec_volume d = 0 \<or> dec_volume d > b then (False, s1, w)
       else submit_child (dec_volume d) p True now s1 w)"
    using str c by (simp add: try_active_submit_def s1_def d_def Let_def)
  show ?thesis
  proof (cases "\<not> should_submit d \<or> dec_volume d = 0 \<or> dec_volume d > b")
    case True
    with assms eq show ?thesis by (auto simp: s1_def submitted_def)
  next
    case False
    then have v: "dec_volume d = b" using evaluate_strategy_volume by (auto simp: d_def)
    have "submit_child b p True now s1 w = (taken, s', w')" using assms eq False v by simp
    from submit_child_submitted [OF this] show ?thesis by (simp add: s1_def submitted_def)
  qed
qed (auto simp: submitted_def)

lemma resolve_submit_price_fits:
  assumes "resolve_submit_price env s = (view, price, s')"
  shows "s_kind s' = s_kind s \<and> s_parent_request s' = s_parent_request s \<and> s_ledgers s' = s_ledgers s
    \<and> s_cancel_requested s' = s_cancel_requested s \<and> s_failed s' = s_failed s \<and> s_terminal s' = s_terminal s
    \<and> fits_in n s' = fits_in n s"
  using assms by (auto simp: resolve_submit_price_def Let_def split: option.splits if_splits)

lemma finalize_idle_fits:
  "s_kind (fst (finalize_parent_if_idle now s w)) = s_kind s"
  "s_parent_request (fst (finalize_parent_if_idle now s w)) = s_parent_request s"
  "fits_in n (fst (finalize_parent_if_idle now s w)) = fits_in n s"
  by (auto simp: finalize_parent_if_idle_def Let_def)

lemma fst_idle_or_sync [simp]: "fst (idle_or_sync now x) = fst x"
  by (auto simp: idle_or_sync_def split: prod.splits)

lemma sched_fits:
  assumes "fits_in 0 s" "unat b \<le> unat (session_schedulable_volume s)" "reserved (s_kind s) = 0"
  shows "fits_in (unat b) s"
  using assms session_sums(3) [OF assms(1)] by (auto simp: fits_in_def)

lemma tick_sequential_fits:
  assumes "session_ok s" "s_kind s = SequentialClip clip"
  shows "session_ok (fst (tick_sequential env clip now s w))
    \<and> s_kind (fst (tick_sequential env clip now s w)) = s_kind s
    \<and> s_parent_request (fst (tick_sequential env clip now s w)) = s_parent_request s"
proof -
  obtain found s1 where r: "refresh_parent_state s w = (found, s1)" by (cases "refresh_parent_state s w")
  note f1 = refresh_fits [OF r]
  have ok1: "session_ok s1" "s_kind s1 = SequentialClip clip" "s_parent_request s1 = s_parent_request s"
    using f1 assms by auto
  define b where "b = min clip (session_schedulable_volume s1)"
  show ?thesis
  proof (cases "\<not> found \<or> s_failed s1 \<or> has_working_children s1 \<or> s_cancel_requested s1 \<or> b = 0")
    case True
    then show ?thesis
      using ok1 assms(2)
      by (auto simp: tick_sequential_def r b_def [symmetric] Let_def finalize_idle_fits)
  next
    case False
    obtain view price s2 where p: "resolve_submit_price env s1 = (view, price, s2)"
      by (cases "resolve_submit_price env s1")
    note f2 = resolve_submit_price_fits [OF p]
    have b: "fits_in (0 + unat b) s1"
      using sched_fits [OF ok1(1), of b] ok1(2) min.cobounded2 [of clip "session_schedulable_volume s1"]
      by (simp add: b_def [symmetric] word_le_nat_alt)
    show ?thesis
    proof (cases price)
      case None
      with False ok1 f2 assms(2) show ?thesis
        by (simp add: tick_sequential_def r b_def [symmetric] Let_def p)
    next
      case (Some q)
      obtain taken s3 w3 where a: "(case view of None \<Rightarrow> (False, s2, w)
          | Some v \<Rightarrow> try_active_submit env v q b now s2 w) = (taken, s3, w3)"
        by (cases "case view of None \<Rightarrow> (False, s2, w) | Some v \<Rightarrow> try_active_submit env v q b now s2 w")
      have "submitted b taken s2 s3"
        using a try_active_submitted [of env _ q b now s2 w taken s3 w3]
        by (cases view) (auto simp: submitted_def)
      then have f3: "s_kind s3 = s_kind s2" "s_parent_request s3 = s_parent_request s2"
          "fits_in (if taken then 0 else 0 + unat b) s3"
        using submitted_fits [of b taken s2 s3 0] b f2 [of "0 + unat b"] by (auto simp: submitted_def)
      obtain t4 s4 w4 where c: "submit_child b q False now s3 w3 = (t4, s4, w4)"
        by (cases "submit_child b q False now s3 w3")
      note f4 = submitted_fits [OF submit_child_submitted [OF c], of 0]
        submit_child_submitted [OF c, unfolded submitted_def]
      have "fst (tick_sequential env clip now s w) = (if taken then s3 else s4)"
        using False by (simp add: tick_sequential_def r b_def [symmetric] Let_def p Some a c)
      with f2 f3 f4 ok1 assms(2) fits_in_mono [of "0 + unat b" s4 0] show ?thesis
        by (auto split: if_splits)
    qed
  qed
qed


lemma twap_of_Some [simp]: "twap_of s = Some t \<longleftrightarrow> s_kind s = Twap t"
  by (simp add: twap_of_def split: session_kind.splits)

lemma reserved_consume:
  assumes "\<not> tw_slice_consumed t" "tw_slice_index t < length (tw_slice_volumes t)"
  shows "reserved (Twap t) = unat (tw_slice_volumes t ! tw_slice_index t) + reserved (Twap (t\<lparr>tw_slice_consumed := True\<rparr>))"
  using assms by (simp add: Cons_nth_drop_Suc [symmetric])

lemma advance_slice_fits:
  "fits_in n s \<Longrightarrow> fits_in n (advance_slice_if_ready s)"
  "s_parent_request (advance_slice_if_ready s) = s_parent_request s"
  "s_ledgers (advance_slice_if_ready s) = s_ledgers s"
  "s_kind s = Twap t \<Longrightarrow> \<exists>t'. s_kind (advance_slice_if_ready s) = Twap t'"
  by (auto simp: advance_slice_if_ready_def Let_def fits_in_def split: session_kind.splits)

lemma slice_submission:
  assumes sub: "submitted b taken s s'" and ok: "session_ok s" and kind: "s_kind s = Twap t"
    and t: "\<not> tw_slice_consumed t" "tw_slice_index t < length (tw_slice_volumes t)"
      "b \<le> tw_slice_volumes t ! tw_slice_index t"
  shows "session_ok (set_slice_consumed taken s')"
    "s_kind (set_slice_consumed taken s') = Twap (t\<lparr>tw_slice_consumed := taken\<rparr>)"
    "s_parent_request (set_slice_consumed taken s') = s_parent_request s"
proof -
  have k': "s_kind s' = Twap t" and p: "s_parent_request s' = s_parent_request s"
    using sub kind by (simp_all add: submitted_def)
  show eq: "s_kind (set_slice_consumed taken s') = Twap (t\<lparr>tw_slice_consumed := taken\<rparr>)"
    "s_parent_request (set_slice_consumed taken s') = s_parent_request s"
    using k' p by (simp_all add: set_slice_consumed_def)
  have r: "reserved (Twap t) = unat (tw_slice_volumes t ! tw_slice_index t)
      + reserved (Twap (t\<lparr>tw_slice_consumed := True\<rparr>))" by (rule reserved_consume [OF t(1,2)])
  have f: "t\<lparr>tw_slice_consumed := False\<rparr> = t" using t(1) by simp
  have l: "s_ledgers (set_slice_consumed taken s') = s_ledgers s'"
    using k' by (simp add: set_slice_consumed_def)
  show "session_ok (set_slice_consumed taken s')"
    using sub ok t(3) r f unfolding fits_in_def l eq kind submitted_def
    by (cases taken) (auto simp: word_le_nat_alt simp del: reserved.simps)
qed

lemma twap_submit_fits:
  assumes ok: "session_ok s" and kind: "s_kind s = Twap t"
    and t: "tw_slice_consumed t \<or> tw_slice_index t < length (tw_slice_volumes t)
      \<and> b \<le> tw_slice_volumes t ! tw_slice_index t"
  shows "session_ok (fst (twap_submit env view p b nv now s w))
    \<and> (\<exists>c. s_kind (fst (twap_submit env view p b nv now s w)) = Twap (t\<lparr>tw_slice_consumed := c\<rparr>))
    \<and> s_parent_request (fst (twap_submit env view p b nv now s w)) = s_parent_request s"
proof -
  have c: "slice_consumed s = tw_slice_consumed t" by (simp add: slice_consumed_def twap_of_def kind)
  obtain s1 w1 where 1: "(case view of None \<Rightarrow> (s, w)
      | Some v \<Rightarrow> if slice_consumed s then (s, w)
                 else let (taken, s, w) = try_active_submit env v p b now s w
                      in (set_slice_consumed taken s, w)) = (s1, w1)" (is "?x = _") by (cases ?x)
  have s1: "session_ok s1 \<and> (\<exists>c. s_kind s1 = Twap (t\<lparr>tw_slice_consumed := c\<rparr>)
      \<and> (tw_slice_consumed t \<longrightarrow> c)) \<and> s_parent_request s1 = s_parent_request s"
  proof (cases "view = None \<or> slice_consumed s")
    case True
    then have "s1 = s" using 1 by (auto split: option.splits)
    moreover have "t = t\<lparr>tw_slice_consumed := tw_slice_consumed t\<rparr>" by simp
    ultimately show ?thesis using ok kind by metis
  next
    case False
    then obtain v taken s2 where v: "view = Some v" "try_active_submit env v p b now s w = (taken, s2, w1)"
      "s1 = set_slice_consumed taken s2" using 1 by (auto split: prod.splits)
    note sub = slice_submission [OF try_active_submitted [OF v(2)] ok kind]
    have "\<not> tw_slice_consumed t" using False c by simp
    with sub t show ?thesis unfolding v(3) by auto
  qed
  then obtain c1 where k1: "s_kind s1 = Twap (t\<lparr>tw_slice_consumed := c1\<rparr>)" "tw_slice_consumed t \<longrightarrow> c1" by blast
  show ?thesis
  proof (cases "\<not> slice_consumed s1 \<and> nv \<ge> tw_next_deadline_ns t")
    case False
    then have "fst (twap_submit env view p b nv now s w) = s1"
      using 1 k1 False by (auto simp: twap_submit_def Let_def twap_of_def)
    with s1 show ?thesis by auto
  next
    case True
    obtain taken s2 w2 where sc: "submit_child b p False now s1 w1 = (taken, s2, w2)"
      by (cases "submit_child b p False now s1 w1")
    have e: "fst (twap_submit env view p b nv now s w) = set_slice_consumed taken s2"
      using 1 k1 True sc by (simp add: twap_submit_def Let_def twap_of_def)
    have "\<not> c1" using True k1(1) by (simp add: slice_consumed_def twap_of_def)
    then have "\<not> tw_slice_consumed (t\<lparr>tw_slice_consumed := c1\<rparr>)" "\<not> tw_slice_consumed t" using k1(2) by auto
    with slice_submission [OF submit_child_submitted [OF sc] _ k1(1)] s1 t show ?thesis
      unfolding e by auto
  qed
qed

lemma advance_kind:
  "s_kind s = Twap t \<Longrightarrow> \<exists>t'. s_kind (advance_slice_if_ready s) = Twap t'
     \<and> tw_slice_volumes t' = tw_slice_volumes t"
  by (auto simp: advance_slice_if_ready_def Let_def)

lemma twap_close_fits:
  "fits_in n s \<Longrightarrow> fits_in n (fst (twap_close now (s, w)))"
  "s_parent_request (fst (twap_close now (s, w))) = s_parent_request s"
  "s_kind (fst (twap_close now (s, w))) = s_kind (advance_slice_if_ready s)"
  using advance_slice_fits(1) [of n s] advance_slice_fits(2) [of s] by (auto simp: twap_close_def Let_def)

lemma tick_twap_fits:
  assumes "session_ok s" "s_kind s = Twap t"
  shows "session_ok (fst (tick_twap env nv now s w))
    \<and> (\<exists>t'. s_kind (fst (tick_twap env nv now s w)) = Twap t')
    \<and> s_parent_request (fst (tick_twap env nv now s w)) = s_parent_request s"
proof -
  obtain found s1 where r: "refresh_parent_state s w = (found, s1)" by (cases "refresh_parent_state s w")
  note f1 = refresh_fits [OF r]
  define s2 where "s2 = advance_slice_if_ready s1"
  obtain t2 where t2: "s_kind s2 = Twap t2" using f1(2) assms(2) advance_kind [of s1] by (auto simp: s2_def)
  have ok: "session_ok s1" "session_ok s2" "s_parent_request s2 = s_parent_request s"
    "s_parent_request s1 = s_parent_request s" "s_kind s1 = Twap t"
    using f1 assms advance_slice_fits(1) [of 0 s1] advance_slice_fits(2) [of s1] by (auto simp: s2_def)
  define b where "b = current_budget_volume s2"
  show ?thesis
  proof (cases "found \<and> \<not> s_failed s1 \<and> \<not> slices_done s2 \<and> \<not> s_cancel_requested s2")
    case False
    then show ?thesis
      using ok t2 by (auto simp: tick_twap_def r s2_def [symmetric] Let_def finalize_idle_fits)
  next
    case True
    have idx: "tw_slice_index t2 < length (tw_slice_volumes t2)"
      using True t2 by (simp add: slices_done_def twap_of_def)
    then have b: "b \<le> tw_slice_volumes t2 ! tw_slice_index t2"
      using t2 by (simp add: b_def current_budget_volume_def twap_of_def)
    show ?thesis
    proof (cases "b > 0")
      case False
      then have "fst (tick_twap env nv now s w) = fst (twap_close now (s2, w))"
        using True by (simp add: tick_twap_def r s2_def [symmetric] b_def [symmetric] Let_def)
      then show ?thesis using twap_close_fits(1) [of 0 s2 now w] twap_close_fits(2,3) [of now s2 w] ok t2 advance_kind [of s2] by auto
    next
      case pos: True
      obtain view price s3 where p: "resolve_submit_price env s2 = (view, price, s3)"
        by (cases "resolve_submit_price env s2")
      note f3 = resolve_submit_price_fits [OF p, of 0]
      show ?thesis
      proof (cases price)
        case None
        then show ?thesis using True pos p f3 ok t2
          by (simp add: tick_twap_def r s2_def [symmetric] b_def [symmetric] Let_def)
      next
        case (Some q)
        obtain s4 w4 where s4: "twap_submit env view q b nv now s3 w = (s4, w4)"
          by (cases "twap_submit env view q b nv now s3 w")
        have "fst (tick_twap env nv now s w) = fst (twap_close now (s4, w4))"
          using True pos p Some s4 by (simp add: tick_twap_def r s2_def [symmetric] b_def [symmetric] Let_def)
        moreover have "session_ok s4 \<and> (\<exists>t'. s_kind s4 = Twap t') \<and> s_parent_request s4 = s_parent_request s"
          using twap_submit_fits [of s3 t2 b env view q nv now w] s4 f3 ok t2 idx b by auto
        ultimately show ?thesis using twap_close_fits(1) [of 0 s4 now w4] twap_close_fits(2,3) [of now s4 w4] advance_kind [of s4] by auto
      qed
    qed
  qed
qed

lemma session_tick_fits:
  "session_ok s \<Longrightarrow> session_ok (fst (session_tick env nv now s w))
     \<and> s_parent_request (fst (session_tick env nv now s w)) = s_parent_request s"
  using tick_sequential_fits [of s] tick_twap_fits [of s]
  by (auto simp: session_tick_def split: session_kind.splits)


lemma ledger_after_response_ok:
  assumes "ledger_ok l" "\<not> finalized l"
  shows "ledger_ok (ledger_after_response r l)" "\<not> finalized (ledger_after_response r l)"
    "committed (ledger_after_response r l) = committed l"
    "entrust_volume (ledger_after_response r l) = entrust_volume l"
proof -
  show 1: "ledger_ok (ledger_after_response r l)" "\<not> finalized (ledger_after_response r l)"
    and 2: "entrust_volume (ledger_after_response r l) = entrust_volume l"
    using assms by (auto simp: ledger_ok_def ledger_after_response_def Let_def)
  show "committed (ledger_after_response r l) = committed l"
    using committed_eq [OF assms(1)] committed_eq [OF 1(1)] 1(2) 2 assms(2) by simp
qed

lemma put_ledger_fits:
  assumes "fits_in n s" "map_of (s_ledgers s) i = Some l" "ledger_ok l'" "committed l' \<le> committed l"
  shows "fits_in n (put_ledger i l' s)"
proof -
  let ?f = "\<lambda>(j, l). if j = i then (j, l') else (j, l)"
  have m: "map fst (map ?f ls) = map fst ls" for ls :: "(InternalOrderId \<times> child_execution_ledger) list"
    by (induction ls) auto
  have "distinct (map fst ls) \<Longrightarrow> map_of ls i = Some l \<Longrightarrow>
      ledger_total (map ?f ls) \<le> ledger_total ls" for ls
  proof (induction ls)
    case (Cons x ls)
    have "i \<notin> fst ` set ls \<Longrightarrow> map ?f ls = ls" by (induction ls) auto
    with Cons assms(4) show ?case
      by (cases x) (auto simp: ledger_total_def simp del: map_map split: if_splits)
  qed simp
  then have le: "ledger_total (map ?f (s_ledgers s)) \<le> ledger_total (s_ledgers s)"
    using assms(1,2) by (simp add: fits_in_def ledgers_ok_def)
  have "ledgers_ok (map ?f (s_ledgers s))"
    using assms(1,3) by (simp add: m fits_in_def ledgers_ok_def del: map_map) (auto split: if_splits)
  with assms(1) le show ?thesis by (simp add: fits_in_def put_ledger_def)
qed

lemma on_child_finalized_fits:
  "fits_in n s \<Longrightarrow> fits_in n (on_child_finalized s)"
  "s_parent_request (on_child_finalized s) = s_parent_request s"
  by (simp_all add: on_child_finalized_def advance_slice_fits split: session_kind.splits)

lemma finish_ledger_ok:
  assumes "ledger_ok l"
  shows "ledger_ok (finish_ledger c l)" "committed (finish_ledger c l) \<le> committed l"
    "ledger_ok (l\<lparr>final_cancelled_volume := x, finalized := True\<rparr>)"
    "committed (l\<lparr>final_cancelled_volume := x, finalized := True\<rparr>) \<le> committed l"
proof -
  have ok: "ledger_ok (l\<lparr>final_cancelled_volume := y, finalized := True\<rparr>)" for y
    using assms by (simp add: ledger_ok_def)
  have le: "committed (l\<lparr>final_cancelled_volume := y, finalized := True\<rparr>) \<le> committed l" for y
    using committed_eq [OF ok [of y]] committed_le [OF assms] by simp
  from ok le show "ledger_ok (finish_ledger c l)" "committed (finish_ledger c l) \<le> committed l"
    "ledger_ok (l\<lparr>final_cancelled_volume := x, finalized := True\<rparr>)"
    "committed (l\<lparr>final_cancelled_volume := x, finalized := True\<rparr>) \<le> committed l"
    unfolding finish_ledger_def Let_def by blast+
qed

lemma session_response_fits:
  assumes "session_ok s"
  shows "session_ok (session_on_trade_response r s)
    \<and> s_parent_request (session_on_trade_response r s) = s_parent_request s"
proof (cases "map_of (s_ledgers s) (tr_internal_order_id r)")
  case None
  with assms show ?thesis by (simp add: session_on_trade_response_def Let_def)
next
  case (Some l)
  show ?thesis
  proof (cases "finalized l")
    case True
    with Some assms show ?thesis by (simp add: session_on_trade_response_def Let_def)
  next
    case False
    let ?l = "ledger_after_response r l" and ?i = "tr_internal_order_id r"
    have "ledger_ok l" using assms Some by (auto simp: fits_in_def ledgers_ok_def dest: map_of_SomeD)
    note l = ledger_after_response_ok [OF this False, of r]
    note fin = finish_ledger_ok [OF l(1)]
    have p: "fits_in 0 (put_ledger ?i l' s)" if "ledger_ok l'" "committed l' \<le> committed ?l" for l'
      using put_ledger_fits [OF assms Some that(1)] that(2) l(3) by simp
    have pr: "s_parent_request (put_ledger j x s) = s_parent_request s" for j x by (simp add: put_ledger_def)
    show ?thesis
      using False Some p [OF fin(1,2)] p [OF fin(3,4)] p [OF l(1) order_refl]
      by (auto simp: session_on_trade_response_def Let_def finalize_finished_child_def pr
          on_child_finalized_fits)
  qed
qed

section \<open>Runs of a session\<close>

text \<open>The worlds the ticks see are arbitrary: the rest of the system does what it likes.\<close>

inductive session_step :: "ExecutionSession \<Rightarrow> ExecutionSession \<Rightarrow> bool" where
  tick: "session_tick env nv now s w = (s', w') \<Longrightarrow> session_step s s'"
| response: "session_step s (session_on_trade_response r s)"

inductive_cases session_stepE: "session_step s s'"

lemma session_step_fits:
  "session_step s s' \<Longrightarrow> session_ok s \<Longrightarrow> session_ok s' \<and> s_parent_request s' = s_parent_request s"
  by (elim session_stepE) (metis fst_conv session_tick_fits, simp add: session_response_fits)

lemma session_steps_fit:
  "session_step\<^sup>*\<^sup>* s s' \<Longrightarrow> session_ok s \<Longrightarrow> session_ok s' \<and> s_parent_request s' = s_parent_request s"
  by (induction rule: rtranclp_induct) (auto dest: session_step_fits)

lemma create_session_ok:
  assumes "create_execution_session config i req strat t0 = Some s"
  shows "session_ok s \<and> s_parent_request s = req"
proof -
  have r: "reserved (Twap (new_twap_state req config t0)) \<le> unat (volume_entrust req)"
  proof (cases "tw_slice_volumes (new_twap_state req config t0) = []")
    case False
    then obtain ok slices where p: "build_twap_slice_plan req config = (ok, slices)"
      "new_twap_state req config t0 = \<lparr>tw_valid = ok, tw_start_time_ns = t0,
          tw_interval_ns = ucast (interval_ms config) * 1000000,
          tw_next_deadline_ns = t0, tw_slice_index = 0, tw_slice_consumed = False,
          tw_slice_volumes = slices\<rparr>"
      by (cases "build_twap_slice_plan req config") (auto simp: new_twap_state_def Let_def split: if_splits)
    have ok using p False by (auto simp: build_twap_slice_plan_def Let_def split: if_splits)
    with slice_sum [of req config slices] p show ?thesis by simp
  qed (simp add: new_twap_state_def Let_def split: prod.splits if_splits)
  then show ?thesis
    using assms
    by (auto simp: create_execution_session_def new_session_def fits_in_def ledgers_ok_def ledger_total_def
        split: SplitStrategy.splits)
qed

text \<open>
  C5: an execution session never commits more than its parent.  From its creation on, through
  any sequence of ticks, in whatever states of the book, the router and the market, and of
  trade responses, however inconsistent, the volume confirmed as traded plus the volume still
  open at children is at most the parent's volume; and the budget for further children is
  exactly the rest, so that no wrap-around or saturation ever enters these sums.
\<close>

theorem session_never_overcommits:
  assumes "create_execution_session config i req strat t0 = Some s0" and "session_step\<^sup>*\<^sup>* s0 s"
  shows "unat (confirmed_traded_volume s) + unat (session_working_volume s)
      + unat (session_schedulable_volume s) \<le> unat (volume_entrust req)
    \<and> unat (remaining_target s) = unat (volume_entrust req) - unat (confirmed_traded_volume s)
    \<and> (\<forall>(i, l)\<in>set (s_ledgers s). led_traded_volume l \<le> entrust_volume l)"
proof -
  have ok: "session_ok s" "s_parent_request s = req"
    using create_session_ok [OF assms(1)] session_steps_fit [OF assms(2)] by auto
  then show ?thesis
    using session_sums [OF ok(1)] by (auto simp: fits_in_def ledgers_ok_def ledger_ok_def)
qed


definition priced_request :: "Volume \<Rightarrow> OrderRequest" where
  "priced_request vol = (request (order_example 7 vol))\<lparr>dprice_entrust := 10, trade_side := Buy\<rparr>"

definition exec_world :: "Volume \<Rightarrow> world" where
  "exec_world vol = (world_new 4 16)\<lparr>w_book := fst (snd (add_order
     (OrderEntry_default\<lparr>request := priced_request vol\<rparr>) 5 (OrderBook_new 4)))\<rparr>"

text \<open>No market data, but the fallback to the parent's price is allowed.\<close>

definition env_example :: exec_env where
  "env_example = \<lparr>ee_market_data = Some \<lparr>md_config = \<lparr>mdc_enabled = False, snapshot_shm_name = [],
       mdc_allow_order_price_fallback = True\<rparr>, md_ready = False, md_reader = (\<lambda>_. None)\<rparr>,
     ee_active_strategy = None\<rparr>"

lemma session_never_overcommits_witness:
  "\<exists>s0 s. create_execution_session (split_example SplitStrategy.TWAP) 0 (priced_request 1000) 0 5 = Some s0
     \<and> session_step\<^sup>*\<^sup>* s0 s \<and> session_working_volume s = 250
     \<and> unat (confirmed_traded_volume s) + unat (session_working_volume s)
         + unat (session_schedulable_volume s) \<le> 1000"
proof -
  obtain s0 where s0: "create_execution_session (split_example SplitStrategy.TWAP) 0 (priced_request 1000) 0 5 = Some s0"
    by (cases "create_execution_session (split_example SplitStrategy.TWAP) 0 (priced_request 1000) 0 5")
      (simp_all add: create_execution_session_def resolve_execution_strategy_def split_example_def
        resolve_passive_split_strategy_def priced_request_def order_example_def OrderRequest_default_def)
  obtain s w where t: "session_tick env_example 5 6 s0 (exec_world 1000) = (s, w)"
    by (cases "session_tick env_example 5 6 s0 (exec_world 1000)")
  have "map_option (\<lambda>s0. session_working_volume (fst (session_tick env_example 5 6 s0 (exec_world 1000))))
      (create_execution_session (split_example SplitStrategy.TWAP) 0 (priced_request 1000) 0 5) = Some 250"
    by code_simp
  then have v: "session_working_volume s = 250" using s0 t by simp
  have r: "session_step\<^sup>*\<^sup>* s0 s" using session_step.tick [OF t] by blast
  have "unat (volume_entrust (priced_request 1000)) = 1000" by (simp add: priced_request_def order_example_def)
  with session_never_overcommits [OF s0 r] s0 r v show ?thesis by auto
qed


section \<open>A clip session gets done\<close>

text \<open>
  When the router can take a child: the downstream queue, the order pool and the book have room,
  and the id that is allocated next is valid and not in the book.
\<close>

definition next_child_id :: "world \<Rightarrow> InternalOrderId" where
  "next_child_id w = fst (allocate_internal_order_id w)"

definition router_ready :: "world \<Rightarrow> bool" where
  "router_ready w \<longleftrightarrow>
     (\<exists>q. w_downstream w = Some q \<and> q_ok 18 q \<and> length (q_list 18 q) < 262143)
   \<and> (\<exists>pool. w_orders w = Some pool \<and> os_next_index pool < os_capacity pool)
   \<and> free_slots (w_book w) \<noteq> [] \<and> next_child_id w \<noteq> 0 \<and> id_to_index (w_book w) (next_child_id w) = None"

lemma effects_pool: "w_orders (fold (apply_effect now) fx w) = None \<longleftrightarrow> w_orders w = None"
proof (induction fx arbitrary: w)
  case (Cons x fx)
  have "w_orders (apply_effect now x w) = None \<longleftrightarrow> w_orders w = None"
    by (cases x) (auto simp: on_order_book_changed_def on_pool_def raise_error_def Let_def case_prod_beta
        split: option.splits)
  with Cons show ?case by simp
qed simp

lemma on_book_pool: "w_orders (snd (on_book f now w)) = None \<longleftrightarrow> w_orders w = None"
  by (simp add: on_book_def case_prod_beta effects_pool)

lemma alloc_frames:
  assumes "allocate_internal_order_id (count_received now w) = (i, w1)"
  shows "i = next_child_id w" "w_downstream w1 = w_downstream w" "w_orders w1 = w_orders w"
    "id_to_index (w_book w1) = id_to_index (w_book w)" "free_slots (w_book w1) = free_slots (w_book w)"
  using assms
  by (auto simp: allocate_internal_order_id_def next_child_id_def on_stats_def next_order_id_def Let_def split: option.splits)

lemma send_and_mark_ok:
  assumes "w_downstream w = Some q" "q_ok 18 q" "length (q_list 18 q) < 262143" "w_orders w \<noteq> None"
  shows "fst (send_and_mark a i now w)"
proof -
  obtain pushed w' where s: "send_to_downstream i now w = (pushed, w')" by (cases "send_to_downstream i now w")
  have pushed using send_to_downstream_queue(1) [OF assms(1,2,4) s] assms(3) by simp
  with s show ?thesis by (simp add: send_and_mark_def)
qed

lemma submit_internal_sends:
  assumes ready: "router_ready w" and e: "internal_order_id (request e) = 0" "shm_order_index e = kInvalidOrderIndex"
  shows "\<exists>e' w'. submit_internal_order e now w = (True, e', w') \<and> internal_order_id (request e') = next_child_id w"
proof -
  obtain q pool where q: "w_downstream w = Some q" "q_ok 18 q" "length (q_list 18 q) < 262143"
    and pool: "w_orders w = Some pool" "os_next_index pool < os_capacity pool"
    and book: "free_slots (w_book w) \<noteq> []" "next_child_id w \<noteq> 0" "id_to_index (w_book w) (next_child_id w) = None"
    using ready by (auto simp: router_ready_def)
  obtain i0 w1 where al: "allocate_internal_order_id (count_received now w) = (i0, w1)" by fastforce
  note w1 = alloc_frames [OF al]
  obtain e1 where p: "prepare_internal_order e now (count_received now w) = (e1, w1)"
    and e1: "internal_order_id (request e1) = next_child_id w" "shm_order_index e1 = kInvalidOrderIndex"
    using e w1(1) by (simp add: prepare_internal_order_def al Let_def)
  obtain r shm where a: "orders_shm_append (request e1) UpstreamDequeued AccountInternal now pool = (r, shm)"
    by fastforce
  obtain index where r: "r = Some index"
    using append_full [of "request e1" UpstreamDequeued AccountInternal now pool] a pool(2) by (cases r) auto
  define w2 where "w2 = w1\<lparr>w_orders := Some shm\<rparr>"
  have c: "create_internal_order_slot (request e1) UpstreamDequeued AccountInternal now w1 = (Some index, w2)"
    using a r w1(3) pool(1) by (simp add: create_internal_order_slot_def w2_def)
  let ?e = "e1\<lparr>shm_order_index := index\<rparr>"
  obtain added w3 where ad: "on_book (add_order ?e now) now w2 = (added, w3)" by fastforce
  obtain slot free where "free_slots (w_book w) = slot # free"
    using book(1) by (cases "free_slots (w_book w)") auto
  then have "free_slots (w_book w2) = slot # free" by (simp add: w2_def w1(5))
  then have "fst (add_order ?e now (w_book w2))"
    using add_order_eq [of ?e "w_book w2" slot free now] e1(1) book(2,3) w1(4)
    by (simp add: w2_def case_prod_beta Let_def)
  then have added using arg_cong [OF ad, of fst] by (simp add: frame_simps)
  have w3: "w_downstream w3 = Some q" "w_orders w3 \<noteq> None"
    using arg_cong [OF ad, of "\<lambda>x. w_downstream (snd x)"] arg_cong [OF ad, of "\<lambda>x. w_orders (snd x)"]
      on_book_pool [of "add_order ?e now" now w2] w1(2) q(1)
    by (auto simp: frame_simps w2_def)
  have "fst (send_and_mark (internal_order_id (request ?e)) index now w3)"
    by (rule send_and_mark_ok [OF w3(1) q(2,3) w3(2)])
  then show ?thesis
    using p e1 c ad \<open>added\<close>
    by (auto simp: submit_internal_order_def Let_def split: prod.splits)
qed

text \<open>Then a child that is submitted is entered as one more ledger, of the volume asked for.\<close>

definition one_more :: "InternalOrderId \<Rightarrow> Volume \<Rightarrow> ExecutionSession \<Rightarrow> ExecutionSession \<Rightarrow> bool" where
  "one_more i v s s' \<longleftrightarrow> s_failed s' = s_failed s
     \<and> (\<exists>l. s_ledgers s' = s_ledgers s @ [(i, l)] \<and> entrust_volume l = v \<and> led_traded_volume l = 0
          \<and> final_cancelled_volume l = 0 \<and> \<not> finalized l)"

lemma submit_child_sends:
  assumes "router_ready w" "v \<noteq> 0" "p \<noteq> 0" "next_child_id w \<notin> fst ` set (s_ledgers s)"
  shows "\<exists>s' w'. submit_child v p a now s w = (True, s', w') \<and> one_more (next_child_id w) v s s'"
proof -
  define e where "e = OrderEntry_default\<lparr>
                 request := make_child_request (s_parent_request s) 0 v p a,
                 submit_time_ns := now, last_update_ns := now, strategy_id := s_strategy_id s,
                 risk_result := Pass, retry_count := 0, is_split_child := True,
                 parent_order_id := parent_order_id_of s, shm_order_index := kInvalidOrderIndex\<rparr>"
  have "internal_order_id (request e) = 0" "shm_order_index e = kInvalidOrderIndex"
    by (simp_all add: e_def make_child_request_def)
  then obtain e' w1 where sub: "submit_internal_order e now w = (True, e', w1)"
    and id: "internal_order_id (request e') = next_child_id w"
    using submit_internal_sends [OF assms(1)] by blast
  have "map_of (s_ledgers s) (next_child_id w) = None" using assms(4) by (simp add: map_of_eq_None_iff)
  then show ?thesis
    using assms(2,3) sub id
    by (simp add: submit_child_def e_def [symmetric] Let_def one_more_def emplace_ledger_def ledger_default_def)
qed

lemma try_active_sends:
  assumes "router_ready w" "p \<noteq> 0" "next_child_id w \<notin> fst ` set (s_ledgers s)"
    and t: "try_active_submit env view p v now s w = (taken, s', w')"
  shows "if taken then one_more (next_child_id w) v s s'
    else w' = w \<and> s_ledgers s' = s_ledgers s \<and> s_failed s' = s_failed s"
proof (cases "w' = w \<and> s' = s \<and> \<not> taken")
  case False
  then obtain strategy where str: "ee_active_strategy env = Some strategy"
    and c: "v \<noteq> 0" "has_fresh_prediction (mv_prediction view)"
      "pv_publish_seq_no (mv_prediction view) \<noteq> s_last_active_publish_seq_no s"
    using t by (auto simp: try_active_submit_def split: option.splits if_splits)
  define s1 where "s1 = s\<lparr>s_last_active_publish_seq_no := pv_publish_seq_no (mv_prediction view)\<rparr>"
  define d where "d = evaluate_strategy strategy (s_parent_request s) view v"
  have eq: "try_active_submit env view p v now s w =
      (if \<not> should_submit d \<or> dec_volume d = 0 \<or> dec_volume d > v then (False, s1, w)
       else submit_child (dec_volume d) p True now s1 w)"
    using str c by (simp add: try_active_submit_def s1_def d_def Let_def)
  show ?thesis
  proof (cases "\<not> should_submit d \<or> dec_volume d = 0 \<or> dec_volume d > v")
    case True
    with t eq show ?thesis by (auto simp: s1_def)
  next
    case False
    then have "dec_volume d = v" using evaluate_strategy_volume by (auto simp: d_def)
    then have sub: "submit_child v p True now s1 w = (taken, s', w')" using t eq False by simp
    have "next_child_id w \<notin> fst ` set (s_ledgers s1)" using assms(3) by (simp add: s1_def)
    from submit_child_sends [OF assms(1) c(1) assms(2) this, of True now] sub
    show ?thesis by (auto simp: one_more_def s1_def)
  qed
qed auto

lemma working_zero:
  assumes "session_ok s"
  shows "\<not> has_working_children s \<longleftrightarrow> (\<forall>(i, l)\<in>set (s_ledgers s). unresolved_volume l = 0)"
proof -
  have "unat (session_working_volume s) = (\<Sum>(i, l)\<leftarrow>s_ledgers s. unat (unresolved_volume l))"
  proof -
    have "(\<Sum>(i, l)\<leftarrow>s_ledgers s. unat (unresolved_volume l)) \<le> ledger_total (s_ledgers s)"
      unfolding ledger_total_def by (induction "s_ledgers s") (auto intro!: sum_list_mono simp: committed_def)
    also have "\<dots> < 2 ^ 64"
      using assms unat_lt_2_64 [of "volume_entrust (s_parent_request s)"] by (simp add: fits_in_def)
    finally show ?thesis by (simp add: session_working_volume_def unat_sum_ledgers)
  qed
  then show ?thesis
    by (auto simp: has_working_children_def word_gt_0 word_unat_eq_iff sum_list_eq_0_iff)
qed

text \<open>All ledgers of a session that does not work are closed.\<close>

definition traded_total :: "(InternalOrderId \<times> child_execution_ledger) list \<Rightarrow> nat" where
  "traded_total ls = (\<Sum>(i, l)\<leftarrow>ls. unat (led_traded_volume l))"

lemma confirmed_eq: "session_ok s \<Longrightarrow> unat (confirmed_traded_volume s) = traded_total (s_ledgers s)"
proof -
  assume ok: "session_ok s"
  have "traded_total (s_ledgers s) \<le> ledger_total (s_ledgers s)"
    unfolding ledger_total_def traded_total_def
    by (induction "s_ledgers s") (auto intro!: sum_list_mono simp: committed_def)
  also have "\<dots> < 2 ^ 64"
    using ok unat_lt_2_64 [of "volume_entrust (s_parent_request s)"] by (simp add: fits_in_def)
  finally show ?thesis by (simp add: confirmed_traded_volume_def unat_sum_ledgers traded_total_def)
qed

lemma mark_cancel_traded: "traded_total (s_ledgers (mark_cancel b i s)) = traded_total (s_ledgers s)"
proof -
  have "traded_total (map (\<lambda>(i, l). if i = j then (i, l\<lparr>led_cancel_requested := True\<rparr>) else (i, l)) ls)
      = traded_total ls" for j ls
    by (induction ls) (auto simp: traded_total_def)
  then show ?thesis by (simp add: mark_cancel_def split: option.splits)
qed

lemma unresolved_flag [simp]: "unresolved_volume (l\<lparr>led_cancel_requested := c\<rparr>) = unresolved_volume l"
  by (simp add: unresolved_volume_def Let_def)

lemma refresh_traded:
  assumes "refresh_parent_state s w = (found, s')"
  shows "traded_total (s_ledgers s') = traded_total (s_ledgers s)"
    "session_working_volume s' = session_working_volume s"
proof -
  have m: "sum_ledgers unresolved_volume (mark_cancel b i s0) = sum_ledgers unresolved_volume s0" for b i s0
  proof -
    have "fold (\<lambda>(i, l) total. saturating_add total (unresolved_volume l))
        (map (\<lambda>(i, l). if i = j then (i, l\<lparr>led_cancel_requested := True\<rparr>) else (i, l)) ls) t
      = fold (\<lambda>(i, l) total. saturating_add total (unresolved_volume l)) ls t"
      for j t and ls :: "(InternalOrderId \<times> child_execution_ledger) list"
      by (induction ls arbitrary: t) auto
    then show ?thesis by (simp add: mark_cancel_def sum_ledgers_def split: option.splits)
  qed
  have "traded_total (s_ledgers (fold (mark_cancel b) ids s0)) = traded_total (s_ledgers s0)"
    "session_working_volume (fold (mark_cancel b) ids s0) = session_working_volume s0" for b ids s0
    by (induction ids arbitrary: s0) (auto simp: mark_cancel_traded session_working_volume_def m)
  then show "traded_total (s_ledgers s') = traded_total (s_ledgers s)"
    "session_working_volume s' = session_working_volume s"
    using assms by (auto simp: refresh_parent_state_def session_working_volume_def sum_ledgers_def split: option.splits)
qed

text \<open>
  What a tick needs of its surroundings to put a child to work: the parent is in the book and nobody
  has cancelled it, there is a price, and the router can take a child.
\<close>

definition can_tick :: "OrderRequest \<Rightarrow> exec_env \<Rightarrow> world \<Rightarrow> bool" where
  "can_tick req env w \<longleftrightarrow>
     find_order (internal_order_id req) (w_book w) \<noteq> None
   \<and> (\<forall>c e. c \<in> set (get_children (internal_order_id req) (w_book w)) \<and> find_order c (w_book w) = Some e
        \<longrightarrow> order_type (request e) \<noteq> Cancel)
   \<and> (\<forall>s. s_parent_request s = req \<longrightarrow> fst (snd (resolve_submit_price env s)) \<noteq> None)
   \<and> router_ready w"

lemma fold_mark_none:
  "(\<And>c e. c \<in> set ids \<Longrightarrow> find_order c b = Some e \<Longrightarrow> order_type (request e) \<noteq> Cancel) \<Longrightarrow>
   fold (mark_cancel b) ids s = s"
  by (induction ids arbitrary: s) (auto simp: mark_cancel_def split: option.splits)

lemma resolved_price_pos: "resolve_submit_price env s = (view, Some p, s') \<Longrightarrow> p \<noteq> 0"
  by (auto simp: resolve_submit_price_def resolve_market_price_def Let_def split: option.splits if_splits)

text \<open>With nothing left to schedule, a tick of an idle session opens nothing.\<close>

lemma tick_sequential_done:
  assumes refresh: "refresh_parent_state s w = (True, s1)" and idle: "\<not> has_working_children s1" "\<not> s_failed s1"
    and none: "min clip (session_schedulable_volume s1) = 0"
  shows "s_ledgers (fst (tick_sequential env clip now s w)) = s_ledgers s1
    \<and> \<not> s_failed (fst (tick_sequential env clip now s w))"
  using idle none
  by (auto simp: tick_sequential_def refresh Let_def finalize_parent_if_idle_def idle_or_sync_def)

text \<open>With something left, it opens one child of one clip or of what is left.\<close>

lemma tick_sequential_works:
  assumes refresh: "refresh_parent_state s w = (True, s1)"
    and idle: "\<not> has_working_children s1" "\<not> s_failed s1" "\<not> s_cancel_requested s1"
    and ready: "router_ready w" "fst (snd (resolve_submit_price env s1)) \<noteq> None"
    and fresh: "next_child_id w \<notin> fst ` set (s_ledgers s1)"
    and v: "v = min clip (session_schedulable_volume s1)" "v \<noteq> 0"
  shows "one_more (next_child_id w) v s1 (fst (tick_sequential env clip now s w))"
proof -
  obtain view p s2 where p: "resolve_submit_price env s1 = (view, Some p, s2)"
    using ready(2) by (cases "resolve_submit_price env s1") auto
  note f2 = resolve_submit_price_fits [OF p, of 0] and pos = resolved_price_pos [OF p]
  have fresh2: "next_child_id w \<notin> fst ` set (s_ledgers s2)" using fresh f2 by simp
  obtain taken s3 w3 where a: "(case view of None \<Rightarrow> (False, s2, w)
      | Some x \<Rightarrow> try_active_submit env x p v now s2 w) = (taken, s3, w3)" (is "?x = _") by (cases ?x)
  have t: "fst (tick_sequential env clip now s w)
      = (if taken then s3 else fst (snd (submit_child v p False now s3 w3)))"
    using idle v(2) a
    by (simp add: tick_sequential_def refresh v(1) [symmetric] Let_def p case_prod_beta)
  have o: "if taken then one_more (next_child_id w) v s2 s3
      else w3 = w \<and> s_ledgers s3 = s_ledgers s2 \<and> s_failed s3 = s_failed s2"
    using a try_active_sends [OF ready(1) pos fresh2]
    by (cases view) (auto split: if_splits)
  show ?thesis
  proof (cases taken)
    case True
    with o t f2 show ?thesis by (simp add: one_more_def)
  next
    case False
    then have s3: "w3 = w" "s_ledgers s3 = s_ledgers s2" "s_failed s3 = s_failed s2" using o by auto
    have "next_child_id w \<notin> fst ` set (s_ledgers s3)" using fresh2 s3(2) by simp
    from submit_child_sends [OF ready(1) v(2) pos this, of False now]
    obtain s4 w4 where "submit_child v p False now s3 w = (True, s4, w4)" "one_more (next_child_id w) v s3 s4"
      by blast
    with False s3 t f2 show ?thesis by (simp add: one_more_def)
  qed
qed

text \<open>
  A run: ticks, each in surroundings of its own, and after each tick that leaves a child at work
  the response that the youngest child is filled.
\<close>

definition filled :: "InternalOrderId \<times> child_execution_ledger \<Rightarrow> TradeResponse \<Rightarrow> TradeResponse" where
  "filled = (\<lambda>(i, l) r. r\<lparr>tr_internal_order_id := i, tr_new_state := OrderState.Finished,
     tr_volume_traded := entrust_volume l, tr_cancelled_volume := 0\<rparr>)"

type_synonym clip_round = "exec_env \<times> TimestampNs \<times> TimestampNs \<times> world \<times> TradeResponse"

fun clip_run :: "clip_round list \<Rightarrow> ExecutionSession \<Rightarrow> ExecutionSession" where
  "clip_run [] s = s"
| "clip_run ((env, now_ns, now, w, r) # rounds) s =
     (let s = fst (session_tick env now_ns now s w);
          s = (if has_working_children s then session_on_trade_response (filled (last (s_ledgers s)) r) s else s)
      in clip_run rounds s)"

lemma fill_last:
  assumes ok: "session_ok s" and kind: "s_kind s = SequentialClip clip"
    and s: "s_ledgers s = ls @ [(i, l)]" "led_traded_volume l = 0" "final_cancelled_volume l = 0" "\<not> finalized l"
    and closed: "\<forall>(j, x)\<in>set ls. unresolved_volume x = 0" and pos: "entrust_volume l \<noteq> 0"
    and r: "tr_internal_order_id r = i" "tr_new_state r = OrderState.Finished"
      "tr_volume_traded r = entrust_volume l" "tr_cancelled_volume r = 0"
  shows "traded_total (s_ledgers (session_on_trade_response r s)) = traded_total ls + unat (entrust_volume l)
    \<and> \<not> has_working_children (session_on_trade_response r s)
    \<and> s_kind (session_on_trade_response r s) = s_kind s
    \<and> s_failed (session_on_trade_response r s) = s_failed s
    \<and> map fst (s_ledgers (session_on_trade_response r s)) = map fst (s_ledgers s)"
proof -
  let ?s' = "session_on_trade_response r s"
  define l' where "l' = finish_ledger 0 (ledger_after_response r l)"
  have i: "i \<notin> fst ` set ls" using ok s(1) by (simp add: fits_in_def ledgers_ok_def)
  then have "map_of ls i = None" by (simp add: map_of_eq_None_iff)
  then have m: "map_of (s_ledgers s) i = Some l" by (simp add: s(1) map_add_def)
  have l': "led_traded_volume l' = entrust_volume l" "finalized l'"
    using s pos r by (simp_all add: l'_def finish_ledger_def ledger_after_response_def Let_def word_gt_0)
  have "map (\<lambda>(j, x). if j = i then (j, l') else (j, x)) ls = ls"
    using i by (induction ls) auto
  then have p: "s_ledgers (put_ledger i l' s) = ls @ [(i, l')]" by (simp add: put_ledger_def s(1))
  have s': "?s' = on_child_finalized (finalize_finished_child i (ledger_after_response r l) 0 s)"
    using m s(4) r by (simp add: session_on_trade_response_def Let_def)
  have f: "finalize_finished_child i (ledger_after_response r l) 0 s
      = (let s = put_ledger i l' s in if s_cancel_requested s \<and> \<not> has_working_children s
         then s\<lparr>s_last_active_publish_seq_no := 0\<rparr> else s)"
    by (simp add: finalize_finished_child_def l'_def)
  have k: "s_kind (put_ledger i l' s) = s_kind s" "s_failed (put_ledger i l' s) = s_failed s"
    by (simp_all add: put_ledger_def)
  have e: "s_ledgers ?s' = ls @ [(i, l')]" "s_kind ?s' = s_kind s" "s_failed ?s' = s_failed s"
    using kind p k by (simp_all add: s' f on_child_finalized_def Let_def)
  have "session_ok ?s'" using session_response_fits [OF ok] by blast
  moreover have "unresolved_volume l' = 0" by (simp add: unresolved_volume_def l')
  ultimately have "\<not> has_working_children ?s'"
    using working_zero [of ?s'] closed by (simp add: e)
  with e l' s(1) show ?thesis by (simp add: traded_total_def)
qed

definition clip_progress :: "OrderRequest \<Rightarrow> Volume \<Rightarrow> nat \<Rightarrow> ExecutionSession \<Rightarrow> bool" where
  "clip_progress req clip n s \<longleftrightarrow> session_ok s \<and> s_parent_request s = req
     \<and> s_kind s = SequentialClip clip \<and> \<not> has_working_children s \<and> \<not> s_failed s
     \<and> traded_total (s_ledgers s) = min (unat (volume_entrust req)) (n * unat clip)
     \<and> length (s_ledgers s) \<le> n
     \<and> (s_ledgers s = [] \<or> (length (s_ledgers s) - 1) * unat clip < unat (volume_entrust req))"

lemma one_more_clip: "(m :: nat) < t \<Longrightarrow> min t m + min c (t - min t m) = min t (c + m)"
  by (auto simp: min_def)

lemma clip_progress_round:
  assumes pr: "clip_progress req clip n s" and can: "can_tick req env w"
    and fresh: "next_child_id w \<notin> fst ` set (s_ledgers s)"
  shows "clip_progress req clip (Suc n) (clip_run [(env, nv, now, w, r)] s)
    \<and> fst ` set (s_ledgers (clip_run [(env, nv, now, w, r)] s)) \<subseteq> insert (next_child_id w) (fst ` set (s_ledgers s))"
proof -
  let ?T = "unat (volume_entrust req)" and ?c = "unat clip"
  have p: "session_ok s" "s_parent_request s = req" "s_kind s = SequentialClip clip" "\<not> has_working_children s"
    "\<not> s_failed s" "traded_total (s_ledgers s) = min ?T (n * ?c)" "length (s_ledgers s) \<le> n"
    "s_ledgers s = [] \<or> (length (s_ledgers s) - 1) * ?c < ?T"
    using pr by (auto simp: clip_progress_def)
  define s1 where "s1 = s\<lparr>s_cancel_requested := False\<rparr>"
  have r: "refresh_parent_state s w = (True, s1)"
    using can p(2) fold_mark_none [of "get_children (internal_order_id req) (w_book w)" "w_book w" s1]
    by (auto simp: refresh_parent_state_def can_tick_def parent_order_id_of_def s1_def split: option.splits)
  note f1 = refresh_fits [OF r] and t1 = refresh_traded [OF r]
  have s1: "session_ok s1" "s_parent_request s1 = req" "\<not> has_working_children s1" "\<not> s_failed s1"
    "s_ledgers s1 = s_ledgers s" "\<not> s_cancel_requested s1"
    using f1 p t1(2) by (auto simp: has_working_children_def s1_def)
  have "session_working_volume s1 = 0" using s1(3) by (simp add: has_working_children_def word_gt_0)
  then have sched: "unat (session_schedulable_volume s1) = ?T - min ?T (n * ?c)"
    using session_sums(1,3) [OF s1(1)] confirmed_eq [OF s1(1)] s1(2,5) p(6) by simp
  define v where "v = min clip (session_schedulable_volume s1)"
  have v: "unat v = min ?c (?T - min ?T (n * ?c))"
    unfolding v_def sched [symmetric] by (simp add: min_def word_le_nat_alt)
  define s2 where "s2 = fst (tick_sequential env clip now s w)"
  have run: "clip_run [(env, nv, now, w, r0)] s = (if has_working_children s2
      then session_on_trade_response (filled (last (s_ledgers s2)) r0) s2 else s2)" for r0
    using p(3) by (simp add: session_tick_def s2_def Let_def)
  have ok2: "session_ok s2 \<and> s_kind s2 = s_kind s \<and> s_parent_request s2 = s_parent_request s"
    using tick_sequential_fits [OF p(1,3), of env now w] by (simp add: s2_def)
  show ?thesis
  proof (cases "v = 0")
    case True
    then have s2: "s_ledgers s2 = s_ledgers s" "\<not> s_failed s2"
      using tick_sequential_done [OF r s1(3,4), of clip env now] s1(5) by (simp_all add: s2_def v_def)
    have nw: "\<not> has_working_children s2"
      using p(4) s2(1) by (simp add: has_working_children_def session_working_volume_def sum_ledgers_def)
    have "min ?c (?T - min ?T (n * ?c)) = 0" using v True by simp
    then have "min ?T (Suc n * ?c) = min ?T (n * ?c)" by (auto simp: min_def split: if_splits)
    then show ?thesis using ok2 s2 nw p by (auto simp: run clip_progress_def simp del: clip_run.simps)
  next
    case False
    have "one_more (next_child_id w) v s1 s2"
      unfolding s2_def using can s1 fresh False v_def
      by (intro tick_sequential_works [OF r]) (auto simp: can_tick_def)
    then obtain l where l: "s_ledgers s2 = s_ledgers s @ [(next_child_id w, l)]" "entrust_volume l = v"
      "led_traded_volume l = 0" "final_cancelled_volume l = 0" "\<not> finalized l" and nf: "\<not> s_failed s2"
      using s1(4,5) by (auto simp: one_more_def)
    have closed: "\<forall>(j, x)\<in>set (s_ledgers s). unresolved_volume x = 0" using working_zero [OF p(1)] p(4) by simp
    have "unresolved_volume l \<noteq> 0" using l(2-5) False by (simp add: unresolved_volume_def)
    then have work: "has_working_children s2" using working_zero [of s2] ok2 l(1) by auto
    have lt: "n * ?c < ?T"
    proof -
      have "unat v \<noteq> 0" using False by (simp add: unat_eq_zero)
      then show ?thesis unfolding v by (simp add: min_def split: if_splits)
    qed
    let ?r = "filled (next_child_id w, l) r"
    have fr: "tr_internal_order_id ?r = next_child_id w" "tr_new_state ?r = OrderState.Finished"
      "tr_volume_traded ?r = entrust_volume l" "tr_cancelled_volume ?r = 0" by (simp_all add: filled_def)
    have pos: "entrust_volume l \<noteq> 0" using l(2) False by simp
    have ok2': "session_ok s2" "s_kind s2 = SequentialClip clip" using ok2 p(3) by simp_all
    note fl = fill_last [OF ok2' l(1,3,4,5) closed pos fr]
    have keys: "map fst (s_ledgers (session_on_trade_response ?r s2)) = map fst (s_ledgers s) @ [next_child_id w]"
      using fl l(1) by simp
    have len: "length (s_ledgers (session_on_trade_response ?r s2)) = Suc (length (s_ledgers s))"
      using arg_cong [OF keys, of length] by simp
    have "length (s_ledgers s) * ?c \<le> n * ?c" using p(7) by (rule mult_le_mono1)
    then have few: "length (s_ledgers s) * ?c < ?T" using lt by (rule le_less_trans)
    have total: "min ?T (n * ?c) + unat v = min ?T (Suc n * ?c)" using one_more_clip [OF lt, of ?c] unfolding v [symmetric] by simp
    have "session_ok (session_on_trade_response ?r s2) \<and> s_parent_request (session_on_trade_response ?r s2) = req"
      using session_response_fits [OF ok2'(1), of ?r] ok2 p(2) by simp
    moreover have "fst ` set (s_ledgers (session_on_trade_response ?r s2)) = insert (next_child_id w) (fst ` set (s_ledgers s))"
      using arg_cong [OF keys, of set] by simp
    ultimately show ?thesis
      using fl nf ok2' work l(1,2) len few total p(6,7) by (simp add: run clip_progress_def del: clip_run.simps)
  qed
qed

lemma disjoint_insert_step: "B \<subseteq> insert i A \<Longrightarrow> i \<notin> K \<Longrightarrow> K \<inter> A = {} \<Longrightarrow> K \<inter> B = {}"
  by blast

lemma clip_run_progress:
  assumes "clip_progress req clip n s"
    and "\<forall>(env, nv, now, w, r)\<in>set rounds. can_tick req env w"
    and "distinct (map (\<lambda>(env, nv, now, w, r). next_child_id w) rounds)"
    and "(\<lambda>(env, nv, now, w, r). next_child_id w) ` set rounds \<inter> fst ` set (s_ledgers s) = {}"
  shows "clip_progress req clip (n + length rounds) (clip_run rounds s)"
  using assms
proof (induction rounds arbitrary: n s)
  case (Cons x rounds)
  obtain env nv now w r where x: "x = (env, nv, now, w, r)" by (cases x)
  define s2 where "s2 = clip_run [(env, nv, now, w, r)] s"
  have "can_tick req env w" "next_child_id w \<notin> fst ` set (s_ledgers s)" using Cons.prems by (auto simp: x)
  note step = clip_progress_round [OF Cons.prems(1) this, of nv now r, folded s2_def]
  have "clip_progress req clip (Suc n + length rounds) (clip_run rounds s2)"
  proof (rule Cons.IH)
    show "clip_progress req clip (Suc n) s2" using step by blast
    show "\<forall>(env, nv, now, w, r)\<in>set rounds. can_tick req env w" using Cons.prems(2) by simp
    show "distinct (map (\<lambda>(env, nv, now, w, r). next_child_id w) rounds)" using Cons.prems(3) by simp
    show "(\<lambda>(env, nv, now, w, r). next_child_id w) ` set rounds \<inter> fst ` set (s_ledgers s2) = {}"
    proof -
      have "next_child_id w \<notin> (\<lambda>(env, nv, now, w, r). next_child_id w) ` set rounds"
        using Cons.prems(3) by (simp add: x)
      moreover have "(\<lambda>(env, nv, now, w, r). next_child_id w) ` set rounds \<inter> fst ` set (s_ledgers s) = {}"
        using Cons.prems(4) by (simp add: x)
      ultimately show ?thesis by (rule disjoint_insert_step [OF step [THEN conjunct2]])
    qed
  qed
  then show ?case by (simp add: x s2_def Let_def)
qed simp

lemma done_tick_finishes:
  assumes ok: "session_ok s" "s_kind s = SequentialClip clip" "\<not> has_working_children s" "\<not> s_failed s"
    and all: "traded_total (s_ledgers s) = unat (volume_entrust (s_parent_request s))"
    and parent: "find_order (parent_order_id_of s) (w_book w) \<noteq> None"
  shows "s_terminal (fst (session_tick env nv now s w))
    \<and> derive_execution_state (fst (session_tick env nv now s w)) = ExecutionState.Finished"
proof -
  obtain found s1 where r: "refresh_parent_state s w = (found, s1)" by (cases "refresh_parent_state s w")
  note f1 = refresh_fits [OF r] and t1 = refresh_traded [OF r]
  have found: found and nf: "\<not> s_failed s1"
  proof -
    have "s_failed (fold (mark_cancel b) ids s0) = s_failed s0" for b ids s0
      by (induction ids arbitrary: s0) (auto simp: mark_cancel_def split: option.splits)
    then show found "\<not> s_failed s1"
      using r parent ok(4) by (auto simp: refresh_parent_state_def split: option.splits)
  qed
  have ok1: "session_ok s1" "s_parent_request s1 = s_parent_request s" "\<not> has_working_children s1"
    using f1 ok t1(2) by (auto simp: has_working_children_def)
  have tr: "unat (confirmed_traded_volume s1) = unat (volume_entrust (s_parent_request s))"
    using confirmed_eq [OF ok1(1)] t1(1) all by simp
  have "remaining_target s1 = 0"
    using session_sums(2) [OF ok1(1)] tr ok1(2) by (simp add: word_unat_eq_iff)
  moreover from this have "session_schedulable_volume s1 = 0"
    by (simp add: session_schedulable_volume_def Let_def)
  ultimately show ?thesis
    using found nf ok1(3) ok(2)
    by (auto simp: session_tick_def tick_sequential_def r Let_def finalize_parent_if_idle_def
        derive_execution_state_def idle_or_sync_def)
qed

text \<open>
  C14: a clip execution gets done.  Take a fixed-size or iceberg order and any sequence of ticks, each
  with its own market data, active strategy and world, of which only this is assumed: the parent is
  in the book without a cancel, there is a price to submit at, the router has room for one more
  order, and the ids it allocates are not given out twice.  If the market fills every child that is
  at work after a tick, then after \<open>n\<close> ticks exactly \<open>n\<close> clips, or the whole volume, are
  traded, in at most as many children as the volume divided by the clip, rounded up; nothing is
  left at work and nothing has failed.  Once the whole volume is traded the next tick ends the
  session as finished, whatever the market, unless the parent has left the book.
\<close>

theorem clip_session_completes:
  assumes "create_execution_session config idx req strat t0 = Some s0"
    and "resolve_execution_strategy req config \<noteq> SplitStrategy.TWAP"
    and "\<forall>(env, nv, now, w, r)\<in>set rounds. can_tick req env w"
    and "distinct (map (\<lambda>(env, nv, now, w, r). next_child_id w) rounds)"
    and "s = clip_run rounds s0" and "n = length rounds"
    and "clip = unat (resolve_clip_volume config)" and "target = unat (volume_entrust req)"
  shows "unat (confirmed_traded_volume s) = min target (n * clip)
    \<and> \<not> has_working_children s \<and> \<not> s_failed s
    \<and> length (s_ledgers s) \<le> n \<and> (s_ledgers s = [] \<or> (length (s_ledgers s) - 1) * clip < target)
    \<and> (target \<le> n * clip \<longrightarrow> (\<forall>env nv now w. find_order (internal_order_id req) (w_book w) \<noteq> None \<longrightarrow>
         s_terminal (fst (session_tick env nv now s w))
         \<and> derive_execution_state (fst (session_tick env nv now s w)) = ExecutionState.Finished))"
proof -
  have kind: "s_kind s0 = SequentialClip (resolve_clip_volume config)" "s_ledgers s0 = []" "\<not> s_failed s0"
    using assms(1,2) by (auto simp: create_execution_session_def new_session_def split: SplitStrategy.splits)
  have base: "clip_progress req (resolve_clip_volume config) 0 s0"
    using create_session_ok [OF assms(1)] kind
    by (simp add: clip_progress_def traded_total_def has_working_children_def session_working_volume_def sum_ledgers_def)
  have p: "clip_progress req (resolve_clip_volume config) n s"
    using clip_run_progress [OF base assms(3,4)] kind(2) by (simp add: assms(5,6))
  then have ok: "session_ok s" "s_parent_request s = req" "s_kind s = SequentialClip (resolve_clip_volume config)"
    "\<not> has_working_children s" "\<not> s_failed s"
    "traded_total (s_ledgers s) = min target (n * clip)" "length (s_ledgers s) \<le> n"
    "s_ledgers s = [] \<or> (length (s_ledgers s) - 1) * clip < target"
    by (simp_all add: clip_progress_def assms(7,8))
  have "s_terminal s' \<and> derive_execution_state s' = ExecutionState.Finished"
    if le: "target \<le> n * clip" and parent: "find_order (internal_order_id req) (w_book w) \<noteq> None"
      and s': "s' = fst (session_tick env nv now s w)" for env nv now w s'
    using done_tick_finishes [OF ok(1,3,4,5)] parent le ok(2,6) assms(8) by (simp add: s' parent_order_id_of_def)
  moreover have "unat (confirmed_traded_volume s) = min target (n * clip)"
    using confirmed_eq [OF ok(1)] ok(6) by simp
  ultimately show ?thesis using ok(4,5,7,8) by blast
qed


definition clip_rounds_example :: "clip_round list" where
  "clip_rounds_example =
     [(env_example, 5, 6, exec_world 500, TradeResponse_zero),
      (env_example, 8, 9, (exec_world 500)\<lparr>w_book := (w_book (exec_world 500))\<lparr>ob_next_order_id := 50\<rparr>\<rparr>,
       TradeResponse_zero)]"

lemma can_tick_example:
  assumes "b = w_book (exec_world 500)" "0 < n" "id_to_index b n = None"
  shows "can_tick (priced_request 500) env_example ((exec_world 500)\<lparr>w_book := b\<lparr>ob_next_order_id := n\<rparr>\<rparr>)
    \<and> next_child_id ((exec_world 500)\<lparr>w_book := b\<lparr>ob_next_order_id := n\<rparr>\<rparr>) = n"
proof -
  let ?w = "(exec_world 500)\<lparr>w_book := b\<lparr>ob_next_order_id := n\<rparr>\<rparr>"
  have i: "internal_order_id (priced_request 500) = 7" by (simp add: priced_request_def order_example_def)
  have "id_to_index b 7 \<noteq> None" "parent_to_children b 7 = None" "free_slots b \<noteq> []"
    unfolding assms(1) by code_simp+
  then have book: "find_order 7 (w_book ?w) \<noteq> None" "get_children 7 (w_book ?w) = []" "free_slots (w_book ?w) \<noteq> []"
    by (simp_all add: find_order_def get_children_def)
  have up: "w_upstream ?w = None" by (simp add: exec_world_def world_new_def)
  then have id: "next_child_id ?w = n"
    by (simp add: next_child_id_def allocate_internal_order_id_def next_order_id_def)
  have "\<exists>q. w_downstream ?w = Some q \<and> q_ok 18 q \<and> length (q_list 18 q) < 262143"
    using queue_init_list [of 18 "the (w_downstream ?w)"]
    by (simp add: exec_world_def world_new_def queue_init_def)
  moreover have "\<exists>pool. w_orders ?w = Some pool \<and> os_next_index pool < os_capacity pool"
    by (simp add: exec_world_def world_new_def orders_shm_new_def)
  ultimately have "router_ready ?w" using book(3) assms(2,3) id by (simp add: router_ready_def word_gt_0)
  moreover have "fst (snd (resolve_submit_price env_example s)) \<noteq> None" if "s_parent_request s = priced_request 500" for s
    using that by (simp add: resolve_submit_price_def read_market_data_view_def env_example_def
        allow_price_fallback_def allow_order_price_fallback_def priced_request_def Let_def)
  ultimately show ?thesis using book id by (simp add: can_tick_def i)
qed

lemma clip_session_completes_witness:
  "\<exists>s0 s. create_execution_session (split_example SplitStrategy.FixedSize) 0 (priced_request 500) 0 5 = Some s0
     \<and> s = clip_run clip_rounds_example s0 \<and> unat (confirmed_traded_volume s) = 500
     \<and> s_terminal (fst (session_tick env_example 9 9 s (exec_world 500)))"
proof -
  let ?c = "split_example SplitStrategy.FixedSize" and ?r = "priced_request 500" and ?b = "w_book (exec_world 500)"
  obtain s0 where s0: "create_execution_session ?c 0 ?r 0 5 = Some s0"
    by (cases "create_execution_session ?c 0 ?r 0 5")
      (simp_all add: create_execution_session_def resolve_execution_strategy_def split_example_def
        resolve_passive_split_strategy_def priced_request_def order_example_def OrderRequest_default_def)
  have ids: "ob_next_order_id ?b = 8" "id_to_index ?b 8 = None" "id_to_index ?b 50 = None" by code_simp+
  have w: "(exec_world 500)\<lparr>w_book := ?b\<lparr>ob_next_order_id := 8\<rparr>\<rparr> = exec_world 500" using ids(1) by simp
  have rounds: "\<forall>(env, nv, now, w, r)\<in>set clip_rounds_example. can_tick ?r env w"
    "distinct (map (\<lambda>(env, nv, now, w, r). next_child_id w) clip_rounds_example)"
    using can_tick_example [OF refl, of 8] can_tick_example [OF refl, of 50] ids(2,3)
    by (simp_all add: w clip_rounds_example_def)
  have c: "resolve_execution_strategy ?r ?c \<noteq> SplitStrategy.TWAP" by code_simp
  have n: "unat (resolve_clip_volume ?c) = 300" "unat (volume_entrust ?r) = 500" "internal_order_id ?r = 7"
    "length clip_rounds_example = 2"
    by (simp_all add: resolve_clip_volume_def split_example_def priced_request_def order_example_def clip_rounds_example_def)
  have "find_order 7 ?b \<noteq> None"
  proof -
    have "map_option shm_order_index (find_order 7 ?b) \<noteq> None" by code_simp
    then show ?thesis by simp
  qed
  with clip_session_completes [OF s0 c rounds refl refl refl refl] s0 show ?thesis unfolding n by auto
qed

end
