(* ===== verification/Positions.thy ===== *)
theory Positions
  imports Security_Identity
begin

text \<open>
  \<^verbatim>\<open>src/portfolio/positions.h\<close> and \<^verbatim>\<open>src/portfolio/position_manager.cpp\<close>: the shared
  position table.  Row 0 is the FUND row, whose volume fields are read as money
  (\<open>fund_total_asset_field\<close> and so on); rows 1 to \<open>position_count\<close> are securities, found by
  their canonical key.  Every operation takes the row's lock for its whole body, so it is one
  step here.  A null \<open>shm_\<close> is \<open>None\<close>, a \<open>position*\<close> is a row number, \<open>now_ns()\<close> an argument.
  The parameter \<open>order_id\<close>, which every operation ignores, is left out.  \<open>initialize\<close> is in
  \<^verbatim>\<open>Position_Loader.thy\<close>.
\<close>

section \<open>Data\<close>

definition kMaxPositions :: nat where "kMaxPositions = 8192"
definition kFundPositionIndex :: nat where "kFundPositionIndex = 0"
definition kFirstSecurityPositionIndex :: nat where "kFirstSecurityPositionIndex = 1"
definition kFundPositionId :: string where "kFundPositionId = ''FUND''"

record position =
  pos_locked :: u8
  pos_available :: u64
  volume_available_t0 :: u64
  volume_available_t1 :: u64
  volume_buy :: u64
  dvalue_buy :: u64
  volume_buy_traded :: u64
  dvalue_buy_traded :: u64
  volume_sell :: u64
  dvalue_sell :: u64
  volume_sell_traded :: u64
  dvalue_sell_traded :: u64
  count_order :: u64
  pos_id :: string
  pos_name :: string

record fund_info =
  fi_total_asset :: u64
  fi_available :: u64
  fi_frozen :: u64
  fi_market_value :: u64

abbreviation fund_total_asset_field :: "position \<Rightarrow> u64" where
  "fund_total_asset_field fund_row \<equiv> volume_available_t0 fund_row"

abbreviation fund_available_field :: "position \<Rightarrow> u64" where
  "fund_available_field fund_row \<equiv> pos_available fund_row"

abbreviation fund_frozen_field :: "position \<Rightarrow> u64" where
  "fund_frozen_field fund_row \<equiv> volume_available_t1 fund_row"

abbreviation fund_market_value_field :: "position \<Rightarrow> u64" where
  "fund_market_value_field fund_row \<equiv> volume_buy fund_row"

definition load_fund_info :: "position \<Rightarrow> fund_info" where
  "load_fund_info fund_row = \<lparr>fi_total_asset = fund_total_asset_field fund_row,
     fi_available = fund_available_field fund_row, fi_frozen = fund_frozen_field fund_row,
     fi_market_value = fund_market_value_field fund_row\<rparr>"

definition store_fund_info :: "fund_info \<Rightarrow> position \<Rightarrow> position" where
  "store_fund_info fund fund_row = fund_row\<lparr>volume_available_t0 := fi_total_asset fund,
     pos_available := fi_available fund, volume_available_t1 := fi_frozen fund,
     volume_buy := fi_market_value fund\<rparr>"

record PositionsHeader =
  ph_magic :: u32
  ph_version :: u32
  ph_header_size :: u32
  ph_total_size :: u32
  ph_capacity :: u32
  ph_init_state :: u32
  ph_create_time :: TimestampNs
  ph_last_update :: TimestampNs
  ph_id :: u32

record positions_shm_layout =
  ps_header :: PositionsHeader
  ps_position_count :: nat
  ps_positions :: "nat \<Rightarrow> position"

record PositionManager =
  pm_shm :: "positions_shm_layout option"
  security_to_row :: "InternalSecurityId \<Rightarrow> nat option"
  config_file_path :: string
  db_path :: string
  db_enabled :: bool

section \<open>Helpers\<close>

definition kDefaultInitialFund :: DValue where "kDefaultInitialFund = 100000000"

definition kMaxSecurityPositions :: nat where
  "kMaxSecurityPositions = kMaxPositions - kFirstSecurityPositionIndex"

definition position_zero :: position where
  "position_zero = \<lparr>pos_locked = 0, pos_available = 0, volume_available_t0 = 0,
     volume_available_t1 = 0, volume_buy = 0, dvalue_buy = 0, volume_buy_traded = 0,
     dvalue_buy_traded = 0, volume_sell = 0, dvalue_sell = 0, volume_sell_traded = 0,
     dvalue_sell_traded = 0, count_order = 0, pos_id = [], pos_name = []\<rparr>"

definition clear_position :: "position \<Rightarrow> position" where
  "clear_position pos = pos\<lparr>pos_locked := 0, pos_available := 0, volume_available_t0 := 0,
     volume_available_t1 := 0, volume_buy := 0, dvalue_buy := 0, volume_buy_traded := 0,
     dvalue_buy_traded := 0, volume_sell := 0, dvalue_sell := 0, volume_sell_traded := 0,
     dvalue_sell_traded := 0, count_order := 0, pos_id := [], pos_name := []\<rparr>"

definition clamp_security_count :: "nat \<Rightarrow> nat" where
  "clamp_security_count count =
     (if count > kMaxSecurityPositions then kMaxSecurityPositions else count)"

definition next_security_id :: "nat \<Rightarrow> u32" where
  "next_security_id security_count = of_nat (security_count + kFirstSecurityPositionIndex)"

definition normalize_security_key :: "string \<Rightarrow> InternalSecurityId option" where
  "normalize_security_key security_key =
     (if security_key = [] then None else normalize_internal_security_id security_key)"

definition security_position_by_row :: "positions_shm_layout option \<Rightarrow> nat \<Rightarrow> nat option" where
  "security_position_by_row shm row_index =
     (case shm of
        None \<Rightarrow> None
      | Some shm \<Rightarrow>
          if row_index < kFirstSecurityPositionIndex then None
          else if row_index \<ge> kMaxPositions then None
          else let count = clamp_security_count (ps_position_count shm)
               in if row_index > count then None else Some row_index)"

definition ensure_fund_identity :: "position \<Rightarrow> position" where
  "ensure_fund_identity fund_pos =
     fund_pos\<lparr>pos_id := fs_assign 16 kFundPositionId, pos_name := fs_assign 16 kFundPositionId\<rparr>"

definition set_default_fund :: "position \<Rightarrow> position" where
  "set_default_fund fund_pos = store_fund_info
     \<lparr>fi_total_asset = kDefaultInitialFund, fi_available = kDefaultInitialFund,
      fi_frozen = 0, fi_market_value = 0\<rparr> fund_pos"

text \<open>Writing a row back and stamping \<open>header.last_update\<close>, the last lines of every operation.\<close>

definition put_row :: "nat \<Rightarrow> position \<Rightarrow> TimestampNs \<Rightarrow> positions_shm_layout \<Rightarrow> positions_shm_layout" where
  "put_row i pos now shm = shm\<lparr>ps_positions := (ps_positions shm)(i := pos),
     ps_header := (ps_header shm)\<lparr>ph_last_update := now\<rparr>\<rparr>"

section \<open>Funds\<close>

definition get_available_fund :: "PositionManager \<Rightarrow> DValue" where
  "get_available_fund pm =
     (case pm_shm pm of
        None \<Rightarrow> 0
      | Some shm \<Rightarrow> fund_available_field (ps_positions shm kFundPositionIndex))"

definition freeze_fund :: "DValue \<Rightarrow> TimestampNs \<Rightarrow> PositionManager \<Rightarrow> bool \<times> PositionManager" where
  "freeze_fund amount now pm =
     (case pm_shm pm of
        None \<Rightarrow> (False, pm)
      | Some shm \<Rightarrow>
          let fund_pos = ps_positions shm kFundPositionIndex;
              available = fund_available_field fund_pos;
              frozen = fund_frozen_field fund_pos
          in if available < amount then (False, pm)
             else let new_frozen = frozen + amount
             in if new_frozen < frozen then (False, pm)
             else (True, pm\<lparr>pm_shm := Some (put_row kFundPositionIndex
                     (fund_pos\<lparr>pos_available := available - amount,
                               volume_available_t1 := new_frozen\<rparr>) now shm)\<rparr>))"

definition unfreeze_fund :: "DValue \<Rightarrow> TimestampNs \<Rightarrow> PositionManager \<Rightarrow> bool \<times> PositionManager" where
  "unfreeze_fund amount now pm =
     (case pm_shm pm of
        None \<Rightarrow> (False, pm)
      | Some shm \<Rightarrow>
          let fund_pos = ps_positions shm kFundPositionIndex;
              available = fund_available_field fund_pos;
              frozen = fund_frozen_field fund_pos
          in if frozen < amount then (False, pm)
             else let new_available = available + amount
             in if new_available < available then (False, pm)
             else (True, pm\<lparr>pm_shm := Some (put_row kFundPositionIndex
                     (fund_pos\<lparr>volume_available_t1 := frozen - amount,
                               pos_available := new_available\<rparr>) now shm)\<rparr>))"

definition deduct_fund ::
    "DValue \<Rightarrow> DValue \<Rightarrow> TimestampNs \<Rightarrow> PositionManager \<Rightarrow> bool \<times> PositionManager" where
  "deduct_fund amount fee now pm =
     (case pm_shm pm of
        None \<Rightarrow> (False, pm)
      | Some shm \<Rightarrow>
          let total = amount + fee
          in if total < amount then (False, pm)
          else let fund_pos = ps_positions shm kFundPositionIndex;
              frozen = fund_frozen_field fund_pos
          in if frozen < total then (False, pm)
          else let market_value = fund_market_value_field fund_pos;
              new_market_value = market_value + amount
          in if new_market_value < market_value then (False, pm)
          else let total_asset = fund_total_asset_field fund_pos;
              new_total_asset = (if total_asset < fee then 0 else total_asset - fee)
          in (True, pm\<lparr>pm_shm := Some (put_row kFundPositionIndex
                (fund_pos\<lparr>volume_available_t1 := frozen - total,
                          volume_available_t0 := new_total_asset,
                          volume_buy := new_market_value\<rparr>) now shm)\<rparr>))"

definition add_fund :: "DValue \<Rightarrow> TimestampNs \<Rightarrow> PositionManager \<Rightarrow> bool \<times> PositionManager" where
  "add_fund amount now pm =
     (case pm_shm pm of
        None \<Rightarrow> (False, pm)
      | Some shm \<Rightarrow>
          let fund_pos = ps_positions shm kFundPositionIndex;
              available = fund_available_field fund_pos;
              total_asset = fund_total_asset_field fund_pos;
              new_available = available + amount
          in if new_available < available then (False, pm)
          else let new_total_asset = total_asset + amount
          in if new_total_asset < total_asset then (False, pm)
          else (True, pm\<lparr>pm_shm := Some (put_row kFundPositionIndex
                  (fund_pos\<lparr>pos_available := new_available,
                            volume_available_t0 := new_total_asset\<rparr>) now shm)\<rparr>))"

definition apply_buy_trade_fund ::
    "DValue \<Rightarrow> DValue \<Rightarrow> TimestampNs \<Rightarrow> PositionManager \<Rightarrow> bool \<times> PositionManager" where
  "apply_buy_trade_fund amount fee now pm =
     (case pm_shm pm of
        None \<Rightarrow> (False, pm)
      | Some shm \<Rightarrow>
          let total = amount + fee
          in if total < amount then (False, pm)
          else let fund_pos = ps_positions shm kFundPositionIndex;
              available = fund_available_field fund_pos
          in if available < total then (False, pm)
          else let market_value = fund_market_value_field fund_pos;
              new_market_value = market_value + amount
          in if new_market_value < market_value then (False, pm)
          else let total_asset = fund_total_asset_field fund_pos;
              new_total_asset = (if total_asset < fee then 0 else total_asset - fee)
          in (True, pm\<lparr>pm_shm := Some (put_row kFundPositionIndex
                (fund_pos\<lparr>pos_available := available - total,
                          volume_available_t0 := new_total_asset,
                          volume_buy := new_market_value\<rparr>) now shm)\<rparr>))"

definition apply_sell_trade_fund ::
    "DValue \<Rightarrow> DValue \<Rightarrow> TimestampNs \<Rightarrow> PositionManager \<Rightarrow> bool \<times> PositionManager" where
  "apply_sell_trade_fund amount fee now pm =
     (case pm_shm pm of
        None \<Rightarrow> (False, pm)
      | Some shm \<Rightarrow>
          let fund_pos = ps_positions shm kFundPositionIndex;
              available = fund_available_field fund_pos;
              cash = (if amount \<ge> fee
                      then let cash_increase = amount - fee;
                               new_available = available + cash_increase
                           in if new_available < available then None else Some new_available
                      else let cash_decrease = fee - amount
                           in if available < cash_decrease then None
                              else Some (available - cash_decrease))
          in case cash of
               None \<Rightarrow> (False, pm)
             | Some new_available \<Rightarrow>
                 let market_value = fund_market_value_field fund_pos;
                     new_market_value = (if market_value < amount then 0 else market_value - amount);
                     total_asset = fund_total_asset_field fund_pos;
                     new_total_asset = (if total_asset < fee then 0 else total_asset - fee)
                 in (True, pm\<lparr>pm_shm := Some (put_row kFundPositionIndex
                       (fund_pos\<lparr>pos_available := new_available,
                                 volume_available_t0 := new_total_asset,
                                 volume_buy := new_market_value\<rparr>) now shm)\<rparr>))"

definition get_fund_info :: "PositionManager \<Rightarrow> fund_info" where
  "get_fund_info pm =
     (case pm_shm pm of
        None \<Rightarrow> \<lparr>fi_total_asset = 0, fi_available = 0, fi_frozen = 0, fi_market_value = 0\<rparr>
      | Some shm \<Rightarrow> load_fund_info (ps_positions shm kFundPositionIndex))"

definition overwrite_fund_info ::
    "fund_info \<Rightarrow> TimestampNs \<Rightarrow> PositionManager \<Rightarrow> bool \<times> PositionManager" where
  "overwrite_fund_info fund now pm =
     (case pm_shm pm of
        None \<Rightarrow> (False, pm)
      | Some shm \<Rightarrow>
          let fund_pos = ensure_fund_identity (ps_positions shm kFundPositionIndex)
          in (True, pm\<lparr>pm_shm := Some (put_row kFundPositionIndex
                (store_fund_info fund fund_pos) now shm)\<rparr>))"

section \<open>Securities\<close>

definition get_position :: "InternalSecurityId \<Rightarrow> PositionManager \<Rightarrow> nat option" where
  "get_position sid pm =
     (case normalize_security_key sid of
        None \<Rightarrow> None
      | Some normalized_security_id \<Rightarrow>
          (case security_to_row pm normalized_security_id of
             None \<Rightarrow> None
           | Some row_index \<Rightarrow> security_position_by_row (pm_shm pm) row_index))"

text \<open>The row \<open>get_position\<close> points to, with the layout that holds it.\<close>

definition position_row :: "InternalSecurityId \<Rightarrow> PositionManager \<Rightarrow> (nat \<times> positions_shm_layout \<times> position) option" where
  "position_row sid pm =
     (case get_position sid pm of
        None \<Rightarrow> None
      | Some i \<Rightarrow> map_option (\<lambda>shm. (i, shm, ps_positions shm i)) (pm_shm pm))"

definition get_sellable_volume :: "InternalSecurityId \<Rightarrow> PositionManager \<Rightarrow> Volume" where
  "get_sellable_volume sid pm =
     (case position_row sid pm of None \<Rightarrow> 0 | Some (i, shm, pos) \<Rightarrow> volume_available_t0 pos)"

definition freeze_position ::
    "InternalSecurityId \<Rightarrow> Volume \<Rightarrow> TimestampNs \<Rightarrow> PositionManager \<Rightarrow> bool \<times> PositionManager" where
  "freeze_position sid volume now pm =
     (case position_row sid pm of
        None \<Rightarrow> (False, pm)
      | Some (i, shm, pos) \<Rightarrow>
          if volume_available_t0 pos < volume then (False, pm)
          else (True, pm\<lparr>pm_shm := Some (put_row i
                  (pos\<lparr>volume_available_t0 := volume_available_t0 pos - volume,
                       volume_sell := volume_sell pos + volume,
                       count_order := count_order pos + 1\<rparr>) now shm)\<rparr>))"

definition unfreeze_position ::
    "InternalSecurityId \<Rightarrow> Volume \<Rightarrow> TimestampNs \<Rightarrow> PositionManager \<Rightarrow> bool \<times> PositionManager" where
  "unfreeze_position sid volume now pm =
     (case position_row sid pm of
        None \<Rightarrow> (False, pm)
      | Some (i, shm, pos) \<Rightarrow>
          if volume_sell pos < volume then (False, pm)
          else (True, pm\<lparr>pm_shm := Some (put_row i
                  (pos\<lparr>volume_sell := volume_sell pos - volume,
                       volume_available_t0 := volume_available_t0 pos + volume\<rparr>) now shm)\<rparr>))"

text \<open>
  In the fallback branch \<open>volume_sell\<close> is set to 0 before the check that may fail; the write
  stays (without a new \<open>last_update\<close>).
\<close>

definition deduct_position ::
    "InternalSecurityId \<Rightarrow> Volume \<Rightarrow> DValue \<Rightarrow> TimestampNs \<Rightarrow> PositionManager \<Rightarrow> bool \<times> PositionManager" where
  "deduct_position sid volume amount now pm =
     (case position_row sid pm of
        None \<Rightarrow> (False, pm)
      | Some (i, shm, pos) \<Rightarrow>
          let traded = (\<lambda>pos. (True, pm\<lparr>pm_shm := Some (put_row i
                  (pos\<lparr>volume_sell_traded := volume_sell_traded pos + volume,
                       dvalue_sell_traded := dvalue_sell_traded pos + amount\<rparr>) now shm)\<rparr>))
          in if volume_sell pos \<ge> volume
             then traded (pos\<lparr>volume_sell := volume_sell pos - volume\<rparr>)
             else let remaining = volume;
                      (remaining, pos) =
                        (if volume_sell pos > 0
                         then (remaining - volume_sell pos, pos\<lparr>volume_sell := 0\<rparr>)
                         else (remaining, pos))
                  in if volume_available_t0 pos < remaining
                     then (False, pm\<lparr>pm_shm := Some (shm\<lparr>ps_positions := (ps_positions shm)(i := pos)\<rparr>)\<rparr>)
                     else traded (pos\<lparr>volume_available_t0 := volume_available_t0 pos - remaining\<rparr>))"

definition add_position ::
    "InternalSecurityId \<Rightarrow> Volume \<Rightarrow> DPrice \<Rightarrow> TimestampNs \<Rightarrow> PositionManager \<Rightarrow> bool \<times> PositionManager" where
  "add_position sid volume price now pm =
     (case position_row sid pm of
        None \<Rightarrow> (False, pm)
      | Some (i, shm, pos) \<Rightarrow>
          let amount = (if volume = 0 \<or> price = 0 then 0 else volume * price)
          in (True, pm\<lparr>pm_shm := Some (put_row i
                (pos\<lparr>volume_buy := volume_buy pos + volume,
                     dvalue_buy := dvalue_buy pos + amount,
                     volume_buy_traded := volume_buy_traded pos + volume,
                     dvalue_buy_traded := dvalue_buy_traded pos + amount,
                     volume_available_t1 := volume_available_t1 pos + volume\<rparr>) now shm)\<rparr>))"

definition get_all_positions :: "PositionManager \<Rightarrow> position list" where
  "get_all_positions pm =
     (case pm_shm pm of
        None \<Rightarrow> []
      | Some shm \<Rightarrow>
          let count = clamp_security_count (ps_position_count shm)
          in [pos \<leftarrow> map (ps_positions shm)
                       [kFirstSecurityPositionIndex..<min (Suc count) kMaxPositions]. pos_id pos \<noteq> []])"

definition position_count :: "PositionManager \<Rightarrow> nat" where
  "position_count pm =
     (case pm_shm pm of None \<Rightarrow> 0 | Some shm \<Rightarrow> clamp_security_count (ps_position_count shm))"

definition find_security_id :: "string \<Rightarrow> PositionManager \<Rightarrow> InternalSecurityId option" where
  "find_security_id code pm =
     (if code = [] then None
      else case normalize_security_key code of
             None \<Rightarrow> None
           | Some sid \<Rightarrow> (case security_to_row pm sid of None \<Rightarrow> None | Some _ \<Rightarrow> Some sid))"

text \<open>The empty key is the failure value of \<open>add_security\<close>.\<close>

definition add_security ::
    "string \<Rightarrow> string \<Rightarrow> Market \<Rightarrow> TimestampNs \<Rightarrow> PositionManager \<Rightarrow> InternalSecurityId \<times> PositionManager" where
  "add_security code name mkt now pm =
     (case pm_shm pm of
        None \<Rightarrow> ([], pm)
      | Some shm \<Rightarrow>
          if code = [] then ([], pm)
          else case build_internal_security_id mkt code of
            None \<Rightarrow> ([], pm)
          | Some sid \<Rightarrow>
              if security_to_row pm sid \<noteq> None then (sid, pm)
              else let count = ps_position_count shm;
                       clamped_count = clamp_security_count count;
                       shm = (if clamped_count \<noteq> count
                              then shm\<lparr>ps_position_count := clamped_count\<rparr> else shm);
                       count = clamped_count
                in if count \<ge> kMaxSecurityPositions then ([], pm\<lparr>pm_shm := Some shm\<rparr>)
                else let row_index = count + kFirstSecurityPositionIndex
                in if row_index \<ge> kMaxPositions then ([], pm\<lparr>pm_shm := Some shm\<rparr>)
                else let pos = (clear_position (ps_positions shm row_index))
                                 \<lparr>pos_id := fs_assign 16 sid, pos_name := fs_assign 16 name\<rparr>;
                         new_count = count + 1
                in (sid, pm\<lparr>
                     pm_shm := Some (shm\<lparr>
                       ps_positions := (ps_positions shm)(row_index := pos),
                       ps_position_count := new_count,
                       ps_header := (ps_header shm)\<lparr>ph_id := next_security_id new_count,
                                                    ph_last_update := now\<rparr>\<rparr>),
                     security_to_row := (security_to_row pm)(sid \<mapsto> row_index)\<rparr>))"

section \<open>Funds: the ledger of natural numbers\<close>

text \<open>
  What the fund operations promise: exact arithmetic on (total asset, available, frozen,
  market value), each below \<open>2 ^ 64\<close>, refused as a whole when a balance does not suffice or a
  sum does not fit.  The subtraction of the naturals stops at 0, as the code's clamps do.
\<close>

datatype fund_op =
    FreezeFund DValue | UnfreezeFund DValue | DeductFund DValue DValue | AddFund DValue
  | BuyTradeFund DValue DValue | SellTradeFund DValue DValue

fun apply_fund_op :: "fund_op \<Rightarrow> TimestampNs \<Rightarrow> PositionManager \<Rightarrow> bool \<times> PositionManager" where
  "apply_fund_op (FreezeFund amount) now pm = freeze_fund amount now pm"
| "apply_fund_op (UnfreezeFund amount) now pm = unfreeze_fund amount now pm"
| "apply_fund_op (DeductFund amount fee) now pm = deduct_fund amount fee now pm"
| "apply_fund_op (AddFund amount) now pm = add_fund amount now pm"
| "apply_fund_op (BuyTradeFund amount fee) now pm = apply_buy_trade_fund amount fee now pm"
| "apply_fund_op (SellTradeFund amount fee) now pm = apply_sell_trade_fund amount fee now pm"

type_synonym ledger = "nat \<times> nat \<times> nat \<times> nat"

definition fits :: "nat \<Rightarrow> bool" where
  "fits n \<longleftrightarrow> n < 2 ^ 64"

fun ledger_op :: "fund_op \<Rightarrow> ledger \<Rightarrow> ledger option" where
  "ledger_op (FreezeFund a) (T, A, F, M) =
     (if unat a \<le> A \<and> fits (F + unat a) then Some (T, A - unat a, F + unat a, M) else None)"
| "ledger_op (UnfreezeFund a) (T, A, F, M) =
     (if unat a \<le> F \<and> fits (A + unat a) then Some (T, A + unat a, F - unat a, M) else None)"
| "ledger_op (DeductFund a f) (T, A, F, M) =
     (if fits (unat a + unat f) \<and> unat a + unat f \<le> F \<and> fits (M + unat a)
      then Some (T - unat f, A, F - (unat a + unat f), M + unat a) else None)"
| "ledger_op (AddFund a) (T, A, F, M) =
     (if fits (A + unat a) \<and> fits (T + unat a) then Some (T + unat a, A + unat a, F, M) else None)"
| "ledger_op (BuyTradeFund a f) (T, A, F, M) =
     (if fits (unat a + unat f) \<and> unat a + unat f \<le> A \<and> fits (M + unat a)
      then Some (T - unat f, A - (unat a + unat f), F, M + unat a) else None)"
| "ledger_op (SellTradeFund a f) (T, A, F, M) =
     (if unat f \<le> A + unat a \<and> fits (A + unat a - unat f)
      then Some (T - unat f, A + unat a - unat f, F, M - unat a) else None)"

definition fund_ledger :: "PositionManager \<Rightarrow> ledger" where
  "fund_ledger pm = (let f = get_fund_info pm in
     (unat (fi_total_asset f), unat (fi_available f), unat (fi_frozen f), unat (fi_market_value f)))"

lemma fund_ledger_Some:
  "pm_shm pm = Some shm \<Longrightarrow> fund_ledger pm =
     (let p = ps_positions shm 0 in
      (unat (volume_available_t0 p), unat (pos_available p), unat (volume_available_t1 p),
       unat (volume_buy p)))"
  by (simp add: fund_ledger_def get_fund_info_def load_fund_info_def kFundPositionIndex_def Let_def)

lemma put_row_sel [simp]:
  "ps_positions (put_row i p now shm) = (ps_positions shm)(i := p)"
  "ps_position_count (put_row i p now shm) = ps_position_count shm"
  "ph_init_state (ps_header (put_row i p now shm)) = ph_init_state (ps_header shm)"
  by (simp_all add: put_row_def)

lemma add_wraps_iff: "(a + b < (a :: u64)) \<longleftrightarrow> \<not> fits (unat a + unat b)"
  using word_add_no_wrap_iff [of a b] by (auto simp: fits_def)

lemma add_wraps_nat:
  "(unat (a + b) < unat (a :: u64)) \<longleftrightarrow> \<not> fits (unat a + unat b)"
  "(unat a \<le> unat (a + b)) \<longleftrightarrow> fits (unat a + unat b)"
  using add_wraps_iff [of a b] by (auto simp: word_less_nat_alt)

lemma unat_add_fits: "fits (unat a + unat b) \<Longrightarrow> unat (a + b) = unat a + unat (b :: u64)"
  by (simp add: fits_def unat_word_ariths)

lemma unat_monus: "unat (if a < b then 0 else a - b) = unat a - unat (b :: u64)"
  by (simp add: word_less_nat_alt unat_sub word_le_nat_alt)

lemma unat_minus_le: "unat b \<le> unat a \<Longrightarrow> unat (a - b) = unat a - unat (b :: u64)"
  by (simp add: unat_sub word_le_nat_alt)

lemma fits_unat [simp]: "fits (unat (a :: u64))"
  using unat_lt_2_64 by (simp add: fits_def)

lemmas fund_op_defs = freeze_fund_def unfreeze_fund_def deduct_fund_def add_fund_def
  apply_buy_trade_fund_def apply_sell_trade_fund_def kFundPositionIndex_def

lemmas fund_arith = add_wraps_nat unat_add_fits word_less_nat_alt word_le_nat_alt unat_minus_le
  unat_monus not_less

lemma sell_cash:
  "(if amount \<ge> fee
    then let cash_increase = amount - fee; new_available = available + cash_increase
         in if new_available < available then None else Some new_available
    else let cash_decrease = fee - amount
         in if available < cash_decrease then None else Some (available - cash_decrease))
   = (if unat fee \<le> unat available + unat amount \<and> fits (unat available + unat amount - unat fee)
      then Some (available + amount - fee) else None)"
  for amount fee available :: u64
proof (cases "fee \<le> amount")
  case True
  then have "unat (amount - fee) = unat amount - unat fee" by (simp add: fund_arith)
  moreover have "available + amount - fee = available + (amount - fee)" by simp
  moreover have "(unat fee \<le> unat available + unat amount
      \<and> fits (unat available + unat amount - unat fee))
      = fits (unat available + (unat amount - unat fee))"
    using True by (simp add: word_le_nat_alt)
  ultimately show ?thesis using True
    by (simp only: Let_def word_less_nat_alt add_wraps_nat word_le_nat_alt) simp
next
  case False
  then have "unat (fee - amount) = unat fee - unat amount" by (simp add: fund_arith)
  moreover have "unat available + unat amount - unat fee < 2 ^ 64"
    using False unat_lt_2_64 [of available] by (simp add: word_le_nat_alt)
  ultimately show ?thesis using False by (auto simp: Let_def fund_arith fits_def)
qed

lemma unat_sell_available:
  assumes "unat fee \<le> unat available + unat amount" "fits (unat available + unat amount - unat fee)"
  shows "unat (available + amount - fee) = unat available + unat amount - unat (fee :: u64)"
proof -
  let ?n = "unat available + unat amount - unat fee"
  have "available + amount - fee = of_nat ?n"
    using assms(1) by (simp add: of_nat_diff)
  with assms(2) show ?thesis by (simp add: fits_def unsigned_of_nat take_bit_nat_eq_self)
qed

lemma ledger_op_sound:
  assumes "pm_shm pm = Some shm"
  shows "fst (apply_fund_op op now pm) = (ledger_op op (fund_ledger pm) \<noteq> None)"
    "fund_ledger (snd (apply_fund_op op now pm))
       = (case ledger_op op (fund_ledger pm) of None \<Rightarrow> fund_ledger pm | Some l \<Rightarrow> l)"
proof (atomize (full), cases op)
  case (SellTradeFund a f)
  with assms show "fst (apply_fund_op op now pm) = (ledger_op op (fund_ledger pm) \<noteq> None) \<and>
    fund_ledger (snd (apply_fund_op op now pm))
       = (case ledger_op op (fund_ledger pm) of None \<Rightarrow> fund_ledger pm | Some l \<Rightarrow> l)"
    by (auto simp: fund_ledger_Some fund_op_defs sell_cash unat_sell_available unat_monus Let_def)
qed (use assms in \<open>auto simp: fund_ledger_Some fund_op_defs Let_def fund_arith\<close>)

lemma ledger_op_refused:
  "\<not> fst (apply_fund_op op now pm) \<Longrightarrow> snd (apply_fund_op op now pm) = pm"
  by (cases op) (auto simp: fund_op_defs Let_def split: option.splits if_splits)

lemma fund_op_shm:
  "pm_shm pm = Some shm \<Longrightarrow> \<exists>shm'. pm_shm (snd (apply_fund_op op now pm)) = Some shm'
     \<and> (\<forall>i. i \<noteq> 0 \<longrightarrow> ps_positions shm' i = ps_positions shm i)
     \<and> ps_position_count shm' = ps_position_count shm"
  by (cases op) (auto simp: fund_op_defs Let_def split: option.splits if_splits)

lemma fund_op_rows [frame_simps]:
  "security_to_row (snd (apply_fund_op op now pm)) = security_to_row pm"
  by (cases op) (auto simp: fund_op_defs Let_def split: option.splits if_splits)

text \<open>
  C8: the fund operations refine exact arithmetic on the FUND row.  Whatever the operation and
  the table, it succeeds exactly when the natural-number ledger permits it, the row then holds
  the ledger's result, no other row and no key changes; when it is refused, nothing at all
  changes.
\<close>

theorem fund_ops_refine_ledger:
  assumes "pm_shm pm = Some shm" and "apply_fund_op op now pm = (ok, pm')"
  shows "(case ledger_op op (fund_ledger pm) of
      None \<Rightarrow> \<not> ok \<and> pm' = pm
    | Some l \<Rightarrow> ok \<and> fund_ledger pm' = l)
    \<and> (\<exists>shm'. pm_shm pm' = Some shm' \<and> (\<forall>i. i \<noteq> 0 \<longrightarrow> ps_positions shm' i = ps_positions shm i)
        \<and> ps_position_count shm' = ps_position_count shm)
    \<and> security_to_row pm' = security_to_row pm"
proof -
  have e: "ok = fst (apply_fund_op op now pm)" "pm' = snd (apply_fund_op op now pm)"
    using assms(2) by auto
  show ?thesis
    using ledger_op_sound [OF assms(1), of op now] ledger_op_refused [of op now pm]
      fund_op_shm [OF assms(1), of op now] fund_op_rows [of op now pm]
    by (simp only: e) (auto split: option.splits)
qed

definition pm_example :: "u64 \<Rightarrow> PositionManager" where
  "pm_example available = \<lparr>pm_shm = Some \<lparr>ps_header = \<lparr>ph_magic = 0, ph_version = 0, ph_header_size = 0,
       ph_total_size = 0, ph_capacity = 0, ph_init_state = 1, ph_create_time = 0,
       ph_last_update = 0, ph_id = 1\<rparr>, ps_position_count = 0,
       ps_positions = (\<lambda>_. position_zero)(0 := position_zero\<lparr>pos_available := available,
         volume_available_t0 := available\<rparr>)\<rparr>,
     security_to_row = Map.empty, config_file_path = [], db_path = [], db_enabled = False\<rparr>"

lemma fund_ops_refine_ledger_witness:
  "\<exists>pm'. apply_fund_op (FreezeFund 30) 5 (pm_example 100) = (True, pm') \<and> fund_ledger pm' = (100, 70, 30, 0)"
proof -
  let ?r = "apply_fund_op (FreezeFund 30) 5 (pm_example 100)"
  have s: "pm_shm (pm_example 100) = Some (the (pm_shm (pm_example 100)))"
    by (simp add: pm_example_def)
  have l: "fund_ledger (pm_example 100) = (100, 100, 0, 0)"
    by (simp add: fund_ledger_def get_fund_info_def load_fund_info_def pm_example_def
        kFundPositionIndex_def position_zero_def)
  have "ledger_op (FreezeFund 30) (100, 100, 0, 0) = Some (100, 70, 30, 0)"
    by (simp add: fits_def)
  with fund_ops_refine_ledger [OF s prod.collapse [of ?r, symmetric]] l
  show ?thesis by (auto intro!: exI [of _ "snd ?r"] simp: prod_eq_iff)
qed

section \<open>Funds: accounting over a day\<close>


text \<open>The assets add up: total = available + frozen + market value.\<close>

fun balanced :: "ledger \<Rightarrow> bool" where
  "balanced (T, A, F, M) \<longleftrightarrow> T = A + F + M"










text \<open>
  A sale above the booked market value breaks the sum.  The market value is clamped at 0
  while the whole amount is paid into the available fund, so after such a (successful) sale
  the parts exceed the total asset by exactly the clamped difference.
\<close>

theorem sell_beyond_market_value:
  assumes "fund_ledger pm = (T, A, F, M)" and "balanced (T, A, F, M)" and "M < unat amount"
    and "unat fee \<le> T" and "apply_sell_trade_fund amount fee now pm = (True, pm')"
  shows "fund_ledger pm' = (T - unat fee, A + unat amount - unat fee, F, 0)
    \<and> A + unat amount - unat fee + F + 0 = (T - unat fee) + (unat amount - M)"
proof -
  obtain shm where s: "pm_shm pm = Some shm"
    using assms(5) by (auto simp: apply_sell_trade_fund_def split: option.splits)
  have ap: "apply_fund_op (SellTradeFund amount fee) now pm = (True, pm')" using assms(5) by simp
  have "ledger_op (SellTradeFund amount fee) (T, A, F, M) \<noteq> None"
    using ledger_op_sound(1) [OF s, of "SellTradeFund amount fee" now] ap assms(1) by simp
  then have l: "ledger_op (SellTradeFund amount fee) (T, A, F, M) = Some (fund_ledger pm')"
    using ledger_op_sound(2) [OF s, of "SellTradeFund amount fee" now] ap assms(1)
    by (cases "ledger_op (SellTradeFund amount fee) (T, A, F, M)") simp_all
  then have "unat fee \<le> A + unat amount"
    and p: "fund_ledger pm' = (T - unat fee, A + unat amount - unat fee, F, M - unat amount)"
    by (simp_all split: if_splits)
  with assms(2,3,4) show ?thesis unfolding p by simp
qed

lemma sell_beyond_market_value_witness:
  "\<exists>pm'. apply_sell_trade_fund 50 1 5 (pm_example 100) = (True, pm')
     \<and> fund_ledger pm' = (99, 149, 0, 0)"
proof -
  have l: "fund_ledger (pm_example 100) = (100, 100, 0, 0)" by code_simp
  have t: "fst (apply_sell_trade_fund 50 1 5 (pm_example 100))" by code_simp
  then have e: "apply_sell_trade_fund 50 1 5 (pm_example 100)
      = (True, snd (apply_sell_trade_fund 50 1 5 (pm_example 100)))"
    by (simp add: prod_eq_iff)
  from sell_beyond_market_value [OF l _ _ _ e] e show ?thesis by auto
qed

section \<open>Position rows\<close>

datatype position_op =
    FreezePosition Volume | UnfreezePosition Volume | DeductPosition Volume DValue
  | AddPosition Volume DPrice

fun apply_position_op ::
    "InternalSecurityId \<Rightarrow> position_op \<Rightarrow> TimestampNs \<Rightarrow> PositionManager \<Rightarrow> bool \<times> PositionManager" where
  "apply_position_op sid (FreezePosition v) now pm = freeze_position sid v now pm"
| "apply_position_op sid (UnfreezePosition v) now pm = unfreeze_position sid v now pm"
| "apply_position_op sid (DeductPosition v d) now pm = deduct_position sid v d now pm"
| "apply_position_op sid (AddPosition v p) now pm = add_position sid v p now pm"

lemmas position_op_defs = freeze_position_def unfreeze_position_def deduct_position_def
  add_position_def

lemma position_row_Some:
  assumes "position_row sid pm = Some (i, shm, pos)"
  shows "pm_shm pm = Some shm" "pos = ps_positions shm i" "get_position sid pm = Some i"
    "1 \<le> i" "i < kMaxPositions" "i \<le> clamp_security_count (ps_position_count shm)"
  using assms
  by (auto simp: position_row_def get_position_def security_position_by_row_def
      kFirstSecurityPositionIndex_def Let_def split: option.splits if_splits)

lemma position_row_cong:
  assumes "security_to_row pm' = security_to_row pm" "pm_shm pm = Some shm"
    "pm_shm pm' = Some shm'" "ps_position_count shm' = ps_position_count shm"
  shows "get_position sid pm' = get_position sid pm"
    "position_row sid pm' = map_option (\<lambda>(i, _). (i, shm', ps_positions shm' i)) (position_row sid pm)"
proof -
  show g: "get_position sid pm' = get_position sid pm"
    using assms
    by (auto simp: get_position_def security_position_by_row_def split: option.splits)
  show "position_row sid pm' = map_option (\<lambda>(i, _). (i, shm', ps_positions shm' i)) (position_row sid pm)"
    using assms g by (simp add: position_row_def split: option.splits)
qed

text \<open>The sellable and the frozen volume of a row, and what each operation does to them.\<close>

definition holding :: "position \<Rightarrow> nat \<times> nat" where
  "holding pos = (unat (volume_available_t0 pos), unat (volume_sell pos))"

fun holding_op :: "position_op \<Rightarrow> nat \<times> nat \<Rightarrow> bool \<times> nat \<times> nat" where
  "holding_op (FreezePosition v) (S, Z) =
     (if unat v \<le> S then (True, S - unat v, Z + unat v) else (False, S, Z))"
| "holding_op (UnfreezePosition v) (S, Z) =
     (if unat v \<le> Z then (True, S + unat v, Z - unat v) else (False, S, Z))"
| "holding_op (DeductPosition v d) (S, Z) =
     (if unat v \<le> Z then (True, S, Z - unat v)
      else if unat v \<le> S + Z then (True, S + Z - unat v, 0)
      else (False, S, 0))"
| "holding_op (AddPosition v p) (S, Z) = (True, S, Z)"

lemma holding_sum: "fits (S + Z) \<Longrightarrow> snd (holding_op op (S, Z)) = (S', Z') \<Longrightarrow> fits (S' + Z')"
  by (cases op) (auto simp: fits_def split: if_splits)

lemma unat_move:
  "unat v \<le> unat a \<Longrightarrow> fits (unat a + unat b) \<Longrightarrow> unat (b + v) = unat b + unat (v :: u64)"
  by (simp add: fits_def unat_word_ariths)

lemma row_written:
  assumes "r = (b, pm\<lparr>pm_shm := Some (put_row i pos' now shm)\<rparr>)" "pos_id pos' = pos_id pos"
    "holding pos' = h"
  shows "\<exists>shm' pos'. r = (b, pm\<lparr>pm_shm := Some shm'\<rparr>)
    \<and> ps_positions shm' = (ps_positions shm)(i := pos') \<and> ps_position_count shm' = ps_position_count shm
    \<and> pos_id pos' = pos_id pos \<and> holding pos' = h"
  using assms by (intro exI [of _ "put_row i pos' now shm"] exI [of _ pos']) simp

lemma position_op_row:
  assumes r: "position_row sid pm = Some (i, shm, pos)"
    and f: "fits (unat (volume_available_t0 pos) + unat (volume_sell pos))"
  shows "\<exists>shm' pos'. apply_position_op sid op now pm
      = (fst (holding_op op (holding pos)), pm\<lparr>pm_shm := Some shm'\<rparr>)
    \<and> ps_positions shm' = (ps_positions shm)(i := pos') \<and> ps_position_count shm' = ps_position_count shm
    \<and> pos_id pos' = pos_id pos
    \<and> holding pos' = snd (holding_op op (holding pos))"
proof -
  have same: "pm\<lparr>pm_shm := Some shm\<rparr> = pm" "(ps_positions shm)(i := pos) = ps_positions shm"
    using position_row_Some(1,2) [OF r] by simp_all
  show ?thesis
  proof (cases op)
    case (FreezePosition v)
    show ?thesis
    proof (cases "volume_available_t0 pos < v")
      case True
      with r FreezePosition same show ?thesis
        by (auto simp: position_op_defs holding_def fund_arith intro!: exI [of _ shm] exI [of _ pos])
    next
      case False
      then have "apply_position_op sid op now pm
        = (fst (holding_op op (holding pos)), pm\<lparr>pm_shm := Some (put_row i
            (pos\<lparr>volume_available_t0 := volume_available_t0 pos - v,
                 volume_sell := volume_sell pos + v, count_order := count_order pos + 1\<rparr>) now shm)\<rparr>)"
        using r FreezePosition by (simp add: position_op_defs holding_def word_less_nat_alt)
      then show ?thesis
        by (rule row_written)
          (use False FreezePosition unat_move [OF _ f] in \<open>auto simp: holding_def fund_arith\<close>)
    qed
  next
    case (UnfreezePosition v)
    show ?thesis
    proof (cases "volume_sell pos < v")
      case True
      with r UnfreezePosition same show ?thesis
        by (auto simp: position_op_defs holding_def fund_arith intro!: exI [of _ shm] exI [of _ pos])
    next
      case False
      then have "apply_position_op sid op now pm
        = (fst (holding_op op (holding pos)), pm\<lparr>pm_shm := Some (put_row i
            (pos\<lparr>volume_sell := volume_sell pos - v,
                 volume_available_t0 := volume_available_t0 pos + v\<rparr>) now shm)\<rparr>)"
        using r UnfreezePosition by (simp add: position_op_defs holding_def word_less_nat_alt)
      then show ?thesis
        by (rule row_written)
          (use False UnfreezePosition f unat_move [of v "volume_sell pos" "volume_available_t0 pos"]
            in \<open>auto simp: holding_def fund_arith add.commute\<close>)
    qed
  next
    case (AddPosition v p)
    let ?a = "if v = 0 \<or> p = 0 then 0 else v * p"
    have "apply_position_op sid op now pm
      = (fst (holding_op op (holding pos)), pm\<lparr>pm_shm := Some (put_row i
          (pos\<lparr>volume_buy := volume_buy pos + v, dvalue_buy := dvalue_buy pos + ?a,
               volume_buy_traded := volume_buy_traded pos + v,
               dvalue_buy_traded := dvalue_buy_traded pos + ?a,
               volume_available_t1 := volume_available_t1 pos + v\<rparr>) now shm)\<rparr>)"
      using r AddPosition by (simp add: position_op_defs holding_def Let_def)
    then show ?thesis by (rule row_written) (use AddPosition in \<open>auto simp: holding_def\<close>)
  next
    case (DeductPosition v d)
    let ?traded = "\<lambda>pos. pos\<lparr>volume_sell_traded := volume_sell_traded pos + v,
      dvalue_sell_traded := dvalue_sell_traded pos + d\<rparr>"
    have z: "pos\<lparr>volume_sell := 0\<rparr> = pos" if "volume_sell pos = 0" using that by (cases pos) simp
    consider "v \<le> volume_sell pos"
      | "\<not> v \<le> volume_sell pos" "volume_available_t0 pos < v - volume_sell pos"
      | "\<not> v \<le> volume_sell pos" "\<not> volume_available_t0 pos < v - volume_sell pos" by blast
    then show ?thesis
    proof cases
      case 1
      then have "apply_position_op sid op now pm
        = (fst (holding_op op (holding pos)), pm\<lparr>pm_shm := Some (put_row i
            (?traded (pos\<lparr>volume_sell := volume_sell pos - v\<rparr>)) now shm)\<rparr>)"
        using r DeductPosition by (simp add: position_op_defs holding_def Let_def word_le_nat_alt)
      then show ?thesis
        by (rule row_written) (use 1 DeductPosition in \<open>auto simp: holding_def fund_arith\<close>)
    next
      case 2
      then have n: "unat (volume_available_t0 pos) + unat (volume_sell pos) < unat v"
        by (auto simp: fund_arith)
      have "apply_position_op sid op now pm
        = (fst (holding_op op (holding pos)), pm\<lparr>pm_shm := Some (shm\<lparr>ps_positions :=
            (ps_positions shm)(i := pos\<lparr>volume_sell := 0\<rparr>)\<rparr>)\<rparr>)"
        using 2 r DeductPosition n
        by (cases "volume_sell pos = 0")
          (auto simp: position_op_defs holding_def Let_def word_le_nat_alt word_neq_0_conv z)
      with n DeductPosition show ?thesis
        by (intro exI [of _ "shm\<lparr>ps_positions := (ps_positions shm)(i := pos\<lparr>volume_sell := 0\<rparr>)\<rparr>"]
            exI [of _ "pos\<lparr>volume_sell := 0\<rparr>"]) (auto simp: holding_def)
    next
      case 3
      then have n: "unat v \<le> unat (volume_available_t0 pos) + unat (volume_sell pos)"
        "unat (v - volume_sell pos) = unat v - unat (volume_sell pos)"
        by (auto simp: fund_arith)
      have "apply_position_op sid op now pm
        = (fst (holding_op op (holding pos)), pm\<lparr>pm_shm := Some (put_row i
            (?traded (pos\<lparr>volume_sell := 0,
               volume_available_t0 := volume_available_t0 pos - (v - volume_sell pos)\<rparr>)) now shm)\<rparr>)"
        using 3 r DeductPosition n
        by (cases "volume_sell pos = 0")
          (auto simp: position_op_defs holding_def Let_def word_le_nat_alt word_neq_0_conv z)
      then show ?thesis
        by (rule row_written) (use 3 n DeductPosition in \<open>auto simp: holding_def fund_arith\<close>)
    qed
  qed
qed

text \<open>
  The sellable and the frozen volume of a security move exactly as the operations promise.
  For a security whose row holds sellable \<open>S\<close> and frozen \<open>Z\<close> (together below \<open>2 ^ 64\<close>, which
  stays so): freezing and unfreezing move volume between the two, a traded sale takes it from
  the frozen part and then from the sellable part, a purchase leaves both alone; an operation
  succeeds exactly when the volume is there; and no other row changes.  A refused \<open>deduct_position\<close>
  still sets the frozen part to 0, the one refusal that is not without effect.
\<close>

theorem position_ops_exact:
  assumes "position_row sid pm = Some (i, shm, pos)" and "holding pos = (S, Z)" and "fits (S + Z)"
    and "apply_position_op sid op now pm = (ok, pm')"
  shows "\<exists>shm' pos'. position_row sid pm' = Some (i, shm', pos')
    \<and> (ok, holding pos') = holding_op op (S, Z)
    \<and> fits (fst (holding pos') + snd (holding pos'))
    \<and> (\<forall>j. j \<noteq> i \<longrightarrow> ps_positions shm' j = ps_positions shm j)"
proof -
  note r = assms(1)
  have f: "fits (unat (volume_available_t0 pos) + unat (volume_sell pos))"
    using assms(2,3) by (simp add: holding_def)
  obtain shm' pos' where a: "ok = fst (holding_op op (S, Z))" "pm' = pm\<lparr>pm_shm := Some shm'\<rparr>"
    "ps_positions shm' = (ps_positions shm)(i := pos')" "ps_position_count shm' = ps_position_count shm"
    "holding pos' = snd (holding_op op (S, Z))"
    using position_op_row [OF r f, of op now] assms(2,4) by auto
  have "position_row sid pm' = Some (i, shm', pos')"
    using position_row_cong(2) [of pm' pm shm shm' sid] position_row_Some(1) [OF r] r a by simp
  moreover have "fits (fst (holding pos') + snd (holding pos'))"
    using holding_sum [OF assms(3)] a(5) by (cases "holding pos'") simp
  ultimately show ?thesis using a by (cases "holding_op op (S, Z)") auto
qed

definition pm_stock :: "u64 \<Rightarrow> u64 \<Rightarrow> PositionManager" where
  "pm_stock sellable frozen = (pm_example 0)\<lparr>
     pm_shm := Some \<lparr>ps_header = ps_header (the (pm_shm (pm_example 0))), ps_position_count = 1,
       ps_positions = (\<lambda>_. position_zero)(1 := position_zero\<lparr>pos_id := ''XSHE_000001'',
         volume_available_t0 := sellable, volume_sell := frozen\<rparr>)\<rparr>,
     security_to_row := [''XSHE_000001'' \<mapsto> 1]\<rparr>"

lemma pm_stock_row:
  "position_row ''XSHE_000001'' (pm_stock s z) =
    Some (1, the (pm_shm (pm_stock s z)), position_zero\<lparr>pos_id := ''XSHE_000001'',
         volume_available_t0 := s, volume_sell := z\<rparr>)"
proof -
  have "normalize_security_key ''XSHE_000001'' = Some ''XSHE_000001''" by code_simp
  then show ?thesis
    by (simp add: position_row_def get_position_def pm_stock_def security_position_by_row_def
        kFirstSecurityPositionIndex_def kMaxPositions_def clamp_security_count_def
        kMaxSecurityPositions_def)
qed

lemma position_ops_exact_witness:
  "\<exists>shm' pos'. position_row ''XSHE_000001''
      (snd (apply_position_op ''XSHE_000001'' (DeductPosition 50 0) 9 (pm_stock 100 30)))
      = Some (1, shm', pos') \<and> holding pos' = (80, 0)"
proof -
  let ?r = "apply_position_op ''XSHE_000001'' (DeductPosition 50 0) 9 (pm_stock 100 30)"
  have "holding (position_zero\<lparr>pos_id := ''XSHE_000001'', volume_available_t0 := 100,
      volume_sell := 30\<rparr>) = (100, 30)"
    by (simp add: holding_def)
  from position_ops_exact [OF pm_stock_row this _ prod.collapse [symmetric, of ?r]]
  obtain shm' pos' where "position_row ''XSHE_000001'' (snd ?r) = Some (1, shm', pos')"
    "(fst ?r, holding pos') = holding_op (DeductPosition 50 0) (100, 30)"
    by (auto simp: fits_def)
  moreover have "holding_op (DeductPosition 50 0) (100, 30) = (True, 80, 0)" by simp
  ultimately show ?thesis by auto
qed

text \<open>
  A refused sale loses the frozen volume.  When a trade report claims more than the
  security holds, \<open>deduct_position\<close> answers false, yet the frozen volume of the row is gone.
\<close>

theorem deduct_position_refusal_drops_frozen:
  assumes "position_row sid pm = Some (i, shm, pos)" and "holding pos = (S, Z)" and "fits (S + Z)"
    and "S + Z < unat v" and "0 < Z"
  shows "\<not> fst (deduct_position sid v d now pm)
    \<and> (\<exists>shm' pos'. position_row sid (snd (deduct_position sid v d now pm)) = Some (i, shm', pos')
        \<and> holding pos' = (S, 0) \<and> holding pos' \<noteq> holding pos)"
proof -
  have f: "fits (unat (volume_available_t0 pos) + unat (volume_sell pos))"
    using assms(2,3) by (simp add: holding_def)
  obtain shm' pos' where a: "deduct_position sid v d now pm = (False, pm\<lparr>pm_shm := Some shm'\<rparr>)"
    "ps_positions shm' = (ps_positions shm)(i := pos')" "ps_position_count shm' = ps_position_count shm"
    "holding pos' = (S, 0)"
    using position_op_row [OF assms(1) f, of "DeductPosition v d" now] assms(2,4) by auto
  then show ?thesis
    using position_row_cong(2) [of "pm\<lparr>pm_shm := Some shm'\<rparr>" pm shm shm' sid]
      position_row_Some(1) [OF assms(1)] assms(1,2,5) by auto
qed

lemma deduct_position_refusal_drops_frozen_witness:
  "\<not> fst (deduct_position ''XSHE_000001'' 200 0 9 (pm_stock 100 30))
   \<and> get_sellable_volume ''XSHE_000001'' (pm_stock 100 30) = 100"
proof -
  have "holding (position_zero\<lparr>pos_id := ''XSHE_000001'', volume_available_t0 := 100,
      volume_sell := 30\<rparr>) = (100, 30)"
    by (simp add: holding_def)
  from deduct_position_refusal_drops_frozen [OF pm_stock_row this, of 200] show ?thesis
    by (auto simp: fits_def get_sellable_volume_def pm_stock_row)
qed

section \<open>The key table\<close>

definition pm_ok :: "PositionManager \<Rightarrow> bool" where
  "pm_ok pm \<longleftrightarrow> (case pm_shm pm of
      None \<Rightarrow> True
    | Some shm \<Rightarrow> ps_position_count shm \<le> kMaxSecurityPositions
        \<and> (\<forall>sid i. security_to_row pm sid = Some i \<longrightarrow>
              1 \<le> i \<and> i \<le> ps_position_count shm \<and> pos_id (ps_positions shm i) = sid
              \<and> normalize_internal_security_id sid = Some sid))"

lemma pm_ok_row:
  assumes "pm_ok pm" "pm_shm pm = Some shm" "security_to_row pm sid = Some i"
  shows "get_position sid pm = Some i" "position_row sid pm = Some (i, shm, ps_positions shm i)"
    "find_security_id sid pm = Some sid"
proof -
  have k: "1 \<le> i" "i \<le> ps_position_count shm" "ps_position_count shm \<le> kMaxSecurityPositions"
    "normalize_internal_security_id sid = Some sid"
    using assms by (auto simp: pm_ok_def)
  then have "sid \<noteq> []" using normalize_nonempty by blast
  with k have n: "normalize_security_key sid = Some sid" by (simp add: normalize_security_key_def)
  with k assms show "get_position sid pm = Some i"
    by (simp add: get_position_def security_position_by_row_def kFirstSecurityPositionIndex_def
        clamp_security_count_def kMaxSecurityPositions_def kMaxPositions_def)
  with assms(2) show "position_row sid pm = Some (i, shm, ps_positions shm i)"
    by (simp add: position_row_def)
  from n assms(3) \<open>sid \<noteq> []\<close> show "find_security_id sid pm = Some sid"
    by (simp add: find_security_id_def)
qed

lemma pm_ok_fund_op: "pm_ok pm \<Longrightarrow> pm_ok (snd (apply_fund_op op now pm))"
proof (cases "pm_shm pm")
  case (Some shm)
  assume ok: "pm_ok pm"
  obtain shm' where s: "pm_shm (snd (apply_fund_op op now pm)) = Some shm'"
    "\<And>i. i \<noteq> 0 \<Longrightarrow> ps_positions shm' i = ps_positions shm i"
    "ps_position_count shm' = ps_position_count shm"
    using fund_op_shm [OF Some, of op now] by blast
  have "pos_id (ps_positions shm' i) = sid" if "security_to_row pm sid = Some i" for sid i
  proof -
    from ok Some that have "1 \<le> i" "pos_id (ps_positions shm i) = sid" by (simp_all add: pm_ok_def)
    with s(2) [of i] show ?thesis by simp
  qed
  with ok Some s(1,3) show ?thesis by (simp add: pm_ok_def frame_simps)
next
  case None
  then have "snd (apply_fund_op op now pm) = pm" by (cases op) (simp_all add: fund_op_defs)
  moreover assume "pm_ok pm"
  ultimately show ?thesis by simp
qed

lemma pm_ok_write:
  assumes "pm_ok pm" "pm_shm pm = Some shm" "ps_positions shm' = (ps_positions shm)(i := pos')"
    "ps_position_count shm' = ps_position_count shm" "pos_id pos' = pos_id (ps_positions shm i)"
  shows "pm_ok (pm\<lparr>pm_shm := Some shm'\<rparr>)"
  using assms by (auto simp: pm_ok_def)

lemma add_security_cases:
  assumes "pm_ok pm" "pm_shm pm = Some shm" "add_security code name mkt now pm = (sid, pm')"
  obtains (refused) "sid = []" "pm' = pm"
      "code = [] \<or> build_internal_security_id mkt code = None
        \<or> ps_position_count shm = kMaxSecurityPositions"
  | (known) i where "build_internal_security_id mkt code = Some sid" "pm' = pm"
      "security_to_row pm sid = Some i"
  | (added) shm' pos where "build_internal_security_id mkt code = Some sid"
      "security_to_row pm sid = None" "ps_position_count shm < kMaxSecurityPositions"
      "pm_shm pm' = Some shm'" "ps_position_count shm' = Suc (ps_position_count shm)"
      "ps_positions shm' = (ps_positions shm)(Suc (ps_position_count shm) := pos)"
      "pos = position_zero\<lparr>pos_id := sid, pos_name := fs_assign 16 name\<rparr>"
      "security_to_row pm' = (security_to_row pm)(sid \<mapsto> Suc (ps_position_count shm))"
proof -
  have c: "ps_position_count shm \<le> kMaxSecurityPositions" using assms(1,2) by (simp add: pm_ok_def)
  then have cl: "clamp_security_count (ps_position_count shm) = ps_position_count shm"
    by (simp add: clamp_security_count_def)
  show thesis
  proof (cases "code = [] \<or> build_internal_security_id mkt code = None")
    case True
    then have "add_security code name mkt now pm = ([], pm)"
      using assms(2) by (auto simp only: add_security_def option.case if_True split: if_splits option.splits)
    then have "sid = []" "pm' = pm" using assms(3) by simp_all
    with True show ?thesis by (intro refused) auto
  next
    case False
    then obtain k where k: "build_internal_security_id mkt code = Some k" and ne: "code \<noteq> []" by auto
    show ?thesis
    proof (cases "security_to_row pm k")
      case (Some i)
      then have "add_security code name mkt now pm = (k, pm)"
        using assms(2) k ne by (simp add: add_security_def)
      with assms(3) k Some known show ?thesis by simp
    next
      case None
      show ?thesis
      proof (cases "ps_position_count shm = kMaxSecurityPositions")
        case True
        then have "add_security code name mkt now pm = ([], pm)"
          using None assms(2) k ne cl by (simp add: add_security_def)
        with assms(3) True refused show ?thesis by simp
      next
        case lt: False
        have "length k < 16" "nul \<notin> set k"
          using length_fs_assign [of 16] build_Some(4) [OF k] by auto
        then have id: "fs_assign 16 k = k" by (simp add: fs_assign_id)
        have g: "\<not> kMaxSecurityPositions \<le> ps_position_count shm"
          "\<not> kMaxPositions \<le> Suc (ps_position_count shm)"
          using lt c by (auto simp: kMaxSecurityPositions_def kFirstSecurityPositionIndex_def)
        have "pm' = pm\<lparr>
            pm_shm := Some (shm\<lparr>
              ps_positions := (ps_positions shm)(Suc (ps_position_count shm) :=
                 (clear_position (ps_positions shm (Suc (ps_position_count shm))))
                   \<lparr>pos_id := k, pos_name := fs_assign 16 name\<rparr>),
              ps_position_count := Suc (ps_position_count shm),
              ps_header := (ps_header shm)\<lparr>ph_id := next_security_id (Suc (ps_position_count shm)),
                ph_last_update := now\<rparr>\<rparr>),
            security_to_row := (security_to_row pm)(k \<mapsto> Suc (ps_position_count shm))\<rparr> \<and> sid = k"
          using None assms(2,3) k ne cl c id g
          by (auto simp: add_security_def Let_def kFirstSecurityPositionIndex_def)
        with None k lt c show ?thesis
          by (intro added) (auto simp: clear_position_def position_zero_def)
      qed
    qed
  qed
qed

lemma add_security_ok:
  assumes "pm_ok pm" "pm_shm pm = Some shm" "nul \<notin> set code"
    "add_security code name mkt now pm = (sid, pm')"
  shows "pm_ok pm'"
using assms(1,2,4)
proof (cases rule: add_security_cases)
  case (added shm' pos)
  have "normalize_internal_security_id sid = Some sid"
    using added(1) assms(3) by (rule normalize_build)
  with added assms(1,2) show ?thesis
    by (fastforce simp: pm_ok_def)
qed (use assms in simp_all)

text \<open>
  The key table.  On a well-formed table, \<open>add_security\<close> keeps the table well-formed and
  either answers the canonical key of the security, which then finds a row, the old row if
  the security was known (nothing has changed) and otherwise a fresh zeroed one at the end;
  or it answers the empty key and has changed nothing, because the code has no key or the
  table is full.  The rows of all other securities stay.
\<close>

theorem add_security_table:
  assumes "pm_ok pm" and "pm_shm pm = Some shm" and "nul \<notin> set code"
    and "add_security code name mkt now pm = (sid, pm')"
  shows "pm_ok pm'
    \<and> (if sid = [] then pm' = pm \<and> (code = [] \<or> build_internal_security_id mkt code = None
          \<or> position_count pm = kMaxSecurityPositions)
       else build_internal_security_id mkt code = Some sid
        \<and> find_security_id sid pm' = Some sid
        \<and> (if find_security_id sid pm = Some sid then pm' = pm
           else get_position sid pm' = Some (Suc (position_count pm))
             \<and> position_count pm' = Suc (position_count pm)
             \<and> map_option (\<lambda>(i, _, pos). pos) (position_row sid pm')
                = Some (position_zero\<lparr>pos_id := sid, pos_name := fs_assign 16 name\<rparr>)))
    \<and> (\<forall>k. normalize_security_key k \<noteq> Some sid \<longrightarrow>
          map_option (\<lambda>(i, _, pos). (i, pos)) (position_row k pm')
            = map_option (\<lambda>(i, _, pos). (i, pos)) (position_row k pm))"
proof -
  have ok': "pm_ok pm'" using assms by (rule add_security_ok)
  have c: "position_count pm = ps_position_count shm"
    using assms(1,2) by (simp add: position_count_def clamp_security_count_def pm_ok_def)
  show ?thesis
    using assms(1,2,4)
  proof (cases rule: add_security_cases)
    case refused
    with ok' c show ?thesis by auto
  next
    case (known i)
    then have "sid \<noteq> []" using build_nonempty by blast
    with known pm_ok_row [OF assms(1,2)] ok' show ?thesis by auto
  next
    case (added shm' pos)
    have ne: "sid \<noteq> []" using added(1) build_nonempty by blast
    have look: "security_to_row pm' sid = Some (Suc (ps_position_count shm))"
      using added by simp
    have unknown: "find_security_id sid pm = None"
      using added(1,2) assms(3) ne
      by (simp add: find_security_id_def normalize_security_key_def normalize_build)
    have c': "position_count pm' = Suc (ps_position_count shm)"
      using added by (simp add: position_count_def clamp_security_count_def)
    have other: "map_option (\<lambda>(i, _, pos). (i, pos)) (position_row k pm')
            = map_option (\<lambda>(i, _, pos). (i, pos)) (position_row k pm)"
      if k: "normalize_security_key k \<noteq> Some sid" for k
    proof (cases "normalize_security_key k")
      case None
      then show ?thesis by (simp add: position_row_def get_position_def)
    next
      case (Some n)
      with k have n: "security_to_row pm' n = security_to_row pm n" using added by simp
      show ?thesis
      proof (cases "security_to_row pm n")
        case None
        with Some n show ?thesis by (simp add: position_row_def get_position_def)
      next
        case row: (Some i)
        then have i: "1 \<le> i" "i \<le> ps_position_count shm" "ps_position_count shm < kMaxSecurityPositions"
          using assms(1,2) added(3) by (auto simp: pm_ok_def)
        with Some n row added(4-6) assms(2) show ?thesis
          by (simp add: position_row_def get_position_def security_position_by_row_def
              clamp_security_count_def)
      qed
    qed
    show ?thesis
      using ok' pm_ok_row [OF ok' added(4) look] ne unknown c c' added(1,6,7) other by auto
  qed
qed

lemma add_security_table_witness:
  "find_security_id ''XSHE_000002'' (snd (add_security ''000002'' ''b'' SZ 7 (pm_stock 100 0)))
     = Some ''XSHE_000002''
   \<and> position_count (snd (add_security ''000002'' ''b'' SZ 7 (pm_stock 100 0))) = 2"
proof -
  have s: "pm_shm (pm_stock 100 0) = Some (the (pm_shm (pm_stock 100 0)))"
    by (simp add: pm_stock_def)
  have n: "normalize_internal_security_id ''XSHE_000001'' = Some ''XSHE_000001''" by code_simp
  have ok: "pm_ok (pm_stock 100 0)"
    by (simp add: pm_ok_def pm_stock_def n kMaxSecurityPositions_def kMaxPositions_def
        kFirstSecurityPositionIndex_def)
  have f: "fst (add_security ''000002'' ''b'' SZ 7 (pm_stock 100 0)) = ''XSHE_000002''"
    and u: "find_security_id ''XSHE_000002'' (pm_stock 100 0) = None"
    and c: "position_count (pm_stock 100 0) = 1" by code_simp+
  have "nul \<notin> set ''000002''" by (simp add: nul_def)
  from add_security_table [OF ok s this prod.collapse [of "add_security ''000002'' ''b'' SZ 7 (pm_stock 100 0)", symmetric]]
  show ?thesis by (simp add: f u c)
qed

end
