(* ===== verification/Risk.thy ===== *)
theory Risk
  imports Positions
begin

text \<open>
  \<^verbatim>\<open>src/risk/risk_checker.cpp\<close> and \<^verbatim>\<open>src/risk/risk_manager.cpp\<close>: the pre-trade risk rules and
  the manager that runs them in order, stops at the first rejection and keeps statistics.  The
  classes derived from \<open>risk_rule\<close> are the constructors of \<open>rule_kind\<close>, with the state
  each object keeps; \<open>rule_uid\<close> stands for the object's address, to which the manager's three
  rule pointers refer.  \<open>__uint128_t\<close> is a 128-bit word.  \<open>now_monotonic_ns()\<close> and
  \<open>now_ns()\<close> are arguments.  The post-check callback is handed exactly the order and the
  result that \<open>check_order\<close> is given and returns; it is left out.
\<close>

section \<open>Rules\<close>

record risk_check_result =
  rc_code :: RiskResult
  rc_message :: string

definition passed :: "risk_check_result \<Rightarrow> bool" where
  "passed r = (rc_code r = Pass)"

definition risk_pass :: risk_check_result where
  "risk_pass = \<lparr>rc_code = Pass, rc_message = ''pass''\<rparr>"

definition risk_reject :: "RiskResult \<Rightarrow> string \<Rightarrow> risk_check_result" where
  "risk_reject code msg = \<lparr>rc_code = code, rc_message = msg\<rparr>"

datatype rule_kind =
    FundCheck
  | PositionCheck
  | MaxOrderValue DValue
  | MaxOrderVolume Volume
  | PriceLimit "InternalSecurityId \<Rightarrow> (DPrice \<times> DPrice) option"
  | DuplicateOrderRule "u64 \<Rightarrow> TimestampNs option" TimestampNs
  | RateLimit u32 u32 TimestampNs

record risk_rule =
  rule_uid :: nat
  rule_enabled :: bool
  rule_kind :: rule_kind

fun rule_name :: "rule_kind \<Rightarrow> string" where
  "rule_name FundCheck = ''fund_check''"
| "rule_name PositionCheck = ''position_check''"
| "rule_name (MaxOrderValue _) = ''max_order_value''"
| "rule_name (MaxOrderVolume _) = ''max_order_volume''"
| "rule_name (PriceLimit _) = ''price_limit''"
| "rule_name (DuplicateOrderRule _ _) = ''duplicate_order''"
| "rule_name (RateLimit _ _ _) = ''rate_limit''"

definition make_order_fingerprint :: "OrderRequest \<Rightarrow> u64" where
  "make_order_fingerprint order = ucast (internal_order_id order)"

definition is_new_order :: "OrderRequest \<Rightarrow> bool" where
  "is_new_order order = (order_type order = New)"

definition fund_check :: "OrderRequest \<Rightarrow> PositionManager \<Rightarrow> risk_check_result" where
  "fund_check order positions =
     (if \<not> is_new_order order \<or> trade_side order \<noteq> Buy then risk_pass
      else let available = get_available_fund positions;
               required_value = (ucast (volume_entrust order) * ucast (dprice_entrust order) :: u128);
               estimated_fee = dfee_estimate order;
               estimated_fee = (if estimated_fee = 0 \<and> required_value > 0 then 1 else estimated_fee);
               required_total = required_value + ucast estimated_fee
           in if required_total < required_value \<or> required_total > ucast available
              then risk_reject RejectInsufficientFund ''insufficient available fund''
              else risk_pass)"

definition position_check :: "OrderRequest \<Rightarrow> PositionManager \<Rightarrow> risk_check_result" where
  "position_check order positions =
     (if \<not> is_new_order order \<or> trade_side order \<noteq> Sell then risk_pass
      else let sellable = get_sellable_volume (internal_security_id order) positions
           in if sellable < volume_entrust order
              then risk_reject RejectInsufficientPosition ''insufficient sellable position''
              else risk_pass)"

definition max_order_value_check :: "DValue \<Rightarrow> OrderRequest \<Rightarrow> risk_check_result" where
  "max_order_value_check max_value order =
     (if \<not> is_new_order order \<or> max_value = 0 then risk_pass
      else let order_value = (ucast (volume_entrust order) * ucast (dprice_entrust order) :: u128)
           in if order_value > ucast max_value
              then risk_reject RejectExceedMaxOrderValue ''order value exceeds limit''
              else risk_pass)"

definition max_order_volume_check :: "Volume \<Rightarrow> OrderRequest \<Rightarrow> risk_check_result" where
  "max_order_volume_check max_volume order =
     (if \<not> is_new_order order \<or> max_volume = 0 then risk_pass
      else if volume_entrust order > max_volume
           then risk_reject RejectExceedMaxOrderVolume ''order volume exceeds limit''
           else risk_pass)"

definition price_limit_check ::
    "(InternalSecurityId \<Rightarrow> (DPrice \<times> DPrice) option) \<Rightarrow> OrderRequest \<Rightarrow> risk_check_result" where
  "price_limit_check limits order =
     (if \<not> is_new_order order then risk_pass
      else case normalize_internal_security_id (internal_security_id order) of
        None \<Rightarrow> risk_pass
      | Some sid \<Rightarrow>
          (case limits sid of
             None \<Rightarrow> risk_pass
           | Some (limit_up, limit_down) \<Rightarrow>
               if (limit_up \<noteq> 0 \<and> dprice_entrust order > limit_up)
                  \<or> (limit_down \<noteq> 0 \<and> dprice_entrust order < limit_down)
               then risk_reject RejectPriceOutOfRange ''price is out of limit range''
               else risk_pass))"

definition duplicate_check ::
    "(u64 \<Rightarrow> TimestampNs option) \<Rightarrow> TimestampNs \<Rightarrow> OrderRequest \<Rightarrow> TimestampNs
      \<Rightarrow> risk_check_result \<times> (u64 \<Rightarrow> TimestampNs option)" where
  "duplicate_check recent_orders window order now =
     (if \<not> is_new_order order then (risk_pass, recent_orders)
      else let key = make_order_fingerprint order
           in if (case recent_orders key of None \<Rightarrow> False
                  | Some t \<Rightarrow> now \<ge> t \<and> now - t \<le> window)
              then (risk_reject RejectDuplicateOrder ''duplicate order within time window'', recent_orders)
              else (risk_pass, recent_orders(key \<mapsto> now)))"

definition kSecondNs :: TimestampNs where "kSecondNs = 1000000000"

definition rate_limit_check ::
    "u32 \<Rightarrow> u32 \<Rightarrow> TimestampNs \<Rightarrow> OrderRequest \<Rightarrow> TimestampNs \<Rightarrow> risk_check_result \<times> u32 \<times> TimestampNs" where
  "rate_limit_check max_orders cur start order now =
     (if \<not> is_new_order order \<or> max_orders = 0 then (risk_pass, cur, start)
      else let (cur, start) = (if start = 0 \<or> now < start \<or> now - start \<ge> kSecondNs
                               then (0, now) else (cur, start));
               count = cur + 1
           in (if count > max_orders then risk_reject RejectUnknown ''order rate exceeds limit''
               else risk_pass, count, start))"

text \<open>The virtual \<open>check\<close>: its result and the rule's new state.\<close>

definition rule_check ::
    "OrderRequest \<Rightarrow> PositionManager \<Rightarrow> TimestampNs \<Rightarrow> risk_rule \<Rightarrow> risk_check_result \<times> risk_rule" where
  "rule_check order positions now rule =
     (if \<not> rule_enabled rule then (risk_pass, rule)
      else case rule_kind rule of
        FundCheck \<Rightarrow> (fund_check order positions, rule)
      | PositionCheck \<Rightarrow> (position_check order positions, rule)
      | MaxOrderValue v \<Rightarrow> (max_order_value_check v order, rule)
      | MaxOrderVolume v \<Rightarrow> (max_order_volume_check v order, rule)
      | PriceLimit limits \<Rightarrow> (price_limit_check limits order, rule)
      | DuplicateOrderRule recent window \<Rightarrow>
          (let (r, recent) = duplicate_check recent window order now
           in (r, rule\<lparr>rule_kind := DuplicateOrderRule recent window\<rparr>))
      | RateLimit max_orders cur start \<Rightarrow>
          (let (r, cur, start) = rate_limit_check max_orders cur start order now
           in (r, rule\<lparr>rule_kind := RateLimit max_orders cur start\<rparr>)))"

section \<open>The manager\<close>

record RiskConfig =
  max_order_value :: DValue
  max_order_volume :: Volume
  max_daily_turnover :: DValue
  max_orders_per_second :: u32
  enable_price_limit_check :: bool
  enable_duplicate_check :: bool
  enable_fund_check :: bool
  enable_position_check :: bool
  duplicate_window_ns :: TimestampNs

record RiskState =
  total_checks :: u64
  rs_passed :: u64
  rejected :: u64
  rejected_fund :: u64
  rejected_position :: u64
  rejected_price :: u64
  rejected_value :: u64
  rejected_volume :: u64
  rejected_duplicate :: u64
  rejected_rate_limit :: u64
  last_check_time :: TimestampNs

definition RiskState_reset :: RiskState where
  "RiskState_reset = \<lparr>total_checks = 0, rs_passed = 0, rejected = 0, rejected_fund = 0,
     rejected_position = 0, rejected_price = 0, rejected_value = 0, rejected_volume = 0,
     rejected_duplicate = 0, rejected_rate_limit = 0, last_check_time = 0\<rparr>"

record RiskManager =
  rm_config :: RiskConfig
  rm_rules :: "risk_rule list"
  rm_stats :: RiskState
  price_limit_rule_ptr :: "nat option"
  duplicate_rule_ptr :: "nat option"
  rate_limit_rule_ptr :: "nat option"
  rm_next_uid :: nat

definition add_rule :: "rule_kind \<Rightarrow> RiskManager \<Rightarrow> RiskManager" where
  "add_rule kind rm =
     (let uid = rm_next_uid rm
      in rm\<lparr>price_limit_rule_ptr := (case kind of PriceLimit _ \<Rightarrow> Some uid | _ \<Rightarrow> price_limit_rule_ptr rm),
            duplicate_rule_ptr := (case kind of DuplicateOrderRule _ _ \<Rightarrow> Some uid | _ \<Rightarrow> duplicate_rule_ptr rm),
            rate_limit_rule_ptr := (case kind of RateLimit _ _ _ \<Rightarrow> Some uid | _ \<Rightarrow> rate_limit_rule_ptr rm),
            rm_rules := rm_rules rm @ [\<lparr>rule_uid = uid, rule_enabled = True, rule_kind = kind\<rparr>],
            rm_next_uid := uid + 1\<rparr>)"

definition initialize_default_rules :: "RiskManager \<Rightarrow> RiskManager" where
  "initialize_default_rules rm =
     (let c = rm_config rm;
          rm = rm\<lparr>rm_rules := [], price_limit_rule_ptr := None, duplicate_rule_ptr := None,
                  rate_limit_rule_ptr := None\<rparr>;
          rm = (if enable_fund_check c then add_rule FundCheck rm else rm);
          rm = (if enable_position_check c then add_rule PositionCheck rm else rm);
          rm = (if max_order_value c > 0 then add_rule (MaxOrderValue (max_order_value c)) rm else rm);
          rm = (if max_order_volume c > 0 then add_rule (MaxOrderVolume (max_order_volume c)) rm else rm);
          rm = (if enable_price_limit_check c then add_rule (PriceLimit Map.empty) rm else rm);
          rm = (if enable_duplicate_check c
                then add_rule (DuplicateOrderRule Map.empty (duplicate_window_ns c)) rm else rm);
          rm = (if max_orders_per_second c > 0
                then add_rule (RateLimit (max_orders_per_second c) 0 0) rm else rm)
      in rm)"

definition RiskManager_new :: "RiskConfig \<Rightarrow> RiskManager" where
  "RiskManager_new c = initialize_default_rules \<lparr>rm_config = c, rm_rules = [],
     rm_stats = RiskState_reset, price_limit_rule_ptr = None, duplicate_rule_ptr = None,
     rate_limit_rule_ptr = None, rm_next_uid = 0\<rparr>"

definition update_stats :: "risk_check_result \<Rightarrow> TimestampNs \<Rightarrow> RiskState \<Rightarrow> RiskState" where
  "update_stats result now s =
     (let s = s\<lparr>total_checks := total_checks s + 1, last_check_time := now\<rparr>
      in if passed result then s\<lparr>rs_passed := rs_passed s + 1\<rparr>
      else let s = s\<lparr>rejected := rejected s + 1\<rparr>
      in case rc_code result of
           RejectInsufficientFund \<Rightarrow> s\<lparr>rejected_fund := rejected_fund s + 1\<rparr>
         | RejectInsufficientPosition \<Rightarrow> s\<lparr>rejected_position := rejected_position s + 1\<rparr>
         | RejectPriceOutOfRange \<Rightarrow> s\<lparr>rejected_price := rejected_price s + 1\<rparr>
         | RejectExceedMaxOrderValue \<Rightarrow> s\<lparr>rejected_value := rejected_value s + 1\<rparr>
         | RejectExceedMaxOrderVolume \<Rightarrow> s\<lparr>rejected_volume := rejected_volume s + 1\<rparr>
         | RejectDuplicateOrder \<Rightarrow> s\<lparr>rejected_duplicate := rejected_duplicate s + 1\<rparr>
         | _ \<Rightarrow> s\<lparr>rejected_rate_limit := rejected_rate_limit s + 1\<rparr>)"

fun run_rules ::
    "OrderRequest \<Rightarrow> PositionManager \<Rightarrow> TimestampNs \<Rightarrow> risk_check_result \<Rightarrow> risk_rule list
      \<Rightarrow> risk_check_result \<times> risk_rule list" where
  "run_rules order positions now result [] = (result, [])"
| "run_rules order positions now result (rule # rules) =
     (if \<not> rule_enabled rule
      then let (result, rules) = run_rules order positions now result rules in (result, rule # rules)
      else let (result, rule) = rule_check order positions now rule
           in if \<not> passed result then (result, rule # rules)
              else let (result, rules) = run_rules order positions now result rules
                   in (result, rule # rules))"

definition check_order ::
    "OrderRequest \<Rightarrow> PositionManager \<Rightarrow> TimestampNs \<Rightarrow> RiskManager \<Rightarrow> risk_check_result \<times> RiskManager" where
  "check_order order positions now rm =
     (let (result, rules) = run_rules order positions now risk_pass (rm_rules rm)
      in (result, rm\<lparr>rm_rules := rules, rm_stats := update_stats result now (rm_stats rm)\<rparr>))"

fun check_orders ::
    "(OrderRequest \<times> TimestampNs) list \<Rightarrow> PositionManager \<Rightarrow> RiskManager
      \<Rightarrow> risk_check_result list \<times> RiskManager" where
  "check_orders [] positions rm = ([], rm)"
| "check_orders ((order, now) # orders) positions rm =
     (let (result, rm) = check_order order positions now rm;
          (results, rm) = check_orders orders positions rm
      in (result # results, rm))"

definition get_rule :: "string \<Rightarrow> RiskManager \<Rightarrow> risk_rule option" where
  "get_rule name rm = find (\<lambda>r. rule_name (rule_kind r) = name) (rm_rules rm)"

definition update_rule :: "nat option \<Rightarrow> (risk_rule \<Rightarrow> risk_rule) \<Rightarrow> RiskManager \<Rightarrow> RiskManager" where
  "update_rule ptr f rm =
     (case ptr of
        None \<Rightarrow> rm
      | Some uid \<Rightarrow> rm\<lparr>rm_rules := map (\<lambda>r. if rule_uid r = uid then f r else r) (rm_rules rm)\<rparr>)"

definition enable_rule :: "string \<Rightarrow> bool \<Rightarrow> RiskManager \<Rightarrow> bool \<times> RiskManager" where
  "enable_rule name enabled rm =
     (case get_rule name rm of
        None \<Rightarrow> (False, rm)
      | Some rule \<Rightarrow> (True, update_rule (Some (rule_uid rule)) (\<lambda>r. r\<lparr>rule_enabled := enabled\<rparr>) rm))"

definition remove_rule :: "string \<Rightarrow> RiskManager \<Rightarrow> bool \<times> RiskManager" where
  "remove_rule name rm =
     (case get_rule name rm of
        None \<Rightarrow> (False, rm)
      | Some rule \<Rightarrow>
          let uid = rule_uid rule; drop_ptr = (\<lambda>p. if p = Some uid then None else p)
          in (True, rm\<lparr>price_limit_rule_ptr := drop_ptr (price_limit_rule_ptr rm),
                       duplicate_rule_ptr := drop_ptr (duplicate_rule_ptr rm),
                       rate_limit_rule_ptr := drop_ptr (rate_limit_rule_ptr rm),
                       rm_rules := filter (\<lambda>r. rule_uid r \<noteq> uid) (rm_rules rm)\<rparr>))"

definition set_price_limits ::
    "InternalSecurityId \<Rightarrow> DPrice \<Rightarrow> DPrice \<Rightarrow> rule_kind \<Rightarrow> rule_kind" where
  "set_price_limits sid limit_up limit_down kind =
     (case kind of
        PriceLimit limits \<Rightarrow>
          (case normalize_internal_security_id sid of
             None \<Rightarrow> kind
           | Some key \<Rightarrow> PriceLimit (limits(key \<mapsto> (limit_up, limit_down))))
      | _ \<Rightarrow> kind)"

text \<open>The other setters of the rule objects; each acts on objects of its own class.\<close>

definition set_max_value :: "DValue \<Rightarrow> rule_kind \<Rightarrow> rule_kind" where
  "set_max_value v kind = (case kind of MaxOrderValue _ \<Rightarrow> MaxOrderValue v | _ \<Rightarrow> kind)"

definition set_max_volume :: "Volume \<Rightarrow> rule_kind \<Rightarrow> rule_kind" where
  "set_max_volume v kind = (case kind of MaxOrderVolume _ \<Rightarrow> MaxOrderVolume v | _ \<Rightarrow> kind)"

definition record_order :: "OrderRequest \<Rightarrow> TimestampNs \<Rightarrow> rule_kind \<Rightarrow> rule_kind" where
  "record_order order now kind =
     (case kind of
        DuplicateOrderRule recent window \<Rightarrow>
          DuplicateOrderRule (recent(make_order_fingerprint order \<mapsto> now)) window
      | _ \<Rightarrow> kind)"

definition clear_history :: "rule_kind \<Rightarrow> rule_kind" where
  "clear_history kind =
     (case kind of DuplicateOrderRule recent window \<Rightarrow> DuplicateOrderRule Map.empty window | _ \<Rightarrow> kind)"

definition set_time_window_ns :: "TimestampNs \<Rightarrow> rule_kind \<Rightarrow> rule_kind" where
  "set_time_window_ns window_ns kind =
     (case kind of DuplicateOrderRule recent window \<Rightarrow> DuplicateOrderRule recent window_ns | _ \<Rightarrow> kind)"

definition set_max_orders_per_second :: "u32 \<Rightarrow> rule_kind \<Rightarrow> rule_kind" where
  "set_max_orders_per_second m kind =
     (case kind of RateLimit _ cur start \<Rightarrow> RateLimit m cur start | _ \<Rightarrow> kind)"

definition reset_counter :: "rule_kind \<Rightarrow> rule_kind" where
  "reset_counter kind = (case kind of RateLimit m cur start \<Rightarrow> RateLimit m 0 0 | _ \<Rightarrow> kind)"

definition update_price_limits ::
    "InternalSecurityId \<Rightarrow> DPrice \<Rightarrow> DPrice \<Rightarrow> RiskManager \<Rightarrow> RiskManager" where
  "update_price_limits sid limit_up limit_down rm = update_rule (price_limit_rule_ptr rm)
     (\<lambda>r. r\<lparr>rule_kind := set_price_limits sid limit_up limit_down (rule_kind r)\<rparr>) rm"

definition clear_price_limits :: "RiskManager \<Rightarrow> RiskManager" where
  "clear_price_limits rm = update_rule (price_limit_rule_ptr rm)
     (\<lambda>r. r\<lparr>rule_kind := (case rule_kind r of PriceLimit _ \<Rightarrow> PriceLimit Map.empty | k \<Rightarrow> k)\<rparr>) rm"

definition update_config :: "RiskConfig \<Rightarrow> RiskManager \<Rightarrow> RiskManager" where
  "update_config c rm = initialize_default_rules (rm\<lparr>rm_config := c\<rparr>)"

definition reset_stats :: "RiskManager \<Rightarrow> RiskManager" where
  "reset_stats rm = rm\<lparr>rm_stats := RiskState_reset\<rparr>"

section \<open>What a pass means\<close>

lemma passed_simps [simp]:
  "passed risk_pass" "passed (risk_reject c m) = (c = Pass)"
  by (simp_all add: passed_def risk_pass_def risk_reject_def)

lemma rule_check_disabled [simp]: "\<not> rule_enabled rule \<Longrightarrow> rule_check order positions now rule = (risk_pass, rule)"
  by (simp add: rule_check_def)

lemma run_rules_spec:
  assumes "run_rules order positions now r0 rules = (r, rules')" "passed r0"
  shows "passed r \<longleftrightarrow> (\<forall>rule\<in>set rules. passed (fst (rule_check order positions now rule)))"
    "\<not> passed r \<Longrightarrow> \<exists>pre rule post. rules = pre @ rule # post
       \<and> (\<forall>x\<in>set pre. passed (fst (rule_check order positions now x)))
       \<and> r = fst (rule_check order positions now rule)
       \<and> rules' = map (\<lambda>x. snd (rule_check order positions now x)) (pre @ [rule]) @ post"
    "passed r \<Longrightarrow> rules' = map (\<lambda>x. snd (rule_check order positions now x)) rules"
proof (atomize (full), use assms in \<open>induction rules arbitrary: r0 r rules'\<close>)
  case (Cons rule rules)
  obtain r1 rule1 where c: "rule_check order positions now rule = (r1, rule1)"
    by (cases "rule_check order positions now rule")
  show ?case
  proof (cases "passed r1")
    case False
    then have "rule_enabled rule" using c by (cases "rule_enabled rule") auto
    with Cons.prems(1) c False have "r = r1" "rules' = rule1 # rules" by auto
    with c False show ?thesis by (auto intro!: exI [of _ "[]"])
  next
    case True
    obtain r2 where r2: "passed r2" "\<And>q rs. run_rules order positions now r2 rules = (q, rs)
        \<Longrightarrow> q = r \<and> rules' = rule1 # rs"
    proof (cases "rule_enabled rule")
      case en: True
      with Cons.prems(1) c True show ?thesis by (intro that [of r1]) auto
    next
      case False
      with c Cons.prems show ?thesis by (intro that [of r0]) auto
    qed
    obtain rs where run: "run_rules order positions now r2 rules = (r, rs)" and rs: "rules' = rule1 # rs"
      using r2(2) by (cases "run_rules order positions now r2 rules") auto
    note IH = Cons.IH [OF run r2(1)]
    show ?thesis
    proof (intro conjI impI)
      show "passed r = (\<forall>x\<in>set (rule # rules). passed (fst (rule_check order positions now x)))"
        using IH c True by simp
      show "rules' = map (\<lambda>x. snd (rule_check order positions now x)) (rule # rules)" if "passed r"
        using IH that c rs by simp
      assume "\<not> passed r"
      with IH obtain pre x post where "rules = pre @ x # post"
        "\<forall>y\<in>set pre. passed (fst (rule_check order positions now y))"
        "r = fst (rule_check order positions now x)"
        "rs = map (\<lambda>x. snd (rule_check order positions now x)) (pre @ [x]) @ post" by blast
      then show "\<exists>pre x post. rule # rules = pre @ x # post
          \<and> (\<forall>y\<in>set pre. passed (fst (rule_check order positions now y)))
          \<and> r = fst (rule_check order positions now x)
          \<and> rules' = map (\<lambda>x. snd (rule_check order positions now x)) (pre @ [x]) @ post"
        using c True rs by (intro exI [of _ "rule # pre"] exI [of _ x] exI [of _ post]) simp
    qed
  qed
qed auto

text \<open>
  C21: an order passes exactly if every enabled rule passes it.  Otherwise the answer is that
  of the first rule, in the manager's order, that rejects it; the rules up to and including
  that one have taken note of the order, the later ones have not seen it.
\<close>

theorem check_order_first_rejection:
  assumes "check_order order positions now rm = (r, rm')"
  shows "(passed r \<longleftrightarrow> (\<forall>rule\<in>set (rm_rules rm). rule_enabled rule \<longrightarrow>
      passed (fst (rule_check order positions now rule))))
    \<and> (if passed r then rm_rules rm' = map (\<lambda>x. snd (rule_check order positions now x)) (rm_rules rm)
       else \<exists>pre rule post. rm_rules rm = pre @ rule # post \<and> rule_enabled rule
         \<and> (\<forall>x\<in>set pre. passed (fst (rule_check order positions now x)))
         \<and> r = fst (rule_check order positions now rule)
         \<and> rm_rules rm' = map (\<lambda>x. snd (rule_check order positions now x)) (pre @ [rule]) @ post)"
proof -
  obtain rules' where run: "run_rules order positions now risk_pass (rm_rules rm) = (r, rules')"
    and rm': "rm_rules rm' = rules'"
    using assms by (auto simp: check_order_def split: prod.splits)
  note s = run_rules_spec [OF run passed_simps(1)]
  have d: "passed (fst (rule_check order positions now rule)) \<longleftrightarrow>
      (rule_enabled rule \<longrightarrow> passed (fst (rule_check order positions now rule)))" for rule
    by (cases "rule_enabled rule") simp_all
  show ?thesis
  proof (cases "passed r")
    case True
    with s(1,3) rm' show ?thesis by simp
  next
    case False
    from s(2) [OF False] obtain pre rule post where p: "rm_rules rm = pre @ rule # post"
      "\<forall>x\<in>set pre. passed (fst (rule_check order positions now x))"
      "r = fst (rule_check order positions now rule)"
      "rules' = map (\<lambda>x. snd (rule_check order positions now x)) (pre @ [rule]) @ post" by blast
    have "rule_enabled rule" using p(3) False by (cases "rule_enabled rule") auto
    with p False s(1) rm' d show ?thesis by auto
  qed
qed

definition order_buy :: "Volume \<Rightarrow> DPrice \<Rightarrow> OrderRequest" where
  "order_buy vol px = OrderRequest_default\<lparr>internal_order_id := 7, order_type := New,
     trade_side := Buy, volume_entrust := vol, dprice_entrust := px,
     internal_security_id := ''XSHE_000001''\<rparr>"

definition config_example :: RiskConfig where
  "config_example = \<lparr>max_order_value = 0, max_order_volume = 100, max_daily_turnover = 0,
     max_orders_per_second = 0, enable_price_limit_check = True, enable_duplicate_check = True,
     enable_fund_check = True, enable_position_check = True, duplicate_window_ns = 100000000\<rparr>"

lemma check_order_first_rejection_witness:
  "\<not> passed (fst (check_order (order_buy 200 1) (pm_example 1000) 5 (RiskManager_new config_example)))
   \<and> (\<exists>rule\<in>set (rm_rules (RiskManager_new config_example)). rule_enabled rule
       \<and> \<not> passed (fst (rule_check (order_buy 200 1) (pm_example 1000) 5 rule)))"
proof -
  let ?r = "check_order (order_buy 200 1) (pm_example 1000) 5 (RiskManager_new config_example)"
  have "\<not> passed (fst ?r)" by code_simp
  with check_order_first_rejection [OF prod.collapse [of ?r, symmetric]] show ?thesis by blast
qed

section \<open>Funds that a passed order may freeze\<close>

lemma unat_u64_product: "unat (ucast v * ucast p :: u128) = unat (v :: u64) * unat (p :: u64)"
proof -
  have "unat v * unat p \<le> (2 ^ 64 - 1) * (2 ^ 64 - 1)"
    using unat_lt_2_64 [of v] unat_lt_2_64 [of p] by (intro mult_le_mono) simp_all
  then have "unat v * unat p < 2 ^ 128" by simp
  then show ?thesis by (simp add: unat_word_ariths)
qed

text \<open>The fee a buy order is checked with: at least one cent if the order costs anything.\<close>

definition checked_fee :: "OrderRequest \<Rightarrow> DValue" where
  "checked_fee order = (if dfee_estimate order = 0 \<and> volume_entrust order \<noteq> 0 \<and> dprice_entrust order \<noteq> 0
     then 1 else dfee_estimate order)"

lemma fund_check_iff:
  assumes "is_new_order order" "trade_side order = Buy"
  shows "passed (fund_check order positions) \<longleftrightarrow>
    unat (volume_entrust order) * unat (dprice_entrust order) + unat (checked_fee order)
      \<le> unat (get_available_fund positions)"
proof -
  let ?v = "ucast (volume_entrust order) * ucast (dprice_entrust order) :: u128"
  have pos: "0 < ?v \<longleftrightarrow> volume_entrust order \<noteq> 0 \<and> dprice_entrust order \<noteq> 0"
    unfolding word_less_nat_alt unat_u64_product by (simp add: unat_gt_0)
  have le: "unat (volume_entrust order) * unat (dprice_entrust order) \<le> (2 ^ 64 - 1) * (2 ^ 64 - 1)"
    using unat_lt_2_64 [of "volume_entrust order"] unat_lt_2_64 [of "dprice_entrust order"]
    by (intro mult_le_mono) simp_all
  have sum: "unat (?v + ucast f) = unat ?v + unat f" for f :: u64
  proof -
    have "unat ?v + unat f < 2 ^ 128"
      using le unat_lt_2_64 [of f] unfolding unat_u64_product by simp
    then show ?thesis by (simp add: unat_word_ariths)
  qed
  have fee: "(if dfee_estimate order = 0 \<and> 0 < ?v then 1 else dfee_estimate order) = checked_fee order"
    by (simp add: pos checked_fee_def)
  show ?thesis
    using assms unfolding fund_check_def Let_def fee
    by (simp add: word_less_nat_alt sum unat_u64_product not_less)
qed

text \<open>
  Funds checked are funds that can be frozen.  If the manager holds an enabled fund rule
  and passes a new buy order, then price times volume plus the fee, computed exactly, is
  covered by the available fund, and freezing that very amount afterwards succeeds (the frozen
  total permitting), leaving the rest available.
\<close>

theorem risk_pass_covers_freeze:
  assumes "check_order order positions now rm = (r, rm')" and "passed r"
    and "\<exists>rule\<in>set (rm_rules rm). rule_enabled rule \<and> rule_kind rule = FundCheck"
    and "is_new_order order" and "trade_side order = Buy"
    and "fund_ledger positions = (T, A, F, M)" and "pm_shm positions \<noteq> None"
    and "cost = unat (volume_entrust order) * unat (dprice_entrust order) + unat (checked_fee order)"
    and "fits (F + cost)"
  shows "cost \<le> A \<and> (\<exists>positions'. freeze_fund (of_nat cost) now2 positions = (True, positions')
    \<and> fund_ledger positions' = (T, A - cost, F + cost, M))"
proof -
  obtain rule where rule: "rule \<in> set (rm_rules rm)" "rule_enabled rule" "rule_kind rule = FundCheck"
    using assms(3) by blast
  obtain rules' where run: "run_rules order positions now risk_pass (rm_rules rm) = (r, rules')"
    using assms(1) by (auto simp: check_order_def split: prod.splits)
  have "passed (fst (rule_check order positions now rule))"
    using run_rules_spec(1) [OF run passed_simps(1)] assms(2) rule(1) by blast
  then have "passed (fund_check order positions)" using rule by (simp add: rule_check_def)
  moreover obtain shm where shm: "pm_shm positions = Some shm" using assms(7) by blast
  have "unat (get_available_fund positions) = A"
    using assms(6) shm by (simp add: fund_ledger_Some Let_def get_available_fund_def kFundPositionIndex_def)
  ultimately have le: "cost \<le> A" using fund_check_iff [OF assms(4,5)] assms(8) by simp
  have c: "unat (of_nat cost :: u64) = cost"
    using assms(9) by (simp add: fits_def unsigned_of_nat take_bit_nat_eq_self)
  have "ledger_op (FreezeFund (of_nat cost)) (T, A, F, M) = Some (T, A - cost, F + cost, M)"
    using le assms(9) by (simp add: c)
  then show ?thesis
    using le ledger_op_sound [OF shm, of "FreezeFund (of_nat cost)" now2] assms(6)
    by (auto intro!: exI [of _ "snd (freeze_fund (of_nat cost) now2 positions)"] simp: prod_eq_iff)
qed

lemma risk_pass_covers_freeze_witness:
  "\<exists>positions'. freeze_fund (of_nat 101) 6 (pm_example 1000) = (True, positions')
     \<and> fund_ledger positions' = (1000, 899, 101, 0)"
proof -
  let ?r = "check_order (order_buy 50 2) (pm_example 1000) 5 (RiskManager_new config_example)"
  have p: "passed (fst ?r)" by code_simp
  have f: "\<exists>rule\<in>set (rm_rules (RiskManager_new config_example)). rule_enabled rule \<and> rule_kind rule = FundCheck"
    by (simp add: RiskManager_new_def initialize_default_rules_def config_example_def add_rule_def Let_def)
  have o: "is_new_order (order_buy 50 2)" "trade_side (order_buy 50 2) = Buy"
    by (simp_all add: is_new_order_def order_buy_def)
  have l: "fund_ledger (pm_example 1000) = (1000, 1000, 0, 0)" by code_simp
  have s: "pm_shm (pm_example 1000) \<noteq> None" by (simp add: pm_example_def)
  have c: "101 = unat (volume_entrust (order_buy 50 2)) * unat (dprice_entrust (order_buy 50 2))
      + unat (checked_fee (order_buy 50 2))"
    by (simp add: order_buy_def checked_fee_def OrderRequest_default_def)
  show ?thesis
    using risk_pass_covers_freeze [OF prod.collapse [of ?r, symmetric] p f o l s c, of 6]
    by (simp add: fits_def)
qed

section \<open>Statistics\<close>

definition stats_ok :: "RiskState \<Rightarrow> bool" where
  "stats_ok s \<longleftrightarrow> total_checks s = rs_passed s + rejected s
     \<and> rejected s = rejected_fund s + rejected_position s + rejected_price s + rejected_value s
         + rejected_volume s + rejected_duplicate s + rejected_rate_limit s"

lemma update_stats_ok: "stats_ok s \<Longrightarrow> stats_ok (update_stats r now s)"
  by (cases "rc_code r") (auto simp: stats_ok_def update_stats_def Let_def passed_def)

lemma update_stats_counts:
  "total_checks (update_stats r now s) = total_checks s + 1"
  "rs_passed (update_stats r now s) = rs_passed s + (if passed r then 1 else 0)"
  by (cases "rc_code r"; simp add: update_stats_def Let_def passed_def)+

text \<open>
  The statistics add up.  After any batch of checks, every check is counted once as passed
  or rejected and every rejection once under its reason (all modulo \<open>2 ^ 64\<close>, as the
  counters are); the counters have moved by the number of checks and of passed results in the
  batch; there is one result for each order.
\<close>

theorem risk_statistics_add_up:
  assumes "stats_ok (rm_stats rm)" and "check_orders orders positions rm = (results, rm')"
  shows "stats_ok (rm_stats rm') \<and> length results = length orders
    \<and> total_checks (rm_stats rm') = total_checks (rm_stats rm) + of_nat (length orders)
    \<and> rs_passed (rm_stats rm') = rs_passed (rm_stats rm) + of_nat (length (filter passed results))"
  using assms
proof (induction orders positions rm arbitrary: results rule: check_orders.induct)
  case (2 order now orders positions rm)
  obtain r rm1 where c: "check_order order positions now rm = (r, rm1)"
    by (cases "check_order order positions now rm")
  obtain rs where cs: "check_orders orders positions rm1 = (rs, rm')" and results: "results = r # rs"
    using "2.prems"(2) c by (auto split: prod.splits)
  have s: "rm_stats rm1 = update_stats r now (rm_stats rm)"
    using c by (auto simp: check_order_def split: prod.splits)
  have "stats_ok (rm_stats rm1)" using "2.prems"(1) by (simp add: s update_stats_ok)
  from "2.IH" [OF c [symmetric] refl this cs] show ?case
    by (auto simp: results s update_stats_counts)
qed simp

lemma risk_statistics_add_up_witness:
  "length (fst (check_orders [(order_buy 50 2, 5), (order_buy 200 2, 6)] (pm_example 1000)
      (RiskManager_new config_example))) = 2"
proof -
  let ?r = "check_orders [(order_buy 50 2, 5), (order_buy 200 2, 6)] (pm_example 1000)
      (RiskManager_new config_example)"
  have "stats_ok (rm_stats (RiskManager_new config_example))" by code_simp
  from risk_statistics_add_up [OF this prod.collapse [of ?r, symmetric]] show ?thesis by simp
qed

section \<open>The rate limit\<close>

fun rate_run :: "u32 \<Rightarrow> u32 \<Rightarrow> TimestampNs \<Rightarrow> (OrderRequest \<times> TimestampNs) list \<Rightarrow> risk_check_result list" where
  "rate_run m cur start [] = []"
| "rate_run m cur start ((order, now) # os) =
     (let (r, cur, start) = rate_limit_check m cur start order now in r # rate_run m cur start os)"

lemma rate_run_window:
  assumes "\<forall>(order, now)\<in>set os. is_new_order order \<and> start \<le> now \<and> now - start < kSecondNs"
    and "start \<noteq> 0" "m \<noteq> 0" "unat cur + length os < 2 ^ 32"
  shows "length (filter passed (rate_run m cur start os)) = min (length os) (unat m - unat cur)"
  using assms(1,4)
proof (induction os arbitrary: cur)
  case (Cons o' os)
  obtain order now where o': "o' = (order, now)" by (cases o')
  have w: "is_new_order order" "start \<le> now" "now - start < kSecondNs"
    using Cons.prems(1) by (auto simp: o')
  have c: "unat (cur + 1) = unat cur + 1"
    using Cons.prems(2) by (simp add: unat_word_ariths)
  have r: "rate_limit_check m cur start order now =
      (if unat cur + 1 > unat m then risk_reject RejectUnknown ''order rate exceeds limit'' else risk_pass,
       cur + 1, start)"
  proof -
    have "\<not> (start = 0 \<or> now < start \<or> now - start \<ge> kSecondNs)" using w assms(2) by auto
    moreover have "m < cur + 1 \<longleftrightarrow> unat m < unat cur + 1" by (simp add: word_less_nat_alt c)
    ultimately show ?thesis using w(1) assms(3) by (simp add: rate_limit_check_def)
  qed
  have IH: "length (filter passed (rate_run m (cur + 1) start os)) = min (length os) (unat m - unat (cur + 1))"
    using Cons by (intro Cons.IH) (auto simp: c)
  show ?case using IH by (auto simp: o' r c min_def)
qed simp

text \<open>
  The rate limit bounds each window.  Of a burst of new orders that arrive within one
  second of the first, on a fresh rule with limit \<open>m\<close>, exactly the first \<open>m\<close> pass (all, if there
  are fewer); whatever the rule counted before the window started does not matter.
\<close>

theorem rate_limit_bounds_window:
  assumes "is_new_order order" and "t0 \<noteq> 0" and "m \<noteq> 0"
    and "start = 0 \<or> t0 < start \<or> t0 - start \<ge> kSecondNs"
    and "\<forall>(o', now)\<in>set os. is_new_order o' \<and> t0 \<le> now \<and> now - t0 < kSecondNs"
    and "length os < 2 ^ 32 - 1"
  shows "length (filter passed (rate_run m cur start ((order, t0) # os))) = min (Suc (length os)) (unat m)"
proof -
  have "1 \<le> unat m" using assms(3) unat_gt_0 [of m] by linarith
  then have r: "rate_limit_check m cur start order t0 = (risk_pass, 1, t0)"
    using assms(1,3,4) by (auto simp: rate_limit_check_def Let_def word_less_nat_alt not_less)
  have "length (filter passed (rate_run m 1 t0 os)) = min (length os) (unat m - 1)"
    using rate_run_window [OF assms(5) assms(2,3), of 1] assms(6) by simp
  with \<open>1 \<le> unat m\<close> show ?thesis by (simp add: r)
qed

lemma rate_limit_bounds_window_witness:
  "length (filter passed (rate_run 2 9 0 [(order_buy 1 1, 100), (order_buy 1 1, 200), (order_buy 1 1, 300)])) = 2"
proof -
  have n: "is_new_order (order_buy 1 1)" by (simp add: is_new_order_def order_buy_def)
  have "\<forall>(o', now)\<in>set [(order_buy 1 1, 200), (order_buy 1 1, 300)].
      is_new_order o' \<and> (100 :: u64) \<le> now \<and> now - 100 < kSecondNs"
    using n by (simp add: kSecondNs_def)
  from rate_limit_bounds_window [OF n _ _ _ this, of 2 0 9] show ?thesis by simp
qed

section \<open>Reconfiguration\<close>

definition price_limits_of :: "RiskManager \<Rightarrow> (InternalSecurityId \<Rightarrow> (DPrice \<times> DPrice) option) list" where
  "price_limits_of rm = List.map_filter
     (\<lambda>r. case rule_kind r of PriceLimit limits \<Rightarrow> Some limits | _ \<Rightarrow> None) (rm_rules rm)"

text \<open>
  Reconfiguring forgets the price limits.  \<open>update_config\<close> rebuilds the rules from scratch,
  so whatever limits had been set by \<open>update_price_limits\<close>, afterwards no price rule rejects any
  order until limits are set again; the history of the duplicate rule and the count of the rate
  rule are gone in the same way.
\<close>

theorem update_config_forgets_limits:
  "list_all (\<lambda>limits. limits = Map.empty) (price_limits_of (update_config c rm))
   \<and> (\<forall>rule\<in>set (rm_rules (update_config c rm)).
        (case rule_kind rule of
           PriceLimit limits \<Rightarrow> passed (fst (rule_check order positions now rule))
         | DuplicateOrderRule recent window \<Rightarrow> recent = Map.empty
         | RateLimit m cur start \<Rightarrow> cur = 0 \<and> start = 0
         | _ \<Rightarrow> True))"
proof -
  have rules: "rm_rules (update_config c rm) = rm_rules (update_config c rm)
    \<and> (\<forall>rule\<in>set (rm_rules (update_config c rm)). rule_kind rule \<in>
        {FundCheck, PositionCheck, MaxOrderValue (max_order_value c), MaxOrderVolume (max_order_volume c),
         PriceLimit Map.empty, DuplicateOrderRule Map.empty (duplicate_window_ns c),
         RateLimit (max_orders_per_second c) 0 0})"
    by (simp add: update_config_def initialize_default_rules_def add_rule_def Let_def)
  have "passed (price_limit_check Map.empty order)"
    by (simp add: price_limit_check_def split: option.splits)
  with rules show ?thesis
    by (auto simp: price_limits_of_def list_all_iff List.map_filter_def rule_check_def
        split: rule_kind.splits)
qed

lemma update_config_forgets_limits_witness:
  "price_limits_of (update_price_limits ''SZ.000001'' 20 10 (RiskManager_new config_example))
     = [[''XSHE_000001'' \<mapsto> (20, 10)]]
   \<and> list_all (\<lambda>limits. limits = Map.empty) (price_limits_of (update_config config_example
        (update_price_limits ''SZ.000001'' 20 10 (RiskManager_new config_example))))"
proof -
  have n: "normalize_internal_security_id ''SZ.000001'' = Some ''XSHE_000001''" by code_simp
  have "price_limits_of (update_price_limits ''SZ.000001'' 20 10 (RiskManager_new config_example))
     = [[''XSHE_000001'' \<mapsto> (20, 10)]]"
    by (simp add: price_limits_of_def update_price_limits_def RiskManager_new_def update_rule_def
        initialize_default_rules_def config_example_def add_rule_def Let_def set_price_limits_def n
        List.map_filter_def)
  with update_config_forgets_limits show ?thesis by blast
qed

end
