(* ===== verification/Account_Info.thy ===== *)
theory Account_Info
  imports Order_Types
begin

text \<open>
  \<^verbatim>\<open>src/portfolio/account_info.cpp\<close>: the account's permissions and fee rates, and the fee of
  a trade.  The fee is computed in double precision; a double that is finite and not negative
  is the pair of a numerator and the exponent of a power of two below it, and every
  operation rounds to 53 bits, to nearest and ties to even, as IEEE 754 does.  Negative rates
  and magnitudes that overflow or underflow a double are outside the model.
\<close>

section \<open>Double precision\<close>

type_synonym double = "int \<times> nat"

function bit_length :: "int \<Rightarrow> nat" where
  "bit_length m = (if m \<le> 0 then 0 else Suc (bit_length (m div 2)))"
  by auto
termination by (relation "measure nat") auto

declare bit_length.simps [simp del]

lemma bit_length_bounds:
  "0 < m \<Longrightarrow> 2 ^ (bit_length m - 1) \<le> m \<and> m < 2 ^ bit_length m \<and> 0 < bit_length m"
proof (induction m rule: bit_length.induct)
  case (1 m)
  show ?case
  proof (cases "m div 2 > 0")
    case True
    with 1 have IH: "2 ^ (bit_length (m div 2) - 1) \<le> m div 2" "m div 2 < 2 ^ bit_length (m div 2)"
      "0 < bit_length (m div 2)" by auto
    define p :: int where "p = 2 ^ (bit_length (m div 2) - 1)"
    have d: "(2 :: int) ^ bit_length (m div 2) = 2 * p"
      using IH(3) by (simp add: p_def power_Suc [symmetric] del: power_Suc)
    have "2 * p \<le> m" "m < 4 * p" using IH(1,2) unfolding d p_def [symmetric] by presburger+
    moreover have "bit_length m = Suc (bit_length (m div 2))" using "1.prems" by (simp add: bit_length.simps)
    ultimately show ?thesis by (simp add: d)
  next
    case False
    with "1.prems" have "m = 1" by auto
    then show ?thesis by (simp add: bit_length.simps)
  qed
qed

definition round53 :: "double \<Rightarrow> double" where
  "round53 = (\<lambda>(m, k).
     (let s = bit_length m - 53
      in if s = 0 then (m, k)
         else let q = m div 2 ^ s; r = m mod 2 ^ s; half = 2 ^ (s - 1);
                  q = (if r > half \<or> r = half \<and> odd q then q + 1 else q)
              in if s \<le> k then (q, k - s) else (q * 2 ^ (s - k), 0)))"

definition double_of_u64 :: "u64 \<Rightarrow> double" where
  "double_of_u64 v = round53 (uint v, 0)"

definition double_mult :: "double \<Rightarrow> double \<Rightarrow> double" where
  "double_mult = (\<lambda>(m, k) (m', k'). round53 (m * m', k + k'))"

definition double_add_half :: "double \<Rightarrow> double" where
  "double_add_half = (\<lambda>(m, k). round53 (2 * m + 2 ^ k, k + 1))"

text \<open>The conversion back truncates; a value of \<open>2 ^ 64\<close> or more has no defined result in C++.\<close>

definition u64_of_double :: "double \<Rightarrow> u64" where
  "u64_of_double = (\<lambda>(m, k). of_int (m div 2 ^ k))"

section \<open>The account\<close>

datatype AccountType = Stock | Futures | Option

datatype AccountState = Initializing | Ready | Trading | Suspended | Closed

record account_info =
  ai_account_id :: u32
  ai_account_type :: AccountType
  ai_state :: AccountState
  ai_account_name :: string
  ai_broker_account :: string
  ai_broker_code :: string
  ai_can_buy :: bool
  ai_can_sell :: bool
  ai_can_short :: bool
  ai_can_margin :: bool
  commission_rate :: double
  stamp_tax_rate :: double
  transfer_fee_rate :: double
  min_commission :: DValue
  ai_max_single_order :: DValue
  ai_max_daily_amount :: DValue

definition account_info_default :: account_info where
  "account_info_default = \<lparr>ai_account_id = 0, ai_account_type = Stock, ai_state = Initializing,
     ai_account_name = [], ai_broker_account = [], ai_broker_code = [], ai_can_buy = True,
     ai_can_sell = True, ai_can_short = False, ai_can_margin = False,
     commission_rate = (5534023222112865, 64), stamp_tax_rate = (1152921504606847, 60),
     transfer_fee_rate = (5902958103587057, 68), min_commission = 500, ai_max_single_order = 0,
     ai_max_daily_amount = 0\<rparr>"

text \<open>One summand of a fee: \<open>static_cast<DValue>(traded * rate + 0.5)\<close>.\<close>

definition fee_part :: "double \<Rightarrow> DValue \<Rightarrow> DValue" where
  "fee_part rate traded_value =
     u64_of_double (double_add_half (double_mult (double_of_u64 traded_value) rate))"

definition calculate_fee :: "account_info \<Rightarrow> TradeSide \<Rightarrow> DValue \<Rightarrow> DValue" where
  "calculate_fee info side traded_value =
     (let commission = fee_part (commission_rate info) traded_value;
          commission = (if commission < min_commission info then min_commission info else commission);
          transfer_fee = fee_part (transfer_fee_rate info) traded_value;
          stamp_tax = (if side = Sell then fee_part (stamp_tax_rate info) traded_value else 0)
      in commission + transfer_fee + stamp_tax)"

definition can_trade :: "account_info \<Rightarrow> TradeSide \<Rightarrow> bool" where
  "can_trade info side = (case side of Buy \<Rightarrow> ai_can_buy info | Sell \<Rightarrow> ai_can_sell info | _ \<Rightarrow> False)"

definition set_state :: "AccountState \<Rightarrow> account_info \<Rightarrow> account_info" where
  "set_state st info = info\<lparr>ai_state := st\<rparr>"

definition account_load_from_db :: "u32 \<Rightarrow> account_info \<Rightarrow> account_info" where
  "account_load_from_db account_id info = info\<lparr>ai_account_id := account_id, ai_state := Ready\<rparr>"

end
