(* ===== verification/Event_Loop.thy ===== *)
theory Event_Loop
  imports Execution Risk Account_Info
begin

text \<open>
  \<^verbatim>\<open>src/core/event_loop.cpp\<close>: the loop that ties the service together.  It takes order
  indices from the upstream queue, runs each order through the risk rules, the fund
  reservation and the router (or hands it to the execution engine), and takes trade responses
  from the trade queue into the order book, the positions and the archive.  Null pointers are
  \<open>None\<close>.  A pointer \<open>OrderEntry*\<close> into the book is the order's id: no order leaves the
  book while the code holds one.  The clocks are arguments; all calls of \<open>now_ns()\<close> in one
  handler share one value.  Signals, the thread's affinity, sleeping, printing and the event
  recorder are left out.
\<close>

section \<open>State\<close>

record EventLoopConfig =
  busy_polling :: bool
  poll_batch_size :: u32
  idle_sleep_us :: u32
  stats_interval_ms :: u32
  archive_terminal_orders :: bool
  terminal_archive_delay_ms :: u32

record event_loop_stats =
  total_iterations :: u64
  orders_processed :: u64
  responses_processed :: u64
  idle_iterations :: u64
  st_start_time :: TimestampNs
  st_last_order_time :: TimestampNs
  st_last_response_time :: TimestampNs
  min_latency_ns :: u64
  max_latency_ns :: u64
  total_latency_ns :: u64
  latency_samples :: u64

definition event_loop_stats_zero :: event_loop_stats where
  "event_loop_stats_zero = \<lparr>total_iterations = 0, orders_processed = 0, responses_processed = 0,
     idle_iterations = 0, st_start_time = 0, st_last_order_time = 0, st_last_response_time = 0,
     min_latency_ns = - 1, max_latency_ns = 0, total_latency_ns = 0, latency_samples = 0\<rparr>"

record EventLoop =
  el_config :: EventLoopConfig
  el_world :: world
  el_trades :: "TradeResponse spsc_queue option"
  el_positions :: PositionManager
  el_risk :: RiskManager
  el_account :: "account_info option"
  el_engine :: "ExecutionEngine option"
  el_running :: bool
  el_stats :: event_loop_stats
  el_pending :: "InternalOrderId \<Rightarrow> TimestampNs option"
  el_last_stats_time :: TimestampNs

text \<open>Operations on the parts of the state.\<close>

definition in_world :: "(world \<Rightarrow> world) \<Rightarrow> EventLoop \<Rightarrow> EventLoop" where
  "in_world f s = s\<lparr>el_world := f (el_world s)\<rparr>"

definition in_positions :: "(PositionManager \<Rightarrow> bool \<times> PositionManager) \<Rightarrow> EventLoop \<Rightarrow> bool \<times> EventLoop" where
  "in_positions f s = (let (ok, pm) = f (el_positions s) in (ok, s\<lparr>el_positions := pm\<rparr>))"

definition the_entry :: "InternalOrderId \<Rightarrow> EventLoop \<Rightarrow> OrderEntry option" where
  "the_entry i s = find_order i (w_book (el_world s))"

text \<open>A write through a pointer into the book: no callback happens.\<close>

definition write_entry :: "InternalOrderId \<Rightarrow> (OrderEntry \<Rightarrow> OrderEntry) \<Rightarrow> EventLoop \<Rightarrow> EventLoop" where
  "write_entry i f = in_world (\<lambda>w. w\<lparr>w_book := modify_order i f (w_book w)\<rparr>)"

abbreviation set_order_state :: "InternalOrderId \<Rightarrow> OrderState \<Rightarrow> TimestampNs \<Rightarrow> EventLoop \<Rightarrow> EventLoop" where
  "set_order_state i st now \<equiv> in_world (\<lambda>w. snd (on_book (update_state i st now) now w))"

abbreviation set_stage :: "OrderIndex \<Rightarrow> OrderSlotState \<Rightarrow> TimestampNs \<Rightarrow> EventLoop \<Rightarrow> EventLoop" where
  "set_stage index st now \<equiv> in_world (\<lambda>w. snd (on_pool (orders_shm_update_stage index st now) w))"

abbreviation report :: "ErrorDomain \<Rightarrow> ErrorCode \<Rightarrow> TimestampNs \<Rightarrow> EventLoop \<Rightarrow> EventLoop" where
  "report domain code now \<equiv> in_world (raise_error domain code now)"

section \<open>Funds of an order\<close>

definition try_calculate_trade_value :: "Volume \<Rightarrow> DPrice \<Rightarrow> DValue option" where
  "try_calculate_trade_value volume price =
     (let value = (ucast volume * ucast price :: u128)
      in if value > ucast (- 1 :: u64) then None else Some (ucast value))"

definition try_total_with_fee :: "DValue \<Rightarrow> DValue \<Rightarrow> DValue option" where
  "try_total_with_fee amount fee =
     (let total_value = (ucast amount + ucast fee :: u128)
      in if total_value > ucast (- 1 :: u64) then None else Some (ucast total_value))"

definition prepare_order_estimate :: "account_info option \<Rightarrow> OrderRequest \<Rightarrow> OrderRequest" where
  "prepare_order_estimate account req =
     (if order_type req \<noteq> New \<or> dfee_estimate req \<noteq> 0 then req
      else case try_calculate_trade_value (volume_entrust req) (dprice_entrust req) of
        None \<Rightarrow> req
      | Some order_value \<Rightarrow>
          if order_value = 0 then req
          else let fee_model = (case account of None \<Rightarrow> account_info_default | Some a \<Rightarrow> a)
               in req\<lparr>dfee_estimate := calculate_fee fee_model (trade_side req) order_value\<rparr>)"

definition reserve_order_resources :: "InternalOrderId \<Rightarrow> TimestampNs \<Rightarrow> EventLoop \<Rightarrow> bool \<times> EventLoop" where
  "reserve_order_resources i now s =
     (case the_entry i s of
        None \<Rightarrow> (False, s)
      | Some entry \<Rightarrow>
          let r = request entry
          in if order_type r \<noteq> New \<or> trade_side r \<noteq> Buy then (True, s)
          else case try_calculate_trade_value (volume_entrust r) (dprice_entrust r) of
            None \<Rightarrow> (False, s)
          | Some order_value \<Rightarrow>
              (case try_total_with_fee order_value (dfee_estimate r) of
                 None \<Rightarrow> (False, s)
               | Some total_value \<Rightarrow>
                   let (ok, s) = in_positions (freeze_fund total_value now) s
                   in if \<not> ok then (False, s)
                      else (True, write_entry i (\<lambda>e. e\<lparr>fund_frozen := total_value\<rparr>) s)))"

definition release_order_resources :: "InternalOrderId \<Rightarrow> TimestampNs \<Rightarrow> EventLoop \<Rightarrow> EventLoop" where
  "release_order_resources i now s =
     (case the_entry i s of
        None \<Rightarrow> s
      | Some entry \<Rightarrow>
          let r = request entry
          in if order_type r \<noteq> New \<or> trade_side r \<noteq> Buy \<or> fund_frozen entry = 0 then s
          else let (ok, s) = in_positions (unfreeze_fund (fund_frozen entry) now) s
          in if \<not> ok then s else write_entry i (\<lambda>e. e\<lparr>fund_frozen := 0\<rparr>) s)"

definition settle_buy_trade_fund ::
    "InternalOrderId \<Rightarrow> DValue \<Rightarrow> DValue \<Rightarrow> TimestampNs \<Rightarrow> EventLoop \<Rightarrow> bool \<times> EventLoop" where
  "settle_buy_trade_fund i amount fee now s =
     (case the_entry i s of
        None \<Rightarrow> (False, s)
      | Some entry \<Rightarrow>
          if fund_frozen entry = 0 then in_positions (apply_buy_trade_fund amount fee now) s
          else case try_total_with_fee amount fee of
            None \<Rightarrow> (False, s)
          | Some total_value \<Rightarrow>
              let (ok, s) = in_positions (deduct_fund amount fee now) s
              in if \<not> ok then (False, s)
                 else (True, write_entry i (\<lambda>e. e\<lparr>fund_frozen :=
                        (if fund_frozen e \<ge> total_value then fund_frozen e - total_value else 0)\<rparr>) s))"

section \<open>An order from upstream\<close>

text \<open>The part of the handler after the order is in the book and has passed the risk rules.\<close>

definition start_managed_order ::
    "OrderIndex \<Rightarrow> InternalOrderId \<Rightarrow> TimestampNs \<Rightarrow> ExecutionEngine \<Rightarrow> EventLoop \<Rightarrow> EventLoop" where
  "start_managed_order index i now engine s =
     (let s = write_entry i (\<lambda>e. e\<lparr>request := (request e)\<lparr>active_strategy_claimed :=
                 (if has_active_strategy engine then 1 else 0)\<rparr>\<rparr>) s;
          s = set_order_state i TraderPending now s
      in case the_entry i s of
           None \<Rightarrow> s
         | Some active \<Rightarrow>
             let (result, engine, w) = start_session index (request active) (strategy_id active)
                                         (submit_time_ns active) now engine (el_world s);
                 s = s\<lparr>el_engine := Some engine, el_world := w\<rparr>
             in if result = Started then s
                else let rejected = (result = Unsupported \<or> result = MarketDataUnavailable
                                     \<or> result = Unsplittable);
                         s = set_order_state i (if rejected then TraderRejected else TraderError) now s;
                         s = set_stage index QueuePushFailed now s
                     in report D_order (if rejected then InvalidParam else SplitFailed) now s)"

definition route_accepted_order :: "OrderIndex \<Rightarrow> InternalOrderId \<Rightarrow> TimestampNs \<Rightarrow> EventLoop \<Rightarrow> EventLoop" where
  "route_accepted_order index i now s =
     (let (ok, s) = reserve_order_resources i now s
      in if \<not> ok
         then set_stage index RiskRejected now (set_order_state i RiskControllerRejected now s)
         else case the_entry i s of
           None \<Rightarrow> s
         | Some active \<Rightarrow>
             let (sent, w) = route_order active now (el_world s);
                 s = s\<lparr>el_world := w\<rparr>
             in if sent then s
                else let s = release_order_resources i now s;
                         s = set_order_state i TraderError now s;
                         s = set_stage index QueuePushFailed now s
                     in report D_order RouteFailed now s)"

definition risk_stage :: "OrderIndex \<Rightarrow> OrderRequest \<Rightarrow> TimestampNs \<Rightarrow> EventLoop \<Rightarrow> bool \<times> EventLoop" where
  "risk_stage index req now s =
     (let i = internal_order_id req
      in if order_type req = New
         then let (result, risk) = check_order req (el_positions s) now (el_risk s);
                  s = s\<lparr>el_risk := risk\<rparr>;
                  s = write_entry i (\<lambda>e. e\<lparr>risk_result := rc_code result\<rparr>) s
              in if \<not> passed result
                 then (False, set_stage index RiskRejected now
                                (set_order_state i RiskControllerRejected now s))
                 else (True, set_order_state i RiskControllerAccepted now s)
         else (True, set_order_state i RiskControllerAccepted now s))"

definition entry_for :: "OrderIndex \<Rightarrow> OrderRequest \<Rightarrow> TimestampNs \<Rightarrow> OrderEntry" where
  "entry_for index req now = OrderEntry_default\<lparr>request := req, submit_time_ns := now,
     last_update_ns := now, strategy_id := 0, risk_result := Pass, retry_count := 0,
     is_split_child := False, parent_order_id := 0, shm_order_index := index\<rparr>"

definition admit_order :: "OrderIndex \<Rightarrow> OrderRequest \<Rightarrow> TimestampNs \<Rightarrow> EventLoop \<Rightarrow> EventLoop" where
  "admit_order index req now s =
     (let i = internal_order_id req;
          (added, w) = on_book (add_order (entry_for index req now) now) now (el_world s);
          s = s\<lparr>el_world := w\<rparr>
      in if \<not> added then report D_order OrderBookFull now (set_stage index QueuePushFailed now s)
      else let s = set_order_state i RiskControllerPending now s;
               (accepted, s) = risk_stage index req now s
      in if \<not> accepted then s
      else case the_entry i s of
        None \<Rightarrow> s
      | Some active \<Rightarrow>
          (case el_engine s of
             Some engine \<Rightarrow>
               if should_manage engine (request active)
               then start_managed_order index i now engine s
               else route_accepted_order index i now s
           | None \<Rightarrow> route_accepted_order index i now s))"

text \<open>The security key of a new order that comes without one; \<open>None\<close> if it cannot be built.\<close>

definition complete_security_id :: "OrderRequest \<Rightarrow> OrderRequest option" where
  "complete_security_id req =
     (if order_type req = New \<and> internal_security_id req = [] \<and> security_id req \<noteq> []
      then map_option (\<lambda>sid. req\<lparr>internal_security_id := sid\<rparr>)
             (build_internal_security_id (market req) (security_id req))
      else Some req)"

definition handle_order_request :: "OrderIndex \<Rightarrow> OrderRequest \<Rightarrow> TimestampNs \<Rightarrow> EventLoop \<Rightarrow> EventLoop" where
  "handle_order_request index req now s =
     (case complete_security_id req of
        None \<Rightarrow>
          let req = req\<lparr>order_state := TraderError\<rparr>;
              s = in_world (\<lambda>w. snd (on_pool (orders_shm_sync_order index req now) w)) s;
              s = set_stage index QueuePushFailed now s
          in report D_order InvalidParam now s
      | Some req \<Rightarrow>
          let (req, s) =
                (if internal_order_id req = 0
                 then let (i, w) = allocate_internal_order_id (el_world s);
                          req = req\<lparr>internal_order_id := i\<rparr>;
                          s = s\<lparr>el_world := snd (on_pool (orders_shm_sync_order index req now) w)\<rparr>
                      in (req, s)
                 else (req, s));
              req = prepare_order_estimate (el_account s) req
          in admit_order index req now s)"

section \<open>A trade response\<close>

abbreviation report_unless :: "bool \<Rightarrow> ErrorCode \<Rightarrow> TimestampNs \<Rightarrow> EventLoop \<Rightarrow> EventLoop" where
  "report_unless ok code now s \<equiv> (if ok then s else report D_portfolio code now s)"

definition settle_trade_fund :: "InternalOrderId \<Rightarrow> TradeResponse \<Rightarrow> TimestampNs \<Rightarrow> EventLoop \<Rightarrow> EventLoop" where
  "settle_trade_fund i response now s =
     (if tr_trade_side response = Buy
      then let (ok, s) = settle_buy_trade_fund i (tr_dvalue_traded response) (tr_dfee response) now s
           in report_unless ok PositionUpdateFailed now s
      else if tr_trade_side response = Sell
      then let (ok, s) = in_positions (apply_sell_trade_fund (tr_dvalue_traded response) (tr_dfee response) now) s
           in report_unless ok PositionUpdateFailed now s
      else s)"

definition create_missing_row :: "InternalSecurityId \<Rightarrow> OrderRequest \<Rightarrow> TimestampNs \<Rightarrow> EventLoop \<Rightarrow> EventLoop" where
  "create_missing_row sid r now s =
     (if get_position sid (el_positions s) = None \<and> security_id r \<noteq> []
      then let position_name = (if internal_security_id r \<noteq> [] then internal_security_id r else sid);
               (added, pm) = add_security (security_id r) position_name (market r) now (el_positions s);
               s = s\<lparr>el_positions := pm\<rparr>
           in if added = [] then report D_portfolio PositionUpdateFailed now s
              else if added \<noteq> sid then report D_portfolio OrderInvariantBroken now s
              else s
      else s)"

definition settle_trade_position :: "InternalSecurityId \<Rightarrow> TradeResponse \<Rightarrow> TimestampNs \<Rightarrow> EventLoop \<Rightarrow> EventLoop" where
  "settle_trade_position sid response now s =
     (if tr_trade_side response = Buy
      then let (ok, s) = in_positions (add_position sid (tr_volume_traded response) (tr_dprice_traded response) now) s
           in report_unless ok PositionUpdateFailed now s
      else if tr_trade_side response = Sell
      then let (ok, s) = in_positions (deduct_position sid (tr_volume_traded response) (tr_dvalue_traded response) now) s
           in report_unless ok PositionUpdateFailed now s
      else s)"

definition apply_trade :: "TradeResponse \<Rightarrow> TimestampNs \<Rightarrow> EventLoop \<Rightarrow> EventLoop" where
  "apply_trade response now s =
     (let i = tr_internal_order_id response;
          s = in_world (\<lambda>w. snd (on_book (update_trade i (tr_volume_traded response)
                (tr_dprice_traded response) (tr_dvalue_traded response) (tr_dfee response) now) now w)) s
      in case the_entry i s of
           None \<Rightarrow> s
         | Some order \<Rightarrow>
             if order_type (request order) \<noteq> New then s
             else let s = settle_trade_fund i response now s;
                      sid = (if tr_internal_security_id response = []
                             then internal_security_id (request order)
                             else tr_internal_security_id response)
                  in if sid = [] then s
                     else settle_trade_position sid response now (create_missing_row sid (request order) now s))"

definition release_after_response :: "InternalOrderId \<Rightarrow> TimestampNs \<Rightarrow> EventLoop \<Rightarrow> EventLoop" where
  "release_after_response i now s =
     (case the_entry i s of
        None \<Rightarrow> s
      | Some order \<Rightarrow>
          let r = request order;
              s = (if is_terminal_state (order_state r) then release_order_resources i now s else s)
          in if order_type r = Cancel \<and> is_terminal_state (order_state r) \<and> orig_internal_order_id r \<noteq> 0
             then release_order_resources (orig_internal_order_id r) now s
             else s)"

definition schedule_archive :: "InternalOrderId \<Rightarrow> OrderState \<Rightarrow> TimestampNs \<Rightarrow> EventLoop \<Rightarrow> EventLoop" where
  "schedule_archive i new_state now s =
     (let config = el_config s
      in if \<not> is_terminal_state new_state \<or> \<not> archive_terminal_orders config
         then s\<lparr>el_pending := (el_pending s)(i := None)\<rparr>
         else if terminal_archive_delay_ms config = 0
         then let s = in_world (\<lambda>w. snd (on_book (archive_order i) now w)) s
              in s\<lparr>el_pending := (el_pending s)(i := None)\<rparr>
         else let deadline_ns = now + ucast (terminal_archive_delay_ms config) * 1000000
              in s\<lparr>el_pending := (el_pending s)(i \<mapsto> deadline_ns)\<rparr>)"

definition handle_trade_response :: "TradeResponse \<Rightarrow> TimestampNs \<Rightarrow> EventLoop \<Rightarrow> EventLoop" where
  "handle_trade_response response now s =
     (let s = s\<lparr>el_engine := map_option (\<lambda>engine. engine_on_trade_response response engine (el_world s)) (el_engine s)\<rparr>;
          i = tr_internal_order_id response
      in if i = 0 then s
         else let s = set_order_state i (tr_new_state response) now s;
                  s = (if tr_volume_traded response > 0 then apply_trade response now s else s);
                  s = release_after_response i now s
              in schedule_archive i (tr_new_state response) now s)"

section \<open>The loop\<close>

definition batch_limit :: "EventLoop \<Rightarrow> nat" where
  "batch_limit s = (if poll_batch_size (el_config s) = 0 then 1 else unat (poll_batch_size (el_config s)))"

definition pop_upstream :: "EventLoop \<Rightarrow> OrderIndex option \<times> EventLoop" where
  "pop_upstream s =
     (case w_upstream (el_world s) of
        None \<Rightarrow> (None, s)
      | Some up \<Rightarrow>
          let (index, q) = try_pop kQueueCapacity (us_queue up)
          in (index, in_world (\<lambda>w. w\<lparr>w_upstream := Some (up\<lparr>us_queue := q\<rparr>)\<rparr>) s))"

definition take_order :: "OrderIndex \<Rightarrow> TimestampNs \<Rightarrow> EventLoop \<Rightarrow> bool \<times> EventLoop" where
  "take_order index now s =
     (case Option.bind (w_orders (el_world s)) (\<lambda>shm. orders_shm_read_snapshot shm index) of
        None \<Rightarrow> (False, report D_order OrderNotFound now s)
      | Some snapshot \<Rightarrow>
          (True, handle_order_request index (ss_request snapshot) now
                   (set_stage index UpstreamDequeued now s)))"

text \<open>
  The two batch loops take at most as many items as the queue holds when they start, because
  nothing in the process writes to these queues; that number is their fuel.
\<close>

fun upstream_loop :: "nat \<Rightarrow> nat \<Rightarrow> TimestampNs \<Rightarrow> EventLoop \<Rightarrow> nat \<times> EventLoop" where
  "upstream_loop 0 limit now s = (0, s)"
| "upstream_loop (Suc fuel) limit now s =
     (if limit = 0 then (0, s)
      else case pop_upstream s of
        (None, s) \<Rightarrow> (0, s)
      | (Some index, s) \<Rightarrow>
          let (taken, s) = take_order index now s
          in if \<not> taken then upstream_loop fuel limit now s
             else let (n, s) = upstream_loop fuel (limit - 1) now s in (n + 1, s))"

definition upstream_size :: "EventLoop \<Rightarrow> nat" where
  "upstream_size s = (case w_upstream (el_world s) of
     None \<Rightarrow> 0 | Some up \<Rightarrow> unat (queue_size kQueueCapacity (us_queue up)))"

definition process_upstream_orders :: "TimestampNs \<Rightarrow> EventLoop \<Rightarrow> nat \<times> EventLoop" where
  "process_upstream_orders now s =
     (if w_upstream (el_world s) = None \<or> w_orders (el_world s) = None then (0, s)
      else let (processed, s) = upstream_loop (upstream_size s) (batch_limit s) now s;
               st = el_stats s
           in (processed, if processed > 0
                 then s\<lparr>el_stats := st\<lparr>orders_processed := orders_processed st + of_nat processed,
                                       st_last_order_time := now\<rparr>\<rparr>
                 else s))"

definition pop_response :: "EventLoop \<Rightarrow> TradeResponse option \<times> EventLoop" where
  "pop_response s =
     (case el_trades s of
        None \<Rightarrow> (None, s)
      | Some q \<Rightarrow> (let (response, q) = try_pop kQueueCapacity q in (response, s\<lparr>el_trades := Some q\<rparr>)))"

fun response_loop :: "nat \<Rightarrow> nat \<Rightarrow> TimestampNs \<Rightarrow> EventLoop \<Rightarrow> nat \<times> EventLoop" where
  "response_loop 0 limit now s = (0, s)"
| "response_loop (Suc fuel) limit now s =
     (if limit = 0 then (0, s)
      else case pop_response s of
        (None, s) \<Rightarrow> (0, s)
      | (Some response, s) \<Rightarrow>
          let (n, s) = response_loop fuel (limit - 1) now (handle_trade_response response now s)
          in (n + 1, s))"

definition response_size :: "EventLoop \<Rightarrow> nat" where
  "response_size s = (case el_trades s of None \<Rightarrow> 0 | Some q \<Rightarrow> unat (queue_size kQueueCapacity q))"

definition process_downstream_responses :: "TimestampNs \<Rightarrow> EventLoop \<Rightarrow> nat \<times> EventLoop" where
  "process_downstream_responses now s =
     (let (processed, s) = response_loop (response_size s) (batch_limit s) now s;
          st = el_stats s
      in (processed, if processed > 0
            then s\<lparr>el_stats := st\<lparr>responses_processed := responses_processed st + of_nat processed,
                                  st_last_response_time := now\<rparr>\<rparr>
            else s))"

text \<open>\<open>walk\<close> lists the keys of the pending map in the order the \<open>unordered_map\<close> yields them.\<close>

definition archive_due :: "TimestampNs \<Rightarrow> InternalOrderId \<Rightarrow> EventLoop \<Rightarrow> EventLoop" where
  "archive_due now i s =
     (let s = (case the_entry i s of
                 None \<Rightarrow> s
               | Some e \<Rightarrow> if \<not> is_terminal_state (order_state (request e)) then s
                           else in_world (\<lambda>w. snd (on_book (archive_order i) now w)) s)
      in s\<lparr>el_pending := (el_pending s)(i := None)\<rparr>)"

definition process_pending_archives ::
    "InternalOrderId list \<Rightarrow> TimestampNs \<Rightarrow> EventLoop \<Rightarrow> EventLoop" where
  "process_pending_archives walk now_ns_value s =
     (let due_order_ids = filter (\<lambda>i. case el_pending s i of None \<Rightarrow> False | Some d \<Rightarrow> now_ns_value \<ge> d) walk
      in fold (archive_due now_ns_value) due_order_ids s)"

definition update_latency_stats :: "TimestampNs \<Rightarrow> TimestampNs \<Rightarrow> event_loop_stats \<Rightarrow> event_loop_stats" where
  "update_latency_stats start end_ns st =
     (if end_ns < start then st
      else let latency = end_ns - start
           in st\<lparr>min_latency_ns := (if latency < min_latency_ns st then latency else min_latency_ns st),
                 max_latency_ns := (if latency > max_latency_ns st then latency else max_latency_ns st),
                 total_latency_ns := total_latency_ns st + latency,
                 latency_samples := latency_samples st + 1\<rparr>)"

text \<open>What one turn of the loop reads from outside: clocks, the map's order, and a stop request.\<close>

record loop_input =
  li_start :: TimestampNs
  li_now :: TimestampNs
  li_end :: TimestampNs
  li_walk :: "InternalOrderId list"
  li_stop :: bool

definition loop_iteration :: "loop_input \<Rightarrow> EventLoop \<Rightarrow> EventLoop" where
  "loop_iteration inp s =
     (let s = s\<lparr>el_stats := (el_stats s)\<lparr>total_iterations := total_iterations (el_stats s) + 1\<rparr>\<rparr>;
          (orders, s) = process_upstream_orders (li_now inp) s;
          (responses, s) = process_downstream_responses (li_now inp) s;
          s = (case el_engine s of
                 None \<Rightarrow> s
               | Some engine \<Rightarrow>
                   let (engine, w) = engine_tick (li_now inp) (li_now inp) engine (el_world s)
                   in s\<lparr>el_engine := Some engine, el_world := w\<rparr>);
          s = (if archive_terminal_orders (el_config s)
               then process_pending_archives (li_walk inp) (li_now inp) s else s);
          s = (if orders = 0 \<and> responses = 0
               then s\<lparr>el_stats := (el_stats s)\<lparr>idle_iterations := idle_iterations (el_stats s) + 1\<rparr>\<rparr> else s);
          now = li_end inp; last = el_last_stats_time s;
          s = (if stats_interval_ms (el_config s) > 0 \<and> now \<ge> last
                  \<and> now - last \<ge> ucast (stats_interval_ms (el_config s)) * 1000000
               then s\<lparr>el_last_stats_time := now\<rparr> else s)
      in s\<lparr>el_stats := update_latency_stats (li_start inp) now (el_stats s)\<rparr>)"

definition stop_loop :: "EventLoop \<Rightarrow> EventLoop" where
  "stop_loop s = s\<lparr>el_running := False\<rparr>"

fun run_turns :: "loop_input list \<Rightarrow> EventLoop \<Rightarrow> EventLoop" where
  "run_turns [] s = s"
| "run_turns (inp # inputs) s =
     (if \<not> el_running s then s
      else let s = loop_iteration inp s;
               s = (if li_stop inp then stop_loop s else s);
               s = (if should_stop_service (w_errors (el_world s)) then s\<lparr>el_running := False\<rparr> else s)
           in run_turns inputs s)"

definition run_loop :: "TimestampNs \<Rightarrow> TimestampNs \<Rightarrow> loop_input list \<Rightarrow> EventLoop \<Rightarrow> EventLoop" where
  "run_loop now now_monotonic inputs s =
     (if el_running s then s
      else run_turns inputs (s\<lparr>el_running := True, el_last_stats_time := now_monotonic,
             el_stats := (el_stats s)\<lparr>st_start_time := now\<rparr>\<rparr>))"

definition reset_loop_stats :: "EventLoop \<Rightarrow> EventLoop" where
  "reset_loop_stats s = s\<lparr>el_stats := event_loop_stats_zero\<rparr>"

definition event_loop_new :: "EventLoopConfig \<Rightarrow> world \<Rightarrow> TradeResponse spsc_queue option \<Rightarrow> PositionManager
    \<Rightarrow> RiskManager \<Rightarrow> account_info option \<Rightarrow> ExecutionEngine option \<Rightarrow> EventLoop" where
  "event_loop_new config w trades positions risk account engine =
     \<lparr>el_config = config, el_world = w\<lparr>w_callback := True\<rparr>, el_trades = trades, el_positions = positions,
      el_risk = risk, el_account = account, el_engine = engine, el_running = False,
      el_stats = event_loop_stats_zero, el_pending = Map.empty, el_last_stats_time = 0\<rparr>"

end
