(* ===== verification/Execution_Invariant.thy ===== *)
theory Execution_Invariant
  imports Execution
begin

text \<open>
  The execution engine keeps every property of the world that the elementary actions of
  \<^verbatim>\<open>World_Invariant\<close> keep: what holds before a session is started, ticked or told of a trade
  holds afterwards.
\<close>

context world_invariant
begin

lemma keeps_sync_parent_view: "P w \<Longrightarrow> P (sync_parent_view now s w)"
  unfolding sync_parent_view_def by (rule keeps_sync)

lemma keeps_submit_child: "P w \<Longrightarrow> P (snd (snd (submit_child volume price act now s w)))"
  by (auto simp: submit_child_def Let_def case_prod_beta OrderEntry_default_def funds_ok_0
      intro!: keeps_sync_parent_view keeps_submit_internal)

lemma keeps_try_active_submit: "P w \<Longrightarrow> P (snd (snd (try_active_submit env v px budget now s w)))"
  by (auto simp: try_active_submit_def Let_def intro: keeps_submit_child split: option.splits)

lemma keeps_idle_or_sync: "P (snd p) \<Longrightarrow> P (snd (idle_or_sync now p))"
  by (cases p) (auto simp: idle_or_sync_def intro: keeps_sync_parent_view)

lemma keeps_finalize_parent: "P w \<Longrightarrow> P (snd (finalize_parent_if_idle now s w))"
  by (auto simp: finalize_parent_if_idle_def Let_def intro: keeps_sync_parent_view)

lemma keeps_tick_sequential: "P w \<Longrightarrow> P (snd (tick_sequential env clip now s w))"
  by (auto simp: tick_sequential_def Let_def case_prod_beta
      intro!: keeps_sync_parent_view keeps_idle_or_sync keeps_finalize_parent keeps_submit_child
        keeps_try_active_submit
      split: option.splits)

lemma keeps_twap_submit:
  assumes "P w"
  shows "P (snd (twap_submit env view px budget nv now s w))"
proof -
  have "P (snd (case view of None \<Rightarrow> (s, w)
      | Some v \<Rightarrow> if slice_consumed s then (s, w)
                  else let (taken, s, w) = try_active_submit env v px budget now s w
                       in (set_slice_consumed taken s, w)))"
    using assms keeps_try_active_submit by (auto simp: case_prod_beta Let_def split: option.splits)
  then show ?thesis
    by (auto simp: twap_submit_def Let_def case_prod_beta intro!: keeps_submit_child)
qed

lemma keeps_twap_close: "P (snd p) \<Longrightarrow> P (snd (twap_close now p))"
  by (auto simp: twap_close_def Let_def case_prod_beta intro!: keeps_idle_or_sync)

lemma keeps_tick_twap: "P w \<Longrightarrow> P (snd (tick_twap env nv now s w))"
  by (auto simp: tick_twap_def Let_def case_prod_beta
      intro!: keeps_sync_parent_view keeps_idle_or_sync keeps_finalize_parent keeps_twap_close keeps_twap_submit
      split: option.splits)

lemma keeps_session_tick: "P w \<Longrightarrow> P (snd (session_tick env nv now s w))"
  by (auto simp: session_tick_def intro: keeps_tick_sequential keeps_tick_twap split: session_kind.splits)

lemma keeps_start_session:
  assumes "P w"
  shows "P (snd (snd (start_session i r strat t now eng w)))"
  using assms
  by (auto simp: start_session_def Let_def case_prod_beta
      intro!: keeps_session_tick keeps_mark split: option.splits)

lemma keeps_tick_sessions: "P w \<Longrightarrow> P (snd (tick_sessions env nv now ss w))"
proof (induction ss arbitrary: w)
  case (Cons x ss)
  then show ?case
    by (cases x) (auto simp: Let_def case_prod_beta intro: keeps_session_tick)
qed simp

lemma keeps_engine_tick: "P w \<Longrightarrow> P (snd (engine_tick nv now eng w))"
  by (simp add: engine_tick_def case_prod_beta keeps_tick_sessions)

end

end
