(* ===== verification/Event_Loop_Invariant.thy ===== *)
theory Event_Loop_Invariant
  imports Event_Loop Execution_Invariant
begin

text \<open>
  What the event loop's handlers rely on to keep a property of the world, in two steps:
  \<open>loop_invariant\<close> for the parts that leave reservations alone, \<open>loop_invariant_all\<close> for
  the whole handlers.  Interpreted for the upstream queue (no handler touches it), for the
  shutdown latch (no handler clears it), and in \<open>Reservations\<close> for the reserved funds.
\<close>

section \<open>Frames\<close>

lemma in_world_sel [simp]:
  "el_world (in_world f s) = f (el_world s)" "el_positions (in_world f s) = el_positions s"
  "el_engine (in_world f s) = el_engine s" "el_config (in_world f s) = el_config s"
  "el_trades (in_world f s) = el_trades s" "el_pending (in_world f s) = el_pending s"
  "el_risk (in_world f s) = el_risk s" "el_account (in_world f s) = el_account s"
  "el_stats (in_world f s) = el_stats s" "el_running (in_world f s) = el_running s"
  by (simp_all add: in_world_def)

lemma in_positions_sel [simp]:
  "el_world (snd (in_positions f s)) = el_world s"
  "el_positions (snd (in_positions f s)) = snd (f (el_positions s))"
  "el_config (snd (in_positions f s)) = el_config s" "el_trades (snd (in_positions f s)) = el_trades s"
  "fst (in_positions f s) = fst (f (el_positions s))"
  by (simp_all add: in_positions_def case_prod_beta)

lemma write_entry_sel [simp]:
  "el_world (write_entry i f s) = (el_world s)\<lparr>w_book := modify_order i f (w_book (el_world s))\<rparr>"
  "el_positions (write_entry i f s) = el_positions s" "el_engine (write_entry i f s) = el_engine s"
  "el_config (write_entry i f s) = el_config s" "el_trades (write_entry i f s) = el_trades s"
  by (simp_all add: write_entry_def)

section \<open>The parts that leave reservations alone\<close>

locale loop_invariant = world_invariant +
  assumes keeps_write: "(\<And>e. entry_key (f e) = entry_key e) \<Longrightarrow> (\<And>e. fund_frozen (f e) = fund_frozen e) \<Longrightarrow>
      P w \<Longrightarrow> P (w\<lparr>w_book := modify_order a f (w_book w)\<rparr>)"
    and keeps_entry: "fund_frozen e = 0 \<Longrightarrow> P w \<Longrightarrow> P (snd (on_book (add_order e now) now w))"
    and keeps_pool_sync: "P w \<Longrightarrow> P (snd (on_pool (orders_shm_sync_order i r now) w))"
    and keeps_trade: "P w \<Longrightarrow> P (snd (on_book (update_trade a vol px val fee now) now w))"
    and keeps_archive: "P w \<Longrightarrow> P (snd (on_book (archive_order a) now w))"
begin

lemma keeps_start_managed: "P (el_world s) \<Longrightarrow> P (el_world (start_managed_order index i now engine s))"
  by (simp add: start_managed_order_def Let_def case_prod_beta split: option.split)
    (auto simp: entry_key_def
      intro!: keeps_start_session keeps_error keeps_stage keeps_state keeps_write)

lemma keeps_risk_stage:
  assumes "P (el_world s)"
  shows "P (el_world (snd (risk_stage index req now s)))"
proof -
  have "P ((el_world s)\<lparr>w_book := modify_order a (\<lambda>e. e\<lparr>risk_result := c\<rparr>) (w_book (el_world s))\<rparr>)" for a c
    using assms by (intro keeps_write) (simp_all add: entry_key_def)
  with assms show ?thesis
    by (auto simp: risk_stage_def Let_def case_prod_beta intro!: keeps_state keeps_stage)
qed

end

section \<open>Whole handlers\<close>

locale loop_invariant_all = loop_invariant +
  assumes keeps_funds: "P w \<Longrightarrow> P (w\<lparr>w_book := modify_order a (\<lambda>e. e\<lparr>fund_frozen := g e\<rparr>) (w_book w)\<rparr>)"
begin

lemma keeps_reserve: "P (el_world s) \<Longrightarrow> P (el_world (snd (reserve_order_resources i now s)))"
  by (auto simp: reserve_order_resources_def Let_def case_prod_beta intro!: keeps_funds split: option.splits)

lemma keeps_release: "P (el_world s) \<Longrightarrow> P (el_world (release_order_resources i now s))"
  by (auto simp: release_order_resources_def Let_def case_prod_beta intro!: keeps_funds split: option.splits)

lemma keeps_settle: "P (el_world s) \<Longrightarrow> P (el_world (snd (settle_buy_trade_fund i amount fee now s)))"
  by (auto simp: settle_buy_trade_fund_def Let_def case_prod_beta intro!: keeps_funds split: option.splits)

lemma keeps_route_accepted: "P (el_world s) \<Longrightarrow> P (el_world (route_accepted_order index i now s))"
  by (auto simp: route_accepted_order_def Let_def case_prod_beta
      intro!: keeps_error keeps_stage keeps_state keeps_release keeps_route_order keeps_reserve
      split: option.splits)

lemma keeps_admit:
  assumes "P (el_world s)"
  shows "P (el_world (admit_order index req now s))"
proof -
  have "P (snd (on_book (add_order (entry_for index req now) now) now (el_world s)))"
    using assms by (intro keeps_entry) (simp_all add: entry_for_def OrderEntry_default_def)
  then show ?thesis
    by (auto simp: admit_order_def Let_def case_prod_beta
        intro!: keeps_error keeps_stage keeps_route_accepted keeps_start_managed keeps_risk_stage keeps_state
        split: option.splits)
qed

lemma keeps_handle_order: "P (el_world s) \<Longrightarrow> P (el_world (handle_order_request index req now s))"
  by (auto simp: handle_order_request_def Let_def case_prod_beta
      intro!: keeps_admit keeps_error keeps_stage keeps_pool_sync keeps_alloc split: option.splits)

lemma keeps_settle_trade_fund: "P (el_world s) \<Longrightarrow> P (el_world (settle_trade_fund i r now s))"
  by (auto simp: settle_trade_fund_def Let_def case_prod_beta intro!: keeps_error keeps_settle)

lemma keeps_missing_row: "P (el_world s) \<Longrightarrow> P (el_world (create_missing_row sid r now s))"
  by (simp add: create_missing_row_def Let_def case_prod_beta keeps_error)

lemma keeps_settle_position: "P (el_world s) \<Longrightarrow> P (el_world (settle_trade_position sid r now s))"
  by (simp add: settle_trade_position_def Let_def case_prod_beta keeps_error)

lemma keeps_apply_trade: "P (el_world s) \<Longrightarrow> P (el_world (apply_trade r now s))"
  by (simp add: apply_trade_def Let_def keeps_trade keeps_settle_trade_fund keeps_missing_row
      keeps_settle_position split: option.split)

lemma keeps_release_after: "P (el_world s) \<Longrightarrow> P (el_world (release_after_response i now s))"
  by (auto simp: release_after_response_def Let_def intro!: keeps_release split: option.splits)

lemma keeps_schedule_archive: "P (el_world s) \<Longrightarrow> P (el_world (schedule_archive i st now s))"
  by (auto simp: schedule_archive_def Let_def intro!: keeps_archive)

lemma keeps_handle_response: "P (el_world s) \<Longrightarrow> P (el_world (handle_trade_response r now s))"
  by (auto simp: handle_trade_response_def Let_def
      intro!: keeps_schedule_archive keeps_release_after keeps_apply_trade keeps_state)

lemma keeps_take_order: "P (el_world s) \<Longrightarrow> P (el_world (snd (take_order index now s)))"
  by (auto simp: take_order_def intro!: keeps_error keeps_handle_order keeps_stage split: option.splits)

lemma keeps_archive_due: "P (el_world s) \<Longrightarrow> P (el_world (archive_due now i s))"
  by (auto simp: archive_due_def Let_def intro!: keeps_archive split: option.splits)

lemma keeps_pending_archives:
  assumes "P (el_world s)"
  shows "P (el_world (process_pending_archives walk now s))"
proof -
  have "P (el_world (fold (archive_due now) ids s))" for ids
    using assms by (induction ids arbitrary: s) (simp_all add: keeps_archive_due)
  then show ?thesis by (simp add: process_pending_archives_def)
qed

end

end
