(* ===== verification/Reservations.thy ===== *)
theory Reservations
  imports Event_Loop_Invariant
begin

text \<open>
  Money set aside for live orders.  Each buy order that the event loop routes holds a
  reservation in its entry (\<open>fund_frozen\<close>), and the FUND row holds the frozen total.  Here the
  two are tied together: nothing the router, the engine or the book do creates a reservation,
  and every handler of the event loop keeps the frozen fund at least the sum of the
  reservations, as long as no fill costs more than its own order has reserved.
\<close>

section \<open>Reservations in the book\<close>

definition frozen_of :: "OrderBook \<Rightarrow> InternalOrderId \<Rightarrow> nat" where
  "frozen_of b a = (case find_order a b of None \<Rightarrow> 0 | Some e \<Rightarrow> unat (fund_frozen e))"

definition reserved :: "OrderBook \<Rightarrow> nat" where
  "reserved b = (\<Sum>a\<in>UNIV. frozen_of b a)"

lemma frozen_same_slots:
  assumes "id_to_index b' = id_to_index b" "\<And>i. fund_frozen (ob_orders b' i) = fund_frozen (ob_orders b i)"
  shows "frozen_of b' = frozen_of b"
  using assms by (auto simp: frozen_of_def find_order_def fun_eq_iff split: option.splits)

lemma frozen_modify:
  "(\<And>e. fund_frozen (f e) = fund_frozen e) \<Longrightarrow> frozen_of (modify_order a f b) = frozen_of b"
  by (rule frozen_same_slots) (auto simp: modify_order_def split: option.splits)

lemma frozen_put:
  assumes "find_order a b = Some e" "fund_frozen e' = fund_frozen e"
  shows "frozen_of (modify_order a (\<lambda>_. e') b) = frozen_of b"
  using assms
  by (intro frozen_same_slots) (auto simp: modify_order_def find_order_def split: option.splits)

lemma frozen_fields [simp]:
  "frozen_of (b\<lparr>split_parent_error_latched := X\<rparr>) = frozen_of b"
  "frozen_of (b\<lparr>managed_parent_ids := X\<rparr>) = frozen_of b"
  "frozen_of (b\<lparr>ob_active_count := n\<rparr>) = frozen_of b"
  "frozen_of (b\<lparr>ob_next_order_id := n'\<rparr>) = frozen_of b"
  by (rule frozen_same_slots; simp)+

lemma apply_totals_frozen [simp]: "fund_frozen (apply_totals l t e) = fund_frozen e"
  by (simp add: apply_totals_def Let_def)

lemma frozen_refresh: "frozen_of (fst (refresh_parent_from_children p b)) = frozen_of b"
  by (auto simp: refresh_parent_from_children_def Let_def frozen_put split: option.splits)

lemma frozen_refresh_of [simp]: "frozen_of (fst (refresh_parent_of c b)) = frozen_of b"
  by (auto simp: refresh_parent_of_def frozen_refresh split: option.splits)

lemma frozen_update_state: "frozen_of (fst (snd (update_state a st now b))) = frozen_of b"
  by (auto simp: update_state_def Let_def case_prod_beta frozen_modify split: option.splits)

lemma frozen_update_trade: "frozen_of (fst (snd (update_trade a vol px val fee now b))) = frozen_of b"
  by (auto simp: update_trade_def Let_def case_prod_beta frozen_modify split: option.splits)

lemma frozen_sync: "frozen_of (fst (snd (sync_managed_parent_view a view st now b))) = frozen_of b"
proof (cases "find_order a b")
  case (Some e)
  let ?b = "b\<lparr>managed_parent_ids := insert a (managed_parent_ids b)\<rparr>"
  let ?e = "e\<lparr>request := apply_view view st (request e), last_update_ns := now\<rparr>"
  have "find_order a ?b = Some e" using Some by (simp add: find_order_def)
  then have "frozen_of (modify_order a (\<lambda>_. ?e) ?b) = frozen_of ?b" by (rule frozen_put) simp
  then show ?thesis using Some by (simp add: sync_managed_parent_view_def Let_def)
qed (simp add: sync_managed_parent_view_def)

lemma frozen_mark: "frozen_of (fst (snd (mark_managed_parent a b))) = frozen_of b"
  by (auto simp: mark_managed_parent_def split: option.splits)

lemma frozen_add:
  assumes "book_ok cap b" "fund_frozen entry = 0"
  shows "frozen_of (fst (snd (add_order entry now b))) a \<le> frozen_of b a"
proof (cases "internal_order_id (request entry) \<noteq> 0 \<and> id_to_index b (internal_order_id (request entry)) = None
    \<and> free_slots b \<noteq> []")
  case False
  obtain r b' fx where eq: "add_order entry now b = (r, b', fx)" by (cases "add_order entry now b")
  then have "b' = b" by (cases rule: add_order_cases) (use False in auto)
  then show ?thesis by (simp add: eq)
next
  case True
  let ?id = "internal_order_id (request entry)"
  obtain index free where free: "free_slots b = index # free" using True by (cases "free_slots b") auto
  let ?e = "stored_entry now entry"
  let ?b1 = "insert_indices index free ?e b"
  define p where "p = (if is_split_child entry \<and> parent_order_id entry \<noteq> 0
       then refresh_parent_of ?id ?b1 else (?b1, []))"
  have eq: "fst (snd (add_order entry now b)) = (fst p)\<lparr>ob_active_count := ob_active_count (fst p) + 1\<rparr>"
    using True add_order_eq [OF _ _ free, of entry now, unfolded Let_def case_prod_beta, folded p_def] by simp
  have "slots_ok cap b" using assms(1) by (simp add: book_ok_def)
  then have "find_order a ?b1 = (if a = ?id then Some ?e else find_order a b)"
    using insert_find_other [OF _ free, of cap a ?e] by (auto simp: find_insert_indices)
  moreover have "fund_frozen ?e = 0" using assms(2) by (simp add: stored_entry_def Let_def)
  ultimately have "frozen_of ?b1 a \<le> frozen_of b a" by (simp add: frozen_of_def)
  moreover have "frozen_of (fst p) = frozen_of ?b1" by (simp add: p_def)
  ultimately show ?thesis by (simp add: eq)
qed

lemma frozen_archive: "frozen_of (fst (snd (archive_order a b))) c \<le> frozen_of b c"
  if "book_ok cap b" for cap
proof (cases "id_to_index b a")
  case (Some i)
  have "find_order c (remove_indices a i b) = None \<or> find_order c (remove_indices a i b) = find_order c b"
    by (simp add: find_remove_indices [OF book_ok_slot_inj [OF that] Some])
  then have "frozen_of (remove_indices a i b) c \<le> frozen_of b c" by (auto simp: frozen_of_def)
  then show ?thesis using Some by (simp add: archive_order_eq)
qed (simp add: archive_order_def)

section \<open>Nothing but the event loop makes a reservation\<close>

definition funds_keep :: "nat \<Rightarrow> (InternalOrderId \<Rightarrow> nat) \<Rightarrow> world \<Rightarrow> bool" where
  "funds_keep cap F w \<longleftrightarrow> book_ok cap (w_book w) \<and> (\<forall>a. frozen_of (w_book w) a \<le> F a)"

lemma funds_keep_same:
  "funds_keep cap F w \<Longrightarrow> book_ok cap (w_book w') \<Longrightarrow> frozen_of (w_book w') = frozen_of (w_book w) \<Longrightarrow>
   funds_keep cap F w'"
  by (simp add: funds_keep_def)

lemma book_ok_next_id [simp]: "book_ok cap (b\<lparr>ob_next_order_id := x\<rparr>) = book_ok cap b"
  by (simp add: book_ok_defs find_order_def get_children_def)

lemma book_ok_mark: "book_ok cap b \<Longrightarrow> book_ok cap (fst (snd (mark_managed_parent a b)))"
  by (auto simp: mark_managed_parent_def find_order_def intro: book_ok_latch split: option.splits)

lemma funds_keep_add:
  assumes "funds_keep cap F w" "fund_frozen e = 0"
  shows "funds_keep cap F (snd (on_book (add_order e now) now w))"
proof -
  have ok: "book_ok cap (w_book w)" using assms(1) by (simp add: funds_keep_def)
  have "book_ok cap (fst (snd (add_order e now (w_book w))))"
    using book_ok_add [OF ok] by (cases "add_order e now (w_book w)") auto
  moreover have "frozen_of (fst (snd (add_order e now (w_book w)))) a \<le> F a" for a
    using frozen_add [OF ok assms(2), of now a] assms(1) by (auto simp: funds_keep_def intro: order_trans)
  ultimately show ?thesis by (simp add: funds_keep_def frame_simps)
qed

lemma create_slot_book: "w_book (snd (create_internal_order_slot r st src now w)) = w_book w"
  by (auto simp: create_internal_order_slot_def case_prod_beta split: option.splits)

lemma book_ok_archive: "book_ok cap b \<Longrightarrow> book_ok cap (fst (snd (archive_order a b)))"
  using book_ok_step [of cap b _ "ArchiveOrder a"] by (simp add: book_step_def case_prod_beta)

interpretation funds: loop_invariant "funds_keep cap F" "\<lambda>m. m = 0" for cap F
proof
  show "funds_keep cap F (snd (on_book (add_order e now) now w'))"
    if "funds_keep cap F w" "create_internal_order_slot r st src now w = (Some i, w')"
      "shm_order_index e = i" "fund_frozen e = 0" for w r st src now i w' e
  proof (rule funds_keep_add [OF _ that(4)])
    show "funds_keep cap F w'"
      using that(1) create_slot_book [of r st src now w] that(2) by (simp add: funds_keep_def)
  qed
  show "funds_keep cap F (w\<lparr>w_book := modify_order a f (w_book w)\<rparr>)"
    if "\<And>e. entry_key (f e) = entry_key e" "\<And>e. fund_frozen (f e) = fund_frozen e" "funds_keep cap F w"
    for f w a
    using that by (intro funds_keep_same [OF that(3)])
      (auto simp: funds_keep_def frozen_modify intro: book_ok_content [OF modify_order_content])
  show "funds_keep cap F (snd (on_book (add_order e now) now w))" if "fund_frozen e = 0" "funds_keep cap F w"
    for e w now
    using that(2,1) by (rule funds_keep_add)
  show "funds_keep cap F (snd (on_book (archive_order a) now w))" if "funds_keep cap F w" for w a now
    using that frozen_archive [of cap "w_book w" a]
    by (auto simp: funds_keep_def frame_simps book_ok_archive intro: order_trans)
  show "funds_keep cap F (snd (allocate_internal_order_id w))" if "funds_keep cap F w" for w
    using that by (auto simp: funds_keep_def allocate_internal_order_id_def next_order_id_def Let_def
        split: option.splits)
qed (auto simp: funds_keep_def frame_simps frozen_update_state frozen_update_trade frozen_mark frozen_sync
    book_ok_update_state book_ok_update_trade book_ok_mark book_ok_sync create_slot_book)

section \<open>The frozen fund\<close>

definition frozen_fund :: "PositionManager \<Rightarrow> nat" where
  "frozen_fund pm = unat (fi_frozen (get_fund_info pm))"

lemma frozen_fund_eq:
  "frozen_fund pm = (case pm_shm pm of None \<Rightarrow> 0 | Some shm \<Rightarrow> unat (volume_available_t1 (ps_positions shm 0)))"
  by (simp add: frozen_fund_def get_fund_info_def load_fund_info_def kFundPositionIndex_def split: option.split)

lemma frozen_fund_op:
  assumes "fst (apply_fund_op op now pm)"
  obtains T A M T' A' F' M' where "ledger_op op (T, A, frozen_fund pm, M) = Some (T', A', F', M')"
    "frozen_fund (snd (apply_fund_op op now pm)) = F'"
proof (cases "pm_shm pm")
  case None
  with assms have False by (cases op) (simp_all add: fund_op_defs)
  then show thesis ..
next
  case (Some shm)
  obtain T A F M where l: "fund_ledger pm = (T, A, F, M)" by (cases "fund_ledger pm")
  from ledger_op_sound [OF Some, of op now] assms obtain l' where
    l': "ledger_op op (fund_ledger pm) = Some l'" "fund_ledger (snd (apply_fund_op op now pm)) = l'"
    by auto
  obtain T' A' F' M' where "l' = (T', A', F', M')" by (cases l')
  with l l' show thesis
    by (intro that [of T A M T' A' F' M'])
      (simp_all add: frozen_fund_def fund_ledger_def Let_def)
qed

lemma frozen_fund_freeze:
  "fst (freeze_fund a now pm) \<Longrightarrow> frozen_fund (snd (freeze_fund a now pm)) = frozen_fund pm + unat a"
  by (rule frozen_fund_op [of "FreezeFund a" now pm]) (auto split: if_splits)

lemma frozen_fund_unfreeze:
  "fst (unfreeze_fund a now pm) \<Longrightarrow> frozen_fund (snd (unfreeze_fund a now pm)) + unat a = frozen_fund pm"
  by (rule frozen_fund_op [of "UnfreezeFund a" now pm]) (auto split: if_splits)

lemma frozen_fund_deduct:
  "fst (deduct_fund a f now pm) \<Longrightarrow>
     frozen_fund (snd (deduct_fund a f now pm)) + (unat a + unat f) = frozen_fund pm"
  by (rule frozen_fund_op [of "DeductFund a f" now pm]) (auto split: if_splits)

lemma frozen_fund_trade:
  "frozen_fund (snd (apply_buy_trade_fund a f now pm)) = frozen_fund pm"
  "frozen_fund (snd (apply_sell_trade_fund a f now pm)) = frozen_fund pm"
proof -
  have k: "frozen_fund (snd (apply_fund_op op now pm)) = frozen_fund pm"
    if "\<And>T A M T' A' F' M'. ledger_op op (T, A, frozen_fund pm, M) = Some (T', A', F', M') \<Longrightarrow> F' = frozen_fund pm"
    for op
  proof (cases "fst (apply_fund_op op now pm)")
    case True
    then show ?thesis by (rule frozen_fund_op) (use that in blast)
  qed (simp add: ledger_op_refused)
  have "frozen_fund (snd (apply_fund_op (BuyTradeFund a f) now pm)) = frozen_fund pm"
    "frozen_fund (snd (apply_fund_op (SellTradeFund a f) now pm)) = frozen_fund pm"
    by (rule k; auto split: if_splits)+
  then show "frozen_fund (snd (apply_buy_trade_fund a f now pm)) = frozen_fund pm"
    "frozen_fund (snd (apply_sell_trade_fund a f now pm)) = frozen_fund pm"
    by simp_all
qed

lemma frozen_fund_refused:
  "\<not> fst (freeze_fund a now pm) \<Longrightarrow> snd (freeze_fund a now pm) = pm"
  "\<not> fst (unfreeze_fund a now pm) \<Longrightarrow> snd (unfreeze_fund a now pm) = pm"
  "\<not> fst (deduct_fund a f now pm) \<Longrightarrow> snd (deduct_fund a f now pm) = pm"
  using ledger_op_refused [of "FreezeFund a" now pm] ledger_op_refused [of "UnfreezeFund a" now pm]
    ledger_op_refused [of "DeductFund a f" now pm] by simp_all

text \<open>The security rows are others than the FUND row.\<close>

lemma position_row_pos:
  assumes "position_row sid pm = Some (i, shm, pos)"
  shows "pm_shm pm = Some shm" "i \<noteq> 0"
  using assms by (auto simp: position_row_def get_position_def security_position_by_row_def Let_def
      kFirstSecurityPositionIndex_def split: option.splits if_splits)

lemma frozen_fund_rows:
  assumes "pm_shm pm = Some shm" "ps_positions shm' 0 = ps_positions shm 0"
  shows "frozen_fund (pm\<lparr>pm_shm := Some shm'\<rparr>) = frozen_fund pm"
  using assms by (simp add: frozen_fund_def get_fund_info_def kFundPositionIndex_def)

lemma frozen_fund_position:
  "frozen_fund (snd (add_position sid v p now pm)) = frozen_fund pm"
  "frozen_fund (snd (deduct_position sid v a now pm)) = frozen_fund pm"
proof -
  show "frozen_fund (snd (add_position sid v p now pm)) = frozen_fund pm"
    using position_row_pos [of sid pm]
    by (cases "position_row sid pm") (auto simp: add_position_def Let_def intro!: frozen_fund_rows)
  show "frozen_fund (snd (deduct_position sid v a now pm)) = frozen_fund pm"
    using position_row_pos [of sid pm]
    by (cases "position_row sid pm") (auto simp: deduct_position_def Let_def case_prod_beta intro!: frozen_fund_rows)
qed

lemma frozen_fund_add_security: "frozen_fund (snd (add_security code name mkt now pm)) = frozen_fund pm"
  by (simp add: add_security_def frozen_fund_eq Let_def kFirstSecurityPositionIndex_def split: option.split)

section \<open>The handlers keep the reservations covered\<close>

definition funds_inv :: "nat \<Rightarrow> EventLoop \<Rightarrow> bool" where
  "funds_inv cap s \<longleftrightarrow> book_ok cap (w_book (el_world s))
     \<and> reserved (w_book (el_world s)) \<le> frozen_fund (el_positions s)"

lemma reserved_write:
  assumes "slot_inj b" "find_order i b = Some e"
  shows "reserved (modify_order i f b) + unat (fund_frozen e) = reserved b + unat (fund_frozen (f e))"
proof -
  have o: "frozen_of (modify_order i f b) a = frozen_of b a" if "a \<noteq> i" for a
    using find_modify_other [OF assms(1) that, of f] by (simp add: frozen_of_def)
  have "reserved (modify_order i f b) = frozen_of (modify_order i f b) i + (\<Sum>a\<in>UNIV - {i}. frozen_of b a)"
    unfolding reserved_def by (subst sum.remove [of UNIV i]) (auto simp: o intro: sum.cong)
  moreover have "reserved b = frozen_of b i + (\<Sum>a\<in>UNIV - {i}. frozen_of b a)"
    unfolding reserved_def by (subst sum.remove [of UNIV i]) auto
  ultimately show ?thesis using assms(2) by (simp add: frozen_of_def find_modify_order)
qed

lemma frozen_of_reserved: "frozen_of b a \<le> reserved b"
  unfolding reserved_def by (rule member_le_sum) auto

lemma funds_inv_world:
  assumes "funds_inv cap s" "\<And>F. funds_keep cap F (el_world s) \<Longrightarrow> funds_keep cap F (el_world s')"
    "frozen_fund (el_positions s') = frozen_fund (el_positions s)"
  shows "funds_inv cap s'"
proof -
  have "funds_keep cap (frozen_of (w_book (el_world s))) (el_world s)"
    using assms(1) by (simp add: funds_keep_def funds_inv_def)
  then have k: "funds_keep cap (frozen_of (w_book (el_world s))) (el_world s')" by (rule assms(2))
  then have "reserved (w_book (el_world s')) \<le> reserved (w_book (el_world s))"
    unfolding reserved_def funds_keep_def by (intro sum_mono) blast
  with k assms(1,3) show ?thesis by (simp add: funds_inv_def funds_keep_def)
qed

lemma funds_inv_write:
  assumes "funds_inv cap s" "the_entry i s = Some e" "el_world s' = el_world s"
    "frozen_fund (el_positions s') + unat (fund_frozen e) \<ge> frozen_fund (el_positions s) + unat (v e)"
  shows "funds_inv cap (write_entry i (\<lambda>e. e\<lparr>fund_frozen := v e\<rparr>) s')"
proof -
  have ok: "book_ok cap (w_book (el_world s))" and r: "reserved (w_book (el_world s)) \<le> frozen_fund (el_positions s)"
    using assms(1) by (simp_all add: funds_inv_def)
  have "book_ok cap (modify_order i (\<lambda>e. e\<lparr>fund_frozen := v e\<rparr>) (w_book (el_world s)))"
    using ok by (intro book_ok_content [OF modify_order_content]) (simp_all add: entry_key_def)
  moreover have "reserved (modify_order i (\<lambda>e. e\<lparr>fund_frozen := v e\<rparr>) (w_book (el_world s))) + unat (fund_frozen e)
      = reserved (w_book (el_world s)) + unat (v e)"
    using reserved_write [OF book_ok_slot_inj [OF ok], of i e] assms(2) by (simp add: the_entry_def)
  ultimately show ?thesis using r assms(3,4) by (simp add: funds_inv_def)
qed

lemma try_total_with_fee_Some:
  "try_total_with_fee amount fee = Some t \<Longrightarrow> unat t = unat amount + unat fee"
proof -
  assume a: "try_total_with_fee amount fee = Some t"
  let ?v = "ucast amount + ucast fee :: u128"
  have "unat amount + unat fee < 2 ^ 128"
    using unat_lt_2_64 [of amount] unat_lt_2_64 [of fee] by (rule order_less_le_trans [OF add_strict_mono]) simp
  then have s: "unat ?v = unat amount + unat fee" by (simp add: unat_word_ariths)
  from a have v: "\<not> ?v > ucast (- 1 :: u64)" "t = ucast ?v"
    by (auto simp: try_total_with_fee_def Let_def split: if_splits)
  then have "unat ?v \<le> unat (- 1 :: u64)" by (simp only: word_less_nat_alt unat_ucast_u128 not_less)
  then have "unat ?v < 2 ^ 64" by (simp add: unat_minus_one_u64)
  with s v(2) show ?thesis by (simp add: unsigned_ucast_eq take_bit_nat_eq_self)
qed

lemma funds_inv_reserve:
  assumes "funds_inv cap s"
  shows "funds_inv cap (snd (reserve_order_resources i now s))"
proof (cases "the_entry i s")
  case (Some e)
  have "funds_inv cap (write_entry i (\<lambda>e. e\<lparr>fund_frozen := t\<rparr>) (snd (in_positions (freeze_fund t now) s)))"
    if "fst (freeze_fund t now (el_positions s))" for t
  proof -
    have "funds_inv cap (write_entry i (\<lambda>e. e\<lparr>fund_frozen := (\<lambda>_. t) e\<rparr>) (snd (in_positions (freeze_fund t now) s)))"
      using frozen_fund_freeze [OF that] by (intro funds_inv_write [OF assms Some]) simp_all
    then show ?thesis by simp
  qed
  moreover have "funds_inv cap (snd (in_positions (freeze_fund t now) s))"
    if "\<not> fst (freeze_fund t now (el_positions s))" for t
    using assms that by (simp add: frozen_fund_refused in_positions_def case_prod_beta funds_inv_def)
  ultimately show ?thesis
    using Some assms
    by (auto simp: reserve_order_resources_def Let_def case_prod_beta split: option.splits if_splits)
qed (use assms in \<open>simp add: reserve_order_resources_def\<close>)

lemma funds_inv_release:
  assumes "funds_inv cap s"
  shows "funds_inv cap (release_order_resources i now s)"
proof (cases "the_entry i s")
  case (Some e)
  have "funds_inv cap (if \<not> fst (unfreeze_fund (fund_frozen e) now (el_positions s))
      then snd (in_positions (unfreeze_fund (fund_frozen e) now) s)
      else write_entry i (\<lambda>e. e\<lparr>fund_frozen := 0\<rparr>) (snd (in_positions (unfreeze_fund (fund_frozen e) now) s)))"
  proof (cases "fst (unfreeze_fund (fund_frozen e) now (el_positions s))")
    case True
    then have "funds_inv cap (write_entry i (\<lambda>e. e\<lparr>fund_frozen := (\<lambda>_. 0) e\<rparr>) (snd (in_positions (unfreeze_fund (fund_frozen e) now) s)))"
      using frozen_fund_unfreeze by (intro funds_inv_write [OF assms Some]) simp_all
    with True show ?thesis by simp
  next
    case False
    then show ?thesis
      using assms by (simp add: frozen_fund_refused in_positions_def case_prod_beta funds_inv_def)
  qed
  then show ?thesis
    using Some assms by (auto simp: release_order_resources_def Let_def case_prod_beta)
qed (use assms in \<open>simp add: release_order_resources_def\<close>)

text \<open>A fill is covered if the order has no reservation left, or enough of it.\<close>

definition covered_fill :: "TradeResponse \<Rightarrow> EventLoop \<Rightarrow> bool" where
  "covered_fill r s \<longleftrightarrow>
     (let held = frozen_of (w_book (el_world s)) (tr_internal_order_id r)
      in tr_volume_traded r = 0 \<or> tr_trade_side r \<noteq> Buy \<or> held = 0
         \<or> unat (tr_dvalue_traded r) + unat (tr_dfee r) \<le> held)"

lemma funds_inv_settle:
  assumes "funds_inv cap s" "frozen_of (w_book (el_world s)) i = 0
    \<or> unat amount + unat fee \<le> frozen_of (w_book (el_world s)) i"
  shows "funds_inv cap (snd (settle_buy_trade_fund i amount fee now s))"
proof (cases "the_entry i s")
  case (Some e)
  have same: "funds_inv cap (snd (in_positions f s))" if "frozen_fund (snd (f (el_positions s))) = frozen_fund (el_positions s)" for f
    using assms(1) that by (simp add: funds_inv_def)
  have f: "frozen_of (w_book (el_world s)) i = unat (fund_frozen e)"
    using Some by (simp add: frozen_of_def the_entry_def)
  show ?thesis
  proof (cases "fund_frozen e = 0 \<or> try_total_with_fee amount fee = None
      \<or> \<not> fst (deduct_fund amount fee now (el_positions s))")
    case True
    then show ?thesis
      using Some assms(1) same
      by (auto simp: settle_buy_trade_fund_def Let_def case_prod_beta frozen_fund_trade frozen_fund_refused
          split: option.splits)
  next
    case False
    then obtain t where t: "try_total_with_fee amount fee = Some t" by auto
    have tn: "unat t = unat amount + unat fee" using t by (rule try_total_with_fee_Some)
    have le: "unat t \<le> unat (fund_frozen e)" using assms(2) f False tn by (auto simp: unat_eq_0)
    let ?v = "\<lambda>e. if fund_frozen e \<ge> t then fund_frozen e - t else 0"
    have v: "unat (?v e) = unat (fund_frozen e) - unat t"
      using le by (simp add: word_le_nat_alt unat_sub)
    have "funds_inv cap (write_entry i (\<lambda>e. e\<lparr>fund_frozen := ?v e\<rparr>) (snd (in_positions (deduct_fund amount fee now) s)))"
      using frozen_fund_deduct [of amount fee now "el_positions s"] False v le tn
      by (intro funds_inv_write [OF assms(1) Some]) auto
    with False Some t show ?thesis
      by (simp add: settle_buy_trade_fund_def Let_def case_prod_beta)
  qed
qed (use assms in \<open>simp add: settle_buy_trade_fund_def\<close>)

lemma funds_inv_fields [simp]:
  "funds_inv cap (s\<lparr>el_risk := x1\<rparr>) = funds_inv cap s" "funds_inv cap (s\<lparr>el_engine := x2\<rparr>) = funds_inv cap s"
  "funds_inv cap (s\<lparr>el_pending := x3\<rparr>) = funds_inv cap s"
  by (simp_all add: funds_inv_def)

lemma funds_inv_put:
  assumes "funds_inv cap s" "\<And>F. funds_keep cap F (el_world s) \<Longrightarrow> funds_keep cap F w"
  shows "funds_inv cap (s\<lparr>el_world := w\<rparr>)"
  using assms(1) by (rule funds_inv_world) (simp_all add: assms(2))

lemma funds_inv_in_world:
  "funds_inv cap s \<Longrightarrow> (\<And>F. funds_keep cap F (el_world s) \<Longrightarrow> funds_keep cap F (f (el_world s)))
    \<Longrightarrow> funds_inv cap (in_world f s)"
  unfolding in_world_def by (rule funds_inv_put)

lemma funds_inv_steps:
  assumes "funds_inv cap s"
  shows "funds_inv cap (set_order_state i st now s)" "funds_inv cap (set_stage index sst now s)"
    "funds_inv cap (report d c now s)"
    "funds_inv cap (s\<lparr>el_world := snd (route_order e now (el_world s))\<rparr>)"
    "funds_inv cap (in_world (\<lambda>w. snd (on_pool (orders_shm_sync_order index r now) w)) s)"
    "funds_inv cap (in_world (\<lambda>w. snd (on_book (update_trade i vol px val fee now) now w)) s)"
    "funds_inv cap (in_world (\<lambda>w. snd (on_book (archive_order i) now w)) s)"
  using assms
  by (auto intro!: funds_inv_in_world funds_inv_put funds.keeps_state funds.keeps_stage funds.keeps_error
      funds.keeps_route_order funds.keeps_pool_sync funds.keeps_trade funds.keeps_archive)

lemma positions_kept:
  "el_positions (start_managed_order index i now engine s) = el_positions s"
  "el_positions (snd (risk_stage index req now s)) = el_positions s"
  by (auto simp: start_managed_order_def risk_stage_def Let_def case_prod_beta split: option.splits)

lemma funds_inv_route:
  assumes "funds_inv cap s"
  shows "funds_inv cap (route_accepted_order index i now s)"
  using funds_inv_reserve [OF assms, of i now]
  by (auto simp: route_accepted_order_def Let_def case_prod_beta
      intro!: funds_inv_steps funds_inv_release split: option.splits)

lemma funds_inv_admit:
  assumes "funds_inv cap s"
  shows "funds_inv cap (admit_order index req now s)"
proof -
  let ?s1 = "s\<lparr>el_world := snd (on_book (add_order (entry_for index req now) now) now (el_world s))\<rparr>"
  have s1: "funds_inv cap ?s1"
    using assms by (intro funds_inv_put funds.keeps_entry) (simp_all add: entry_for_def OrderEntry_default_def)
  let ?s2 = "set_order_state (internal_order_id req) RiskControllerPending now ?s1"
  have s2: "funds_inv cap ?s2" using s1 by (rule funds_inv_steps)
  let ?s3 = "snd (risk_stage index req now ?s2)"
  have s3: "funds_inv cap ?s3"
    using s2 by (rule funds_inv_world) (simp_all only: positions_kept funds.keeps_risk_stage)
  have m: "funds_inv cap (start_managed_order index i now engine ?s3)" for i engine
    using s3 by (rule funds_inv_world) (simp_all only: positions_kept funds.keeps_start_managed)
  show ?thesis
    using s1 s3 m funds_inv_route [OF s3]
    by (auto simp: admit_order_def Let_def case_prod_beta intro!: funds_inv_steps split: option.splits)
qed

lemma funds_inv_order:
  assumes "funds_inv cap s"
  shows "funds_inv cap (handle_order_request index req now s)"
proof -
  have "funds_inv cap (s\<lparr>el_world := snd (on_pool (orders_shm_sync_order index r now) (snd (allocate_internal_order_id (el_world s))))\<rparr>)" for r
    using assms by (intro funds_inv_put funds.keeps_pool_sync funds.keeps_alloc) auto
  note a = funds_inv_admit [OF this] funds_inv_admit [OF assms]
  show ?thesis
  proof (cases "complete_security_id req")
    case None
    then show ?thesis
      using assms by (simp add: handle_order_request_def Let_def funds_inv_steps)
  next
    case (Some r)
    then show ?thesis using a by (simp add: handle_order_request_def Let_def case_prod_beta)
  qed
qed

lemma funds_inv_trade_fund:
  assumes "funds_inv cap s" "covered_fill r s" "tr_volume_traded r > 0"
  shows "funds_inv cap (settle_trade_fund (tr_internal_order_id r) r now s)"
proof -
  have "funds_inv cap (snd (in_positions (apply_sell_trade_fund (tr_dvalue_traded r) (tr_dfee r) now) s))"
    using assms(1) by (simp add: funds_inv_def frozen_fund_trade)
  then show ?thesis
    using assms funds_inv_settle [OF assms(1), of "tr_internal_order_id r" "tr_dvalue_traded r" "tr_dfee r" now]
    by (auto simp: settle_trade_fund_def covered_fill_def Let_def case_prod_beta intro!: funds_inv_steps)
qed

lemma funds_inv_row:
  assumes "funds_inv cap s"
  shows "funds_inv cap (create_missing_row sid r now s)" "funds_inv cap (settle_trade_position sid t now s)"
proof -
  have "funds_inv cap (s\<lparr>el_positions := snd (add_security code name mkt now (el_positions s))\<rparr>)" for code name mkt
    using assms by (simp add: funds_inv_def frozen_fund_add_security)
  then show "funds_inv cap (create_missing_row sid r now s)"
    using assms by (auto simp: create_missing_row_def Let_def case_prod_beta intro!: funds_inv_steps)
  have "funds_inv cap (snd (in_positions (add_position sid v p now) s))"
    "funds_inv cap (snd (in_positions (deduct_position sid v p now) s))" for v p
    using assms by (simp_all add: funds_inv_def frozen_fund_position)
  then show "funds_inv cap (settle_trade_position sid t now s)"
    using assms by (auto simp: settle_trade_position_def Let_def case_prod_beta intro!: funds_inv_steps)
qed

lemma funds_inv_apply_trade:
  assumes "funds_inv cap s" "covered_fill r s" "tr_volume_traded r > 0"
  shows "funds_inv cap (apply_trade r now s)"
proof -
  let ?s = "in_world (\<lambda>w. snd (on_book (update_trade (tr_internal_order_id r) (tr_volume_traded r)
                (tr_dprice_traded r) (tr_dvalue_traded r) (tr_dfee r) now) now w)) s"
  have s: "funds_inv cap ?s" using assms(1) by (rule funds_inv_steps)
  have "covered_fill r ?s"
    using assms(2) by (simp add: covered_fill_def frame_simps frozen_update_trade)
  note f = funds_inv_trade_fund [OF s this assms(3), of now]
  show ?thesis
    by (simp add: apply_trade_def Let_def s f funds_inv_row split: option.split)
qed

lemma funds_inv_response:
  assumes "funds_inv cap s" "covered_fill r s"
  shows "funds_inv cap (handle_trade_response r now s)"
proof -
  let ?s1 = "s\<lparr>el_engine := map_option (\<lambda>engine. engine_on_trade_response r engine (el_world s)) (el_engine s)\<rparr>"
  let ?s2 = "set_order_state (tr_internal_order_id r) (tr_new_state r) now ?s1"
  have s2: "funds_inv cap ?s2" using assms(1) by (intro funds_inv_steps) simp
  have "covered_fill r ?s2" using assms(2) by (simp add: covered_fill_def frame_simps frozen_update_state)
  note s3 = funds_inv_apply_trade [OF s2 this]
  have rel: "funds_inv cap x \<Longrightarrow> funds_inv cap (release_after_response i now x)" for x i
    by (auto simp: release_after_response_def Let_def intro!: funds_inv_release split: option.splits)
  have arch: "funds_inv cap x \<Longrightarrow> funds_inv cap (schedule_archive i st now x)" for x i st
    by (auto simp: schedule_archive_def Let_def intro!: funds_inv_steps)
  show ?thesis
    using assms(1) by (simp add: handle_trade_response_def Let_def rel arch s2 s3 word_gt_0)
qed

section \<open>Runs of the loop\<close>

inductive loop_step :: "EventLoop \<Rightarrow> EventLoop \<Rightarrow> bool" where
  order: "loop_step s (handle_order_request index req now s)"
| response: "covered_fill r s \<Longrightarrow> loop_step s (handle_trade_response r now s)"
| engine: "el_engine s = Some eng \<Longrightarrow> engine_tick nv now eng (el_world s) = (eng', w) \<Longrightarrow>
    loop_step s (s\<lparr>el_engine := Some eng', el_world := w\<rparr>)"
| archive: "loop_step s (archive_due now i s)"

lemma funds_inv_step: "loop_step s s' \<Longrightarrow> funds_inv cap s \<Longrightarrow> funds_inv cap s'"
proof (induction rule: loop_step.induct)
  case (order s index req now)
  then show ?case by (rule funds_inv_order)
next
  case (response r s now)
  then show ?case by (rule funds_inv_response [rotated])
next
  case (engine s eng nv now eng' w)
  then have "w = snd (engine_tick nv now eng (el_world s))" by simp
  then show ?case
    using funds_inv_put [OF engine.prems, of w] funds.keeps_engine_tick by (simp add: funds_inv_def)
next
  case (archive s now i)
  then show ?case by (auto simp: archive_due_def Let_def intro!: funds_inv_steps split: option.splits)
qed

lemma funds_inv_reach: "loop_step\<^sup>*\<^sup>* s s' \<Longrightarrow> funds_inv cap s \<Longrightarrow> funds_inv cap s'"
  by (induction rule: rtranclp_induct) (auto intro: funds_inv_step)

lemma reserved_new: "reserved (OrderBook_new cap) = 0"
  by (simp add: reserved_def frozen_of_def find_order_def OrderBook_new_def)

text \<open>
  C1: money set aside is there.  However orders, trade responses, engine ticks and archivings
  interleave from a start with an empty book, the frozen part of the fund is at least the sum
  of what the live orders have reserved, so it covers each single reservation: what an order
  has set aside is not spent elsewhere.  The one condition is on the fills: each costs no more
  than what its own order still holds (or the order holds nothing, and the fill is paid from
  the available fund).
\<close>

theorem reservations_covered:
  assumes "loop_step\<^sup>*\<^sup>* (event_loop_new config w trades pm risk account engine) s"
    and "w_book w = OrderBook_new cap"
  shows "reserved (w_book (el_world s)) \<le> unat (fi_frozen (get_fund_info (el_positions s)))
    \<and> (\<forall>i e. the_entry i s = Some e \<longrightarrow> unat (fund_frozen e) \<le> unat (fi_frozen (get_fund_info (el_positions s))))"
proof -
  have "funds_inv cap (event_loop_new config w trades pm risk account engine)"
    using assms(2) by (simp add: funds_inv_def event_loop_new_def book_ok_new reserved_new)
  with assms(1) have i: "funds_inv cap s" by (rule funds_inv_reach)
  have "unat (fund_frozen e) \<le> reserved (w_book (el_world s))" if "the_entry i s = Some e" for i e
    using frozen_of_reserved [of "w_book (el_world s)" i] that by (simp add: frozen_of_def the_entry_def)
  with i show ?thesis unfolding funds_inv_def frozen_fund_def by (meson order_trans)
qed

definition loop_config_example :: EventLoopConfig where
  "loop_config_example = \<lparr>busy_polling = True, poll_batch_size = 64, idle_sleep_us = 0,
     stats_interval_ms = 1000, archive_terminal_orders = True, terminal_archive_delay_ms = 0\<rparr>"

definition buy_example :: OrderRequest where
  "buy_example = (order_buy 50 2)\<lparr>internal_order_id := 7, dfee_estimate := 7\<rparr>"

definition loop_example :: EventLoop where
  "loop_example = event_loop_new loop_config_example
     (snd (create_internal_order_slot buy_example UpstreamDequeued AccountInternal 5 (world_new 4 16)))
     None (pm_example 1000) (RiskManager_new config_example) None None"

definition fill_example :: "DValue \<Rightarrow> TradeResponse" where
  "fill_example amount = TradeResponse_zero\<lparr>tr_internal_order_id := 7, tr_trade_side := Buy,
     tr_new_state := MarketAccepted, tr_volume_traded := 20, tr_dvalue_traded := amount, tr_dfee := 3\<rparr>"

lemma reservations_covered_witness:
  "\<exists>s. loop_step\<^sup>*\<^sup>* loop_example s \<and> frozen_of (w_book (el_world s)) 7 = 64
     \<and> unat (fi_frozen (get_fund_info (el_positions s))) = 64
     \<and> reserved (w_book (el_world s)) \<le> 64"
proof -
  define s1 where "s1 = handle_order_request 0 buy_example 5 loop_example"
  define s2 where "s2 = handle_trade_response (fill_example 40) 6 s1"
  have "(let s1 = handle_order_request 0 buy_example 5 loop_example;
      s2 = handle_trade_response (fill_example 40) 6 s1
    in (covered_fill (fill_example 40) s1, frozen_of (w_book (el_world s2)) 7,
        fi_frozen (get_fund_info (el_positions s2)))) = (True, 64, 64)" by code_simp
  then have e: "covered_fill (fill_example 40) s1" "frozen_of (w_book (el_world s2)) 7 = 64"
    "fi_frozen (get_fund_info (el_positions s2)) = 64"
    unfolding s1_def [symmetric] s2_def [symmetric] Let_def by simp_all
  from e(1) have "loop_step s1 s2" unfolding s2_def by (rule loop_step.response)
  moreover have "loop_step loop_example s1" unfolding s1_def by (rule loop_step.order)
  ultimately have r: "loop_step\<^sup>*\<^sup>* loop_example s2" by (meson rtranclp.simps)
  have w: "w_book (snd (create_internal_order_slot buy_example UpstreamDequeued AccountInternal 5 (world_new 4 16)))
      = OrderBook_new 4" by (simp add: create_slot_book world_new_def)
  from reservations_covered [OF r [unfolded loop_example_def] w] r e(2,3) show ?thesis
    by (intro exI [of _ s2]) simp
qed

end
