(* ===== verification/Order_Funds.thy ===== *)
theory Order_Funds
  imports Reservations
begin

text \<open>
  The money of one buy order, from the reservation through its fills to the release, and what
  happens to the reservations of others when a fill costs more than its order has reserved.
\<close>

section \<open>One order from reservation to release\<close>

fun settle_fills :: "InternalOrderId \<Rightarrow> (DValue \<times> DValue) list \<Rightarrow> TimestampNs \<Rightarrow> EventLoop \<Rightarrow> EventLoop" where
  "settle_fills i [] now s = s"
| "settle_fills i ((amount, fee) # fills) now s =
     settle_fills i fills now (snd (settle_buy_trade_fund i amount fee now s))"

definition fills_cost :: "(DValue \<times> DValue) list \<Rightarrow> nat" where
  "fills_cost fills = sum_list (map (\<lambda>(amount, fee). unat amount + unat fee) fills)"

definition fills_amount :: "(DValue \<times> DValue) list \<Rightarrow> nat" where
  "fills_amount fills = sum_list (map (\<lambda>(amount, fee). unat amount) fills)"

definition fills_fee :: "(DValue \<times> DValue) list \<Rightarrow> nat" where
  "fills_fee fills = sum_list (map (\<lambda>(amount, fee). unat fee) fills)"

text \<open>What the state of an order and of the fund is while the order is worked off.\<close>

definition order_funds :: "InternalOrderId \<Rightarrow> OrderRequest \<Rightarrow> nat \<Rightarrow> ledger \<Rightarrow> EventLoop \<Rightarrow> bool" where
  "order_funds i r held l s \<longleftrightarrow> (\<exists>e. the_entry i s = Some e \<and> request e = r \<and> unat (fund_frozen e) = held)
     \<and> pm_shm (el_positions s) \<noteq> None \<and> fund_ledger (el_positions s) = l"

lemma order_funds_write:
  assumes "order_funds i r held l s" "el_world s' = el_world s" "pm_shm (el_positions s') \<noteq> None"
    "fund_ledger (el_positions s') = l'" "\<And>e. the_entry i s = Some e \<Longrightarrow> unat (v e) = held'"
  shows "order_funds i r held' l' (write_entry i (\<lambda>e. e\<lparr>fund_frozen := v e\<rparr>) s')"
  using assms by (auto simp: order_funds_def the_entry_def find_modify_order)

lemma fund_op_ledger:
  assumes "pm_shm pm \<noteq> None" "ledger_op op (fund_ledger pm) = Some l"
  shows "fst (apply_fund_op op now pm)" "fund_ledger (snd (apply_fund_op op now pm)) = l"
    "pm_shm (snd (apply_fund_op op now pm)) \<noteq> None"
proof -
  obtain shm where shm: "pm_shm pm = Some shm" using assms(1) by blast
  show "fst (apply_fund_op op now pm)" "fund_ledger (snd (apply_fund_op op now pm)) = l"
    using ledger_op_sound [OF shm, of op now] assms(2) by simp_all
  show "pm_shm (snd (apply_fund_op op now pm)) \<noteq> None"
    using fund_op_shm [OF shm, of op now] by auto
qed

lemma reserve_exact:
  assumes "order_funds i r held (T, A, F, M) s" "order_type r = New" "trade_side r = Buy"
    and "c = unat (volume_entrust r) * unat (dprice_entrust r) + unat (dfee_estimate r)"
    and "c \<le> A" "fits (F + c)"
  shows "fst (reserve_order_resources i now s)
     \<and> order_funds i r c (T, A - c, F + c, M) (snd (reserve_order_resources i now s))"
proof -
  obtain e where e: "the_entry i s = Some e" "request e = r" using assms(1) by (auto simp: order_funds_def)
  have f: "fits (unat (volume_entrust r) * unat (dprice_entrust r) + unat (dfee_estimate r))"
    using assms(4,6) by (simp add: fits_def)
  let ?v = "ucast (volume_entrust r) * ucast (dprice_entrust r) :: u128"
  have vn: "unat ?v < 2 ^ 64" using f by (simp add: unat_u64_product fits_def)
  then have v: "try_calculate_trade_value (volume_entrust r) (dprice_entrust r) = Some (ucast ?v)"
    by (simp add: try_calculate_trade_value_def Let_def word_less_nat_alt unat_minus_one_u64)
  have uv: "unat (ucast ?v :: u64) = unat (volume_entrust r) * unat (dprice_entrust r)"
    using vn by (simp add: unsigned_ucast_eq take_bit_nat_eq_self unat_u64_product)
  let ?t = "ucast (ucast ?v :: u64) + ucast (dfee_estimate r) :: u128"
  have tn: "unat ?t = c"
  proof -
    have "unat (ucast ?v :: u64) + unat (dfee_estimate r) < 2 ^ 64" using f by (simp only: uv fits_def)
    then have "unat ?t = unat (ucast ?v :: u64) + unat (dfee_estimate r)" by (simp add: unat_word_ariths)
    then show ?thesis using assms(4) by (simp only: uv)
  qed
  have c: "c < 2 ^ 64" using f assms(4) by (simp add: fits_def)
  have t: "try_total_with_fee (ucast ?v) (dfee_estimate r) = Some (ucast ?t)"
    using tn c by (simp add: try_total_with_fee_def Let_def word_less_nat_alt unat_minus_one_u64)
  have ut: "unat (ucast ?t :: u64) = c" using tn c by (simp add: unsigned_ucast_eq take_bit_nat_eq_self)
  have "ledger_op (FreezeFund (ucast ?t)) (fund_ledger (el_positions s)) = Some (T, A - c, F + c, M)"
    using assms(1,5,6) ut by (simp add: order_funds_def)
  note l = fund_op_ledger [OF _ this, of now, simplified]
  have pm: "pm_shm (el_positions s) \<noteq> None" using assms(1) by (simp add: order_funds_def)
  have "order_funds i r c (T, A - c, F + c, M)
     (write_entry i (\<lambda>e. e\<lparr>fund_frozen := (\<lambda>_. ucast ?t) e\<rparr>) (snd (in_positions (freeze_fund (ucast ?t) now) s)))"
    by (rule order_funds_write [OF assms(1)]) (use l pm ut in simp_all)
  with e v t l pm assms(2,3) show ?thesis
    by (simp add: reserve_order_resources_def Let_def case_prod_beta)
qed

lemma try_total_with_fee_fits:
  assumes "fits (unat amount + unat fee)"
  obtains t where "try_total_with_fee amount fee = Some t" "unat t = unat amount + unat fee"
proof -
  let ?t = "ucast amount + ucast fee :: u128"
  have "unat ?t = unat amount + unat fee" using assms by (simp add: unat_word_ariths fits_def)
  then have "\<not> ?t > ucast (- 1 :: u64)"
    using assms by (simp add: word_less_nat_alt unat_minus_one_u64 fits_def)
  then have "try_total_with_fee amount fee = Some (ucast ?t)"
    by (simp add: try_total_with_fee_def Let_def)
  with try_total_with_fee_Some [OF this] show thesis by (intro that)
qed

lemma settle_held:
  assumes "order_funds i r held (T, A, F, M) s" "held \<noteq> 0"
    and "unat amount + unat fee \<le> F" "fits (M + unat amount)" "fits F"
  shows "fst (settle_buy_trade_fund i amount fee now s)
     \<and> order_funds i r (held - (unat amount + unat fee))
         (T - unat fee, A, F - (unat amount + unat fee), M + unat amount)
         (snd (settle_buy_trade_fund i amount fee now s))"
proof -
  obtain e where e: "the_entry i s = Some e" "unat (fund_frozen e) = held"
    using assms(1) by (auto simp: order_funds_def)
  then have nz: "fund_frozen e \<noteq> 0" using assms(2) by auto
  have fit: "fits (unat amount + unat fee)" using assms(3,5) by (simp add: fits_def)
  then obtain t where t: "try_total_with_fee amount fee = Some t" "unat t = unat amount + unat fee"
    by (rule try_total_with_fee_fits)
  have "ledger_op (DeductFund amount fee) (fund_ledger (el_positions s))
      = Some (T - unat fee, A, F - (unat amount + unat fee), M + unat amount)"
    using assms(1,3,4) fit by (simp add: order_funds_def)
  note l = fund_op_ledger [OF _ this, of now, simplified]
  have pm: "pm_shm (el_positions s) \<noteq> None" using assms(1) by (simp add: order_funds_def)
  let ?v = "\<lambda>e. if fund_frozen e \<ge> t then fund_frozen e - t else 0"
  have v: "unat (?v e) = held - (unat amount + unat fee)"
    using e(2) t(2) by (auto simp: word_le_nat_alt unat_sub)
  have "order_funds i r (held - (unat amount + unat fee))
         (T - unat fee, A, F - (unat amount + unat fee), M + unat amount)
         (write_entry i (\<lambda>e. e\<lparr>fund_frozen := ?v e\<rparr>) (snd (in_positions (deduct_fund amount fee now) s)))"
    by (rule order_funds_write [OF assms(1)]) (use l pm v e(1) in simp_all)
  with e nz t l pm show ?thesis
    by (simp add: settle_buy_trade_fund_def Let_def case_prod_beta)
qed

lemma settle_exact:
  assumes "order_funds i r held (T, A, F, M) s" "unat amount + unat fee \<le> held" "held \<le> F"
    and "fits (M + unat amount)" "fits F"
  shows "fst (settle_buy_trade_fund i amount fee now s)
     \<and> order_funds i r (held - (unat amount + unat fee))
         (T - unat fee, A, F - (unat amount + unat fee), M + unat amount)
         (snd (settle_buy_trade_fund i amount fee now s))"
proof (cases "held = 0")
  case True
  obtain e where e: "the_entry i s = Some e" "fund_frozen e = 0"
    using assms(1) True by (auto simp: order_funds_def unat_eq_0)
  have z: "amount = 0" "fee = 0" using assms(2) True by (simp_all add: unat_eq_0)
  have "fits M" using assms(4) z by simp
  then have "ledger_op (BuyTradeFund 0 0) (fund_ledger (el_positions s)) = Some (T, A, F, M)"
    using assms(1) by (simp add: order_funds_def fits_def)
  note l = fund_op_ledger [OF _ this, of now, simplified]
  have pm: "pm_shm (el_positions s) \<noteq> None" using assms(1) by (simp add: order_funds_def)
  show ?thesis
    using assms(1) True e z l pm
    by (auto simp: settle_buy_trade_fund_def order_funds_def the_entry_def)
next
  case False
  have "unat amount + unat fee \<le> F" using assms(2,3) by simp
  then show ?thesis by (rule settle_held [OF assms(1) False _ assms(4,5)])
qed

lemma settle_fills_exact:
  assumes "order_funds i r held (T, A, F, M) s" "fills_cost fills \<le> held" "held \<le> F"
    and "fits (M + fills_amount fills)" "fits F"
  shows "order_funds i r (held - fills_cost fills)
      (T - fills_fee fills, A, F - fills_cost fills, M + fills_amount fills) (settle_fills i fills now s)"
  using assms
proof (induction fills arbitrary: held T F M s)
  case (Cons x fills)
  obtain a f where x: "x = (a, f)" by (cases x)
  have c: "fills_cost (x # fills) = unat a + unat f + fills_cost fills"
    "fills_amount (x # fills) = unat a + fills_amount fills" "fills_fee (x # fills) = unat f + fills_fee fills"
    by (simp_all add: x fills_cost_def fills_amount_def fills_fee_def)
  have "unat a + unat f \<le> held" "fits (M + unat a)" using Cons.prems(2,4) c by (auto simp: fits_def)
  from settle_exact [OF Cons.prems(1) this(1) Cons.prems(3) this(2) Cons.prems(5), of now]
  have s: "order_funds i r (held - (unat a + unat f)) (T - unat f, A, F - (unat a + unat f), M + unat a)
      (snd (settle_buy_trade_fund i a f now s))" ..
  have "fills_cost fills \<le> held - (unat a + unat f)" "held - (unat a + unat f) \<le> F - (unat a + unat f)"
    "fits (M + unat a + fills_amount fills)" "fits (F - (unat a + unat f))"
    using Cons.prems(2-5) c by (auto simp: fits_def)
  from Cons.IH [OF s this] show ?case by (simp add: x c [unfolded x] add.assoc)
qed (simp add: fills_cost_def fills_amount_def fills_fee_def)

lemma release_exact:
  assumes "order_funds i r held (T, A, F, M) s" "order_type r = New" "trade_side r = Buy"
    and "held \<le> F" "fits (A + held)"
  shows "order_funds i r 0 (T, A + held, F - held, M) (release_order_resources i now s)"
proof -
  obtain e where e: "the_entry i s = Some e" "request e = r" "unat (fund_frozen e) = held"
    using assms(1) by (auto simp: order_funds_def)
  show ?thesis
  proof (cases "fund_frozen e = 0")
    case True
    with assms e show ?thesis by (auto simp: release_order_resources_def order_funds_def)
  next
    case False
    have "ledger_op (UnfreezeFund (fund_frozen e)) (fund_ledger (el_positions s)) = Some (T, A + held, F - held, M)"
      using assms(1,4,5) e(3) by (simp add: order_funds_def)
    note l = fund_op_ledger [OF _ this, of now, simplified]
    have pm: "pm_shm (el_positions s) \<noteq> None" using assms(1) by (simp add: order_funds_def)
    have "order_funds i r 0 (T, A + held, F - held, M)
       (write_entry i (\<lambda>e. e\<lparr>fund_frozen := (\<lambda>_. 0) e\<rparr>) (snd (in_positions (unfreeze_fund (fund_frozen e) now) s)))"
      by (rule order_funds_write [OF assms(1)]) (use l pm in simp_all)
    with e False l pm assms(2,3) show ?thesis
      by (simp add: release_order_resources_def Let_def case_prod_beta)
  qed
qed

text \<open>
  C2: the money of a buy order, start to end.  An order of cost \<open>c\<close> (volume times price, plus
  the estimated fee) that finds \<open>c\<close> available sets exactly \<open>c\<close> aside; after fills that
  together cost no more than \<open>c\<close>, and the release at its end, the available fund has dropped
  by exactly what the fills cost, the market value has grown by their amounts, the total has
  lost the fees, the frozen part is what it was before the order, and the order holds nothing.
\<close>

theorem buy_order_money:
  assumes "order_funds i r 0 (T, A, F, M) s" "order_type r = New" "trade_side r = Buy"
    and "c = unat (volume_entrust r) * unat (dprice_entrust r) + unat (dfee_estimate r)"
    and "c \<le> A" "fits A" "fits (F + c)" "fills_cost fills \<le> c" "fits (M + fills_amount fills)"
    and "reserve_order_resources i now s = (ok, s1)"
  shows "ok \<and> order_funds i r 0 (T - fills_fee fills, A - fills_cost fills, F, M + fills_amount fills)
      (release_order_resources i now' (settle_fills i fills now s1))"
proof -
  from reserve_exact [OF assms(1-5,7), of now] assms(10)
  have ok: ok and s1: "order_funds i r c (T, A - c, F + c, M) s1" by simp_all
  have "order_funds i r (c - fills_cost fills)
      (T - fills_fee fills, A - c, F + c - fills_cost fills, M + fills_amount fills) (settle_fills i fills now s1)"
    by (rule settle_fills_exact [OF s1 assms(8) _ assms(9,7)]) simp
  moreover have "c - fills_cost fills \<le> F + c - fills_cost fills" "fits (A - c + (c - fills_cost fills))"
    using assms(5,6) by (auto simp: fits_def)
  ultimately have "order_funds i r 0 (T - fills_fee fills, A - c + (c - fills_cost fills),
      F + c - fills_cost fills - (c - fills_cost fills), M + fills_amount fills)
      (release_order_resources i now' (settle_fills i fills now s1))"
    using release_exact assms(2,3) by blast
  moreover have "A - c + (c - fills_cost fills) = A - fills_cost fills"
    "F + c - fills_cost fills - (c - fills_cost fills) = F" using assms(5,8) by simp_all
  ultimately show ?thesis using ok by simp
qed

text \<open>An event loop whose book holds two buy orders of cost 107 each, of a fund of 1000.\<close>

definition two_orders_example :: EventLoop where
  "two_orders_example =
     (let add = (\<lambda>r w. snd (on_book (add_order (entry_for 0 r 5) 5) 5 w))
      in loop_example\<lparr>el_world := add (buy_example\<lparr>internal_order_id := 8\<rparr>) (add buy_example (el_world loop_example))\<rparr>)"

lemma two_orders_example_facts:
  "map_option (\<lambda>e. (fund_frozen e, order_type (request e), trade_side (request e),
      volume_entrust (request e), dprice_entrust (request e), dfee_estimate (request e))) (the_entry 7 two_orders_example)
    = Some (0, New, Buy, 50, 2, 7)"
  "fund_ledger (el_positions two_orders_example) = (1000, 1000, 0, 0)"
  "pm_shm (el_positions two_orders_example) \<noteq> None"
  by code_simp+

lemma buy_order_money_witness:
  "\<exists>r s1. reserve_order_resources 7 6 two_orders_example = (True, s1)
     \<and> order_funds 7 r 0 (993, 893, 0, 100)
         (release_order_resources 7 8 (settle_fills 7 [(40, 3), (60, 4)] 6 s1))"
proof -
  obtain e where e: "the_entry 7 two_orders_example = Some e" "fund_frozen e = 0"
    "order_type (request e) = New" "trade_side (request e) = Buy" "volume_entrust (request e) = 50"
    "dprice_entrust (request e) = 2" "dfee_estimate (request e) = 7"
    using two_orders_example_facts(1) by (cases "the_entry 7 two_orders_example") auto
  obtain ok s1 where r: "reserve_order_resources 7 6 two_orders_example = (ok, s1)"
    by (cases "reserve_order_resources 7 6 two_orders_example")
  have o: "order_funds 7 (request e) 0 (1000, 1000, 0, 0) two_orders_example"
    using e two_orders_example_facts by (simp add: order_funds_def)
  have "ok \<and> order_funds 7 (request e) 0 (1000 - fills_fee [(40, 3), (60, 4)], 1000 - fills_cost [(40, 3), (60, 4)], 0,
      0 + fills_amount [(40, 3), (60, 4)])
      (release_order_resources 7 8 (settle_fills 7 [(40, 3), (60, 4)] 6 s1))"
    by (rule buy_order_money [OF o e(3,4) _ _ _ _ _ _ r, where c = 107])
      (simp_all add: e fits_def fills_cost_def fills_amount_def)
  with r show ?thesis
    by (intro exI [of _ "request e"] exI [of _ s1]) (simp add: fills_cost_def fills_fee_def fills_amount_def)
qed

section \<open>A fill beyond the reservation\<close>

text \<open>
  A fill that costs more than its order has reserved is paid from what other orders have
  reserved.  The settlement checks the whole frozen fund only, so it succeeds; when the frozen
  fund held just the two orders' reservations, the other order is left with a reservation that
  is no longer there, and its release at the end of its life fails: nothing is released and
  the entry keeps its claim.
\<close>

theorem overfill_strands_other:
  assumes "order_funds i r held (T, A, F, M) s" "order_funds j r' held' (T, A, F, M) s" "i \<noteq> j"
    and "book_ok cap (w_book (el_world s))" "order_type r' = New" "trade_side r' = Buy"
    and "held \<noteq> 0" "F = held + held'" "fits F" "fits (M + unat amount)"
    and "held < unat amount + unat fee" "unat amount + unat fee \<le> F"
    and "settle_buy_trade_fund i amount fee now s = (ok, s')"
  shows "ok \<and> unat (fi_frozen (get_fund_info (el_positions s'))) < held'
    \<and> order_funds j r' held' (fund_ledger (el_positions s')) s'
    \<and> release_order_resources j now' s' = s'"
proof -
  from settle_held [OF assms(1,7,12,10,9), of now] assms(13)
  have ok: ok and s': "order_funds i r (held - (unat amount + unat fee))
         (T - unat fee, A, F - (unat amount + unat fee), M + unat amount) s'" by simp_all
  have l: "fund_ledger (el_positions s') = (T - unat fee, A, F - (unat amount + unat fee), M + unat amount)"
    and pm: "pm_shm (el_positions s') \<noteq> None" using s' by (simp_all add: order_funds_def)
  have fr: "unat (fi_frozen (get_fund_info (el_positions s'))) = F - (unat amount + unat fee)"
    using l by (simp add: fund_ledger_def Let_def)
  obtain e where e: "the_entry j s = Some e" "request e = r'" "unat (fund_frozen e) = held'"
    using assms(2) by (auto simp: order_funds_def)
  have w: "\<exists>v. w_book (el_world s') = modify_order i (\<lambda>e. e\<lparr>fund_frozen := v e\<rparr>) (w_book (el_world s))
      \<or> w_book (el_world s') = w_book (el_world s)"
    using assms(13) by (auto simp: settle_buy_trade_fund_def Let_def in_positions_def write_entry_def in_world_def
        split: option.splits if_splits prod.splits)
  have j: "the_entry j s' = Some e"
    using w e(1) find_modify_other [OF book_ok_slot_inj [OF assms(4)], of j i] assms(3)
    by (auto simp: the_entry_def)
  have less: "F - (unat amount + unat fee) < held'" using assms(8,11,12) by simp
  have "ledger_op (UnfreezeFund (fund_frozen e)) (fund_ledger (el_positions s')) = None"
    using l e(3) less by simp
  then have "\<not> fst (unfreeze_fund (fund_frozen e) now' (el_positions s'))"
    using ledger_op_sound(1) [of "el_positions s'" _ "UnfreezeFund (fund_frozen e)" now'] pm by auto
  then have "snd (in_positions (unfreeze_fund (fund_frozen e) now') s') = s'"
    "\<not> fst (in_positions (unfreeze_fund (fund_frozen e) now') s')"
    by (simp_all add: in_positions_def case_prod_beta frozen_fund_refused)
  then have "release_order_resources j now' s' = s'"
    using j by (simp add: release_order_resources_def Let_def case_prod_beta)
  moreover have "order_funds j r' held' (fund_ledger (el_positions s')) s'"
    using j e pm by (simp add: order_funds_def)
  ultimately show ?thesis using ok fr less by simp
qed

definition both_reserved_example :: EventLoop where
  "both_reserved_example =
     snd (reserve_order_resources 8 6 (snd (reserve_order_resources 7 6 two_orders_example)))"

lemma both_reserved_example_facts:
  "(let s = both_reserved_example in
     (map_option fund_frozen (the_entry 7 s),
      map_option (\<lambda>e. (fund_frozen e, order_type (request e), trade_side (request e))) (the_entry 8 s),
      fund_ledger (el_positions s), pm_shm (el_positions s) \<noteq> None))
   = (Some 107, Some (107, New, Buy), (1000, 786, 214, 0), True)"
  by code_simp

lemma loop_example_book: "w_book (el_world loop_example) = OrderBook_new 4"
  by (simp add: loop_example_def event_loop_new_def create_slot_book world_new_def)

lemma two_orders_example_book: "funds_keep 4 (\<lambda>_. 0) (el_world two_orders_example)"
proof -
  have add: "funds_keep 4 F (snd (on_book (add_order (entry_for 0 r 5) 5) 5 w))" if "funds_keep 4 F w" for F r w
    using that by (intro funds.keeps_entry) (simp_all add: entry_for_def OrderEntry_default_def)
  have "funds_keep 4 (\<lambda>_. 0) (el_world loop_example)"
    by (simp add: funds_keep_def loop_example_book book_ok_new frozen_of_def find_order_def)
      (simp add: OrderBook_new_def)
  then show ?thesis using add by (simp add: two_orders_example_def)
qed

lemma both_reserved_example_book: "book_ok 4 (w_book (el_world both_reserved_example))"
proof -
  have "funds_inv 4 two_orders_example"
    using two_orders_example_book by (simp add: funds_keep_def funds_inv_def reserved_def)
  then have "funds_inv 4 both_reserved_example"
    unfolding both_reserved_example_def by (intro funds_inv_reserve)
  then show ?thesis by (simp add: funds_inv_def)
qed

lemma overfill_strands_other_witness:
  "\<exists>s'. settle_buy_trade_fund 7 150 3 9 both_reserved_example = (True, s')
     \<and> unat (fi_frozen (get_fund_info (el_positions s'))) < 107
     \<and> release_order_resources 8 10 s' = s'"
proof -
  let ?s = both_reserved_example
  obtain e1 e2 where e: "the_entry 7 ?s = Some e1" "fund_frozen e1 = 107" "the_entry 8 ?s = Some e2"
    "fund_frozen e2 = 107" "order_type (request e2) = New" "trade_side (request e2) = Buy"
    "fund_ledger (el_positions ?s) = (1000, 786, 214, 0)" "pm_shm (el_positions ?s) \<noteq> None"
    using both_reserved_example_facts unfolding Let_def by auto
  obtain ok s' where r: "settle_buy_trade_fund 7 150 3 9 ?s = (ok, s')"
    by (cases "settle_buy_trade_fund 7 150 3 9 ?s")
  have o1: "order_funds 7 (request e1) 107 (1000, 786, 214, 0) ?s"
    and o2: "order_funds 8 (request e2) 107 (1000, 786, 214, 0) ?s"
    using e by (simp_all add: order_funds_def)
  have "ok \<and> unat (fi_frozen (get_fund_info (el_positions s'))) < 107
    \<and> order_funds 8 (request e2) 107 (fund_ledger (el_positions s')) s'
    \<and> release_order_resources 8 10 s' = s'"
    by (rule overfill_strands_other [OF o1 o2 _ both_reserved_example_book e(5,6) _ _ _ _ _ _ r])
      (simp_all add: fits_def)
  with r show ?thesis by (intro exI [of _ s']) simp
qed

end
