(* ===== verification/Event_Loop_Facts.thy ===== *)
theory Event_Loop_Facts
  imports Order_Funds
begin

text \<open>
  What the event loop as a whole does: the batch loops end and take the queue's items in
  order, a cancel of the user is never sent, a rejected order leaves no trace but its
  rejection, a fill without an order is dropped, and a fatal error ends the loop.
\<close>

section \<open>What no handler touches\<close>

definition queue_is :: "OrderIndex spsc_queue option \<Rightarrow> bool \<Rightarrow> world \<Rightarrow> bool" where
  "queue_is q pool w \<longleftrightarrow> map_option us_queue (w_upstream w) = q \<and> (w_orders w \<noteq> None) = pool"

lemma effects_orders: "(w_orders (fold (apply_effect now) fx w) = None) = (w_orders w = None)"
proof (induction fx arbitrary: w)
  case (Cons f fx)
  have "(w_orders (apply_effect now f w) = None) = (w_orders w = None)"
    by (cases f) (auto simp: on_order_book_changed_def Let_def case_prod_beta frame_simps)
  with Cons show ?case by simp
qed simp

lemma on_book_orders: "(w_orders (snd (on_book f now w)) = None) = (w_orders w = None)"
  by (simp add: on_book_def case_prod_beta effects_orders)

interpretation upstream: loop_invariant_all "queue_is q pool" "\<lambda>_. True" for q pool
proof
  show "queue_is q pool (snd (allocate_internal_order_id w))" if "queue_is q pool w" for w
    using that by (auto simp: queue_is_def allocate_internal_order_id_def Let_def case_prod_beta split: option.splits)
  show "queue_is q pool (snd (create_internal_order_slot r st src now w))" if "queue_is q pool w" for w r st src now
    using that by (auto simp: queue_is_def create_internal_order_slot_def case_prod_beta split: option.splits)
  show "queue_is q pool (snd (on_book (add_order e now) now w'))"
    if "queue_is q pool w" "create_internal_order_slot r st src now w = (Some i, w')" for w r st src now i w' e
    using that by (auto simp: queue_is_def create_internal_order_slot_def case_prod_beta frame_simps
        on_book_orders split: option.splits)
qed (auto simp: queue_is_def frame_simps on_book_orders)

definition stopping :: "world \<Rightarrow> bool" where
  "stopping w = should_stop_service (w_errors w)"

lemma stopping_error: "stopping w \<Longrightarrow> stopping (raise_error d c now w)"
  by (auto simp: stopping_def raise_error_def should_stop_service_def record_error_shutdown)

lemma stopping_same: "stopping w \<Longrightarrow> w_errors w' = w_errors w \<Longrightarrow> stopping w'"
  by (simp add: stopping_def)

lemma stopping_effects: "stopping w \<Longrightarrow> stopping (fold (apply_effect now) fx w)"
proof (induction fx arbitrary: w)
  case (Cons f fx)
  have p: "stopping (snd (on_pool g w))" for g
    using Cons.prems by (rule stopping_same) (simp add: frame_simps)
  have "stopping (apply_effect now f w)"
    using Cons.prems p by (cases f) (auto simp: on_order_book_changed_def Let_def case_prod_beta intro: stopping_error)
  with Cons.IH show ?case by simp
qed simp

lemma stopping_on_book: "stopping w \<Longrightarrow> stopping (snd (on_book f now w))"
  by (simp add: on_book_def case_prod_beta stopping_effects stopping_def [of "w\<lparr>w_book := b\<rparr>" for b] stopping_def [of w])

interpretation latch: loop_invariant_all stopping "\<lambda>_. True"
proof
  show "stopping (snd (on_book (add_order e now) now w'))"
    if "stopping w" "create_internal_order_slot r st src now w = (Some i, w')" for w r st src now i w' e
  proof (rule stopping_on_book)
    show "stopping w'"
      using that by (auto simp: stopping_def create_internal_order_slot_def case_prod_beta split: option.splits)
  qed
qed (auto simp: frame_simps create_internal_order_slot_def allocate_internal_order_id_def case_prod_beta Let_def
    intro: stopping_same stopping_error stopping_on_book split: option.splits)

section \<open>The batch loops\<close>

definition up_list :: "EventLoop \<Rightarrow> OrderIndex list \<Rightarrow> bool" where
  "up_list s L \<longleftrightarrow> (\<exists>up. w_upstream (el_world s) = Some up \<and> q_ok 18 (us_queue up)
     \<and> q_list 18 (us_queue up) = L) \<and> w_orders (el_world s) \<noteq> None"

lemma up_list_queue_is:
  assumes "up_list s L" "\<And>q pool. queue_is q pool (el_world s) \<Longrightarrow> queue_is q pool (el_world s')"
  shows "up_list s' L"
proof -
  obtain up where up: "w_upstream (el_world s) = Some up" "q_ok 18 (us_queue up)" "q_list 18 (us_queue up) = L"
    "w_orders (el_world s) \<noteq> None" using assms(1) by (auto simp: up_list_def)
  then have "queue_is (Some (us_queue up)) True (el_world s)" by (simp add: queue_is_def)
  then have "queue_is (Some (us_queue up)) True (el_world s')" by (rule assms(2))
  with up show ?thesis by (auto simp: queue_is_def up_list_def)
qed

lemma pop_upstream_list:
  assumes "up_list s L"
  shows "pop_upstream s = (case L of [] \<Rightarrow> (None, s) | x # xs \<Rightarrow> (Some x, snd (pop_upstream s)))"
    "up_list (snd (pop_upstream s)) (tl L)"
proof -
  obtain up where up: "w_upstream (el_world s) = Some up" "q_ok 18 (us_queue up)" "q_list 18 (us_queue up) = L"
    "w_orders (el_world s) \<noteq> None" using assms by (auto simp: up_list_def)
  obtain r q where p: "try_pop kQueueCapacity (us_queue up) = (r, q)" by (cases "try_pop kQueueCapacity (us_queue up)")
  note l = shm_queue.pop_law [OF up(2) p]
  have same: "in_world (\<lambda>w. w\<lparr>w_upstream := Some (up\<lparr>us_queue := us_queue up\<rparr>)\<rparr>) s = s"
    using up(1) by (simp add: in_world_def)
  show "pop_upstream s = (case L of [] \<Rightarrow> (None, s) | x # xs \<Rightarrow> (Some x, snd (pop_upstream s)))"
    using l up same by (cases L) (auto simp: pop_upstream_def p)
  show "up_list (snd (pop_upstream s)) (tl L)"
    using l up by (cases L) (auto simp: pop_upstream_def p up_list_def)
qed

lemma take_order_list: "up_list s L \<Longrightarrow> up_list (snd (take_order index now s)) L"
  by (rule up_list_queue_is [OF _ upstream.keeps_take_order])

lemma upstream_loop_list:
  assumes "up_list s L" "length L \<le> fuel" "upstream_loop fuel limit now s = (n, s')"
  shows "n \<le> limit \<and> upstream_loop (length L) limit now s = (n, s') \<and> (\<exists>k. n \<le> k \<and> k \<le> length L
      \<and> up_list s' (drop k L) \<and> (n = limit \<or> k = length L))"
  using assms
proof (induction L arbitrary: s fuel limit n)
  case Nil
  have "upstream_loop fuel limit now s = (0, s)"
    using pop_upstream_list [OF Nil(1)] by (cases fuel) auto
  with Nil show ?case by (auto intro: exI [of _ 0])
next
  case (Cons x xs)
  obtain fuel' where fuel: "fuel = Suc fuel'" "length xs \<le> fuel'" using Cons.prems(2) by (cases fuel) auto
  show ?case
  proof (cases "limit = 0")
    case True
    with Cons.prems fuel show ?thesis by (auto intro: exI [of _ 0])
  next
    case False
    obtain s1 where pop: "pop_upstream s = (Some x, s1)" "up_list s1 xs"
      using pop_upstream_list [OF Cons.prems(1)] by simp
    obtain t s2 where take: "take_order x now s1 = (t, s2)" by (cases "take_order x now s1")
    have s2: "up_list s2 xs" using take_order_list [OF pop(2), of x now] take by simp
    show ?thesis
    proof (cases t)
      case True
      obtain m where m: "upstream_loop fuel' (limit - 1) now s2 = (m, s')" "n = m + 1"
        using Cons.prems(3) False True pop take fuel(1) by (auto split: prod.splits)
      from Cons.IH [OF s2 fuel(2) m(1)] obtain k where k: "m \<le> limit - 1"
        "upstream_loop (length xs) (limit - 1) now s2 = (m, s')"
        "m \<le> k" "k \<le> length xs" "up_list s' (drop k xs)" "m = limit - 1 \<or> k = length xs" by blast
      with False True pop take m(2) show ?thesis by (auto intro!: exI [of _ "Suc k"])
    next
      case skip: False
      then have m: "upstream_loop fuel' limit now s2 = (n, s')"
        using Cons.prems(3) False pop take fuel(1) by simp
      from Cons.IH [OF s2 fuel(2) m] obtain k where k: "n \<le> limit"
        "upstream_loop (length xs) limit now s2 = (n, s')"
        "n \<le> k" "k \<le> length xs" "up_list s' (drop k xs)" "n = limit \<or> k = length xs" by blast
      with False skip pop take show ?thesis by (auto intro!: exI [of _ "Suc k"])
    qed
  qed
qed

text \<open>
  C6: a batch ends and takes orders in order of arrival.  From a well-formed upstream queue,
  \<open>process_upstream_orders\<close> removes a prefix of the queue and nothing else (no handler writes
  to the queue it is reading), handles at most the batch limit, and stops short of the limit
  only when the queue is empty.  The fuel of the loop does not matter: any larger number
  gives the same result.
\<close>

theorem upstream_batch_drains:
  assumes "w_upstream (el_world s) = Some up" and "q_ok 18 (us_queue up)" and "w_orders (el_world s) \<noteq> None"
    and "process_upstream_orders now s = (n, s')" and "fuel \<ge> upstream_size s"
  shows "n \<le> batch_limit s \<and> fst (upstream_loop fuel (batch_limit s) now s) = n
    \<and> (\<exists>up' k. w_upstream (el_world s') = Some up' \<and> q_ok 18 (us_queue up')
        \<and> q_list 18 (us_queue up') = drop k (q_list 18 (us_queue up)) \<and> n \<le> k
        \<and> (n = batch_limit s \<or> q_list 18 (us_queue up') = []))"
proof -
  let ?L = "q_list 18 (us_queue up)"
  have L: "up_list s ?L" using assms(1-3) by (simp add: up_list_def)
  have size: "upstream_size s = length ?L"
    using assms(1) queue_size_list [of 18 "us_queue up"]
    by (simp add: upstream_size_def kQueueCapacity_pow del: power_numeral)
  obtain m s1 where r: "upstream_loop fuel (batch_limit s) now s = (m, s1)"
    by (cases "upstream_loop fuel (batch_limit s) now s")
  from upstream_loop_list [OF L _ r] assms(5) size obtain k where k: "m \<le> batch_limit s"
    "upstream_loop (length ?L) (batch_limit s) now s = (m, s1)" "m \<le> k" "k \<le> length ?L"
    "up_list s1 (drop k ?L)" "m = batch_limit s \<or> k = length ?L" by auto
  have p: "n = m" "el_world s' = el_world s1"
    using assms(1,3,4) k(2) size by (auto simp: process_upstream_orders_def Let_def)
  from k(5) obtain up' where "w_upstream (el_world s1) = Some up'" "q_ok 18 (us_queue up')"
    "q_list 18 (us_queue up') = drop k ?L" by (auto simp: up_list_def)
  with k p r show ?thesis by (intro conjI exI [of _ up'] exI [of _ k]) auto
qed

definition queued_example :: "OrderIndex spsc_queue" where
  "queued_example = snd (try_push kQueueCapacity 0 (snd (try_push kQueueCapacity 9
     (queue_init \<lparr>q_head = 0, q_tail = 0, q_buffer = (\<lambda>_. 0)\<rparr>))))"

lemma queued_example_list: "q_ok 18 queued_example" "q_list 18 queued_example = [9, 0]"
proof -
  let ?q0 = "queue_init \<lparr>q_head = 0, q_tail = 0, q_buffer = (\<lambda>_. 0 :: OrderIndex)\<rparr>"
  have q0: "q_ok 18 ?q0" "q_list 18 ?q0 = []" using queue_init_list [of 18] by auto
  obtain q1 where q1: "try_push kQueueCapacity 9 ?q0 = (True, q1)" "q_ok 18 q1" "q_list 18 q1 = [9]"
    using shm_queue.push_accepts [OF q0(1), of 9] q0(2) by auto
  obtain q2 where q2: "try_push kQueueCapacity 0 q1 = (True, q2)" "q_ok 18 q2" "q_list 18 q2 = [9, 0]"
    using shm_queue.push_accepts [OF q1(2), of 0] q1(3) by auto
  show "q_ok 18 queued_example" "q_list 18 queued_example = [9, 0]"
    using q1 q2 by (simp_all add: queued_example_def)
qed

definition upstream_example :: EventLoop where
  "upstream_example = loop_example\<lparr>el_world := (el_world loop_example)
     \<lparr>w_upstream := Some \<lparr>us_next_order_id = 8, us_queue = queued_example\<rparr>\<rparr>\<rparr>"

lemma upstream_batch_drains_witness:
  "\<exists>n s' up'. process_upstream_orders 5 upstream_example = (n, s') \<and> n \<le> 64
     \<and> w_upstream (el_world s') = Some up' \<and> (n = 64 \<or> q_list 18 (us_queue up') = [])"
proof -
  obtain n s' where p: "process_upstream_orders 5 upstream_example = (n, s')"
    by (cases "process_upstream_orders 5 upstream_example")
  have u: "w_upstream (el_world upstream_example) = Some \<lparr>us_next_order_id = 8, us_queue = queued_example\<rparr>"
    by (simp add: upstream_example_def)
  have o: "w_orders (el_world upstream_example) \<noteq> None"
    by (simp add: upstream_example_def loop_example_def event_loop_new_def create_internal_order_slot_def
        world_new_def case_prod_beta)
  have b: "batch_limit upstream_example = 64"
    by (simp add: batch_limit_def upstream_example_def loop_example_def event_loop_new_def loop_config_example_def)
  from upstream_batch_drains [OF u _ o p order_refl] queued_example_list(1) b p show ?thesis by auto
qed

section \<open>A single order in an otherwise unchanged book\<close>

text \<open>
  The book \<open>b\<close> holds the order \<open>c\<close> as \<open>e\<close>, with no parent, and is otherwise the book \<open>b0\<close>.
\<close>

definition alone :: "nat \<Rightarrow> OrderBook \<Rightarrow> InternalOrderId \<Rightarrow> OrderEntry \<Rightarrow> OrderBook \<Rightarrow> bool" where
  "alone cap b0 c e b \<longleftrightarrow> book_ok cap b \<and> child_to_parent b c = None
     \<and> parent_to_children b = parent_to_children b0 \<and> find_order c b = Some e
     \<and> (\<forall>x. x \<noteq> c \<longrightarrow> find_order x b = find_order x b0)"

lemma alone_modify:
  assumes "alone cap b0 c e b" "\<And>e. entry_key (f e) = entry_key e"
  shows "alone cap b0 c (f e) (modify_order c f b)"
proof -
  have ok: "book_ok cap b" using assms(1) by (simp add: alone_def)
  have "book_ok cap (modify_order c f b)"
    using ok assms(2) by (intro book_ok_content [OF modify_order_content])
  then show ?thesis
    using assms(1) find_modify_other [OF book_ok_slot_inj [OF ok], of _ c f]
    by (simp add: alone_def find_modify_order modify_order_sel)
qed

lemma update_state_alone:
  assumes "child_to_parent b c = None" "find_order c b \<noteq> None"
  shows "\<exists>X. fst (snd (update_state c st now b)) =
     (modify_order c (\<lambda>e. e\<lparr>request := (request e)\<lparr>order_state := st\<rparr>, last_update_ns := now\<rparr>) b)
       \<lparr>split_parent_error_latched := X\<rparr>"
proof -
  obtain i where i: "id_to_index b c = Some i" using assms(2) by (auto simp: find_order_def split: option.splits)
  define m where "m = modify_order c (\<lambda>e. e\<lparr>request := (request e)\<lparr>order_state := st\<rparr>, last_update_ns := now\<rparr>) b"
  define latch where "latch \<longleftrightarrow> st = TraderError \<and> parent_to_children m c \<noteq> None \<and> \<not> is_managed_parent c m"
  have r: "fst (refresh_parent_of c (m\<lparr>split_parent_error_latched := X\<rparr>)) = m\<lparr>split_parent_error_latched := X\<rparr>" for X
    using assms(1) by (simp add: refresh_parent_of_def m_def modify_order_sel)
  have "fst (snd (update_state c st now b)) = fst (refresh_parent_of c
      (if latch then m\<lparr>split_parent_error_latched := insert c (split_parent_error_latched m)\<rparr> else m))"
    unfolding update_state_def i option.case Let_def m_def [symmetric] latch_def [symmetric]
    by (simp only: case_prod_beta fst_conv snd_conv)
  moreover have "(if latch then m\<lparr>split_parent_error_latched := insert c (split_parent_error_latched m)\<rparr> else m)
      = m\<lparr>split_parent_error_latched := (if latch then insert c (split_parent_error_latched m)
          else split_parent_error_latched m)\<rparr>" by simp
  ultimately show ?thesis unfolding m_def [symmetric] r by (intro exI) (simp only: r)
qed

lemma alone_state:
  assumes "alone cap b0 c e b"
  shows "alone cap b0 c (e\<lparr>request := (request e)\<lparr>order_state := st\<rparr>, last_update_ns := now\<rparr>)
     (fst (snd (update_state c st now b)))"
proof -
  let ?f = "\<lambda>e. e\<lparr>request := (request e)\<lparr>order_state := st\<rparr>, last_update_ns := now\<rparr>"
  obtain X where X: "fst (snd (update_state c st now b)) = (modify_order c ?f b)\<lparr>split_parent_error_latched := X\<rparr>"
    using update_state_alone [of b c st now] assms by (auto simp: alone_def)
  have "book_ok cap (fst (snd (update_state c st now b)))"
    using assms by (intro book_ok_update_state) (simp add: alone_def)
  moreover have "alone cap b0 c (?f e) (modify_order c ?f b)"
    using assms by (rule alone_modify) (simp add: update_request_key)
  moreover have "find_order x (b'\<lparr>split_parent_error_latched := X\<rparr>) = find_order x b'" for x b'
    by (simp add: find_order_def)
  ultimately show ?thesis by (simp add: X alone_def)
qed

lemma alone_add:
  assumes "book_ok cap b" "internal_order_id (request e) = c" "c \<noteq> 0" "id_to_index b c = None"
    "free_slots b \<noteq> []" "child_to_parent b c = None" "\<not> is_split_child e"
  shows "fst (add_order e now b)" "alone cap b c (stored_entry now e) (fst (snd (add_order e now b)))"
proof -
  obtain index free where free: "free_slots b = index # free" using assms(5) by (cases "free_slots b") auto
  let ?b = "insert_indices index free (stored_entry now e) b"
  have eq: "add_order e now b = (True, ?b\<lparr>ob_active_count := ob_active_count ?b + 1\<rparr>, [Notify (ob_orders ?b index) Added])"
    using add_order_eq [of e b index free now] assms free by (simp add: Let_def)
  show "fst (add_order e now b)" by (simp add: eq)
  have s: "slots_ok cap b" using assms(1) by (simp add: book_ok_def)
  have st: "is_split_child (stored_entry now e) = is_split_child e"
    "internal_order_id (request (stored_entry now e)) = internal_order_id (request e)"
    by (simp_all add: stored_entry_def Let_def)
  have "book_ok cap (fst (snd (add_order e now b)))" using book_ok_add [OF assms(1) eq] by (simp add: eq)
  moreover have "find_order x (b'\<lparr>ob_active_count := n\<rparr>) = find_order x b'" for x b' n
    by (simp add: find_order_def)
  ultimately show "alone cap b c (stored_entry now e) (fst (snd (add_order e now b)))"
    using assms insert_find_other [OF s free, of _ "stored_entry now e"]
    by (simp add: eq alone_def insert_indices_sel st find_insert_indices)
qed

lemma stored_entry_request:
  "order_type (request (stored_entry now e)) = order_type (request e)"
  "orig_internal_order_id (request (stored_entry now e)) = orig_internal_order_id (request e)"
  "internal_order_id (request (stored_entry now e)) = internal_order_id (request e)"
  "order_type (request e) = Cancel \<Longrightarrow> request (stored_entry now e) = request e"
  by (simp_all add: stored_entry_def Let_def)

abbreviation entry_state :: "OrderState \<Rightarrow> TimestampNs \<Rightarrow> OrderEntry \<Rightarrow> OrderEntry" where
  "entry_state st now e \<equiv> e\<lparr>request := (request e)\<lparr>order_state := st\<rparr>, last_update_ns := now\<rparr>"

lemma alone_set_state:
  "alone cap b0 c e (w_book (el_world s)) \<Longrightarrow>
   alone cap b0 c (entry_state st now e) (w_book (el_world (set_order_state c st now s)))"
  by (simp add: frame_simps alone_state)

lemma alone_entry: "alone cap b0 c e (w_book (el_world s)) \<Longrightarrow> the_entry c s = Some e"
  by (simp add: alone_def the_entry_def)

lemma alone_others: "alone cap b0 c e (w_book (el_world s)) \<Longrightarrow> x \<noteq> c \<Longrightarrow> the_entry x s = find_order x b0"
  by (simp add: alone_def the_entry_def)

text \<open>The book takes the order; this is what both kinds of order have in common.\<close>

definition takes_order :: "nat \<Rightarrow> InternalOrderId \<Rightarrow> EventLoop \<Rightarrow> bool" where
  "takes_order cap c s \<longleftrightarrow> book_ok cap (w_book (el_world s)) \<and> c \<noteq> 0 \<and> the_entry c s = None
     \<and> free_slots (w_book (el_world s)) \<noteq> [] \<and> try_get_parent c (w_book (el_world s)) = None"

definition added_entry :: "OrderIndex \<Rightarrow> OrderRequest \<Rightarrow> TimestampNs \<Rightarrow> OrderEntry" where
  "added_entry index r now = entry_state RiskControllerPending now (stored_entry now (entry_for index r now))"

definition added_state :: "OrderIndex \<Rightarrow> OrderRequest \<Rightarrow> TimestampNs \<Rightarrow> EventLoop \<Rightarrow> EventLoop" where
  "added_state index r now s = set_order_state (internal_order_id r) RiskControllerPending now
     (s\<lparr>el_world := snd (on_book (add_order (entry_for index r now) now) now (el_world s))\<rparr>)"

lemma added_state:
  assumes "takes_order cap (internal_order_id r) s"
  shows "alone cap (w_book (el_world s)) (internal_order_id r) (added_entry index r now)
      (w_book (el_world (added_state index r now s)))"
    "w_downstream (el_world (added_state index r now s)) = w_downstream (el_world s)"
    "fst (on_book (add_order (entry_for index r now) now) now (el_world s))"
proof -
  have i: "id_to_index (w_book (el_world s)) (internal_order_id r) = None"
    using assms by (auto simp: takes_order_def the_entry_def find_order_def split: option.splits)
  have h: "book_ok cap (w_book (el_world s))" "internal_order_id (request (entry_for index r now)) = internal_order_id r"
    "internal_order_id r \<noteq> 0" "free_slots (w_book (el_world s)) \<noteq> []"
    "child_to_parent (w_book (el_world s)) (internal_order_id r) = None" "\<not> is_split_child (entry_for index r now)"
    using assms by (simp_all add: takes_order_def entry_for_def try_get_parent_def)
  note a = alone_add [OF h(1-3) i h(4-6), of now]
  from a(1) show "fst (on_book (add_order (entry_for index r now) now) now (el_world s))"
    by (simp add: frame_simps)
  show "alone cap (w_book (el_world s)) (internal_order_id r) (added_entry index r now)
      (w_book (el_world (added_state index r now s)))"
    unfolding added_state_def added_entry_def by (rule alone_set_state) (use a in \<open>simp add: frame_simps\<close>)
  show "w_downstream (el_world (added_state index r now s)) = w_downstream (el_world s)"
    by (simp add: added_state_def frame_simps)
qed

lemma admit_added:
  assumes "takes_order cap (internal_order_id r) s"
  shows "admit_order index r now s =
    (let (accepted, s) = risk_stage index r now (added_state index r now s)
     in if \<not> accepted then s
        else case the_entry (internal_order_id r) s of
          None \<Rightarrow> s
        | Some active \<Rightarrow>
            (case el_engine s of
               Some engine \<Rightarrow>
                 if should_manage engine (request active)
                 then start_managed_order index (internal_order_id r) now engine s
                 else route_accepted_order index (internal_order_id r) now s
             | None \<Rightarrow> route_accepted_order index (internal_order_id r) now s))"
  using added_state(3) [OF assms, of index now]
  by (simp add: admit_order_def added_state_def Let_def case_prod_beta)

lemma complete_security_id_sel:
  assumes "complete_security_id req = Some r"
  shows "internal_order_id r = internal_order_id req" "order_type r = order_type req"
    "orig_internal_order_id r = orig_internal_order_id req"
  using assms by (auto simp: complete_security_id_def split: if_splits)

lemma prepare_order_estimate_sel [simp]:
  "internal_order_id (prepare_order_estimate a r) = internal_order_id r"
  "order_type (prepare_order_estimate a r) = order_type r"
  "orig_internal_order_id (prepare_order_estimate a r) = orig_internal_order_id r"
  "order_type r \<noteq> New \<Longrightarrow> prepare_order_estimate a r = r"
  by (auto simp: prepare_order_estimate_def Let_def split: option.split)

lemma handle_known_id:
  assumes "complete_security_id req = Some r0" "internal_order_id req \<noteq> 0"
  shows "handle_order_request index req now s = admit_order index (prepare_order_estimate (el_account s) r0) now s"
  using assms complete_security_id_sel(1) [OF assms(1)]
  by (simp add: handle_order_request_def Let_def)

section \<open>A rejected order\<close>

text \<open>
  C4: a rejected order goes nowhere.  When the risk manager rejects a new order, the order is
  in the book in state \<open>RiskControllerRejected\<close> with the code of the rule that rejected it and
  nothing reserved; the downstream queue, the positions and the funds, the sessions of the
  execution engine and every other order are as before, and the risk manager is as the check
  left it.
\<close>

theorem rejected_order_not_sent:
  assumes "order_type req = New" and "complete_security_id req = Some r0"
    and "takes_order cap (internal_order_id req) s"
    and "check_order (prepare_order_estimate (el_account s) r0) (el_positions s) now (el_risk s) = (result, risk')"
    and "\<not> passed result"
    and "s' = handle_order_request index req now s"
  shows "w_downstream (el_world s') = w_downstream (el_world s) \<and> el_positions s' = el_positions s
    \<and> el_engine s' = el_engine s \<and> el_risk s' = risk'
    \<and> (\<exists>e. the_entry (internal_order_id req) s' = Some e \<and> order_state (request e) = RiskControllerRejected
         \<and> risk_result e = rc_code result \<and> fund_frozen e = 0)
    \<and> (\<forall>x. x \<noteq> internal_order_id req \<longrightarrow> the_entry x s' = the_entry x s)"
proof -
  define r where "r = prepare_order_estimate (el_account s) r0"
  let ?c = "internal_order_id req" and ?s1 = "added_state index r now s"
  note cs = complete_security_id_sel [OF assms(2)]
  have r: "internal_order_id r = ?c" "order_type r = New" using cs assms(1) by (simp_all add: r_def)
  have t: "takes_order cap (internal_order_id r) s" using assms(3) r(1) by simp
  have c0: "?c \<noteq> 0" using assms(3) by (simp add: takes_order_def)
  note a1 = added_state [OF t, of index now, unfolded r(1)]
  have el: "el_positions ?s1 = el_positions s" "el_risk ?s1 = el_risk s" "el_engine ?s1 = el_engine s"
    by (simp_all add: added_state_def)
  define s2 where "s2 = write_entry ?c (\<lambda>e. e\<lparr>risk_result := rc_code result\<rparr>) (?s1\<lparr>el_risk := risk'\<rparr>)"
  define s3 where "s3 = set_order_state ?c RiskControllerRejected now s2"
  have st: "s' = set_stage index RiskRejected now s3"
    using handle_known_id [OF assms(2) c0, folded r_def] admit_added [OF t, of index now] assms(4-6) r el
    by (simp add: risk_stage_def Let_def s2_def s3_def r_def [symmetric])
  have a2: "alone cap (w_book (el_world s)) ?c ((added_entry index r now)\<lparr>risk_result := rc_code result\<rparr>) (w_book (el_world s2))"
    using alone_modify [OF a1(1), of "\<lambda>e. e\<lparr>risk_result := rc_code result\<rparr>"]
    by (simp add: s2_def entry_key_def)
  have a3: "alone cap (w_book (el_world s)) ?c
      (entry_state RiskControllerRejected now ((added_entry index r now)\<lparr>risk_result := rc_code result\<rparr>))
      (w_book (el_world s'))"
    using alone_set_state [OF a2, where st = RiskControllerRejected and now = now] by (simp add: st s3_def frame_simps)
  have "fund_frozen (added_entry index r now) = 0"
    by (simp add: added_entry_def stored_entry_def entry_for_def OrderEntry_default_def Let_def)
  with alone_entry [OF a3] have e: "\<exists>e. the_entry ?c s' = Some e \<and> order_state (request e) = RiskControllerRejected
         \<and> risk_result e = rc_code result \<and> fund_frozen e = 0" by simp
  have o: "\<forall>x. x \<noteq> ?c \<longrightarrow> the_entry x s' = the_entry x s"
    using alone_others [OF a3] by (simp add: the_entry_def)
  have "w_downstream (el_world s') = w_downstream (el_world s)" "el_positions s' = el_positions s"
    "el_engine s' = el_engine s" "el_risk s' = risk'"
    using a1(2) el by (simp_all add: st s3_def s2_def frame_simps) (simp add: write_entry_def)
  with e o show ?thesis by blast
qed

section \<open>A cancel of the user\<close>

lemma added_entry_request:
  assumes "order_type r = Cancel"
  shows "order_type (request (added_entry index r now)) = Cancel"
    "orig_internal_order_id (request (added_entry index r now)) = orig_internal_order_id r"
    "internal_order_id (request (added_entry index r now)) = internal_order_id r"
  using assms by (simp_all add: added_entry_def stored_entry_request entry_for_def)

lemma funds_not_for_cancel:
  assumes "the_entry c s = Some e" "order_type (request e) = Cancel"
  shows "reserve_order_resources c now s = (True, s)" "release_order_resources c now s = s"
  using assms by (simp_all add: reserve_order_resources_def release_order_resources_def)

lemma route_accepted_cancel:
  assumes "alone cap b0 c e (w_book (el_world s))" "order_type (request e) = Cancel"
    "internal_order_id (request e) = c" "c \<noteq> 0" "get_children (orig_internal_order_id (request e)) b0 = []"
  shows "\<exists>w. w_book w = w_book (el_world s) \<and> w_downstream w = w_downstream (el_world s)
    \<and> route_accepted_order index c now s = report D_order RouteFailed now
        (set_stage index QueuePushFailed now (set_order_state c TraderError now (s\<lparr>el_world := w\<rparr>)))"
proof -
  note e = alone_entry [OF assms(1)]
  have active: "c \<in> get_active_order_ids (w_book (el_world s))"
    using e by (auto simp: get_active_order_ids_def the_entry_def find_order_def split: option.splits)
  have children: "get_children (orig_internal_order_id (request e)) (w_book (el_world s)) = []"
    using assms(1,5) by (simp add: alone_def get_children_def)
  obtain ok w where r: "route_cancel (orig_internal_order_id (request e)) c (md_time_driven (request e)) now (el_world s) = (ok, w)"
    by (cases "route_cancel (orig_internal_order_id (request e)) c (md_time_driven (request e)) now (el_world s)")
  note d = route_cancel_duplicate_id [OF active assms(4) children r]
  have "the_entry c (s\<lparr>el_world := w\<rparr>) = Some e" using e d by (simp add: the_entry_def)
  note f = funds_not_for_cancel [OF this assms(2)]
  have "route_accepted_order index c now s = report D_order RouteFailed now
        (set_stage index QueuePushFailed now (set_order_state c TraderError now (s\<lparr>el_world := w\<rparr>)))"
    using funds_not_for_cancel(1) [OF e assms(2)] e assms(2,3) r d f(2)
    by (simp add: route_accepted_order_def route_order_def Let_def)
  with d show ?thesis by blast
qed

text \<open>
  C3: a cancel of the user is never sent.  The event loop puts the cancel order into the book
  under its own id before routing it, and the router then tries to put a cancel order into the
  book under the same id; the book refuses the duplicate.  So for an original without child
  orders nothing is pushed downstream, whatever the state of the original: the cancel ends in
  state \<open>TraderError\<close>, and the original and every other order stay as they were.
\<close>

theorem user_cancel_never_sent:
  assumes "order_type req = Cancel" and "takes_order cap (internal_order_id req) s"
    and "get_children (orig_internal_order_id req) (w_book (el_world s)) = []"
    and "s' = handle_order_request index req now s"
  shows "w_downstream (el_world s') = w_downstream (el_world s)
    \<and> (\<exists>e. the_entry (internal_order_id req) s' = Some e \<and> order_state (request e) = TraderError)
    \<and> (\<forall>x. x \<noteq> internal_order_id req \<longrightarrow> the_entry x s' = the_entry x s)
    \<and> el_positions s' = el_positions s"
proof -
  let ?c = "internal_order_id req" and ?s1 = "added_state index req now s" and ?b0 = "w_book (el_world s)"
  have c: "complete_security_id req = Some req" using assms(1) by (simp add: complete_security_id_def)
  have c0: "?c \<noteq> 0" using assms(2) by (simp add: takes_order_def)
  have p: "prepare_order_estimate (el_account s) req = req" using assms(1) by simp
  note a1 = added_state [OF assms(2), of index now]
  note er = added_entry_request [OF assms(1), of index now]
  define s2 where "s2 = set_order_state ?c RiskControllerAccepted now ?s1"
  let ?e2 = "entry_state RiskControllerAccepted now (added_entry index req now)"
  have a2: "alone cap ?b0 ?c ?e2 (w_book (el_world s2))"
    unfolding s2_def using a1(1) by (rule alone_set_state)
  have "\<not> should_manage engine (request ?e2)" for engine using er(1) by (simp add: should_manage_def)
  then have "s' = route_accepted_order index ?c now s2"
    using handle_known_id [OF c c0, of index now s] admit_added [OF assms(2), of index now] assms(1,4) p
      alone_entry [OF a2]
    by (simp add: risk_stage_def Let_def s2_def [symmetric] split: option.split)
  moreover obtain w where w: "w_book w = w_book (el_world s2)" "w_downstream w = w_downstream (el_world s2)"
    "route_accepted_order index ?c now s2 = report D_order RouteFailed now
        (set_stage index QueuePushFailed now (set_order_state ?c TraderError now (s2\<lparr>el_world := w\<rparr>)))"
    using route_accepted_cancel [OF a2, of index now] er c0 assms(3) by auto
  ultimately have st: "s' = report D_order RouteFailed now
        (set_stage index QueuePushFailed now (set_order_state ?c TraderError now (s2\<lparr>el_world := w\<rparr>)))" by simp
  have "alone cap ?b0 ?c ?e2 (w_book (el_world (s2\<lparr>el_world := w\<rparr>)))" using a2 w(1) by simp
  from alone_set_state [OF this, where st = TraderError and now = now]
  have a3: "alone cap ?b0 ?c (entry_state TraderError now ?e2) (w_book (el_world s'))"
    by (simp add: st frame_simps)
  have "w_downstream (el_world s') = w_downstream (el_world s)"
    using a1(2) w(2) by (simp add: st s2_def frame_simps)
  moreover have "el_positions s' = el_positions s" by (simp add: st s2_def added_state_def)
  moreover have "\<exists>e. the_entry ?c s' = Some e \<and> order_state (request e) = TraderError"
    using alone_entry [OF a3] by simp
  moreover have "\<forall>x. x \<noteq> ?c \<longrightarrow> the_entry x s' = the_entry x s"
    using alone_others [OF a3] by (simp add: the_entry_def)
  ultimately show ?thesis by blast
qed

lemma user_cancel_never_sent_witness:
  "\<exists>s'. s' = handle_order_request 1 (make_cancel_request 9 93000 7) 6 two_orders_example
     \<and> w_downstream (el_world s') = w_downstream (el_world two_orders_example)
     \<and> (\<exists>e. the_entry 9 s' = Some e \<and> order_state (request e) = TraderError)
     \<and> the_entry 7 s' = the_entry 7 two_orders_example"
proof -
  have "(let s = two_orders_example; b = w_book (el_world s)
    in (the_entry 9 s = None, free_slots b \<noteq> [], try_get_parent 9 b = None, get_children 7 b = []))
    = (True, True, True, True)" by code_simp
  then have t: "takes_order 4 (internal_order_id (make_cancel_request 9 93000 7)) two_orders_example"
    and c: "get_children (orig_internal_order_id (make_cancel_request 9 93000 7)) (w_book (el_world two_orders_example)) = []"
    using two_orders_example_book by (simp_all add: takes_order_def funds_keep_def Let_def)
  from user_cancel_never_sent [OF _ t c refl, of 1 6] show ?thesis by auto
qed

lemma rejected_order_not_sent_witness:
  "\<exists>s' e. s' = handle_order_request 0 (order_buy 200 1) 6 loop_example
     \<and> the_entry 7 s' = Some e \<and> order_state (request e) = RiskControllerRejected
     \<and> w_downstream (el_world s') = w_downstream (el_world loop_example)"
proof -
  let ?r = "order_buy 200 1"
  have c: "complete_security_id ?r = Some ?r" by (simp add: complete_security_id_def order_buy_def)
  have "the_entry 7 loop_example = None" "free_slots (w_book (el_world loop_example)) \<noteq> []"
    "try_get_parent 7 (w_book (el_world loop_example)) = None"
    by (simp_all add: the_entry_def try_get_parent_def loop_example_book OrderBook_new_def find_order_def)
  then have t: "takes_order 4 (internal_order_id ?r) loop_example"
    by (simp add: takes_order_def loop_example_book book_ok_new order_buy_def)
  obtain result risk' where k: "check_order (prepare_order_estimate (el_account loop_example) ?r)
      (el_positions loop_example) 6 (el_risk loop_example) = (result, risk')" by (meson surj_pair)
  have "\<not> passed (fst (check_order (prepare_order_estimate (el_account loop_example) ?r)
      (el_positions loop_example) 6 (el_risk loop_example)))" by code_simp
  then have p: "\<not> passed result" by (simp add: k)
  have n: "order_type ?r = New" "internal_order_id ?r = 7" by (simp_all add: order_buy_def)
  from rejected_order_not_sent [OF n(1) c t k p refl, of 0] n(2) show ?thesis by auto
qed

section \<open>A fill for an order that is gone\<close>

text \<open>
  A trade response for an order that is no longer in the book is dropped.  No fund and no
  position changes, whatever was traded, and the book stays as it is; what remains is the
  error record \<open>OrderNotFound\<close>.
\<close>

theorem unknown_fill_dropped:
  assumes "tr_internal_order_id response \<noteq> 0" and "the_entry (tr_internal_order_id response) s = None"
    and "s' = handle_trade_response response now s"
  shows "el_positions s' = el_positions s \<and> w_book (el_world s') = w_book (el_world s)
    \<and> w_downstream (el_world s') = w_downstream (el_world s)
    \<and> es_code (g_latest_error (w_errors (el_world s'))) = OrderNotFound"
proof -
  let ?i = "tr_internal_order_id response"
  have i: "id_to_index (w_book (el_world s)) ?i = None"
    using assms(2) by (auto simp: the_entry_def find_order_def split: option.splits)
  have m: "on_book f now w = (False, raise_error D_order OrderNotFound now w)"
    if "f (w_book w) = (False, w_book w, [Raise D_order OrderNotFound])" for f :: "OrderBook \<Rightarrow> bool book_result" and w
    using that by (simp add: on_book_def)
  have err: "es_code (g_latest_error (w_errors (raise_error D_order OrderNotFound now w))) = OrderNotFound" for w
    by (simp add: raise_error_def record_error_def make_error_status_def error_ok_def request_shutdown_def Let_def)
  define ok where "ok = (\<lambda>w. w_book w = w_book (el_world s) \<and> w_downstream w = w_downstream (el_world s))"
  have st: "on_book (update_state ?i st now) now w = (False, raise_error D_order OrderNotFound now w)"
    "on_book (update_trade ?i v p val f now) now w = (False, raise_error D_order OrderNotFound now w)"
    "on_book (archive_order ?i) now w = (False, raise_error D_order OrderNotFound now w)"
    if "w_book w = w_book (el_world s)" for w st v p val f
    by (rule m; use that i in \<open>simp add: update_state_def update_trade_def archive_order_def\<close>)+
  define s1 where "s1 = set_order_state ?i (tr_new_state response) now
     (s\<lparr>el_engine := map_option (\<lambda>engine. engine_on_trade_response response engine (el_world s)) (el_engine s)\<rparr>)"
  have s1: "el_world s1 = raise_error D_order OrderNotFound now (el_world s)" "el_positions s1 = el_positions s"
    by (simp_all add: s1_def st)
  define s2 where "s2 = (if tr_volume_traded response > 0 then apply_trade response now s1 else s1)"
  have none: "the_entry ?i x = None" if "w_book (el_world x) = w_book (el_world s)" for x
    using assms(2) that by (simp add: the_entry_def)
  have s2: "el_positions s2 = el_positions s \<and> (\<exists>w. w_book w = w_book (el_world s)
      \<and> w_downstream w = w_downstream (el_world s) \<and> el_world s2 = raise_error D_order OrderNotFound now w)"
  proof (cases "tr_volume_traded response > 0")
    case True
    let ?x = "in_world (\<lambda>w. snd (on_book (update_trade ?i (tr_volume_traded response)
                (tr_dprice_traded response) (tr_dvalue_traded response) (tr_dfee response) now) now w)) s1"
    have x: "el_world ?x = raise_error D_order OrderNotFound now (el_world s1)"
      by (simp add: st s1 frame_simps)
    then have "apply_trade response now s1 = ?x" using none [of ?x] by (simp add: apply_trade_def Let_def s1 frame_simps)
    then have "s2 = ?x" using True by (simp add: s2_def)
    with x show ?thesis using s1 by (auto simp: frame_simps intro!: exI [of _ "el_world s1"])
  next
    case False
    then show ?thesis using s1 by (auto simp: s2_def frame_simps intro!: exI [of _ "el_world s"])
  qed
  then obtain w where w: "w_book w = w_book (el_world s)" "w_downstream w = w_downstream (el_world s)"
    "el_world s2 = raise_error D_order OrderNotFound now w" "el_positions s2 = el_positions s" by blast
  have "release_after_response ?i now s2 = s2" using none [of s2] w by (simp add: release_after_response_def frame_simps)
  moreover have "s' = schedule_archive ?i (tr_new_state response) now (release_after_response ?i now s2)"
    using assms(1,3) by (simp add: handle_trade_response_def Let_def s1_def s2_def)
  ultimately have "s' = schedule_archive ?i (tr_new_state response) now s2" by simp
  then show ?thesis
    using w err by (auto simp: schedule_archive_def Let_def st frame_simps)
qed

lemma unknown_fill_dropped_witness:
  "el_positions (handle_trade_response (fill_example 40) 6 loop_example) = el_positions loop_example"
proof -
  have "the_entry (tr_internal_order_id (fill_example 40)) loop_example = None"
    by (simp add: the_entry_def loop_example_book OrderBook_new_def find_order_def)
  from unknown_fill_dropped [OF _ this refl, of 6] show ?thesis by (simp add: fill_example_def)
qed

section \<open>Stopping\<close>

lemma stopping_upstream: "stopping (el_world s) \<Longrightarrow> stopping (el_world (snd (upstream_loop fuel limit now s)))"
proof (induction fuel arbitrary: limit s)
  case (Suc fuel)
  have "stopping (el_world (snd (pop_upstream s)))"
    using Suc.prems by (auto simp: pop_upstream_def stopping_def case_prod_beta split: option.splits)
  then have "stopping (el_world (snd (take_order i now (snd (pop_upstream s)))))" for i
    by (rule latch.keeps_take_order)
  then show ?case
    using Suc \<open>stopping (el_world (snd (pop_upstream s)))\<close>
    by (auto simp: case_prod_beta Let_def split: option.splits)
qed simp

lemma stopping_responses: "stopping (el_world s) \<Longrightarrow> stopping (el_world (snd (response_loop fuel limit now s)))"
proof (induction fuel arbitrary: limit s)
  case (Suc fuel)
  have p: "stopping (el_world (snd (pop_response s)))"
    using Suc.prems by (auto simp: pop_response_def case_prod_beta split: option.splits)
  then have "stopping (el_world (handle_trade_response r now (snd (pop_response s))))" for r
    by (rule latch.keeps_handle_response)
  then show ?case using Suc p by (auto simp: case_prod_beta Let_def split: option.splits)
qed simp

lemma stopping_iteration: "stopping (el_world s) \<Longrightarrow> stopping (el_world (loop_iteration inp s))"
proof -
  assume s: "stopping (el_world s)"
  let ?s0 = "s\<lparr>el_stats := (el_stats s)\<lparr>total_iterations := total_iterations (el_stats s) + 1\<rparr>\<rparr>"
  define s1 where "s1 = snd (process_upstream_orders (li_now inp) ?s0)"
  have s1: "stopping (el_world s1)"
    using s by (auto simp: s1_def process_upstream_orders_def Let_def case_prod_beta intro: stopping_upstream)
  define s2 where "s2 = snd (process_downstream_responses (li_now inp) s1)"
  have s2: "stopping (el_world s2)"
    using s1 by (auto simp: s2_def process_downstream_responses_def Let_def case_prod_beta intro: stopping_responses)
  define s3 where "s3 = (case el_engine s2 of None \<Rightarrow> s2 | Some engine \<Rightarrow>
      let (engine, w) = engine_tick (li_now inp) (li_now inp) engine (el_world s2)
      in s2\<lparr>el_engine := Some engine, el_world := w\<rparr>)"
  have s3: "stopping (el_world s3)"
    using s2 by (auto simp: s3_def Let_def case_prod_beta intro: latch.keeps_engine_tick split: option.splits)
  define s4 where "s4 = (if archive_terminal_orders (el_config s3)
      then process_pending_archives (li_walk inp) (li_now inp) s3 else s3)"
  have s4: "stopping (el_world s4)" using s3 by (auto simp: s4_def intro: latch.keeps_pending_archives)
  have "el_world (loop_iteration inp s) = el_world s4"
    unfolding s4_def s3_def s2_def s1_def by (simp add: loop_iteration_def Let_def case_prod_beta)
  with s4 show ?thesis by simp
qed

text \<open>
  C16: a stop request ends the loop.  Once an error has latched the request to stop the service,
  no handler, engine tick or archiving takes it back: a running loop that starts a turn under
  the latch finishes this turn and stops, and no later turn happens.
\<close>

theorem stop_request_ends_run:
  assumes "should_stop_service (w_errors (el_world s))" and "el_running s"
  shows "\<not> el_running (run_turns (inp # inputs) s)
    \<and> run_turns (inp # inputs) s = run_turns [inp] s
    \<and> el_world (run_turns (inp # inputs) s) = el_world (loop_iteration inp s)"
proof -
  have "stopping (el_world (loop_iteration inp s))"
    using assms(1) by (intro stopping_iteration) (simp add: stopping_def)
  then have st: "should_stop_service (w_errors (el_world (loop_iteration inp s)))" by (simp add: stopping_def)
  have "run_turns xs s' = s'" if "\<not> el_running s'" for xs s'
    using that by (cases xs) simp_all
  with st assms(2) show ?thesis by (simp add: Let_def stop_loop_def)
qed

definition input_example :: loop_input where
  "input_example = \<lparr>li_start = 1, li_now = 2, li_end = 3, li_walk = [], li_stop = False\<rparr>"

lemma stop_request_ends_run_witness:
  "\<exists>s. el_running s \<and> \<not> el_running (run_turns [input_example, input_example] s)"
proof -
  let ?s = "loop_example\<lparr>el_running := True,
     el_world := raise_error D_order OrderInvariantBroken 5 (el_world loop_example)\<rparr>"
  have v: "1 \<le> severity_value (severity (classify D_order OrderInvariantBroken))"
    "requests_stop (make_error_status D_order OrderInvariantBroken [] [] 0 [] 0 5)"
    by code_simp+
  then have "should_stop_service (w_errors (el_world ?s))"
    by (simp add: raise_error_def should_stop_service_def record_error_shutdown make_error_status_def)
  moreover have r: "el_running ?s" by simp
  ultimately have "\<not> el_running (run_turns [input_example, input_example] ?s)"
    using stop_request_ends_run [of ?s input_example "[input_example]"] by blast
  with r show ?thesis by blast
qed

end
