(* ===== verification/Order_Recovery.thy ===== *)
theory Order_Recovery
  imports Order_Router
begin

text \<open>
  \<^verbatim>\<open>src/order/order_recovery.cpp\<close>: after a restart the order book is rebuilt from the day's
  order pool, from the orders that were handed to the downstream queue and are not terminal.

  The candidates are an \<open>unordered_map\<close>; the order of its iteration is the argument \<open>walk\<close>.
  Reading a slot again without interference gives the same answer, so the retries of
  \<open>read_snapshot_with_retry\<close> are a bounded recursion over the same pool.
\<close>

section \<open>The scan\<close>

definition is_recoverable_stage :: "OrderSlotState \<Rightarrow> bool" where
  "is_recoverable_stage stage = (stage = DownstreamQueued \<or> stage = DownstreamDequeued)"

record recovered_order_candidate =
  rc_index :: OrderIndex
  rc_snapshot :: order_slot_snapshot

record order_recovery_stats =
  rec_scanned :: nat
  rec_eligible :: nat
  rec_restored :: nat
  rec_unreadable :: nat
  rec_dedup_dropped :: nat
  rec_add_failed :: nat
  rec_next_order_seed :: InternalOrderId

definition order_recovery_stats_zero :: order_recovery_stats where
  "order_recovery_stats_zero = \<lparr>rec_scanned = 0, rec_eligible = 0, rec_restored = 0,
     rec_unreadable = 0, rec_dedup_dropped = 0, rec_add_failed = 0, rec_next_order_seed = 1\<rparr>"

type_synonym candidates = "InternalOrderId \<Rightarrow> recovered_order_candidate option"

fun read_snapshot_with_retry :: "nat \<Rightarrow> orders_shm_layout \<Rightarrow> OrderIndex \<Rightarrow> order_slot_snapshot option" where
  "read_snapshot_with_retry 0 shm index = None"
| "read_snapshot_with_retry (Suc n) shm index =
     (case orders_shm_read_snapshot shm index of
        Some snapshot \<Rightarrow> Some snapshot
      | None \<Rightarrow> read_snapshot_with_retry n shm index)"

definition kRecoverReadMaxAttempts :: nat where
  "kRecoverReadMaxAttempts = 5"

definition should_replace :: "OrderIndex \<Rightarrow> order_slot_snapshot \<Rightarrow> recovered_order_candidate \<Rightarrow> bool" where
  "should_replace index snapshot existing =
     (ss_last_update_ns snapshot > ss_last_update_ns (rc_snapshot existing)
      \<or> (ss_last_update_ns snapshot = ss_last_update_ns (rc_snapshot existing) \<and> index > rc_index existing))"

definition scan_slot ::
    "orders_shm_layout \<Rightarrow> OrderIndex \<Rightarrow> candidates \<times> order_recovery_stats \<Rightarrow> candidates \<times> order_recovery_stats" where
  "scan_slot shm index = (\<lambda>(cands, stats).
     let stats = stats\<lparr>rec_scanned := rec_scanned stats + 1\<rparr>
     in case read_snapshot_with_retry kRecoverReadMaxAttempts shm index of
          None \<Rightarrow> (cands, stats\<lparr>rec_unreadable := rec_unreadable stats + 1\<rparr>)
        | Some snapshot \<Rightarrow>
            let order_id = internal_order_id (ss_request snapshot)
            in if \<not> is_recoverable_stage (ss_stage snapshot) then (cands, stats)
               else if order_id = 0 then (cands, stats)
               else if is_terminal_state (order_state (ss_request snapshot)) then (cands, stats)
               else let stats = stats\<lparr>rec_eligible := rec_eligible stats + 1\<rparr>;
                        candidate = \<lparr>rc_index = index, rc_snapshot = snapshot\<rparr>
                    in case cands order_id of
                         None \<Rightarrow> (cands(order_id \<mapsto> candidate), stats)
                       | Some existing \<Rightarrow>
                           (if should_replace index snapshot existing
                            then cands(order_id \<mapsto> candidate) else cands,
                            stats\<lparr>rec_dedup_dropped := rec_dedup_dropped stats + 1\<rparr>))"

definition scan_pool :: "orders_shm_layout \<Rightarrow> candidates \<times> order_recovery_stats" where
  "scan_pool shm =
     fold (scan_slot shm) (map of_nat [0..<unat (os_next_index shm)]) (Map.empty, order_recovery_stats_zero)"

section \<open>Filling the book\<close>

definition recovered_entry :: "TimestampNs \<Rightarrow> recovered_order_candidate \<Rightarrow> OrderEntry" where
  "recovered_entry now candidate =
     (let snapshot = rc_snapshot candidate;
          recovered_time = (if ss_last_update_ns snapshot \<noteq> 0 then ss_last_update_ns snapshot else now)
      in OrderEntry_default\<lparr>request := ss_request snapshot, submit_time_ns := recovered_time,
           last_update_ns := recovered_time, strategy_id := 0, risk_result := Pass, retry_count := 0,
           is_split_child := False, parent_order_id := 0, shm_order_index := rc_index candidate\<rparr>)"

definition restore_one ::
    "TimestampNs \<Rightarrow> candidates \<Rightarrow> InternalOrderId \<Rightarrow> world \<times> InternalOrderId \<times> order_recovery_stats
      \<Rightarrow> world \<times> InternalOrderId \<times> order_recovery_stats" where
  "restore_one now cands order_id = (\<lambda>(w, max_id, stats).
     case cands order_id of
       None \<Rightarrow> (w, max_id, stats)
     | Some candidate \<Rightarrow>
         (case on_book (add_order (recovered_entry now candidate) now) now w of
            (False, w) \<Rightarrow> (w, max_id, stats\<lparr>rec_add_failed := rec_add_failed stats + 1\<rparr>)
          | (True, w) \<Rightarrow> (w, if order_id > max_id then order_id else max_id,
                          stats\<lparr>rec_restored := rec_restored stats + 1\<rparr>)))"

definition next_order_seed :: "upstream_shm_layout option \<Rightarrow> InternalOrderId \<Rightarrow> InternalOrderId" where
  "next_order_seed upstream max_id =
     (let seed = (case upstream of None \<Rightarrow> 1 | Some up \<Rightarrow> us_next_order_id up);
          recovered_next = saturated_next_order_id max_id
      in if recovered_next > seed then recovered_next else seed)"

definition recover_downstream_active_orders ::
    "TimestampNs \<Rightarrow> InternalOrderId list \<Rightarrow> world \<Rightarrow> bool \<times> world \<times> order_recovery_stats" where
  "recover_downstream_active_orders now walk w =
     (case w_orders w of
        None \<Rightarrow> (False, w, order_recovery_stats_zero)
      | Some shm \<Rightarrow>
          let (cands, stats) = scan_pool shm;
              (w, max_id, stats) = fold (restore_one now cands) walk (w, 0, stats);
              seed = next_order_seed (w_upstream w) max_id;
              stats = stats\<lparr>rec_next_order_seed := seed\<rparr>;
              w = (if seed > 0 then w\<lparr>w_book := ensure_next_order_id_at_least seed (w_book w)\<rparr> else w)
          in (True, w, stats))"

section \<open>What the scan finds\<close>

lemma read_retry_eq: "0 < n \<Longrightarrow> read_snapshot_with_retry n shm i = orders_shm_read_snapshot shm i"
proof (induction n)
  case (Suc n)
  then show ?case by (cases n) (auto split: option.split)
qed simp

text \<open>The order a slot stands for, if it is to be recovered.\<close>

definition eligible :: "orders_shm_layout \<Rightarrow> OrderIndex \<Rightarrow> InternalOrderId \<Rightarrow> order_slot_snapshot \<Rightarrow> bool" where
  "eligible shm i order_id snapshot \<longleftrightarrow> orders_shm_read_snapshot shm i = Some snapshot
     \<and> is_recoverable_stage (ss_stage snapshot) \<and> internal_order_id (ss_request snapshot) = order_id
     \<and> order_id \<noteq> 0 \<and> \<not> is_terminal_state (order_state (ss_request snapshot))"

text \<open>Slot \<open>j\<close> is not newer than slot \<open>i\<close>.\<close>

definition not_newer :: "OrderIndex \<times> order_slot_snapshot \<Rightarrow> OrderIndex \<times> order_slot_snapshot \<Rightarrow> bool" where
  "not_newer = (\<lambda>(j, s) (i, t). ss_last_update_ns s < ss_last_update_ns t
     \<or> ss_last_update_ns s = ss_last_update_ns t \<and> j \<le> i)"

definition newest_among ::
    "orders_shm_layout \<Rightarrow> OrderIndex set \<Rightarrow> InternalOrderId \<Rightarrow> recovered_order_candidate \<Rightarrow> bool" where
  "newest_among shm I order_id c \<longleftrightarrow> rc_index c \<in> I \<and> eligible shm (rc_index c) order_id (rc_snapshot c)
     \<and> (\<forall>j s. j \<in> I \<longrightarrow> eligible shm j order_id s \<longrightarrow> not_newer (j, s) (rc_index c, rc_snapshot c))"

definition candidates_for :: "orders_shm_layout \<Rightarrow> OrderIndex set \<Rightarrow> candidates \<Rightarrow> bool" where
  "candidates_for shm I cands \<longleftrightarrow>
     (\<forall>order_id c. cands order_id = Some c \<longrightarrow> newest_among shm I order_id c)
     \<and> (\<forall>order_id. cands order_id = None \<longrightarrow> (\<forall>j s. j \<in> I \<longrightarrow> \<not> eligible shm j order_id s))"

lemma not_newer_refl [simp]: "not_newer a a"
  by (cases a) (simp add: not_newer_def)

lemma not_newer_trans: "not_newer a b \<Longrightarrow> not_newer b c \<Longrightarrow> not_newer a c"
  by (auto simp: not_newer_def split: prod.splits)

lemma should_replace_newer:
  "should_replace i s c \<longleftrightarrow> \<not> not_newer (i, s) (rc_index c, rc_snapshot c)"
  by (auto simp: should_replace_def not_newer_def)

lemma not_newer_total: "\<not> not_newer a b \<Longrightarrow> not_newer b a"
  by (auto simp: not_newer_def split: prod.splits)

lemma eligible_unique: "eligible shm i o1 s \<Longrightarrow> eligible shm i o2 t \<Longrightarrow> o1 = o2 \<and> s = t"
  by (auto simp: eligible_def)

lemma scan_slot_cases:
  obtains (skip) "\<And>order_id s. \<not> eligible shm i order_id s" "fst (scan_slot shm i (cands, stats)) = cands"
  | (new) order_id s where "eligible shm i order_id s" "cands order_id = None"
      "fst (scan_slot shm i (cands, stats)) = cands(order_id \<mapsto> \<lparr>rc_index = i, rc_snapshot = s\<rparr>)"
  | (again) order_id s c where "eligible shm i order_id s" "cands order_id = Some c"
      "fst (scan_slot shm i (cands, stats)) =
         (if should_replace i s c then cands(order_id \<mapsto> \<lparr>rc_index = i, rc_snapshot = s\<rparr>) else cands)"
proof -
  have r: "read_snapshot_with_retry kRecoverReadMaxAttempts shm i = orders_shm_read_snapshot shm i"
    by (rule read_retry_eq) (simp add: kRecoverReadMaxAttempts_def)
  show thesis
  proof (cases "\<exists>order_id s. eligible shm i order_id s")
    case True
    then obtain order_id s where e: "eligible shm i order_id s" by blast
    show thesis
      by (cases "cands order_id")
         (use e new again in \<open>auto simp: eligible_def scan_slot_def r Let_def\<close>)
  next
    case False
    then show thesis
      by (intro skip) (auto simp: eligible_def scan_slot_def r Let_def split: option.split)
  qed
qed

text \<open>One more slot: the entry for its order is settled, the others are as before.\<close>

lemma candidates_for_insert:
  assumes "candidates_for shm I cands" "eligible shm i order_id s"
    "newest_among shm (insert i I) order_id c"
  shows "candidates_for shm (insert i I) (cands(order_id \<mapsto> c))"
proof -
  have only: "o2 = order_id \<and> t = s" if "eligible shm i o2 t" for o2 t
    using that assms(2) eligible_unique by blast
  have "newest_among shm (insert i I) o2 d" if "o2 \<noteq> order_id" "cands o2 = Some d" for o2 d
    using that assms(1) only unfolding newest_among_def candidates_for_def by blast
  moreover have "\<not> eligible shm j o2 t" if "o2 \<noteq> order_id" "cands o2 = None" "j \<in> insert i I" for o2 j t
    using that assms(1) only unfolding candidates_for_def by blast
  ultimately show ?thesis using assms(3) by (simp add: candidates_for_def)
qed

lemma scan_slot_candidates:
  assumes "candidates_for shm I cands"
  shows "candidates_for shm (insert i I) (fst (scan_slot shm i (cands, stats)))"
proof (cases rule: scan_slot_cases [where shm = shm and i = i and cands = cands and stats = stats])
  case skip
  with assms show ?thesis unfolding candidates_for_def newest_among_def by auto
next
  case (new order_id s)
  have none: "\<not> eligible shm j order_id t" if "j \<in> I" for j t
    using that assms new(2) unfolding candidates_for_def by blast
  have "j = i \<and> t = s" if "j \<in> insert i I" "eligible shm j order_id t" for j t
    using that none new(1) eligible_unique by blast
  then have "not_newer (j, t) (i, s)" if "j \<in> insert i I" "eligible shm j order_id t" for j t
    using that by (metis not_newer_refl)
  then have "newest_among shm (insert i I) order_id \<lparr>rc_index = i, rc_snapshot = s\<rparr>"
    using new(1) by (simp add: newest_among_def)
  with candidates_for_insert [OF assms new(1)] new(3) show ?thesis by simp
next
  case (again order_id s c)
  have c: "newest_among shm I order_id c" using assms again(2) by (simp add: candidates_for_def)
  have only: "t = s" if "eligible shm i order_id t" for t
    using that again(1) eligible_unique by blast
  show ?thesis
  proof (cases "should_replace i s c")
    case True
    then have "not_newer (rc_index c, rc_snapshot c) (i, s)"
      by (simp add: should_replace_newer not_newer_total)
    note older = this
    have "not_newer (j, t) (i, s)" if j: "j \<in> insert i I" "eligible shm j order_id t" for j t
    proof (cases "j = i")
      case True
      with j(2) only show ?thesis by simp
    next
      case False
      with j c have "not_newer (j, t) (rc_index c, rc_snapshot c)"
        unfolding newest_among_def by blast
      then show ?thesis using older by (rule not_newer_trans)
    qed
    then have "newest_among shm (insert i I) order_id \<lparr>rc_index = i, rc_snapshot = s\<rparr>"
      using again(1) by (simp add: newest_among_def)
    with candidates_for_insert [OF assms again(1)] again(3) True show ?thesis by simp
  next
    case False
    then have "newest_among shm (insert i I) order_id c"
      using c only unfolding newest_among_def should_replace_newer by blast
    from candidates_for_insert [OF assms again(1) this]
    have "candidates_for shm (insert i I) (cands(order_id := cands order_id))"
      unfolding again(2) .
    with again(3) False show ?thesis by simp
  qed
qed

lemma scan_fold_candidates:
  "candidates_for shm I (fst cs) \<Longrightarrow>
   candidates_for shm (set is \<union> I) (fst (fold (scan_slot shm) is cs))"
proof (induction "is" arbitrary: I cs)
  case (Cons i "is")
  obtain cands stats where cs: "cs = (cands, stats)" by fastforce
  have "candidates_for shm (insert i I) (fst (scan_slot shm i cs))"
    using Cons.prems scan_slot_candidates by (simp add: cs)
  from Cons.IH [OF this] show ?case by simp
qed simp

lemma eligible_index: "eligible shm i order_id s \<Longrightarrow> i < os_next_index shm"
  by (auto simp: eligible_def orders_shm_read_snapshot_def orders_shm_index_exists_def Let_def split: if_splits)

lemma candidates_for_all:
  "candidates_for shm I cands \<Longrightarrow> (\<And>j order_id s. eligible shm j order_id s \<Longrightarrow> j \<in> I) \<Longrightarrow>
   candidates_for shm UNIV cands"
  unfolding candidates_for_def newest_among_def by blast

lemma scan_pool_candidates: "candidates_for shm UNIV (fst (scan_pool shm))"
proof -
  let ?is = "map of_nat [0..<unat (os_next_index shm)] :: OrderIndex list"
  have "candidates_for shm {} Map.empty" by (simp add: candidates_for_def)
  then have c: "candidates_for shm (set ?is) (fst (scan_pool shm))"
    using scan_fold_candidates [of shm "{}" "(Map.empty, order_recovery_stats_zero)" ?is]
    by (simp add: scan_pool_def)
  have "j \<in> set ?is" if "eligible shm j order_id s" for j order_id s
  proof -
    have "unat j < unat (os_next_index shm)" using eligible_index [OF that] by (simp add: word_less_nat_alt)
    moreover have "j = of_nat (unat j)" by simp
    ultimately show ?thesis by (metis atLeast0LessThan imageI lessThan_iff set_map set_upt)
  qed
  with c show ?thesis by (rule candidates_for_all)
qed

section \<open>What the book holds afterwards\<close>

lemma effect_frame:
  "w_book (fold (apply_effect now) fx w) = w_book w
   \<and> w_upstream (fold (apply_effect now) fx w) = w_upstream w
   \<and> w_callback (fold (apply_effect now) fx w) = w_callback w"
proof (induction fx arbitrary: w)
  case (Cons e fx)
  have "w_book (apply_effect now e w) = w_book w \<and> w_upstream (apply_effect now e w) = w_upstream w
      \<and> w_callback (apply_effect now e w) = w_callback w"
    by (cases e) (auto simp: on_order_book_changed_def on_pool_def raise_error_def Let_def
        split: option.splits prod.splits if_splits)
  with Cons.IH show ?case by simp
qed simp

lemma recovered_entry_sel [simp]:
  "request (recovered_entry now c) = ss_request (rc_snapshot c)"
  "is_split_child (recovered_entry now c) = False" "fund_frozen (recovered_entry now c) = 0"
  by (simp_all add: recovered_entry_def OrderEntry_default_def Let_def)

text \<open>Adding an order that is not a child is writing its indices.\<close>

lemma restore_one_accepts:
  assumes ok: "book_ok cap (w_book w)" and c: "cands i = Some c"
    and id: "internal_order_id (ss_request (rc_snapshot c)) = i" "i \<noteq> 0" "id_to_index (w_book w) i = None"
    and free: "free_slots (w_book w) = index # free"
  obtains w' where
    "restore_one now cands i (w, m, st) = (w', max m i, st\<lparr>rec_restored := rec_restored st + 1\<rparr>)"
    "book_ok cap (w_book w')" "w_upstream w' = w_upstream w" "free_slots (w_book w') = free"
    "\<And>j. find_order j (w_book w') =
       (if j = i then Some (stored_entry now (recovered_entry now c)) else find_order j (w_book w))"
    "\<And>j. id_to_index (w_book w') j = None \<longleftrightarrow> j \<noteq> i \<and> id_to_index (w_book w) j = None"
proof -
  let ?e = "recovered_entry now c"
  let ?s = "stored_entry now ?e"
  let ?b = "(insert_indices index free ?s (w_book w))\<lparr>ob_active_count := ob_active_count (w_book w) + 1\<rparr>"
  have a: "add_order ?e now (w_book w) = (True, ?b, [Notify ?s Added])"
    using id free by (subst add_order_eq [where index = index and free = free])
      (simp_all add: Let_def insert_indices_sel)
  define w' where "w' = fold (apply_effect now) [Notify ?s Added] (w\<lparr>w_book := ?b\<rparr>)"
  have w': "w_book w' = ?b" "w_upstream w' = w_upstream w"
    using effect_frame [of now "[Notify ?s Added]" "w\<lparr>w_book := ?b\<rparr>"] by (simp_all add: w'_def)
  have "restore_one now cands i (w, m, st) = (w', max m i, st\<lparr>rec_restored := rec_restored st + 1\<rparr>)"
    by (auto simp add: restore_one_def c on_book_def a w'_def max_def)
  moreover have "book_ok cap (w_book w')"
    using book_ok_insert [OF ok free, of ?s] id by (simp add: w')
  moreover have "find_order j (w_book w') =
      (if j = i then Some ?s else find_order j (w_book w))" for j
  proof -
    have "find_order j ?b = find_order j (insert_indices index free ?s (w_book w))"
      by (simp add: find_order_def)
    moreover have "slots_ok cap (w_book w)" using ok by (simp add: book_ok_def)
    ultimately show ?thesis
      using insert_find_other [OF _ free, of cap j ?s] id by (simp add: w' find_insert_indices)
  qed
  moreover have "id_to_index (w_book w') j = None \<longleftrightarrow> j \<noteq> i \<and> id_to_index (w_book w) j = None" for j
    using id by (simp add: w' insert_indices_sel)
  moreover have "free_slots (w_book w') = free" by (simp add: w' insert_indices_sel)
  ultimately show thesis using that w'(2) by blast
qed

lemma restore_walk:
  assumes "book_ok cap (w_book w)" "distinct walk" "length walk \<le> length (free_slots (w_book w))"
    and "\<And>i. i \<in> set walk \<Longrightarrow> i \<noteq> 0 \<and> id_to_index (w_book w) i = None
      \<and> (\<exists>c. cands i = Some c \<and> internal_order_id (ss_request (rc_snapshot c)) = i)"
    and "fold (restore_one now cands) walk (w, m, st) = (w', m', st')"
  shows "(\<forall>j. find_order j (w_book w') =
      (if j \<in> set walk then map_option (\<lambda>c. stored_entry now (recovered_entry now c)) (cands j)
       else find_order j (w_book w)))
    \<and> w_upstream w' = w_upstream w \<and> m \<le> m' \<and> (\<forall>i \<in> set walk. i \<le> m')"
  using assms
proof (induction walk arbitrary: w m st)
  case (Cons i walk)
  from Cons.prems(4) [of i] obtain c where c: "cands i = Some c"
      "internal_order_id (ss_request (rc_snapshot c)) = i" "i \<noteq> 0" "id_to_index (w_book w) i = None"
    by auto
  from Cons.prems(3) obtain index free where f: "free_slots (w_book w) = index # free"
    by (cases "free_slots (w_book w)") auto
  obtain w1 where w1: "restore_one now cands i (w, m, st) =
        (w1, max m i, st\<lparr>rec_restored := rec_restored st + 1\<rparr>)"
      "book_ok cap (w_book w1)" "w_upstream w1 = w_upstream w" "free_slots (w_book w1) = free"
      and find: "\<And>j. find_order j (w_book w1) =
        (if j = i then Some (stored_entry now (recovered_entry now c)) else find_order j (w_book w))"
      and idx: "\<And>j. id_to_index (w_book w1) j = None \<longleftrightarrow> j \<noteq> i \<and> id_to_index (w_book w) j = None"
    using restore_one_accepts [where cands = cands and i = i and now = now and m = m and st = st, OF Cons.prems(1) c f]
    by blast
  have fold1: "fold (restore_one now cands) walk (w1, max m i, st\<lparr>rec_restored := rec_restored st + 1\<rparr>) = (w', m', st')"
    using Cons.prems(5) by (simp add: w1(1))
  have pre: "j \<noteq> 0 \<and> id_to_index (w_book w1) j = None
      \<and> (\<exists>c. cands j = Some c \<and> internal_order_id (ss_request (rc_snapshot c)) = j)" if "j \<in> set walk" for j
    using that Cons.prems(2,4) idx by auto
  have len: "distinct walk" "length walk \<le> length (free_slots (w_book w1))"
    using Cons.prems(2,3) f w1(4) by auto
  note ih = Cons.IH [OF w1(2) len pre fold1]
  have "i \<notin> set walk" using Cons.prems(2) by simp
  with ih find w1(3) c(1) show ?case by auto
qed simp

lemma unat_succ: "(i :: InternalOrderId) \<noteq> - 1 \<Longrightarrow> unat (i + 1) = Suc (unat i)"
  using unatSuc [of i] max_word_wrap [of i] by (auto simp: add.commute)

lemma saturated_next_mono: "i \<le> j \<Longrightarrow> saturated_next_order_id i \<le> saturated_next_order_id j"
proof (cases "j = - 1")
  case False
  assume "i \<le> j"
  with False have "i \<noteq> - 1" using word_order.extremum_unique by blast
  with False \<open>i \<le> j\<close> show ?thesis
    by (simp add: saturated_next_order_id_def word_le_nat_alt unat_succ)
qed (simp add: saturated_next_order_id_def)


text \<open>C25: a restart rebuilds an empty book with room for every candidate exactly from the pool: each
  order that has a recoverable slot (handed downstream, not terminal) is in the book with the data of
  its most recent such slot (the higher index on equal times), nothing else is in the book, no restored
  order keeps a funds reservation, and the book's own generator is past every restored identifier.\<close>

theorem recovery_restores_newest:
  assumes "w_orders w = Some shm" "w_book w = OrderBook_new cap"
    and walk: "set walk = dom (fst (scan_pool shm))" "distinct walk" "length walk \<le> cap"
    and run: "recover_downstream_active_orders now walk w = (ok, w', stats)"
  shows "ok \<and> (\<forall>order_id. case find_order order_id (w_book w') of
      None \<Rightarrow> \<nexists>i s. eligible shm i order_id s
    | Some e \<Rightarrow> (\<exists>c. newest_among shm UNIV order_id c \<and> e = stored_entry now (recovered_entry now c))
        \<and> fund_frozen e = 0 \<and> saturated_next_order_id order_id \<le> ob_next_order_id (w_book w'))"
proof -
  obtain cands stats0 where s: "scan_pool shm = (cands, stats0)" by fastforce
  have cands: "candidates_for shm UNIV cands" using scan_pool_candidates [of shm] s by simp
  obtain w1 m1 st1 where f: "fold (restore_one now cands) walk (w, 0, stats0) = (w1, m1, st1)"
    by (metis prod_cases3)
  let ?seed = "next_order_seed (w_upstream w1) m1"
  have w': "ok" "w_book w' = ensure_next_order_id_at_least ?seed (w_book w1)"
    using run assms(1) s f
    by (auto simp: recover_downstream_active_orders_def ensure_next_order_id_at_least_def Let_def
        word_gt_0 split: if_splits)
  have "i \<noteq> 0 \<and> id_to_index (w_book w) i = None
      \<and> (\<exists>c. cands i = Some c \<and> internal_order_id (ss_request (rc_snapshot c)) = i)" if i: "i \<in> set walk" for i
  proof -
    obtain c where c: "cands i = Some c" using i walk(1) s by auto
    then have "newest_among shm UNIV i c" using cands by (simp add: candidates_for_def)
    with c show ?thesis by (simp add: newest_among_def eligible_def assms(2) OrderBook_new_def)
  qed
  moreover have "length walk \<le> length (free_slots (w_book w))" using walk(3) by (simp add: assms(2) OrderBook_new_def)
  ultimately have r: "\<forall>j. find_order j (w_book w1) =
      (if j \<in> set walk then map_option (\<lambda>c. stored_entry now (recovered_entry now c)) (cands j)
       else find_order j (w_book w))" "\<forall>i \<in> set walk. i \<le> m1"
    using restore_walk [OF _ walk(2) _ _ f, of cap] book_ok_new [of cap] by (simp_all add: assms(2))
  have find: "find_order j (w_book w') = map_option (\<lambda>c. stored_entry now (recovered_entry now c)) (cands j)" for j
    using r(1) walk(1) s
    by (auto simp: w'(2) ensure_next_order_id_at_least_def find_order_def assms(2) OrderBook_new_def)
  have seed: "saturated_next_order_id i \<le> ob_next_order_id (w_book w')" if "i \<in> set walk" for i
  proof -
    have "saturated_next_order_id i \<le> saturated_next_order_id m1"
      using r(2) that saturated_next_mono by blast
    also have "\<dots> \<le> ?seed" by (auto simp add: next_order_seed_def Let_def)
    also have "\<dots> \<le> ob_next_order_id (w_book w')" by (auto simp add: w'(2) ensure_next_order_id_at_least_def)
    finally show ?thesis .
  qed
  have froz: "fund_frozen (stored_entry now (recovered_entry now c)) = 0" for c
    by (simp add: stored_entry_def Let_def)
  show ?thesis
  proof (intro conjI allI)
    fix j
    show "case find_order j (w_book w') of
      None \<Rightarrow> \<nexists>i s. eligible shm i j s
    | Some e \<Rightarrow> (\<exists>c. newest_among shm UNIV j c \<and> e = stored_entry now (recovered_entry now c))
        \<and> fund_frozen e = 0 \<and> saturated_next_order_id j \<le> ob_next_order_id (w_book w')"
    proof (cases "cands j")
      case None
      with cands find show ?thesis by (simp add: candidates_for_def)
    next
      case (Some c)
      then have "newest_among shm UNIV j c" "j \<in> set walk"
        using cands walk(1) s by (auto simp: candidates_for_def)
      with Some find seed froz show ?thesis by auto
    qed
  qed (rule w'(1))
qed

section \<open>A restarted day\<close>

text \<open>One order in the pool, queued downstream, as the router left it before the restart.\<close>

definition pool_example :: orders_shm_layout where
  "pool_example = snd (orders_shm_append (request (order_example 7 100)) DownstreamQueued AccountInternal 50
     (orders_shm_new 8))"

definition restart_example :: "upstream_shm_layout option \<Rightarrow> world" where
  "restart_example up = \<lparr>w_book = OrderBook_new 4, w_downstream = None, w_orders = Some pool_example,
     w_upstream = up, w_errors = error_state_init, w_router = router_stats_zero, w_callback = False\<rparr>"


lemma scan_example:
  "fst (scan_pool pool_example) = [7 \<mapsto> \<lparr>rc_index = 0, rc_snapshot =
     \<lparr>ss_request = request (order_example 7 100), ss_stage = DownstreamQueued, ss_source = AccountInternal,
      ss_last_update_ns = 50\<rparr>\<rparr>]"
proof -
  have "[0..<unat (os_next_index pool_example)] = [0]"
    by (simp add: pool_example_def orders_shm_append_def orders_shm_try_allocate_def orders_shm_new_def
        orders_shm_write_order_def orders_shm_mutate_slot_def orders_shm_index_exists_def
        kInvalidOrderIndex_def Let_def)
  then show ?thesis
    by (simp add: scan_pool_def scan_slot_def read_retry_eq kRecoverReadMaxAttempts_def read_snapshot_eq
        slot_snapshot_def pool_example_def orders_shm_append_def orders_shm_try_allocate_def orders_shm_new_def
        orders_shm_write_order_def orders_shm_mutate_slot_def orders_shm_index_exists_def
        kInvalidOrderIndex_def OrderSlot_default_def is_recoverable_stage_def
        order_example_def OrderRequest_default_def Let_def)
qed

lemma recovery_restores_newest_witness:
  "\<exists>e. find_order 7 (w_book (fst (snd (recover_downstream_active_orders 90 [7] (restart_example None))))) = Some e
     \<and> fund_frozen e = 0 \<and> volume_entrust (request e) = 100 \<and> shm_order_index e = 0"
proof -
  let ?r = "recover_downstream_active_orders 90 [7] (restart_example None)"
  let ?b = "w_book (fst (snd ?r))"
  have e: "eligible pool_example 0 7 \<lparr>ss_request = request (order_example 7 100), ss_stage = DownstreamQueued,
      ss_source = AccountInternal, ss_last_update_ns = 50\<rparr>"
    using scan_pool_candidates [of pool_example] scan_example
    by (auto simp: candidates_for_def newest_among_def dest: spec [of _ 7])
  have r: "\<forall>order_id. case find_order order_id ?b of
      None \<Rightarrow> \<nexists>i s. eligible pool_example i order_id s
    | Some e \<Rightarrow> (\<exists>c. newest_among pool_example UNIV order_id c \<and> e = stored_entry 90 (recovered_entry 90 c))
        \<and> fund_frozen e = 0 \<and> saturated_next_order_id order_id \<le> ob_next_order_id ?b"
    using recovery_restores_newest [of "restart_example None" pool_example 4 "[7]" 90 "fst ?r" "fst (snd ?r)" "snd (snd ?r)"]
    by (simp add: restart_example_def scan_example)
  show ?thesis
  proof (cases "find_order 7 ?b")
    case None
    with r [rule_format, of 7] e show ?thesis by auto
  next
    case (Some x)
    with r [rule_format, of 7] obtain c where c: "newest_among pool_example UNIV 7 c"
      "x = stored_entry 90 (recovered_entry 90 c)" "fund_frozen x = 0" by auto
    have only: "eligible pool_example j 7 t \<Longrightarrow> j = 0" for j t
      using eligible_index [of pool_example j 7 t]
      by (simp add: pool_example_def orders_shm_append_def orders_shm_try_allocate_def orders_shm_new_def
        orders_shm_write_order_def orders_shm_mutate_slot_def orders_shm_index_exists_def
        kInvalidOrderIndex_def Let_def word_less_nat_alt unat_eq_zero)
    with c(1) have "rc_index c = 0" by (auto simp: newest_among_def)
    moreover from this c(1) e have "rc_snapshot c = \<lparr>ss_request = request (order_example 7 100),
        ss_stage = DownstreamQueued, ss_source = AccountInternal, ss_last_update_ns = 50\<rparr>"
      using eligible_unique unfolding newest_among_def by metis
    ultimately show ?thesis using Some c(2,3)
      by (simp add: stored_entry_def recovered_entry_def order_example_def OrderEntry_default_def
          OrderRequest_default_def Let_def)
  qed
qed

text \<open>
  The seed moves the book's generator only; with an upstream segment the router numbers from
  the segment's counter, which recovery leaves alone, so a restored identifier can be issued again.
\<close>

lemma recovered_id_reissued:
  "let w = fst (snd (recover_downstream_active_orders 90 [7]
             (restart_example (Some \<lparr>us_next_order_id = 7, us_queue = \<lparr>q_head = 0, q_tail = 0, q_buffer = (\<lambda>_. 0)\<rparr>\<rparr>))))
   in fst (allocate_internal_order_id w) = 7 \<and> find_order 7 (w_book w) \<noteq> None \<and> ob_next_order_id (w_book w) = 8"
  by code_simp

end
