(* ===== verification/Broker_Api.thy ===== *)
theory Broker_Api
  imports Security_Identity
begin

text \<open>
  \<^verbatim>\<open>include/broker_api/broker_api.hpp\<close>, the binary interface between the gateway and a broker
  plugin, and the two mappers of the gateway: \<^verbatim>\<open>gateway/src/order_mapper.cpp\<close> turns an order
  slot into a broker request, \<^verbatim>\<open>gateway/src/response_mapper.cpp\<close> turns a broker event into a
  trade response.  A \<open>char\<close> array is the string of its bytes; one the gateway fills is
  zero-terminated and is represented by the bytes before the terminator.  The enumerators keep
  their names and are qualified by their type where \<open>Order_Types\<close> has the same name.
\<close>

section \<open>The interface\<close>

datatype request_type = Unknown | New | Cancel

datatype side = Unknown | Buy | Sell

datatype market = Unknown | SZ | SH | BJ | HK

datatype event_kind = EventNone | BrokerAccepted | BrokerRejected | MarketRejected | Trade | Finished

record broker_runtime_config =
  brc_account_id :: u32
  brc_auto_fill :: bool

record broker_order_request =
  br_internal_order_id :: u32
  br_orig_internal_order_id :: u32
  br_internal_security_id :: string
  br_type :: request_type
  br_trade_side :: side
  br_order_market :: market
  br_volume :: u64
  br_price :: u64
  br_md_time :: u32
  br_security_id :: string

definition broker_order_request_zero :: broker_order_request where
  "broker_order_request_zero = \<lparr>br_internal_order_id = 0, br_orig_internal_order_id = 0,
     br_internal_security_id = [], br_type = request_type.Unknown, br_trade_side = side.Unknown,
     br_order_market = market.Unknown, br_volume = 0, br_price = 0, br_md_time = 0,
     br_security_id = []\<rparr>"

record send_result =
  sr_accepted :: bool
  sr_retryable :: bool
  sr_error_code :: int

definition send_ok :: send_result where
  "send_ok = \<lparr>sr_accepted = True, sr_retryable = False, sr_error_code = 0\<rparr>"

definition retryable_error :: "int \<Rightarrow> send_result" where
  "retryable_error code = \<lparr>sr_accepted = False, sr_retryable = True, sr_error_code = code\<rparr>"

definition fatal_error :: "int \<Rightarrow> send_result" where
  "fatal_error code = \<lparr>sr_accepted = False, sr_retryable = False, sr_error_code = code\<rparr>"

record broker_event =
  be_kind :: event_kind
  be_internal_order_id :: u32
  be_broker_order_id :: u32
  be_internal_security_id :: string
  be_trade_side :: side
  be_volume_traded :: u64
  be_cancelled_volume :: u64
  be_price_traded :: u64
  be_value_traded :: u64
  be_fee :: u64
  be_md_time_traded :: u32
  be_recv_time_ns :: u64

definition broker_event_zero :: broker_event where
  "broker_event_zero = \<lparr>be_kind = EventNone, be_internal_order_id = 0, be_broker_order_id = 0,
     be_internal_security_id = [], be_trade_side = side.Unknown, be_volume_traded = 0,
     be_cancelled_volume = 0, be_price_traded = 0, be_value_traded = 0, be_fee = 0,
     be_md_time_traded = 0, be_recv_time_ns = 0\<rparr>"

section \<open>The order mapper\<close>

fun to_broker_request_type :: "OrderType \<Rightarrow> request_type" where
  "to_broker_request_type OrderType.New = request_type.New"
| "to_broker_request_type OrderType.Cancel = request_type.Cancel"
| "to_broker_request_type _ = request_type.Unknown"

fun to_broker_market :: "Market \<Rightarrow> market" where
  "to_broker_market Market.SZ = market.SZ"
| "to_broker_market Market.SH = market.SH"
| "to_broker_market Market.BJ = market.BJ"
| "to_broker_market Market.HK = market.HK"
| "to_broker_market _ = market.Unknown"

fun to_broker_side :: "TradeSide \<Rightarrow> side" where
  "to_broker_side TradeSide.Buy = side.Buy"
| "to_broker_side TradeSide.Sell = side.Sell"
| "to_broker_side _ = side.Unknown"

fun to_order_side :: "side \<Rightarrow> TradeSide" where
  "to_order_side side.Buy = TradeSide.Buy"
| "to_order_side side.Sell = TradeSide.Sell"
| "to_order_side _ = TradeSide.NotSet"

definition copy_security_id :: "SecurityId \<Rightarrow> nat \<Rightarrow> string" where
  "copy_security_id source capacity = take (min (length source) (capacity - 1)) source"

definition copy_internal_security_id :: "InternalSecurityId \<Rightarrow> nat \<Rightarrow> string" where
  "copy_internal_security_id source capacity =
     (let ident = (case normalize_internal_security_id source of
                     Some normalized_id \<Rightarrow> normalized_id | None \<Rightarrow> source)
      in take (min (length ident) (capacity - 1)) ident)"

definition map_order_request_to_broker :: "OrderRequest \<Rightarrow> broker_order_request option" where
  "map_order_request_to_broker req =
     (let mapped_type = to_broker_request_type (order_type req)
      in if internal_order_id req = 0 then None
         else if mapped_type = request_type.Unknown then None
         else let out = broker_order_request_zero\<lparr>
                    br_internal_order_id := internal_order_id req,
                    br_orig_internal_order_id := orig_internal_order_id req,
                    br_internal_security_id := copy_internal_security_id (internal_security_id req) 16,
                    br_type := mapped_type,
                    br_trade_side := to_broker_side (trade_side req),
                    br_order_market := to_broker_market (market req),
                    br_volume := volume_entrust req,
                    br_price := dprice_entrust req,
                    br_md_time := (if md_time_entrust req \<noteq> 0 then md_time_entrust req
                                   else md_time_driven req)\<rparr>
              in if br_type out = request_type.New then
                   if br_trade_side out = side.Unknown \<or> br_order_market out = market.Unknown
                      \<or> br_volume out = 0 \<or> br_price out = 0 then None
                   else let out = out\<lparr>br_security_id := copy_security_id (security_id req) 16\<rparr>
                        in if br_security_id out = [] then None else Some out
                 else Some out)"

section \<open>The response mapper\<close>

fun map_event_kind_to_state :: "event_kind \<Rightarrow> OrderState" where
  "map_event_kind_to_state BrokerAccepted = OrderState.BrokerAccepted"
| "map_event_kind_to_state BrokerRejected = OrderState.BrokerRejected"
| "map_event_kind_to_state MarketRejected = OrderState.MarketRejected"
| "map_event_kind_to_state Trade = OrderState.MarketAccepted"
| "map_event_kind_to_state Finished = OrderState.Finished"
| "map_event_kind_to_state EventNone = OrderState.Unknown"

text \<open>\<open>strnlen\<close> on an array of \<open>n\<close> bytes that need not be terminated.\<close>

definition strn_view :: "nat \<Rightarrow> string \<Rightarrow> string" where
  "strn_view n s = cstr_view (take n s)"

definition event_security_key :: "broker_event \<Rightarrow> InternalSecurityId option" where
  "event_security_key event =
     (let raw = strn_view 16 (be_internal_security_id event)
      in if raw = [] then Some [] else normalize_internal_security_id raw)"

definition map_broker_event_to_trade_response :: "broker_event \<Rightarrow> TimestampNs \<Rightarrow> TradeResponse option" where
  "map_broker_event_to_trade_response event now =
     (let mapped_state = map_event_kind_to_state (be_kind event)
      in if be_internal_order_id event = 0 then None
         else if mapped_state = OrderState.Unknown then None
         else case event_security_key event of
           None \<Rightarrow> None
         | Some key \<Rightarrow> Some (TradeResponse_zero\<lparr>
             tr_internal_order_id := be_internal_order_id event,
             tr_broker_order_id := be_broker_order_id event,
             tr_internal_security_id := key,
             tr_trade_side := to_order_side (be_trade_side event),
             tr_new_state := mapped_state,
             tr_volume_traded := be_volume_traded event,
             tr_cancelled_volume := be_cancelled_volume event,
             tr_dprice_traded := be_price_traded event,
             tr_dvalue_traded := be_value_traded event,
             tr_dfee := be_fee event,
             tr_md_time_traded := be_md_time_traded event,
             tr_recv_time_ns := (if be_recv_time_ns event \<noteq> 0 then be_recv_time_ns event else now)\<rparr>))"

end
