(* ===== verification/Gateway.thy ===== *)
theory Gateway
  imports Broker_Api Orders_Shm Spsc_Queue Error_Model
begin

text \<open>
  \<^verbatim>\<open>gateway/src/gateway_loop.cpp\<close>: the process between the downstream queue and a broker.  One
  turn submits the requests whose retry is due, takes a batch of orders from the downstream
  queue, and turns a batch of the broker's events into trade responses.

  The broker adapter is a plugin behind \<open>IBrokerAdapter\<close>: a state of any type with a \<open>submit\<close>
  and a \<open>poll\<close> function, the arguments of the definitions below; \<open>Sim_Broker\<close> has the one that
  comes with the program.  All readings of the clock in one call share a value, those of the
  plugin included.  Between two
  turns the account service may change the shared memories in any way; within a turn nothing
  else runs, so the three attempts of \<open>push_response\<close> see the same queue.
\<close>

section \<open>State\<close>

record gateway_config =
  gc_poll_batch_size :: u32
  gc_idle_sleep_us :: u32
  gc_stats_interval_ms :: u32
  gc_max_retry_attempts :: u32
  gc_retry_interval_us :: u32

definition gateway_config_default :: gateway_config where
  "gateway_config_default = \<lparr>gc_poll_batch_size = 64, gc_idle_sleep_us = 50,
     gc_stats_interval_ms = 1000, gc_max_retry_attempts = 3, gc_retry_interval_us = 200\<rparr>"

record gateway_stats =
  gs_loop_iterations :: u64
  gs_idle_iterations :: u64
  gs_orders_received :: u64
  gs_orders_submitted :: u64
  gs_orders_failed :: u64
  gs_retries_scheduled :: u64
  gs_retries_exhausted :: u64
  gs_events_received :: u64
  gs_responses_pushed :: u64
  gs_responses_dropped :: u64
  gs_retry_queue_size :: u64
  gs_last_order_time_ns :: TimestampNs

definition gateway_stats_zero :: gateway_stats where
  "gateway_stats_zero = \<lparr>gs_loop_iterations = 0, gs_idle_iterations = 0, gs_orders_received = 0,
     gs_orders_submitted = 0, gs_orders_failed = 0, gs_retries_scheduled = 0,
     gs_retries_exhausted = 0, gs_events_received = 0, gs_responses_pushed = 0,
     gs_responses_dropped = 0, gs_retry_queue_size = 0, gs_last_order_time_ns = 0\<rparr>"

record retry_item =
  ri_request :: broker_order_request
  ri_attempts :: u32
  ri_next_retry_at_ns :: TimestampNs

record 'a gateway_loop =
  gw_config :: gateway_config
  gw_downstream :: "OrderIndex spsc_queue option"
  gw_trades :: "TradeResponse spsc_queue option"
  gw_orders :: "orders_shm_layout option"
  gw_adapter :: 'a
  gw_running :: bool
  gw_retry_queue :: "retry_item list"
  gw_stats :: gateway_stats
  gw_last_stats_print_ns :: TimestampNs
  gw_errors :: error_state

type_synonym 'a adapter_submit = "TimestampNs \<Rightarrow> broker_order_request \<Rightarrow> 'a \<Rightarrow> send_result \<times> 'a"
type_synonym 'a adapter_poll = "TimestampNs \<Rightarrow> nat \<Rightarrow> 'a \<Rightarrow> broker_event list \<times> 'a"

definition gateway_new ::
    "gateway_config \<Rightarrow> OrderIndex spsc_queue option \<Rightarrow> TradeResponse spsc_queue option
      \<Rightarrow> orders_shm_layout option \<Rightarrow> 'a \<Rightarrow> 'a gateway_loop" where
  "gateway_new config downstream trades orders adapter =
     \<lparr>gw_config = config, gw_downstream = downstream, gw_trades = trades, gw_orders = orders,
      gw_adapter = adapter, gw_running = False, gw_retry_queue = [], gw_stats = gateway_stats_zero,
      gw_last_stats_print_ns = 0, gw_errors = error_state_init\<rparr>"

definition on_gw_stats :: "(gateway_stats \<Rightarrow> gateway_stats) \<Rightarrow> 'a gateway_loop \<Rightarrow> 'a gateway_loop" where
  "on_gw_stats f g = g\<lparr>gw_stats := f (gw_stats g)\<rparr>"

definition gw_raise :: "ErrorDomain \<Rightarrow> ErrorCode \<Rightarrow> TimestampNs \<Rightarrow> 'a gateway_loop \<Rightarrow> 'a gateway_loop" where
  "gw_raise domain code now g =
     g\<lparr>gw_errors := record_error (make_error_status domain code [] [] 0 [] 0 now) (gw_errors g)\<rparr>"

abbreviation count_gw_submitted :: "'a gateway_loop \<Rightarrow> 'a gateway_loop" where
  "count_gw_submitted \<equiv> on_gw_stats (\<lambda>st. st\<lparr>gs_orders_submitted := gs_orders_submitted st + 1\<rparr>)"

abbreviation count_gw_failed :: "'a gateway_loop \<Rightarrow> 'a gateway_loop" where
  "count_gw_failed \<equiv> on_gw_stats (\<lambda>st. st\<lparr>gs_orders_failed := gs_orders_failed st + 1\<rparr>)"

abbreviation count_gw_pushed :: "'a gateway_loop \<Rightarrow> 'a gateway_loop" where
  "count_gw_pushed \<equiv> on_gw_stats (\<lambda>st. st\<lparr>gs_responses_pushed := gs_responses_pushed st + 1\<rparr>)"

abbreviation count_gw_dropped :: "'a gateway_loop \<Rightarrow> 'a gateway_loop" where
  "count_gw_dropped \<equiv> on_gw_stats (\<lambda>st. st\<lparr>gs_responses_dropped := gs_responses_dropped st + 1\<rparr>)"

definition stop_gateway :: "'a gateway_loop \<Rightarrow> 'a gateway_loop" where
  "stop_gateway g = g\<lparr>gw_running := False\<rparr>"

section \<open>Responses\<close>

definition kResponsePushAttempts :: nat where
  "kResponsePushAttempts = 3"

fun push_attempts :: "nat \<Rightarrow> TradeResponse \<Rightarrow> 'a gateway_loop \<Rightarrow> bool \<times> 'a gateway_loop" where
  "push_attempts 0 response g = (False, g)"
| "push_attempts (Suc n) response g =
     (case gw_trades g of
        None \<Rightarrow> (False, g)
      | Some q \<Rightarrow>
          let (pushed, q) = try_push kQueueCapacity response q
          in if pushed then (True, g\<lparr>gw_trades := Some q\<rparr>) else push_attempts n response g)"

definition push_response :: "TradeResponse \<Rightarrow> 'a gateway_loop \<Rightarrow> bool \<times> 'a gateway_loop" where
  "push_response response g = push_attempts kResponsePushAttempts response g"

definition trader_error_response :: "InternalOrderId \<Rightarrow> InternalSecurityId \<Rightarrow> TradeSide \<Rightarrow> TimestampNs \<Rightarrow> TradeResponse" where
  "trader_error_response ident key side_value now =
     (let key = (if key \<noteq> [] then case normalize_internal_security_id key of
                                     Some normalized \<Rightarrow> normalized | None \<Rightarrow> key
                 else key)
      in TradeResponse_zero\<lparr>tr_internal_order_id := ident, tr_internal_security_id := key,
           tr_trade_side := side_value, tr_new_state := OrderState.TraderError,
           tr_recv_time_ns := now\<rparr>)"

definition emit_trader_error ::
    "InternalOrderId \<Rightarrow> InternalSecurityId \<Rightarrow> TradeSide \<Rightarrow> TimestampNs \<Rightarrow> 'a gateway_loop \<Rightarrow> 'a gateway_loop" where
  "emit_trader_error ident key side_value now g =
     (if ident = 0 then g
      else let (pushed, g) = push_response (trader_error_response ident key side_value now) g
           in if pushed then count_gw_pushed g else count_gw_dropped g)"

section \<open>Requests\<close>

definition schedule_retry :: "broker_order_request \<Rightarrow> u32 \<Rightarrow> TimestampNs \<Rightarrow> 'a gateway_loop \<Rightarrow> 'a gateway_loop" where
  "schedule_retry req attempts now g =
     (let item = \<lparr>ri_request = req, ri_attempts = attempts + 1,
                  ri_next_retry_at_ns = now + ucast (gc_retry_interval_us (gw_config g)) * 1000\<rparr>;
          g = g\<lparr>gw_retry_queue := gw_retry_queue g @ [item]\<rparr>
      in on_gw_stats (\<lambda>st. st\<lparr>gs_retries_scheduled := gs_retries_scheduled st + 1,
                              gs_retry_queue_size := of_nat (length (gw_retry_queue g))\<rparr>) g)"

definition failed_request_key :: "broker_order_request \<Rightarrow> InternalSecurityId" where
  "failed_request_key req =
     (let raw = strn_view 16 (br_internal_security_id req)
      in if raw = [] then []
         else case normalize_internal_security_id raw of
                Some key \<Rightarrow> key | None \<Rightarrow> fs_assign 16 raw)"

definition submit_request ::
    "'a adapter_submit \<Rightarrow> broker_order_request \<Rightarrow> u32 \<Rightarrow> TimestampNs \<Rightarrow> 'a gateway_loop \<Rightarrow> 'a gateway_loop" where
  "submit_request submit req attempts now g =
     (let (result, adapter) = submit now req (gw_adapter g);
          g = g\<lparr>gw_adapter := adapter\<rparr>
      in if sr_accepted result then count_gw_submitted g
         else if sr_retryable result \<and> attempts < gc_max_retry_attempts (gw_config g)
           then schedule_retry req attempts now g
         else let g = count_gw_failed g;
                  g = (if attempts > 0
                       then on_gw_stats (\<lambda>st. st\<lparr>gs_retries_exhausted := gs_retries_exhausted st + 1\<rparr>) g
                       else g)
              in emit_trader_error (br_internal_order_id req) (failed_request_key req)
                   (to_order_side (br_trade_side req)) now g)"

text \<open>
  \<open>process_retry_queue\<close> goes once round the queue as it was when the turn began; an item that
  is not due goes to the back.
\<close>

fun retry_pass :: "nat \<Rightarrow> 'a adapter_submit \<Rightarrow> TimestampNs \<Rightarrow> 'a gateway_loop \<Rightarrow> bool \<times> 'a gateway_loop" where
  "retry_pass 0 submit now g = (False, g)"
| "retry_pass (Suc n) submit now g =
     (case gw_retry_queue g of
        [] \<Rightarrow> (False, g)
      | item # rest \<Rightarrow>
          if ri_next_retry_at_ns item > now
          then retry_pass n submit now (g\<lparr>gw_retry_queue := rest @ [item]\<rparr>)
          else (True, snd (retry_pass n submit now
                 (submit_request submit (ri_request item) (ri_attempts item) now
                    (g\<lparr>gw_retry_queue := rest\<rparr>)))))"

definition process_retry_queue :: "'a adapter_submit \<Rightarrow> TimestampNs \<Rightarrow> 'a gateway_loop \<Rightarrow> bool \<times> 'a gateway_loop" where
  "process_retry_queue submit now g =
     (if gw_retry_queue g = [] then (False, g)
      else let (did_work, g) = retry_pass (length (gw_retry_queue g)) submit now g
           in (did_work, on_gw_stats (\<lambda>st. st\<lparr>gs_retry_queue_size := of_nat (length (gw_retry_queue g))\<rparr>) g))"

section \<open>Orders\<close>

definition take_downstream :: "OrderIndex \<Rightarrow> TimestampNs \<Rightarrow> 'a gateway_loop \<Rightarrow> OrderRequest option \<times> 'a gateway_loop" where
  "take_downstream index now g =
     (case gw_orders g of
        None \<Rightarrow> (None, gw_raise D_order OrderNotFound now (count_gw_failed g))
      | Some shm \<Rightarrow>
          (case orders_shm_read_snapshot shm index of
             None \<Rightarrow> (None, gw_raise D_order OrderNotFound now (count_gw_failed g))
           | Some snapshot \<Rightarrow>
               (Some (ss_request snapshot),
                g\<lparr>gw_orders := Some (snd (orders_shm_update_stage index DownstreamDequeued now shm))\<rparr>)))"

definition handle_downstream :: "'a adapter_submit \<Rightarrow> OrderIndex \<Rightarrow> TimestampNs \<Rightarrow> 'a gateway_loop \<Rightarrow> 'a gateway_loop" where
  "handle_downstream submit index now g =
     (let g = on_gw_stats (\<lambda>st. st\<lparr>gs_orders_received := gs_orders_received st + 1,
                                   gs_last_order_time_ns := now\<rparr>) g
      in case take_downstream index now g of
           (None, g) \<Rightarrow> g
         | (Some req, g) \<Rightarrow>
             (case map_order_request_to_broker req of
                None \<Rightarrow> emit_trader_error (internal_order_id req) (internal_security_id req)
                          (trade_side req) now (count_gw_failed g)
              | Some mapped \<Rightarrow> submit_request submit mapped 0 now g))"

fun order_batch :: "nat \<Rightarrow> 'a adapter_submit \<Rightarrow> TimestampNs \<Rightarrow> 'a gateway_loop \<Rightarrow> bool \<times> 'a gateway_loop" where
  "order_batch 0 submit now g = (False, g)"
| "order_batch (Suc limit) submit now g =
     (case gw_downstream g of
        None \<Rightarrow> (False, g)
      | Some q \<Rightarrow>
          (case try_pop kQueueCapacity q of
             (None, q) \<Rightarrow> (False, g)
           | (Some index, q) \<Rightarrow>
               (True, snd (order_batch limit submit now
                  (handle_downstream submit index now (g\<lparr>gw_downstream := Some q\<rparr>))))))"

definition process_orders :: "'a adapter_submit \<Rightarrow> u32 \<Rightarrow> TimestampNs \<Rightarrow> 'a gateway_loop \<Rightarrow> bool \<times> 'a gateway_loop" where
  "process_orders submit limit now g = order_batch (unat limit) submit now g"

section \<open>Events\<close>

fun event_batch :: "broker_event list \<Rightarrow> TimestampNs \<Rightarrow> 'a gateway_loop \<Rightarrow> 'a gateway_loop" where
  "event_batch [] now g = g"
| "event_batch (event # events) now g =
     (case map_broker_event_to_trade_response event now of
        None \<Rightarrow> event_batch events now (count_gw_dropped g)
      | Some response \<Rightarrow>
          (case push_response response g of
             (True, g) \<Rightarrow> event_batch events now (count_gw_pushed g)
           | (False, g) \<Rightarrow>
               gw_raise D_order ErrQueuePushFailed now (stop_gateway (count_gw_dropped g))))"

definition kMaxEventBatch :: nat where
  "kMaxEventBatch = 256"

definition process_events :: "'a adapter_poll \<Rightarrow> u32 \<Rightarrow> TimestampNs \<Rightarrow> 'a gateway_loop \<Rightarrow> bool \<times> 'a gateway_loop" where
  "process_events poll limit now g =
     (if limit = 0 then (False, g)
      else let (events, adapter) = poll now (min (unat limit) kMaxEventBatch) (gw_adapter g);
               g = g\<lparr>gw_adapter := adapter\<rparr>
           in if events = [] then (False, g)
              else (True, event_batch events now
                      (on_gw_stats (\<lambda>st. st\<lparr>gs_events_received :=
                          gs_events_received st + of_nat (length events)\<rparr>) g)))"

section \<open>The loop\<close>

text \<open>
  What a turn reads from outside: the clock of each part, what the account service did to the
  shared memories since the last turn, and whether \<open>stop\<close> was called meanwhile.
\<close>

record gateway_input =
  gi_retry_now :: TimestampNs
  gi_orders_now :: TimestampNs
  gi_events_now :: TimestampNs
  gi_stats_now :: TimestampNs
  gi_downstream :: "OrderIndex spsc_queue \<Rightarrow> OrderIndex spsc_queue"
  gi_trades :: "TradeResponse spsc_queue \<Rightarrow> TradeResponse spsc_queue"
  gi_orders :: "orders_shm_layout \<Rightarrow> orders_shm_layout"
  gi_stop :: bool

definition gateway_turn :: "'a adapter_submit \<Rightarrow> 'a adapter_poll \<Rightarrow> gateway_input \<Rightarrow> 'a gateway_loop \<Rightarrow> 'a gateway_loop" where
  "gateway_turn submit poll inp g =
     (let g = on_gw_stats (\<lambda>st. st\<lparr>gs_loop_iterations := gs_loop_iterations st + 1\<rparr>) g;
          (retried, g) = process_retry_queue submit (gi_retry_now inp) g;
          (taken, g) = process_orders submit (gc_poll_batch_size (gw_config g)) (gi_orders_now inp) g;
          (polled, g) = process_events poll (gc_poll_batch_size (gw_config g)) (gi_events_now inp) g;
          g = (if \<not> (retried \<or> taken \<or> polled)
               then on_gw_stats (\<lambda>st. st\<lparr>gs_idle_iterations := gs_idle_iterations st + 1\<rparr>) g else g);
          now = gi_stats_now inp
      in if gc_stats_interval_ms (gw_config g) > 0
            \<and> now \<ge> gw_last_stats_print_ns g + ucast (gc_stats_interval_ms (gw_config g)) * 1000000
         then g\<lparr>gw_last_stats_print_ns := now\<rparr> else g)"

definition account_side :: "gateway_input \<Rightarrow> 'a gateway_loop \<Rightarrow> 'a gateway_loop" where
  "account_side inp g = g\<lparr>gw_downstream := map_option (gi_downstream inp) (gw_downstream g),
     gw_trades := map_option (gi_trades inp) (gw_trades g),
     gw_orders := map_option (gi_orders inp) (gw_orders g)\<rparr>"

text \<open>\<open>None\<close>: still running when the inputs are used up.\<close>

fun gateway_turns :: "'a adapter_submit \<Rightarrow> 'a adapter_poll \<Rightarrow> gateway_input list \<Rightarrow> 'a gateway_loop
    \<Rightarrow> int option \<times> 'a gateway_loop" where
  "gateway_turns submit poll [] g = (if gw_running g then None else Some 0, g)"
| "gateway_turns submit poll (inp # inputs) g =
     (if \<not> gw_running g then (Some 0, g)
      else let g = gateway_turn submit poll inp (account_side inp g);
               g = (if gi_stop inp then stop_gateway g else g)
           in gateway_turns submit poll inputs g)"

definition run_gateway :: "'a adapter_submit \<Rightarrow> 'a adapter_poll \<Rightarrow> TimestampNs \<Rightarrow> gateway_input list
    \<Rightarrow> 'a gateway_loop \<Rightarrow> int option \<times> 'a gateway_loop" where
  "run_gateway submit poll now inputs g =
     (if gw_downstream g = None \<or> gw_trades g = None \<or> gw_orders g = None
      then (Some 1, gw_raise D_core ComponentUnavailable now g)
      else gateway_turns submit poll inputs (g\<lparr>gw_running := True, gw_last_stats_print_ns := now\<rparr>))"

end
