(* ===== verification/Sim_Broker.thy ===== *)
theory Sim_Broker
  imports Gateway
begin

text \<open>
  \<^verbatim>\<open>gateway/src/sim_broker_adapter.cpp\<close>: the broker adapter that comes with the program.  It
  accepts every well-formed order, fills it at once when configured so, and answers a cancel
  with the remaining volume of the order.  Clock readings are an argument of \<open>submit\<close>, the
  value all events of one call carry.
\<close>

section \<open>State and operations\<close>

record active_order_state =
  ao_broker_order_id :: u32
  ao_trade_side :: side
  ao_entrust_volume :: u64
  ao_traded_volume :: u64
  ao_price :: u64
  ao_md_time :: u32

record sim_broker_adapter =
  sb_auto_fill :: bool
  sb_initialized :: bool
  sb_next_broker_order_id :: u32
  sb_active_orders :: "u32 \<Rightarrow> active_order_state option"
  sb_pending_events :: "broker_event list"

definition sim_broker_new :: sim_broker_adapter where
  "sim_broker_new = \<lparr>sb_auto_fill = True, sb_initialized = False, sb_next_broker_order_id = 1,
     sb_active_orders = Map.empty, sb_pending_events = []\<rparr>"

definition sim_initialize :: "broker_runtime_config \<Rightarrow> sim_broker_adapter \<Rightarrow> bool \<times> sim_broker_adapter" where
  "sim_initialize config b =
     (True, b\<lparr>sb_auto_fill := brc_auto_fill config, sb_initialized := True,
              sb_next_broker_order_id := 1, sb_active_orders := Map.empty, sb_pending_events := []\<rparr>)"

definition make_base_event :: "event_kind \<Rightarrow> broker_order_request \<Rightarrow> u32 \<Rightarrow> u64 \<Rightarrow> broker_event" where
  "make_base_event kind req broker_id now = broker_event_zero\<lparr>
     be_kind := kind, be_internal_order_id := br_internal_order_id req,
     be_broker_order_id := broker_id, be_internal_security_id := br_internal_security_id req,
     be_trade_side := br_trade_side req, be_md_time_traded := br_md_time req,
     be_recv_time_ns := now\<rparr>"

definition make_natural_finish_event :: "broker_order_request \<Rightarrow> u32 \<Rightarrow> u64 \<Rightarrow> broker_event" where
  "make_natural_finish_event req broker_id now =
     (make_base_event Finished req broker_id now)\<lparr>be_cancelled_volume := 0\<rparr>"

definition make_cancel_finish_event :: "broker_order_request \<Rightarrow> active_order_state \<Rightarrow> u64 \<Rightarrow> broker_event" where
  "make_cancel_finish_event req active now =
     (let original = broker_order_request_zero\<lparr>
            br_internal_order_id := br_orig_internal_order_id req,
            br_orig_internal_order_id := br_orig_internal_order_id req,
            br_internal_security_id := br_internal_security_id req,
            br_type := request_type.Cancel,
            br_trade_side := ao_trade_side active,
            br_order_market := br_order_market req,
            br_volume := ao_entrust_volume active,
            br_price := ao_price active,
            br_md_time := br_md_time req\<rparr>
      in (make_base_event Finished original (ao_broker_order_id active) now)\<lparr>
           be_cancelled_volume :=
             (if ao_traded_volume active \<ge> ao_entrust_volume active then 0
              else ao_entrust_volume active - ao_traded_volume active)\<rparr>)"

definition calc_trade_value :: "u64 \<Rightarrow> u64 \<Rightarrow> u64" where
  "calc_trade_value volume price = (if volume = 0 \<or> price = 0 then 0 else volume * price)"

definition calc_fee :: "u64 \<Rightarrow> u64" where
  "calc_fee traded_value = (if traded_value = 0 then 0 else max 1 (traded_value div 10000))"

definition make_trade_event :: "broker_order_request \<Rightarrow> u32 \<Rightarrow> u64 \<Rightarrow> broker_event" where
  "make_trade_event req broker_id now =
     (let value_traded = calc_trade_value (br_volume req) (br_price req)
      in (make_base_event Trade req broker_id now)\<lparr>
           be_volume_traded := br_volume req, be_price_traded := br_price req,
           be_value_traded := value_traded, be_fee := calc_fee value_traded\<rparr>)"

definition sim_new_order :: "u64 \<Rightarrow> broker_order_request \<Rightarrow> sim_broker_adapter \<Rightarrow> send_result \<times> sim_broker_adapter" where
  "sim_new_order now req b =
     (if br_trade_side req = side.Unknown \<or> br_order_market req = market.Unknown
         \<or> br_volume req = 0 \<or> br_price req = 0 \<or> br_security_id req = []
      then (fatal_error (-102), b)
      else let broker_id = sb_next_broker_order_id b;
               b = b\<lparr>sb_next_broker_order_id := broker_id + 1\<rparr>;
               active = \<lparr>ao_broker_order_id = broker_id, ao_trade_side = br_trade_side req,
                         ao_entrust_volume = br_volume req, ao_traded_volume = 0,
                         ao_price = br_price req, ao_md_time = br_md_time req\<rparr>;
               b = b\<lparr>sb_active_orders := (sb_active_orders b)(br_internal_order_id req \<mapsto> active)\<rparr>;
               b = b\<lparr>sb_pending_events := sb_pending_events b
                        @ [make_base_event BrokerAccepted req broker_id now]\<rparr>;
               b = (if sb_auto_fill b then
                      let b = b\<lparr>sb_active_orders := (sb_active_orders b)
                                 (br_internal_order_id req \<mapsto> active\<lparr>ao_traded_volume := br_volume req\<rparr>)\<rparr>;
                          b = b\<lparr>sb_pending_events := sb_pending_events b
                                 @ [make_trade_event req broker_id now,
                                    make_natural_finish_event req broker_id now]\<rparr>
                      in b\<lparr>sb_active_orders := (sb_active_orders b)(br_internal_order_id req := None)\<rparr>
                    else b)
           in (send_ok, b))"

definition sim_cancel_order :: "u64 \<Rightarrow> broker_order_request \<Rightarrow> sim_broker_adapter \<Rightarrow> send_result \<times> sim_broker_adapter" where
  "sim_cancel_order now req b =
     (if br_orig_internal_order_id req = 0 then (fatal_error (-103), b)
      else let broker_id = sb_next_broker_order_id b;
               b = b\<lparr>sb_next_broker_order_id := broker_id + 1\<rparr>;
               b = b\<lparr>sb_pending_events := sb_pending_events b
                        @ [make_base_event BrokerAccepted req broker_id now]\<rparr>
           in (send_ok,
               case sb_active_orders b (br_orig_internal_order_id req) of
                 Some active \<Rightarrow>
                   b\<lparr>sb_pending_events := sb_pending_events b @ [make_cancel_finish_event req active now],
                     sb_active_orders := (sb_active_orders b)(br_orig_internal_order_id req := None)\<rparr>
               | None \<Rightarrow>
                   b\<lparr>sb_pending_events := sb_pending_events b
                       @ [(make_base_event Finished req broker_id now)\<lparr>be_cancelled_volume := 0\<rparr>]\<rparr>))"

definition sim_submit :: "u64 \<Rightarrow> broker_order_request \<Rightarrow> sim_broker_adapter \<Rightarrow> send_result \<times> sim_broker_adapter" where
  "sim_submit now req b =
     (if \<not> sb_initialized b then (fatal_error (-100), b)
      else if br_internal_order_id req = 0 then (fatal_error (-101), b)
      else case br_type req of
        request_type.New \<Rightarrow> sim_new_order now req b
      | request_type.Cancel \<Rightarrow> sim_cancel_order now req b
      | request_type.Unknown \<Rightarrow> (fatal_error (-104), b))"

definition sim_poll_events :: "nat \<Rightarrow> sim_broker_adapter \<Rightarrow> broker_event list \<times> sim_broker_adapter" where
  "sim_poll_events max_events b =
     (if \<not> sb_initialized b \<or> max_events = 0 then ([], b)
      else let count = min max_events (length (sb_pending_events b))
           in (take count (sb_pending_events b),
               b\<lparr>sb_pending_events := drop count (sb_pending_events b)\<rparr>))"

definition sim_shutdown :: "sim_broker_adapter \<Rightarrow> sim_broker_adapter" where
  "sim_shutdown b = b\<lparr>sb_active_orders := Map.empty, sb_pending_events := [], sb_initialized := False\<rparr>"

end
