(* ===== verification/Gateway_Facts.thy ===== *)
theory Gateway_Facts
  imports Sim_Broker
begin

text \<open>
  What the gateway promises for any broker plugin, and what the simulated broker adds: no order
  is lost or counted twice, retries are bounded, every response answers an order the gateway
  was asked about, and an order through mapper, simulated broker and response mapper comes back
  filled under its own id, side and canonical security key.
\<close>

section \<open>Frames of the small operations\<close>

lemma on_gw_stats_simps [simp]:
  "gw_config (on_gw_stats f g) = gw_config g" "gw_downstream (on_gw_stats f g) = gw_downstream g"
  "gw_trades (on_gw_stats f g) = gw_trades g" "gw_orders (on_gw_stats f g) = gw_orders g"
  "gw_adapter (on_gw_stats f g) = gw_adapter g" "gw_retry_queue (on_gw_stats f g) = gw_retry_queue g"
  "gw_stats (on_gw_stats f g) = f (gw_stats g)"
  by (simp_all add: on_gw_stats_def)

lemma gw_raise_simps [simp]:
  "gw_config (gw_raise d c now g) = gw_config g" "gw_downstream (gw_raise d c now g) = gw_downstream g"
  "gw_trades (gw_raise d c now g) = gw_trades g" "gw_orders (gw_raise d c now g) = gw_orders g"
  "gw_adapter (gw_raise d c now g) = gw_adapter g" "gw_retry_queue (gw_raise d c now g) = gw_retry_queue g"
  "gw_stats (gw_raise d c now g) = gw_stats g"
  by (simp_all add: gw_raise_def)

lemma stop_gateway_simps [simp]:
  "gw_config (stop_gateway g) = gw_config g" "gw_downstream (stop_gateway g) = gw_downstream g"
  "gw_trades (stop_gateway g) = gw_trades g" "gw_orders (stop_gateway g) = gw_orders g"
  "gw_adapter (stop_gateway g) = gw_adapter g" "gw_retry_queue (stop_gateway g) = gw_retry_queue g"
  "gw_stats (stop_gateway g) = gw_stats g" "gw_running (stop_gateway g) = False"
  by (simp_all add: stop_gateway_def)

text \<open>\<open>push_response\<close> touches nothing but the response queue.\<close>

lemma push_attempts_eq:
  "push_attempts n response g =
     (case gw_trades g of
        None \<Rightarrow> (False, g)
      | Some q \<Rightarrow> if 0 < n \<and> fst (try_push kQueueCapacity response q)
                  then (True, g\<lparr>gw_trades := Some (snd (try_push kQueueCapacity response q))\<rparr>)
                  else (False, g))"
  by (induction n) (auto split: option.splits prod.splits)

lemma push_response_eq:
  "push_response response g =
     (case gw_trades g of
        None \<Rightarrow> (False, g)
      | Some q \<Rightarrow> if fst (try_push kQueueCapacity response q)
                  then (True, g\<lparr>gw_trades := Some (snd (try_push kQueueCapacity response q))\<rparr>)
                  else (False, g))"
  by (simp add: push_response_def push_attempts_eq kResponsePushAttempts_def split: option.split)

lemma push_response_frame [simp]:
  "gw_config (snd (push_response r g)) = gw_config g"
  "gw_downstream (snd (push_response r g)) = gw_downstream g"
  "gw_orders (snd (push_response r g)) = gw_orders g"
  "gw_adapter (snd (push_response r g)) = gw_adapter g"
  "gw_retry_queue (snd (push_response r g)) = gw_retry_queue g"
  "gw_stats (snd (push_response r g)) = gw_stats g"
  by (simp_all add: push_response_eq split: option.split)

lemma push_response_cases:
  obtains q q' where "gw_trades g = Some q" "try_push kQueueCapacity r q = (True, q')"
      "push_response r g = (True, g\<lparr>gw_trades := Some q'\<rparr>)"
  | "push_response r g = (False, g)"
  by (cases "gw_trades g"; cases "fst (try_push kQueueCapacity r (the (gw_trades g)))")
     (auto simp: push_response_eq prod_eq_iff)

section \<open>Accounting\<close>

text \<open>
  Every order taken from the downstream queue is submitted, failed or waiting for a retry; a
  waiting request was tried at least once and at most as often as the configuration allows.
\<close>

definition orders_balanced :: "'a gateway_loop \<Rightarrow> bool" where
  "orders_balanced g \<longleftrightarrow> gs_orders_received (gw_stats g) =
     gs_orders_submitted (gw_stats g) + gs_orders_failed (gw_stats g)
       + of_nat (length (gw_retry_queue g))"

definition retries_bounded :: "'a gateway_loop \<Rightarrow> bool" where
  "retries_bounded g \<longleftrightarrow> (\<forall>item \<in> set (gw_retry_queue g).
     0 < ri_attempts item \<and> ri_attempts item \<le> gc_max_retry_attempts (gw_config g))"

text \<open>What one order changes: \<open>unfinished_requests g\<close> counts the orders not yet accounted for.\<close>

definition unfinished_requests :: "'a gateway_loop \<Rightarrow> u64" where
  "unfinished_requests g = gs_orders_received (gw_stats g) - gs_orders_submitted (gw_stats g)
     - gs_orders_failed (gw_stats g) - of_nat (length (gw_retry_queue g))"

lemma orders_balanced_open: "orders_balanced g \<longleftrightarrow> unfinished_requests g = 0"
  by (auto simp: orders_balanced_def unfinished_requests_def algebra_simps)

lemma open_orders_simps [simp]:
  "unfinished_requests (g\<lparr>gw_downstream := q\<rparr>) = unfinished_requests g"
  "unfinished_requests (g\<lparr>gw_trades := t\<rparr>) = unfinished_requests g"
  "unfinished_requests (g\<lparr>gw_orders := p\<rparr>) = unfinished_requests g"
  "unfinished_requests (g\<lparr>gw_adapter := a\<rparr>) = unfinished_requests g"
  "unfinished_requests (g\<lparr>gw_running := b\<rparr>) = unfinished_requests g"
  "unfinished_requests (g\<lparr>gw_last_stats_print_ns := n\<rparr>) = unfinished_requests g"
  "unfinished_requests (gw_raise d c now g) = unfinished_requests g"
  "unfinished_requests (stop_gateway g) = unfinished_requests g"
  "unfinished_requests (count_gw_pushed g) = unfinished_requests g"
  "unfinished_requests (count_gw_dropped g) = unfinished_requests g"
  "unfinished_requests (count_gw_failed g) = unfinished_requests g - 1"
  "unfinished_requests (on_gw_stats (\<lambda>st. st\<lparr>gs_idle_iterations := a1 st\<rparr>) g) = unfinished_requests g"
  "unfinished_requests (on_gw_stats (\<lambda>st. st\<lparr>gs_loop_iterations := a1 st\<rparr>) g) = unfinished_requests g"
  "unfinished_requests (on_gw_stats (\<lambda>st. st\<lparr>gs_retry_queue_size := a1 st\<rparr>) g) = unfinished_requests g"
  "unfinished_requests (on_gw_stats (\<lambda>st. st\<lparr>gs_events_received := a1 st\<rparr>) g) = unfinished_requests g"
  by (simp_all add: unfinished_requests_def)

lemma retries_bounded_simps [simp]:
  "retries_bounded (g\<lparr>gw_downstream := q\<rparr>) = retries_bounded g"
  "retries_bounded (g\<lparr>gw_trades := t\<rparr>) = retries_bounded g"
  "retries_bounded (g\<lparr>gw_orders := p\<rparr>) = retries_bounded g"
  "retries_bounded (g\<lparr>gw_adapter := a\<rparr>) = retries_bounded g"
  "retries_bounded (g\<lparr>gw_running := b\<rparr>) = retries_bounded g"
  "retries_bounded (g\<lparr>gw_last_stats_print_ns := n\<rparr>) = retries_bounded g"
  "retries_bounded (gw_raise d c now g) = retries_bounded g"
  "retries_bounded (stop_gateway g) = retries_bounded g"
  "retries_bounded (on_gw_stats f g) = retries_bounded g"
  by (simp_all add: retries_bounded_def)

lemma push_response_open [simp]:
  "unfinished_requests (snd (push_response r g)) = unfinished_requests g"
  "retries_bounded (snd (push_response r g)) = retries_bounded g"
  by (simp_all add: push_response_eq split: option.split)

lemma emit_trader_error_frame [simp]:
  "gw_config (emit_trader_error i k s now g) = gw_config g"
  "gw_downstream (emit_trader_error i k s now g) = gw_downstream g"
  "gw_orders (emit_trader_error i k s now g) = gw_orders g"
  "gw_adapter (emit_trader_error i k s now g) = gw_adapter g"
  "gw_retry_queue (emit_trader_error i k s now g) = gw_retry_queue g"
  "gs_orders_received (gw_stats (emit_trader_error i k s now g)) = gs_orders_received (gw_stats g)"
  "gs_orders_submitted (gw_stats (emit_trader_error i k s now g)) = gs_orders_submitted (gw_stats g)"
  "gs_orders_failed (gw_stats (emit_trader_error i k s now g)) = gs_orders_failed (gw_stats g)"
  by (cases g rule: push_response_cases [where r = "trader_error_response i k s now"];
      simp add: emit_trader_error_def)+

lemma emit_trader_error_open [simp]:
  "unfinished_requests (emit_trader_error i k s now g) = unfinished_requests g"
  "retries_bounded (emit_trader_error i k s now g) = retries_bounded g"
  by (simp_all add: unfinished_requests_def retries_bounded_def)

lemma submit_request_frame [simp]:
  "gw_config (submit_request submit req attempts now g) = gw_config g"
  "gw_downstream (submit_request submit req attempts now g) = gw_downstream g"
  "gw_orders (submit_request submit req attempts now g) = gw_orders g"
  by (simp_all add: submit_request_def schedule_retry_def Let_def split: prod.split)

lemma submit_request_open [simp]:
  "unfinished_requests (submit_request submit req attempts now g) = unfinished_requests g - 1"
  by (simp add: submit_request_def schedule_retry_def unfinished_requests_def Let_def split: prod.split)

lemma attempts_next: "a < (m :: u32) \<Longrightarrow> 0 < a + 1 \<and> a + 1 \<le> m"
  by unat_arith

lemma submit_request_retries:
  "retries_bounded g \<Longrightarrow> retries_bounded (submit_request submit req attempts now g)"
  by (auto simp: submit_request_def schedule_retry_def retries_bounded_def Let_def attempts_next
      split: prod.split)

lemma retry_pass_ok:
  "unfinished_requests g = 0 \<Longrightarrow> retries_bounded g \<Longrightarrow>
   unfinished_requests (snd (retry_pass n submit now g)) = 0 \<and> retries_bounded (snd (retry_pass n submit now g))"
proof (induction n arbitrary: g)
  case (Suc n)
  show ?case
  proof (cases "gw_retry_queue g")
    case (Cons item rest)
    let ?later = "g\<lparr>gw_retry_queue := rest @ [item]\<rparr>" and ?rest = "g\<lparr>gw_retry_queue := rest\<rparr>"
    have later: "unfinished_requests ?later = 0" "retries_bounded ?later"
      using Suc.prems Cons by (auto simp: unfinished_requests_def retries_bounded_def)
    have "unfinished_requests ?rest = 1" "retries_bounded ?rest"
      using Suc.prems Cons by (auto simp: unfinished_requests_def retries_bounded_def algebra_simps)
    then have "unfinished_requests (submit_request submit (ri_request item) (ri_attempts item) now ?rest) = 0"
      "retries_bounded (submit_request submit (ri_request item) (ri_attempts item) now ?rest)"
      by (simp_all add: submit_request_retries)
    with Suc.IH later Cons show ?thesis by simp
  qed (use Suc.prems in simp)
qed simp

lemma handle_downstream_ok:
  assumes "unfinished_requests g = 0" "retries_bounded g"
  shows "unfinished_requests (handle_downstream submit index now g) = 0
    \<and> retries_bounded (handle_downstream submit index now g)"
proof -
  let ?g = "on_gw_stats (\<lambda>st. st\<lparr>gs_orders_received := gs_orders_received st + 1,
                                 gs_last_order_time_ns := now\<rparr>) g"
  have one: "unfinished_requests ?g = 1" "retries_bounded ?g"
    using assms by (auto simp: unfinished_requests_def retries_bounded_def algebra_simps)
  show ?thesis
  proof (cases "take_downstream index now ?g")
    case (Pair r g')
    have "unfinished_requests g' = (if r = None then 0 else 1) \<and> retries_bounded g'"
      using one Pair by (auto simp: take_downstream_def split: option.splits)
    then have ok: "r = None \<Longrightarrow> unfinished_requests g' = 0" "r \<noteq> None \<Longrightarrow> unfinished_requests g' = 1" "retries_bounded g'"
      by auto
    show ?thesis
    proof (cases r)
      case None
      with Pair ok show ?thesis by (simp add: handle_downstream_def Let_def)
    next
      case (Some req)
      with ok have "unfinished_requests g' = 1" by simp
      then have "unfinished_requests (emit_trader_error i k s now (count_gw_failed g')) = 0"
        "retries_bounded (emit_trader_error i k s now (count_gw_failed g'))" for i k s
        using ok(3) by simp_all
      with Pair Some ok show ?thesis
        by (simp add: handle_downstream_def Let_def submit_request_retries split: option.split)
    qed
  qed
qed

lemma order_batch_ok:
  "unfinished_requests g = 0 \<Longrightarrow> retries_bounded g \<Longrightarrow>
   unfinished_requests (snd (order_batch n submit now g)) = 0 \<and> retries_bounded (snd (order_batch n submit now g))"
proof (induction n arbitrary: g)
  case (Suc n)
  have "unfinished_requests (g\<lparr>gw_downstream := q\<rparr>) = 0" "retries_bounded (g\<lparr>gw_downstream := q\<rparr>)" for q
    using Suc.prems by (auto simp: unfinished_requests_def retries_bounded_def)
  then have "unfinished_requests (handle_downstream submit index now (g\<lparr>gw_downstream := q\<rparr>)) = 0"
    "retries_bounded (handle_downstream submit index now (g\<lparr>gw_downstream := q\<rparr>))" for index q
    using handle_downstream_ok by blast+
  with Suc show ?case
    by (simp split: option.split prod.split)
qed simp

lemma event_batch_ok:
  "unfinished_requests (event_batch events now g) = unfinished_requests g
   \<and> retries_bounded (event_batch events now g) = retries_bounded g
   \<and> gw_config (event_batch events now g) = gw_config g"
proof (induction events arbitrary: g)
  case (Cons event events)
  show ?case
  proof (cases "map_broker_event_to_trade_response event now")
    case None
    with Cons show ?thesis by simp
  next
    case (Some response)
    show ?thesis
      by (cases g rule: push_response_cases [where r = response])
         (use Some Cons in simp_all)
  qed
qed simp

lemma process_retry_queue_ok:
  "unfinished_requests g = 0 \<Longrightarrow> retries_bounded g \<Longrightarrow>
   unfinished_requests (snd (process_retry_queue submit now g)) = 0
   \<and> retries_bounded (snd (process_retry_queue submit now g))"
  using retry_pass_ok [of g "length (gw_retry_queue g)" submit now]
  by (auto simp: process_retry_queue_def Let_def split: prod.split)

lemma process_events_ok:
  "unfinished_requests (snd (process_events poll limit now g)) = unfinished_requests g
   \<and> retries_bounded (snd (process_events poll limit now g)) = retries_bounded g"
  by (simp add: process_events_def event_batch_ok Let_def split: prod.split)

lemma gateway_turn_ok:
  assumes "unfinished_requests g = 0" "retries_bounded g"
  shows "unfinished_requests (gateway_turn submit poll inp g) = 0
    \<and> retries_bounded (gateway_turn submit poll inp g)"
proof -
  let ?g0 = "on_gw_stats (\<lambda>st. st\<lparr>gs_loop_iterations := gs_loop_iterations st + 1\<rparr>) g"
  obtain b1 g1 where 1: "process_retry_queue submit (gi_retry_now inp) ?g0 = (b1, g1)" by fastforce
  obtain b2 g2 where 2: "process_orders submit (gc_poll_batch_size (gw_config g1)) (gi_orders_now inp) g1 = (b2, g2)"
    by fastforce
  obtain b3 g3 where 3: "process_events poll (gc_poll_batch_size (gw_config g2)) (gi_events_now inp) g2 = (b3, g3)"
    by fastforce
  have "unfinished_requests ?g0 = 0" "retries_bounded ?g0"
    using assms by simp_all
  then have "unfinished_requests g1 = 0 \<and> retries_bounded g1"
    using process_retry_queue_ok [of ?g0 submit "gi_retry_now inp"] unfolding 1 by simp
  then have "unfinished_requests g2 = 0 \<and> retries_bounded g2"
    using order_batch_ok [of g1 "unat (gc_poll_batch_size (gw_config g1))" submit "gi_orders_now inp"]
    unfolding 2 [unfolded process_orders_def] by simp
  then have "unfinished_requests g3 = 0 \<and> retries_bounded g3"
    using process_events_ok [of poll "gc_poll_batch_size (gw_config g2)" "gi_events_now inp" g2]
    unfolding 3 by simp
  then show ?thesis
    unfolding gateway_turn_def Let_def 1 2 3 prod.case by simp
qed

lemma account_side_ok [simp]:
  "unfinished_requests (account_side inp g) = unfinished_requests g"
  "retries_bounded (account_side inp g) = retries_bounded g"
  by (simp_all add: account_side_def unfinished_requests_def retries_bounded_def)

lemma gateway_turns_ok:
  "unfinished_requests g = 0 \<Longrightarrow> retries_bounded g \<Longrightarrow>
   unfinished_requests (snd (gateway_turns submit poll inputs g)) = 0
   \<and> retries_bounded (snd (gateway_turns submit poll inputs g))"
proof (induction inputs arbitrary: g)
  case (Cons inp inputs)
  have "unfinished_requests (gateway_turn submit poll inp (account_side inp g)) = 0"
    "retries_bounded (gateway_turn submit poll inp (account_side inp g))"
    using gateway_turn_ok [of "account_side inp g"] Cons.prems by simp_all
  with Cons show ?case by (simp add: Let_def stop_gateway_def)
qed simp

lemma run_gateway_ok:
  "unfinished_requests g = 0 \<Longrightarrow> retries_bounded g \<Longrightarrow>
   unfinished_requests (snd (run_gateway submit poll now inputs g)) = 0
   \<and> retries_bounded (snd (run_gateway submit poll now inputs g))"
  by (simp add: run_gateway_def gateway_turns_ok)

section \<open>The contract of a broker adapter\<close>

text \<open>
  \<open>known a\<close> are the order ids the adapter may still report on.  An adapter learns ids only
  from the requests it is given, reports only on ids it knows, and returns at most as many
  events as it is asked for.
\<close>

abbreviation request_ids :: "broker_order_request \<Rightarrow> u32 set" where
  "request_ids req \<equiv> {br_internal_order_id req, br_orig_internal_order_id req}"

definition pool_ids :: "u32 set \<Rightarrow> orders_shm_layout \<Rightarrow> bool" where
  "pool_ids S shm \<longleftrightarrow> (\<forall>i. orders_shm_index_exists shm i \<longrightarrow>
     {internal_order_id (slot_request (os_slots shm i)),
      orig_internal_order_id (slot_request (os_slots shm i))} \<subseteq> S)"

definition responses_in :: "u32 set \<Rightarrow> TradeResponse spsc_queue \<Rightarrow> bool" where
  "responses_in S q \<longleftrightarrow> q_ok 18 q \<and> tr_internal_order_id ` set (q_list 18 q) \<subseteq> S"

definition answers :: "('a \<Rightarrow> u32 set) \<Rightarrow> u32 set \<Rightarrow> 'a gateway_loop \<Rightarrow> bool" where
  "answers known S g \<longleftrightarrow> known (gw_adapter g) \<subseteq> S
     \<and> (\<forall>item \<in> set (gw_retry_queue g). request_ids (ri_request item) \<subseteq> S)
     \<and> (\<forall>q. gw_trades g = Some q \<longrightarrow> responses_in S q)
     \<and> (\<forall>shm. gw_orders g = Some shm \<longrightarrow> pool_ids S shm)"

definition peer_ok :: "u32 set \<Rightarrow> gateway_input \<Rightarrow> bool" where
  "peer_ok S inp \<longleftrightarrow> (\<forall>q. responses_in S q \<longrightarrow> responses_in S (gi_trades inp q))
     \<and> (\<forall>shm. pool_ids S shm \<longrightarrow> pool_ids S (gi_orders inp shm))"

lemma answers_simps [simp]:
  "answers known S (on_gw_stats f g) = answers known S g"
  "answers known S (gw_raise d c now g) = answers known S g"
  "answers known S (stop_gateway g) = answers known S g"
  "answers known S (g\<lparr>gw_downstream := x\<rparr>) = answers known S g"
  "answers known S (g\<lparr>gw_running := b\<rparr>) = answers known S g"
  "answers known S (g\<lparr>gw_last_stats_print_ns := n\<rparr>) = answers known S g"
  by (simp_all add: answers_def)

lemma push_response_answers:
  assumes "answers known S g" "tr_internal_order_id r \<in> S"
  shows "answers known S (snd (push_response r g))"
proof (cases g rule: push_response_cases [where r = r])
  case (1 q q')
  with assms(1) have q: "q_ok 18 q" "tr_internal_order_id ` set (q_list 18 q) \<subseteq> S"
    by (auto simp: answers_def responses_in_def)
  have "responses_in S q'"
    using shm_queue.push_law [OF q(1) 1(2)] q(2) assms(2)
    by (auto simp: responses_in_def split: if_splits)
  with 1 assms show ?thesis by (simp add: answers_def)
qed (use assms in simp)

lemma emit_trader_error_answers:
  assumes "answers known S g" "i \<in> S"
  shows "answers known S (emit_trader_error i k s now g)"
proof -
  have "tr_internal_order_id (trader_error_response i k s now) \<in> S"
    using assms(2) by (simp add: trader_error_response_def Let_def)
  from push_response_answers [OF assms(1) this] show ?thesis
    by (auto simp add: emit_trader_error_def assms(1) split: prod.split)
qed

lemma mapped_ids:
  "map_order_request_to_broker req = Some m \<Longrightarrow>
   br_internal_order_id m = internal_order_id req \<and> br_orig_internal_order_id m = orig_internal_order_id req"
  by (auto simp: map_order_request_to_broker_def Let_def broker_order_request_zero_def split: if_splits)

lemma response_id:
  "map_broker_event_to_trade_response event now = Some r \<Longrightarrow>
   tr_internal_order_id r = be_internal_order_id event"
  by (auto simp: map_broker_event_to_trade_response_def Let_def split: if_splits option.splits)

lemma pool_ids_read:
  "pool_ids S shm \<Longrightarrow> orders_shm_read_snapshot shm i = Some ss \<Longrightarrow>
   {internal_order_id (ss_request ss), orig_internal_order_id (ss_request ss)} \<subseteq> S"
  by (auto simp: pool_ids_def read_snapshot_eq slot_snapshot_def split: if_splits)

lemma pool_ids_stage: "pool_ids S shm \<Longrightarrow> pool_ids S (snd (orders_shm_update_stage i stage now shm))"
proof -
  have "slot_request (os_slots (snd (orders_shm_update_stage i stage now shm)) j)
      = slot_request (os_slots shm j)" for j
    by (simp add: orders_shm_update_stage_def orders_shm_mutate_slot_def Let_def)
  then show "pool_ids S shm \<Longrightarrow> pool_ids S (snd (orders_shm_update_stage i stage now shm))"
    by (simp add: pool_ids_def orders_shm_update_stage_def frame_simps)
qed

locale broker_adapter =
  fixes submit :: "'a adapter_submit"
    and poll :: "'a adapter_poll"
    and known :: "'a \<Rightarrow> u32 set"
  assumes submit_known: "submit now req a = (r, a') \<Longrightarrow> known a' \<subseteq> known a \<union> request_ids req"
    and poll_known: "poll now n a = (events, a') \<Longrightarrow>
      length events \<le> n \<and> be_internal_order_id ` set events \<subseteq> known a \<and> known a' \<subseteq> known a"
begin

lemma submit_request_answers:
  assumes "answers known S g" "request_ids req \<subseteq> S"
  shows "answers known S (submit_request submit req attempts now g)"
proof -
  obtain r a where s: "submit now req (gw_adapter g) = (r, a)" by fastforce
  then have "known a \<subseteq> S"
    using submit_known [OF s] assms by (auto simp: answers_def)
  then have a: "answers known S (g\<lparr>gw_adapter := a\<rparr>)"
    using assms(1) by (simp add: answers_def)
  then have "answers known S (schedule_retry req attempts now (g\<lparr>gw_adapter := a\<rparr>))"
    using assms(2) by (auto simp: schedule_retry_def answers_def Let_def)
  with a s assms(2) show ?thesis
    by (simp add: submit_request_def Let_def emit_trader_error_answers)
qed

lemma retry_pass_answers:
  "answers known S g \<Longrightarrow> answers known S (snd (retry_pass n submit now g))"
proof (induction n arbitrary: g)
  case (Suc n)
  show ?case
  proof (cases "gw_retry_queue g")
    case (Cons item rest)
    have "answers known S (g\<lparr>gw_retry_queue := rest @ [item]\<rparr>)"
      "answers known S (g\<lparr>gw_retry_queue := rest\<rparr>)" "request_ids (ri_request item) \<subseteq> S"
      using Suc.prems Cons by (auto simp: answers_def)
    with Suc.IH Cons submit_request_answers show ?thesis by simp
  qed (use Suc.prems in simp)
qed simp

lemma handle_downstream_answers:
  assumes "answers known S g"
  shows "answers known S (handle_downstream submit index now g)"
proof -
  let ?g = "on_gw_stats (\<lambda>st. st\<lparr>gs_orders_received := gs_orders_received st + 1,
                                 gs_last_order_time_ns := now\<rparr>) g"
  have g: "answers known S ?g" using assms by simp
  obtain r g' where t: "take_downstream index now ?g = (r, g')" by fastforce
  have "answers known S g' \<and> (\<forall>req. r = Some req \<longrightarrow>
      internal_order_id req \<in> S \<and> orig_internal_order_id req \<in> S)"
  proof (cases "gw_orders g")
    case (Some shm)
    with assms have "pool_ids S shm" by (simp add: answers_def)
    moreover have "answers known S (?g\<lparr>gw_orders := Some (snd (orders_shm_update_stage index
        DownstreamDequeued now shm))\<rparr>)"
      using g \<open>pool_ids S shm\<close> by (simp add: answers_def pool_ids_stage)
    ultimately show ?thesis
      using g t Some pool_ids_read [of S shm index]
      by (auto simp: take_downstream_def split: option.splits)
  qed (use g t in \<open>auto simp: take_downstream_def\<close>)
  then show ?thesis
    by (simp add: handle_downstream_def Let_def t submit_request_answers mapped_ids
        emit_trader_error_answers split: option.split)
qed

lemma order_batch_answers:
  "answers known S g \<Longrightarrow> answers known S (snd (order_batch n submit now g))"
proof (induction n arbitrary: g)
  case (Suc n)
  then have "answers known S (handle_downstream submit index now (g\<lparr>gw_downstream := q\<rparr>))" for index q
    by (simp add: handle_downstream_answers)
  with Suc show ?case by (simp split: option.split prod.split)
qed simp

lemma event_batch_answers:
  "answers known S g \<Longrightarrow> be_internal_order_id ` set events \<subseteq> S \<Longrightarrow>
   answers known S (event_batch events now g)"
proof (induction events arbitrary: g)
  case (Cons event events)
  show ?case
  proof (cases "map_broker_event_to_trade_response event now")
    case (Some response)
    with Cons.prems have "tr_internal_order_id response \<in> S" by (simp add: response_id)
    with Cons.prems have p: "answers known S (snd (push_response response g))"
      by (simp add: push_response_answers)
    obtain b g' where b: "push_response response g = (b, g')" by fastforce
    with p have "answers known S g'" by simp
    with Cons Some b show ?thesis by (simp split: bool.split)
  qed (use Cons in simp)
qed simp

lemma process_events_answers:
  assumes "answers known S g"
  shows "answers known S (snd (process_events poll limit now g))"
proof -
  obtain events a where p: "poll now (min (unat limit) kMaxEventBatch) (gw_adapter g) = (events, a)"
    by fastforce
  note k = poll_known [OF p]
  have "answers known S (g\<lparr>gw_adapter := a\<rparr>)" "be_internal_order_id ` set events \<subseteq> S"
    using k assms by (auto simp: answers_def)
  then show ?thesis
    using assms by (simp add: process_events_def p Let_def event_batch_answers)
qed

lemma gateway_turn_answers:
  assumes "answers known S g"
  shows "answers known S (gateway_turn submit poll inp g)"
proof -
  let ?g0 = "on_gw_stats (\<lambda>st. st\<lparr>gs_loop_iterations := gs_loop_iterations st + 1\<rparr>) g"
  obtain b1 g1 where 1: "process_retry_queue submit (gi_retry_now inp) ?g0 = (b1, g1)" by fastforce
  obtain b2 g2 where 2: "process_orders submit (gc_poll_batch_size (gw_config g1)) (gi_orders_now inp) g1 = (b2, g2)"
    by fastforce
  obtain b3 g3 where 3: "process_events poll (gc_poll_batch_size (gw_config g2)) (gi_events_now inp) g2 = (b3, g3)"
    by fastforce
  have "answers known S (snd (process_retry_queue submit (gi_retry_now inp) ?g0))"
    using assms retry_pass_answers [of S ?g0 "length (gw_retry_queue ?g0)" "gi_retry_now inp"]
    by (auto simp add: process_retry_queue_def split: prod.split)
  then have "answers known S g1" unfolding 1 by simp
  then have "answers known S g2"
    using order_batch_answers [of S g1 "unat (gc_poll_batch_size (gw_config g1))" "gi_orders_now inp"]
    unfolding 2 [unfolded process_orders_def] by simp
  then have "answers known S g3"
    using process_events_answers [of S g2 "gc_poll_batch_size (gw_config g2)" "gi_events_now inp"]
    unfolding 3 by simp
  then show ?thesis
    unfolding gateway_turn_def Let_def 1 2 3 prod.case by simp
qed

lemma account_side_answers:
  "answers known S g \<Longrightarrow> peer_ok S inp \<Longrightarrow> answers known S (account_side inp g)"
  by (auto simp: answers_def peer_ok_def account_side_def)

lemma gateway_turns_answers:
  "answers known S g \<Longrightarrow> \<forall>inp \<in> set inputs. peer_ok S inp \<Longrightarrow>
   answers known S (snd (gateway_turns submit poll inputs g))"
proof (induction inputs arbitrary: g)
  case (Cons inp inputs)
  have "answers known S (gateway_turn submit poll inp (account_side inp g))"
    using Cons.prems by (simp add: gateway_turn_answers account_side_answers)
  with Cons show ?case by (simp add: Let_def)
qed simp

lemma run_gateway_answers:
  "answers known S g \<Longrightarrow> \<forall>inp \<in> set inputs. peer_ok S inp \<Longrightarrow>
   answers known S (snd (run_gateway submit poll now inputs g))"
  by (simp add: run_gateway_def gateway_turns_answers)

text \<open>A turn takes no more events from the adapter than the batch holds.\<close>

lemma events_fit:
  "poll now (min (unat limit) kMaxEventBatch) a = (events, a') \<Longrightarrow>
   length events \<le> unat limit \<and> length events \<le> kMaxEventBatch"
  by (auto dest: poll_known)

end

section \<open>The simulated broker keeps the contract\<close>

definition sim_known :: "sim_broker_adapter \<Rightarrow> u32 set" where
  "sim_known b = be_internal_order_id ` set (sb_pending_events b)"

lemma event_ids [simp]:
  "be_internal_order_id (make_base_event k req i now) = br_internal_order_id req"
  "be_internal_order_id (make_natural_finish_event req i now) = br_internal_order_id req"
  "be_internal_order_id (make_trade_event req i now) = br_internal_order_id req"
  "be_internal_order_id (make_cancel_finish_event req active now) = br_orig_internal_order_id req"
  by (simp_all add: make_base_event_def make_natural_finish_event_def make_trade_event_def
      make_cancel_finish_event_def Let_def)

lemma sim_submit_known: "sim_submit now req b = (r, b') \<Longrightarrow> sim_known b' \<subseteq> sim_known b \<union> request_ids req"
  by (auto simp: sim_submit_def sim_new_order_def sim_cancel_order_def sim_known_def Let_def
      split: if_splits request_type.splits option.splits)

lemma sim_poll_known:
  "sim_poll_events n b = (events, b') \<Longrightarrow>
   length events \<le> n \<and> be_internal_order_id ` set events \<subseteq> sim_known b \<and> sim_known b' \<subseteq> sim_known b"
  using set_take_subset [of n "sb_pending_events b"] set_drop_subset [of n "sb_pending_events b"]
  by (auto simp: sim_poll_events_def sim_known_def Let_def min_def split: if_splits)

interpretation sim: broker_adapter sim_submit "\<lambda>_. sim_poll_events" sim_known
proof unfold_locales
  fix now req and a a' :: sim_broker_adapter and r
  assume "sim_submit now req a = (r, a')"
  then show "sim_known a' \<subseteq> sim_known a \<union> request_ids req" by (rule sim_submit_known)
next
  fix n and a a' :: sim_broker_adapter and events
  assume "sim_poll_events n a = (events, a')"
  then show "length events \<le> n \<and> be_internal_order_id ` set events \<subseteq> sim_known a \<and> sim_known a' \<subseteq> sim_known a"
    by (rule sim_poll_known)
qed

section \<open>An order through the simulated broker\<close>

lemma normalize_length: "normalize_internal_security_id s = Some k \<Longrightarrow> length k < 16"
  by (auto elim!: normalize_Some_build dest!: build_Some(4) intro: length_fs_assign)

lemma canonical_key_survives:
  assumes "normalize_internal_security_id s = Some k" "nul \<notin> set s"
  shows "copy_internal_security_id s 16 = k" "strn_view 16 k = k"
    "normalize_internal_security_id k = Some k" "k \<noteq> []"
  using normalize_length [OF assms(1)] normalize_no_nul [OF assms(1)] normalize_idem [OF assms]
    normalize_nonempty [OF assms(1)] assms(1)
  by (simp_all add: copy_internal_security_id_def strn_view_def Let_def)

lemma side_roundtrip: "to_broker_side s \<noteq> side.Unknown \<Longrightarrow> to_order_side (to_broker_side s) = s"
  by (cases s) auto

lemma mapped_new:
  assumes "map_order_request_to_broker req = Some m" "order_type req = OrderType.New"
  shows "br_type m = request_type.New" "br_internal_order_id m = internal_order_id req"
    "internal_order_id req \<noteq> 0" "br_trade_side m = to_broker_side (trade_side req)"
    "to_broker_side (trade_side req) \<noteq> side.Unknown" "br_order_market m \<noteq> market.Unknown"
    "br_volume m = volume_entrust req" "volume_entrust req \<noteq> 0" "br_price m = dprice_entrust req"
    "dprice_entrust req \<noteq> 0" "br_security_id m \<noteq> []"
    "br_internal_security_id m = copy_internal_security_id (internal_security_id req) 16"
    "br_md_time m = (if md_time_entrust req \<noteq> 0 then md_time_entrust req else md_time_driven req)"
  using assms by (auto simp: map_order_request_to_broker_def Let_def split: if_splits)

section \<open>Properties\<close>

text \<open>C22: Accounting of the gateway.  Whatever the plugin answers and whatever the account
  service does to the shared memories, after any run of the loop the orders received are the
  orders submitted plus the orders failed plus the requests waiting for a retry (counters modulo
  \<open>2^64\<close>), and every waiting request has been tried at least once and at most
  \<open>max_retry_attempts\<close> times.\<close>

theorem gateway_accounts_for_orders:
  "let g = snd (run_gateway submit poll now inputs (gateway_new config downstream trades orders adapter))
   in gs_orders_received (gw_stats g) = gs_orders_submitted (gw_stats g) + gs_orders_failed (gw_stats g)
        + of_nat (length (gw_retry_queue g))
    \<and> list_all (\<lambda>item. 0 < ri_attempts item \<and> ri_attempts item \<le> gc_max_retry_attempts (gw_config g))
        (gw_retry_queue g)"
proof -
  let ?g = "gateway_new config downstream trades orders adapter"
  have "unfinished_requests ?g = 0" "retries_bounded ?g"
    by (simp_all add: gateway_new_def unfinished_requests_def retries_bounded_def gateway_stats_zero_def)
  then have "unfinished_requests (snd (run_gateway submit poll now inputs ?g)) = 0"
    "retries_bounded (snd (run_gateway submit poll now inputs ?g))"
    by (simp_all add: run_gateway_ok)
  then show ?thesis
    by (simp add: Let_def orders_balanced_open [symmetric] orders_balanced_def retries_bounded_def
        list_all_iff)
qed

text \<open>No response without an order.  With the simulated broker, if the order pool holds only
  orders with ids (and cancel targets) in \<open>S\<close>, then every response the gateway ever leaves in
  the response queue is for an id in \<open>S\<close>.\<close>

theorem gateway_answers_known_orders:
  assumes "responses_in S q" and "pool_ids S shm" and "\<forall>inp \<in> set inputs. peer_ok S inp"
    and "sb_pending_events b = []"
    and "snd (run_gateway sim_submit (\<lambda>_. sim_poll_events) now inputs
           (gateway_new config downstream (Some q) (Some shm) b)) = g"
    and "gw_trades g = Some q'"
  shows "tr_internal_order_id ` set (q_list 18 q') \<subseteq> S"
proof -
  have "answers sim_known S (gateway_new config downstream (Some q) (Some shm) b)"
    using assms(1,2,4) by (simp add: answers_def gateway_new_def sim_known_def)
  from sim.run_gateway_answers [OF this assms(3)] show ?thesis
    using assms(5,6) by (auto simp: answers_def responses_in_def)
qed

text \<open>A pool with one order, its index in the downstream queue, and a broker that fills at once.\<close>

definition gateway_example_request :: OrderRequest where
  "gateway_example_request = OrderRequest_default\<lparr>internal_order_id := 7, order_type := OrderType.New,
     trade_side := TradeSide.Buy, market := Market.SZ, volume_entrust := 100, dprice_entrust := 1000,
     internal_security_id := ''SZ.000001'', security_id := ''000001'', md_time_driven := 93000000\<rparr>"

definition gateway_example_broker :: sim_broker_adapter where
  "gateway_example_broker = snd (sim_initialize \<lparr>brc_account_id = 1, brc_auto_fill = True\<rparr> sim_broker_new)"

definition gateway_example_pool :: orders_shm_layout where
  "gateway_example_pool = snd (orders_shm_append gateway_example_request UpstreamQueued User 1 (orders_shm_new 4))"

definition gateway_example_input :: gateway_input where
  "gateway_example_input = \<lparr>gi_retry_now = 1, gi_orders_now = 2, gi_events_now = 3, gi_stats_now = 4,
     gi_downstream = id, gi_trades = id, gi_orders = id, gi_stop = False\<rparr>"

definition gateway_example_run :: "sim_broker_adapter gateway_loop" where
  "gateway_example_run = snd (run_gateway sim_submit (\<lambda>_. sim_poll_events) 0 [gateway_example_input]
     (gateway_new gateway_config_default
        (Some (snd (try_push kQueueCapacity 0 \<lparr>q_head = 0, q_tail = 0, q_buffer = (\<lambda>_. 0)\<rparr>)))
        (Some \<lparr>q_head = 0, q_tail = 0, q_buffer = (\<lambda>_. TradeResponse_zero)\<rparr>)
        (Some gateway_example_pool) gateway_example_broker))"

theorem gateway_answers_known_orders_witness:
  "tr_internal_order_id ` set (q_list 18 (the (gw_trades gateway_example_run))) \<subseteq> {0, 7}
   \<and> length (q_list 18 (the (gw_trades gateway_example_run))) = 3"
proof -
  let ?q = "\<lparr>q_head = 0, q_tail = 0, q_buffer = (\<lambda>_. TradeResponse_zero)\<rparr> :: TradeResponse spsc_queue"
  have "q_ok 18 ?q \<and> q_list 18 ?q = []" using queue_init_list [of 18 ?q] by (simp add: queue_init_def)
  then have q: "responses_in {0, 7} ?q" by (simp add: responses_in_def)
  have p: "pool_ids {0, 7} gateway_example_pool"
    by (auto simp: pool_ids_def gateway_example_pool_def gateway_example_request_def orders_shm_append_def
        orders_shm_try_allocate_def orders_shm_new_def orders_shm_write_order_def orders_shm_mutate_slot_def
        orders_shm_index_exists_def kInvalidOrderIndex_def OrderRequest_default_def OrderSlot_default_def
        Let_def)
  have i: "\<forall>inp \<in> set [gateway_example_input]. peer_ok {0, 7} inp"
    by (simp add: peer_ok_def gateway_example_input_def)
  have b: "sb_pending_events gateway_example_broker = []"
    by (simp add: gateway_example_broker_def sim_initialize_def)
  have run: "(case gw_trades gateway_example_run of None \<Rightarrow> False | Some q' \<Rightarrow> queue_size kQueueCapacity q' = 3)"
    by code_simp
  then obtain q' where q': "gw_trades gateway_example_run = Some q'" "queue_size kQueueCapacity q' = 3"
    by (auto split: option.splits)
  have "length (q_list 18 q') = 3"
    using q'(2) by (simp add: q_list_def kQueueCapacity_pow)
  with gateway_answers_known_orders [OF q p i b gateway_example_run_def [symmetric] q'(1)] q'(1)
  show ?thesis by simp
qed

text \<open>A filled order comes back as itself.  A new order that the mapper accepts and that
  carries a valid security key is accepted by the simulated broker in filling mode; the three
  events it leaves map to the responses accepted, filled at the entrusted volume and price, and
  finished, all under the order's id, side and canonical key, and nothing stays open.\<close>

theorem sim_fill_roundtrip:
  assumes "map_order_request_to_broker req = Some m" and "order_type req = OrderType.New"
    and "normalize_internal_security_id (internal_security_id req) = Some k"
    and "nul \<notin> set (internal_security_id req)"
    and "sb_initialized b" and "sb_auto_fill b"
  shows "\<exists>b' events. sim_submit now m b = (send_ok, b')
    \<and> sb_pending_events b' = sb_pending_events b @ events
    \<and> sb_active_orders b' (internal_order_id req) = None
    \<and> map (\<lambda>e. map_broker_event_to_trade_response e now) events =
        (let base = TradeResponse_zero\<lparr>tr_internal_order_id := internal_order_id req,
               tr_broker_order_id := sb_next_broker_order_id b, tr_internal_security_id := k,
               tr_trade_side := trade_side req,
               tr_md_time_traded := (if md_time_entrust req \<noteq> 0 then md_time_entrust req
                                     else md_time_driven req),
               tr_recv_time_ns := now\<rparr>;
             traded = volume_entrust req * dprice_entrust req
         in [Some (base\<lparr>tr_new_state := OrderState.BrokerAccepted\<rparr>),
             Some (base\<lparr>tr_new_state := OrderState.MarketAccepted, tr_volume_traded := volume_entrust req,
                        tr_dprice_traded := dprice_entrust req, tr_dvalue_traded := traded,
                        tr_dfee := calc_fee traded\<rparr>),
             Some (base\<lparr>tr_new_state := OrderState.Finished\<rparr>)])"
proof -
  note m = mapped_new [OF assms(1,2)] and k = canonical_key_survives [OF assms(3,4)]
  have key: "br_internal_security_id m = k" using m(12) k(1) by simp
  have side: "to_order_side (br_trade_side m) = trade_side req"
    using m(4,5) side_roundtrip by simp
  have mapped: "map_broker_event_to_trade_response e now = Some (TradeResponse_zero\<lparr>
       tr_internal_order_id := be_internal_order_id e, tr_broker_order_id := be_broker_order_id e,
       tr_internal_security_id := k, tr_trade_side := to_order_side (be_trade_side e),
       tr_new_state := map_event_kind_to_state (be_kind e), tr_volume_traded := be_volume_traded e,
       tr_cancelled_volume := be_cancelled_volume e, tr_dprice_traded := be_price_traded e,
       tr_dvalue_traded := be_value_traded e, tr_dfee := be_fee e,
       tr_md_time_traded := be_md_time_traded e, tr_recv_time_ns := now\<rparr>)"
    if "be_internal_security_id e = k" "be_internal_order_id e \<noteq> 0" "be_recv_time_ns e = now"
      "map_event_kind_to_state (be_kind e) \<noteq> OrderState.Unknown" for e
    using that k by (simp add: map_broker_event_to_trade_response_def event_security_key_def Let_def)
  define i where "i = sb_next_broker_order_id b"
  define events where "events = [make_base_event BrokerAccepted m i now, make_trade_event m i now,
    make_natural_finish_event m i now]"
  obtain b' where b': "sim_submit now m b = (send_ok, b')"
    "sb_pending_events b' = sb_pending_events b @ events" "sb_active_orders b' (internal_order_id req) = None"
    using m assms(5,6) by (simp add: sim_submit_def sim_new_order_def Let_def events_def i_def)
  have "map (\<lambda>e. map_broker_event_to_trade_response e now) events =
        (let base = TradeResponse_zero\<lparr>tr_internal_order_id := internal_order_id req,
               tr_broker_order_id := i, tr_internal_security_id := k, tr_trade_side := trade_side req,
               tr_md_time_traded := br_md_time m, tr_recv_time_ns := now\<rparr>;
             traded = volume_entrust req * dprice_entrust req
         in [Some (base\<lparr>tr_new_state := OrderState.BrokerAccepted\<rparr>),
             Some (base\<lparr>tr_new_state := OrderState.MarketAccepted, tr_volume_traded := volume_entrust req,
                        tr_dprice_traded := dprice_entrust req, tr_dvalue_traded := traded,
                        tr_dfee := calc_fee traded\<rparr>),
             Some (base\<lparr>tr_new_state := OrderState.Finished\<rparr>)])"
    using m(2,3,7-10) key side
    by (simp add: events_def mapped Let_def make_base_event_def make_trade_event_def
        make_natural_finish_event_def broker_event_zero_def TradeResponse_zero_def calc_trade_value_def)
  with b' m(13) show ?thesis by (auto simp: i_def)
qed

theorem sim_fill_roundtrip_witness:
  "\<exists>m b' r1 r2 r3 events. map_order_request_to_broker gateway_example_request = Some m
    \<and> sim_submit 9 m gateway_example_broker = (send_ok, b') \<and> sb_pending_events b' = events
    \<and> map (\<lambda>e. map_broker_event_to_trade_response e 9) events = [Some r1, Some r2, Some r3]
    \<and> tr_internal_security_id r2 = ''XSHE_000001'' \<and> tr_volume_traded r2 = 100
    \<and> tr_dvalue_traded r2 = 100000 \<and> tr_new_state r3 = OrderState.Finished"
proof -
  obtain m where m: "map_order_request_to_broker gateway_example_request = Some m"
    by (simp add: map_order_request_to_broker_def gateway_example_request_def copy_security_id_def Let_def)
  have n: "normalize_internal_security_id (internal_security_id gateway_example_request) = Some ''XSHE_000001''"
    "nul \<notin> set (internal_security_id gateway_example_request)"
    "order_type gateway_example_request = OrderType.New"
    by code_simp+
  have b: "sb_initialized gateway_example_broker" "sb_auto_fill gateway_example_broker"
    "sb_pending_events gateway_example_broker = []"
    by code_simp+
  obtain b' events where r: "sim_submit 9 m gateway_example_broker = (send_ok, b')"
    "sb_pending_events b' = sb_pending_events gateway_example_broker @ events"
    "map (\<lambda>e. map_broker_event_to_trade_response e 9) events =
        (let base = TradeResponse_zero\<lparr>tr_internal_order_id := internal_order_id gateway_example_request,
               tr_broker_order_id := sb_next_broker_order_id gateway_example_broker,
               tr_internal_security_id := ''XSHE_000001'',
               tr_trade_side := trade_side gateway_example_request,
               tr_md_time_traded := (if md_time_entrust gateway_example_request \<noteq> 0
                   then md_time_entrust gateway_example_request
                   else md_time_driven gateway_example_request),
               tr_recv_time_ns := 9\<rparr>;
             traded = volume_entrust gateway_example_request * dprice_entrust gateway_example_request
         in [Some (base\<lparr>tr_new_state := OrderState.BrokerAccepted\<rparr>),
             Some (base\<lparr>tr_new_state := OrderState.MarketAccepted,
                        tr_volume_traded := volume_entrust gateway_example_request,
                        tr_dprice_traded := dprice_entrust gateway_example_request,
                        tr_dvalue_traded := traded, tr_dfee := calc_fee traded\<rparr>),
             Some (base\<lparr>tr_new_state := OrderState.Finished\<rparr>)])"
    using sim_fill_roundtrip [OF m n(3) n(1) n(2) b(1,2), of 9] by blast
  with m b(3) show ?thesis
    by (auto simp: Let_def gateway_example_request_def)
qed

section \<open>A retried order is overtaken\<close>

text \<open>
  The retry queue does not hold back later requests for the same order.  A plugin that refuses
  its first request as retryable and logs what it accepts sees the cancel of an order before the
  order itself, which then stays in the market.
\<close>

definition flaky_submit :: "(bool \<times> u32 list) adapter_submit" where
  "flaky_submit now req a =
     (if \<not> fst a then (retryable_error (-1), (True, snd a))
      else (send_ok, (True, snd a @ [br_internal_order_id req])))"

definition overtake_pool :: orders_shm_layout where
  "overtake_pool = snd (orders_shm_append
     (init_cancel 8 93000000 7 OrderRequest_default) UpstreamQueued User 2 gateway_example_pool)"

definition overtake_run :: "(bool \<times> u32 list) gateway_loop" where
  "overtake_run =
     (let q = snd (try_push kQueueCapacity 0 \<lparr>q_head = 0, q_tail = 0, q_buffer = (\<lambda>_. 0)\<rparr>);
          q = snd (try_push kQueueCapacity 1 q)
      in snd (run_gateway flaky_submit (\<lambda>_ _ a. ([], a)) 0
           [gateway_example_input, gateway_example_input\<lparr>gi_retry_now := 1000000\<rparr>]
           (gateway_new gateway_config_default (Some q)
              (Some \<lparr>q_head = 0, q_tail = 0, q_buffer = (\<lambda>_. TradeResponse_zero)\<rparr>)
              (Some overtake_pool) (False, []))))"

lemma cancel_overtakes_retried_order: "snd (gw_adapter overtake_run) = [8, 7]"
  by code_simp

end
