(* ===== verification/Config_Manager.thy ===== *)
theory Config_Manager
  imports Event_Loop
begin

text \<open>
  \<^verbatim>\<open>src/core/config_manager.cpp\<close>: the configuration of the account service, the parsers of
  its values, the loading of a YAML file, the command line, the validation and the export.

  A \<open>double\<close> is its 64 bits; the library's \<open>stod\<close> and the stream output of doubles are
  parameters.  The YAML reader is third party: \<open>yaml\<close> gives the tree of a file, \<open>None\<close> when
  \<open>YAML::LoadFile\<close> throws.  A reported error is its code; the operations of the manager record
  it with the domain \<open>config\<close> in the error state.
\<close>

section \<open>The configuration\<close>

type_synonym float64 = "64 word"

record SHMConfig =
  upstream_shm_name :: string
  downstream_shm_name :: string
  trades_shm_name :: string
  orders_shm_name :: string
  positions_shm_name :: string
  create_if_not_exist :: bool

record EventLoopOptions = EventLoopConfig +
  pin_cpu :: bool
  cpu_core :: int

record ActiveStrategyOptions =
  aso_enabled :: bool
  aso_name :: string
  aso_signal_threshold :: float64

record SplitOptions = split_config +
  randomize_factor :: float64

record LogConfig =
  log_dir :: string
  log_level :: string
  async_logging :: bool
  async_queue_size :: u64

record BusinessLogConfig =
  bl_enabled :: bool
  bl_output_dir :: string
  bl_queue_capacity :: u64
  bl_flush_interval_ms :: u32

record DBConfig =
  db_file_path :: string
  enable_persistence :: bool
  sync_interval_ms :: u32

record Config =
  cf_account_id :: AccountId
  cf_trading_day :: string
  cf_config_file :: string
  cf_shm :: SHMConfig
  cf_event_loop :: EventLoopOptions
  cf_market_data :: MarketDataConfig
  cf_active_strategy :: ActiveStrategyOptions
  cf_risk :: RiskConfig
  cf_split :: SplitOptions
  cf_log :: LogConfig
  cf_business_log :: BusinessLogConfig
  cf_db :: DBConfig

definition Config_default :: Config where
  "Config_default = \<lparr>
     cf_account_id = 1, cf_trading_day = ''19700101'', cf_config_file = [],
     cf_shm = \<lparr>upstream_shm_name = ''/upstream_order_shm'', downstream_shm_name = ''/downstream_order_shm'',
       trades_shm_name = ''/trades_shm'', orders_shm_name = ''/orders_shm'',
       positions_shm_name = ''/positions_shm'', create_if_not_exist = True\<rparr>,
     cf_event_loop = \<lparr>busy_polling = True, poll_batch_size = 64, idle_sleep_us = 0,
       stats_interval_ms = 1000, archive_terminal_orders = False, terminal_archive_delay_ms = 2000,
       pin_cpu = False, cpu_core = -1\<rparr>,
     cf_market_data = \<lparr>mdc_enabled = False, snapshot_shm_name = ''/signal_xshg_v2'',
       mdc_allow_order_price_fallback = False\<rparr>,
     cf_active_strategy = \<lparr>aso_enabled = False, aso_name = ''none'', aso_signal_threshold = 0\<rparr>,
     cf_risk = \<lparr>max_order_value = 0, max_order_volume = 0, max_daily_turnover = 0,
       max_orders_per_second = 0, enable_price_limit_check = True, enable_duplicate_check = True,
       enable_fund_check = True, enable_position_check = True, duplicate_window_ns = 100000000\<rparr>,
     cf_split = \<lparr>sc_strategy = SplitNone, max_child_volume = 0, min_child_volume = 100,
       max_child_count = 100, interval_ms = 0, randomize_factor = 0\<rparr>,
     cf_log = \<lparr>log_dir = ''./logs'', log_level = ''info'', async_logging = True, async_queue_size = 8192\<rparr>,
     cf_business_log = \<lparr>bl_enabled = True, bl_output_dir = ''./logs'', bl_queue_capacity = 65536,
       bl_flush_interval_ms = 100\<rparr>,
     cf_db = \<lparr>db_file_path = [], enable_persistence = True, sync_interval_ms = 1000\<rparr>\<rparr>"

section \<open>Parsing values\<close>

datatype ConfigValueParseError =
    InvalidBool | InvalidU32 | InvalidU64 | InvalidI32 | InvalidDouble | InvalidSplitStrategy
  | InvalidTradingDay | OutOfRange | UnknownKey

type_synonym 'a parsed = "ConfigValueParseError + 'a"

text \<open>\<open>isspace\<close> and \<open>tolower\<close> of the C locale.\<close>

definition is_space :: "char \<Rightarrow> bool" where
  "is_space c = (let n = (of_char c :: nat) in n = 32 \<or> (9 \<le> n \<and> n \<le> 13))"

definition to_lower :: "char \<Rightarrow> char" where
  "to_lower c = (let n = (of_char c :: nat) in if 65 \<le> n \<and> n \<le> 90 then char_of (n + 32) else c)"

definition trim_copy :: "string \<Rightarrow> string" where
  "trim_copy s = rev (dropWhile is_space (rev (dropWhile is_space s)))"

definition digit_value :: "char \<Rightarrow> nat" where
  "digit_value c = of_char c - 48"

definition digits_value :: "string \<Rightarrow> nat" where
  "digits_value ds = foldl (\<lambda>acc c. 10 * acc + digit_value c) 0 ds"

text \<open>
  \<open>std::from_chars\<close> in base ten: the longest run of digits, after a minus sign for a signed
  type.  The result is the value, if there was a digit, and the rest.
\<close>

definition from_chars_nat :: "string \<Rightarrow> (nat \<times> string) option" where
  "from_chars_nat s =
     (let ds = takeWhile is_digit s
      in if ds = [] then None else Some (digits_value ds, dropWhile is_digit s))"

definition from_chars_int :: "string \<Rightarrow> (int \<times> string) option" where
  "from_chars_int s =
     (case s of
        c # rest \<Rightarrow> if c = CHR ''-''
                    then map_option (\<lambda>(n, r). (- int n, r)) (from_chars_nat rest)
                    else map_option (\<lambda>(n, r). (int n, r)) (from_chars_nat s)
      | [] \<Rightarrow> None)"

text \<open>
  \<open>parse_integral\<close> for a type with the values \<open>lo\<close> to \<open>hi\<close>; \<open>from\<close> reads an unsigned or a
  signed number.
\<close>

definition strip_plus :: "string \<Rightarrow> string" where
  "strip_plus value = (case value of c # rest \<Rightarrow> if c = CHR ''+'' then rest else value | [] \<Rightarrow> [])"

definition parse_integral ::
    "(string \<Rightarrow> (int \<times> string) option) \<Rightarrow> int \<Rightarrow> int \<Rightarrow> ConfigValueParseError \<Rightarrow> string \<Rightarrow> int parsed" where
  "parse_integral from lo hi error raw_value =
     (let value = trim_copy raw_value
      in if value = [] then Inl error
         else let value = strip_plus value
              in if value = [] then Inl error
                 else case from value of
                   None \<Rightarrow> Inl error
                 | Some (v, rest) \<Rightarrow>
                     if \<not> (lo \<le> v \<and> v \<le> hi) then Inl OutOfRange
                     else if rest = [] then Inr v else Inl error)"

definition from_chars_unsigned :: "string \<Rightarrow> (int \<times> string) option" where
  "from_chars_unsigned s = map_option (\<lambda>(n, r). (int n, r)) (from_chars_nat s)"

definition map_parsed :: "('a \<Rightarrow> 'b) \<Rightarrow> 'a parsed \<Rightarrow> 'b parsed" where
  "map_parsed f r = (case r of Inl e \<Rightarrow> Inl e | Inr v \<Rightarrow> Inr (f v))"

definition parse_u32 :: "string \<Rightarrow> u32 parsed" where
  "parse_u32 value = map_parsed of_int (parse_integral from_chars_unsigned 0 (2 ^ 32 - 1) InvalidU32 value)"

definition parse_u64 :: "string \<Rightarrow> u64 parsed" where
  "parse_u64 value = map_parsed of_int (parse_integral from_chars_unsigned 0 (2 ^ 64 - 1) InvalidU64 value)"

definition parse_i32 :: "string \<Rightarrow> int parsed" where
  "parse_i32 value = parse_integral from_chars_int (- (2 ^ 31)) (2 ^ 31 - 1) InvalidI32 value"

definition parse_bool :: "string \<Rightarrow> bool parsed" where
  "parse_bool raw_value =
     (let value = map to_lower (trim_copy raw_value)
      in if value = ''1'' \<or> value = ''true'' \<or> value = ''yes'' \<or> value = ''on'' then Inr True
         else if value = ''0'' \<or> value = ''false'' \<or> value = ''no'' \<or> value = ''off'' then Inr False
         else Inl InvalidBool)"

text \<open>\<open>std::stod\<close>: an exception, or the value and the number of characters consumed.\<close>

datatype stod_result = StodInvalid | StodOutOfRange | StodOk float64 nat

definition parse_double :: "(string \<Rightarrow> stod_result) \<Rightarrow> string \<Rightarrow> float64 parsed" where
  "parse_double stod raw_value =
     (let value = trim_copy raw_value
      in if value = [] then Inl InvalidDouble
         else case stod value of
           StodOk v consumed \<Rightarrow> if consumed \<noteq> length value then Inl InvalidDouble else Inr v
         | StodOutOfRange \<Rightarrow> Inl OutOfRange
         | StodInvalid \<Rightarrow> Inl InvalidDouble)"

definition parse_split_strategy :: "string \<Rightarrow> SplitStrategy parsed" where
  "parse_split_strategy raw_value =
     (let value = map to_lower (trim_copy raw_value)
      in if value = ''none'' then Inr SplitNone
         else if value = ''fixed'' \<or> value = ''fixed_size'' \<or> value = ''fixedsize'' then Inr SplitStrategy.FixedSize
         else if value = ''twap'' then Inr SplitStrategy.TWAP
         else if value = ''vwap'' then Inr SplitStrategy.VWAP
         else if value = ''iceberg'' then Inr SplitStrategy.Iceberg
         else Inl InvalidSplitStrategy)"

fun split_strategy_to_string :: "SplitStrategy \<Rightarrow> string" where
  "split_strategy_to_string SplitStrategy.FixedSize = ''fixed_size''"
| "split_strategy_to_string SplitStrategy.TWAP = ''twap''"
| "split_strategy_to_string SplitStrategy.VWAP = ''vwap''"
| "split_strategy_to_string SplitStrategy.Iceberg = ''iceberg''"
| "split_strategy_to_string SplitNone = ''none''"

definition is_valid_trading_day_value :: "string \<Rightarrow> bool" where
  "is_valid_trading_day_value trading_day =
     (if length trading_day \<noteq> 8 then False else list_all is_digit trading_day)"

section \<open>Applying a value to a key\<close>

text \<open>
  \<open>apply_value\<close> is a chain of comparisons of the key; here it is a table.  A key of a section
  is \<open><section>.<key>\<close>; \<open>EventLoop\<close> is an alias of \<open>event_loop\<close>.
\<close>

type_synonym key_setter = "string \<Rightarrow> Config \<Rightarrow> Config parsed"

definition set_string :: "(string \<Rightarrow> Config \<Rightarrow> Config) \<Rightarrow> key_setter" where
  "set_string assign value c = Inr (assign value c)"

definition set_parsed :: "(string \<Rightarrow> 'a parsed) \<Rightarrow> ('a \<Rightarrow> Config \<Rightarrow> Config) \<Rightarrow> key_setter" where
  "set_parsed parse assign value c = map_parsed (\<lambda>v. assign v c) (parse value)"

definition set_trading_day :: key_setter where
  "set_trading_day value c =
     (if \<not> is_valid_trading_day_value value then Inl InvalidTradingDay
      else Inr (c\<lparr>cf_trading_day := value\<rparr>))"

definition shm_keys :: "(string \<times> key_setter) list" where
  "shm_keys =
     [(''upstream_shm_name'', set_string (\<lambda>v c. c\<lparr>cf_shm := (cf_shm c)\<lparr>upstream_shm_name := v\<rparr>\<rparr>)),
      (''downstream_shm_name'', set_string (\<lambda>v c. c\<lparr>cf_shm := (cf_shm c)\<lparr>downstream_shm_name := v\<rparr>\<rparr>)),
      (''trades_shm_name'', set_string (\<lambda>v c. c\<lparr>cf_shm := (cf_shm c)\<lparr>trades_shm_name := v\<rparr>\<rparr>)),
      (''orders_shm_name'', set_string (\<lambda>v c. c\<lparr>cf_shm := (cf_shm c)\<lparr>orders_shm_name := v\<rparr>\<rparr>)),
      (''positions_shm_name'', set_string (\<lambda>v c. c\<lparr>cf_shm := (cf_shm c)\<lparr>positions_shm_name := v\<rparr>\<rparr>)),
      (''create_if_not_exist'', set_parsed parse_bool (\<lambda>v c. c\<lparr>cf_shm := (cf_shm c)\<lparr>create_if_not_exist := v\<rparr>\<rparr>))]"

definition event_loop_keys :: "(string \<times> key_setter) list" where
  "event_loop_keys =
     [(''busy_polling'', set_parsed parse_bool (\<lambda>v c. c\<lparr>cf_event_loop := (cf_event_loop c)\<lparr>busy_polling := v\<rparr>\<rparr>)),
      (''poll_batch_size'', set_parsed parse_u32 (\<lambda>v c. c\<lparr>cf_event_loop := (cf_event_loop c)\<lparr>poll_batch_size := v\<rparr>\<rparr>)),
      (''idle_sleep_us'', set_parsed parse_u32 (\<lambda>v c. c\<lparr>cf_event_loop := (cf_event_loop c)\<lparr>idle_sleep_us := v\<rparr>\<rparr>)),
      (''stats_interval_ms'', set_parsed parse_u32 (\<lambda>v c. c\<lparr>cf_event_loop := (cf_event_loop c)\<lparr>stats_interval_ms := v\<rparr>\<rparr>)),
      (''archive_terminal_orders'', set_parsed parse_bool (\<lambda>v c. c\<lparr>cf_event_loop := (cf_event_loop c)\<lparr>archive_terminal_orders := v\<rparr>\<rparr>)),
      (''terminal_archive_delay_ms'', set_parsed parse_u32 (\<lambda>v c. c\<lparr>cf_event_loop := (cf_event_loop c)\<lparr>terminal_archive_delay_ms := v\<rparr>\<rparr>)),
      (''pin_cpu'', set_parsed parse_bool (\<lambda>v c. c\<lparr>cf_event_loop := (cf_event_loop c)\<lparr>pin_cpu := v\<rparr>\<rparr>)),
      (''cpu_core'', set_parsed parse_i32 (\<lambda>v c. c\<lparr>cf_event_loop := (cf_event_loop c)\<lparr>cpu_core := v\<rparr>\<rparr>))]"

definition market_data_keys :: "(string \<times> key_setter) list" where
  "market_data_keys =
     [(''enabled'', set_parsed parse_bool (\<lambda>v c. c\<lparr>cf_market_data := (cf_market_data c)\<lparr>mdc_enabled := v\<rparr>\<rparr>)),
      (''snapshot_shm_name'', set_string (\<lambda>v c. c\<lparr>cf_market_data := (cf_market_data c)\<lparr>snapshot_shm_name := v\<rparr>\<rparr>)),
      (''allow_order_price_fallback'', set_parsed parse_bool (\<lambda>v c. c\<lparr>cf_market_data := (cf_market_data c)\<lparr>mdc_allow_order_price_fallback := v\<rparr>\<rparr>))]"

definition active_strategy_keys :: "(string \<Rightarrow> stod_result) \<Rightarrow> (string \<times> key_setter) list" where
  "active_strategy_keys stod =
     [(''enabled'', set_parsed parse_bool (\<lambda>v c. c\<lparr>cf_active_strategy := (cf_active_strategy c)\<lparr>aso_enabled := v\<rparr>\<rparr>)),
      (''name'', set_string (\<lambda>v c. c\<lparr>cf_active_strategy := (cf_active_strategy c)\<lparr>aso_name := v\<rparr>\<rparr>)),
      (''signal_threshold'', set_parsed (parse_double stod) (\<lambda>v c. c\<lparr>cf_active_strategy := (cf_active_strategy c)\<lparr>aso_signal_threshold := v\<rparr>\<rparr>))]"

definition risk_keys :: "(string \<times> key_setter) list" where
  "risk_keys =
     [(''max_order_value'', set_parsed parse_u64 (\<lambda>v c. c\<lparr>cf_risk := (cf_risk c)\<lparr>max_order_value := v\<rparr>\<rparr>)),
      (''max_order_volume'', set_parsed parse_u64 (\<lambda>v c. c\<lparr>cf_risk := (cf_risk c)\<lparr>max_order_volume := v\<rparr>\<rparr>)),
      (''max_daily_turnover'', set_parsed parse_u64 (\<lambda>v c. c\<lparr>cf_risk := (cf_risk c)\<lparr>max_daily_turnover := v\<rparr>\<rparr>)),
      (''max_orders_per_second'', set_parsed parse_u32 (\<lambda>v c. c\<lparr>cf_risk := (cf_risk c)\<lparr>max_orders_per_second := v\<rparr>\<rparr>)),
      (''enable_price_limit_check'', set_parsed parse_bool (\<lambda>v c. c\<lparr>cf_risk := (cf_risk c)\<lparr>enable_price_limit_check := v\<rparr>\<rparr>)),
      (''enable_duplicate_check'', set_parsed parse_bool (\<lambda>v c. c\<lparr>cf_risk := (cf_risk c)\<lparr>enable_duplicate_check := v\<rparr>\<rparr>)),
      (''enable_fund_check'', set_parsed parse_bool (\<lambda>v c. c\<lparr>cf_risk := (cf_risk c)\<lparr>enable_fund_check := v\<rparr>\<rparr>)),
      (''enable_position_check'', set_parsed parse_bool (\<lambda>v c. c\<lparr>cf_risk := (cf_risk c)\<lparr>enable_position_check := v\<rparr>\<rparr>)),
      (''duplicate_window_ns'', set_parsed parse_u64 (\<lambda>v c. c\<lparr>cf_risk := (cf_risk c)\<lparr>duplicate_window_ns := v\<rparr>\<rparr>))]"

definition split_keys :: "(string \<Rightarrow> stod_result) \<Rightarrow> (string \<times> key_setter) list" where
  "split_keys stod =
     [(''strategy'', set_parsed parse_split_strategy (\<lambda>v c. c\<lparr>cf_split := (cf_split c)\<lparr>sc_strategy := v\<rparr>\<rparr>)),
      (''max_child_volume'', set_parsed parse_u64 (\<lambda>v c. c\<lparr>cf_split := (cf_split c)\<lparr>max_child_volume := v\<rparr>\<rparr>)),
      (''min_child_volume'', set_parsed parse_u64 (\<lambda>v c. c\<lparr>cf_split := (cf_split c)\<lparr>min_child_volume := v\<rparr>\<rparr>)),
      (''max_child_count'', set_parsed parse_u32 (\<lambda>v c. c\<lparr>cf_split := (cf_split c)\<lparr>max_child_count := v\<rparr>\<rparr>)),
      (''interval_ms'', set_parsed parse_u32 (\<lambda>v c. c\<lparr>cf_split := (cf_split c)\<lparr>interval_ms := v\<rparr>\<rparr>)),
      (''randomize_factor'', set_parsed (parse_double stod) (\<lambda>v c. c\<lparr>cf_split := (cf_split c)\<lparr>randomize_factor := v\<rparr>\<rparr>))]"

definition log_keys :: "(string \<times> key_setter) list" where
  "log_keys =
     [(''log_dir'', set_string (\<lambda>v c. c\<lparr>cf_log := (cf_log c)\<lparr>log_dir := v\<rparr>\<rparr>)),
      (''log_level'', set_string (\<lambda>v c. c\<lparr>cf_log := (cf_log c)\<lparr>log_level := v\<rparr>\<rparr>)),
      (''async_logging'', set_parsed parse_bool (\<lambda>v c. c\<lparr>cf_log := (cf_log c)\<lparr>async_logging := v\<rparr>\<rparr>)),
      (''async_queue_size'', set_parsed parse_u64 (\<lambda>v c. c\<lparr>cf_log := (cf_log c)\<lparr>async_queue_size := v\<rparr>\<rparr>))]"

definition business_log_keys :: "(string \<times> key_setter) list" where
  "business_log_keys =
     [(''enabled'', set_parsed parse_bool (\<lambda>v c. c\<lparr>cf_business_log := (cf_business_log c)\<lparr>bl_enabled := v\<rparr>\<rparr>)),
      (''output_dir'', set_string (\<lambda>v c. c\<lparr>cf_business_log := (cf_business_log c)\<lparr>bl_output_dir := v\<rparr>\<rparr>)),
      (''queue_capacity'', set_parsed parse_u64 (\<lambda>v c. c\<lparr>cf_business_log := (cf_business_log c)\<lparr>bl_queue_capacity := v\<rparr>\<rparr>)),
      (''flush_interval_ms'', set_parsed parse_u32 (\<lambda>v c. c\<lparr>cf_business_log := (cf_business_log c)\<lparr>bl_flush_interval_ms := v\<rparr>\<rparr>))]"

definition db_keys :: "(string \<times> key_setter) list" where
  "db_keys =
     [(''db_path'', set_string (\<lambda>v c. c\<lparr>cf_db := (cf_db c)\<lparr>db_file_path := v\<rparr>\<rparr>)),
      (''enable_persistence'', set_parsed parse_bool (\<lambda>v c. c\<lparr>cf_db := (cf_db c)\<lparr>enable_persistence := v\<rparr>\<rparr>)),
      (''sync_interval_ms'', set_parsed parse_u32 (\<lambda>v c. c\<lparr>cf_db := (cf_db c)\<lparr>sync_interval_ms := v\<rparr>\<rparr>))]"

definition in_section :: "string \<Rightarrow> (string \<times> key_setter) list \<Rightarrow> (string \<times> key_setter) list" where
  "in_section name keys = map (\<lambda>(key, setter). (name @ ''.'' @ key, setter)) keys"

definition section_setters :: "(string \<Rightarrow> stod_result) \<Rightarrow> (string \<times> (string \<times> key_setter) list) list" where
  "section_setters stod =
     [(''shm'', shm_keys), (''event_loop'', event_loop_keys), (''EventLoop'', event_loop_keys),
      (''market_data'', market_data_keys), (''active_strategy'', active_strategy_keys stod),
      (''risk'', risk_keys), (''split'', split_keys stod), (''log'', log_keys),
      (''business_log'', business_log_keys), (''db'', db_keys)]"

definition config_keys :: "(string \<Rightarrow> stod_result) \<Rightarrow> (string \<times> key_setter) list" where
  "config_keys stod =
     [(''account_id'', set_parsed parse_u32 (\<lambda>v c. c\<lparr>cf_account_id := v\<rparr>)),
      (''trading_day'', set_trading_day)]
     @ concat (map (\<lambda>(name, keys). in_section name keys) (section_setters stod))"

definition apply_value :: "(string \<Rightarrow> stod_result) \<Rightarrow> Config \<Rightarrow> string \<Rightarrow> string \<Rightarrow> Config parsed" where
  "apply_value stod cfg key raw_value =
     (case map_of (config_keys stod) key of
        None \<Rightarrow> Inl UnknownKey
      | Some setter \<Rightarrow> setter (trim_copy raw_value) cfg)"

section \<open>Loading a file\<close>

text \<open>
  A node of the parsed file.  \<open>node[key]\<close> finds the first entry whose key is that scalar.
\<close>

datatype yaml_node = YNull | YScalar string | YSeq "yaml_node list" | YMap "(yaml_node \<times> yaml_node) list"

fun yaml_find :: "string \<Rightarrow> (yaml_node \<times> yaml_node) list \<Rightarrow> yaml_node option" where
  "yaml_find key [] = None"
| "yaml_find key ((k, v) # entries) = (if k = YScalar key then Some v else yaml_find key entries)"

type_synonym 'a reported = "ErrorCode + 'a"

definition read_scalar_string :: "yaml_node \<Rightarrow> string reported" where
  "read_scalar_string node = (case node of YScalar s \<Rightarrow> Inr s | _ \<Rightarrow> Inl ConfigParseFailed)"

definition ensure_mapping :: "yaml_node \<Rightarrow> (yaml_node \<times> yaml_node) list reported" where
  "ensure_mapping node = (case node of YMap entries \<Rightarrow> Inr entries | _ \<Rightarrow> Inl ConfigParseFailed)"

fun check_allowed_keys :: "(yaml_node \<times> yaml_node) list \<Rightarrow> string list \<Rightarrow> unit reported" where
  "check_allowed_keys [] allowed = Inr ()"
| "check_allowed_keys ((k, v) # entries) allowed =
     (case k of
        YScalar key \<Rightarrow> if key \<in> set allowed then check_allowed_keys entries allowed
                       else Inl ConfigParseFailed
      | _ \<Rightarrow> Inl ConfigParseFailed)"

definition apply_scalar :: "(string \<Rightarrow> stod_result) \<Rightarrow> Config \<Rightarrow> string \<Rightarrow> yaml_node \<Rightarrow> Config reported" where
  "apply_scalar stod cfg path node =
     (case read_scalar_string node of
        Inl code \<Rightarrow> Inl code
      | Inr value \<Rightarrow>
          (case apply_value stod cfg path value of
             Inl error \<Rightarrow> Inl ConfigParseFailed
           | Inr cfg \<Rightarrow> Inr cfg))"

fun apply_entries :: "(string \<Rightarrow> stod_result) \<Rightarrow> string \<Rightarrow> (yaml_node \<times> yaml_node) list \<Rightarrow> Config \<Rightarrow> Config reported" where
  "apply_entries stod name [] cfg = Inr cfg"
| "apply_entries stod name ((k, v) # entries) cfg =
     (case k of
        YScalar key \<Rightarrow>
          (case apply_scalar stod cfg (name @ ''.'' @ key) v of
             Inl code \<Rightarrow> Inl code
           | Inr cfg \<Rightarrow> apply_entries stod name entries cfg)
      | _ \<Rightarrow> Inl ConfigParseFailed)"

definition parse_section ::
    "(string \<Rightarrow> stod_result) \<Rightarrow> (yaml_node \<times> yaml_node) list \<Rightarrow> string \<Rightarrow> string list \<Rightarrow> Config \<Rightarrow> Config reported" where
  "parse_section stod root name allowed cfg =
     (case yaml_find name root of
        None \<Rightarrow> Inr cfg
      | Some sect \<Rightarrow>
          (case ensure_mapping sect of
             Inl code \<Rightarrow> Inl code
           | Inr entries \<Rightarrow>
               (case check_allowed_keys entries allowed of
                  Inl code \<Rightarrow> Inl code
                | Inr _ \<Rightarrow> apply_entries stod name entries cfg)))"

definition root_keys :: "string list" where
  "root_keys = [''account_id'', ''trading_day'', ''shm'', ''event_loop'', ''EventLoop'', ''market_data'',
     ''active_strategy'', ''risk'', ''split'', ''log'', ''business_log'', ''db'']"

definition event_loop_allowed :: "string list" where
  "event_loop_allowed = [''busy_polling'', ''poll_batch_size'', ''idle_sleep_us'', ''stats_interval_ms'',
     ''archive_terminal_orders'', ''terminal_archive_delay_ms'', ''pin_cpu'', ''cpu_core'']"

definition config_sections :: "(string \<times> string list) list" where
  "config_sections =
     [(''shm'', [''upstream_shm_name'', ''downstream_shm_name'', ''trades_shm_name'', ''orders_shm_name'',
        ''positions_shm_name'', ''create_if_not_exist'']),
      (''event_loop'', event_loop_allowed),
      (''EventLoop'', event_loop_allowed),
      (''market_data'', [''enabled'', ''snapshot_shm_name'', ''allow_order_price_fallback'']),
      (''active_strategy'', [''enabled'', ''name'', ''signal_threshold'']),
      (''risk'', [''max_order_value'', ''max_order_volume'', ''max_daily_turnover'', ''max_orders_per_second'',
        ''enable_price_limit_check'', ''enable_duplicate_check'', ''enable_fund_check'',
        ''enable_position_check'', ''duplicate_window_ns'']),
      (''split'', [''strategy'', ''max_child_volume'', ''min_child_volume'', ''max_child_count'',
        ''interval_ms'', ''randomize_factor'']),
      (''log'', [''log_dir'', ''log_level'', ''async_logging'', ''async_queue_size'']),
      (''business_log'', [''enabled'', ''output_dir'', ''queue_capacity'', ''flush_interval_ms'']),
      (''db'', [''db_path'', ''enable_persistence'', ''sync_interval_ms''])]"

definition parse_root_scalar ::
    "(string \<Rightarrow> stod_result) \<Rightarrow> (yaml_node \<times> yaml_node) list \<Rightarrow> string \<Rightarrow> Config \<Rightarrow> Config reported" where
  "parse_root_scalar stod root key cfg =
     (case yaml_find key root of None \<Rightarrow> Inr cfg | Some node \<Rightarrow> apply_scalar stod cfg key node)"

fun parse_sections ::
    "(string \<Rightarrow> stod_result) \<Rightarrow> (yaml_node \<times> yaml_node) list \<Rightarrow> (string \<times> string list) list \<Rightarrow> Config \<Rightarrow> Config reported" where
  "parse_sections stod root [] cfg = Inr cfg"
| "parse_sections stod root ((name, allowed) # sections) cfg =
     (case parse_section stod root name allowed cfg of
        Inl code \<Rightarrow> Inl code
      | Inr cfg \<Rightarrow> parse_sections stod root sections cfg)"

definition parse_root :: "(string \<Rightarrow> stod_result) \<Rightarrow> yaml_node \<Rightarrow> Config \<Rightarrow> Config reported" where
  "parse_root stod root cfg =
     (case root of
        YNull \<Rightarrow> Inr cfg
      | YMap entries \<Rightarrow>
          (case check_allowed_keys entries root_keys of
             Inl code \<Rightarrow> Inl code
           | Inr _ \<Rightarrow>
               (case parse_root_scalar stod entries ''account_id'' cfg of
                  Inl code \<Rightarrow> Inl code
                | Inr cfg \<Rightarrow>
                    (case parse_root_scalar stod entries ''trading_day'' cfg of
                       Inl code \<Rightarrow> Inl code
                     | Inr cfg \<Rightarrow> parse_sections stod entries config_sections cfg)))
      | _ \<Rightarrow> Inl ConfigParseFailed)"

section \<open>Validation\<close>

definition validate_config :: "Config \<Rightarrow> bool" where
  "validate_config c =
     (if cf_account_id c = 0 then False
      else if \<not> is_valid_trading_day_value (cf_trading_day c) then False
      else if upstream_shm_name (cf_shm c) = [] \<or> downstream_shm_name (cf_shm c) = []
              \<or> trades_shm_name (cf_shm c) = [] \<or> orders_shm_name (cf_shm c) = []
              \<or> positions_shm_name (cf_shm c) = [] then False
      else if mdc_enabled (cf_market_data c) \<and> snapshot_shm_name (cf_market_data c) = [] then False
      else if aso_enabled (cf_active_strategy c) \<and> \<not> mdc_enabled (cf_market_data c) then False
      else if sc_strategy (cf_split c) \<noteq> SplitNone \<and> \<not> mdc_enabled (cf_market_data c)
              \<and> \<not> mdc_allow_order_price_fallback (cf_market_data c) then False
      else if poll_batch_size (cf_event_loop c) = 0 then False
      else if sc_strategy (cf_split c) \<noteq> SplitNone \<and> max_child_count (cf_split c) = 0 then False
      else if bl_enabled (cf_business_log c) then
        (if bl_output_dir (cf_business_log c) = [] then False
         else if bl_queue_capacity (cf_business_log c) < 2 then False
         else if bl_queue_capacity (cf_business_log c) \<ge> 4294967295 then False
         else if bl_flush_interval_ms (cf_business_log c) = 0 then False
         else True)
      else True)"

section \<open>The manager\<close>

record ConfigManager =
  cm_config :: Config
  cm_path :: string
  cm_errors :: error_state

definition config_manager_new :: "error_state \<Rightarrow> ConfigManager" where
  "config_manager_new errors = \<lparr>cm_config = Config_default, cm_path = [], cm_errors = errors\<rparr>"

definition report_config_error :: "ErrorCode \<Rightarrow> TimestampNs \<Rightarrow> ConfigManager \<Rightarrow> ConfigManager" where
  "report_config_error code now m =
     m\<lparr>cm_errors := record_error (make_error_status D_config code [] [] 0 [] 0 now) (cm_errors m)\<rparr>"

definition validate :: "TimestampNs \<Rightarrow> ConfigManager \<Rightarrow> bool \<times> ConfigManager" where
  "validate now m =
     (if validate_config (cm_config m) then (True, m)
      else (False, report_config_error ConfigValidateFailed now m))"

definition load_from_file ::
    "(string \<Rightarrow> stod_result) \<Rightarrow> (string \<Rightarrow> yaml_node option) \<Rightarrow> TimestampNs \<Rightarrow> string \<Rightarrow> ConfigManager
      \<Rightarrow> bool \<times> ConfigManager" where
  "load_from_file stod yaml now config_path m =
     (let loaded = (cm_config m)\<lparr>cf_config_file := config_path\<rparr>
      in case yaml config_path of
           None \<Rightarrow> (False, report_config_error ConfigParseFailed now m)
         | Some root \<Rightarrow>
             (case parse_root stod root loaded of
                Inl code \<Rightarrow> (False, report_config_error code now m)
              | Inr loaded \<Rightarrow> validate now (m\<lparr>cm_config := loaded, cm_path := config_path\<rparr>)))"

definition reload :: "(string \<Rightarrow> stod_result) \<Rightarrow> (string \<Rightarrow> yaml_node option) \<Rightarrow> TimestampNs \<Rightarrow> ConfigManager
    \<Rightarrow> bool \<times> ConfigManager" where
  "reload stod yaml now m =
     (if cm_path m = [] then (False, report_config_error InvalidState now m)
      else load_from_file stod yaml now (cm_path m) m)"

section \<open>The command line\<close>

text \<open>
  The options that set a key through \<open>apply_value\<close>, and those that store their argument as it
  is.  Other arguments are skipped.
\<close>

definition checked_options :: "(string \<times> string) list" where
  "checked_options =
     [(''--account-id'', ''account_id''), (''--trading-day'', ''trading_day''),
      (''--poll-batch'', ''EventLoop.poll_batch_size''), (''--idle-sleep-us'', ''EventLoop.idle_sleep_us''),
      (''--terminal-archive-delay-ms'', ''EventLoop.terminal_archive_delay_ms''),
      (''--archive-terminal-orders'', ''EventLoop.archive_terminal_orders''),
      (''--split-strategy'', ''split.strategy''), (''--max-child-volume'', ''split.max_child_volume'')]"

definition shm_name_options :: "(string \<times> (string \<Rightarrow> SHMConfig \<Rightarrow> SHMConfig)) list" where
  "shm_name_options =
     [(''--upstream-shm'', \<lambda>v s. s\<lparr>upstream_shm_name := v\<rparr>),
      (''--downstream-shm'', \<lambda>v s. s\<lparr>downstream_shm_name := v\<rparr>),
      (''--positions-shm'', \<lambda>v s. s\<lparr>positions_shm_name := v\<rparr>),
      (''--trades-shm'', \<lambda>v s. s\<lparr>trades_shm_name := v\<rparr>),
      (''--orders-shm'', \<lambda>v s. s\<lparr>orders_shm_name := v\<rparr>)]"

definition apply_option ::
    "(string \<Rightarrow> stod_result) \<Rightarrow> string \<Rightarrow> string \<Rightarrow> TimestampNs \<Rightarrow> ConfigManager \<Rightarrow> bool \<times> ConfigManager" where
  "apply_option stod key value now m =
     (case apply_value stod (cm_config m) key value of
        Inr cfg \<Rightarrow> (True, m\<lparr>cm_config := cfg\<rparr>)
      | Inl error \<Rightarrow> (False, report_config_error ErrorCode.InvalidConfig now m))"

fun parse_args ::
    "(string \<Rightarrow> stod_result) \<Rightarrow> (string \<Rightarrow> yaml_node option) \<Rightarrow> TimestampNs \<Rightarrow> string list \<Rightarrow> ConfigManager
      \<Rightarrow> bool \<times> ConfigManager" where
  "parse_args stod yaml now [] m = validate now m"
| "parse_args stod yaml now [arg] m =
     (if arg = ''--config'' \<or> map_of checked_options arg \<noteq> None
      then (False, report_config_error ErrorCode.InvalidConfig now m)
      else if map_of shm_name_options arg \<noteq> None then (False, m)
      else validate now m)"
| "parse_args stod yaml now (arg # value # args) m =
     (if arg = ''--config'' then
        (case load_from_file stod yaml now value m of
           (False, m) \<Rightarrow> (False, m)
         | (True, m) \<Rightarrow> parse_args stod yaml now args m)
      else case map_of checked_options arg of
        Some key \<Rightarrow>
          (case apply_option stod key value now m of
             (False, m) \<Rightarrow> (False, m)
           | (True, m) \<Rightarrow> parse_args stod yaml now args m)
      | None \<Rightarrow>
          (case map_of shm_name_options arg of
             Some assign \<Rightarrow>
               parse_args stod yaml now args
                 (m\<lparr>cm_config := (cm_config m)\<lparr>cf_shm := assign value (cf_shm (cm_config m))\<rparr>\<rparr>)
           | None \<Rightarrow> parse_args stod yaml now (value # args) m))"

text \<open>\<open>argv\<close> without the program name.\<close>

definition parse_command_line ::
    "(string \<Rightarrow> stod_result) \<Rightarrow> (string \<Rightarrow> yaml_node option) \<Rightarrow> TimestampNs \<Rightarrow> string list \<Rightarrow> ConfigManager
      \<Rightarrow> bool \<times> ConfigManager" where
  "parse_command_line stod yaml now args m = parse_args stod yaml now args m"

section \<open>Export\<close>

definition escape_char :: "char \<Rightarrow> string" where
  "escape_char ch =
     (if ch = CHR 0x5C then [CHR 0x5C, CHR 0x5C]
      else if ch = CHR 0x22 then [CHR 0x5C, CHR 0x22]
      else if ch = CHR 0x0A then [CHR 0x5C, CHR ''n'']
      else if ch = CHR 0x0D then [CHR 0x5C, CHR ''r'']
      else if ch = CHR 0x09 then [CHR 0x5C, CHR ''t'']
      else [ch])"

definition escape_yaml_string :: "string \<Rightarrow> string" where
  "escape_yaml_string value = concat (map escape_char value)"

fun show_nat :: "nat \<Rightarrow> string" where
  "show_nat n = (if n < 10 then [char_of (48 + n)] else show_nat (n div 10) @ [char_of (48 + n mod 10)])"

declare show_nat.simps [simp del]

definition show_int :: "int \<Rightarrow> string" where
  "show_int i = (if i < 0 then CHR ''-'' # show_nat (nat (- i)) else show_nat (nat i))"

text \<open>A value as it is written: quoted in the YAML export if it is a string.\<close>

datatype config_scalar = CString string | CPlain string

definition CBool :: "bool \<Rightarrow> config_scalar" where
  "CBool b = CPlain (if b then ''true'' else ''false'')"

definition CWord :: "'a::len word \<Rightarrow> config_scalar" where
  "CWord w = CPlain (show_nat (unat w))"

type_synonym config_section = "string \<times> (string \<times> config_scalar) list"

text \<open>
  The sections that \<open>write_config_yaml\<close> and \<open>write_config_log\<close> both go through, in their
  common order; the first writes the event loop's section as \<open>EventLoop\<close>, the second as
  \<open>event_loop\<close>.
\<close>

type_synonym config_entry = "string \<times> config_scalar"

definition shm_entries :: "SHMConfig \<Rightarrow> config_entry list" where
  "shm_entries s =
     [(''upstream_shm_name'', CString (upstream_shm_name s)),
      (''downstream_shm_name'', CString (downstream_shm_name s)),
      (''trades_shm_name'', CString (trades_shm_name s)),
      (''orders_shm_name'', CString (orders_shm_name s)),
      (''positions_shm_name'', CString (positions_shm_name s)),
      (''create_if_not_exist'', CBool (create_if_not_exist s))]"

definition event_loop_entries :: "EventLoopOptions \<Rightarrow> config_entry list" where
  "event_loop_entries e =
     [(''busy_polling'', CBool (busy_polling e)),
      (''poll_batch_size'', CWord (poll_batch_size e)),
      (''idle_sleep_us'', CWord (idle_sleep_us e)),
      (''stats_interval_ms'', CWord (stats_interval_ms e)),
      (''archive_terminal_orders'', CBool (archive_terminal_orders e)),
      (''terminal_archive_delay_ms'', CWord (terminal_archive_delay_ms e)),
      (''pin_cpu'', CBool (pin_cpu e)),
      (''cpu_core'', CPlain (show_int (cpu_core e)))]"

definition market_data_entries :: "MarketDataConfig \<Rightarrow> config_entry list" where
  "market_data_entries m =
     [(''enabled'', CBool (mdc_enabled m)),
      (''snapshot_shm_name'', CString (snapshot_shm_name m)),
      (''allow_order_price_fallback'', CBool (mdc_allow_order_price_fallback m))]"

definition active_strategy_entries :: "(float64 \<Rightarrow> string) \<Rightarrow> ActiveStrategyOptions \<Rightarrow> config_entry list" where
  "active_strategy_entries show_double a =
     [(''enabled'', CBool (aso_enabled a)),
      (''name'', CString (aso_name a)),
      (''signal_threshold'', CPlain (show_double (aso_signal_threshold a)))]"

definition risk_entries :: "RiskConfig \<Rightarrow> config_entry list" where
  "risk_entries r =
     [(''max_order_value'', CWord (max_order_value r)),
      (''max_order_volume'', CWord (max_order_volume r)),
      (''max_daily_turnover'', CWord (max_daily_turnover r)),
      (''max_orders_per_second'', CWord (max_orders_per_second r)),
      (''enable_price_limit_check'', CBool (enable_price_limit_check r)),
      (''enable_duplicate_check'', CBool (enable_duplicate_check r)),
      (''enable_fund_check'', CBool (enable_fund_check r)),
      (''enable_position_check'', CBool (enable_position_check r)),
      (''duplicate_window_ns'', CWord (duplicate_window_ns r))]"

definition split_entries :: "(float64 \<Rightarrow> string) \<Rightarrow> SplitOptions \<Rightarrow> config_entry list" where
  "split_entries show_double p =
     [(''strategy'', CString (split_strategy_to_string (sc_strategy p))),
      (''max_child_volume'', CWord (max_child_volume p)),
      (''min_child_volume'', CWord (min_child_volume p)),
      (''max_child_count'', CWord (max_child_count p)),
      (''interval_ms'', CWord (interval_ms p)),
      (''randomize_factor'', CPlain (show_double (randomize_factor p)))]"

definition log_entries :: "LogConfig \<Rightarrow> config_entry list" where
  "log_entries l =
     [(''log_dir'', CString (log_dir l)), (''log_level'', CString (log_level l)),
      (''async_logging'', CBool (async_logging l)),
      (''async_queue_size'', CWord (async_queue_size l))]"

definition business_log_entries :: "BusinessLogConfig \<Rightarrow> config_entry list" where
  "business_log_entries b =
     [(''enabled'', CBool (bl_enabled b)),
      (''output_dir'', CString (bl_output_dir b)),
      (''queue_capacity'', CWord (bl_queue_capacity b)),
      (''flush_interval_ms'', CWord (bl_flush_interval_ms b))]"

definition db_entries :: "DBConfig \<Rightarrow> config_entry list" where
  "db_entries d =
     [(''db_path'', CString (db_file_path d)),
      (''enable_persistence'', CBool (enable_persistence d)),
      (''sync_interval_ms'', CWord (sync_interval_ms d))]"

definition config_entries :: "(float64 \<Rightarrow> string) \<Rightarrow> string \<Rightarrow> Config \<Rightarrow> config_section list" where
  "config_entries show_double event_loop_name c =
     [(''shm'', shm_entries (cf_shm c)),
      (event_loop_name, event_loop_entries (cf_event_loop c)),
      (''market_data'', market_data_entries (cf_market_data c)),
      (''active_strategy'', active_strategy_entries show_double (cf_active_strategy c)),
      (''risk'', risk_entries (cf_risk c)),
      (''split'', split_entries show_double (cf_split c)),
      (''log'', log_entries (cf_log c)),
      (''business_log'', business_log_entries (cf_business_log c)),
      (''db'', db_entries (cf_db c))]"

definition newline :: string where
  "newline = [CHR 0x0A]"

fun yaml_scalar_text :: "config_scalar \<Rightarrow> string" where
  "yaml_scalar_text (CString s) = [CHR 0x22] @ escape_yaml_string s @ [CHR 0x22]"
| "yaml_scalar_text (CPlain s) = s"

definition yaml_section_text :: "config_section \<Rightarrow> string" where
  "yaml_section_text = (\<lambda>(name, entries). name @ '':'' @ newline
     @ concat (map (\<lambda>(key, v). ''  '' @ key @ '': '' @ yaml_scalar_text v @ newline) entries))"

fun join_sections :: "string list \<Rightarrow> string" where
  "join_sections [] = []"
| "join_sections [s] = s"
| "join_sections (s # ss) = s @ newline @ join_sections ss"

definition write_config_yaml :: "(float64 \<Rightarrow> string) \<Rightarrow> Config \<Rightarrow> string" where
  "write_config_yaml show_double c =
     ''account_id: '' @ show_nat (unat (cf_account_id c)) @ newline @ newline
     @ ''trading_day: '' @ yaml_scalar_text (CString (cf_trading_day c)) @ newline @ newline
     @ join_sections (map yaml_section_text (config_entries show_double ''EventLoop'' c))"

definition write_config_log_line :: "string \<Rightarrow> string \<Rightarrow> config_scalar \<Rightarrow> string" where
  "write_config_log_line sect key v =
     ''[config] ['' @ sect @ ''] '' @ key @ ''=''
     @ (case v of CString s \<Rightarrow> escape_yaml_string s | CPlain s \<Rightarrow> s) @ newline"

definition write_config_log :: "(float64 \<Rightarrow> string) \<Rightarrow> Config \<Rightarrow> string" where
  "write_config_log show_double c =
     write_config_log_line ''meta'' ''config_file'' (CString (cf_config_file c))
     @ write_config_log_line ''root'' ''account_id'' (CWord (cf_account_id c))
     @ write_config_log_line ''root'' ''trading_day'' (CString (cf_trading_day c))
     @ concat (map (\<lambda>(name, entries). concat (map (\<lambda>(key, v). write_config_log_line name key v) entries))
         (config_entries show_double ''event_loop'' c))"

text \<open>\<open>None\<close>: the output file could not be opened.\<close>

definition export_to_file ::
    "(float64 \<Rightarrow> string) \<Rightarrow> bool \<Rightarrow> TimestampNs \<Rightarrow> ConfigManager \<Rightarrow> string option \<times> ConfigManager" where
  "export_to_file show_double opened now m =
     (if \<not> opened then (None, report_config_error ErrorCode.InvalidConfig now m)
      else (Some (write_config_yaml show_double (cm_config m)), m))"

definition to_log_string :: "(float64 \<Rightarrow> string) \<Rightarrow> ConfigManager \<Rightarrow> string" where
  "to_log_string show_double m = write_config_log show_double (cm_config m)"

end
