(* ===== verification/Config_Facts.thy ===== *)
theory Config_Facts
  imports Config_Manager
begin

text \<open>
  What the configuration manager promises: printed numbers parse back, a configuration that a
  successful call leaves meets every requirement, a file that does not parse leaves it alone, and a file that
  was exported loads back to the configuration it was exported from.
\<close>

section \<open>Printed numbers parse back\<close>

lemma of_char_digit: "(n :: nat) < 10 \<Longrightarrow> (of_char (char_of (48 + n) :: char) :: nat) = 48 + n"
  by (simp add: of_char_of)

lemma is_digit_char: "(n :: nat) < 10 \<Longrightarrow> is_digit (char_of (48 + n))"
  by (simp add: is_digit_def of_char_digit)

lemma digit_value_char: "(n :: nat) < 10 \<Longrightarrow> digit_value (char_of (48 + n)) = n"
  by (simp add: digit_value_def of_char_digit)

lemma digits_value_snoc: "digits_value (ds @ [d]) = 10 * digits_value ds + digit_value d"
  by (simp add: digits_value_def)

lemma show_nat_digits: "list_all is_digit (show_nat n) \<and> show_nat n \<noteq> [] \<and> digits_value (show_nat n) = n"
proof (induction n rule: show_nat.induct)
  case (1 n)
  show ?case
  proof (cases "n < 10")
    case True
    then show ?thesis
      by (subst (1 2 3) show_nat.simps) (simp add: is_digit_char digit_value_char digits_value_def)
  next
    case False
    with 1 show ?thesis
      by (subst (1 2 3) show_nat.simps)
         (simp add: is_digit_char digit_value_char digits_value_snoc)
  qed
qed

lemma digit_not_space: "is_digit c \<Longrightarrow> \<not> is_space c"
  by (simp add: is_digit_def is_space_def Let_def)

lemma trim_no_space: "list_all (\<lambda>c. \<not> is_space c) s \<Longrightarrow> trim_copy s = s"
proof -
  assume a: "list_all (\<lambda>c. \<not> is_space c) s"
  have d: "dropWhile is_space t = t" if "list_all (\<lambda>c. \<not> is_space c) t" for t
    using that by (cases t) auto
  have "dropWhile is_space (rev s) = rev s" by (rule d) (use a in simp)
  with d [OF a] show ?thesis by (simp add: trim_copy_def)
qed

lemma digits_no_space: "list_all is_digit s \<Longrightarrow> list_all (\<lambda>c. \<not> is_space c) s"
  by (auto simp: list_all_iff digit_not_space)

lemma trim_digits: "list_all is_digit s \<Longrightarrow> trim_copy s = s"
  by (simp add: trim_no_space digits_no_space)

lemma trim_idem [simp]: "trim_copy (trim_copy s) = trim_copy s"
proof -
  define t where "t = dropWhile is_space s"
  have hd: "u = [] \<or> \<not> is_space (hd u)" if "u = dropWhile is_space v" for u v
    using that hd_dropWhile [of is_space v] by auto
  define r where "r = dropWhile is_space (rev t)"
  have "dropWhile is_space (rev r) = rev r"
  proof (cases "rev r")
    case (Cons c cs)
    have "\<exists>ys. rev t = ys @ r" unfolding r_def by (metis takeWhile_dropWhile_id)
    then obtain ys where "t = rev r @ rev ys" by (metis rev_append rev_rev_ident)
    with Cons have "t = c # cs @ rev ys" by simp
    with hd [OF t_def] Cons show ?thesis by simp
  qed simp
  moreover have "dropWhile is_space r = r"
    using hd [OF r_def] by (cases r) auto
  ultimately show ?thesis by (simp add: trim_copy_def t_def [symmetric] r_def [symmetric])
qed

lemma digit_not_plus: "is_digit c \<Longrightarrow> c \<noteq> CHR ''+'' \<and> c \<noteq> CHR ''-''"
  by (auto simp: is_digit_def)

lemma from_chars_digits: "list_all is_digit s \<Longrightarrow> s \<noteq> [] \<Longrightarrow> from_chars_nat s = Some (digits_value s, [])"
proof -
  assume "list_all is_digit s" "s \<noteq> []"
  then have t: "takeWhile is_digit s = s" and d: "dropWhile is_digit s = []"
    by (simp_all add: takeWhile_eq_all_conv dropWhile_eq_Nil_conv list_all_iff)
  show ?thesis unfolding from_chars_nat_def Let_def t d using \<open>s \<noteq> []\<close> by simp
qed

lemma strip_plus_digits: "list_all is_digit s \<Longrightarrow> strip_plus s = s"
  using digit_not_plus by (cases s) (auto simp: strip_plus_def)

lemma parse_unsigned_show:
  "int n \<le> hi \<Longrightarrow> parse_integral from_chars_unsigned 0 hi err (show_nat n) = Inr (int n)"
  using show_nat_digits [of n]
  by (simp add: parse_integral_def trim_digits strip_plus_digits from_chars_unsigned_def
      from_chars_digits Let_def)

lemma parse_u32_show [simp]: "parse_u32 (show_nat (unat (w :: u32))) = Inr w"
proof -
  have "uint w < 2 ^ LENGTH(32)" by (rule unsigned_less)
  then have "int (unat w) \<le> 2 ^ 32 - 1" by simp
  then show ?thesis by (simp add: parse_u32_def map_parsed_def parse_unsigned_show)
qed

lemma parse_u64_show [simp]: "parse_u64 (show_nat (unat (w :: u64))) = Inr w"
proof -
  have "uint w < 2 ^ LENGTH(64)" by (rule unsigned_less)
  then have "int (unat w) \<le> 2 ^ 64 - 1" by simp
  then show ?thesis by (simp add: parse_u64_def map_parsed_def parse_unsigned_show)
qed

lemma parse_i32_show [simp]:
  assumes "- (2 ^ 31) \<le> i" "i < 2 ^ 31"
  shows "parse_i32 (show_int i) = Inr i"
proof (cases "i < 0")
  case True
  let ?s = "show_nat (nat (- i))"
  have d: "list_all is_digit ?s" "?s \<noteq> []" "digits_value ?s = nat (- i)"
    using show_nat_digits by blast+
  have "\<not> is_space (CHR ''-'')" by (simp add: is_space_def)
  then have "trim_copy (CHR ''-'' # ?s) = CHR ''-'' # ?s"
    using d(1) by (intro trim_no_space) (simp add: digits_no_space)
  with True d assms show ?thesis
    by (simp add: parse_i32_def show_int_def parse_integral_def strip_plus_def from_chars_int_def
        from_chars_digits Let_def)
next
  case False
  let ?s = "show_nat (nat i)"
  have d: "list_all is_digit ?s" "?s \<noteq> []" "digits_value ?s = nat i"
    using show_nat_digits by blast+
  then obtain c cs where s: "?s = c # cs" "c \<noteq> CHR ''-''"
    by (cases ?s) (auto dest: digit_not_plus)
  have "from_chars_int ?s = Some (i, [])"
    using False d from_chars_digits [OF d(1,2)] s by (simp add: from_chars_int_def)
  with False d assms show ?thesis
    by (simp add: parse_i32_def show_int_def parse_integral_def trim_digits strip_plus_digits Let_def)
qed

lemma parse_bool_show [simp]: "parse_bool (if b then ''true'' else ''false'') = Inr b"
  by (cases b) (simp_all add: parse_bool_def trim_copy_def is_space_def to_lower_def Let_def)

lemma parse_split_show [simp]: "parse_split_strategy (split_strategy_to_string s) = Inr s"
  by (cases s) (simp_all add: parse_split_strategy_def trim_copy_def is_space_def to_lower_def Let_def)

section \<open>Keys of a section\<close>

lemma dotted_eq:
  assumes "CHR ''.'' \<notin> set n" "CHR ''.'' \<notin> set n'"
  shows "n @ CHR ''.'' # k = n' @ CHR ''.'' # k' \<longleftrightarrow> n = n' \<and> k = k'"
proof
  assume e: "n @ CHR ''.'' # k = n' @ CHR ''.'' # k'"
  have t: "takeWhile (\<lambda>c. c \<noteq> CHR ''.'') (m @ CHR ''.'' # l) = m" if "CHR ''.'' \<notin> set m" for m l
    using that by (subst takeWhile_append2) auto
  have "n = n'" using arg_cong [OF e, of "takeWhile (\<lambda>c. c \<noteq> CHR ''.'')"]
    by (simp only: t [OF assms(1)] t [OF assms(2)])
  with e show "n = n' \<and> k = k'" by simp
qed simp

lemma in_section_lookup:
  assumes "CHR ''.'' \<notin> set name" "CHR ''.'' \<notin> set n"
  shows "map_of (in_section name keys) (n @ CHR ''.'' # k) = (if n = name then map_of keys k else None)"
  by (induction keys) (auto simp: in_section_def dotted_eq [OF assms] dotted_eq [OF assms(2,1)])

lemma sections_lookup:
  assumes "CHR ''.'' \<notin> set n" "\<forall>name \<in> fst ` set L. CHR ''.'' \<notin> set name" "distinct (map fst L)"
  shows "map_of (concat (map (\<lambda>(name, keys). in_section name keys) L)) (n @ CHR ''.'' # k)
    = Option.bind (map_of L n) (\<lambda>keys. map_of keys k)"
  using assms(2,3)
proof (induction L)
  case (Cons p L)
  obtain name keys where p: "p = (name, keys)" by fastforce
  have "map_of L n = None" if "n = name"
    using Cons.prems(2) that p by (simp add: map_of_eq_None_iff)
  with Cons p assms(1) show ?case
    by (auto simp: map_add_def in_section_lookup split: option.split)
qed simp

lemma config_keys_dotted:
  assumes "CHR ''.'' \<notin> set n"
  shows "map_of (config_keys stod) (n @ CHR ''.'' # k)
    = Option.bind (map_of (section_setters stod) n) (\<lambda>keys. map_of keys k)"
proof -
  have "CHR ''.'' \<in> set (n @ CHR ''.'' # k)" by simp
  moreover have "CHR ''.'' \<notin> set ''account_id''" "CHR ''.'' \<notin> set ''trading_day''" by simp_all
  ultimately have ne: "n @ CHR ''.'' # k \<noteq> ''account_id''" "n @ CHR ''.'' # k \<noteq> ''trading_day''"
    by metis+
  have "\<forall>name \<in> fst ` set (section_setters stod). CHR ''.'' \<notin> set name"
    "distinct (map fst (section_setters stod))"
    by (simp_all add: section_setters_def)
  from sections_lookup [OF assms this] ne show ?thesis
    by (simp add: config_keys_def)
qed

section \<open>The exported file loads back\<close>

fun scalar_value :: "config_scalar \<Rightarrow> string" where
  "scalar_value (CString s) = s"
| "scalar_value (CPlain s) = s"

text \<open>The YAML tree of the exported text: a map of the two root scalars and the sections.\<close>

definition entry_node :: "config_entry \<Rightarrow> yaml_node \<times> yaml_node" where
  "entry_node = (\<lambda>(key, v). (YScalar key, YScalar (scalar_value v)))"

definition section_node :: "config_section \<Rightarrow> yaml_node \<times> yaml_node" where
  "section_node = (\<lambda>(name, entries). (YScalar name, YMap (map entry_node entries)))"

definition config_tree :: "(float64 \<Rightarrow> string) \<Rightarrow> Config \<Rightarrow> yaml_node" where
  "config_tree show_double c = YMap
     (entry_node (''account_id'', CWord (cf_account_id c))
      # entry_node (''trading_day'', CString (cf_trading_day c))
      # map section_node (config_entries show_double ''EventLoop'' c))"

text \<open>
  What the round trip needs: strings without surrounding white space, doubles whose printed form
  reads back exactly, and a core number that fits an \<open>int\<close>.
\<close>

definition trimmed :: "string \<Rightarrow> bool" where
  "trimmed s = (trim_copy s = s)"

definition double_prints :: "(string \<Rightarrow> stod_result) \<Rightarrow> (float64 \<Rightarrow> string) \<Rightarrow> float64 \<Rightarrow> bool" where
  "double_prints stod show_double x \<longleftrightarrow> trimmed (show_double x) \<and> show_double x \<noteq> []
     \<and> stod (show_double x) = StodOk x (length (show_double x))"

definition exportable :: "(string \<Rightarrow> stod_result) \<Rightarrow> (float64 \<Rightarrow> string) \<Rightarrow> Config \<Rightarrow> bool" where
  "exportable stod show_double c \<longleftrightarrow>
     list_all trimmed [upstream_shm_name (cf_shm c), downstream_shm_name (cf_shm c),
       trades_shm_name (cf_shm c), orders_shm_name (cf_shm c), positions_shm_name (cf_shm c),
       snapshot_shm_name (cf_market_data c), aso_name (cf_active_strategy c), log_dir (cf_log c),
       log_level (cf_log c), bl_output_dir (cf_business_log c), db_file_path (cf_db c)]
     \<and> double_prints stod show_double (aso_signal_threshold (cf_active_strategy c))
     \<and> double_prints stod show_double (randomize_factor (cf_split c))
     \<and> - (2 ^ 31) \<le> cpu_core (cf_event_loop c) \<and> cpu_core (cf_event_loop c) < 2 ^ 31"

lemma apply_value_section:
  assumes "CHR ''.'' \<notin> set n"
  shows "apply_value stod cfg (n @ CHR ''.'' # k) raw =
    (case Option.bind (map_of (section_setters stod) n) (\<lambda>keys. map_of keys k) of
       None \<Rightarrow> Inl UnknownKey | Some setter \<Rightarrow> setter (trim_copy raw) cfg)"
  by (simp add: apply_value_def config_keys_dotted [OF assms])

text \<open>One section: the setters of its keys, applied in the order of the entries.\<close>

fun set_entries :: "(string \<times> key_setter) list \<Rightarrow> config_entry list \<Rightarrow> Config \<Rightarrow> Config parsed" where
  "set_entries keys [] cfg = Inr cfg"
| "set_entries keys ((key, v) # entries) cfg =
     (case map_of keys key of
        None \<Rightarrow> Inl UnknownKey
      | Some setter \<Rightarrow>
          (case setter (trim_copy (scalar_value v)) cfg of
             Inl error \<Rightarrow> Inl error
           | Inr cfg \<Rightarrow> set_entries keys entries cfg))"

lemma apply_entries_set:
  assumes "CHR ''.'' \<notin> set n" "map_of (section_setters stod) n = Some keys"
    "set_entries keys entries cfg = Inr cfg'"
  shows "apply_entries stod n (map entry_node entries) cfg = Inr cfg'"
  using assms(3)
proof (induction entries arbitrary: cfg)
  case (Cons e entries)
  obtain k v where e: "e = (k, v)" by fastforce
  from Cons.prems obtain setter cfg1 where s: "map_of keys k = Some setter"
      "setter (trim_copy (scalar_value v)) cfg = Inr cfg1" "set_entries keys entries cfg1 = Inr cfg'"
    by (auto simp: e split: option.splits sum.splits)
  then have "apply_scalar stod cfg (n @ CHR ''.'' # k) (YScalar (scalar_value v)) = Inr cfg1"
    by (simp add: apply_scalar_def read_scalar_string_def apply_value_section [OF assms(1)] assms(2))
  with Cons.IH s(3) e show ?case by (simp add: entry_node_def)
qed simp

lemma check_allowed_entries:
  "fst ` set entries \<subseteq> set allowed \<Longrightarrow> check_allowed_keys (map entry_node entries) allowed = Inr ()"
  by (induction entries) (auto simp: entry_node_def)

lemma parse_section_entries:
  assumes "yaml_find n root = Some (YMap (map entry_node entries))"
    "fst ` set entries \<subseteq> set allowed" "CHR ''.'' \<notin> set n"
    "map_of (section_setters stod) n = Some keys" "set_entries keys entries cfg = Inr cfg'"
  shows "parse_section stod root n allowed cfg = Inr cfg'"
  using check_allowed_entries [OF assms(2)] apply_entries_set [OF assms(3-5)] assms(1)
  by (simp add: parse_section_def ensure_mapping_def)

lemmas setter_simps = set_string_def set_parsed_def map_parsed_def CBool_def CWord_def

lemma trim_show [simp]:
  "trim_copy (show_nat n) = show_nat n" "trim_copy (if b then ''true'' else ''false'') = (if b then ''true'' else ''false'')"
  "trim_copy (split_strategy_to_string s) = split_strategy_to_string s"
proof -
  show "trim_copy (show_nat n) = show_nat n" using show_nat_digits trim_digits by blast
  show "trim_copy (if b then ''true'' else ''false'') = (if b then ''true'' else ''false'')"
    by (simp add: trim_copy_def is_space_def)
  show "trim_copy (split_strategy_to_string s) = split_strategy_to_string s"
    by (cases s) (simp_all add: trim_copy_def is_space_def)
qed

lemma parse_u32_show_trim [simp]: "parse_integral f lo hi e (trim_copy s) = parse_integral f lo hi e s"
  by (simp add: parse_integral_def)

lemma parse_i32_trim [simp]: "parse_i32 (trim_copy s) = parse_i32 s"
  by (simp add: parse_i32_def)

lemma parse_double_show: "double_prints stod sd x \<Longrightarrow> parse_double stod (trim_copy (sd x)) = Inr x"
  by (simp add: parse_double_def double_prints_def trimmed_def)

lemma set_shm:
  assumes "list_all trimmed [upstream_shm_name s, downstream_shm_name s, trades_shm_name s,
    orders_shm_name s, positions_shm_name s]"
  shows "set_entries shm_keys (shm_entries s) cfg = Inr (cfg\<lparr>cf_shm := s\<rparr>)"
  using assms by (cases s) (simp add: shm_keys_def shm_entries_def setter_simps trimmed_def)

lemma set_event_loop:
  assumes "- (2 ^ 31) \<le> cpu_core e" "cpu_core e < 2 ^ 31"
  shows "set_entries event_loop_keys (event_loop_entries e) cfg = Inr (cfg\<lparr>cf_event_loop := e\<rparr>)"
  using assms by (cases e) (simp add: event_loop_keys_def event_loop_entries_def setter_simps)

lemma set_market_data:
  assumes "trimmed (snapshot_shm_name m)"
  shows "set_entries market_data_keys (market_data_entries m) cfg = Inr (cfg\<lparr>cf_market_data := m\<rparr>)"
  using assms by (cases m) (simp add: market_data_keys_def market_data_entries_def setter_simps trimmed_def)

lemma set_active_strategy:
  assumes "trimmed (aso_name a)" "double_prints stod sd (aso_signal_threshold a)"
  shows "set_entries (active_strategy_keys stod) (active_strategy_entries sd a) cfg
    = Inr (cfg\<lparr>cf_active_strategy := a\<rparr>)"
  using assms by (cases a)
    (simp add: active_strategy_keys_def active_strategy_entries_def setter_simps trimmed_def parse_double_show)

lemma set_risk: "set_entries risk_keys (risk_entries r) cfg = Inr (cfg\<lparr>cf_risk := r\<rparr>)"
  by (cases r) (simp add: risk_keys_def risk_entries_def setter_simps)

lemma set_split:
  assumes "double_prints stod sd (randomize_factor p)"
  shows "set_entries (split_keys stod) (split_entries sd p) cfg = Inr (cfg\<lparr>cf_split := p\<rparr>)"
  using assms by (cases p) (simp add: split_keys_def split_entries_def setter_simps parse_double_show)

lemma set_log:
  assumes "trimmed (log_dir l)" "trimmed (log_level l)"
  shows "set_entries log_keys (log_entries l) cfg = Inr (cfg\<lparr>cf_log := l\<rparr>)"
  using assms by (cases l) (simp add: log_keys_def log_entries_def setter_simps trimmed_def)

lemma set_business_log:
  assumes "trimmed (bl_output_dir b)"
  shows "set_entries business_log_keys (business_log_entries b) cfg = Inr (cfg\<lparr>cf_business_log := b\<rparr>)"
  using assms by (cases b) (simp add: business_log_keys_def business_log_entries_def setter_simps trimmed_def)

lemma set_db:
  assumes "trimmed (db_file_path d)"
  shows "set_entries db_keys (db_entries d) cfg = Inr (cfg\<lparr>cf_db := d\<rparr>)"
  using assms by (cases d) (simp add: db_keys_def db_entries_def setter_simps trimmed_def)

lemma trim_trading_day: "is_valid_trading_day_value d \<Longrightarrow> trim_copy d = d"
  by (auto simp: is_valid_trading_day_value_def trim_digits split: if_splits)

lemma yaml_find_sections:
  "yaml_find n (map section_node sections) = map_option (\<lambda>entries. YMap (map entry_node entries)) (map_of sections n)"
  by (induction sections) (auto simp: section_node_def)

text \<open>The sections one after the other; \<open>done n\<close> is the configuration after the section \<open>n\<close>.\<close>

lemma parse_sections_step:
  "parse_section stod root name allowed cfg = Inr cfg' \<Longrightarrow>
   parse_sections stod root ((name, allowed) # rest) cfg = parse_sections stod root rest cfg'"
  by simp

lemma parse_section_absent: "yaml_find name root = None \<Longrightarrow> parse_section stod root name allowed cfg = Inr cfg"
  by (simp add: parse_section_def)

lemma parse_root_export:
  assumes "exportable stod sd c" "is_valid_trading_day_value (cf_trading_day c)"
  shows "parse_root stod (config_tree sd c) cfg = Inr (c\<lparr>cf_config_file := cf_config_file cfg\<rparr>)"
proof -
  define root where "root = entry_node (''account_id'', CWord (cf_account_id c))
      # entry_node (''trading_day'', CString (cf_trading_day c))
      # map section_node (config_entries sd ''EventLoop'' c)"
  define c1 where "c1 = cfg\<lparr>cf_account_id := cf_account_id c\<rparr>"
  define c2 where "c2 = c1\<lparr>cf_trading_day := cf_trading_day c\<rparr>"
  have ex: "trimmed (upstream_shm_name (cf_shm c))" "trimmed (downstream_shm_name (cf_shm c))"
    "trimmed (trades_shm_name (cf_shm c))" "trimmed (orders_shm_name (cf_shm c))"
    "trimmed (positions_shm_name (cf_shm c))" "trimmed (snapshot_shm_name (cf_market_data c))"
    "trimmed (aso_name (cf_active_strategy c))" "trimmed (log_dir (cf_log c))"
    "trimmed (log_level (cf_log c))" "trimmed (bl_output_dir (cf_business_log c))"
    "trimmed (db_file_path (cf_db c))"
    "double_prints stod sd (aso_signal_threshold (cf_active_strategy c))"
    "double_prints stod sd (randomize_factor (cf_split c))"
    "- (2 ^ 31) \<le> cpu_core (cf_event_loop c)" "cpu_core (cf_event_loop c) < 2 ^ 31"
    using assms(1) by (simp_all add: exportable_def)
  have find: "yaml_find n root = map_option (\<lambda>entries. YMap (map entry_node entries))
      (map_of (config_entries sd ''EventLoop'' c) n)"
    if "n \<noteq> ''account_id''" "n \<noteq> ''trading_day''" for n
    using that yaml_find_sections by (simp add: root_def entry_node_def)
  have acc: "parse_root_scalar stod root ''account_id'' cfg = Inr c1"
    by (simp add: parse_root_scalar_def root_def entry_node_def apply_scalar_def read_scalar_string_def
        apply_value_def config_keys_def setter_simps c1_def)
  have day: "parse_root_scalar stod root ''trading_day'' c1 = Inr c2"
    using assms(2) by (simp add: parse_root_scalar_def root_def entry_node_def apply_scalar_def
        read_scalar_string_def apply_value_def config_keys_def set_trading_day_def trim_trading_day c2_def)
  have keys: "check_allowed_keys root root_keys = Inr ()"
    by (simp add: root_def entry_node_def section_node_def config_entries_def root_keys_def)
  have none: "parse_section stod root ''event_loop'' A cfg = Inr cfg" for A cfg
    by (rule parse_section_absent) (simp add: find config_entries_def)
  have shm: "parse_section stod root ''shm'' A cfg = Inr (cfg\<lparr>cf_shm := cf_shm c\<rparr>)"
    if "fst ` set (shm_entries (cf_shm c)) \<subseteq> set A" for A cfg
    by (rule parse_section_entries [OF _ that _ _ set_shm])
       (use ex in \<open>simp_all add: find config_entries_def section_setters_def\<close>)
  have event_loop: "parse_section stod root ''EventLoop'' A cfg = Inr (cfg\<lparr>cf_event_loop := cf_event_loop c\<rparr>)"
    if "fst ` set (event_loop_entries (cf_event_loop c)) \<subseteq> set A" for A cfg
    by (rule parse_section_entries [OF _ that _ _ set_event_loop])
       (use ex in \<open>simp_all add: find config_entries_def section_setters_def\<close>)
  have market_data: "parse_section stod root ''market_data'' A cfg = Inr (cfg\<lparr>cf_market_data := cf_market_data c\<rparr>)"
    if "fst ` set (market_data_entries (cf_market_data c)) \<subseteq> set A" for A cfg
    by (rule parse_section_entries [OF _ that _ _ set_market_data])
       (use ex in \<open>simp_all add: find config_entries_def section_setters_def\<close>)
  have active_strategy: "parse_section stod root ''active_strategy'' A cfg = Inr (cfg\<lparr>cf_active_strategy := cf_active_strategy c\<rparr>)"
    if "fst ` set (active_strategy_entries sd (cf_active_strategy c)) \<subseteq> set A" for A cfg
    by (rule parse_section_entries [OF _ that _ _ set_active_strategy])
       (use ex in \<open>simp_all add: find config_entries_def section_setters_def\<close>)
  have risk: "parse_section stod root ''risk'' A cfg = Inr (cfg\<lparr>cf_risk := cf_risk c\<rparr>)"
    if "fst ` set (risk_entries (cf_risk c)) \<subseteq> set A" for A cfg
    by (rule parse_section_entries [OF _ that _ _ set_risk])
       (use ex in \<open>simp_all add: find config_entries_def section_setters_def\<close>)
  have split: "parse_section stod root ''split'' A cfg = Inr (cfg\<lparr>cf_split := cf_split c\<rparr>)"
    if "fst ` set (split_entries sd (cf_split c)) \<subseteq> set A" for A cfg
    by (rule parse_section_entries [OF _ that _ _ set_split])
       (use ex in \<open>simp_all add: find config_entries_def section_setters_def\<close>)
  have log: "parse_section stod root ''log'' A cfg = Inr (cfg\<lparr>cf_log := cf_log c\<rparr>)"
    if "fst ` set (log_entries (cf_log c)) \<subseteq> set A" for A cfg
    by (rule parse_section_entries [OF _ that _ _ set_log])
       (use ex in \<open>simp_all add: find config_entries_def section_setters_def\<close>)
  have business_log: "parse_section stod root ''business_log'' A cfg = Inr (cfg\<lparr>cf_business_log := cf_business_log c\<rparr>)"
    if "fst ` set (business_log_entries (cf_business_log c)) \<subseteq> set A" for A cfg
    by (rule parse_section_entries [OF _ that _ _ set_business_log])
       (use ex in \<open>simp_all add: find config_entries_def section_setters_def\<close>)
  have db: "parse_section stod root ''db'' A cfg = Inr (cfg\<lparr>cf_db := cf_db c\<rparr>)"
    if "fst ` set (db_entries (cf_db c)) \<subseteq> set A" for A cfg
    by (rule parse_section_entries [OF _ that _ _ set_db])
       (use ex in \<open>simp_all add: find config_entries_def section_setters_def\<close>)
  have "parse_sections stod root config_sections c2 = Inr (c\<lparr>cf_config_file := cf_config_file cfg\<rparr>)"
    unfolding config_sections_def event_loop_allowed_def
    by (simp add: none shm event_loop market_data active_strategy risk split log business_log db
        shm_entries_def event_loop_entries_def market_data_entries_def active_strategy_entries_def
        risk_entries_def split_entries_def log_entries_def business_log_entries_def db_entries_def
        c2_def c1_def)
  with keys acc day show ?thesis
    by (simp add: parse_root_def config_tree_def root_def [symmetric])
qed

section \<open>Accepted number texts\<close>

lemma trim_split: "\<exists>a b. s = a @ trim_copy s @ b \<and> list_all is_space a \<and> list_all is_space b"
proof -
  define t where "t = dropWhile is_space s"
  have "s = takeWhile is_space s @ t" by (simp add: t_def)
  moreover have "t = trim_copy s @ rev (takeWhile is_space (rev t))"
    by (metis t_def trim_copy_def rev_append rev_rev_ident takeWhile_dropWhile_id)
  moreover have "list_all is_space (takeWhile is_space s)"
    "list_all is_space (rev (takeWhile is_space (rev t)))"
    by (auto simp: list_all_iff dest: set_takeWhileD)
  ultimately show ?thesis by (metis append.assoc)
qed

lemma dropWhile_spaces: "list_all is_space a \<Longrightarrow> dropWhile is_space (a @ s) = dropWhile is_space s"
  by (simp add: dropWhile_append list_all_iff)

lemma trim_surrounded:
  assumes "list_all is_space a" "list_all is_space b" "t \<noteq> []" "\<not> is_space (hd t)" "\<not> is_space (last t)"
  shows "trim_copy (a @ t @ b) = t"
proof -
  have "dropWhile is_space (a @ t @ b) = t @ b"
    using assms(1,3,4) by (cases t) (simp_all add: dropWhile_spaces)
  moreover have "dropWhile is_space (rev b @ rev t) = rev t"
    using assms(2,3,5) by (cases t rule: rev_cases) (simp_all add: dropWhile_spaces)
  ultimately show ?thesis by (simp add: trim_copy_def)
qed

definition number_text :: "string \<Rightarrow> string \<Rightarrow> bool" where
  "number_text s ds \<longleftrightarrow> (\<exists>a p b. s = a @ p @ ds @ b \<and> list_all is_space a \<and> list_all is_space b
     \<and> p \<in> {[], ''+''} \<and> ds \<noteq> [] \<and> list_all is_digit ds)"

lemma number_text_trim:
  "number_text s ds \<longleftrightarrow> ds \<noteq> [] \<and> list_all is_digit ds \<and> trim_copy s \<in> {ds, ''+'' @ ds}"
proof
  assume "number_text s ds"
  then obtain a p b where d: "s = a @ p @ ds @ b" "list_all is_space a" "list_all is_space b"
      "p \<in> {[], ''+''}" "ds \<noteq> []" "list_all is_digit ds"
    by (auto simp: number_text_def)
  then have "\<not> is_space (hd (p @ ds))" "\<not> is_space (last (p @ ds))"
    using digit_not_space by (auto simp: hd_append is_space_def list_all_iff)
  then have "trim_copy (a @ (p @ ds) @ b) = p @ ds"
    using d by (intro trim_surrounded) auto
  with d show "ds \<noteq> [] \<and> list_all is_digit ds \<and> trim_copy s \<in> {ds, ''+'' @ ds}" by auto
next
  assume r: "ds \<noteq> [] \<and> list_all is_digit ds \<and> trim_copy s \<in> {ds, ''+'' @ ds}"
  obtain a b where ab: "s = a @ trim_copy s @ b" "list_all is_space a" "list_all is_space b"
    using trim_split by blast
  show "number_text s ds"
  proof (cases "trim_copy s = ds")
    case True
    with ab r have "s = a @ [] @ ds @ b" by simp
    with ab(2,3) r show ?thesis unfolding number_text_def by blast
  next
    case False
    with ab r have "s = a @ ''+'' @ ds @ b" by simp
    with ab(2,3) r show ?thesis unfolding number_text_def by blast
  qed
qed

lemma from_chars_complete:
  "from_chars_nat s = Some (n, []) \<longleftrightarrow> s \<noteq> [] \<and> list_all is_digit s \<and> n = digits_value s"
proof
  assume a: "from_chars_nat s = Some (n, [])"
  then have "dropWhile is_digit s = []" "takeWhile is_digit s \<noteq> []" "n = digits_value (takeWhile is_digit s)"
    by (auto simp: from_chars_nat_def Let_def split: if_splits)
  then show "s \<noteq> [] \<and> list_all is_digit s \<and> n = digits_value s"
    by (metis append_Nil2 dropWhile_eq_Nil_conv list_all_iff takeWhile.simps(1) takeWhile_dropWhile_id)
qed (simp add: from_chars_digits)

lemma plus_digits: "list_all is_digit ds \<Longrightarrow> ds \<noteq> [] \<Longrightarrow> v \<in> {ds, ''+'' @ ds} \<longleftrightarrow> v \<noteq> [] \<and> strip_plus v = ds"
proof (cases v)
  case (Cons c rest)
  assume d: "list_all is_digit ds" "ds \<noteq> []"
  show ?thesis
  proof (cases "c = CHR ''+''")
    case True
    have "v \<noteq> ds" using d(1) Cons True by (auto simp: is_digit_def)
    with True Cons show ?thesis by (auto simp: strip_plus_def)
  qed (use Cons in \<open>auto simp: strip_plus_def\<close>)
qed simp

lemma parse_integral_unsigned:
  "parse_integral from_chars_unsigned 0 hi err s = Inr v \<longleftrightarrow>
   (\<exists>ds. number_text s ds \<and> int (digits_value ds) \<le> hi \<and> v = int (digits_value ds))"
proof -
  have "parse_integral from_chars_unsigned 0 hi err s = Inr v \<longleftrightarrow>
      trim_copy s \<noteq> [] \<and> strip_plus (trim_copy s) \<noteq> [] \<and>
      (\<exists>n. from_chars_nat (strip_plus (trim_copy s)) = Some (n, []) \<and> int n \<le> hi \<and> v = int n)"
    by (auto simp: parse_integral_def from_chars_unsigned_def Let_def split: option.splits prod.splits if_splits)
  also have "\<dots> \<longleftrightarrow> (\<exists>ds. trim_copy s \<noteq> [] \<and> strip_plus (trim_copy s) = ds \<and> ds \<noteq> [] \<and> list_all is_digit ds
      \<and> int (digits_value ds) \<le> hi \<and> v = int (digits_value ds))"
    by (auto simp: from_chars_complete)
  also have "\<dots> \<longleftrightarrow> (\<exists>ds. number_text s ds \<and> int (digits_value ds) \<le> hi \<and> v = int (digits_value ds))"
    unfolding number_text_trim using plus_digits by (intro ex_cong1) blast
  finally show ?thesis .
qed

section \<open>Success and failure\<close>

lemma validate_result:
  "validate now m = (ok, m') \<Longrightarrow> ok = validate_config (cm_config m') \<and> cm_config m' = cm_config m"
  by (auto simp: validate_def report_config_error_def split: if_splits)

lemma latest_config_error:
  "es_domain (g_latest_error (cm_errors (report_config_error code now m))) = D_config"
  "cm_config (report_config_error code now m) = cm_config m"
  "cm_path (report_config_error code now m) = cm_path m"
  by (simp_all add: report_config_error_def record_error_def make_error_status_def request_shutdown_def Let_def)

lemma parse_args_valid: "parse_args stod yaml now args m = (True, m') \<Longrightarrow> validate_config (cm_config m')"
proof (induction stod yaml now args m rule: parse_args.induct)
  case (1 stod yaml now m)
  then show ?case by (auto dest: validate_result)
next
  case (2 stod yaml now arg m)
  then show ?case by (auto dest: validate_result split: if_splits)
next
  case 3
  then show ?case by (auto split: if_splits prod.splits bool.splits option.splits)
qed

section \<open>Properties\<close>

text \<open>What a service can be run with, requirement by requirement.\<close>

definition runnable_config :: "Config \<Rightarrow> bool" where
  "runnable_config c \<longleftrightarrow>
     cf_account_id c \<noteq> 0
   \<and> length (cf_trading_day c) = 8 \<and> (\<forall>ch \<in> set (cf_trading_day c). is_digit ch)
   \<and> [] \<notin> {upstream_shm_name (cf_shm c), downstream_shm_name (cf_shm c), trades_shm_name (cf_shm c),
            orders_shm_name (cf_shm c), positions_shm_name (cf_shm c)}
   \<and> (mdc_enabled (cf_market_data c) \<longrightarrow> snapshot_shm_name (cf_market_data c) \<noteq> [])
   \<and> (aso_enabled (cf_active_strategy c) \<longrightarrow> mdc_enabled (cf_market_data c))
   \<and> (sc_strategy (cf_split c) \<noteq> SplitNone \<longrightarrow>
        (mdc_enabled (cf_market_data c) \<or> mdc_allow_order_price_fallback (cf_market_data c))
        \<and> 0 < unat (max_child_count (cf_split c)))
   \<and> 0 < unat (poll_batch_size (cf_event_loop c))
   \<and> (bl_enabled (cf_business_log c) \<longrightarrow> bl_output_dir (cf_business_log c) \<noteq> []
        \<and> 2 \<le> unat (bl_queue_capacity (cf_business_log c)) \<and> unat (bl_queue_capacity (cf_business_log c)) < 2 ^ 32 - 1
        \<and> 0 < unat (bl_flush_interval_ms (cf_business_log c)))"

lemma if_False_then: "(if P then False else Q) \<longleftrightarrow> \<not> P \<and> Q"
  by simp

lemma validate_runnable: "validate_config c \<longleftrightarrow> runnable_config c"
  unfolding validate_config_def runnable_config_def if_False_then is_valid_trading_day_value_def
  by (auto simp: list_all_iff word_less_nat_alt word_le_nat_alt unat_gt_0)

text \<open>C23: Only configurations the service can run with get through, and those of files do.
  \<open>runnable_config\<close> lists the requirements: an account, a trading day of eight digits, a name for each
  of the five segments and for the market data if they are used, market data for the active
  strategy, a price source and at least one child for order splitting, batches of at least one
  order, and for the business log a directory, a queue of 2 up to \<open>2^32 - 2\<close> entries and a flush
  interval.  Loading a file that reads and parses takes over what it says and succeeds exactly if
  that meets them all.  When loading or reloading fails, an error of the configuration is
  recorded, and either configuration and path are as before or the configuration left behind does not
  meet the requirements.  A command line that is accepted leaves a configuration that meets them;
  one that is rejected may leave the options before the offending one applied (see
  \<open>rejected_command_line_keeps_options\<close>).\<close>

theorem config_success_is_valid:
  "(load_from_file stod yaml now path m = (ok, m') \<longrightarrow>
      (if ok then runnable_config (cm_config m') \<and> cm_path m' = path \<and> cm_errors m' = cm_errors m
       else (cm_config m' = cm_config m \<and> cm_path m' = cm_path m \<or> \<not> runnable_config (cm_config m'))
         \<and> es_domain (g_latest_error (cm_errors m')) = D_config)
      \<and> (\<forall>root c. yaml path = Some root \<and> parse_root stod root ((cm_config m)\<lparr>cf_config_file := path\<rparr>) = Inr c
           \<longrightarrow> cm_config m' = c \<and> ok = runnable_config c))
   \<and> (reload stod yaml now m = (ok, m') \<longrightarrow>
      (if ok then runnable_config (cm_config m')
       else (cm_config m' = cm_config m \<and> cm_path m' = cm_path m \<or> \<not> runnable_config (cm_config m'))
         \<and> es_domain (g_latest_error (cm_errors m')) = D_config))
   \<and> (parse_command_line stod yaml now args m = (True, m') \<longrightarrow> runnable_config (cm_config m'))"
proof -
  have load: "(if ok then runnable_config (cm_config m') \<and> cm_path m' = path0 \<and> cm_errors m' = cm_errors m
       else (cm_config m' = cm_config m \<and> cm_path m' = cm_path m \<or> \<not> runnable_config (cm_config m'))
         \<and> es_domain (g_latest_error (cm_errors m')) = D_config)
      \<and> (\<forall>root c. yaml path0 = Some root \<and> parse_root stod root ((cm_config m)\<lparr>cf_config_file := path0\<rparr>) = Inr c
           \<longrightarrow> cm_config m' = c \<and> ok = runnable_config c)"
    if "load_from_file stod yaml now path0 m = (ok, m')" for path0
    using that
    by (auto simp: load_from_file_def validate_def validate_runnable latest_config_error Let_def
        split: option.splits sum.splits if_splits)
  have "reload stod yaml now m = (ok, m') \<Longrightarrow>
      if ok then runnable_config (cm_config m')
       else (cm_config m' = cm_config m \<and> cm_path m' = cm_path m \<or> \<not> runnable_config (cm_config m'))
         \<and> es_domain (g_latest_error (cm_errors m')) = D_config"
    using load [of "cm_path m"] by (auto simp: reload_def latest_config_error split: if_splits)
  moreover have "parse_command_line stod yaml now args m = (True, m') \<Longrightarrow> runnable_config (cm_config m')"
    using parse_args_valid [of stod yaml now args m m'] by (simp add: parse_command_line_def validate_runnable)
  ultimately show ?thesis using load [of path] by blast
qed

theorem config_success_is_valid_witness:
  "runnable_config (cm_config (snd (parse_command_line (\<lambda>_. StodInvalid) (\<lambda>_. None) 0
     [''--account-id'', '' +42 '', ''--verbose'', ''--poll-batch'', ''16'']
     (config_manager_new error_state_init))))
   \<and> cf_account_id (cm_config (snd (parse_command_line (\<lambda>_. StodInvalid) (\<lambda>_. None) 0
     [''--account-id'', '' +42 '', ''--verbose'', ''--poll-batch'', ''16'']
     (config_manager_new error_state_init)))) = 42"
proof -
  let ?run = "parse_command_line (\<lambda>_. StodInvalid) (\<lambda>_. None) 0
     [''--account-id'', '' +42 '', ''--verbose'', ''--poll-batch'', ''16'']
     (config_manager_new error_state_init)"
  have "fst ?run \<and> cf_account_id (cm_config (snd ?run)) = 42" by code_simp
  then have "?run = (True, snd ?run)" "cf_account_id (cm_config (snd ?run)) = 42"
    by (simp_all add: prod_eq_iff)
  with config_success_is_valid [of "\<lambda>_. StodInvalid" "\<lambda>_. None" 0 "[]"
      "config_manager_new error_state_init" False "snd ?run"
      "[''--account-id'', '' +42 '', ''--verbose'', ''--poll-batch'', ''16'']"]
  show ?thesis by blast
qed

lemma rejected_command_line_keeps_options:
  "let r = parse_command_line (\<lambda>_. StodInvalid) (\<lambda>_. None) 0 [''--account-id'', ''5'', ''--trading-day'']
             (config_manager_new error_state_init)
   in \<not> fst r \<and> cf_account_id (cm_config (snd r)) = 5"
  by code_simp

text \<open>C24: The exported file loads back.  If the YAML reader returns for a file the tree of what
  \<open>write_config_yaml\<close> wrote for the valid configuration \<open>c\<close>, and the strings and doubles of \<open>c\<close>
  survive trimming and printing, then loading the file succeeds from any previous state and
  leaves exactly \<open>c\<close>, with the file's path.\<close>

theorem config_export_roundtrip:
  assumes "exportable stod show_double c" and "validate_config c"
    and "yaml path = Some (config_tree show_double c)"
  shows "load_from_file stod yaml now path m =
    (True, m\<lparr>cm_config := c\<lparr>cf_config_file := path\<rparr>, cm_path := path\<rparr>)"
proof -
  have day: "is_valid_trading_day_value (cf_trading_day c)"
    by (rule ccontr) (use assms(2) in \<open>simp add: validate_config_def cong: if_cong\<close>)
  have "validate_config (c\<lparr>cf_config_file := path\<rparr>) = validate_config c"
    unfolding validate_config_def by simp
  then have "validate_config (c\<lparr>cf_config_file := path\<rparr>)" using assms(2) by simp
  with parse_root_export [OF assms(1) day, of "(cm_config m)\<lparr>cf_config_file := path\<rparr>"] assms(3)
  show ?thesis by (simp add: load_from_file_def validate_def Let_def)
qed

definition print_zero :: "float64 \<Rightarrow> string" where
  "print_zero x = ''0''"

definition read_zero :: "string \<Rightarrow> stod_result" where
  "read_zero s = (if s = ''0'' then StodOk 0 1 else StodInvalid)"

theorem config_export_roundtrip_witness:
  "load_from_file read_zero [''x.yaml'' \<mapsto> config_tree print_zero
       (Config_default\<lparr>cf_account_id := 7\<rparr>)] 5 ''x.yaml'' (config_manager_new error_state_init)
   = (True, (config_manager_new error_state_init)\<lparr>cm_config := Config_default\<lparr>cf_account_id := 7,
        cf_config_file := ''x.yaml''\<rparr>, cm_path := ''x.yaml''\<rparr>)"
proof -
  have "exportable read_zero print_zero (Config_default\<lparr>cf_account_id := 7\<rparr>)"
    "validate_config (Config_default\<lparr>cf_account_id := 7\<rparr>)"
    by code_simp+
  from config_export_roundtrip [OF this, of "[''x.yaml'' \<mapsto> config_tree print_zero
       (Config_default\<lparr>cf_account_id := 7\<rparr>)]" "''x.yaml''" 5 "config_manager_new error_state_init"]
  show ?thesis by simp
qed

text \<open>Which texts are 64-bit numbers.  \<open>parse_u64\<close> accepts exactly decimal digits with an
  optional plus sign between optional white space whose value is below \<open>2^64\<close>, and returns that
  value; printing a number and parsing it gives the number.\<close>

theorem parse_u64_accepts:
  "(parse_u64 s = Inr w \<longleftrightarrow> (\<exists>ds. number_text s ds \<and> digits_value ds = unat w))
   \<and> parse_u64 (show_nat (unat w)) = Inr w"
proof -
  have "parse_u64 s = Inr w \<longleftrightarrow>
      (\<exists>v. parse_integral from_chars_unsigned 0 (2 ^ 64 - 1) InvalidU64 s = Inr v \<and> of_int v = w)"
    by (auto simp: parse_u64_def map_parsed_def split: sum.splits)
  also have "\<dots> \<longleftrightarrow> (\<exists>ds. number_text s ds \<and> int (digits_value ds) \<le> 2 ^ 64 - 1
      \<and> (of_int (int (digits_value ds)) :: u64) = w)"
    unfolding parse_integral_unsigned by blast
  also have "\<dots> \<longleftrightarrow> (\<exists>ds. number_text s ds \<and> digits_value ds = unat w)"
  proof -
    have "int n \<le> 2 ^ 64 - 1 \<and> (of_int (int n) :: u64) = w \<longleftrightarrow> n = unat w" for n
    proof
      assume a: "int n \<le> 2 ^ 64 - 1 \<and> (of_int (int n) :: u64) = w"
      then have "int n < int (2 ^ 64)" by simp
      then have "n < 2 ^ 64" by (simp only: of_nat_less_iff)
      then have "unat (of_nat n :: u64) = n" by (simp add: unat_of_nat)
      with a show "n = unat w" by auto
    next
      assume "n = unat w"
      moreover have "uint w < 2 ^ LENGTH(64)" by (rule unsigned_less)
      ultimately show "int n \<le> 2 ^ 64 - 1 \<and> (of_int (int n) :: u64) = w" by auto
    qed
    then show ?thesis by metis
  qed
  finally show ?thesis by simp
qed

section \<open>A failed validation does not undo the load\<close>

text \<open>
  \<open>load_from_file\<close> stores the configuration before it validates it: after the failed load of a
  file with account 0 the manager, whose configuration was valid, serves account 0.
\<close>

lemma failed_load_replaces_config:
  "let m = config_manager_new error_state_init;
       yaml = [''bad.yaml'' \<mapsto> YMap [(YScalar ''account_id'', YScalar ''0'')]];
       (ok, m') = load_from_file (\<lambda>_. StodInvalid) yaml 1 ''bad.yaml'' m
   in validate_config (cm_config m) \<and> \<not> ok \<and> cf_account_id (cm_config m') = 0"
  by code_simp

end
