(* ===== verification/Shm_Manager.thy ===== *)
theory Shm_Manager
  imports Orders_Shm Spsc_Queue Positions Error_Model
begin

text \<open>
  \<^verbatim>\<open>src/shm/shm_manager.cpp\<close> and the part of \<^verbatim>\<open>BaseCore/src/shm\<close> it calls: creating, opening,
  checking and removing the shared-memory segments.

  POSIX shared memory is a table of names over a store of objects: a name gives the number of an
  object, a mapping keeps the number, so an object lives on after its name is removed.  An object
  has a size and a content; a new one is zero-filled.  The error numbers the system calls may fail
  with are arguments (\<open>0\<close>: the call succeeds); \<open>ft_cleanup\<close> is that of the unlinks that clean up
  after a failed creation, whose result the code ignores.  Segments of different kinds have different names;
  there is one table per kind.  A call runs as one step; where two processes interleave, the steps
  are \<open>open_impl\<close> and the initialisation of the header.
\<close>

section \<open>The segments\<close>

record SHMHeader =
  sh_magic :: u32
  sh_version :: u32
  sh_create_time :: TimestampNs
  sh_last_update :: TimestampNs
  sh_next_order_id :: u32

text \<open>The upstream, downstream and trades segments: a header and a queue.\<close>

record 'q queue_segment =
  qs_header :: SHMHeader
  qs_queue :: "'q spsc_queue"

record orders_segment =
  og_magic :: u32
  og_version :: u32
  og_header_size :: u32
  og_total_size :: u32
  og_init_state :: u32
  og_create_time :: TimestampNs
  og_trading_day :: string
  og_pool :: orders_shm_layout

definition kShmHeaderMagic :: u32 where "kShmHeaderMagic = 0x41435354"
definition kShmHeaderVersion :: u32 where "kShmHeaderVersion = 4"
definition kOrdersMagic :: u32 where "kOrdersMagic = 0x4143534F"
definition kOrdersVersion :: u32 where "kOrdersVersion = 2"
definition kOrdersHeaderSize :: u32 where "kOrdersHeaderSize = 128"
definition kPositionsMagic :: u32 where "kPositionsMagic = 0x41435354"
definition kPositionsVersion :: u32 where "kPositionsVersion = 4"
definition kPositionsHeaderSize :: u32 where "kPositionsHeaderSize = 64"
definition kDailyOrderPoolCapacity :: u32 where "kDailyOrderPoolCapacity = 1048576"

text \<open>What zero-filled memory reads as.\<close>

definition queue_segment_zero :: "'q \<Rightarrow> 'q queue_segment" where
  "queue_segment_zero elem = \<lparr>qs_header = \<lparr>sh_magic = 0, sh_version = 0, sh_create_time = 0,
     sh_last_update = 0, sh_next_order_id = 0\<rparr>,
     qs_queue = \<lparr>q_head = 0, q_tail = 0, q_buffer = (\<lambda>_. elem)\<rparr>\<rparr>"

definition orders_segment_zero :: orders_segment where
  "orders_segment_zero = \<lparr>og_magic = 0, og_version = 0, og_header_size = 0, og_total_size = 0,
     og_init_state = 0, og_create_time = 0, og_trading_day = [],
     og_pool = \<lparr>os_capacity = 0, os_next_index = 0, os_full_reject_count = 0, os_last_update = 0,
       os_slots = (\<lambda>_. OrderSlot_default\<lparr>slot_request := OrderRequest_default\<lparr>execution_algo := Default\<rparr>\<rparr>)\<rparr>\<rparr>"

section \<open>POSIX shared memory\<close>

record 'c shm_object =
  so_size :: nat
  so_content :: 'c

record 'c shm_os =
  px_names :: "string \<Rightarrow> nat option"
  px_objects :: "nat \<Rightarrow> 'c shm_object"
  px_fresh :: nat

record os_faults =
  ft_create :: int
  ft_chmod :: int
  ft_truncate :: int
  ft_open :: int
  ft_fstat :: int
  ft_map :: int
  ft_unlink :: int
  ft_cleanup :: int

definition no_faults :: os_faults where
  "no_faults = \<lparr>ft_create = 0, ft_chmod = 0, ft_truncate = 0, ft_open = 0, ft_fstat = 0, ft_map = 0,
     ft_unlink = 0, ft_cleanup = 0\<rparr>"

definition ENOENT :: int where "ENOENT = 2"
definition EEXIST :: int where "EEXIST = 17"
definition EOVERFLOW :: int where "EOVERFLOW = 75"

record 'c shm_env =
  se_os :: "'c shm_os"
  se_errors :: error_state

definition on_os :: "('c shm_os \<Rightarrow> 'c shm_os) \<Rightarrow> 'c shm_env \<Rightarrow> 'c shm_env" where
  "on_os f env = env\<lparr>se_os := f (se_os env)\<rparr>"

definition px_unlink :: "string \<Rightarrow> 'c shm_os \<Rightarrow> 'c shm_os" where
  "px_unlink name os = os\<lparr>px_names := (px_names os)(name := None)\<rparr>"

text \<open>An unlink that cleans up, whose result the caller ignores: when it fails, the name stays.\<close>

definition px_try_unlink :: "os_faults \<Rightarrow> string \<Rightarrow> 'c shm_os \<Rightarrow> 'c shm_os" where
  "px_try_unlink fl name os = (if ft_cleanup fl \<noteq> 0 then os else px_unlink name os)"

definition px_update :: "nat \<Rightarrow> ('c \<Rightarrow> 'c) \<Rightarrow> 'c shm_os \<Rightarrow> 'c shm_os" where
  "px_update i f os = os\<lparr>px_objects := (px_objects os)(i := (px_objects os i)\<lparr>so_content :=
     f (so_content (px_objects os i))\<rparr>)\<rparr>"

definition px_read :: "nat \<Rightarrow> 'c shm_os \<Rightarrow> 'c" where
  "px_read i os = so_content (px_objects os i)"

text \<open>
  \<open>create_only\<close>: the result and \<open>errno\<close>.  A failed \<open>fchmod\<close> or \<open>ftruncate\<close> is followed by an unlink
  whose result is ignored; if that fails as well, the name keeps the object made so far, and
  \<open>errno\<close> is that of the unlink.
\<close>

definition cleanup_errno :: "os_faults \<Rightarrow> int \<Rightarrow> int" where
  "cleanup_errno fl err = (if ft_cleanup fl \<noteq> 0 then ft_cleanup fl else err)"

definition create_region :: "'c \<Rightarrow> string \<Rightarrow> nat \<Rightarrow> os_faults \<Rightarrow> 'c shm_os \<Rightarrow> (bool \<times> int) \<times> 'c shm_os" where
  "create_region zero name bytes fl os =
     (if px_names os name \<noteq> None then ((False, EEXIST), os)
      else if ft_create fl \<noteq> 0 then ((False, ft_create fl), os)
      else let os = os\<lparr>px_names := (px_names os)(name \<mapsto> px_fresh os),
                       px_objects := (px_objects os)(px_fresh os := \<lparr>so_size = 0, so_content = zero\<rparr>),
                       px_fresh := px_fresh os + 1\<rparr>
           in if ft_chmod fl \<noteq> 0 then ((False, cleanup_errno fl (ft_chmod fl)), px_try_unlink fl name os)
              else if ft_truncate fl \<noteq> 0
              then ((False, cleanup_errno fl (ft_truncate fl)), px_try_unlink fl name os)
              else ((True, 0), os\<lparr>px_objects := (px_objects os)(px_fresh os - 1 :=
                      (px_objects os (px_fresh os - 1))\<lparr>so_size := bytes\<rparr>)\<rparr>))"

section \<open>The manager\<close>

text \<open>\<open>writer_\<close>: the name and the object it has mapped.\<close>

record SHMManager =
  sm_name :: string
  sm_mapped :: "nat option"
  sm_last_open_is_new :: bool

definition SHMManager_new :: SHMManager where
  "SHMManager_new = \<lparr>sm_name = [], sm_mapped = None, sm_last_open_is_new = False\<rparr>"

datatype shm_mode = ModeCreate | ModeOpen | ModeOpenOrCreate

definition report_shm_error ::
    "ErrorCode \<Rightarrow> string \<Rightarrow> string \<Rightarrow> int \<Rightarrow> TimestampNs \<Rightarrow> 'c shm_env \<Rightarrow> 'c shm_env" where
  "report_shm_error code name detail err now env =
     (let status = make_error_status D_shm code ''shm_manager'' [] 0 detail err now;
          status = (if name \<noteq> [] then status\<lparr>es_message := fs_assign 192 (detail @ '' ['' @ name @ '']'')\<rparr>
                    else status)
      in env\<lparr>se_errors := record_error status (se_errors env)\<rparr>)"

definition classify_open_error :: "int \<Rightarrow> ErrorCode" where
  "classify_open_error err = (if err = EOVERFLOW then ShmResizeFailed else ShmOpenFailed)"

definition sm_is_open :: "SHMManager \<Rightarrow> bool" where
  "sm_is_open m = (sm_mapped m \<noteq> None)"

definition writer_close :: "SHMManager \<Rightarrow> SHMManager" where
  "writer_close m = m\<lparr>sm_name := [], sm_mapped := None\<rparr>"

definition sm_close :: "SHMManager \<Rightarrow> SHMManager" where
  "sm_close m = (writer_close m)\<lparr>sm_last_open_is_new := False\<rparr>"

text \<open>\<open>ShmGenericWriter::open\<close>: the result and \<open>errno\<close>.\<close>

definition writer_open :: "string \<Rightarrow> nat \<Rightarrow> os_faults \<Rightarrow> 'c shm_os \<Rightarrow> SHMManager \<Rightarrow> (bool \<times> int) \<times> SHMManager" where
  "writer_open name bytes fl os m =
     (let m = (if sm_is_open m then writer_close m else m)
      in case px_names os name of
           None \<Rightarrow> ((False, ENOENT), m)
         | Some i \<Rightarrow>
             if ft_open fl \<noteq> 0 then ((False, ft_open fl), m)
             else if ft_fstat fl \<noteq> 0 then ((False, ft_fstat fl), m)
             else if so_size (px_objects os i) \<noteq> bytes then ((False, EOVERFLOW), m)
             else if ft_map fl \<noteq> 0 then ((False, ft_map fl), m)
             else ((True, 0), m\<lparr>sm_name := name, sm_mapped := Some i\<rparr>))"

definition open_existing_region ::
    "string \<Rightarrow> nat \<Rightarrow> string \<Rightarrow> os_faults \<Rightarrow> TimestampNs \<Rightarrow> SHMManager \<times> 'c shm_env \<Rightarrow> bool \<times> SHMManager \<times> 'c shm_env" where
  "open_existing_region name bytes detail fl now = (\<lambda>(m, env).
     case writer_open name bytes fl (se_os env) m of
       ((True, _), m) \<Rightarrow> (True, m, env)
     | ((False, err), m) \<Rightarrow> (False, m, report_shm_error (classify_open_error err) name detail err now env))"

definition cleanup_new_region :: "os_faults \<Rightarrow> string \<Rightarrow> 'c shm_env \<Rightarrow> 'c shm_env" where
  "cleanup_new_region fl name = on_os (px_try_unlink fl name)"

definition create_and_open ::
    "'c \<Rightarrow> string \<Rightarrow> nat \<Rightarrow> string \<Rightarrow> os_faults \<Rightarrow> TimestampNs \<Rightarrow> SHMManager \<times> 'c shm_env
      \<Rightarrow> nat option \<times> SHMManager \<times> 'c shm_env" where
  "create_and_open zero name bytes detail fl now = (\<lambda>(m, env).
     case open_existing_region name bytes detail fl now (m, env) of
       (False, m, env) \<Rightarrow> (None, m, cleanup_new_region fl name env)
     | (True, m, env) \<Rightarrow> (sm_mapped m, m\<lparr>sm_last_open_is_new := True\<rparr>, env))"

definition open_impl ::
    "'c \<Rightarrow> string \<Rightarrow> nat \<Rightarrow> shm_mode \<Rightarrow> bool \<Rightarrow> os_faults \<Rightarrow> TimestampNs \<Rightarrow> SHMManager \<times> 'c shm_env
      \<Rightarrow> nat option \<times> SHMManager \<times> 'c shm_env" where
  "open_impl zero name bytes mode file_backend fl now = (\<lambda>(m, env).
     let m = (if sm_is_open m then sm_close m else m)
     in if file_backend
        then (None, m, report_shm_error ShmOpenFailed name
               ''SHM_USE_FILE=1 is unsupported for account-service data shm'' 0 now env)
        else let m = m\<lparr>sm_last_open_is_new := False\<rparr>
        in case mode of
             ModeCreate \<Rightarrow>
               (case create_region zero name bytes fl (se_os env) of
                  ((False, err), os) \<Rightarrow>
                    (None, m, report_shm_error ShmOpenFailed name ''create shm failed'' err now (env\<lparr>se_os := os\<rparr>))
                | ((True, _), os) \<Rightarrow>
                    create_and_open zero name bytes ''open created shm failed'' fl now (m, env\<lparr>se_os := os\<rparr>))
           | ModeOpen \<Rightarrow>
               (case open_existing_region name bytes ''open existing shm failed'' fl now (m, env) of
                  (False, m, env) \<Rightarrow> (None, m, env)
                | (True, m, env) \<Rightarrow> (sm_mapped m, m\<lparr>sm_last_open_is_new := False\<rparr>, env))
           | ModeOpenOrCreate \<Rightarrow>
               (case create_region zero name bytes fl (se_os env) of
                  ((True, _), os) \<Rightarrow>
                    create_and_open zero name bytes ''open newly created shm failed'' fl now (m, env\<lparr>se_os := os\<rparr>)
                | ((False, create_err), os) \<Rightarrow>
                    let env = env\<lparr>se_os := os\<rparr>
                    in case writer_open name bytes fl (se_os env) m of
                         ((True, _), m) \<Rightarrow> (sm_mapped m, m\<lparr>sm_last_open_is_new := False\<rparr>, env)
                       | ((False, err), m) \<Rightarrow>
                           (None, m,
                            if create_err \<noteq> EEXIST \<and> create_err \<noteq> 0
                            then report_shm_error ShmOpenFailed name ''create shm for open_or_create failed''
                                   create_err now env
                            else report_shm_error (classify_open_error err) name
                                   ''open existing shm after create_only failed'' err now env)))"


section \<open>Opening a segment\<close>

definition init_header :: "TimestampNs \<Rightarrow> SHMHeader \<Rightarrow> SHMHeader" where
  "init_header now h = h\<lparr>sh_magic := kShmHeaderMagic, sh_version := kShmHeaderVersion,
     sh_create_time := now, sh_last_update := now, sh_next_order_id := 1\<rparr>"

text \<open>The first complaint about an existing segment, if there is one.\<close>

definition header_complaint :: "SHMHeader \<Rightarrow> string option" where
  "header_complaint h =
     (if sh_magic h \<noteq> kShmHeaderMagic then Some ''invalid shm magic''
      else if sh_version h \<noteq> kShmHeaderVersion then Some ''invalid shm version''
      else None)"

text \<open>
  The common frame of the five operations: map the object, then initialise it if this call has
  created it, and check it otherwise; a segment that fails the check is unmapped.
\<close>

definition open_segment ::
    "'c \<Rightarrow> nat \<Rightarrow> ('c \<Rightarrow> 'c) \<Rightarrow> ('c \<Rightarrow> string option) \<Rightarrow> string \<Rightarrow> shm_mode \<Rightarrow> bool \<Rightarrow> os_faults \<Rightarrow> TimestampNs
      \<Rightarrow> SHMManager \<times> 'c shm_env \<Rightarrow> nat option \<times> SHMManager \<times> 'c shm_env" where
  "open_segment zero bytes initialise complaint name mode file_backend fl now = (\<lambda>(m, env).
     case open_impl zero name bytes mode file_backend fl now (m, env) of
       (None, m, env) \<Rightarrow> (None, m, env)
     | (Some i, m, env) \<Rightarrow>
         if sm_last_open_is_new m then (Some i, m, on_os (px_update i initialise) env)
         else case complaint (px_read i (se_os env)) of
                None \<Rightarrow> (Some i, m, env)
              | Some detail \<Rightarrow>
                  (None, sm_close m, report_shm_error ShmHeaderInvalid name detail 0 now env))"

definition open_queue_segment ::
    "'q \<Rightarrow> nat \<Rightarrow> string \<Rightarrow> shm_mode \<Rightarrow> bool \<Rightarrow> os_faults \<Rightarrow> TimestampNs
      \<Rightarrow> SHMManager \<times> 'q queue_segment shm_env \<Rightarrow> nat option \<times> SHMManager \<times> 'q queue_segment shm_env" where
  "open_queue_segment elem bytes name mode file_backend fl now =
     open_segment (queue_segment_zero elem) bytes (\<lambda>s. s\<lparr>qs_header := init_header now (qs_header s)\<rparr>)
       (\<lambda>s. header_complaint (qs_header s)) name mode file_backend fl now"

text \<open>The sizes are those of the layouts, which the compiler fixes.\<close>

definition open_upstream ::
    "nat \<Rightarrow> string \<Rightarrow> shm_mode \<Rightarrow> bool \<Rightarrow> os_faults \<Rightarrow> TimestampNs \<Rightarrow> SHMManager \<times> OrderIndex queue_segment shm_env
      \<Rightarrow> nat option \<times> SHMManager \<times> OrderIndex queue_segment shm_env" where
  "open_upstream bytes = open_queue_segment 0 bytes"

definition open_downstream ::
    "nat \<Rightarrow> string \<Rightarrow> shm_mode \<Rightarrow> bool \<Rightarrow> os_faults \<Rightarrow> TimestampNs \<Rightarrow> SHMManager \<times> OrderIndex queue_segment shm_env
      \<Rightarrow> nat option \<times> SHMManager \<times> OrderIndex queue_segment shm_env" where
  "open_downstream bytes = open_queue_segment 0 bytes"

definition open_trades ::
    "nat \<Rightarrow> string \<Rightarrow> shm_mode \<Rightarrow> bool \<Rightarrow> os_faults \<Rightarrow> TimestampNs \<Rightarrow> SHMManager \<times> TradeResponse queue_segment shm_env
      \<Rightarrow> nat option \<times> SHMManager \<times> TradeResponse queue_segment shm_env" where
  "open_trades bytes = open_queue_segment TradeResponse_zero bytes"

definition expected_trading_day :: "string \<Rightarrow> string" where
  "expected_trading_day name =
     (case extract_trading_day_from_name name of Some day \<Rightarrow> day | None \<Rightarrow> ''00000000'')"

definition init_orders_segment :: "nat \<Rightarrow> string \<Rightarrow> TimestampNs \<Rightarrow> orders_segment \<Rightarrow> orders_segment" where
  "init_orders_segment bytes name now s = s\<lparr>og_magic := kOrdersMagic, og_version := kOrdersVersion,
     og_header_size := kOrdersHeaderSize, og_total_size := of_nat bytes,
     og_create_time := now, og_trading_day := expected_trading_day name, og_init_state := 1,
     og_pool := (og_pool s)\<lparr>os_capacity := kDailyOrderPoolCapacity, os_last_update := now,
       os_next_index := 0, os_full_reject_count := 0\<rparr>\<rparr>"

definition orders_complaint :: "nat \<Rightarrow> string \<Rightarrow> orders_segment \<Rightarrow> string option" where
  "orders_complaint bytes name s =
     (if og_magic s \<noteq> kOrdersMagic then Some ''invalid orders shm magic''
      else if og_version s \<noteq> kOrdersVersion then Some ''invalid orders shm version''
      else if og_header_size s \<noteq> kOrdersHeaderSize then Some ''invalid orders shm header size''
      else if og_total_size s \<noteq> of_nat bytes then Some ''invalid orders shm total size''
      else if os_capacity (og_pool s) \<noteq> kDailyOrderPoolCapacity then Some ''invalid orders shm capacity''
      else if og_init_state s \<noteq> 1 then Some ''orders shm not initialized''
      else if take 8 (og_trading_day s) \<noteq> take 8 (expected_trading_day name) then Some ''orders shm trading day mismatch''
      else None)"

definition open_orders ::
    "nat \<Rightarrow> string \<Rightarrow> shm_mode \<Rightarrow> bool \<Rightarrow> os_faults \<Rightarrow> TimestampNs \<Rightarrow> SHMManager \<times> orders_segment shm_env
      \<Rightarrow> nat option \<times> SHMManager \<times> orders_segment shm_env" where
  "open_orders bytes name mode file_backend fl now =
     open_segment orders_segment_zero bytes (init_orders_segment bytes name now) (orders_complaint bytes name)
       name mode file_backend fl now"

definition positions_segment_zero :: positions_shm_layout where
  "positions_segment_zero = \<lparr>ps_header = \<lparr>ph_magic = 0, ph_version = 0, ph_header_size = 0, ph_total_size = 0,
     ph_capacity = 0, ph_init_state = 0, ph_create_time = 0, ph_last_update = 0, ph_id = 0\<rparr>,
     ps_position_count = 0, ps_positions = (\<lambda>_. position_zero)\<rparr>"

definition init_positions_segment :: "nat \<Rightarrow> TimestampNs \<Rightarrow> positions_shm_layout \<Rightarrow> positions_shm_layout" where
  "init_positions_segment bytes now s = s\<lparr>ps_header := (ps_header s)\<lparr>ph_magic := kPositionsMagic,
     ph_version := kPositionsVersion, ph_header_size := kPositionsHeaderSize, ph_total_size := of_nat bytes,
     ph_capacity := of_nat kMaxPositions, ph_init_state := 0, ph_create_time := now, ph_last_update := now,
     ph_id := 1\<rparr>, ps_position_count := 0\<rparr>"

definition positions_complaint :: "nat \<Rightarrow> positions_shm_layout \<Rightarrow> string option" where
  "positions_complaint bytes s =
     (let h = ps_header s
      in if ph_magic h \<noteq> kPositionsMagic then Some ''invalid positions shm magic''
         else if ph_version h \<noteq> kPositionsVersion then Some ''invalid positions shm version''
         else if ph_header_size h \<noteq> kPositionsHeaderSize then Some ''invalid positions header size''
         else if ph_total_size h \<noteq> of_nat bytes then Some ''invalid positions total size''
         else if ph_capacity h \<noteq> of_nat kMaxPositions then Some ''invalid positions capacity''
         else None)"

definition open_positions ::
    "nat \<Rightarrow> string \<Rightarrow> shm_mode \<Rightarrow> bool \<Rightarrow> os_faults \<Rightarrow> TimestampNs \<Rightarrow> SHMManager \<times> positions_shm_layout shm_env
      \<Rightarrow> nat option \<times> SHMManager \<times> positions_shm_layout shm_env" where
  "open_positions bytes name mode file_backend fl now =
     open_segment positions_segment_zero bytes (init_positions_segment bytes now) (positions_complaint bytes)
       name mode file_backend fl now"

definition shm_unlink_segment :: "bool \<Rightarrow> string \<Rightarrow> os_faults \<Rightarrow> TimestampNs \<Rightarrow> 'c shm_env \<Rightarrow> bool \<times> 'c shm_env" where
  "shm_unlink_segment file_backend name fl now env =
     (if file_backend
      then (False, report_shm_error ShmOpenFailed name
              ''SHM_USE_FILE=1 is unsupported for account-service data shm'' 0 now env)
      else if px_names (se_os env) name = None
      then (False, report_shm_error ShmOpenFailed name ''shm_unlink failed'' ENOENT now env)
      else if ft_unlink fl \<noteq> 0
      then (False, report_shm_error ShmOpenFailed name ''shm_unlink failed'' (ft_unlink fl) now env)
      else (True, on_os (px_unlink name) env))"


section \<open>What an open does\<close>

definition px_ok :: "'c shm_os \<Rightarrow> bool" where
  "px_ok os \<longleftrightarrow> (\<forall>name i. px_names os name = Some i \<longrightarrow> i < px_fresh os)"

lemma px_ok_new: "px_ok \<lparr>px_names = Map.empty, px_objects = obj, px_fresh = n\<rparr>"
  by (simp add: px_ok_def)

text \<open>The names and the objects they stand for are the same.\<close>

definition same_names :: "'c shm_os \<Rightarrow> 'c shm_os \<Rightarrow> bool" where
  "same_names os os' \<longleftrightarrow> px_names os' = px_names os \<and> (\<forall>i < px_fresh os. px_objects os' i = px_objects os i)"

lemma same_names_refl [simp]: "same_names os os"
  by (simp add: same_names_def)

lemma report_shm_os [simp]: "se_os (report_shm_error code name detail err now env) = se_os env"
  by (simp add: report_shm_error_def Let_def)

lemma on_os_sel [simp]: "se_os (on_os f env) = f (se_os env)" "se_errors (on_os f env) = se_errors env"
  by (simp_all add: on_os_def)

lemma sm_close_sel [simp]: "sm_mapped (sm_close m) = None" "sm_mapped (writer_close m) = None"
  by (simp_all add: sm_close_def writer_close_def)

lemma writer_open_fails: "writer_open name bytes fl os m = ((False, err), m') \<Longrightarrow> sm_mapped m' = None"
  by (auto simp: writer_open_def sm_is_open_def Let_def split: option.splits if_splits)

lemma writer_open_opens:
  "writer_open name bytes fl os m = ((True, err), m') \<Longrightarrow>
   \<exists>i. sm_mapped m' = Some i \<and> px_names os name = Some i \<and> so_size (px_objects os i) = bytes"
  by (auto simp: writer_open_def Let_def split: option.splits if_splits)

text \<open>
  What a failed creation may leave when the cleanup fails too: the free name on a new object that
  was never initialised.
\<close>

definition left_behind :: "'c \<Rightarrow> string \<Rightarrow> 'c shm_os \<Rightarrow> 'c shm_os \<Rightarrow> bool" where
  "left_behind zero name os os' \<longleftrightarrow> px_names os' = (px_names os)(name \<mapsto> px_fresh os)
     \<and> px_read (px_fresh os) os' = zero \<and> (\<forall>i < px_fresh os. px_objects os' i = px_objects os i)"

definition creation_tried :: "string \<Rightarrow> os_faults \<Rightarrow> 'c shm_os \<Rightarrow> bool" where
  "creation_tried name fl os \<longleftrightarrow> px_names os name = None \<and> ft_create fl = 0"

lemma create_region_fails:
  "create_region zero name bytes fl os = ((False, err), os') \<Longrightarrow>
   if creation_tried name fl os \<and> ft_cleanup fl \<noteq> 0
   then left_behind zero name os os' \<and> px_names os' name = Some (px_fresh os)
     \<and> so_size (px_objects os' (px_fresh os)) = 0
   else same_names os os'"
  by (auto simp: create_region_def same_names_def px_unlink_def px_try_unlink_def left_behind_def
      creation_tried_def px_read_def Let_def split: if_splits)

lemma create_region_creates:
  "create_region zero name bytes fl os = ((True, err), os') \<Longrightarrow>
   px_names os name = None \<and> os' = os\<lparr>px_names := (px_names os)(name \<mapsto> px_fresh os),
     px_objects := (px_objects os)(px_fresh os := \<lparr>so_size = bytes, so_content = zero\<rparr>),
     px_fresh := px_fresh os + 1\<rparr>"
  by (auto simp: create_region_def Let_def split: if_splits)

text \<open>
  What \<open>open_impl\<close> leaves: nothing mapped and the names as they were, or the object of the name,
  which is either the one that was there or a new one, filled with zeros.
\<close>

lemma cleanup_new_region_outcome:
  assumes "create_region zero name bytes fl os = ((True, err), os')"
  shows "creation_tried name fl os \<and> (if ft_cleanup fl \<noteq> 0
    then left_behind zero name os (px_try_unlink fl name os') else same_names os (px_try_unlink fl name os'))"
proof -
  have "ft_create fl = 0" using assms by (auto simp: create_region_def Let_def split: if_splits)
  with create_region_creates [OF assms] show ?thesis
    by (auto simp: same_names_def left_behind_def creation_tried_def px_try_unlink_def px_unlink_def px_read_def)
qed

lemma cleanup_region_sel [simp]: "se_os (cleanup_new_region fl name env) = px_try_unlink fl name (se_os env)"
  by (simp add: cleanup_new_region_def)

lemma create_and_open_none:
  assumes "create_region zero name bytes fl (se_os env) = ((True, err), os')"
    and "create_and_open zero name bytes detail fl now (m, env\<lparr>se_os := os'\<rparr>) = (None, m', env')"
  shows "sm_mapped m' = None \<and> se_os env' = px_try_unlink fl name os'"
  using assms(2)
  by (auto simp: create_and_open_def open_existing_region_def split: prod.splits bool.splits
      dest: writer_open_fails writer_open_opens)

text \<open>A created object of size 0 cannot be opened as one of a layout's size.\<close>

lemma writer_open_small:
  assumes "writer_open name bytes fl os m = ((True, err), m')" "px_names os name = Some i"
    "so_size (px_objects os i) = 0"
  shows "bytes = 0"
  using writer_open_opens [OF assms(1)] assms(2,3) by simp

lemma open_impl_none:
  assumes "open_impl zero name bytes mode file_backend fl now (m, env) = (None, m', env')"
  shows "sm_mapped m' = None \<and>
    (if creation_tried name fl (se_os env) \<and> mode \<noteq> ModeOpen \<and> \<not> file_backend \<and> ft_cleanup fl \<noteq> 0
     then left_behind zero name (se_os env) (se_os env') else same_names (se_os env) (se_os env'))"
proof -
  let ?m = "if sm_is_open m then sm_close m else m"
  have closed: "sm_mapped ?m = None" by (simp add: sm_is_open_def)
  show ?thesis
  proof (cases "file_backend \<or> mode = ModeOpen")
    case True
    then show ?thesis using assms closed
      by (auto simp: open_impl_def open_existing_region_def Let_def
          split: prod.splits bool.splits if_splits dest: writer_open_fails writer_open_opens)
  next
    case False
    then have mode: "\<not> file_backend" "mode = ModeCreate \<or> mode = ModeOpenOrCreate" by (cases mode; simp)+
    obtain ok err os where c: "create_region zero name bytes fl (se_os env) = ((ok, err), os)"
      by (metis prod.collapse)
    show ?thesis
    proof (cases ok)
      case True
      have "sm_mapped m' = None \<and> se_os env' = px_try_unlink fl name os"
        using assms mode True c by (auto simp: open_impl_def Let_def dest: create_and_open_none [rotated])
      with cleanup_new_region_outcome [of zero name bytes fl "se_os env" err os] c True mode
      show ?thesis by auto
    next
      case False
      have "sm_mapped m' = None \<and> se_os env' = os"
        using assms mode c False closed
        by (auto simp: open_impl_def Let_def split: prod.splits bool.splits if_splits
            dest: writer_open_fails writer_open_opens)
      with create_region_fails [of zero name bytes fl "se_os env" err os] c False mode
      show ?thesis by (auto split: if_splits)
    qed
  qed
qed

lemma create_region_exists:
  assumes "create_region zero name bytes fl os = ((False, err), os')" "px_names os' name = Some i"
    "so_size (px_objects os' i) = bytes" "0 < bytes"
  shows "os' = os"
  using assms by (auto simp: create_region_def px_unlink_def px_try_unlink_def Let_def split: if_splits)

definition created_os :: "'c \<Rightarrow> string \<Rightarrow> nat \<Rightarrow> 'c shm_os \<Rightarrow> 'c shm_os" where
  "created_os zero name bytes os = os\<lparr>px_names := (px_names os)(name \<mapsto> px_fresh os),
     px_objects := (px_objects os)(px_fresh os := \<lparr>so_size = bytes, so_content = zero\<rparr>),
     px_fresh := px_fresh os + 1\<rparr>"

lemma create_and_open_some:
  assumes "create_region zero name bytes fl os = ((True, err), os')"
    and "create_and_open zero name bytes detail fl now (m, env\<lparr>se_os := os'\<rparr>) = (Some i, m', env')"
  shows "sm_mapped m' = Some i \<and> sm_last_open_is_new m' \<and> px_names os name = None \<and> i = px_fresh os
    \<and> env' = env\<lparr>se_os := created_os zero name bytes os\<rparr>"
  using assms(2) create_region_creates [OF assms(1)]
  by (auto simp: create_and_open_def open_existing_region_def created_os_def
      split: prod.splits bool.splits dest: writer_open_opens)

lemma open_impl_mapped:
  "open_impl zero name bytes mode file_backend fl now (m, env) = (Some i, m', env') \<Longrightarrow> sm_mapped m' = Some i"
  by (cases mode)
     (auto simp: open_impl_def open_existing_region_def create_and_open_def Let_def
        split: prod.splits bool.splits if_splits)

lemma open_impl_some:
  assumes "open_impl zero name bytes mode file_backend fl now (m, env) = (Some i, m', env')" and "0 < bytes"
  shows "sm_mapped m' = Some i \<and>
    (if sm_last_open_is_new m'
     then px_names (se_os env) name = None \<and> i = px_fresh (se_os env)
       \<and> env' = env\<lparr>se_os := created_os zero name bytes (se_os env)\<rparr>
     else px_names (se_os env) name = Some i \<and> so_size (px_objects (se_os env) i) = bytes \<and> env' = env)"
proof -
  have opened: "sm_mapped m2 = Some j \<Longrightarrow> px_names os name = Some j \<and> so_size (px_objects os j) = bytes"
    if "writer_open name bytes fl os m1 = ((True, err), m2)" for os :: "'a shm_os" and m1 m2 err j
    using writer_open_opens [OF that] by auto
  have same: "os' = os"
    if "create_region zero name bytes fl os = ((False, err), os')" "writer_open name bytes fl os' m1 = ((True, err'), m2)"
    for os os' :: "'a shm_os" and m1 m2 err err'
    using writer_open_opens [OF that(2)] create_region_exists [OF that(1) _ _ assms(2)] by blast
  show ?thesis
    using assms(1)
    by (cases mode)
       (auto simp: open_impl_def open_existing_region_def Let_def
        split: prod.splits bool.splits if_splits
        dest: create_and_open_some opened writer_open_fails same)
qed


definition shm_error_reported :: "'c shm_env \<Rightarrow> bool" where
  "shm_error_reported env \<longleftrightarrow> es_domain (g_latest_error (se_errors env)) = D_shm
     \<and> es_code (g_latest_error (se_errors env)) \<in> {ShmOpenFailed, ShmResizeFailed, ShmHeaderInvalid}"

lemma report_shm_reported:
  "code \<in> {ShmOpenFailed, ShmResizeFailed, ShmHeaderInvalid} \<Longrightarrow>
   shm_error_reported (report_shm_error code name detail err now env)"
  by (auto simp: shm_error_reported_def report_shm_error_def record_error_def make_error_status_def
      request_shutdown_def Let_def)

lemma on_os_reported [simp]: "shm_error_reported (on_os f env) = shm_error_reported env"
  "shm_error_reported (cleanup_new_region fl name env) = shm_error_reported env"
  by (simp_all add: shm_error_reported_def cleanup_new_region_def)

lemma classify_open_reported: "classify_open_error err \<in> {ShmOpenFailed, ShmResizeFailed, ShmHeaderInvalid}"
  by (simp add: classify_open_error_def)

lemma open_impl_reports:
  "open_impl zero name bytes mode file_backend fl now (m, env) = (None, m', env') \<Longrightarrow> shm_error_reported env'"
  by (cases mode)
     (auto simp: open_impl_def create_and_open_def open_existing_region_def Let_def
        intro!: report_shm_reported classify_open_reported
        split: prod.splits bool.splits if_splits dest: writer_open_opens)

text \<open>A kind of segment: what zero bytes read as, the initialisation, and the check.\<close>

locale segment_kind =
  fixes zero :: 'c and bytes :: nat and initialise :: "TimestampNs \<Rightarrow> 'c \<Rightarrow> 'c" and complaint :: "'c \<Rightarrow> string option"
  assumes fresh_ok: "complaint (initialise now zero) = None"
begin

lemma open_outcome:
  assumes ok: "px_ok (se_os env)" and bytes: "0 < bytes"
    and run: "open_segment zero bytes (initialise now) complaint name mode file_backend fl now (m, env) = (r, m', env')"
  shows "case r of
      None \<Rightarrow> sm_mapped m' = None \<and> shm_error_reported env'
        \<and> (if creation_tried name fl (se_os env) \<and> mode \<noteq> ModeOpen \<and> \<not> file_backend \<and> ft_cleanup fl \<noteq> 0
           then left_behind zero name (se_os env) (se_os env') else same_names (se_os env) (se_os env'))
    | Some i \<Rightarrow> sm_mapped m' = Some i \<and> px_names (se_os env') name = Some i
        \<and> so_size (px_objects (se_os env') i) = bytes \<and> complaint (px_read i (se_os env')) = None
        \<and> (if px_names (se_os env) name = None
           then px_read i (se_os env') = initialise now zero \<and> px_fresh (se_os env) \<le> i
             \<and> (\<forall>j < px_fresh (se_os env). px_objects (se_os env') j = px_objects (se_os env) j)
             \<and> (\<forall>n. n \<noteq> name \<longrightarrow> px_names (se_os env') n = px_names (se_os env) n)
           else env' = env)"
proof -
  obtain r1 m1 env1 where o: "open_impl zero name bytes mode file_backend fl now (m, env) = (r1, m1, env1)"
    by (metis prod_cases3)
  show ?thesis
  proof (cases r1)
    case None
    with run o have "r = None" "m' = m1" "env' = env1" by (auto simp: open_segment_def)
    with open_impl_none [OF o [unfolded None]] open_impl_reports [OF o [unfolded None]] show ?thesis by simp
  next
    case (Some i)
    note s = open_impl_some [OF o [unfolded Some] bytes]
    show ?thesis
    proof (cases "sm_last_open_is_new m1")
      case True
      with run o Some have "r = Some i" "m' = m1" "env' = on_os (px_update i (initialise now)) env1"
        by (auto simp: open_segment_def)
      with s True show ?thesis
        by (auto simp: created_os_def px_update_def px_read_def fresh_ok)
    next
      case False
      show ?thesis
      proof (cases "complaint (px_read i (se_os env1))")
        case None
        with run o Some False have "r = Some i" "m' = m1" "env' = env1" by (auto simp: open_segment_def)
        with s False None show ?thesis by auto
      next
        case (Some detail)
        with run o \<open>r1 = Some i\<close> False have "r = None" "m' = sm_close m1"
            "env' = report_shm_error ShmHeaderInvalid name detail 0 now env1"
          by (auto simp: open_segment_def)
        with s False show ?thesis by (simp add: report_shm_reported creation_tried_def)
      qed
    qed
  qed
qed

lemma open_existing:
  assumes "px_names (se_os env) name = Some i" "so_size (px_objects (se_os env) i) = bytes"
    "complaint (px_read i (se_os env)) = None" "mode \<noteq> ModeCreate"
  shows "\<exists>m'. open_segment zero bytes (initialise now) complaint name mode False no_faults now (m, env) = (Some i, m', env)"
  using assms
  by (cases mode)
     (auto simp: open_segment_def open_impl_def open_existing_region_def create_region_def writer_open_def
        no_faults_def Let_def)

lemma left_behind_refused:
  assumes "left_behind zero name os (se_os env)" "complaint zero \<noteq> None"
  shows "fst (open_segment zero bytes (initialise now) complaint name mode file_backend fl now (m, env)) = None"
proof -
  have n: "px_names (se_os env) name = Some (px_fresh os)" and z: "px_read (px_fresh os) (se_os env) = zero"
    using assms(1) by (simp_all add: left_behind_def)
  have c: "create_region zero name bytes fl (se_os env) = ((False, EEXIST), se_os env)"
    using n by (simp add: create_region_def)
  obtain d where d: "complaint zero = Some d" using assms(2) by auto
  show ?thesis
  proof (cases "open_impl zero name bytes mode file_backend fl now (m, env)")
    case (fields r m1 env1)
    have "r = None \<or> r = Some (px_fresh os) \<and> \<not> sm_last_open_is_new m1 \<and> env1 = env"
      using fields c n
      by (cases mode)
        (auto simp: open_impl_def open_existing_region_def Let_def
          split: prod.splits bool.splits if_splits dest!: writer_open_opens)
    with fields z d show ?thesis by (auto simp: open_segment_def split: option.splits)
  qed
qed

lemma reopened_unchanged:
  assumes "px_ok (se_os env)" "0 < bytes"
    and "open_segment zero bytes (initialise now) complaint name mode file_backend fl now (m, env) = (Some i, m1, env1)"
    and "complaint (f (px_read i (se_os env1))) = None" and "mode2 \<noteq> ModeCreate"
  shows "\<exists>m2'. open_segment zero bytes (initialise now2) complaint name mode2 False no_faults now2
      (m2, on_os (px_update i f) env1) = (Some i, m2', on_os (px_update i f) env1)"
proof -
  have "px_names (se_os env1) name = Some i" "so_size (px_objects (se_os env1) i) = bytes"
    using open_outcome [OF assms(1-3)] by simp_all
  then show ?thesis
    using assms(4,5) by (intro open_existing) (simp_all add: px_update_def px_read_def)
qed

end

interpretation queue_segments: segment_kind "queue_segment_zero elem" bytes
    "\<lambda>now s. s\<lparr>qs_header := init_header now (qs_header s)\<rparr>" "\<lambda>s. header_complaint (qs_header s)" for elem bytes
  by unfold_locales (simp add: header_complaint_def init_header_def)

interpretation orders_segments: segment_kind orders_segment_zero bytes "init_orders_segment bytes name"
    "orders_complaint bytes name" for bytes name
  by unfold_locales (simp add: orders_complaint_def init_orders_segment_def)

interpretation positions_segments: segment_kind positions_segment_zero bytes "init_positions_segment bytes"
    "positions_complaint bytes" for bytes
  by unfold_locales (simp add: positions_complaint_def init_positions_segment_def)


lemma orders_complaint_zero: "orders_complaint bytes name orders_segment_zero \<noteq> None"
  by (simp add: orders_complaint_def orders_segment_zero_def kOrdersMagic_def)

text \<open>C29: what opening the order pool does, whichever mode is asked for and whichever system calls
  fail, the cleanup included.  A success maps the object of the name, which has the layout's size and
  a header that passes every check (of the asked trading day, too), and which is a newly initialised
  one only if the name was free; an existing segment is not written to.  A refusal maps nothing and
  reports an error of the shared memory, and all names keep the objects they had, with their content -
  except in one case: the call created the name and then failed, and the unlink that should
  undo this, whose result the code ignores, failed as well.  Then exactly the new name is left, on an
  object that was never initialised, and from then on every open of it is refused, in every mode.
  The layout's size is not 0.\<close>

theorem open_orders_outcome:
  assumes "px_ok (se_os env)" and "0 < bytes"
    and "open_orders bytes name mode file_backend fl now (m, env) = (r, m', env')"
  shows "case r of
      None \<Rightarrow> sm_mapped m' = None \<and> shm_error_reported env'
        \<and> (if px_names (se_os env) name = None \<and> mode \<noteq> ModeOpen \<and> \<not> file_backend
             \<and> ft_create fl = 0 \<and> ft_cleanup fl \<noteq> 0
           then px_names (se_os env') = (px_names (se_os env))(name \<mapsto> px_fresh (se_os env))
             \<and> px_read (px_fresh (se_os env)) (se_os env') = orders_segment_zero
             \<and> (\<forall>j < px_fresh (se_os env). px_objects (se_os env') j = px_objects (se_os env) j)
             \<and> (\<forall>mode2 backend2 fl2 now2 m2. fst (open_orders bytes name mode2 backend2 fl2 now2 (m2, env')) = None)
           else same_names (se_os env) (se_os env'))
    | Some i \<Rightarrow> sm_mapped m' = Some i \<and> px_names (se_os env') name = Some i
        \<and> so_size (px_objects (se_os env') i) = bytes
        \<and> orders_complaint bytes name (px_read i (se_os env')) = None
        \<and> (if px_names (se_os env) name = None
           then px_read i (se_os env') = init_orders_segment bytes name now orders_segment_zero
             \<and> px_fresh (se_os env) \<le> i
             \<and> (\<forall>j < px_fresh (se_os env). px_objects (se_os env') j = px_objects (se_os env) j)
             \<and> (\<forall>n. n \<noteq> name \<longrightarrow> px_names (se_os env') n = px_names (se_os env) n)
           else env' = env)"
proof -
  have refused: "fst (open_orders bytes name mode2 backend2 fl2 now2 (m2, env')) = None"
    if "left_behind orders_segment_zero name (se_os env) (se_os env')" for mode2 backend2 fl2 now2 m2
    unfolding open_orders_def
    by (rule orders_segments.left_behind_refused [OF that orders_complaint_zero])
  show ?thesis
    using orders_segments.open_outcome [OF assms(1,2) assms(3) [unfolded open_orders_def]] refused
    by (cases r) (auto simp: creation_tried_def left_behind_def split: if_splits)
qed

definition empty_env :: "'c \<Rightarrow> 'c shm_env" where
  "empty_env content = \<lparr>se_os = \<lparr>px_names = Map.empty, px_objects = (\<lambda>_. \<lparr>so_size = 0, so_content = content\<rparr>),
     px_fresh = 0\<rparr>, se_errors = error_state_init\<rparr>"

lemma open_orders_outcome_witness:
  "let r = open_orders 4096 ''/orders_shm_20260105'' ModeOpenOrCreate False no_faults 50
             (SHMManager_new, empty_env orders_segment_zero)
   in fst r = Some 0 \<and> og_trading_day (px_read 0 (se_os (snd (snd r)))) = ''20260105''
     \<and> os_capacity (og_pool (px_read 0 (se_os (snd (snd r))))) = 1048576"
proof -
  let ?r = "open_orders 4096 ''/orders_shm_20260105'' ModeOpenOrCreate False no_faults 50
             (SHMManager_new, empty_env orders_segment_zero)"
  have ok: "px_ok (se_os (empty_env orders_segment_zero))" by (simp add: empty_env_def px_ok_def)
  have r: "fst ?r = Some 0" by code_simp
  have "?r = (Some 0, fst (snd ?r), snd (snd ?r))" using r by (simp add: prod_eq_iff)
  from open_orders_outcome [OF ok _ this]
  have "px_read 0 (se_os (snd (snd ?r))) = init_orders_segment 4096 ''/orders_shm_20260105'' 50 orders_segment_zero"
    by (simp add: empty_env_def)
  moreover have "expected_trading_day ''/orders_shm_20260105'' = ''20260105''" by code_simp
  ultimately show ?thesis using r
    by (simp add: init_orders_segment_def kDailyOrderPoolCapacity_def Let_def)
qed

text \<open>A restart does not reset the upstream segment.  Once a process has opened it, and as long as
  the users of the segment leave magic and version alone, any process that opens it in a mode other
  than creation, through any manager, gets the same object with the content it has, the order id
  counter and the queue included.\<close>

theorem upstream_survives_restart:
  assumes "px_ok (se_os env)" and "0 < bytes"
    and "open_upstream bytes name mode file_backend fl now (m, env) = (Some i, m1, env1)"
    and "header_complaint (qs_header (f (px_read i (se_os env1)))) = None" and "mode2 \<noteq> ModeCreate"
  shows "\<exists>m2'. open_upstream bytes name mode2 False no_faults now2 (m2, on_os (px_update i f) env1)
    = (Some i, m2', on_os (px_update i f) env1)"
  unfolding open_upstream_def open_queue_segment_def
  by (rule queue_segments.reopened_unchanged [where f = f])
     (use assms in \<open>simp_all add: open_upstream_def open_queue_segment_def\<close>)

definition upstream_opened :: "OrderIndex queue_segment shm_env" where
  "upstream_opened = snd (snd (open_upstream 4096 ''/up'' ModeOpenOrCreate False no_faults 50
     (SHMManager_new, empty_env (queue_segment_zero 0))))"

lemma upstream_survives_restart_witness:
  "\<exists>m. open_upstream 4096 ''/up'' ModeOpenOrCreate False no_faults 90 (SHMManager_new,
       on_os (px_update 0 (\<lambda>s. s\<lparr>qs_header := (qs_header s)\<lparr>sh_next_order_id := 77\<rparr>\<rparr>)) upstream_opened)
     = (Some 0, m, on_os (px_update 0 (\<lambda>s. s\<lparr>qs_header := (qs_header s)\<lparr>sh_next_order_id := 77\<rparr>\<rparr>)) upstream_opened)"
proof -
  let ?r = "open_upstream 4096 ''/up'' ModeOpenOrCreate False no_faults 50
     (SHMManager_new, empty_env (queue_segment_zero 0))"
  have ok: "px_ok (se_os (empty_env (queue_segment_zero (0 :: OrderIndex))))" by (simp add: empty_env_def px_ok_def)
  have "fst ?r = Some 0" by code_simp
  then have r: "?r = (Some 0, fst (snd ?r), upstream_opened)" by (simp add: prod_eq_iff upstream_opened_def)
  have h: "header_complaint ((qs_header (px_read 0 (se_os upstream_opened)))\<lparr>sh_next_order_id := 77\<rparr>) = None"
    by code_simp
  show ?thesis
    by (rule upstream_survives_restart [OF ok _ r]) (simp_all add: h)
qed

end
