(* ===== verification/Order_Api.thy ===== *)
theory Order_Api
  imports Shm_Manager Account_Info "HOL-Library.AList"
begin

text \<open>
  \<^verbatim>\<open>src/api/order_api.cpp\<close>: the C interface a strategy uses to number, cache and send orders.

  A call works on the caller's context and on the world it shares with the account service and
  other callers: the segments and the error globals.  A null pointer is \<open>None\<close>; for an output
  parameter the argument \<open>out_given\<close> says whether it was passed, and its value is part of the
  result.  The clock readings of a call are its arguments \<open>md_time\<close> and \<open>now\<close>; the environment
  variable \<open>ACCT_TRADING_DAY\<close> is an argument, too.  Prices are doubles that are finite and not
  negative, as in \<^verbatim>\<open>Account_Info.thy\<close>.
\<close>

section \<open>Data\<close>

datatype acct_error =
    ACCT_OK | ACCT_ERR_NOT_INITIALIZED | ACCT_ERR_INVALID_PARAM | ACCT_ERR_QUEUE_FULL
  | ACCT_ERR_SHM_FAILED | ACCT_ERR_ORDER_NOT_FOUND | ACCT_ERR_CACHE_FULL | ACCT_ERR_ORDER_POOL_FULL
  | ACCT_ERR_INTERNAL

record acct_init_options =
  aio_upstream_shm_name :: "string option"
  aio_orders_shm_name :: "string option"
  aio_trading_day :: "string option"
  aio_create_if_not_exist :: bool

record acct_context =
  ac_upstream_manager :: SHMManager
  ac_orders_manager :: SHMManager
  ac_upstream :: "nat option"
  ac_orders :: "nat option"
  ac_upstream_name :: string
  ac_orders_base_name :: string
  ac_orders_dated_name :: string
  ac_trading_day :: string
  ac_cached_orders :: "(u32 \<times> OrderRequest) list"
  ac_initialized :: bool

definition acct_context_new :: acct_context where
  "acct_context_new = \<lparr>ac_upstream_manager = SHMManager_new, ac_orders_manager = SHMManager_new,
     ac_upstream = None, ac_orders = None, ac_upstream_name = [], ac_orders_base_name = [],
     ac_orders_dated_name = [], ac_trading_day = [], ac_cached_orders = [], ac_initialized = False\<rparr>"

record api_world =
  aw_queues :: "OrderIndex queue_segment shm_os"
  aw_pools :: "orders_segment shm_os"
  aw_errors :: error_state

definition kMaxCachedOrders :: nat where
  "kMaxCachedOrders = 1024"

definition kUpstreamOrderShmName :: string where
  "kUpstreamOrderShmName = ''/upstream_order_shm''"

definition kOrdersShmName :: string where
  "kOrdersShmName = ''/orders_shm''"

text \<open>Reading and writing the segments a context has mapped.\<close>

definition upstream_at :: "nat \<Rightarrow> api_world \<Rightarrow> OrderIndex queue_segment" where
  "upstream_at u w = px_read u (aw_queues w)"

definition pool_at :: "nat \<Rightarrow> api_world \<Rightarrow> orders_shm_layout" where
  "pool_at p w = og_pool (px_read p (aw_pools w))"

definition set_upstream :: "nat \<Rightarrow> OrderIndex queue_segment \<Rightarrow> api_world \<Rightarrow> api_world" where
  "set_upstream u s w = w\<lparr>aw_queues := px_update u (\<lambda>_. s) (aw_queues w)\<rparr>"

definition set_pool :: "nat \<Rightarrow> orders_shm_layout \<Rightarrow> api_world \<Rightarrow> api_world" where
  "set_pool p pool w = w\<lparr>aw_pools := px_update p (\<lambda>s. s\<lparr>og_pool := pool\<rparr>) (aw_pools w)\<rparr>"

definition api_error :: "acct_error \<Rightarrow> ErrorCode \<Rightarrow> TimestampNs \<Rightarrow> api_world \<Rightarrow> acct_error \<times> api_world" where
  "api_error rc code now w =
     (rc, w\<lparr>aw_errors := record_error (make_error_status D_api code ''order_api'' [] 0 [] 0 now) (aw_errors w)\<rparr>)"

section \<open>Options\<close>

definition default_trading_day :: "string option \<Rightarrow> string" where
  "default_trading_day env_day =
     (case env_day of Some day \<Rightarrow> if is_valid_trading_day day then day else ''19700101''
      | None \<Rightarrow> ''19700101'')"

definition given_or :: "string \<Rightarrow> string option \<Rightarrow> string" where
  "given_or fallback given = (case given of Some s \<Rightarrow> if s \<noteq> [] then s else fallback | None \<Rightarrow> fallback)"

text \<open>\<open>None\<close>: invalid.  Otherwise the upstream name, the orders base name, the day, and whether to create.\<close>

definition resolve_init_options ::
    "string option \<Rightarrow> acct_init_options option \<Rightarrow> (string \<times> string \<times> string \<times> bool) option" where
  "resolve_init_options env_day options =
     (let upstream_name = kUpstreamOrderShmName; orders_base_name = kOrdersShmName;
          trading_day = default_trading_day env_day
      in case options of
           None \<Rightarrow> Some (upstream_name, orders_base_name, trading_day, True)
         | Some opts \<Rightarrow>
             let upstream_name = given_or upstream_name (aio_upstream_shm_name opts);
                 orders_base_name = given_or orders_base_name (aio_orders_shm_name opts);
                 trading_day = given_or trading_day (aio_trading_day opts)
             in if upstream_name = [] \<or> orders_base_name = [] then None
                else if \<not> is_valid_trading_day trading_day then None
                else Some (upstream_name, orders_base_name, trading_day, aio_create_if_not_exist opts))"

definition should_recreate_shm_on_init_failure :: "ErrorCode \<Rightarrow> bool" where
  "should_recreate_shm_on_init_failure code = (code = ShmResizeFailed \<or> code = ShmHeaderInvalid)"

text \<open>The options structure of a single order is the byte of its algorithm.\<close>

definition resolve_passive_execution_algo :: "u8 option \<Rightarrow> PassiveExecutionAlgo option" where
  "resolve_passive_execution_algo exec_options =
     (case exec_options of
        None \<Rightarrow> Some Default
      | Some algo \<Rightarrow>
          if algo = 0 then Some Default
          else if algo = 1 then Some AlgoNone
          else if algo = 2 then Some PassiveExecutionAlgo.FixedSize
          else if algo = 3 then Some PassiveExecutionAlgo.TWAP
          else if algo = 4 then Some PassiveExecutionAlgo.VWAP
          else if algo = 5 then Some PassiveExecutionAlgo.Iceberg
          else None)"

section \<open>Building and sending a request\<close>

definition trade_side_of_u8 :: "u8 \<Rightarrow> TradeSide" where
  "trade_side_of_u8 side = (if side = 1 then Buy else if side = 2 then Sell else TradeSide.NotSet)"

definition market_of_u8 :: "u8 \<Rightarrow> Market" where
  "market_of_u8 mkt = (if mkt = 1 then Market.SZ else if mkt = 2 then Market.SH else if mkt = 3 then Market.BJ
     else if mkt = 4 then Market.HK else Market.NotSet)"

text \<open>\<open>static_cast<DPrice>(price * 100.0 + 0.5)\<close>: yuan to cents.\<close>

definition price_in_cents :: "double \<Rightarrow> DPrice" where
  "price_in_cents price = u64_of_double (double_add_half (double_mult price (100, 0)))"

definition build_new_order_request ::
    "string \<Rightarrow> u8 \<Rightarrow> u8 \<Rightarrow> u64 \<Rightarrow> double \<Rightarrow> PassiveExecutionAlgo \<Rightarrow> u32 \<Rightarrow> MdTime \<Rightarrow> TimestampNs \<Rightarrow> api_world
      \<Rightarrow> (acct_error + OrderRequest) \<times> api_world" where
  "build_new_order_request sec side mkt volume price algo order_id md_time now w =
     (let invalid = (let (rc, w) = api_error ACCT_ERR_INVALID_PARAM InvalidParam now w in (Inl rc, w))
      in if side \<noteq> 1 \<and> side \<noteq> 2 then invalid
         else if mkt < 1 \<or> mkt > 4 then invalid
         else if volume = 0 then invalid
         else case build_internal_security_id (market_of_u8 mkt) sec of
                None \<Rightarrow> invalid
              | Some internal_id \<Rightarrow>
                  (Inr ((init_new sec internal_id order_id (trade_side_of_u8 side) (market_of_u8 mkt) volume
                           (price_in_cents price) md_time OrderRequest_default)
                        \<lparr>passive_execution_algo := algo\<rparr>), w))"

definition enqueue_order ::
    "acct_context \<Rightarrow> OrderRequest \<Rightarrow> order_slot_source_t \<Rightarrow> TimestampNs \<Rightarrow> api_world
      \<Rightarrow> acct_error \<times> OrderIndex option \<times> api_world" where
  "enqueue_order ctx req source now w =
     (case (ac_upstream ctx, ac_orders ctx) of
        (Some u, Some p) \<Rightarrow>
          (case orders_shm_append req UpstreamQueued source now (pool_at p w) of
             (None, pool) \<Rightarrow>
               let (rc, w) = api_error ACCT_ERR_ORDER_POOL_FULL OrderPoolFull now (set_pool p pool w)
               in (rc, None, w)
           | (Some index, pool) \<Rightarrow>
               let w = set_pool p pool w;
                   s = upstream_at u w;
                   (pushed, q) = try_push kQueueCapacity index (qs_queue s)
               in if \<not> pushed
                  then let w = set_pool p (snd (orders_shm_update_stage index QueuePushFailed now (pool_at p w))) w;
                           (rc, w) = api_error ACCT_ERR_QUEUE_FULL ErrQueuePushFailed now w
                       in (rc, None, w)
                  else (ACCT_OK, Some index,
                        set_upstream u (s\<lparr>qs_queue := q, qs_header := (qs_header s)\<lparr>sh_last_update := now\<rparr>\<rparr>) w))
      | _ \<Rightarrow> let (rc, w) = api_error ACCT_ERR_NOT_INITIALIZED InvalidState now w in (rc, None, w))"

text \<open>\<open>header.next_order_id.fetch_add(1)\<close>\<close>

definition fetch_order_id :: "nat \<Rightarrow> api_world \<Rightarrow> u32 \<times> api_world" where
  "fetch_order_id u w =
     (let s = upstream_at u w; ident = sh_next_order_id (qs_header s)
      in (ident, set_upstream u (s\<lparr>qs_header := (qs_header s)\<lparr>sh_next_order_id := ident + 1\<rparr>\<rparr>) w))"

section \<open>The calls\<close>

text \<open>
  One segment of \<open>acct_init_ex\<close>: open it, and if that fails for a wrong size or header and the caller
  wants it created, remove the name and create it anew.
\<close>

definition open_or_recreate ::
    "(shm_mode \<Rightarrow> os_faults \<Rightarrow> SHMManager \<times> 'c shm_env \<Rightarrow> nat option \<times> SHMManager \<times> 'c shm_env)
      \<Rightarrow> bool \<Rightarrow> string \<Rightarrow> bool \<Rightarrow> os_faults \<Rightarrow> os_faults \<Rightarrow> TimestampNs \<Rightarrow> SHMManager \<times> 'c shm_env
      \<Rightarrow> nat option \<times> SHMManager \<times> 'c shm_env" where
  "open_or_recreate open_seg file_backend name create fl fl2 now me =
     (case open_seg (if create then ModeOpenOrCreate else ModeOpen) fl me of
        (Some i, m, env) \<Rightarrow> (Some i, m, env)
      | (None, m, env) \<Rightarrow>
          if create \<and> should_recreate_shm_on_init_failure (es_code (g_latest_error (se_errors env)))
          then open_seg ModeCreate fl2 (m, snd (shm_unlink_segment file_backend name fl2 now env))
          else (None, m, env))"

definition init_upstream ::
    "nat \<Rightarrow> string \<Rightarrow> bool \<Rightarrow> bool \<Rightarrow> os_faults \<Rightarrow> os_faults \<Rightarrow> TimestampNs \<Rightarrow> acct_context \<Rightarrow> api_world
      \<Rightarrow> bool \<times> acct_context \<times> api_world" where
  "init_upstream bytes name create file_backend fl fl2 now ctx w =
     (let (r, m, env) = open_or_recreate (\<lambda>mode fl. open_upstream bytes name mode file_backend fl now)
            file_backend name create fl fl2 now
            (ac_upstream_manager ctx, \<lparr>se_os = aw_queues w, se_errors = aw_errors w\<rparr>)
      in (r \<noteq> None, ctx\<lparr>ac_upstream_manager := m, ac_upstream := r\<rparr>,
          w\<lparr>aw_queues := se_os env, aw_errors := se_errors env\<rparr>))"

definition init_orders ::
    "nat \<Rightarrow> string \<Rightarrow> bool \<Rightarrow> bool \<Rightarrow> os_faults \<Rightarrow> os_faults \<Rightarrow> TimestampNs \<Rightarrow> acct_context \<Rightarrow> api_world
      \<Rightarrow> bool \<times> acct_context \<times> api_world" where
  "init_orders bytes name create file_backend fl fl2 now ctx w =
     (let (r, m, env) = open_or_recreate (\<lambda>mode fl. open_orders bytes name mode file_backend fl now)
            file_backend name create fl fl2 now
            (ac_orders_manager ctx, \<lparr>se_os = aw_pools w, se_errors = aw_errors w\<rparr>)
      in (r \<noteq> None, ctx\<lparr>ac_orders_manager := m, ac_orders := r\<rparr>,
          w\<lparr>aw_pools := se_os env, aw_errors := se_errors env\<rparr>))"

text \<open>
  What a call of \<open>acct_init_ex\<close> meets outside: the sizes of the two layouts, whether there is
  memory for a context, the backend and what the system calls answer.
\<close>

record init_input =
  in_env_day :: "string option"
  in_upstream_bytes :: nat
  in_orders_bytes :: nat
  in_memory :: bool
  in_file_backend :: bool
  in_upstream_faults :: os_faults
  in_upstream_faults2 :: os_faults
  in_orders_faults :: os_faults
  in_orders_faults2 :: os_faults
  in_now :: TimestampNs

definition acct_init_ex ::
    "init_input \<Rightarrow> acct_init_options option \<Rightarrow> bool \<Rightarrow> api_world \<Rightarrow> acct_error \<times> acct_context option \<times> api_world" where
  "acct_init_ex inp options out_given w =
     (let now = in_now inp;
          fail = (\<lambda>rc code w. let (rc, w) = api_error rc code now w in (rc, None, w))
      in if \<not> out_given then fail ACCT_ERR_INVALID_PARAM InvalidParam w
         else case resolve_init_options (in_env_day inp) options of
           None \<Rightarrow> fail ACCT_ERR_INVALID_PARAM InvalidParam w
         | Some (upstream_name, orders_base_name, trading_day, create) \<Rightarrow>
             if \<not> in_memory inp then fail ACCT_ERR_INTERNAL InternalError w
             else let (opened, ctx, w) = init_upstream (in_upstream_bytes inp) upstream_name create
                        (in_file_backend inp) (in_upstream_faults inp) (in_upstream_faults2 inp) now
                        acct_context_new w
                  in if \<not> opened then fail ACCT_ERR_SHM_FAILED ShmOpenFailed w
                     else let dated = make_orders_shm_name orders_base_name trading_day;
                              ctx = ctx\<lparr>ac_orders_dated_name := dated\<rparr>;
                              (opened, ctx, w) = init_orders (in_orders_bytes inp) dated create
                                (in_file_backend inp) (in_orders_faults inp) (in_orders_faults2 inp) now ctx w
                          in if \<not> opened then fail ACCT_ERR_SHM_FAILED ShmOpenFailed w
                             else (ACCT_OK, Some (ctx\<lparr>ac_upstream_name := upstream_name,
                                      ac_orders_base_name := orders_base_name, ac_trading_day := trading_day,
                                      ac_initialized := True\<rparr>), w))"

definition acct_init :: "init_input \<Rightarrow> bool \<Rightarrow> api_world \<Rightarrow> acct_error \<times> acct_context option \<times> api_world" where
  "acct_init inp out_given w = acct_init_ex inp None out_given w"

text \<open>The result is what is left of the context.\<close>

definition acct_destroy ::
    "acct_context option \<Rightarrow> TimestampNs \<Rightarrow> api_world \<Rightarrow> acct_error \<times> acct_context option \<times> api_world" where
  "acct_destroy ctx now w =
     (case ctx of
        None \<Rightarrow> let (rc, w) = api_error ACCT_ERR_INVALID_PARAM InvalidParam now w in (rc, None, w)
      | Some _ \<Rightarrow> (ACCT_OK, None, w))"

record order_args =
  oa_security_id :: "string option"
  oa_side :: u8
  oa_market :: u8
  oa_volume :: u64
  oa_price :: double
  oa_exec_options :: "u8 option"

text \<open>The result of a call: the code, the value of the output parameter, the context, the world.\<close>

type_synonym api_result = "acct_error \<times> u32 \<times> acct_context option \<times> api_world"

definition api_fail ::
    "acct_error \<Rightarrow> ErrorCode \<Rightarrow> TimestampNs \<Rightarrow> acct_context option \<Rightarrow> api_world \<Rightarrow> api_result" where
  "api_fail rc code now ctx w = (let (rc, w) = api_error rc code now w in (rc, 0, ctx, w))"

definition acct_new_order_ex ::
    "order_args \<Rightarrow> bool \<Rightarrow> MdTime \<Rightarrow> TimestampNs \<Rightarrow> acct_context option \<Rightarrow> api_world \<Rightarrow> api_result" where
  "acct_new_order_ex a out_given md_time now ctx w =
     (if \<not> out_given then api_fail ACCT_ERR_INVALID_PARAM InvalidParam now ctx w
      else case (ctx, oa_security_id a) of
        (Some c, Some sec) \<Rightarrow>
          if \<not> ac_initialized c then api_fail ACCT_ERR_NOT_INITIALIZED InvalidState now ctx w
          else case ac_upstream c of
            None \<Rightarrow> api_fail ACCT_ERR_NOT_INITIALIZED InvalidState now ctx w
          | Some u \<Rightarrow>
              if length (ac_cached_orders c) \<ge> kMaxCachedOrders
              then api_fail ACCT_ERR_CACHE_FULL QueueFull now ctx w
              else case resolve_passive_execution_algo (oa_exec_options a) of
                None \<Rightarrow> api_fail ACCT_ERR_INVALID_PARAM InvalidParam now ctx w
              | Some algo \<Rightarrow>
                  let (ident, w) = fetch_order_id u w
                  in case build_new_order_request sec (oa_side a) (oa_market a) (oa_volume a) (oa_price a)
                            algo ident md_time now w of
                       (Inl rc, w) \<Rightarrow> (rc, 0, ctx, w)
                     | (Inr req, w) \<Rightarrow>
                         let req = req\<lparr>order_state := OrderState.NotSet\<rparr>
                         in (ACCT_OK, ident, Some (c\<lparr>ac_cached_orders :=
                               AList.update ident req (ac_cached_orders c)\<rparr>), w)
      | _ \<Rightarrow> api_fail ACCT_ERR_INVALID_PARAM InvalidParam now ctx w)"

definition acct_send_order ::
    "u32 \<Rightarrow> TimestampNs \<Rightarrow> acct_context option \<Rightarrow> api_world \<Rightarrow> acct_error \<times> acct_context option \<times> api_world" where
  "acct_send_order ident now ctx w =
     (let fail = (\<lambda>rc code. let (rc, w) = api_error rc code now w in (rc, ctx, w))
      in case ctx of
           None \<Rightarrow> fail ACCT_ERR_INVALID_PARAM InvalidParam
         | Some c \<Rightarrow>
             if \<not> ac_initialized c then fail ACCT_ERR_NOT_INITIALIZED InvalidState
             else case map_of (ac_cached_orders c) ident of
               None \<Rightarrow> fail ACCT_ERR_ORDER_NOT_FOUND OrderNotFound
             | Some req \<Rightarrow>
                 let req = req\<lparr>order_state := UserSubmitted\<rparr>;
                     c = c\<lparr>ac_cached_orders := AList.update ident req (ac_cached_orders c)\<rparr>;
                     (rc, _, w) = enqueue_order c req User now w
                 in if rc \<noteq> ACCT_OK then (rc, Some c, w)
                    else (ACCT_OK, Some (c\<lparr>ac_cached_orders := AList.delete ident (ac_cached_orders c)\<rparr>), w))"

definition acct_submit_order_ex ::
    "order_args \<Rightarrow> bool \<Rightarrow> MdTime \<Rightarrow> TimestampNs \<Rightarrow> acct_context option \<Rightarrow> api_world \<Rightarrow> api_result" where
  "acct_submit_order_ex a out_given md_time now ctx w =
     (if \<not> out_given then api_fail ACCT_ERR_INVALID_PARAM InvalidParam now ctx w
      else case (ctx, oa_security_id a) of
        (Some c, Some sec) \<Rightarrow>
          if \<not> ac_initialized c then api_fail ACCT_ERR_NOT_INITIALIZED InvalidState now ctx w
          else case ac_upstream c of
            None \<Rightarrow> api_fail ACCT_ERR_NOT_INITIALIZED InvalidState now ctx w
          | Some u \<Rightarrow>
              case resolve_passive_execution_algo (oa_exec_options a) of
                None \<Rightarrow> api_fail ACCT_ERR_INVALID_PARAM InvalidParam now ctx w
              | Some algo \<Rightarrow>
                  let (ident, w) = fetch_order_id u w
                  in case build_new_order_request sec (oa_side a) (oa_market a) (oa_volume a) (oa_price a)
                            algo ident md_time now w of
                       (Inl rc, w) \<Rightarrow> (rc, 0, ctx, w)
                     | (Inr req, w) \<Rightarrow>
                         let req = req\<lparr>order_state := UserSubmitted\<rparr>;
                             (rc, _, w) = enqueue_order c req User now w
                         in if rc \<noteq> ACCT_OK then (rc, 0, ctx, w) else (ACCT_OK, ident, ctx, w)
      | _ \<Rightarrow> api_fail ACCT_ERR_INVALID_PARAM InvalidParam now ctx w)"

definition acct_new_order ::
    "order_args \<Rightarrow> bool \<Rightarrow> MdTime \<Rightarrow> TimestampNs \<Rightarrow> acct_context option \<Rightarrow> api_world \<Rightarrow> api_result" where
  "acct_new_order a = acct_new_order_ex (a\<lparr>oa_exec_options := None\<rparr>)"

definition acct_submit_order ::
    "order_args \<Rightarrow> bool \<Rightarrow> MdTime \<Rightarrow> TimestampNs \<Rightarrow> acct_context option \<Rightarrow> api_world \<Rightarrow> api_result" where
  "acct_submit_order a = acct_submit_order_ex (a\<lparr>oa_exec_options := None\<rparr>)"

definition acct_cancel_order ::
    "u32 \<Rightarrow> bool \<Rightarrow> MdTime \<Rightarrow> TimestampNs \<Rightarrow> acct_context option \<Rightarrow> api_world \<Rightarrow> api_result" where
  "acct_cancel_order orig_id out_given md_time now ctx w =
     (if \<not> out_given then api_fail ACCT_ERR_INVALID_PARAM InvalidParam now ctx w
      else case ctx of
        None \<Rightarrow> api_fail ACCT_ERR_INVALID_PARAM InvalidParam now ctx w
      | Some c \<Rightarrow>
          if \<not> ac_initialized c then api_fail ACCT_ERR_NOT_INITIALIZED InvalidState now ctx w
          else case ac_upstream c of
            None \<Rightarrow> api_fail ACCT_ERR_NOT_INITIALIZED InvalidState now ctx w
          | Some u \<Rightarrow>
              let (cancel_id, w) = fetch_order_id u w;
                  req = (init_cancel cancel_id md_time orig_id OrderRequest_default)\<lparr>order_state := UserSubmitted\<rparr>;
                  (rc, _, w) = enqueue_order c req User now w
              in if rc \<noteq> ACCT_OK then (rc, 0, ctx, w) else (ACCT_OK, cancel_id, ctx, w))"

definition acct_queue_size ::
    "bool \<Rightarrow> TimestampNs \<Rightarrow> acct_context option \<Rightarrow> api_world \<Rightarrow> acct_error \<times> u64 \<times> api_world" where
  "acct_queue_size out_given now ctx w =
     (let fail = (\<lambda>rc code. let (rc, w) = api_error rc code now w in (rc, 0, w))
      in if \<not> out_given then fail ACCT_ERR_INVALID_PARAM InvalidParam
         else case ctx of
           None \<Rightarrow> fail ACCT_ERR_INVALID_PARAM InvalidParam
         | Some c \<Rightarrow>
             if \<not> ac_initialized c then fail ACCT_ERR_NOT_INITIALIZED InvalidState
             else case ac_upstream c of
               None \<Rightarrow> fail ACCT_ERR_NOT_INITIALIZED InvalidState
             | Some u \<Rightarrow> (ACCT_OK, queue_size kQueueCapacity (qs_queue (upstream_at u w)), w))"

fun acct_strerror :: "acct_error \<Rightarrow> string" where
  "acct_strerror ACCT_OK = ''Success''"
| "acct_strerror ACCT_ERR_NOT_INITIALIZED = ''Context not initialized''"
| "acct_strerror ACCT_ERR_INVALID_PARAM = ''Invalid parameter''"
| "acct_strerror ACCT_ERR_QUEUE_FULL = ''Queue is full''"
| "acct_strerror ACCT_ERR_SHM_FAILED = ''Shared memory operation failed''"
| "acct_strerror ACCT_ERR_ORDER_NOT_FOUND = ''Order not found''"
| "acct_strerror ACCT_ERR_CACHE_FULL = ''Order cache is full''"
| "acct_strerror ACCT_ERR_ORDER_POOL_FULL = ''Order pool is full''"
| "acct_strerror ACCT_ERR_INTERNAL = ''Internal error''"

text \<open>A removal fails with the given error number; that the name is unknown is no error.\<close>

definition remove_name :: "string \<Rightarrow> int \<Rightarrow> 'c shm_os \<Rightarrow> bool \<times> 'c shm_os" where
  "remove_name name err os =
     (if px_names os name = None then (True, os)
      else if err \<noteq> 0 then (err = ENOENT, os)
      else (True, px_unlink name os))"

definition acct_cleanup_shm ::
    "string option \<Rightarrow> int \<Rightarrow> int \<Rightarrow> TimestampNs \<Rightarrow> api_world \<Rightarrow> acct_error \<times> api_world" where
  "acct_cleanup_shm env_day err1 err2 now w =
     (let (removed, os) = remove_name kUpstreamOrderShmName err1 (aw_queues w); w = w\<lparr>aw_queues := os\<rparr>
      in if \<not> removed then api_error ACCT_ERR_SHM_FAILED ShmOpenFailed now w
         else let (removed, os) = remove_name (make_orders_shm_name kOrdersShmName (default_trading_day env_day)) err2
                    (aw_pools w);
                  w = w\<lparr>aw_pools := os\<rparr>
              in if \<not> removed then api_error ACCT_ERR_SHM_FAILED ShmOpenFailed now w
                 else (ACCT_OK, w))"

end
