(* ===== verification/Order_Api_Facts.thy ===== *)
theory Order_Api_Facts
  imports Order_Api
begin

text \<open>
  What the calls of the order API do: an accepted order is in the queue and in the pool, a refused
  one changes nothing that others see; caching and sending later is the same as submitting; prices
  in yuan become the right number of cents.
\<close>

section \<open>Reading what was written\<close>

lemma upstream_at_set [simp]:
  "upstream_at u (set_upstream u s w) = s" "pool_at p (set_upstream u s w) = pool_at p w"
  by (simp_all add: upstream_at_def set_upstream_def px_read_def px_update_def pool_at_def)

lemma pool_at_set [simp]:
  "pool_at p (set_pool p pool w) = pool" "upstream_at u (set_pool p pool w) = upstream_at u w"
  by (simp_all add: pool_at_def set_pool_def px_read_def px_update_def upstream_at_def)

lemma at_api_error [simp]:
  "upstream_at u (snd (api_error rc code now w)) = upstream_at u w"
  "pool_at p (snd (api_error rc code now w)) = pool_at p w"
  "fst (api_error rc code now w) = rc"
  by (simp_all add: api_error_def upstream_at_def pool_at_def)

section \<open>Putting an order into the queue\<close>

definition published :: "nat \<Rightarrow> nat \<Rightarrow> OrderRequest \<Rightarrow> order_slot_source_t \<Rightarrow> TimestampNs \<Rightarrow> api_world \<Rightarrow> api_world \<Rightarrow> bool" where
  "published u p req source now w w' \<longleftrightarrow>
     (let index = os_next_index (pool_at p w)
      in \<not> orders_shm_index_exists (pool_at p w) index
        \<and> q_list 18 (qs_queue (upstream_at u w')) = q_list 18 (qs_queue (upstream_at u w)) @ [index]
        \<and> orders_shm_read_snapshot (pool_at p w') index
            = Some \<lparr>ss_request = req, ss_stage = UpstreamQueued, ss_source = source, ss_last_update_ns = now\<rparr>)"

text \<open>The orders that were in the pool read as before.\<close>

definition pool_kept :: "nat \<Rightarrow> api_world \<Rightarrow> api_world \<Rightarrow> bool" where
  "pool_kept p w w' \<longleftrightarrow>
     (\<forall>j. orders_shm_index_exists (pool_at p w) j \<longrightarrow>
        orders_shm_read_snapshot (pool_at p w') j = orders_shm_read_snapshot (pool_at p w) j)"

text \<open>The segments, in which the order was refused for want of room.\<close>

definition count_reject :: "nat \<Rightarrow> orders_segment shm_os \<Rightarrow> orders_segment shm_os" where
  "count_reject p = px_update p (\<lambda>s. s\<lparr>og_pool :=
     (og_pool s)\<lparr>os_full_reject_count := os_full_reject_count (og_pool s) + 1\<rparr>\<rparr>)"

definition marked_failed :: "nat \<Rightarrow> OrderRequest \<Rightarrow> order_slot_source_t \<Rightarrow> TimestampNs \<Rightarrow> api_world \<Rightarrow> api_world \<Rightarrow> bool" where
  "marked_failed p req source now w w' \<longleftrightarrow>
     (let index = os_next_index (pool_at p w)
      in \<not> orders_shm_index_exists (pool_at p w) index \<and> os_next_index (pool_at p w') = index + 1
        \<and> orders_shm_read_snapshot (pool_at p w') index
            = Some \<lparr>ss_request = req, ss_stage = QueuePushFailed, ss_source = source, ss_last_update_ns = now\<rparr>)"

lemma q_list_room: "q_ok k q \<Longrightarrow> length (q_list k q) < 2 ^ k"
  by (erule q_ok_ring) (auto simp: ring_list ring_at_def)

lemma api_error_segments [simp]:
  "aw_queues (snd (api_error rc code now w)) = aw_queues w" "aw_pools (snd (api_error rc code now w)) = aw_pools w"
  by (simp_all add: api_error_def)

lemma set_pool_segments [simp]: "aw_queues (set_pool p pool w) = aw_queues w"
  by (simp add: set_pool_def)

lemma set_pool_reject:
  "aw_pools (set_pool p ((pool_at p w)\<lparr>os_full_reject_count := os_full_reject_count (pool_at p w) + 1\<rparr>) w)
    = count_reject p (aw_pools w)"
  by (simp add: set_pool_def count_reject_def px_update_def pool_at_def px_read_def)

lemma stage_after_write:
  assumes "orders_shm_index_exists shm i" "orders_shm_read_snapshot shm i = Some s"
  shows "orders_shm_read_snapshot (snd (orders_shm_update_stage i stage now shm)) i
      = Some (s\<lparr>ss_stage := stage, ss_last_update_ns := now\<rparr>)
    \<and> os_next_index (snd (orders_shm_update_stage i stage now shm)) = os_next_index shm"
proof -
  have "s = slot_snapshot (os_slots shm i)" using assms by (simp add: read_snapshot_eq split: if_splits)
  then show ?thesis
    by (simp add: slot_write_defs read_after_mutate [OF assms(1)] slot_snapshot_def mutate_header)
qed

lemma enqueue_outcome:
  assumes "ac_upstream c = Some u" "ac_orders c = Some p" and ok: "q_ok 18 (qs_queue (upstream_at u w))"
    and run: "enqueue_order c req source now w = (rc, r, w')"
  shows "pool_kept p w w' \<and>
    (if os_capacity (pool_at p w) \<le> os_next_index (pool_at p w)
     then rc = ACCT_ERR_ORDER_POOL_FULL \<and> aw_queues w' = aw_queues w \<and> aw_pools w' = count_reject p (aw_pools w)
     else if Suc (length (q_list 18 (qs_queue (upstream_at u w)))) < 2 ^ 18
     then rc = ACCT_OK \<and> published u p req source now w w'
       \<and> qs_header (upstream_at u w') = (qs_header (upstream_at u w))\<lparr>sh_last_update := now\<rparr>
     else rc = ACCT_ERR_QUEUE_FULL \<and> aw_queues w' = aw_queues w \<and> marked_failed p req source now w w')"
proof -
  obtain r1 pool where a: "orders_shm_append req UpstreamQueued source now (pool_at p w) = (r1, pool)"
    by fastforce
  note full = append_full [of req UpstreamQueued source now "pool_at p w", unfolded a fst_conv]
  show ?thesis
  proof (cases r1)
    case None
    then have pool: "pool = (pool_at p w)\<lparr>os_full_reject_count := os_full_reject_count (pool_at p w) + 1\<rparr>"
      using append_None a by blast
    have e: "api_error ACCT_ERR_ORDER_POOL_FULL OrderPoolFull now (set_pool p pool w) = (rc, w')"
      using None a run assms(1,2) by (auto simp: enqueue_order_def Let_def split: prod.splits)
    have "rc = ACCT_ERR_ORDER_POOL_FULL" and w': "w' = snd (api_error ACCT_ERR_ORDER_POOL_FULL OrderPoolFull now (set_pool p pool w))"
      using arg_cong [OF e, of fst] arg_cong [OF e, of snd] by simp_all
    then show ?thesis
      using full None by (simp add: pool set_pool_reject pool_kept_def orders_shm_read_snapshot_def orders_shm_index_exists_def)
  next
    case (Some index)
    note ap = append_Some [OF a [unfolded Some]]
    obtain pushed q where q: "try_push kQueueCapacity index (qs_queue (upstream_at u w)) = (pushed, q)"
      by fastforce
    note pl = try_push_list [OF ok q [unfolded kQueueCapacity_pow]]
    show ?thesis
    proof (cases pushed)
      case True
      with Some a q run assms(1,2)
      have "rc = ACCT_OK" and w': "w' = set_upstream u ((upstream_at u w)\<lparr>qs_queue := q,
          qs_header := (qs_header (upstream_at u w))\<lparr>sh_last_update := now\<rparr>\<rparr>) (set_pool p pool w)"
        by (auto simp: enqueue_order_def Let_def)
      then show ?thesis using ap pl True full Some
        by (auto simp add: published_def pool_kept_def Let_def)
    next
      case False
      let ?w = "set_pool p (snd (orders_shm_update_stage index QueuePushFailed now pool)) (set_pool p pool w)"
      from False Some a q run assms(1,2)
      have e: "api_error ACCT_ERR_QUEUE_FULL ErrQueuePushFailed now ?w = (rc, w')"
        by (auto simp: enqueue_order_def Let_def split: prod.splits)
      have rc: "rc = ACCT_ERR_QUEUE_FULL" and w': "w' = snd (api_error ACCT_ERR_QUEUE_FULL ErrQueuePushFailed now ?w)"
        using arg_cong [OF e, of fst] arg_cong [OF e, of snd] by simp_all
      have ex: "orders_shm_index_exists pool index" and rd: "orders_shm_read_snapshot pool index
          = Some \<lparr>ss_request = req, ss_stage = UpstreamQueued, ss_source = source, ss_last_update_ns = now\<rparr>"
        using ap by blast+
      have st: "orders_shm_read_snapshot (snd (orders_shm_update_stage index QueuePushFailed now pool)) index
          = Some \<lparr>ss_request = req, ss_stage = QueuePushFailed, ss_source = source, ss_last_update_ns = now\<rparr>
        \<and> os_next_index (snd (orders_shm_update_stage index QueuePushFailed now pool)) = os_next_index pool"
        using stage_after_write [OF ex rd, of QueuePushFailed now] by simp
      have "j \<noteq> index" if "orders_shm_index_exists (pool_at p w) j" for j using ap that by auto
      then have "pool_kept p w w'" using ap
        by (simp add: w' pool_kept_def slot_write_defs read_other_after_mutate)
      moreover have "marked_failed p req source now w w'"
        using ap st
        by (auto simp: w' marked_failed_def Let_def)
      ultimately show ?thesis using rc pl False full Some by (simp add: w')
    qed
  qed
qed

lemma fetch_order_id_sel [simp]:
  "fst (fetch_order_id u w) = sh_next_order_id (qs_header (upstream_at u w))"
  "sh_next_order_id (qs_header (upstream_at u (snd (fetch_order_id u w))))
     = sh_next_order_id (qs_header (upstream_at u w)) + 1"
  "qs_queue (upstream_at u (snd (fetch_order_id u w))) = qs_queue (upstream_at u w)"
  "pool_at p (snd (fetch_order_id u w)) = pool_at p w"
  by (simp_all add: fetch_order_id_def Let_def)

lemma published_fetch: "published u p req source now (snd (fetch_order_id u w)) w' = published u p req source now w w'"
  by (simp add: published_def Let_def)

lemma marked_failed_fetch: "marked_failed p req source now (snd (fetch_order_id u w)) w' = marked_failed p req source now w w'"
  by (simp add: marked_failed_def Let_def)

lemma pool_kept_fetch: "pool_kept p (snd (fetch_order_id u w)) w' = pool_kept p w w'"
  by (simp add: pool_kept_def)

text \<open>The request a caller's arguments stand for, if they are valid.\<close>

definition request_of :: "order_args \<Rightarrow> u32 \<Rightarrow> MdTime \<Rightarrow> OrderState \<Rightarrow> OrderRequest option" where
  "request_of a ident md_time st =
     (case (oa_security_id a, resolve_passive_execution_algo (oa_exec_options a)) of
        (Some sec, Some algo) \<Rightarrow>
          if oa_side a \<in> {1, 2} \<and> \<not> (oa_market a < 1 \<or> oa_market a > 4) \<and> oa_volume a \<noteq> 0
          then map_option (\<lambda>key. (init_new sec key ident (trade_side_of_u8 (oa_side a)) (market_of_u8 (oa_market a))
                 (oa_volume a) (price_in_cents (oa_price a)) md_time OrderRequest_default)
                 \<lparr>passive_execution_algo := algo, order_state := st\<rparr>)
                 (build_internal_security_id (market_of_u8 (oa_market a)) sec)
          else None
      | _ \<Rightarrow> None)"

lemma build_result:
  assumes "oa_security_id a = Some sec" "resolve_passive_execution_algo (oa_exec_options a) = Some algo"
  shows "build_new_order_request sec (oa_side a) (oa_market a) (oa_volume a) (oa_price a) algo ident md_time now w =
    (case request_of a ident md_time OrderState.NotSet of
       Some req \<Rightarrow> (Inr req, w)
     | None \<Rightarrow> (Inl ACCT_ERR_INVALID_PARAM, snd (api_error ACCT_ERR_INVALID_PARAM InvalidParam now w)))"
  using assms
  by (auto simp: build_new_order_request_def request_of_def api_error_def Let_def init_new_def
      OrderRequest_default_def split: option.split)

lemma request_of_state: "request_of a ident md_time st =
    map_option (\<lambda>r. r\<lparr>order_state := st\<rparr>) (request_of a ident md_time OrderState.NotSet)"
  by (auto simp: request_of_def option.map_comp o_def split: option.split)


section \<open>Submitting an order\<close>

lemma submit_eq:
  assumes "ac_initialized c" "ac_upstream c = Some u"
  shows "acct_submit_order_ex a True md_time now (Some c) w =
    (if oa_security_id a = None \<or> resolve_passive_execution_algo (oa_exec_options a) = None
     then api_fail ACCT_ERR_INVALID_PARAM InvalidParam now (Some c) w
     else case request_of a (sh_next_order_id (qs_header (upstream_at u w))) md_time UserSubmitted of
            None \<Rightarrow> api_fail ACCT_ERR_INVALID_PARAM InvalidParam now (Some c) (snd (fetch_order_id u w))
          | Some req \<Rightarrow>
              let (rc, _, w') = enqueue_order c req User now (snd (fetch_order_id u w))
              in if rc \<noteq> ACCT_OK then (rc, 0, Some c, w')
                 else (ACCT_OK, sh_next_order_id (qs_header (upstream_at u w)), Some c, w'))"
proof (cases "oa_security_id a = None \<or> resolve_passive_execution_algo (oa_exec_options a) = None")
  case False
  then obtain sec algo where sa: "oa_security_id a = Some sec" "resolve_passive_execution_algo (oa_exec_options a) = Some algo"
    by auto
  obtain ident w1 where f: "fetch_order_id u w = (ident, w1)" by fastforce
  then have i: "ident = sh_next_order_id (qs_header (upstream_at u w))"
    using fetch_order_id_sel(1) [of u w] by simp
  note us = request_of_state [of a ident md_time UserSubmitted]
  show ?thesis
  proof (cases "request_of a ident md_time OrderState.NotSet")
    case None
    then show ?thesis
      using assms sa f us unfolding i [symmetric]
      by (simp add: acct_submit_order_ex_def build_result [OF sa] api_fail_def split_beta)
  next
    case (Some req)
    obtain rc r w2 where e: "enqueue_order c (req\<lparr>order_state := UserSubmitted\<rparr>) User now w1 = (rc, r, w2)"
      by (metis prod_cases3)
    show ?thesis
      using assms sa f us Some e unfolding i [symmetric]
      by (simp add: acct_submit_order_ex_def build_result [OF sa])
  qed
qed (use assms in \<open>auto simp: acct_submit_order_ex_def split: option.split\<close>)


lemma api_fail_segments:
  "api_fail rc code now ctx w = (rc', ident, ctx', w') \<Longrightarrow>
   rc' = rc \<and> ident = 0 \<and> ctx' = ctx \<and> aw_queues w' = aw_queues w \<and> aw_pools w' = aw_pools w"
  by (auto simp: api_fail_def api_error_def)

text \<open>The upstream segments after an order id was drawn from one of them.\<close>

definition id_drawn :: "nat \<Rightarrow> OrderIndex queue_segment shm_os \<Rightarrow> OrderIndex queue_segment shm_os" where
  "id_drawn u = px_update u (\<lambda>s. s\<lparr>qs_header :=
     (qs_header s)\<lparr>sh_next_order_id := sh_next_order_id (qs_header s) + 1\<rparr>\<rparr>)"

lemma fetch_segments [simp]:
  "aw_queues (snd (fetch_order_id u w)) = id_drawn u (aw_queues w)" "aw_pools (snd (fetch_order_id u w)) = aw_pools w"
  by (simp_all add: fetch_order_id_def id_drawn_def set_upstream_def upstream_at_def px_read_def px_update_def Let_def)

text \<open>C26: the outcome of a submission through a context with open segments, on every branch.  The
  checks come in this order: a security id must be given, the context must be initialised, the
  algorithm code known; these refusals change no segment.  From then on the call has drawn an
  order id.  Arguments that stand for no request (side, market, volume, security) are answered with
  the parameter error.  A valid order is accepted exactly if the pool has a free slot and the queue
  has room: it gets the drawn id, the request the arguments stand for is the last one in the
  upstream queue, and its slot, which no order had before, reads as exactly that request.  A full pool
  is answered as such and counted in the pool's header.  A full queue is answered as such; the
  order then keeps a slot of the pool, which others can read, marked as a failed push.  No refusal
  changes the queue or hands out an id, and in any case the orders that were in the pool read as
  before.\<close>

theorem submit_order_outcome:
  assumes "ac_upstream c = Some u" "ac_orders c = Some p"
    and ok: "q_ok 18 (qs_queue (upstream_at u w))"
    and run: "acct_submit_order_ex a True md_time now (Some c) w = (rc, ident, ctx, w')"
  shows "ctx = Some c \<and> pool_kept p w w' \<and>
    (if oa_security_id a = None
     then rc = ACCT_ERR_INVALID_PARAM \<and> ident = 0 \<and> aw_queues w' = aw_queues w \<and> aw_pools w' = aw_pools w
     else if \<not> ac_initialized c
     then rc = ACCT_ERR_NOT_INITIALIZED \<and> ident = 0 \<and> aw_queues w' = aw_queues w \<and> aw_pools w' = aw_pools w
     else if resolve_passive_execution_algo (oa_exec_options a) = None
     then rc = ACCT_ERR_INVALID_PARAM \<and> ident = 0 \<and> aw_queues w' = aw_queues w \<and> aw_pools w' = aw_pools w
     else case request_of a (sh_next_order_id (qs_header (upstream_at u w))) md_time UserSubmitted of
         None \<Rightarrow> rc = ACCT_ERR_INVALID_PARAM \<and> ident = 0
           \<and> aw_queues w' = id_drawn u (aw_queues w) \<and> aw_pools w' = aw_pools w
       | Some req \<Rightarrow>
           if os_capacity (pool_at p w) \<le> os_next_index (pool_at p w)
           then rc = ACCT_ERR_ORDER_POOL_FULL \<and> ident = 0
             \<and> aw_queues w' = id_drawn u (aw_queues w) \<and> aw_pools w' = count_reject p (aw_pools w)
           else if length (q_list 18 (qs_queue (upstream_at u w))) + 1 = 2 ^ 18
           then rc = ACCT_ERR_QUEUE_FULL \<and> ident = 0
             \<and> aw_queues w' = id_drawn u (aw_queues w) \<and> marked_failed p req User now w w'
           else rc = ACCT_OK \<and> ident = sh_next_order_id (qs_header (upstream_at u w))
             \<and> internal_order_id req = ident \<and> published u p req User now w w'
             \<and> sh_next_order_id (qs_header (upstream_at u w')) = ident + 1)"
proof -
  let ?id = "sh_next_order_id (qs_header (upstream_at u w))"
  let ?w = "snd (fetch_order_id u w)"
  have kept: "pool_kept p w w'" if "aw_pools w' = aw_pools w" using that by (simp add: pool_kept_def pool_at_def)
  show ?thesis
  proof (cases "ac_initialized c \<and> oa_security_id a \<noteq> None \<and> resolve_passive_execution_algo (oa_exec_options a) \<noteq> None")
    case False
    with run assms(1) have "\<exists>code rc0. api_fail rc0 code now (Some c) w = (rc, ident, ctx, w')
        \<and> rc0 = (if oa_security_id a \<noteq> None \<and> \<not> ac_initialized c then ACCT_ERR_NOT_INITIALIZED else ACCT_ERR_INVALID_PARAM)"
      by (auto simp: acct_submit_order_ex_def split: option.splits if_splits)
    with False kept show ?thesis by (auto dest!: api_fail_segments split: if_splits)
  next
    case True
    then have valid: "ac_initialized c" "oa_security_id a \<noteq> None" "resolve_passive_execution_algo (oa_exec_options a) \<noteq> None"
      by simp_all
    note eq = run [unfolded submit_eq [OF valid(1) assms(1)]]
    show ?thesis
    proof (cases "request_of a ?id md_time UserSubmitted")
      case None
      have "api_fail ACCT_ERR_INVALID_PARAM InvalidParam now (Some c) ?w = (rc, ident, ctx, w')"
        using eq None valid by auto
      from api_fail_segments [OF this] None valid kept show ?thesis by (simp only: if_False option.case not_True_eq_False) simp
    next
      case (Some req)
      have id: "internal_order_id req = ?id"
        using Some by (auto simp: request_of_def init_new_def split: option.splits if_splits)
      obtain rc1 r w1 where e: "enqueue_order c req User now ?w = (rc1, r, w1)" by (metis prod_cases3)
      have r: "rc = rc1 \<and> w' = w1 \<and> ctx = Some c \<and> ident = (if rc1 = ACCT_OK then ?id else 0)"
        using eq Some valid e by (auto split: if_splits)
      have len: "length (q_list 18 (qs_queue (upstream_at u w))) < 2 ^ 18" by (rule q_list_room [OF ok])
      show ?thesis
        using enqueue_outcome [OF assms(1,2) _ e] ok len r Some id valid
        by (auto simp: published_fetch pool_kept_fetch marked_failed_fetch split: if_splits)
    qed
  qed
qed

lemma update_delete_fresh:
  "i \<notin> fst ` set xs \<Longrightarrow> AList.delete i (AList.update i a (AList.update i b xs)) = xs"
  by (induction xs) (auto simp: AList.delete_eq)

text \<open>C27: caching an order and sending it is submitting it.  For the same arguments, and while the
  cache has room and no entry under the next id, the two ways fail alike or leave the same world, the
  same result and, if the order went out, the same context.\<close>

theorem new_then_send_is_submit:
  assumes "ac_initialized c" "ac_upstream c = Some u"
    and room: "length (ac_cached_orders c) < kMaxCachedOrders"
    and free: "sh_next_order_id (qs_header (upstream_at u w)) \<notin> fst ` set (ac_cached_orders c)"
    and new: "acct_new_order_ex a True md_time now (Some c) w = (rc1, ident, ctx1, w1)"
    and send: "acct_send_order ident now ctx1 w1 = (rc2, ctx2, w2)"
  shows "if rc1 \<noteq> ACCT_OK then acct_submit_order_ex a True md_time now (Some c) w = (rc1, 0, Some c, w1)
    else acct_submit_order_ex a True md_time now (Some c) w
           = (rc2, if rc2 = ACCT_OK then ident else 0, Some c, w2)
      \<and> (rc2 = ACCT_OK \<longrightarrow> ctx2 = Some c)"
proof -
  let ?id = "sh_next_order_id (qs_header (upstream_at u w))"
  obtain w0 where f: "fetch_order_id u w = (?id, w0)"
    using fetch_order_id_sel(1) [of u w] by (cases "fetch_order_id u w") simp
  note sub = submit_eq [OF assms(1,2), of a md_time now w]
  show ?thesis
  proof (cases "oa_security_id a = None \<or> resolve_passive_execution_algo (oa_exec_options a) = None")
    case True
    then show ?thesis using new sub assms(1,2) room
      by (auto simp: acct_new_order_ex_def api_fail_def api_error_def split: option.splits)
  next
    case False
    then obtain sec algo where sa: "oa_security_id a = Some sec" "resolve_passive_execution_algo (oa_exec_options a) = Some algo"
      by auto
    note st = request_of_state [of a ?id md_time UserSubmitted]
    show ?thesis
    proof (cases "request_of a ?id md_time OrderState.NotSet")
      case None
      then show ?thesis using new sub assms(1,2) room sa f st
        by (auto simp: acct_new_order_ex_def build_result [OF sa] api_fail_def api_error_def)
    next
      case (Some req)
      then have n: "order_state req = OrderState.NotSet"
        by (auto simp: request_of_def split: option.splits if_splits)
      let ?c = "c\<lparr>ac_cached_orders := AList.update ?id (req\<lparr>order_state := OrderState.NotSet\<rparr>) (ac_cached_orders c)\<rparr>"
      have new': "rc1 = ACCT_OK" "ident = ?id" "ctx1 = Some ?c" "w1 = w0"
        using new assms(1,2) room sa f Some by (auto simp add: acct_new_order_ex_def build_result [OF sa])
      let ?c2 = "?c\<lparr>ac_cached_orders := AList.update ?id (req\<lparr>order_state := UserSubmitted\<rparr>) (ac_cached_orders ?c)\<rparr>"
      obtain rc r w3 where e: "enqueue_order c (req\<lparr>order_state := UserSubmitted\<rparr>) User now w0 = (rc, r, w3)"
        by (metis prod_cases3)
      then have e2: "enqueue_order ?c2 (req\<lparr>order_state := UserSubmitted\<rparr>) User now w0 = (rc, r, w3)"
        by (simp add: enqueue_order_def)
      show ?thesis
        using send new' e e2 sub sa f st Some assms(1) update_delete_fresh [OF free]
        by (auto simp: acct_send_order_def update_conv' split: if_splits)
    qed
  qed
qed


section \<open>A client at work\<close>

definition init_example :: init_input where
  "init_example = \<lparr>in_env_day = Some ''20260105'', in_upstream_bytes = 4096, in_orders_bytes = 8192, in_memory = True,
     in_file_backend = False, in_upstream_faults = no_faults, in_upstream_faults2 = no_faults,
     in_orders_faults = no_faults, in_orders_faults2 = no_faults, in_now = 50\<rparr>"

definition api_world_empty :: api_world where
  "api_world_empty = \<lparr>aw_queues = se_os (empty_env (queue_segment_zero 0)),
     aw_pools = se_os (empty_env orders_segment_zero), aw_errors = error_state_init\<rparr>"

text \<open>A client that has opened both segments, and the world it finds.\<close>

definition api_ctx :: acct_context where
  "api_ctx = acct_context_new\<lparr>ac_upstream := Some 0, ac_orders := Some 0, ac_initialized := True\<rparr>"

definition api_world_open :: api_world where
  "api_world_open = set_upstream 0 ((queue_segment_zero 0)\<lparr>qs_header := init_header 50 (qs_header (queue_segment_zero (0 :: OrderIndex)))\<rparr>)
     (set_pool 0 (orders_shm_new kDailyOrderPoolCapacity) api_world_empty)"

definition args_example :: order_args where
  "args_example = \<lparr>oa_security_id = Some ''000001'', oa_side = 1, oa_market = 1, oa_volume = 100,
     oa_price = (21, 1), oa_exec_options = None\<rparr>"

lemma api_example:
  "ac_initialized api_ctx" "ac_upstream api_ctx = Some 0" "ac_orders api_ctx = Some 0"
  "ac_cached_orders api_ctx = []"
  "q_head (qs_queue (upstream_at 0 api_world_open)) = 0" "q_tail (qs_queue (upstream_at 0 api_world_open)) = 0"
  "sh_next_order_id (qs_header (upstream_at 0 api_world_open)) = 1"
  by (simp_all add: api_ctx_def acct_context_new_def api_world_open_def queue_segment_zero_def init_header_def)

lemma api_example_queue: "q_ok 18 (qs_queue (upstream_at 0 api_world_open))"
proof -
  have "queue_init (qs_queue (upstream_at 0 api_world_open)) = qs_queue (upstream_at 0 api_world_open)"
    using api_example(5,6) by (simp add: queue_init_def)
  with queue_init_list [of 18 "qs_queue (upstream_at 0 api_world_open)"] show ?thesis by simp
qed

lemma request_example:
  "(case request_of args_example 1 93000000 UserSubmitted of None \<Rightarrow> False
    | Some req \<Rightarrow> dprice_entrust req = 1050 \<and> internal_security_id req = ''XSHE_000001'' \<and> internal_order_id req = 1)"
  by code_simp

lemma submit_order_outcome_witness:
  "\<exists>req w. acct_submit_order_ex args_example True 93000000 60 (Some api_ctx) api_world_open = (ACCT_OK, 1, Some api_ctx, w)
     \<and> published 0 0 req User 60 api_world_open w \<and> dprice_entrust req = 1050"
proof -
  let ?r = "acct_submit_order_ex args_example True 93000000 60 (Some api_ctx) api_world_open"
  have "fst ?r = ACCT_OK" by code_simp
  then have r: "?r = (ACCT_OK, fst (snd ?r), fst (snd (snd ?r)), snd (snd (snd ?r)))"
    by (simp add: prod_eq_iff)
  obtain req where req: "request_of args_example 1 93000000 UserSubmitted = Some req" "dprice_entrust req = 1050"
      "internal_order_id req = 1" using request_example by (auto split: option.splits)
  have valid: "oa_security_id args_example \<noteq> None" "resolve_passive_execution_algo (oa_exec_options args_example) \<noteq> None"
    by code_simp+
  from submit_order_outcome [OF api_example(2,3) api_example_queue r] \<open>fst ?r = ACCT_OK\<close> valid req(1)
  have "fst (snd ?r) = 1 \<and> fst (snd (snd ?r)) = Some api_ctx
      \<and> published 0 0 req User 60 api_world_open (snd (snd (snd ?r)))"
    by (simp add: api_example(1,7) split: if_splits)
  with req(2) r \<open>fst ?r = ACCT_OK\<close> show ?thesis
    by (intro exI [of _ req] exI [of _ "snd (snd (snd ?r))"]) (simp add: prod_eq_iff)
qed

lemma new_then_send_is_submit_witness:
  "let (rc1, ident, ctx1, w1) = acct_new_order_ex args_example True 93000000 60 (Some api_ctx) api_world_open;
       (rc2, ctx2, w2) = acct_send_order ident 60 ctx1 w1
   in rc1 = ACCT_OK \<and> rc2 = ACCT_OK
     \<and> acct_submit_order_ex args_example True 93000000 60 (Some api_ctx) api_world_open = (ACCT_OK, 1, Some api_ctx, w2)"
proof -
  let ?n = "acct_new_order_ex args_example True 93000000 60 (Some api_ctx) api_world_open"
  let ?s = "acct_send_order (fst (snd ?n)) 60 (fst (snd (snd ?n))) (snd (snd (snd ?n)))"
  have c: "fst ?n = ACCT_OK" "fst (snd ?n) = 1" "fst ?s = ACCT_OK" by code_simp+
  have n: "?n = (fst ?n, fst (snd ?n), fst (snd (snd ?n)), snd (snd (snd ?n)))"
    and s: "?s = (fst ?s, fst (snd ?s), snd (snd ?s))" by simp_all
  from new_then_send_is_submit [OF api_example(1,2) _ _ n s] c
  show ?thesis by (simp add: api_example kMaxCachedOrders_def split_beta)
qed

text \<open>
  Creating a segment takes two steps, and the second one fills in the header.  A client that comes
  between them finds a wrong header, takes the segment for a broken one, removes its name and
  creates another: the service and the client then work on different segments.
\<close>

lemma creation_race_splits_segments:
  "let (mapped, m, env) = open_impl (queue_segment_zero 0) kUpstreamOrderShmName 4096 ModeOpenOrCreate False no_faults 40
         (SHMManager_new, empty_env (queue_segment_zero 0));
       w = api_world_empty\<lparr>aw_queues := se_os env\<rparr>;
       (rc, ctx, w) = acct_init init_example True w;
       w = w\<lparr>aw_queues := px_update (the mapped) (\<lambda>s. s\<lparr>qs_header := init_header 60 (qs_header s)\<rparr>) (aw_queues w)\<rparr>
   in mapped = Some 0 \<and> rc = ACCT_OK \<and> map_option ac_upstream ctx = Some (Some 1)
     \<and> px_names (aw_queues w) kUpstreamOrderShmName = Some 1
     \<and> header_complaint (qs_header (upstream_at 0 w)) = None"
  by code_simp

text \<open>Each failed attempt to send a cached order takes another slot of the day's pool.\<close>

definition full_queue_world :: api_world where
  "full_queue_world = set_upstream 0 ((upstream_at 0 api_world_open)\<lparr>qs_queue :=
     (qs_queue (upstream_at 0 api_world_open))\<lparr>q_head := kQueueCapacity - 1\<rparr>\<rparr>) api_world_open"

lemma resend_takes_slots:
  "let (_, ident, ctx, w) = acct_new_order_ex args_example True 93000000 60 (Some api_ctx) full_queue_world;
       (rc1, ctx, w) = acct_send_order ident 61 ctx w;
       (rc2, ctx, w) = acct_send_order ident 62 ctx w
   in rc1 = ACCT_ERR_QUEUE_FULL \<and> rc2 = ACCT_ERR_QUEUE_FULL \<and> os_next_index (pool_at 0 w) = 2"
  by code_simp

end
