(* ===== verification/Price_Facts.thy ===== *)
theory Price_Facts
  imports Complex_Main Order_Api
begin

text \<open>
  The conversion of a price in yuan to cents, in double precision: the error of each rounding is
  bounded, and together they stay below half a cent.
\<close>

section \<open>The error of a rounding\<close>

definition double_value :: "double \<Rightarrow> real" where
  "double_value = (\<lambda>(m, k). of_int m / 2 ^ k)"

lemma double_value_pair [simp]: "double_value (m, k) = of_int m / 2 ^ k"
  by (simp add: double_value_def)

lemma round_shift_error:
  fixes m :: int and s :: nat
  assumes "0 < s"
  defines "q \<equiv> m div 2 ^ s" and "r \<equiv> m mod 2 ^ s" and "half \<equiv> (2 :: int) ^ (s - 1)"
  shows "\<bar>(if r > half \<or> r = half \<and> odd q then q + 1 else q) * 2 ^ s - m\<bar> \<le> half"
proof -
  have h: "(2 :: int) ^ s = 2 * half" using assms(1) by (cases s) (simp_all add: half_def)
  have "m = q * 2 ^ s + r" unfolding q_def r_def by (rule div_mult_mod_eq [symmetric])
  moreover have "0 \<le> r" "r < 2 * half" unfolding r_def h [symmetric] by simp_all
  moreover have "(q + 1) * 2 ^ s = q * 2 ^ s + 2 * half" by (simp add: h algebra_simps)
  ultimately show ?thesis by (auto split: if_splits)
qed

lemma round53_error:
  assumes "0 \<le> m"
  shows "\<bar>double_value (round53 (m, k)) - double_value (m, k)\<bar> \<le> double_value (m, k) / 2 ^ 53
    \<and> 0 \<le> fst (round53 (m, k))"
proof (cases "bit_length m - 53 = 0")
  case True
  with assms show ?thesis by (simp add: round53_def Let_def)
next
  case False
  define s where "s = bit_length m - 53"
  have s: "0 < s" "bit_length m = s + 53" using False by (simp_all add: s_def)
  then have "0 < m" using assms by (cases "m = 0") (simp_all add: bit_length.simps)
  define q where "q = m div 2 ^ s"
  define h where "h = (2 :: int) ^ (s - 1)"
  define q' where "q' = (if m mod 2 ^ s > h \<or> m mod 2 ^ s = h \<and> odd q then q + 1 else q)"
  have "\<bar>q' * 2 ^ s - m\<bar> \<le> h"
    unfolding q'_def q_def h_def by (rule round_shift_error [OF s(1)])
  moreover have "h * 2 ^ 53 \<le> m"
  proof -
    have "h * 2 ^ 53 = 2 ^ (s + 52)" using s(1) by (cases s) (simp_all add: h_def power_add)
    also have "\<dots> \<le> m" using bit_length_bounds [OF \<open>0 < m\<close>] s(2) by (simp add: add.commute)
    finally show ?thesis .
  qed
  moreover have "\<bar>q' * 2 ^ s - m\<bar> * 2 ^ 53 \<le> h * 2 ^ 53" if "\<bar>q' * 2 ^ s - m\<bar> \<le> h"
    using that by (rule mult_right_mono) simp
  ultimately have "\<bar>q' * 2 ^ s - m\<bar> * 2 ^ 53 \<le> m" by (blast intro: order_trans)
  then have "real_of_int (\<bar>q' * 2 ^ s - m\<bar> * 2 ^ 53) \<le> of_int m" by linarith
  then have e: "\<bar>of_int q' * 2 ^ s - real_of_int m\<bar> \<le> of_int m / 2 ^ 53" by (simp add: field_simps)
  have R: "round53 (m, k) = (if s \<le> k then (q', k - s) else (q' * 2 ^ (s - k), 0))"
    unfolding round53_def Let_def prod.case s_def [symmetric] q_def [symmetric] h_def [symmetric] q'_def [symmetric]
    using s(1) by simp
  have v: "double_value (round53 (m, k)) = of_int q' * 2 ^ s / 2 ^ k"
  proof (cases "s \<le> k")
    case True
    then have "(2 :: real) ^ k = 2 ^ (k - s) * 2 ^ s" by (simp flip: power_add)
    with True show ?thesis by (simp add: R)
  next
    case False
    then have "(2 :: real) ^ s = 2 ^ (s - k) * 2 ^ k" by (simp flip: power_add)
    with False show ?thesis by (simp add: R)
  qed
  have "double_value (round53 (m, k)) - double_value (m, k) = (of_int q' * 2 ^ s - of_int m) / 2 ^ k"
    by (simp add: v diff_divide_distrib)
  then have "\<bar>double_value (round53 (m, k)) - double_value (m, k)\<bar> = \<bar>of_int q' * 2 ^ s - of_int m\<bar> / 2 ^ k"
    by simp
  also have "\<dots> \<le> of_int m / 2 ^ 53 / 2 ^ k" by (rule divide_right_mono [OF e]) simp
  finally have "\<bar>double_value (round53 (m, k)) - double_value (m, k)\<bar> \<le> double_value (m, k) / 2 ^ 53"
    by (simp add: field_simps)
  moreover have "0 \<le> q'" using assms by (simp add: q'_def q_def pos_imp_zdiv_nonneg_iff)
  then have "0 \<le> fst (round53 (m, k))" by (simp add: R)
  ultimately show ?thesis by simp
qed


section \<open>Yuan to cents\<close>

text \<open>C28: a price that is within a quarter of a cent of a whole number of cents below 2 to the 49th is
  converted to that number: neither of the two roundings of the conversion, nor the truncation,
  ever moves such a price to a neighbouring cent.\<close>

theorem price_in_cents_exact:
  assumes "0 \<le> m" and "cents < 2 ^ 49"
    and near: "\<bar>100 * m - int cents * 2 ^ k\<bar> * 4 < 2 ^ k"
  shows "unat (price_in_cents (m, k)) = cents"
proof -
  let ?v = "100 * double_value (m, k)"
  define x where "x = double_mult (m, k) (100, 0)"
  define y where "y = double_add_half x"
  have "real_of_int (\<bar>100 * m - int cents * 2 ^ k\<bar> * 4) < of_int (2 ^ k)" using near by linarith
  then have "\<bar>100 * of_int m - real cents * 2 ^ k\<bar> * 4 < 2 ^ k" by simp
  moreover have "?v - real cents = (100 * of_int m - real cents * 2 ^ k) / 2 ^ k"
    by (simp add: field_simps)
  ultimately have v: "\<bar>?v - real cents\<bar> < 1 / 4" by (simp add: field_simps)
  have "real (cents + 1) \<le> real (2 ^ 49)" using assms(2) by (simp only: of_nat_le_iff)
  then have c: "real cents + 1 \<le> 2 ^ 49" by simp
  have e1: "\<bar>double_value x - ?v\<bar> \<le> ?v / 2 ^ 53" and x0: "0 \<le> fst x"
    using round53_error [of "m * 100" k] assms(1) by (simp_all add: x_def double_mult_def mult.commute)
  have "?v / 2 ^ 53 \<le> 2 ^ 49 / 2 ^ 53"
    by (rule divide_right_mono) (use v c in \<open>linarith, simp\<close>)
  with e1 have "\<bar>double_value x - ?v\<bar> \<le> 2 ^ 49 / 2 ^ 53" by (rule order_trans)
  then have x: "\<bar>double_value x - ?v\<bar> \<le> 1 / 16" by simp
  obtain mx kx where xp: "x = (mx, kx)" by fastforce
  have s: "double_value (2 * mx + 2 ^ kx, kx + 1) = double_value x + 1 / 2"
    by (simp add: xp field_simps)
  have e2: "\<bar>double_value y - (double_value x + 1 / 2)\<bar> \<le> (double_value x + 1 / 2) / 2 ^ 53"
    using round53_error [of "2 * mx + 2 ^ kx" "kx + 1"] x0 s
    by (simp_all add: y_def double_add_half_def xp)
  have "(double_value x + 1 / 2) / 2 ^ 53 \<le> (2 ^ 49 + 1) / 2 ^ 53"
    by (rule divide_right_mono) (use v c x in \<open>linarith, simp\<close>)
  with e2 have "\<bar>double_value y - (double_value x + 1 / 2)\<bar> \<le> (2 ^ 49 + 1) / 2 ^ 53" by (rule order_trans)
  then have "\<bar>double_value y - (double_value x + 1 / 2)\<bar> \<le> 1 / 8" by simp
  then have y: "real cents < double_value y" "double_value y < real cents + 1"
    using v x by linarith+
  obtain my ky where yp: "y = (my, ky)" by fastforce
  have "my div 2 ^ ky = \<lfloor>real_of_int my / of_int (2 ^ ky)\<rfloor>" by (rule floor_divide_of_int_eq [symmetric])
  also have "\<dots> = int cents" using y by (intro floor_unique) (simp_all add: yp)
  finally have "price_in_cents (m, k) = of_nat cents"
    by (simp add: price_in_cents_def x_def [symmetric] y_def [symmetric] u64_of_double_def yp)
  moreover have "cents < 2 ^ 64" using assms(2) by simp
  ultimately show ?thesis by (simp add: unsigned_of_nat take_bit_nat_eq_self)
qed

lemma price_in_cents_exact_witness:
  "unat (price_in_cents (5775866522102661, 49)) = 1026"
  by (rule price_in_cents_exact) simp_all

end
