(* ===== verification/Position_Loader.thy ===== *)
theory Position_Loader
  imports Shm_Manager Config_Manager
begin

text \<open>
  \<^verbatim>\<open>src/portfolio/position_loader.cpp\<close> and \<open>initialize\<close> of \<^verbatim>\<open>src/portfolio/position_manager.cpp\<close>:
  how the position table is filled on a fresh segment, from a CSV file or from a database, and
  taken over from an initialised one after a restart.

  The text of a file is an argument, \<open>None\<close> if it cannot be opened.  SQLite is third party: an
  opened database is the outcome of the two queries, and a query is the values of its rows and
  whether the last step answered \<open>SQLITE_DONE\<close>.
\<close>

section \<open>Values\<close>

text \<open>
  \<open>std::stoull\<close> in base ten: spaces and a sign may come first, what follows the digits is ignored,
  and a negative number is taken modulo \<open>2 ^ 64\<close>.  \<open>None\<close>: it throws.
\<close>

definition stoull :: "string \<Rightarrow> u64 option" where
  "stoull s =
     (let s = dropWhile is_space s;
          (negative, s) = (case s of c # rest \<Rightarrow> if c = CHR ''-'' then (True, rest)
                                                 else if c = CHR ''+'' then (False, rest) else (False, s)
                           | [] \<Rightarrow> (False, []))
      in case from_chars_nat s of
           None \<Rightarrow> None
         | Some (v, _) \<Rightarrow> if int v \<ge> 2 ^ 64 then None
                         else Some (if negative then - of_nat v else of_nat v))"

definition parse_u64_field :: "string \<Rightarrow> u64 option" where
  "parse_u64_field text = stoull (trim_copy text)"

fun split_at_char :: "char \<Rightarrow> string \<Rightarrow> string list" where
  "split_at_char d [] = [[]]"
| "split_at_char d (c # cs) =
     (if c = d then [] # split_at_char d cs
      else case split_at_char d cs of column # columns \<Rightarrow> (c # column) # columns | [] \<Rightarrow> [[c]])"

definition split_csv_columns :: "string \<Rightarrow> string list" where
  "split_csv_columns line = map trim_copy (split_at_char CHR '','' line)"

section \<open>One row\<close>

text \<open>The numbers of a row, in the order of both sources.\<close>

record seed_numbers =
  sd_available_t0 :: u64
  sd_available_t1 :: u64
  sd_buy :: u64
  sd_dvalue_buy :: u64
  sd_buy_traded :: u64
  sd_dvalue_buy_traded :: u64
  sd_sell :: u64
  sd_dvalue_sell :: u64
  sd_sell_traded :: u64
  sd_dvalue_sell_traded :: u64
  sd_count_order :: u64

definition store_seed :: "seed_numbers \<Rightarrow> position \<Rightarrow> position" where
  "store_seed n pos = pos\<lparr>volume_available_t0 := sd_available_t0 n, volume_available_t1 := sd_available_t1 n,
     volume_buy := sd_buy n, dvalue_buy := sd_dvalue_buy n, volume_buy_traded := sd_buy_traded n,
     dvalue_buy_traded := sd_dvalue_buy_traded n, volume_sell := sd_sell n, dvalue_sell := sd_dvalue_sell n,
     volume_sell_traded := sd_sell_traded n, dvalue_sell_traded := sd_dvalue_sell_traded n,
     count_order := sd_count_order n\<rparr>"

fun numbers_of :: "u64 list \<Rightarrow> seed_numbers option" where
  "numbers_of [t0, t1, b, db, bt, dbt, s, ds, st, dst, n] =
     Some \<lparr>sd_available_t0 = t0, sd_available_t1 = t1, sd_buy = b, sd_dvalue_buy = db, sd_buy_traded = bt,
       sd_dvalue_buy_traded = dbt, sd_sell = s, sd_dvalue_sell = ds, sd_sell_traded = st,
       sd_dvalue_sell_traded = dst, sd_count_order = n\<rparr>"
| "numbers_of _ = None"

fun all_some :: "'a option list \<Rightarrow> 'a list option" where
  "all_some [] = Some []"
| "all_some (None # xs) = None"
| "all_some (Some x # xs) = map_option (\<lambda>ys. x # ys) (all_some xs)"

text \<open>
  The common end of \<open>apply_position_seed_row\<close> and \<open>apply_position_db_row\<close>: the security is added,
  unless it is there, and the numbers are stored in its row.
\<close>

definition apply_seed ::
    "string \<Rightarrow> string \<Rightarrow> seed_numbers \<Rightarrow> TimestampNs \<Rightarrow> PositionManager \<Rightarrow> bool \<times> PositionManager" where
  "apply_seed internal_id name numbers now pm =
     (case parse_internal_security_id internal_id of
        None \<Rightarrow> (False, pm)
      | Some (mkt, code) \<Rightarrow>
          (case normalize_internal_security_id internal_id of
             None \<Rightarrow> (False, pm)
           | Some normalized_id \<Rightarrow>
               let position_name = (if name = [] then normalized_id else name);
                   (added, pm) = add_security code position_name mkt now pm
               in if added = [] \<or> added \<noteq> normalized_id then (False, pm)
                  else case position_row added pm of
                    None \<Rightarrow> (False, pm)
                  | Some (i, shm, pos) \<Rightarrow>
                      (True, pm\<lparr>pm_shm := Some (shm\<lparr>ps_positions :=
                         (ps_positions shm)(i := store_seed numbers pos)\<rparr>)\<rparr>)))"

definition apply_position_seed_row :: "string list \<Rightarrow> TimestampNs \<Rightarrow> PositionManager \<Rightarrow> bool \<times> PositionManager" where
  "apply_position_seed_row columns now pm =
     (if length columns < 14 then (False, pm)
      else case parse_internal_security_id (columns ! 1) of
        None \<Rightarrow> (False, pm)
      | Some _ \<Rightarrow>
          (case all_some (map parse_u64_field (take 11 (drop 3 columns))) of
             None \<Rightarrow> (False, pm)
           | Some values \<Rightarrow>
               (case numbers_of values of
                  None \<Rightarrow> (False, pm)
                | Some numbers \<Rightarrow> apply_seed (columns ! 1) (columns ! 2) numbers now pm)))"

section \<open>The CSV file\<close>

text \<open>\<open>std::getline\<close>: what follows the last newline is a line, unless it is empty.\<close>

definition lines_of :: "string \<Rightarrow> string list" where
  "lines_of text =
     (let ls = split_at_char CHR 0x0A text in if last ls = [] then butlast ls else ls)"

definition strip_comment :: "string \<Rightarrow> string" where
  "strip_comment line = trim_copy (takeWhile (\<lambda>c. c \<noteq> CHR ''#'') line)"

fun load_csv_lines :: "string list \<Rightarrow> TimestampNs \<Rightarrow> PositionManager \<Rightarrow> bool \<times> PositionManager" where
  "load_csv_lines [] now pm = (True, pm)"
| "load_csv_lines (line # ls) now pm =
     (let line = strip_comment line
      in if line = [] then load_csv_lines ls now pm
         else let columns = split_csv_columns line;
                  record_type = map to_lower (hd columns)
              in if record_type = ''record_type'' then load_csv_lines ls now pm
                 else if record_type \<noteq> ''position'' then (False, pm)
                 else case apply_position_seed_row columns now pm of
                        (False, pm) \<Rightarrow> (False, pm)
                      | (True, pm) \<Rightarrow> load_csv_lines ls now pm)"

definition load_positions_csv_if_exists ::
    "(string \<Rightarrow> string option) \<Rightarrow> string \<Rightarrow> TimestampNs \<Rightarrow> PositionManager \<Rightarrow> bool \<times> PositionManager" where
  "load_positions_csv_if_exists files path now pm =
     (if path = [] then (True, pm)
      else case files path of
        None \<Rightarrow> (True, pm)
      | Some text \<Rightarrow> load_csv_lines (lines_of text) now pm)"

section \<open>The database\<close>

datatype db_value = DbText string | DbInteger int | DbOther

text \<open>\<open>None\<close>: the statement could not be prepared or bound.  Otherwise the rows, and whether they were all.\<close>

type_synonym db_query = "(db_value list list \<times> bool) option"

record sqlite_db =
  db_account_info :: "AccountId \<Rightarrow> db_query"
  db_positions :: db_query

definition read_required_text :: "db_value \<Rightarrow> string option" where
  "read_required_text v = (case v of DbText s \<Rightarrow> Some s | _ \<Rightarrow> None)"

definition read_required_u64 :: "db_value \<Rightarrow> u64 option" where
  "read_required_u64 v = (case v of DbInteger i \<Rightarrow> if i < 0 then None else Some (of_int i) | _ \<Rightarrow> None)"

definition load_fund_from_db :: "sqlite_db \<Rightarrow> AccountId \<Rightarrow> fund_info option" where
  "load_fund_from_db db account_id =
     (case db_account_info db account_id of
        None \<Rightarrow> None
      | Some ([], _) \<Rightarrow> None
      | Some (row # _, _) \<Rightarrow>
          (case map read_required_u64 (take 4 row) of
             [Some total_asset, Some available, Some frozen, Some market_value] \<Rightarrow>
               Some \<lparr>fi_total_asset = total_asset, fi_available = available, fi_frozen = frozen,
                     fi_market_value = market_value\<rparr>
           | _ \<Rightarrow> None))"

definition apply_position_db_row :: "db_value list \<Rightarrow> TimestampNs \<Rightarrow> PositionManager \<Rightarrow> bool \<times> PositionManager" where
  "apply_position_db_row row now pm =
     (case row of
        security_text # internal_text # numbers \<Rightarrow>
          (case (read_required_text security_text, read_required_text internal_text,
                 all_some (map read_required_u64 (take 11 numbers))) of
             (Some _, Some internal_id, Some values) \<Rightarrow>
               (case numbers_of values of
                  None \<Rightarrow> (False, pm)
                | Some numbers \<Rightarrow> apply_seed internal_id [] numbers now pm)
           | _ \<Rightarrow> (False, pm))
      | _ \<Rightarrow> (False, pm))"

fun load_db_rows :: "db_value list list \<Rightarrow> bool \<Rightarrow> TimestampNs \<Rightarrow> PositionManager \<Rightarrow> bool \<times> PositionManager" where
  "load_db_rows [] complete now pm = (complete, pm)"
| "load_db_rows (row # rows) complete now pm =
     (case apply_position_db_row row now pm of
        (False, pm) \<Rightarrow> (False, pm)
      | (True, pm) \<Rightarrow> load_db_rows rows complete now pm)"

definition load_positions_from_db :: "sqlite_db \<Rightarrow> TimestampNs \<Rightarrow> PositionManager \<Rightarrow> bool \<times> PositionManager" where
  "load_positions_from_db db now pm =
     (case db_positions db of
        None \<Rightarrow> (False, pm)
      | Some (rows, complete) \<Rightarrow> load_db_rows rows complete now pm)"

text \<open>What the loader reads from outside: the files, and the databases that can be opened.\<close>

record load_sources =
  ls_files :: "string \<Rightarrow> string option"
  ls_databases :: "string \<Rightarrow> sqlite_db option"

datatype loader_source = FileSource string | DbSource string

definition loader_from_file :: "load_sources \<Rightarrow> string \<Rightarrow> TimestampNs \<Rightarrow> PositionManager \<Rightarrow> bool \<times> PositionManager" where
  "loader_from_file sources path now pm =
     (if path = [] then (True, pm)
      else load_positions_csv_if_exists (ls_files sources) (path @ ''.positions.csv'') now pm)"

definition loader_from_db ::
    "load_sources \<Rightarrow> string \<Rightarrow> AccountId \<Rightarrow> TimestampNs \<Rightarrow> PositionManager \<Rightarrow> bool \<times> PositionManager" where
  "loader_from_db sources path account_id now pm =
     (if path = [] then (False, pm)
      else case ls_databases sources path of
        None \<Rightarrow> (False, pm)
      | Some db \<Rightarrow>
          (case load_fund_from_db db account_id of
             None \<Rightarrow> (False, pm)
           | Some fund \<Rightarrow>
               (case overwrite_fund_info fund now pm of
                  (False, pm) \<Rightarrow> (False, pm)
                | (True, pm) \<Rightarrow> load_positions_from_db db now pm)))"

definition loader_load ::
    "load_sources \<Rightarrow> loader_source \<Rightarrow> AccountId \<Rightarrow> TimestampNs \<Rightarrow> PositionManager \<Rightarrow> bool \<times> PositionManager" where
  "loader_load sources source account_id now pm =
     (case source of
        FileSource path \<Rightarrow> loader_from_file sources path now pm
      | DbSource path \<Rightarrow> loader_from_db sources path account_id now pm)"


section \<open>Initialisation\<close>

definition PositionManager_new ::
    "positions_shm_layout option \<Rightarrow> string \<Rightarrow> string \<Rightarrow> bool \<Rightarrow> PositionManager" where
  "PositionManager_new shm file db enabled = \<lparr>pm_shm = shm, security_to_row = Map.empty,
     config_file_path = file, db_path = db, db_enabled = enabled\<rparr>"

text \<open>\<open>bytes\<close> is \<open>sizeof(positions_shm_layout)\<close>.\<close>

definition header_compatible :: "nat \<Rightarrow> PositionsHeader \<Rightarrow> bool" where
  "header_compatible bytes header =
     (if ph_magic header \<noteq> kPositionsMagic \<or> ph_version header \<noteq> kPositionsVersion then False
      else if ph_header_size header \<noteq> kPositionsHeaderSize then False
      else if ph_total_size header \<noteq> of_nat bytes then False
      else if ph_capacity header \<noteq> of_nat kMaxPositions then False
      else True)"

definition report_portfolio_error :: "ErrorCode \<Rightarrow> string \<Rightarrow> TimestampNs \<Rightarrow> error_state \<Rightarrow> error_state" where
  "report_portfolio_error code message now =
     record_error (make_error_status D_portfolio code ''PositionManager'' [] 0 message 0 now)"

text \<open>What a fresh segment is set to before the loader runs.\<close>

definition bootstrap_segment :: "nat \<Rightarrow> TimestampNs \<Rightarrow> positions_shm_layout \<Rightarrow> positions_shm_layout" where
  "bootstrap_segment bytes now shm =
     (let cleared = (\<lambda>i. if i < kMaxPositions then clear_position (ps_positions shm i) else ps_positions shm i)
      in shm\<lparr>ps_header := (ps_header shm)\<lparr>ph_magic := kPositionsMagic, ph_version := kPositionsVersion,
             ph_header_size := kPositionsHeaderSize, ph_total_size := of_nat bytes,
             ph_capacity := of_nat kMaxPositions, ph_init_state := 0, ph_create_time := now,
             ph_last_update := now\<rparr>,
           ps_position_count := 0,
           ps_positions := cleared(kFundPositionIndex :=
             set_default_fund (ensure_fund_identity (cleared kFundPositionIndex)))\<rparr>)"

text \<open>The loop over the rows of an initialised segment; it stops at the first key it cannot read.\<close>

fun restore_rows :: "nat list \<Rightarrow> positions_shm_layout \<Rightarrow> (InternalSecurityId \<Rightarrow> nat option)
    \<Rightarrow> bool \<times> positions_shm_layout \<times> (InternalSecurityId \<Rightarrow> nat option)" where
  "restore_rows [] shm table = (True, shm, table)"
| "restore_rows (row_index # rows) shm table =
     (let pos = ps_positions shm row_index
      in if pos_id pos = [] then restore_rows rows shm table
         else case normalize_security_key (pos_id pos) of
           None \<Rightarrow> (False, shm, table)
         | Some canonical \<Rightarrow>
             restore_rows rows (shm\<lparr>ps_positions := (ps_positions shm)
                 (row_index := pos\<lparr>pos_id := fs_assign 16 canonical\<rparr>)\<rparr>)
               (table(canonical \<mapsto> row_index)))"

definition finish_bootstrap :: "TimestampNs \<Rightarrow> positions_shm_layout \<Rightarrow> positions_shm_layout" where
  "finish_bootstrap now shm = shm\<lparr>ps_header := (ps_header shm)
     \<lparr>ph_id := next_security_id (clamp_security_count (ps_position_count shm)),
      ph_init_state := 1, ph_last_update := now\<rparr>\<rparr>"

text \<open>The branch of \<open>initialize\<close> for a segment whose \<open>init_state\<close> is not 1.\<close>

definition initialize_fresh ::
    "load_sources \<Rightarrow> nat \<Rightarrow> AccountId \<Rightarrow> TimestampNs \<Rightarrow> positions_shm_layout \<Rightarrow> PositionManager
      \<Rightarrow> error_state \<Rightarrow> bool \<times> PositionManager \<times> error_state" where
  "initialize_fresh sources bytes account_id now shm pm errors =
     (if ps_position_count shm \<noteq> 0
      then (False, pm, report_portfolio_error ShmHeaderCorrupted
              ''positions init_state is 0 while count is non-zero'' now errors)
      else let pm = pm\<lparr>pm_shm := Some (bootstrap_segment bytes now shm)\<rparr>;
               source = (if db_enabled pm then DbSource (db_path pm) else FileSource (config_file_path pm))
           in case loader_load sources source account_id now pm of
                (False, pm) \<Rightarrow> (False, pm, report_portfolio_error PositionUpdateFailed
                    ''position init loader failed on fresh shm'' now errors)
              | (True, pm) \<Rightarrow> (True, pm\<lparr>pm_shm := map_option (finish_bootstrap now) (pm_shm pm)\<rparr>, errors))"

text \<open>The branch for an initialised segment.\<close>

definition initialize_restart ::
    "TimestampNs \<Rightarrow> positions_shm_layout \<Rightarrow> PositionManager \<Rightarrow> error_state \<Rightarrow> bool \<times> PositionManager \<times> error_state" where
  "initialize_restart now shm pm errors =
     (let shm = shm\<lparr>ps_positions := (ps_positions shm)(kFundPositionIndex :=
                  ensure_fund_identity (ps_positions shm kFundPositionIndex))\<rparr>;
          clamped_count = clamp_security_count (ps_position_count shm);
          shm = (if clamped_count \<noteq> ps_position_count shm then shm\<lparr>ps_position_count := clamped_count\<rparr> else shm);
          count = clamped_count
      in case restore_rows [kFirstSecurityPositionIndex..<min (Suc count) kMaxPositions] shm (security_to_row pm) of
           (False, shm, table) \<Rightarrow> (False, pm\<lparr>pm_shm := Some shm, security_to_row := table\<rparr>,
              report_portfolio_error InvalidParam ''invalid internal_security_id found in initialized shm''
                now errors)
         | (True, shm, table) \<Rightarrow> (True, pm\<lparr>pm_shm := Some (shm\<lparr>ps_header := (ps_header shm)
              \<lparr>ph_id := next_security_id count, ph_last_update := now\<rparr>\<rparr>), security_to_row := table\<rparr>, errors))"

definition initialize ::
    "load_sources \<Rightarrow> nat \<Rightarrow> AccountId \<Rightarrow> TimestampNs \<Rightarrow> PositionManager \<Rightarrow> error_state
      \<Rightarrow> bool \<times> PositionManager \<times> error_state" where
  "initialize sources bytes account_id now pm errors =
     (case pm_shm pm of
        None \<Rightarrow> (False, pm, report_portfolio_error ComponentUnavailable ''positions shm is null'' now errors)
      | Some shm \<Rightarrow>
          let pm = pm\<lparr>security_to_row := Map.empty\<rparr>
          in if \<not> header_compatible bytes (ps_header shm)
             then (False, pm, report_portfolio_error ShmHeaderInvalid
                     ''positions shm header incompatible'' now errors)
             else if ph_init_state (ps_header shm) \<noteq> 1
             then initialize_fresh sources bytes account_id now shm pm errors
             else initialize_restart now shm pm errors)"

end
