(* ===== verification/Loader_Facts.thy ===== *)
theory Loader_Facts
  imports Position_Loader Config_Facts
begin

text \<open>
  What the start of the position manager leaves: a load can only add rows to a well-formed table
  (locale \<open>seed_invariant\<close>), so a successful \<open>initialize\<close> ends with a table whose keys and rows agree,
  and the next start reads the same table back from the segment.
\<close>

section \<open>What a load keeps\<close>

lemma set_trim_copy: "set (trim_copy s) \<subseteq> set s"
  by (auto simp: trim_copy_def dest!: set_dropWhileD)

lemma set_split_at_char: "c \<in> set (split_at_char d s) \<Longrightarrow> set c \<subseteq> set s"
  by (induction s arbitrary: c) (fastforce split: if_splits list.splits)+

lemma set_lines_of: "l \<in> set (lines_of s) \<Longrightarrow> set l \<subseteq> set s"
  by (auto simp: lines_of_def Let_def dest!: in_set_butlastD set_split_at_char split: if_splits)

lemma set_columns: "c \<in> set (split_csv_columns (strip_comment l)) \<Longrightarrow> set c \<subseteq> set l"
proof -
  assume "c \<in> set (split_csv_columns (strip_comment l))"
  then obtain x where "c = trim_copy x" "x \<in> set (split_at_char CHR '','' (strip_comment l))"
    by (auto simp: split_csv_columns_def)
  then have "set c \<subseteq> set (strip_comment l)" using set_trim_copy set_split_at_char by blast
  also have "\<dots> \<subseteq> set (takeWhile (\<lambda>c. c \<noteq> CHR ''#'') l)"
    unfolding strip_comment_def by (rule set_trim_copy)
  also have "\<dots> \<subseteq> set l" by (auto dest: set_takeWhileD)
  finally show ?thesis .
qed

text \<open>
  The interface between the loader and the position manager: what \<open>apply_seed\<close>, for the keys the
  sources hold, and \<open>overwrite_fund_info\<close> keep, a whole load keeps, whether it succeeds or fails.
\<close>

locale seed_invariant =
  fixes P :: "PositionManager \<Rightarrow> bool" and good_key :: "string \<Rightarrow> bool" and now :: TimestampNs
  assumes seed: "P pm \<Longrightarrow> good_key key \<Longrightarrow> P (snd (apply_seed key name numbers now pm))"
    and fund: "P pm \<Longrightarrow> P (snd (overwrite_fund_info fund now pm))"
begin

lemma seed_row: "P pm \<Longrightarrow> (\<And>c. c \<in> set columns \<Longrightarrow> good_key c) \<Longrightarrow> P (snd (apply_position_seed_row columns now pm))"
  by (auto simp: apply_position_seed_row_def intro!: seed split: option.splits)

lemma csv_lines:
  "P pm \<Longrightarrow> (\<And>l c. l \<in> set ls \<Longrightarrow> set c \<subseteq> set l \<Longrightarrow> good_key c) \<Longrightarrow> P (snd (load_csv_lines ls now pm))"
proof (induction ls arbitrary: pm)
  case (Cons l ls)
  define columns where "columns = split_csv_columns (strip_comment l)"
  have "P (snd (apply_position_seed_row columns now pm))"
    using Cons.prems set_columns by (intro seed_row) (simp_all add: columns_def, blast)
  moreover have "P (snd (load_csv_lines ls now pm'))" if "P pm'" for pm'
    using that Cons.prems(2) by (intro Cons.IH) auto
  ultimately show ?case using Cons.prems(1)
    by (cases "apply_position_seed_row columns now pm"; cases "fst (apply_position_seed_row columns now pm)")
       (simp_all add: Let_def columns_def [symmetric])
qed simp

lemma db_rows:
  "P pm \<Longrightarrow> (\<And>row s. row \<in> set rows \<Longrightarrow> DbText s \<in> set row \<Longrightarrow> good_key s) \<Longrightarrow>
   P (snd (load_db_rows rows complete now pm))"
proof (induction rows arbitrary: pm)
  case (Cons row rows)
  have "P (snd (apply_position_db_row row now pm))"
    using Cons.prems(1) Cons.prems(2) [of row]
    by (auto simp: apply_position_db_row_def read_required_text_def intro!: seed
        split: option.splits list.splits db_value.splits)
  moreover have "P (snd (load_db_rows rows complete now pm'))" if "P pm'" for pm'
    using that Cons.prems(2) by (intro Cons.IH) auto
  ultimately show ?case using Cons.prems(1) by (cases "apply_position_db_row row now pm"; cases "fst (apply_position_db_row row now pm)") simp_all
qed simp

lemma load:
  assumes "P pm"
    and "\<And>path text s. ls_files sources path = Some text \<Longrightarrow> set s \<subseteq> set text \<Longrightarrow> good_key s"
    and "\<And>path db rows complete row s. ls_databases sources path = Some db \<Longrightarrow>
      db_positions db = Some (rows, complete) \<Longrightarrow> row \<in> set rows \<Longrightarrow> DbText s \<in> set row \<Longrightarrow> good_key s"
  shows "P (snd (loader_load sources source account_id now pm))"
proof (cases source)
  case (FileSource path)
  have "P (snd (load_positions_csv_if_exists (ls_files sources) p now pm))" for p
    using assms(1,2) set_lines_of
    by (auto simp: load_positions_csv_if_exists_def intro!: csv_lines split: option.splits) blast
  with FileSource assms(1) show ?thesis by (simp add: loader_load_def loader_from_file_def)
next
  case (DbSource path)
  have "P (snd (load_positions_from_db db now pm'))" if "P pm'" "ls_databases sources path = Some db" for db pm'
    using that assms(3) by (auto simp: load_positions_from_db_def intro!: db_rows split: option.splits)
  moreover have "P (snd (overwrite_fund_info fund now pm))" for fund using assms(1) by (rule fund)
  ultimately show ?thesis using assms(1) DbSource
    by (auto simp: loader_load_def loader_from_db_def split: option.splits prod.splits bool.splits)
       (metis snd_conv)+
qed

end

text \<open>The header, its row number and time stamp apart, and the identity of the FUND row.\<close>

definition fixed_header :: "positions_shm_layout \<Rightarrow> PositionsHeader" where
  "fixed_header shm = (ps_header shm)\<lparr>ph_id := 0, ph_last_update := 0\<rparr>"

definition set_up :: "PositionsHeader \<Rightarrow> PositionManager \<Rightarrow> bool" where
  "set_up h pm \<longleftrightarrow> (case pm_shm pm of None \<Rightarrow> False
     | Some shm \<Rightarrow> fixed_header shm = h \<and> pos_id (ps_positions shm 0) = kFundPositionId)"

text \<open>Every row of the table is the row of its key.\<close>

definition table_complete :: "PositionManager \<Rightarrow> bool" where
  "table_complete pm \<longleftrightarrow> (case pm_shm pm of None \<Rightarrow> True
     | Some shm \<Rightarrow> \<forall>i \<in> {1..ps_position_count shm}. security_to_row pm (pos_id (ps_positions shm i)) = Some i)"

definition table_ok :: "PositionManager \<Rightarrow> bool" where
  "table_ok pm \<longleftrightarrow> pm_shm pm \<noteq> None \<and> pm_ok pm \<and> table_complete pm"

lemma fixed_header_put_row [simp]: "fixed_header (put_row i pos now shm) = fixed_header shm"
  by (simp add: fixed_header_def put_row_def)

lemma add_security_set_up:
  "set_up h pm \<Longrightarrow> set_up h (snd (add_security code name mkt now pm))"
  by (auto simp: set_up_def add_security_def fixed_header_def Let_def kFirstSecurityPositionIndex_def
      split: option.splits)

lemma position_row_Some_row: "position_row sid pm = Some (i, shm, pos) \<Longrightarrow>
   i \<noteq> 0 \<and> pm_shm pm = Some shm \<and> pos = ps_positions shm i"
  by (auto simp: position_row_def get_position_def security_position_by_row_def
      kFirstSecurityPositionIndex_def Let_def split: option.splits if_splits)

lemma apply_seed_cases:
  obtains (refused) "snd (apply_seed key name numbers now pm) = pm"
  | (added) mkt code nm where "parse_internal_security_id key = Some (mkt, code)"
      "snd (apply_seed key name numbers now pm) = snd (add_security code nm mkt now pm)"
  | (stored) mkt code nm sid pm' i shm where "parse_internal_security_id key = Some (mkt, code)"
      "add_security code nm mkt now pm = (sid, pm')" "i \<noteq> 0" "pm_shm pm' = Some shm"
      "snd (apply_seed key name numbers now pm) = pm'\<lparr>pm_shm := Some (shm\<lparr>ps_positions :=
         (ps_positions shm)(i := store_seed numbers (ps_positions shm i))\<rparr>)\<rparr>"
proof (cases "parse_internal_security_id key")
  case None
  then show ?thesis by (intro refused) (simp add: apply_seed_def)
next
  case (Some mc)
  obtain mkt code where mc: "mc = (mkt, code)" by (cases mc)
  show ?thesis
  proof (cases "normalize_internal_security_id key")
    case None
    with Some mc show ?thesis by (intro refused) (simp add: apply_seed_def)
  next
    case (Some k)
    define nm where "nm = (if name = [] then k else name)"
    obtain sid pm' where a: "add_security code nm mkt now pm = (sid, pm')" by fastforce
    note simps = apply_seed_def \<open>parse_internal_security_id key = Some mc\<close> mc Some nm_def [symmetric] a Let_def
    show ?thesis
    proof (cases "sid = [] \<or> sid \<noteq> k \<or> position_row sid pm' = None")
      case True
      then have "snd (apply_seed key name numbers now pm) = pm'" by (auto simp: simps)
      with a mc \<open>parse_internal_security_id key = Some mc\<close> show ?thesis
        by (intro added [of mkt code nm]) simp_all
    next
      case False
      then obtain i shm pos where r: "position_row sid pm' = Some (i, shm, pos)" by auto
      note row = position_row_Some_row [OF r]
      with False r have "snd (apply_seed key name numbers now pm) = pm'\<lparr>pm_shm := Some (shm\<lparr>ps_positions :=
         (ps_positions shm)(i := store_seed numbers (ps_positions shm i))\<rparr>)\<rparr>" by (auto simp: simps)
      with row a mc \<open>parse_internal_security_id key = Some mc\<close> show ?thesis
        by (intro stored [of mkt code nm sid pm' i shm]) simp_all
    qed
  qed
qed


lemma seed_set_up: "set_up h pm \<Longrightarrow> set_up h (snd (apply_seed key name numbers now pm))"
proof (cases rule: apply_seed_cases [of key name numbers now pm])
  case (stored mkt code nm sid pm' i shm)
  assume "set_up h pm"
  then have "set_up h pm'" using add_security_set_up [of h pm code nm mkt now] stored(2) by simp
  with stored show ?thesis by (simp add: set_up_def fixed_header_def)
qed (simp_all add: add_security_set_up)

lemma overwrite_fund_info_shm:
  assumes "pm_shm pm = Some shm"
  shows "snd (overwrite_fund_info fund now pm) = pm\<lparr>pm_shm := Some (put_row 0
    (store_fund_info fund (ensure_fund_identity (ps_positions shm 0))) now shm)\<rparr>"
  using assms by (simp add: overwrite_fund_info_def kFundPositionIndex_def Let_def)

lemma fund_identity [simp]: "pos_id (ensure_fund_identity pos) = kFundPositionId"
  "pos_id (store_fund_info fund pos) = pos_id pos" "pos_id (set_default_fund pos) = pos_id pos"
  by (simp_all add: ensure_fund_identity_def store_fund_info_def set_default_fund_def
      kFundPositionId_def fs_assign_def nul_def)

lemma fund_set_up: "set_up h pm \<Longrightarrow> set_up h (snd (overwrite_fund_info fund now pm))"
  by (cases "pm_shm pm") (simp_all add: set_up_def overwrite_fund_info_shm put_row_def fixed_header_def)

interpretation header_kept: seed_invariant "set_up h" "\<lambda>_. True" now
  by unfold_locales (simp_all add: seed_set_up fund_set_up)

lemma table_ok_write:
  assumes "table_ok pm" "pm_shm pm = Some shm" "ps_positions shm' = (ps_positions shm)(i := pos')"
    "ps_position_count shm' = ps_position_count shm" "i = 0 \<or> pos_id pos' = pos_id (ps_positions shm i)"
  shows "table_ok (pm\<lparr>pm_shm := Some shm'\<rparr>)"
  using assms unfolding table_ok_def pm_ok_def table_complete_def by auto

lemma add_security_table_ok:
  assumes "table_ok pm" "nul \<notin> set code" "add_security code name mkt now pm = (sid, pm')"
  shows "table_ok pm'"
proof -
  obtain shm where s: "pm_shm pm = Some shm" using assms(1) by (auto simp: table_ok_def)
  have ok: "pm_ok pm" and complete: "table_complete pm" using assms(1) by (simp_all add: table_ok_def)
  have ok': "pm_ok pm'" using add_security_ok [OF ok s assms(2,3)] .
  show ?thesis using ok s assms(3)
  proof (cases rule: add_security_cases)
    case (added shm' pos)
    have "security_to_row pm' (pos_id (ps_positions shm' i)) = Some i"
      if i: "i \<in> {1..Suc (ps_position_count shm)}" for i
    proof (cases "i = Suc (ps_position_count shm)")
      case True
      then show ?thesis using added by simp
    next
      case False
      with i have "security_to_row pm (pos_id (ps_positions shm i)) = Some i"
        using complete s by (simp add: table_complete_def)
      moreover from this added(2) have "pos_id (ps_positions shm i) \<noteq> sid" by auto
      ultimately show ?thesis using False added by simp
    qed
    then show ?thesis using ok' added by (simp add: table_ok_def table_complete_def)
  qed (use assms in simp_all)
qed

lemma seed_table_ok:
  "table_ok pm \<Longrightarrow> nul \<notin> set key \<Longrightarrow> table_ok (snd (apply_seed key name numbers now pm))"
proof (cases rule: apply_seed_cases [of key name numbers now pm])
  case (added mkt code nm)
  assume "table_ok pm" "nul \<notin> set key"
  with added parse_code_chars [OF added(1)] show ?thesis
    by (auto intro!: add_security_table_ok [OF _ _ prod.collapse [symmetric]])
next
  case (stored mkt code nm sid pm' i shm)
  assume "table_ok pm" "nul \<notin> set key"
  with stored(2) parse_code_chars [OF stored(1)] have "table_ok pm'"
    by (auto intro: add_security_table_ok)
  with stored(3-5) show ?thesis
    by (auto simp: store_seed_def intro!: table_ok_write)
qed simp

lemma fund_table_ok: "table_ok pm \<Longrightarrow> table_ok (snd (overwrite_fund_info fund now pm))"
  by (cases "pm_shm pm")
     (auto simp: overwrite_fund_info_shm put_row_def table_ok_def [of pm] intro: table_ok_write)

interpretation table_kept: seed_invariant table_ok "\<lambda>key. nul \<notin> set key" now
  by unfold_locales (simp_all add: seed_table_ok fund_table_ok)


section \<open>A fresh segment\<close>

text \<open>No key in the files or the databases holds a NUL, which a C string could not carry on.\<close>

definition nul_free_sources :: "load_sources \<Rightarrow> bool" where
  "nul_free_sources sources \<longleftrightarrow>
     (\<forall>path text. ls_files sources path = Some text \<longrightarrow> nul \<notin> set text) \<and>
     (\<forall>path db rows complete row s. ls_databases sources path = Some db \<longrightarrow>
        db_positions db = Some (rows, complete) \<longrightarrow> row \<in> set rows \<longrightarrow> DbText s \<in> set row \<longrightarrow> nul \<notin> set s)"

lemma load_table_ok:
  "table_ok pm \<Longrightarrow> nul_free_sources sources \<Longrightarrow> table_ok (snd (loader_load sources source account_id now pm))"
  by (rule table_kept.load) (auto simp: nul_free_sources_def)

lemma load_set_up: "set_up h pm \<Longrightarrow> set_up h (snd (loader_load sources source account_id now pm))"
  by (rule header_kept.load) simp_all

definition fresh_header :: "nat \<Rightarrow> TimestampNs \<Rightarrow> PositionsHeader" where
  "fresh_header bytes now = \<lparr>ph_magic = kPositionsMagic, ph_version = kPositionsVersion,
     ph_header_size = kPositionsHeaderSize, ph_total_size = of_nat bytes, ph_capacity = of_nat kMaxPositions,
     ph_init_state = 0, ph_create_time = now, ph_last_update = 0, ph_id = 0\<rparr>"

lemma bootstrap_set_up: "set_up (fresh_header bytes now) (pm\<lparr>pm_shm := Some (bootstrap_segment bytes now shm)\<rparr>)"
  by (simp add: set_up_def bootstrap_segment_def fixed_header_def fresh_header_def Let_def kFundPositionIndex_def)

lemma bootstrap_table_ok:
  "security_to_row pm = Map.empty \<Longrightarrow> table_ok (pm\<lparr>pm_shm := Some (bootstrap_segment bytes now shm)\<rparr>)"
  by (simp add: table_ok_def pm_ok_def table_complete_def bootstrap_segment_def Let_def)

lemma table_ok_header:
  assumes "table_ok pm" "pm_shm pm = Some shm" "ps_positions shm' = ps_positions shm"
    "ps_position_count shm' = ps_position_count shm"
  shows "table_ok (pm\<lparr>pm_shm := Some shm'\<rparr>)"
  using assms by (simp add: table_ok_def pm_ok_def table_complete_def)

text \<open>Both outcomes of the fresh branch, for a segment that is still empty.\<close>

lemma initialize_fresh_outcome:
  assumes "ps_position_count shm = 0" "security_to_row pm = Map.empty"
    "initialize_fresh sources bytes account_id now shm pm errors = (ok, pm', errors')"
  obtains pl shml where "pm_shm pl = Some shml" "set_up (fresh_header bytes now) pl"
    "nul_free_sources sources \<Longrightarrow> table_ok pl"
    "pm' = (if ok then pl\<lparr>pm_shm := Some (finish_bootstrap now shml)\<rparr> else pl)"
    "errors' = (if ok then errors else report_portfolio_error PositionUpdateFailed
        ''position init loader failed on fresh shm'' now errors)"
proof -
  define pb where "pb = pm\<lparr>pm_shm := Some (bootstrap_segment bytes now shm)\<rparr>"
  define source where "source = (if db_enabled pb then DbSource (db_path pb) else FileSource (config_file_path pb))"
  obtain ok' pl where l: "loader_load sources source account_id now pb = (ok', pl)" by fastforce
  have up: "set_up (fresh_header bytes now) pl"
    using load_set_up [OF bootstrap_set_up [of bytes now shm pm], of sources source account_id now] l
    by (simp add: pb_def)
  then obtain shml where shml: "pm_shm pl = Some shml" by (auto simp: set_up_def split: option.splits)
  have tab: "table_ok pl" if "nul_free_sources sources"
    using load_table_ok [OF bootstrap_table_ok [OF assms(2), of bytes now shm] that, of source account_id now] l
    by (simp add: pb_def)
  have "(ok, pm', errors') = (if ok' then (True, pl\<lparr>pm_shm := Some (finish_bootstrap now shml)\<rparr>, errors)
      else (False, pl, report_portfolio_error PositionUpdateFailed
        ''position init loader failed on fresh shm'' now errors))"
    using assms(1,3) l shml
    by (cases ok') (simp_all add: initialize_fresh_def Let_def pb_def [symmetric] source_def [symmetric])
  with up shml tab that show thesis by (cases ok') simp_all
qed

section \<open>An initialised segment\<close>

lemma key_fits: "build_internal_security_id m c = Some k \<Longrightarrow> fs_assign 16 k = k"
  using build_Some(4) [of m c k] length_fs_assign [of 16] nul_notin_fs_assign
  by (metis fs_assign_id zero_less_numeral)

definition rows_listed :: "(InternalSecurityId \<Rightarrow> nat option) \<Rightarrow> positions_shm_layout \<Rightarrow> nat set \<Rightarrow> bool" where
  "rows_listed table shm A \<longleftrightarrow> (\<forall>sid i. table sid = Some i \<longrightarrow>
     i \<in> A \<and> pos_id (ps_positions shm i) = sid \<and> normalize_internal_security_id sid = Some sid)"

lemma restore_rows_result:
  assumes "restore_rows rows shm table = (ok, shm', table')" "distinct rows"
    "\<forall>i\<in>set rows. nul \<notin> set (pos_id (ps_positions shm i))" "rows_listed table shm A" "A \<inter> set rows = {}"
  shows "rows_listed table' shm' (A \<union> set rows) \<and> ps_header shm' = ps_header shm
    \<and> ps_position_count shm' = ps_position_count shm
    \<and> (\<forall>i. i \<notin> set rows \<longrightarrow> ps_positions shm' i = ps_positions shm i)"
  using assms
proof (induction rows arbitrary: shm table A)
  case (Cons i rows)
  define pos where "pos = ps_positions shm i"
  consider (skip) "pos_id pos = []" | (bad) "pos_id pos \<noteq> []" "normalize_security_key (pos_id pos) = None"
    | (key) k where "pos_id pos \<noteq> []" "normalize_security_key (pos_id pos) = Some k" by fastforce
  then show ?case
  proof cases
    case skip
    have "rows_listed table' shm' (A \<union> set rows) \<and> ps_header shm' = ps_header shm
      \<and> ps_position_count shm' = ps_position_count shm
      \<and> (\<forall>i. i \<notin> set rows \<longrightarrow> ps_positions shm' i = ps_positions shm i)"
      using Cons.prems skip by (intro Cons.IH) (auto simp: pos_def)
    then show ?thesis by (auto simp: rows_listed_def)
  next
    case bad
    then show ?thesis using Cons.prems by (auto simp: pos_def rows_listed_def)
  next
    case (key k)
    define shm1 where "shm1 = shm\<lparr>ps_positions := (ps_positions shm)(i := pos\<lparr>pos_id := fs_assign 16 k\<rparr>)\<rparr>"
    have n: "normalize_internal_security_id (pos_id pos) = Some k"
      using key by (simp add: normalize_security_key_def)
    have nn: "nul \<notin> set (pos_id pos)" using Cons.prems(3) by (simp add: pos_def)
    have idem: "normalize_internal_security_id k = Some k" using n nn by (rule normalize_idem)
    obtain m c where "build_internal_security_id m c = Some k" using n by (rule normalize_Some_build)
    then have "fs_assign 16 k = k" by (rule key_fits)
    then have l: "rows_listed (table(k \<mapsto> i)) shm1 (insert i A)"
      using Cons.prems(4,5) idem by (auto simp: rows_listed_def shm1_def)
    have r: "restore_rows rows shm1 (table(k \<mapsto> i)) = (ok, shm', table')"
      using Cons.prems(1) key by (simp add: pos_def shm1_def)
    have "rows_listed table' shm' (insert i A \<union> set rows) \<and> ps_header shm' = ps_header shm1
      \<and> ps_position_count shm' = ps_position_count shm1
      \<and> (\<forall>i. i \<notin> set rows \<longrightarrow> ps_positions shm' i = ps_positions shm1 i)"
      by (intro Cons.IH [OF r _ _ l]) (use Cons.prems in \<open>auto simp: shm1_def\<close>)
    then show ?thesis by (auto simp: shm1_def)
  qed
qed simp


text \<open>Where every row is already the row of its canonical key, the loop changes no row.\<close>

lemma restore_rows_same:
  assumes "\<forall>i\<in>set rows. T (pos_id (ps_positions shm i)) = Some i"
    "\<And>sid i. T sid = Some i \<Longrightarrow> normalize_internal_security_id sid = Some sid"
  shows "restore_rows rows shm table = (True, shm, \<lambda>k. case T k of
    Some i \<Rightarrow> if i \<in> set rows \<and> pos_id (ps_positions shm i) = k then Some i else table k | None \<Rightarrow> table k)"
  using assms(1)
proof (induction rows arbitrary: table)
  case Nil
  show ?case by (auto split: option.split)
next
  case (Cons i rows)
  define k where "k = pos_id (ps_positions shm i)"
  have T: "T k = Some i" using Cons.prems by (simp add: k_def)
  have n: "normalize_internal_security_id k = Some k" using T by (rule assms(2))
  have ne: "k \<noteq> []" using n normalize_nonempty by blast
  obtain m c where "build_internal_security_id m c = Some k" using n by (rule normalize_Some_build)
  then have f: "fs_assign 16 k = k" by (rule key_fits)
  have same: "shm\<lparr>ps_positions := (ps_positions shm)(i := ps_positions shm i\<lparr>pos_id := k\<rparr>)\<rparr> = shm"
    by (simp add: k_def)
  have "restore_rows (i # rows) shm table = restore_rows rows shm (table(k \<mapsto> i))"
    using ne n f same by (simp add: k_def [symmetric] normalize_security_key_def Let_def)
  also have "\<dots> = (True, shm, \<lambda>k'. case T k' of
      Some j \<Rightarrow> if j \<in> set rows \<and> pos_id (ps_positions shm j) = k' then Some j else (table(k \<mapsto> i)) k'
    | None \<Rightarrow> (table(k \<mapsto> i)) k')"
    using Cons.prems by (intro Cons.IH) simp
  also have "\<dots> = (True, shm, \<lambda>k'. case T k' of
      Some j \<Rightarrow> if j \<in> set (i # rows) \<and> pos_id (ps_positions shm j) = k' then Some j else table k'
    | None \<Rightarrow> table k')"
    using T by (auto simp: fun_eq_iff k_def split: option.split)
  finally show ?case .
qed

text \<open>The outcome of the branch for an initialised segment, in terms of the loop.\<close>

definition restart_start :: "positions_shm_layout \<Rightarrow> positions_shm_layout" where
  "restart_start shm = shm\<lparr>ps_positions := (ps_positions shm)(kFundPositionIndex :=
      ensure_fund_identity (ps_positions shm kFundPositionIndex)),
     ps_position_count := clamp_security_count (ps_position_count shm)\<rparr>"

lemma initialize_restart_eq:
  "initialize_restart now shm pm errors =
     (let (ok, shm', table) = restore_rows [1..<Suc (clamp_security_count (ps_position_count shm))]
            (restart_start shm) (security_to_row pm)
      in if ok then (True, pm\<lparr>pm_shm := Some (shm'\<lparr>ps_header := (ps_header shm')
             \<lparr>ph_id := next_security_id (clamp_security_count (ps_position_count shm)), ph_last_update := now\<rparr>\<rparr>),
             security_to_row := table\<rparr>, errors)
         else (False, pm\<lparr>pm_shm := Some shm', security_to_row := table\<rparr>,
           report_portfolio_error InvalidParam ''invalid internal_security_id found in initialized shm'' now errors))"
proof -
  have c: "min (Suc (clamp_security_count n)) kMaxPositions = Suc (clamp_security_count n)" for n
    by (simp add: clamp_security_count_def kMaxSecurityPositions_def kMaxPositions_def kFirstSecurityPositionIndex_def)
  have s: "(if clamp_security_count (ps_position_count s) \<noteq> ps_position_count s
      then s\<lparr>ps_position_count := clamp_security_count (ps_position_count s)\<rparr> else s)
     = s\<lparr>ps_position_count := clamp_security_count (ps_position_count s)\<rparr>" for s :: positions_shm_layout
    by simp
  show ?thesis
    unfolding initialize_restart_def Let_def s c
    by (simp add: restart_start_def kFirstSecurityPositionIndex_def split: prod.split bool.split)
qed


section \<open>Properties\<close>

text \<open>The states \<open>initialize\<close> distinguishes.\<close>

definition started_ok :: "nat \<Rightarrow> positions_shm_layout \<Rightarrow> bool" where
  "started_ok bytes shm \<longleftrightarrow> header_compatible bytes (ps_header shm) \<and> ph_init_state (ps_header shm) = 1
     \<and> pos_id (ps_positions shm 0) = kFundPositionId \<and> ps_position_count shm \<le> kMaxSecurityPositions
     \<and> ph_id (ps_header shm) = next_security_id (ps_position_count shm)"

lemma header_compatible_iff: "header_compatible bytes h \<longleftrightarrow> ph_magic h = kPositionsMagic
    \<and> ph_version h = kPositionsVersion \<and> ph_header_size h = kPositionsHeaderSize
    \<and> ph_total_size h = of_nat bytes \<and> ph_capacity h = of_nat kMaxPositions"
  by (auto simp: header_compatible_def)

lemma header_of_fixed:
  assumes "fixed_header shm = fresh_header bytes now"
  shows "header_compatible bytes (ps_header shm)" "ph_init_state (ps_header shm) = 0"
  using assms by (cases "ps_header shm"; simp add: fixed_header_def fresh_header_def header_compatible_iff)+

lemma initialize_fresh_started:
  assumes "ps_position_count shm = 0" "security_to_row pm = Map.empty" "nul_free_sources sources"
    "initialize_fresh sources bytes account_id now shm pm errors = (True, pm', errors')"
  shows "errors' = errors \<and> table_ok pm' \<and> (\<exists>shm'. pm_shm pm' = Some shm' \<and> started_ok bytes shm')"
  using assms(1,2,4)
proof (cases rule: initialize_fresh_outcome)
  case (1 pl shml)
  have t: "table_ok pl" using 1(3) assms(3) .
  then have c: "ps_position_count shml \<le> kMaxSecurityPositions"
    using 1(1) by (simp add: table_ok_def pm_ok_def)
  have h: "fixed_header shml = fresh_header bytes now" "pos_id (ps_positions shml 0) = kFundPositionId"
    using 1(1,2) by (simp_all add: set_up_def)
  have "header_compatible bytes (ps_header (finish_bootstrap now shml))"
    using header_of_fixed(1) [OF h(1)] by (simp add: header_compatible_iff finish_bootstrap_def)
  then have "started_ok bytes (finish_bootstrap now shml)"
    using h c by (simp add: started_ok_def finish_bootstrap_def clamp_security_count_def)
  moreover have "table_ok (pl\<lparr>pm_shm := Some (finish_bootstrap now shml)\<rparr>)"
    using t 1(1) by (rule table_ok_header) (simp_all add: finish_bootstrap_def)
  ultimately show ?thesis using 1 by simp
qed

lemma initialize_restart_started:
  assumes "header_compatible bytes (ps_header shm)" "ph_init_state (ps_header shm) = 1"
    "security_to_row pm = Map.empty" "\<forall>i. nul \<notin> set (pos_id (ps_positions shm i))"
    "initialize_restart now shm pm errors = (True, pm', errors')"
  shows "errors' = errors \<and> pm_ok pm' \<and> (\<exists>shm'. pm_shm pm' = Some shm' \<and> started_ok bytes shm')"
proof -
  define n where "n = clamp_security_count (ps_position_count shm)"
  have n: "n \<le> kMaxSecurityPositions" by (simp add: n_def clamp_security_count_def)
  obtain ok shm' table where r: "restore_rows [1..<Suc n] (restart_start shm) Map.empty = (ok, shm', table)"
    by (cases "restore_rows [1..<Suc n] (restart_start shm) Map.empty") auto
  have setn: "set [1..<Suc n] = {1..n}" by auto
  have l: "rows_listed table shm' ({} \<union> set [1..<Suc n]) \<and> ps_header shm' = ps_header (restart_start shm)
    \<and> ps_position_count shm' = ps_position_count (restart_start shm)
    \<and> (\<forall>i. i \<notin> set [1..<Suc n] \<longrightarrow> ps_positions shm' i = ps_positions (restart_start shm) i)"
    by (rule restore_rows_result [OF r])
       (use assms(4) in \<open>auto simp: rows_listed_def restart_start_def kFundPositionIndex_def\<close>)
  note l = l [unfolded setn]
  have f: "pos_id (ps_positions shm' 0) = kFundPositionId"
    using l by (simp add: restart_start_def kFundPositionIndex_def)
  have pm': "ok" "errors' = errors" "pm' = pm\<lparr>pm_shm := Some (shm'\<lparr>ps_header := (ps_header shm')
      \<lparr>ph_id := next_security_id n, ph_last_update := now\<rparr>\<rparr>), security_to_row := table\<rparr>"
    using assms(3,5) r by (auto simp: initialize_restart_eq n_def [symmetric] split: if_splits)
  have c: "ps_position_count shm' = n" "ps_header shm' = ps_header shm" using l
    by (simp_all add: restart_start_def n_def)
  have "pm_ok pm'" using l c n by (auto simp: pm'(3) pm_ok_def rows_listed_def)
  moreover have "started_ok bytes (shm'\<lparr>ps_header := (ps_header shm')
      \<lparr>ph_id := next_security_id n, ph_last_update := now\<rparr>\<rparr>)"
    using assms(1,2) c n f by (simp add: started_ok_def header_compatible_iff)
  ultimately show ?thesis using pm' by simp
qed

lemma pm_ok_table_shm: "pm_ok pm \<Longrightarrow> pm_shm pm = Some shm \<Longrightarrow> ps_position_count shm \<le> kMaxSecurityPositions"
  by (simp add: pm_ok_def)

definition seed_values :: "position \<Rightarrow> u64 list" where
  "seed_values pos = [volume_available_t0 pos, volume_available_t1 pos, volume_buy pos, dvalue_buy pos,
     volume_buy_traded pos, dvalue_buy_traded pos, volume_sell pos, dvalue_sell pos, volume_sell_traded pos,
     dvalue_sell_traded pos, count_order pos]"

lemma numbers_of_values: "numbers_of vs = Some n \<Longrightarrow> seed_values (store_seed n pos) = vs"
  by (cases vs rule: numbers_of.cases) (auto simp: seed_values_def store_seed_def)

definition row_of :: "PositionManager \<Rightarrow> string \<Rightarrow> (nat \<times> position) option" where
  "row_of pm key = map_option (\<lambda>(i, _, pos). (i, pos)) (position_row key pm)"

lemma row_of_listed:
  assumes "table_ok pm" "pm_shm pm = Some shm" "normalize_security_key key = Some k" "security_to_row pm k = Some i"
  shows "row_of pm key = Some (i, ps_positions shm i)"
proof -
  have "1 \<le> i" "i \<le> ps_position_count shm" "ps_position_count shm \<le> kMaxSecurityPositions"
    using assms(1,2,4) by (auto simp: table_ok_def pm_ok_def)
  with assms(2-) show ?thesis
    by (simp add: row_of_def position_row_def get_position_def security_position_by_row_def
        clamp_security_count_def kFirstSecurityPositionIndex_def kMaxSecurityPositions_def kMaxPositions_def)
qed

lemma row_of_unlisted:
  "normalize_security_key key = None \<or> security_to_row pm (the (normalize_security_key key)) = None \<Longrightarrow> row_of pm key = None"
  by (auto simp: row_of_def position_row_def get_position_def split: option.split)

lemma row_of_cong:
  assumes "table_ok pm" "table_ok pm'" "pm_shm pm = Some shm" "pm_shm pm' = Some shm'"
    "normalize_security_key key \<noteq> Some sid"
    "\<And>k. k \<noteq> sid \<Longrightarrow> security_to_row pm' k = security_to_row pm k"
    "\<And>k i. k \<noteq> sid \<Longrightarrow> security_to_row pm k = Some i \<Longrightarrow> ps_positions shm' i = ps_positions shm i"
  shows "row_of pm' key = row_of pm key"
proof (cases "normalize_security_key key")
  case None
  then show ?thesis by (simp add: row_of_unlisted)
next
  case (Some k)
  then have k: "k \<noteq> sid" using assms(5) by simp
  show ?thesis
  proof (cases "security_to_row pm k")
    case None
    then show ?thesis using Some assms(6) [OF k] by (simp add: row_of_unlisted)
  next
    case (Some i)
    then show ?thesis
      using row_of_listed [OF assms(1,3) \<open>normalize_security_key key = Some k\<close>]
        row_of_listed [OF assms(2,4) \<open>normalize_security_key key = Some k\<close>] assms(6,7) k by simp
  qed
qed

lemma apply_seed_stores:
  assumes "table_ok pm" "nul \<notin> set key" "apply_seed key name numbers now pm = (True, pm')"
  obtains sid i pos where "normalize_internal_security_id key = Some sid" "table_ok pm'"
    "row_of pm' key = Some (i, store_seed numbers pos)"
    "\<And>k. normalize_security_key k \<noteq> Some sid \<Longrightarrow> row_of pm' k = row_of pm k"
proof -
  obtain shm where shm: "pm_shm pm = Some shm" using assms(1) by (auto simp: table_ok_def)
  have ok: "pm_ok pm" using assms(1) by (simp add: table_ok_def)
  obtain mkt code sid nm pma i shma pos where p: "parse_internal_security_id key = Some (mkt, code)"
    and n: "normalize_internal_security_id key = Some sid" and a: "add_security code nm mkt now pm = (sid, pma)"
    and r: "position_row sid pma = Some (i, shma, pos)"
    and pm': "pm' = pma\<lparr>pm_shm := Some (shma\<lparr>ps_positions := (ps_positions shma)(i := store_seed numbers pos)\<rparr>)\<rparr>"
    using assms(3) by (auto simp: apply_seed_def Let_def split: option.splits prod.splits if_splits)
  have tab: "table_ok pm'" using seed_table_ok [OF assms(1,2), of name numbers now] assms(3) by simp
  have taba: "table_ok pma" using add_security_table_ok [OF assms(1) _ a] parse_code_chars [OF p] assms(2) by blast
  note row = position_row_Some_row [OF r]
  have key: "normalize_security_key key = Some sid"
    using n by (auto simp: normalize_security_key_def)
  have sid: "normalize_security_key sid = Some sid"
    using n normalize_idem [OF n assms(2)] normalize_nonempty by (auto simp: normalize_security_key_def)
  have "security_to_row pma sid = Some i"
    using r sid by (auto simp: position_row_def get_position_def security_position_by_row_def Let_def
        split: option.splits if_splits)
  then have own: "row_of pm' key = Some (i, store_seed numbers pos)"
    using row_of_listed [OF tab _ key, of _ i] pm' by simp
  have other: "row_of pm' k = row_of pm k" if k: "normalize_security_key k \<noteq> Some sid" for k
  proof -
    have i: "pos_id (ps_positions shma i) = sid"
      using \<open>security_to_row pma sid = Some i\<close> taba row by (auto simp: table_ok_def pm_ok_def)
    have "row_of pm' k = row_of pma k"
      by (rule row_of_cong [OF taba tab, of shma
          "shma\<lparr>ps_positions := (ps_positions shma)(i := store_seed numbers pos)\<rparr>" k sid])
         (use row pm' k i taba in \<open>auto simp: table_ok_def pm_ok_def\<close>)
    have lim: "j \<le> ps_position_count shm" if "security_to_row pm k' = Some j" for k' j
      using ok shm that by (auto simp: pm_ok_def)
    note \<open>row_of pm' k = row_of pma k\<close>
    also have "row_of pma k = row_of pm k"
      using ok shm a
    proof (cases rule: add_security_cases)
      case refused
      then show ?thesis using n normalize_nonempty by blast
    next
      case (added shm' pos')
      then show ?thesis
        by (intro row_of_cong [OF assms(1) taba shm added(4) k])
           (use lim in \<open>auto dest: lim\<close>)
    qed simp
    finally show ?thesis .
  qed
  show thesis by (rule that [OF n tab own other])
qed

text \<open>
  One line of the bootstrap file.  On a well-formed table, a row that is accepted leaves a
  well-formed table in which the row's key finds a row holding exactly the eleven numbers of the
  columns, each read as an unsigned 64-bit number, and every other security keeps its row.
\<close>

theorem seed_row_exact:
  assumes "table_ok pm" and "\<forall>c \<in> set columns. nul \<notin> set c"
    and "apply_position_seed_row columns now pm = (True, pm')"
  shows "table_ok pm' \<and> (\<exists>sid i pos. normalize_internal_security_id (columns ! 1) = Some sid
    \<and> row_of pm' (columns ! 1) = Some (i, pos)
    \<and> all_some (map parse_u64_field (take 11 (drop 3 columns))) = Some (seed_values pos)
    \<and> (\<forall>key. normalize_security_key key \<noteq> Some sid \<longrightarrow> row_of pm' key = row_of pm key))"
proof -
  obtain vs numbers where n: "14 \<le> length columns" "all_some (map parse_u64_field (take 11 (drop 3 columns))) = Some vs"
    "numbers_of vs = Some numbers" "apply_seed (columns ! 1) (columns ! 2) numbers now pm = (True, pm')"
    using assms(3) by (auto simp: apply_position_seed_row_def split: option.splits if_splits)
  have "nul \<notin> set (columns ! 1)" using assms(2) n(1) by (simp add: nth_mem)
  from assms(1) this n(4) show ?thesis
  proof (cases rule: apply_seed_stores)
    case (1 sid i pos)
    then show ?thesis using n(2) numbers_of_values [OF n(3), of pos] by auto
  qed
qed

text \<open>
  C30: A start that succeeds leaves a well-formed table.  If \<open>initialize\<close> answers true, whether it
  loaded a fresh segment or took over an initialised one, it has recorded no error, the segment is
  marked initialised with a compatible header, the FUND row has its identity, the next row number
  fits the number of rows, and every key the manager knows is canonical and is the key of its row.  On
  a fresh segment every row is moreover found by its key.
\<close>

theorem initialize_well_formed:
  assumes "initialize sources bytes account_id now pm errors = (True, pm', errors')"
    and "pm_shm pm = Some shm" and "nul_free_sources sources"
    and "\<forall>i. nul \<notin> set (pos_id (ps_positions shm i))"
  shows "errors' = errors \<and> pm_ok pm' \<and> (\<exists>shm'. pm_shm pm' = Some shm' \<and> started_ok bytes shm')
    \<and> (ph_init_state (ps_header shm) \<noteq> 1 \<longrightarrow> table_complete pm')"
proof (cases "ph_init_state (ps_header shm) = 1")
  case True
  with assms(1,2) have "header_compatible bytes (ps_header shm)"
    "initialize_restart now shm (pm\<lparr>security_to_row := Map.empty\<rparr>) errors = (True, pm', errors')"
    by (simp_all add: initialize_def Let_def split: if_splits)
  with True initialize_restart_started [OF _ True _ assms(4), of bytes "pm\<lparr>security_to_row := Map.empty\<rparr>" now errors pm' errors']
  show ?thesis by simp
next
  case False
  then have i: "initialize_fresh sources bytes account_id now shm (pm\<lparr>security_to_row := Map.empty\<rparr>) errors
      = (True, pm', errors')"
    using assms(1,2) by (simp add: initialize_def Let_def split: if_splits)
  then have "ps_position_count shm = 0" by (simp add: initialize_fresh_def split: if_splits)
  then show ?thesis using initialize_fresh_started [OF _ _ assms(3) i] False by (simp add: table_ok_def)
qed

text \<open>
  C31: A restart finds the table again.  For a manager whose rows and keys agree on an initialised
  segment, a new manager started on that segment, whatever its sources, succeeds without an error and
  without changing a security row, knows the same keys for the same rows, and so answers every lookup
  as the old one.
\<close>

theorem restart_restores_table:
  assumes "table_ok pm" and "pm_shm pm = Some shm" and "header_compatible bytes (ps_header shm)"
    and "ph_init_state (ps_header shm) = 1"
    and "initialize sources bytes account_id now (PositionManager_new (Some shm) file db enabled) errors
      = (ok, pm', errors')"
  shows "ok \<and> errors' = errors \<and> security_to_row pm' = security_to_row pm
    \<and> get_all_positions pm' = get_all_positions pm
    \<and> (\<forall>key. get_position key pm' = get_position key pm
        \<and> map_option (\<lambda>(i, _, pos). pos) (position_row key pm') = map_option (\<lambda>(i, _, pos). pos) (position_row key pm))"
proof -
  define n where "n = ps_position_count shm"
  have ok: "pm_ok pm" and tc: "\<forall>i\<in>{1..n}. security_to_row pm (pos_id (ps_positions shm i)) = Some i"
    using assms(1,2) by (simp_all add: table_ok_def table_complete_def n_def)
  have n: "n \<le> kMaxSecurityPositions" "clamp_security_count n = n"
    using pm_ok_table_shm [OF ok assms(2)] by (simp_all add: n_def clamp_security_count_def)
  have key: "i \<in> {1..n} \<and> pos_id (ps_positions shm i) = sid \<and> normalize_internal_security_id sid = Some sid"
    if "security_to_row pm sid = Some i" for sid i
    using ok assms(2) that by (simp add: pm_ok_def n_def)
  have start: "ps_positions (restart_start shm) i = ps_positions shm i" if "i \<noteq> 0" for i
    using that by (simp add: restart_start_def kFundPositionIndex_def)
  have "restore_rows [1..<Suc n] (restart_start shm) Map.empty = (True, restart_start shm, \<lambda>k.
      case security_to_row pm k of Some i \<Rightarrow> if i \<in> set [1..<Suc n]
        \<and> pos_id (ps_positions (restart_start shm) i) = k then Some i else Map.empty k | None \<Rightarrow> Map.empty k)"
    using tc start key by (intro restore_rows_same) auto
  also have "(\<lambda>k. case security_to_row pm k of Some i \<Rightarrow> if i \<in> set [1..<Suc n]
        \<and> pos_id (ps_positions (restart_start shm) i) = k then Some i else Map.empty k | None \<Rightarrow> Map.empty k)
      = security_to_row pm"
  proof
    fix k
    have "i \<in> set [1..<Suc n] \<and> pos_id (ps_positions (restart_start shm) i) = k"
      if "security_to_row pm k = Some i" for i
      using key [OF that] start [of i] by auto
    then show "(case security_to_row pm k of Some i \<Rightarrow> if i \<in> set [1..<Suc n]
        \<and> pos_id (ps_positions (restart_start shm) i) = k then Some i else Map.empty k | None \<Rightarrow> Map.empty k)
      = security_to_row pm k" by (simp only: option.case split: option.split) auto
  qed
  finally have r: "restore_rows [1..<Suc n] (restart_start shm) Map.empty
      = (True, restart_start shm, security_to_row pm)" .
  have "(ok, pm', errors') = initialize_restart now shm (PositionManager_new (Some shm) file db enabled) errors"
    using assms(3-5) by (simp add: initialize_def Let_def PositionManager_new_def)
  moreover have new_table: "security_to_row (PositionManager_new (Some shm) file db enabled) = Map.empty"
    by (simp add: PositionManager_new_def)
  ultimately have pm': "ok" "errors' = errors" "security_to_row pm' = security_to_row pm"
    "pm_shm pm' = Some ((restart_start shm)\<lparr>ps_header := (ps_header (restart_start shm))
       \<lparr>ph_id := next_security_id n, ph_last_update := now\<rparr>\<rparr>)"
    unfolding initialize_restart_eq n_def [symmetric] n(2) new_table r by (simp_all add: PositionManager_new_def)
  have c: "ps_position_count (restart_start shm) = n" using n by (simp add: restart_start_def n_def)
  have pos: "get_position key pm' = get_position key pm" for key
    using pm' c assms(2)
    by (simp add: get_position_def security_position_by_row_def n_def split: option.split)
  have all: "get_all_positions pm' = get_all_positions pm"
    using pm' c assms(2) n start
    by (simp add: get_all_positions_def n_def kFirstSecurityPositionIndex_def cong: map_cong filter_cong)
       (intro arg_cong [where f = "filter _"] map_cong; simp add: start)
  have row: "i \<noteq> 0" if "get_position key pm = Some i" for key i
    using that by (auto simp: get_position_def security_position_by_row_def kFirstSecurityPositionIndex_def
        Let_def split: option.splits if_splits)
  show ?thesis using pm' pos all row start assms(2)
    by (auto simp: position_row_def split: option.splits)
qed

text \<open>
  C32: A failed first load is final.  If \<open>initialize\<close> fails on a fresh segment after the load has
  added a row, the segment stays marked uninitialised with that row counted, and from then on every
  \<open>initialize\<close> of any manager on it fails with \<open>ShmHeaderCorrupted\<close>, even if the sources have been
  corrected meanwhile, and changes nothing.
\<close>

theorem failed_load_is_final:
  assumes "initialize sources bytes account_id now pm errors = (False, pm', errors')"
    and "pm_shm pm = Some shm" and "header_compatible bytes (ps_header shm)"
    and "ph_init_state (ps_header shm) \<noteq> 1"
    and "pm_shm pm' = Some shm'" and "ps_position_count shm' \<noteq> 0"
  shows "initialize sources' bytes account_id' now' (PositionManager_new (Some shm') file db enabled) errors0
    = (False, PositionManager_new (Some shm') file db enabled,
       report_portfolio_error ShmHeaderCorrupted ''positions init_state is 0 while count is non-zero'' now' errors0)"
proof -
  have i: "initialize_fresh sources bytes account_id now shm (pm\<lparr>security_to_row := Map.empty\<rparr>) errors
      = (False, pm', errors')"
    using assms(1-4) by (simp add: initialize_def Let_def)
  have h: "header_compatible bytes (ps_header shm') \<and> ph_init_state (ps_header shm') \<noteq> 1"
  proof (cases "ps_position_count shm = 0")
    case True
    have e: "security_to_row (pm\<lparr>security_to_row := Map.empty\<rparr>) = Map.empty" by simp
    from True e i show ?thesis
    proof (cases rule: initialize_fresh_outcome)
      case (1 pl shml)
      then have "fixed_header shm' = fresh_header bytes now" using assms(5) by (simp add: set_up_def)
      then show ?thesis by (simp add: header_of_fixed)
    qed
  next
    case False
    then show ?thesis using i assms(2-5) by (auto simp: initialize_fresh_def)
  qed
  then show ?thesis using assms(6)
    by (simp add: initialize_def PositionManager_new_def initialize_fresh_def Let_def)
qed


section \<open>Witnesses\<close>

text \<open>A fresh segment as \<open>SHMManager\<close> creates it, and a bootstrap file beside \<open>c\<close>.\<close>

definition fresh_segment :: positions_shm_layout where
  "fresh_segment = init_positions_segment 64 1 positions_segment_zero"

definition one_row_csv :: string where
  "one_row_csv = ''record_type,internal_security_id,name,t0'' @ [CHR 0x0A]
     @ ''position,XSHG_600000, Bank ,100,0,0,0,0,0,0,0,0,0,1 # comment'' @ [CHR 0x0A]"

definition csv_sources :: "string \<Rightarrow> load_sources" where
  "csv_sources text = \<lparr>ls_files = [''c.positions.csv'' \<mapsto> text], ls_databases = Map.empty\<rparr>"

definition file_manager :: PositionManager where
  "file_manager = PositionManager_new (Some fresh_segment) ''c'' [] False"





lemma one_row_loads: "fst (initialize (csv_sources one_row_csv) 64 1 5 file_manager error_state_init)"
  by code_simp

lemma fresh_nul_free: "\<forall>i. nul \<notin> set (pos_id (ps_positions fresh_segment i))"
  by (simp add: fresh_segment_def init_positions_segment_def positions_segment_zero_def position_zero_def)

lemma initialize_well_formed_witness:
  "case initialize (csv_sources one_row_csv) 64 1 5 file_manager error_state_init of
     (ok, pm', errors') \<Rightarrow> ok \<and> errors' = error_state_init \<and> pm_ok pm' \<and> table_complete pm'"
proof -
  obtain pm' errors' where i: "initialize (csv_sources one_row_csv) 64 1 5 file_manager error_state_init
      = (True, pm', errors')"
    using one_row_loads by (cases "initialize (csv_sources one_row_csv) 64 1 5 file_manager error_state_init") auto
  have s: "pm_shm file_manager = Some fresh_segment" by (simp add: file_manager_def PositionManager_new_def)
  have n: "nul_free_sources (csv_sources one_row_csv)"
    by (simp add: nul_free_sources_def csv_sources_def one_row_csv_def nul_def)
  have "ph_init_state (ps_header fresh_segment) \<noteq> 1"
    by (simp add: fresh_segment_def init_positions_segment_def)
  with initialize_well_formed [OF i s n fresh_nul_free] show ?thesis by (simp add: i)
qed

definition stock_segment :: positions_shm_layout where
  "stock_segment = fresh_segment\<lparr>ps_header := (ps_header fresh_segment)\<lparr>ph_init_state := 1\<rparr>,
     ps_position_count := 1, ps_positions := (\<lambda>_. position_zero\<lparr>pos_id := ''XSHG_600000''\<rparr>)\<rparr>"

definition stock_manager :: PositionManager where
  "stock_manager = (PositionManager_new (Some stock_segment) [] [] False)
     \<lparr>security_to_row := [''XSHG_600000'' \<mapsto> 1]\<rparr>"

lemma restart_restores_table_witness:
  "case initialize (csv_sources []) 64 1 9 (PositionManager_new (Some stock_segment) ''c'' [] False) error_state_init of
     (ok, pm', errors') \<Rightarrow> ok \<and> get_position ''XSHG_600000'' pm' = get_position ''XSHG_600000'' stock_manager"
proof -
  obtain ok pm' errors' where i: "initialize (csv_sources []) 64 1 9
      (PositionManager_new (Some stock_segment) ''c'' [] False) error_state_init = (ok, pm', errors')"
    using prod_cases3 by blast
  have n: "normalize_internal_security_id ''XSHG_600000'' = Some ''XSHG_600000''" by code_simp
  have t: "table_ok stock_manager"
    by (simp add: table_ok_def pm_ok_def table_complete_def stock_manager_def stock_segment_def
        PositionManager_new_def n kMaxSecurityPositions_def kMaxPositions_def kFirstSecurityPositionIndex_def)
  have s: "pm_shm stock_manager = Some stock_segment" by (simp add: stock_manager_def PositionManager_new_def)
  have h: "header_compatible 64 (ps_header stock_segment)" "ph_init_state (ps_header stock_segment) = 1"
    by (simp_all add: stock_segment_def fresh_segment_def init_positions_segment_def header_compatible_iff)
  from restart_restores_table [OF t s h i] show ?thesis by (simp add: i)
qed

text \<open>A file with a row that loads and a row that does not.\<close>

definition bad_csv :: string where
  "bad_csv = one_row_csv @ ''position,XSHG_600001,,none'' @ [CHR 0x0A]"

lemma bad_csv_fails:
  "case initialize (csv_sources bad_csv) 64 1 5 file_manager error_state_init of
     (ok, pm', errors') \<Rightarrow> \<not> ok \<and> map_option ps_position_count (pm_shm pm') = Some 1"
  by code_simp

lemma failed_load_is_final_witness:
  "case initialize (csv_sources bad_csv) 64 1 5 file_manager error_state_init of
     (ok, pm', errors') \<Rightarrow> \<not> ok \<and> \<not> fst (initialize (csv_sources one_row_csv) 64 1 6
        (PositionManager_new (pm_shm pm') ''c'' [] False) error_state_init)"
proof -
  obtain pm' errors' shm' where i: "initialize (csv_sources bad_csv) 64 1 5 file_manager error_state_init
      = (False, pm', errors')" and shm': "pm_shm pm' = Some shm'" "ps_position_count shm' \<noteq> 0"
    using bad_csv_fails
    by (cases "initialize (csv_sources bad_csv) 64 1 5 file_manager error_state_init") auto
  have s: "pm_shm file_manager = Some fresh_segment" by (simp add: file_manager_def PositionManager_new_def)
  have h: "header_compatible 64 (ps_header fresh_segment)" "ph_init_state (ps_header fresh_segment) \<noteq> 1"
    by (simp_all add: fresh_segment_def init_positions_segment_def header_compatible_iff)
  from failed_load_is_final [OF i s h shm', of "csv_sources one_row_csv" 1 6 "''c''" "[]" False error_state_init]
  show ?thesis by (simp add: i shm')
qed


definition bank_columns :: "string list" where
  "bank_columns = [''position'', ''XSHE_000001'', ''Bank'', ''100'', ''0'', ''0'', ''0'', ''0'', ''0'', ''0'', ''0'', ''0'', ''0'', ''1'']"

lemma seed_row_exact_witness:
  "case apply_position_seed_row bank_columns 5 stock_manager of
     (ok, pm') \<Rightarrow> ok \<and> table_ok pm' \<and> row_of pm' ''XSHG_600000'' = row_of stock_manager ''XSHG_600000''"
proof -
  have "fst (apply_position_seed_row bank_columns 5 stock_manager)" by code_simp
  then obtain pm' where a: "apply_position_seed_row bank_columns 5 stock_manager = (True, pm')"
    by (cases "apply_position_seed_row bank_columns 5 stock_manager") simp
  have n: "normalize_internal_security_id ''XSHG_600000'' = Some ''XSHG_600000''"
    "normalize_internal_security_id (bank_columns ! 1) = Some ''XSHE_000001''"
    "normalize_security_key ''XSHG_600000'' = Some ''XSHG_600000''" by code_simp+
  have t: "table_ok stock_manager"
    by (simp add: table_ok_def pm_ok_def table_complete_def stock_manager_def stock_segment_def
        PositionManager_new_def n kMaxSecurityPositions_def kMaxPositions_def kFirstSecurityPositionIndex_def)
  have c: "\<forall>c \<in> set bank_columns. nul \<notin> set c" by (simp add: bank_columns_def nul_def)
  from seed_row_exact [OF t c a] n show ?thesis by (auto simp: a)
qed

text \<open>\<open>std::stoull\<close> takes a minus sign: a negative amount is stored as a huge one.\<close>

lemma negative_seed_wraps: "parse_u64_field ''-5'' = Some (2 ^ 64 - 5) \<and> parse_u64_field ''12abc'' = Some 12"
  by code_simp

end
