(* ===== verification/Monitor_Api.thy ===== *)
theory Monitor_Api
  imports Order_Api
begin

text \<open>
  \<^verbatim>\<open>src/api/order_monitor_api.cpp\<close> and \<^verbatim>\<open>src/api/position_monitor_api.cpp\<close>: the read-only C
  interfaces through which other processes watch the order pool and the position table.

  A monitor reads memory that others write at the same time.  So a call does not get one memory but
  a view: \<open>view k\<close> is the segment as it is when the call makes its \<open>k\<close>-th access, and an access reads
  one word, one fixed string or one enumeration.  How the views of a call may change is the business of
  \<^verbatim>\<open>Monitor_Facts.thy\<close>.  A null pointer is \<open>None\<close>, and \<open>out_given\<close> says whether an output parameter was
  passed.
\<close>

section \<open>The order monitor: data\<close>

datatype acct_mon_error =
    MON_OK | MON_ERR_NOT_INITIALIZED | MON_ERR_INVALID_PARAM | MON_ERR_SHM_FAILED | MON_ERR_NOT_FOUND
  | MON_ERR_RETRY | MON_ERR_INTERNAL

record acct_orders_mon_options =
  omo_orders_shm_name :: "string option"
  omo_trading_day :: "string option"

record acct_orders_mon_info_t =
  omi_magic :: u32
  omi_version :: u32
  omi_capacity :: u32
  omi_next_index :: u32
  omi_full_reject_count :: u64
  omi_create_time_ns :: u64
  omi_last_update_ns :: u64
  omi_trading_day :: string

record acct_orders_mon_snapshot =
  om_index :: u32
  om_seq :: u64
  om_last_update_ns :: u64
  om_stage :: u8
  om_source :: u8
  om_order_type :: u8
  om_passive_exec_algo :: u8
  om_trade_side :: u8
  om_market :: u8
  om_order_status :: u8
  om_active_strategy_claimed :: u8
  om_execution_algo :: u8
  om_execution_state :: u8
  om_internal_security_id :: string
  om_internal_order_id :: u32
  om_orig_internal_order_id :: u32
  om_md_time_driven :: u32
  om_md_time_entrust :: u32
  om_md_time_cancel_sent :: u32
  om_md_time_cancel_done :: u32
  om_md_time_broker_response :: u32
  om_md_time_market_response :: u32
  om_md_time_traded_first :: u32
  om_md_time_traded_latest :: u32
  om_volume_entrust :: u64
  om_volume_traded :: u64
  om_volume_remain :: u64
  om_target_volume :: u64
  om_working_volume :: u64
  om_schedulable_volume :: u64
  om_dprice_entrust :: u64
  om_dprice_traded :: u64
  om_dvalue_traded :: u64
  om_dfee_estimate :: u64
  om_dfee_executed :: u64
  om_broker_order_id_u64 :: u64
  om_security_id :: string
  om_broker_order_id :: string

record acct_orders_monitor_context =
  omc_mapped :: "nat option"
  omc_base_name :: string
  omc_trading_day :: string
  omc_dated_name :: string
  omc_initialized :: bool

text \<open>The bytes of the enumerations.\<close>

fun order_type_byte :: "OrderType \<Rightarrow> u8" where
  "order_type_byte OrderType.NotSet = 0"
| "order_type_byte New = 1"
| "order_type_byte Cancel = 2"
| "order_type_byte OrderType.Unknown = 255"

fun trade_side_byte :: "TradeSide \<Rightarrow> u8" where
  "trade_side_byte TradeSide.NotSet = 0"
| "trade_side_byte Buy = 1"
| "trade_side_byte Sell = 2"

fun market_byte :: "Market \<Rightarrow> u8" where
  "market_byte Market.NotSet = 0"
| "market_byte SZ = 1"
| "market_byte SH = 2"
| "market_byte BJ = 3"
| "market_byte HK = 4"
| "market_byte Market.Unknown = 255"

fun order_state_byte :: "OrderState \<Rightarrow> u8" where
  "order_state_byte OrderState.NotSet = 0"
| "order_state_byte UserSubmitted = 0x12"
| "order_state_byte RiskControllerPending = 0x20"
| "order_state_byte RiskControllerRejected = 0x21"
| "order_state_byte RiskControllerAccepted = 0x22"
| "order_state_byte TraderPending = 0x30"
| "order_state_byte TraderRejected = 0x31"
| "order_state_byte TraderSubmitted = 0x32"
| "order_state_byte TraderError = 0x33"
| "order_state_byte BrokerRejected = 0x41"
| "order_state_byte BrokerAccepted = 0x42"
| "order_state_byte MarketRejected = 0x51"
| "order_state_byte MarketAccepted = 0x52"
| "order_state_byte OrderState.Finished = 0x62"
| "order_state_byte OrderState.Unknown = 0xFF"

fun passive_algo_byte :: "PassiveExecutionAlgo \<Rightarrow> u8" where
  "passive_algo_byte Default = 0"
| "passive_algo_byte AlgoNone = 1"
| "passive_algo_byte PassiveExecutionAlgo.FixedSize = 2"
| "passive_algo_byte PassiveExecutionAlgo.TWAP = 3"
| "passive_algo_byte PassiveExecutionAlgo.VWAP = 4"
| "passive_algo_byte PassiveExecutionAlgo.Iceberg = 5"

fun execution_state_byte :: "ExecutionState \<Rightarrow> u8" where
  "execution_state_byte ExecNone = 0"
| "execution_state_byte Running = 1"
| "execution_state_byte Cancelling = 2"
| "execution_state_byte ExecutionState.Finished = 3"
| "execution_state_byte Failed = 4"

fun slot_stage_byte :: "OrderSlotState \<Rightarrow> u8" where
  "slot_stage_byte Empty = 0"
| "slot_stage_byte Reserved = 1"
| "slot_stage_byte UpstreamQueued = 2"
| "slot_stage_byte UpstreamDequeued = 3"
| "slot_stage_byte RiskRejected = 4"
| "slot_stage_byte DownstreamQueued = 5"
| "slot_stage_byte DownstreamDequeued = 6"
| "slot_stage_byte Terminal = 7"
| "slot_stage_byte QueuePushFailed = 8"

fun slot_source_byte :: "order_slot_source_t \<Rightarrow> u8" where
  "slot_source_byte UnknownSource = 0"
| "slot_source_byte User = 1"
| "slot_source_byte AccountInternal = 2"

text \<open>The string member of the union \<open>broker_order_id\<close>, of which a copy carries only the first eight bytes.\<close>

definition broker_id_string :: "u64 \<Rightarrow> string" where
  "broker_id_string w = cstr_view (map (\<lambda>k. char_of (unat (drop_bit (8 * k) w AND 0xFF))) [0..<8])"

section \<open>The order monitor: reading\<close>

definition monitor_resolve_options :: "string option \<Rightarrow> acct_orders_mon_options option \<Rightarrow> (string \<times> string) option" where
  "monitor_resolve_options env_day options =
     (let base_name = kOrdersShmName; trading_day = default_trading_day env_day
      in case options of
           None \<Rightarrow> Some (base_name, trading_day)
         | Some opts \<Rightarrow>
             let base_name = given_or base_name (omo_orders_shm_name opts);
                 trading_day = given_or trading_day (omo_trading_day opts)
             in if base_name = [] then None
                else if is_valid_trading_day trading_day then Some (base_name, trading_day) else None)"

text \<open>A view of the order pool; the slots are those of \<open>og_pool\<close>.\<close>

type_synonym orders_view = "nat \<Rightarrow> orders_segment"

text \<open>Two accesses, from the \<open>k\<close>-th on.\<close>

definition is_index_visible :: "orders_view \<Rightarrow> nat \<Rightarrow> u32 \<Rightarrow> bool" where
  "is_index_visible view k index =
     (let upper = os_next_index (og_pool (view k))
      in index < upper \<and> index < os_capacity (og_pool (view (k + 1))))"

definition fill_snapshot ::
    "u32 \<Rightarrow> u64 \<Rightarrow> u64 \<Rightarrow> OrderSlotState \<Rightarrow> order_slot_source_t \<Rightarrow> OrderRequest \<Rightarrow> acct_orders_mon_snapshot" where
  "fill_snapshot index seq last_update stage source req = \<lparr>
     om_index = index, om_seq = seq, om_last_update_ns = last_update,
     om_stage = slot_stage_byte stage, om_source = slot_source_byte source,
     om_order_type = order_type_byte (order_type req),
     om_passive_exec_algo = passive_algo_byte (passive_execution_algo req),
     om_trade_side = trade_side_byte (trade_side req), om_market = market_byte (market req),
     om_order_status = order_state_byte (order_state req),
     om_active_strategy_claimed = active_strategy_claimed req,
     om_execution_algo = passive_algo_byte (execution_algo req),
     om_execution_state = execution_state_byte (execution_state req),
     om_internal_security_id = internal_security_id req,
     om_internal_order_id = internal_order_id req, om_orig_internal_order_id = orig_internal_order_id req,
     om_md_time_driven = md_time_driven req, om_md_time_entrust = md_time_entrust req,
     om_md_time_cancel_sent = md_time_cancel_sent req, om_md_time_cancel_done = md_time_cancel_done req,
     om_md_time_broker_response = md_time_broker_response req,
     om_md_time_market_response = md_time_market_response req,
     om_md_time_traded_first = md_time_traded_first req, om_md_time_traded_latest = md_time_traded_latest req,
     om_volume_entrust = volume_entrust req, om_volume_traded = volume_traded req,
     om_volume_remain = volume_remain req, om_target_volume = target_volume req,
     om_working_volume = working_volume req, om_schedulable_volume = schedulable_volume req,
     om_dprice_entrust = dprice_entrust req, om_dprice_traded = dprice_traded req,
     om_dvalue_traded = dvalue_traded req, om_dfee_estimate = dfee_estimate req,
     om_dfee_executed = dfee_executed req, om_broker_order_id_u64 = broker_order_id req,
     om_security_id = security_id req, om_broker_order_id = broker_id_string (broker_order_id req)\<rparr>"

text \<open>The copy constructor of \<open>OrderRequest\<close>, member by member in its order: 32 accesses from the \<open>k\<close>-th on.\<close>

definition copy_request :: "(nat \<Rightarrow> OrderRequest) \<Rightarrow> nat \<Rightarrow> OrderRequest" where
  "copy_request r k = \<lparr>
     internal_order_id = internal_order_id (r k),
     passive_execution_algo = passive_execution_algo (r (k + 1)),
     order_type = order_type (r (k + 2)), trade_side = trade_side (r (k + 3)), market = market (r (k + 4)),
     volume_entrust = volume_entrust (r (k + 5)), dprice_entrust = dprice_entrust (r (k + 6)),
     orig_internal_order_id = orig_internal_order_id (r (k + 9)),
     internal_security_id = internal_security_id (r (k + 12)), security_id = security_id (r (k + 13)),
     active_strategy_claimed = active_strategy_claimed (r (k + 14)),
     broker_order_id = broker_order_id (r (k + 15)), volume_traded = volume_traded (r (k + 16)),
     volume_remain = volume_remain (r (k + 17)), dvalue_traded = dvalue_traded (r (k + 18)),
     dprice_traded = dprice_traded (r (k + 19)), dfee_estimate = dfee_estimate (r (k + 20)),
     dfee_executed = dfee_executed (r (k + 21)), md_time_driven = md_time_driven (r (k + 7)),
     md_time_entrust = md_time_entrust (r (k + 8)), md_time_cancel_sent = md_time_cancel_sent (r (k + 10)),
     md_time_cancel_done = md_time_cancel_done (r (k + 11)),
     md_time_broker_response = md_time_broker_response (r (k + 22)),
     md_time_market_response = md_time_market_response (r (k + 23)),
     md_time_traded_first = md_time_traded_first (r (k + 24)),
     md_time_traded_latest = md_time_traded_latest (r (k + 25)), order_state = order_state (r (k + 31)),
     execution_algo = execution_algo (r (k + 26)), execution_state = execution_state (r (k + 27)),
     target_volume = target_volume (r (k + 28)), working_volume = working_volume (r (k + 29)),
     schedulable_volume = schedulable_volume (r (k + 30))\<rparr>"

text \<open>\<open>n\<close> attempts on the slot, whose \<open>k\<close>-th view is \<open>slot k\<close>.\<close>

fun snapshot_attempts :: "nat \<Rightarrow> u32 \<Rightarrow> (nat \<Rightarrow> OrderSlot) \<Rightarrow> nat \<Rightarrow> acct_orders_mon_snapshot option" where
  "snapshot_attempts 0 index slot k = None"
| "snapshot_attempts (Suc n) index slot k =
     (let seq0 = slot_seq (slot k)
      in if seq0 AND 1 \<noteq> 0 then snapshot_attempts n index slot (k + 1)
         else let last_update = slot_last_update_ns (slot (k + 1));
                  stage = slot_stage (slot (k + 2));
                  source = slot_source (slot (k + 3));
                  req = copy_request (slot_request \<circ> slot) (k + 4);
                  seq1 = slot_seq (slot (k + 36))
              in if seq0 = seq1 \<and> seq1 AND 1 = 0
                 then Some (fill_snapshot index seq1 last_update stage source req)
                 else snapshot_attempts n index slot (k + 37))"

definition slot_view :: "orders_view \<Rightarrow> u32 \<Rightarrow> nat \<Rightarrow> OrderSlot" where
  "slot_view view index k = os_slots (og_pool (view k)) index"

definition try_read_stable_snapshot :: "orders_view \<Rightarrow> nat \<Rightarrow> u32 \<Rightarrow> acct_orders_mon_snapshot option" where
  "try_read_stable_snapshot view k index =
     (if \<not> is_index_visible view k index then None
      else snapshot_attempts 32 index (slot_view view index) (k + 2))"

text \<open>The header does not change once it is written; one view serves for it.\<close>

definition monitor_validate_header :: "nat \<Rightarrow> string \<Rightarrow> orders_segment \<Rightarrow> bool" where
  "monitor_validate_header bytes day s =
     (if og_magic s \<noteq> kOrdersMagic then False
      else if og_version s \<noteq> kOrdersVersion then False
      else if og_header_size s \<noteq> kOrdersHeaderSize then False
      else if og_total_size s \<noteq> of_nat bytes then False
      else if os_capacity (og_pool s) \<noteq> kDailyOrderPoolCapacity then False
      else if og_init_state s \<noteq> 1 then False
      else take 8 (og_trading_day s) = take 8 day)"

text \<open>\<open>ShmGenericReader::open\<close>: the object it maps.\<close>

definition reader_open :: "string \<Rightarrow> nat \<Rightarrow> os_faults \<Rightarrow> 'c shm_os \<Rightarrow> nat option" where
  "reader_open name bytes fl os =
     (case px_names os name of
        None \<Rightarrow> None
      | Some i \<Rightarrow>
          if ft_open fl \<noteq> 0 then None
          else if ft_fstat fl \<noteq> 0 then None
          else if so_size (px_objects os i) \<noteq> bytes then None
          else if ft_map fl \<noteq> 0 then None
          else Some i)"

definition acct_orders_mon_open ::
    "string option \<Rightarrow> acct_orders_mon_options option \<Rightarrow> bool \<Rightarrow> bool \<Rightarrow> nat \<Rightarrow> os_faults \<Rightarrow> orders_segment shm_os
      \<Rightarrow> acct_mon_error \<times> acct_orders_monitor_context option" where
  "acct_orders_mon_open env_day options out_given file_backend bytes fl os =
     (if \<not> out_given then (MON_ERR_INVALID_PARAM, None)
      else case monitor_resolve_options env_day options of
        None \<Rightarrow> (MON_ERR_INVALID_PARAM, None)
      | Some (base_name, trading_day) \<Rightarrow>
          if file_backend then (MON_ERR_SHM_FAILED, None)
          else let dated_name = make_orders_shm_name base_name trading_day
               in case reader_open dated_name bytes fl os of
                    None \<Rightarrow> (MON_ERR_SHM_FAILED, None)
                  | Some i \<Rightarrow>
                      if \<not> monitor_validate_header bytes trading_day (px_read i os)
                      then (MON_ERR_SHM_FAILED, None)
                      else (MON_OK, Some \<lparr>omc_mapped = Some i, omc_base_name = base_name,
                             omc_trading_day = trading_day, omc_dated_name = dated_name,
                             omc_initialized = True\<rparr>))"

definition acct_orders_mon_close ::
    "acct_orders_monitor_context option \<Rightarrow> acct_mon_error \<times> acct_orders_monitor_context option" where
  "acct_orders_mon_close ctx = (case ctx of None \<Rightarrow> (MON_ERR_INVALID_PARAM, None) | Some _ \<Rightarrow> (MON_OK, None))"

definition acct_orders_mon_info ::
    "acct_orders_monitor_context option \<Rightarrow> bool \<Rightarrow> orders_view \<Rightarrow> acct_mon_error \<times> acct_orders_mon_info_t option" where
  "acct_orders_mon_info ctx out_given view =
     (case ctx of
        None \<Rightarrow> (MON_ERR_INVALID_PARAM, None)
      | Some context \<Rightarrow>
          if \<not> out_given then (MON_ERR_INVALID_PARAM, None)
          else if \<not> omc_initialized context \<or> omc_mapped context = None then (MON_ERR_NOT_INITIALIZED, None)
          else (MON_OK, Some \<lparr>omi_magic = og_magic (view 0), omi_version = og_version (view 1),
                 omi_capacity = os_capacity (og_pool (view 2)), omi_next_index = os_next_index (og_pool (view 3)),
                 omi_full_reject_count = os_full_reject_count (og_pool (view 4)),
                 omi_create_time_ns = og_create_time (view 5),
                 omi_last_update_ns = os_last_update (og_pool (view 6)),
                 omi_trading_day = take 8 (og_trading_day (view 7))\<rparr>))"

definition acct_orders_mon_read ::
    "acct_orders_monitor_context option \<Rightarrow> u32 \<Rightarrow> bool \<Rightarrow> orders_view \<Rightarrow> acct_mon_error \<times> acct_orders_mon_snapshot option" where
  "acct_orders_mon_read ctx index out_given view =
     (case ctx of
        None \<Rightarrow> (MON_ERR_INVALID_PARAM, None)
      | Some context \<Rightarrow>
          if \<not> out_given then (MON_ERR_INVALID_PARAM, None)
          else if \<not> omc_initialized context \<or> omc_mapped context = None then (MON_ERR_NOT_INITIALIZED, None)
          else if \<not> is_index_visible view 0 index then (MON_ERR_NOT_FOUND, None)
          else case try_read_stable_snapshot view 2 index of
                 None \<Rightarrow> (MON_ERR_RETRY, None)
               | Some snapshot \<Rightarrow> (MON_OK, Some snapshot))"


section \<open>The position monitor\<close>

datatype acct_pos_mon_error =
    POS_MON_OK | POS_MON_ERR_NOT_INITIALIZED | POS_MON_ERR_INVALID_PARAM | POS_MON_ERR_SHM_FAILED
  | POS_MON_ERR_NOT_FOUND | POS_MON_ERR_RETRY | POS_MON_ERR_INTERNAL

record acct_positions_mon_info_t =
  pmi_magic :: u32
  pmi_version :: u32
  pmi_capacity :: u32
  pmi_init_state :: u32
  pmi_position_count :: u32
  pmi_next_security_id :: u32
  pmi_create_time_ns :: u64
  pmi_last_update_ns :: u64

record acct_positions_mon_fund_snapshot =
  fs_last_update_ns :: u64
  fs_id :: string
  fs_name :: string
  fs_total_asset :: u64
  fs_available :: u64
  fs_frozen :: u64
  fs_market_value :: u64
  fs_count_order :: u64

record acct_positions_mon_position_snapshot =
  ps_snap_index :: u32
  ps_snap_row_index :: u32
  ps_snap_last_update_ns :: u64
  ps_snap_id :: string
  ps_snap_name :: string
  ps_snap_available :: u64
  ps_snap_volume_available_t0 :: u64
  ps_snap_volume_available_t1 :: u64
  ps_snap_volume_buy :: u64
  ps_snap_dvalue_buy :: u64
  ps_snap_volume_buy_traded :: u64
  ps_snap_dvalue_buy_traded :: u64
  ps_snap_volume_sell :: u64
  ps_snap_dvalue_sell :: u64
  ps_snap_volume_sell_traded :: u64
  ps_snap_dvalue_sell_traded :: u64
  ps_snap_count_order :: u64

record acct_positions_monitor_context =
  pmc_mapped :: "nat option"
  pmc_name :: string
  pmc_initialized :: bool

definition kDefaultPositionsShmName :: string where
  "kDefaultPositionsShmName = ''/positions_shm''"

definition clamp_position_count :: "nat \<Rightarrow> u32" where
  "clamp_position_count raw_count =
     (if raw_count > kMaxSecurityPositions then of_nat kMaxSecurityPositions else of_nat raw_count)"

text \<open>The options structure is the optional name.\<close>

definition positions_resolve_options :: "string option \<Rightarrow> string option" where
  "positions_resolve_options options =
     (let positions_shm_name = given_or kDefaultPositionsShmName options
      in if positions_shm_name = [] then None else Some positions_shm_name)"

definition positions_validate_header :: "nat \<Rightarrow> positions_shm_layout \<Rightarrow> bool" where
  "positions_validate_header bytes s =
     (let header = ps_header s
      in if ph_magic header \<noteq> kPositionsMagic then False
         else if ph_version header \<noteq> kPositionsVersion then False
         else if ph_header_size header \<noteq> kPositionsHeaderSize then False
         else if ph_total_size header \<noteq> of_nat bytes then False
         else if ph_capacity header \<noteq> of_nat kMaxPositions then False
         else ph_init_state header = 1)"

type_synonym positions_view = "nat \<Rightarrow> positions_shm_layout"

text \<open>\<open>n\<close> attempts on the FUND row: the lock is read before and after the fields.\<close>

fun fund_attempts :: "nat \<Rightarrow> positions_view \<Rightarrow> nat \<Rightarrow> acct_positions_mon_fund_snapshot option" where
  "fund_attempts 0 view k = None"
| "fund_attempts (Suc n) view k =
     (let row = (\<lambda>i. ps_positions (view i) kFundPositionIndex)
      in if pos_locked (row k) \<noteq> 0 then fund_attempts n view (k + 1)
         else let snapshot = \<lparr>fs_last_update_ns = ph_last_update (ps_header (view (k + 1))),
                    fs_id = pos_id (row (k + 2)), fs_name = pos_name (row (k + 3)),
                    fs_total_asset = fund_total_asset_field (row (k + 4)),
                    fs_available = fund_available_field (row (k + 5)),
                    fs_frozen = fund_frozen_field (row (k + 6)),
                    fs_market_value = fund_market_value_field (row (k + 7)),
                    fs_count_order = count_order (row (k + 8))\<rparr>
              in if pos_locked (row (k + 9)) = 0 then Some snapshot else fund_attempts n view (k + 10))"

definition try_read_stable_fund_snapshot :: "positions_view \<Rightarrow> nat \<Rightarrow> acct_positions_mon_fund_snapshot option" where
  "try_read_stable_fund_snapshot view k = fund_attempts 32 view k"

text \<open>An attempt on a security row that ends unlocked decides: a row without an id is not reported.\<close>

fun position_attempts :: "nat \<Rightarrow> u32 \<Rightarrow> positions_view \<Rightarrow> nat \<Rightarrow> acct_positions_mon_position_snapshot option" where
  "position_attempts 0 index view k = None"
| "position_attempts (Suc n) index view k =
     (let row_index = index + of_nat kFirstSecurityPositionIndex;
          row = (\<lambda>i. ps_positions (view i) (unat row_index))
      in if pos_locked (row k) \<noteq> 0 then position_attempts n index view (k + 1)
         else let snapshot = \<lparr>ps_snap_index = index, ps_snap_row_index = row_index,
                    ps_snap_last_update_ns = ph_last_update (ps_header (view (k + 1))),
                    ps_snap_id = pos_id (row (k + 2)), ps_snap_name = pos_name (row (k + 3)),
                    ps_snap_available = pos_available (row (k + 4)),
                    ps_snap_volume_available_t0 = volume_available_t0 (row (k + 5)),
                    ps_snap_volume_available_t1 = volume_available_t1 (row (k + 6)),
                    ps_snap_volume_buy = volume_buy (row (k + 7)),
                    ps_snap_dvalue_buy = dvalue_buy (row (k + 8)),
                    ps_snap_volume_buy_traded = volume_buy_traded (row (k + 9)),
                    ps_snap_dvalue_buy_traded = dvalue_buy_traded (row (k + 10)),
                    ps_snap_volume_sell = volume_sell (row (k + 11)),
                    ps_snap_dvalue_sell = dvalue_sell (row (k + 12)),
                    ps_snap_volume_sell_traded = volume_sell_traded (row (k + 13)),
                    ps_snap_dvalue_sell_traded = dvalue_sell_traded (row (k + 14)),
                    ps_snap_count_order = count_order (row (k + 15))\<rparr>
              in if pos_locked (row (k + 16)) = 0
                 then if pos_id (row (k + 17)) = [] then None else Some snapshot
                 else position_attempts n index view (k + 17))"

definition try_read_stable_position_snapshot ::
    "positions_view \<Rightarrow> nat \<Rightarrow> u32 \<Rightarrow> acct_positions_mon_position_snapshot option" where
  "try_read_stable_position_snapshot view k index =
     (let row_index = index + of_nat kFirstSecurityPositionIndex
      in if row_index \<ge> of_nat kMaxPositions then None else position_attempts 32 index view k)"

definition acct_positions_mon_open ::
    "string option \<Rightarrow> bool \<Rightarrow> bool \<Rightarrow> nat \<Rightarrow> os_faults \<Rightarrow> positions_shm_layout shm_os
      \<Rightarrow> acct_pos_mon_error \<times> acct_positions_monitor_context option" where
  "acct_positions_mon_open options out_given file_backend bytes fl os =
     (if \<not> out_given then (POS_MON_ERR_INVALID_PARAM, None)
      else case positions_resolve_options options of
        None \<Rightarrow> (POS_MON_ERR_INVALID_PARAM, None)
      | Some name \<Rightarrow>
          if file_backend then (POS_MON_ERR_SHM_FAILED, None)
          else case reader_open name bytes fl os of
                 None \<Rightarrow> (POS_MON_ERR_SHM_FAILED, None)
               | Some i \<Rightarrow>
                   if \<not> positions_validate_header bytes (px_read i os) then (POS_MON_ERR_SHM_FAILED, None)
                   else (POS_MON_OK, Some \<lparr>pmc_mapped = Some i, pmc_name = name, pmc_initialized = True\<rparr>))"

definition acct_positions_mon_close ::
    "acct_positions_monitor_context option \<Rightarrow> acct_pos_mon_error \<times> acct_positions_monitor_context option" where
  "acct_positions_mon_close ctx =
     (case ctx of None \<Rightarrow> (POS_MON_ERR_INVALID_PARAM, None) | Some _ \<Rightarrow> (POS_MON_OK, None))"

text \<open>The checks all calls on a context begin with.\<close>

definition positions_context_error :: "acct_positions_monitor_context option \<Rightarrow> bool \<Rightarrow> acct_pos_mon_error" where
  "positions_context_error ctx out_given =
     (case ctx of
        None \<Rightarrow> POS_MON_ERR_INVALID_PARAM
      | Some context \<Rightarrow>
          if \<not> out_given then POS_MON_ERR_INVALID_PARAM
          else if \<not> pmc_initialized context \<or> pmc_mapped context = None then POS_MON_ERR_NOT_INITIALIZED
          else POS_MON_OK)"

definition acct_positions_mon_info ::
    "acct_positions_monitor_context option \<Rightarrow> bool \<Rightarrow> positions_view
      \<Rightarrow> acct_pos_mon_error \<times> acct_positions_mon_info_t option" where
  "acct_positions_mon_info ctx out_given view =
     (let rc = positions_context_error ctx out_given
      in if rc \<noteq> POS_MON_OK then (rc, None)
         else (POS_MON_OK, Some \<lparr>pmi_magic = ph_magic (ps_header (view 0)),
                pmi_version = ph_version (ps_header (view 1)), pmi_capacity = ph_capacity (ps_header (view 2)),
                pmi_init_state = ph_init_state (ps_header (view 3)),
                pmi_position_count = clamp_position_count (ps_position_count (view 4)),
                pmi_next_security_id = ph_id (ps_header (view 5)),
                pmi_create_time_ns = ph_create_time (ps_header (view 6)),
                pmi_last_update_ns = ph_last_update (ps_header (view 7))\<rparr>))"

definition acct_positions_mon_read_fund ::
    "acct_positions_monitor_context option \<Rightarrow> bool \<Rightarrow> positions_view
      \<Rightarrow> acct_pos_mon_error \<times> acct_positions_mon_fund_snapshot option" where
  "acct_positions_mon_read_fund ctx out_given view =
     (let rc = positions_context_error ctx out_given
      in if rc \<noteq> POS_MON_OK then (rc, None)
         else case try_read_stable_fund_snapshot view 0 of
                None \<Rightarrow> (POS_MON_ERR_RETRY, None)
              | Some snapshot \<Rightarrow> (POS_MON_OK, Some snapshot))"

definition acct_positions_mon_read_position ::
    "acct_positions_monitor_context option \<Rightarrow> u32 \<Rightarrow> bool \<Rightarrow> positions_view
      \<Rightarrow> acct_pos_mon_error \<times> acct_positions_mon_position_snapshot option" where
  "acct_positions_mon_read_position ctx index out_given view =
     (let rc = positions_context_error ctx out_given
      in if rc \<noteq> POS_MON_OK then (rc, None)
         else if index \<ge> clamp_position_count (ps_position_count (view 0)) then (POS_MON_ERR_NOT_FOUND, None)
         else case try_read_stable_position_snapshot view 1 index of
                None \<Rightarrow> (POS_MON_ERR_RETRY, None)
              | Some snapshot \<Rightarrow> (POS_MON_OK, Some snapshot))"


section \<open>Error texts\<close>

text \<open>The default branch, for a code that is no enumerator, does not arise.\<close>

fun acct_orders_mon_strerror :: "acct_mon_error \<Rightarrow> string" where
  "acct_orders_mon_strerror MON_OK = ''Success''"
| "acct_orders_mon_strerror MON_ERR_NOT_INITIALIZED = ''Context not initialized''"
| "acct_orders_mon_strerror MON_ERR_INVALID_PARAM = ''Invalid parameter''"
| "acct_orders_mon_strerror MON_ERR_SHM_FAILED = ''Shared memory operation failed''"
| "acct_orders_mon_strerror MON_ERR_NOT_FOUND = ''Order index not found''"
| "acct_orders_mon_strerror MON_ERR_RETRY = ''Snapshot not stable, retry''"
| "acct_orders_mon_strerror MON_ERR_INTERNAL = ''Internal error''"

fun acct_positions_mon_strerror :: "acct_pos_mon_error \<Rightarrow> string" where
  "acct_positions_mon_strerror POS_MON_OK = ''Success''"
| "acct_positions_mon_strerror POS_MON_ERR_NOT_INITIALIZED = ''Context not initialized''"
| "acct_positions_mon_strerror POS_MON_ERR_INVALID_PARAM = ''Invalid parameter''"
| "acct_positions_mon_strerror POS_MON_ERR_SHM_FAILED = ''Shared memory operation failed''"
| "acct_positions_mon_strerror POS_MON_ERR_NOT_FOUND = ''Position index not found''"
| "acct_positions_mon_strerror POS_MON_ERR_RETRY = ''Snapshot not stable, retry''"
| "acct_positions_mon_strerror POS_MON_ERR_INTERNAL = ''Internal error''"

end
