(* ===== verification/Monitor_Facts.thy ===== *)
theory Monitor_Facts
  imports Monitor_Api
begin

text \<open>
  The monitors under interference.  A slot of the order pool is written by programs that run
  \<open>orders_shm_mutate_slot\<close> of \<^verbatim>\<open>shm/orders_shm.hpp\<close> in steps; the views of a reading call are moments of
  such a run.  If the writers of a slot take turns, what the order monitor reports is the slot at one
  moment between two writes (theorem \<open>order_monitor_atomic\<close>).  Without that it need not be, and what the
  position monitor reports is not even then, since its lock leaves no trace (theorem
  \<open>fund_snapshot_tears\<close>).
\<close>

section \<open>The writers of a slot\<close>

text \<open>
  A writer has loaded the sequence number and made it even (\<open>WLoaded\<close>), or stored the odd number after it
  (\<open>WBegun\<close>).  What the mutator stores is left open: any number of changes of the other fields.
\<close>

datatype writer_pc = WIdle | WLoaded u64 | WBegun u64

record slot_sys =
  ws_slot :: OrderSlot
  ws_pc :: "nat \<Rightarrow> writer_pc"

definition even_seq :: "u64 \<Rightarrow> u64" where
  "even_seq seq = (if seq AND 1 \<noteq> 0 then seq + 1 else seq)"

inductive slot_step :: "nat \<Rightarrow> slot_sys \<Rightarrow> slot_sys \<Rightarrow> bool" for w where
  w_load: "ws_pc s w = WIdle \<Longrightarrow>
     slot_step w s (s\<lparr>ws_pc := (ws_pc s)(w := WLoaded (even_seq (slot_seq (ws_slot s))))\<rparr>)"
| w_begin: "ws_pc s w = WLoaded seq \<Longrightarrow>
     slot_step w s (s\<lparr>ws_slot := (ws_slot s)\<lparr>slot_seq := seq + 1\<rparr>, ws_pc := (ws_pc s)(w := WBegun seq)\<rparr>)"
| w_write: "ws_pc s w = WBegun seq \<Longrightarrow> slot_seq slot' = slot_seq (ws_slot s) \<Longrightarrow>
     slot_step w s (s\<lparr>ws_slot := slot'\<rparr>)"
| w_publish: "ws_pc s w = WBegun seq \<Longrightarrow>
     slot_step w s (s\<lparr>ws_slot := (ws_slot s)\<lparr>slot_seq := seq + 2\<rparr>, ws_pc := (ws_pc s)(w := WIdle)\<rparr>)"

inductive_cases slot_stepE: "slot_step w s s'"

text \<open>A run from a moment at which nobody writes: at each instant one writer makes a step, or none.\<close>

definition slot_run :: "(nat \<Rightarrow> slot_sys) \<Rightarrow> bool" where
  "slot_run g \<longleftrightarrow> (\<forall>w. ws_pc (g 0) w = WIdle) \<and> (\<forall>n. g (Suc n) = g n \<or> (\<exists>w. slot_step w (g n) (g (Suc n))))"

definition writers_take_turns :: "(nat \<Rightarrow> slot_sys) \<Rightarrow> bool" where
  "writers_take_turns g \<longleftrightarrow> (\<forall>n w w'. ws_pc (g n) w \<noteq> WIdle \<longrightarrow> ws_pc (g n) w' \<noteq> WIdle \<longrightarrow> w = w')"

definition settled :: "slot_sys \<Rightarrow> bool" where
  "settled s \<longleftrightarrow> (\<forall>w seq. ws_pc s w \<noteq> WBegun seq)"

text \<open>A writer that runs alone does to the slot what \<open>orders_shm_mutate_slot\<close> does.\<close>

lemma writer_alone_mutates:
  assumes "ws_pc s w = WIdle" "slot_seq (f ((ws_slot s)\<lparr>slot_seq := even_seq (slot_seq (ws_slot s)) + 1\<rparr>))
      = even_seq (slot_seq (ws_slot s)) + 1"
    and "orders_shm_index_exists shm index" "ws_slot s = os_slots shm index"
  shows "\<exists>s1 s2 s3 s4. slot_step w s s1 \<and> slot_step w s1 s2 \<and> slot_step w s2 s3 \<and> slot_step w s3 s4
    \<and> ws_pc s4 = ws_pc s \<and> ws_slot s4 = os_slots (snd (orders_shm_mutate_slot f now index shm)) index"
proof -
  define q where "q = even_seq (slot_seq (ws_slot s))"
  define s1 where "s1 = s\<lparr>ws_pc := (ws_pc s)(w := WLoaded q)\<rparr>"
  define s2 where "s2 = s1\<lparr>ws_slot := (ws_slot s1)\<lparr>slot_seq := q + 1\<rparr>, ws_pc := (ws_pc s1)(w := WBegun q)\<rparr>"
  define s3 where "s3 = s2\<lparr>ws_slot := f (ws_slot s2)\<rparr>"
  define s4 where "s4 = s3\<lparr>ws_slot := (ws_slot s3)\<lparr>slot_seq := q + 2\<rparr>, ws_pc := (ws_pc s3)(w := WIdle)\<rparr>"
  have "slot_step w s s1" unfolding s1_def q_def using assms(1) by (rule w_load)
  moreover have "slot_step w s1 s2" unfolding s2_def by (rule w_begin) (simp add: s1_def)
  moreover have "slot_step w s2 s3" unfolding s3_def
    by (rule w_write [of _ _ q]) (use assms(2) in \<open>simp_all add: s2_def s1_def q_def [symmetric]\<close>)
  moreover have "slot_step w s3 s4" unfolding s4_def by (rule w_publish) (simp add: s3_def s2_def)
  moreover have "ws_pc s4 = ws_pc s"
    using assms(1) by (auto simp: s4_def s3_def s2_def s1_def)
  moreover have "ws_slot s4 = os_slots (snd (orders_shm_mutate_slot f now index shm)) index"
    using assms(3,4)
    by (simp add: orders_shm_mutate_slot_def Let_def s4_def s3_def s2_def s1_def q_def even_seq_def)
  ultimately show ?thesis by blast
qed

section \<open>What the sequence number tells\<close>

definition writer_inv :: "slot_sys \<Rightarrow> bool" where
  "writer_inv s \<longleftrightarrow> (\<forall>w seq. ws_pc s w = WLoaded seq \<longrightarrow> seq = even_seq (slot_seq (ws_slot s)))
     \<and> (\<forall>w seq. ws_pc s w = WBegun seq \<longrightarrow> even seq \<and> slot_seq (ws_slot s) = seq + 1)"

lemma even_even_seq [simp]: "even (even_seq seq)"
  by (simp add: even_seq_def even_and_1)

lemma run_inv:
  assumes "slot_run g" "writers_take_turns g"
  shows "writer_inv (g n)"
proof (induction n)
  case 0
  then show ?case using assms(1) by (simp add: slot_run_def writer_inv_def)
next
  case (Suc n)
  have turn: "w' = w" if "ws_pc (g m) w \<noteq> WIdle" "ws_pc (g m) w' \<noteq> WIdle" for m w w'
    using assms(2) that unfolding writers_take_turns_def by blast
  consider "g (Suc n) = g n" | w where "slot_step w (g n) (g (Suc n))"
    using assms(1) unfolding slot_run_def by blast
  then show ?case
  proof cases
    case 1
    then show ?thesis using Suc by simp
  next
    case (2 w)
    have idle: "ws_pc (g (Suc n)) w' = WIdle" if "ws_pc (g (Suc n)) w \<noteq> WIdle" "w' \<noteq> w" for w'
      using turn [of "Suc n" w w'] that by blast
    have old: "ws_pc (g n) w' = WIdle" if "ws_pc (g n) w \<noteq> WIdle" "w' \<noteq> w" for w'
      using turn [of n w w'] that by blast
    from 2 show ?thesis
    proof (cases rule: slot_step.cases)
      case w_load
      then have "ws_pc (g (Suc n)) w' = WIdle" if "w' \<noteq> w" for w' using idle that by simp
      then show ?thesis using w_load by (auto simp: writer_inv_def split: if_splits)
    next
      case (w_begin seq)
      then have "seq = even_seq (slot_seq (ws_slot (g n)))" using Suc by (simp add: writer_inv_def)
      then show ?thesis using w_begin old by (auto simp: writer_inv_def)
    next
      case (w_write seq slot')
      then have "ws_pc (g (Suc n)) = ws_pc (g n)" "slot_seq (ws_slot (g (Suc n))) = slot_seq (ws_slot (g n))"
        by simp_all
      then show ?thesis using Suc by (simp only: writer_inv_def)
    next
      case (w_publish seq)
      then show ?thesis using old by (auto simp: writer_inv_def)
    qed
  qed
qed

lemma step_seq:
  assumes "writer_inv s" "slot_step w s s'"
  obtains d where "d \<le> 2" "slot_seq (ws_slot s') = slot_seq (ws_slot s) + of_nat d"
    "d = 0 \<Longrightarrow> even (slot_seq (ws_slot s)) \<Longrightarrow> ws_slot s' = ws_slot s"
  using assms(2)
proof (cases rule: slot_step.cases)
  case w_load
  then show thesis by (intro that [of 0]) simp_all
next
  case (w_begin seq)
  then have "seq = even_seq (slot_seq (ws_slot s))" using assms(1) by (simp add: writer_inv_def)
  then show thesis using w_begin
    by (intro that [of "if slot_seq (ws_slot s) AND 1 \<noteq> 0 then 2 else 1"]) (auto simp: even_seq_def)
next
  case (w_write seq slot')
  then have "odd (slot_seq (ws_slot s))" using assms(1) by (simp add: writer_inv_def)
  then show thesis using w_write by (intro that [of 0]) simp_all
next
  case (w_publish seq)
  then have "slot_seq (ws_slot s) = seq + 1" using assms(1) by (simp add: writer_inv_def)
  then show thesis using w_publish by (intro that [of 1]) simp_all
qed

lemma window_seq:
  assumes "slot_run g" "writers_take_turns g"
  shows "\<exists>d \<le> 2 * m. slot_seq (ws_slot (g (a + m))) = slot_seq (ws_slot (g a)) + of_nat d
    \<and> (d = 0 \<longrightarrow> even (slot_seq (ws_slot (g a))) \<longrightarrow> (\<forall>i \<le> m. ws_slot (g (a + i)) = ws_slot (g a)))"
proof (induction m)
  case 0
  then show ?case by simp
next
  case (Suc m)
  then obtain d where d: "d \<le> 2 * m" "slot_seq (ws_slot (g (a + m))) = slot_seq (ws_slot (g a)) + of_nat d"
    "d = 0 \<Longrightarrow> even (slot_seq (ws_slot (g a))) \<Longrightarrow> \<forall>i \<le> m. ws_slot (g (a + i)) = ws_slot (g a)" by blast
  obtain e where e: "e \<le> 2" "slot_seq (ws_slot (g (a + Suc m))) = slot_seq (ws_slot (g (a + m))) + of_nat e"
    "e = 0 \<Longrightarrow> even (slot_seq (ws_slot (g (a + m)))) \<Longrightarrow> ws_slot (g (a + Suc m)) = ws_slot (g (a + m))"
  proof (cases "g (Suc (a + m)) = g (a + m)")
    case True
    then show thesis by (intro that [of 0]) simp_all
  next
    case False
    then obtain w where "slot_step w (g (a + m)) (g (Suc (a + m)))"
      using assms(1) unfolding slot_run_def by blast
    with run_inv [OF assms, of "a + m"] show thesis by (rule step_seq) (auto intro: that)
  qed
  show ?case
  proof (intro exI [of _ "d + e"] conjI impI allI)
    fix i assume "d + e = 0" "even (slot_seq (ws_slot (g a)))" "i \<le> Suc m"
    with d(3) e(3) show "ws_slot (g (a + i)) = ws_slot (g a)" by (cases "i = Suc m") auto
  qed (use d e in simp_all)
qed

lemma window_constant:
  assumes "slot_run g" "writers_take_turns g" "a \<le> b" "b < a + 2 ^ 63"
    and "slot_seq (ws_slot (g b)) = slot_seq (ws_slot (g a))" "even (slot_seq (ws_slot (g a)))"
    and "a \<le> i" "i \<le> b"
  shows "ws_slot (g i) = ws_slot (g a)"
proof -
  obtain d where d: "d \<le> 2 * (b - a)" "slot_seq (ws_slot (g b)) = slot_seq (ws_slot (g a)) + of_nat d"
    "d = 0 \<Longrightarrow> \<forall>i \<le> b - a. ws_slot (g (a + i)) = ws_slot (g a)"
    using window_seq [OF assms(1,2), of "b - a" a] assms(3,6) by auto
  have "of_nat d = (0 :: u64)" using d(2) assms(5) by simp
  moreover have "d < 2 ^ 64" using d(1) assms(3,4) by simp
  ultimately have "d = 0" by (auto simp: word_of_nat_eq_0_iff dest: nat_dvd_not_less)
  with d(3) have "\<forall>i \<le> b - a. ws_slot (g (a + i)) = ws_slot (g a)" by blast
  moreover have "i - a \<le> b - a" using assms(8) by (rule diff_le_mono)
  ultimately have "ws_slot (g (a + (i - a))) = ws_slot (g a)" by blast
  then show ?thesis using assms(7) by simp
qed


section \<open>The reader\<close>

lemma copy_request_const:
  assumes "\<And>i. i < 32 \<Longrightarrow> r (k + i) = x"
  shows "copy_request r k = x"
proof -
  have "r k = x" "r (Suc k) = x" "r (Suc (Suc k)) = x"
    using assms [of 0] assms [of 1] assms [of 2] by simp_all
  then show ?thesis using assms by (simp add: copy_request_def)
qed

definition slot_report :: "u32 \<Rightarrow> OrderSlot \<Rightarrow> acct_orders_mon_snapshot" where
  "slot_report index slot = fill_snapshot index (slot_seq slot) (slot_last_update_ns slot) (slot_stage slot)
     (slot_source slot) (slot_request slot)"

text \<open>An attempt that succeeds has seen the same even number at both ends.\<close>

definition good_read :: "u32 \<Rightarrow> (nat \<Rightarrow> OrderSlot) \<Rightarrow> acct_orders_mon_snapshot \<Rightarrow> nat \<Rightarrow> bool" where
  "good_read index slot snap j \<longleftrightarrow> even (slot_seq (slot j)) \<and> slot_seq (slot (j + 36)) = slot_seq (slot j)
     \<and> snap = fill_snapshot index (slot_seq (slot j)) (slot_last_update_ns (slot (j + 1)))
         (slot_stage (slot (j + 2))) (slot_source (slot (j + 3))) (copy_request (slot_request \<circ> slot) (j + 4))"

lemma snapshot_attempts_Some:
  "snapshot_attempts n index slot k = Some snap \<Longrightarrow> \<exists>j \<ge> k. j + 36 \<le> k + 37 * n \<and> good_read index slot snap j"
proof (induction n arbitrary: k)
  case (Suc n)
  have later: ?case if r: "snapshot_attempts n index slot k' = Some snap" "k < k'" "k' \<le> k + 37" for k'
  proof -
    obtain j where "k' \<le> j" "j + 36 \<le> k' + 37 * n" "good_read index slot snap j"
      using Suc.IH [OF r(1)] by blast
    with r(2,3) show ?thesis by (intro exI [of _ j]) simp
  qed
  consider (odd) "odd (slot_seq (slot k))" | (moved) "even (slot_seq (slot k))" "slot_seq (slot (k + 36)) \<noteq> slot_seq (slot k)"
    | (good) "even (slot_seq (slot k))" "slot_seq (slot (k + 36)) = slot_seq (slot k)" by blast
  then show ?case
  proof cases
    case odd
    then have "snapshot_attempts n index slot (k + 1) = Some snap"
      using Suc.prems by (simp add: even_and_1)
    then show ?thesis by (rule later) simp_all
  next
    case moved
    then have "snapshot_attempts n index slot (k + 37) = Some snap"
      using Suc.prems not_sym [OF moved(2)] by (simp add: even_and_1 Let_def)
    then show ?thesis by (rule later) simp_all
  next
    case good
    then have "good_read index slot snap k"
      using Suc.prems by (simp add: even_and_1 Let_def good_read_def)
    then show ?thesis by (intro exI [of _ k]) simp
  qed
qed simp

section \<open>Properties\<close>

text \<open>
  C33: The order monitor reports one moment of an order.  Let the writers of a slot take turns, and let
  a call of \<open>acct_orders_mon_read\<close> make its accesses at increasing instants of their run, in less than
  \<open>2 ^ 63\<close> steps of it.  If the call gives a snapshot, there is an instant during the call at which no
  write was going on, and every field of the snapshot is that of the slot at this instant.
\<close>

theorem order_monitor_atomic:
  assumes "slot_run g" and "writers_take_turns g"
    and "mono instant" and "instant 1188 < instant 0 + 2 ^ 63"
    and "\<forall>k. slot_view view index k = ws_slot (g (instant k))"
    and "acct_orders_mon_read ctx index out_given view = (rc, Some snap)"
  shows "rc = MON_OK \<and> (\<exists>n. instant 0 \<le> n \<and> n \<le> instant 1188 \<and> settled (g n)
    \<and> snap = slot_report index (ws_slot (g n)))"
proof -
  let ?slot = "slot_view view index"
  have "snapshot_attempts 32 index ?slot 4 = Some snap" and ok: "rc = MON_OK"
    using assms(6)
    by (auto simp: acct_orders_mon_read_def try_read_stable_snapshot_def split: option.splits if_splits)
  then obtain j where j: "4 \<le> j" "j + 36 \<le> 1188" "even (slot_seq (?slot j))"
    "slot_seq (?slot (j + 36)) = slot_seq (?slot j)"
    "snap = fill_snapshot index (slot_seq (?slot j)) (slot_last_update_ns (?slot (j + 1)))
       (slot_stage (?slot (j + 2))) (slot_source (?slot (j + 3))) (copy_request (slot_request \<circ> ?slot) (j + 4))"
    using snapshot_attempts_Some [of 32 index ?slot 4 snap] by (auto simp: good_read_def)
  have m: "instant a \<le> instant b" if "a \<le> b" for a b using assms(3) that by (simp add: mono_def)
  have same: "?slot (j + i) = ws_slot (g (instant j))" if "i \<le> 36" for i
  proof -
    have "instant (j + 36) \<le> instant 1188" "instant 0 \<le> instant j" using m j(2) by simp_all
    then have b: "instant (j + 36) < instant j + 2 ^ 63" using assms(4) by linarith
    have "ws_slot (g (instant (j + i))) = ws_slot (g (instant j))"
      by (rule window_constant [OF assms(1,2) m b]) (use j(3,4) assms(5) m that in simp_all)
    then show ?thesis using assms(5) by simp
  qed
  have "copy_request (slot_request \<circ> ?slot) (j + 4) = slot_request (ws_slot (g (instant j)))"
    by (rule copy_request_const) (simp add: same add.assoc)
  then have "snap = slot_report index (ws_slot (g (instant j)))"
    using j(5) same [of 0] same [of 1] same [of 2] same [of 3] by (simp add: slot_report_def)
  moreover have "settled (g (instant j))"
    using run_inv [OF assms(1,2), of "instant j"] j(3) assms(5)
    by (auto simp: settled_def writer_inv_def)
  moreover have "instant 0 \<le> instant j" "instant j \<le> instant 1188" using m j(2) by simp_all
  ultimately show ?thesis using ok by blast
qed


text \<open>A finite run, given by its writers and states, which stays in its last state.\<close>

fun steps_along :: "slot_sys \<Rightarrow> (nat \<times> slot_sys) list \<Rightarrow> bool" where
  "steps_along s [] = True"
| "steps_along s ((w, s') # l) = (slot_step w s s' \<and> steps_along s' l)"

definition run_of :: "slot_sys \<Rightarrow> (nat \<times> slot_sys) list \<Rightarrow> nat \<Rightarrow> slot_sys" where
  "run_of s l n = (s # map snd l) ! min n (length l)"

lemma steps_along_nth: "steps_along s l \<Longrightarrow> n < length l \<Longrightarrow> \<exists>w. slot_step w ((s # map snd l) ! n) (map snd l ! n)"
proof (induction s l arbitrary: n rule: steps_along.induct)
  case (2 s w s' l)
  then show ?case by (cases n) auto
qed simp

lemma run_of_run:
  assumes "\<forall>w. ws_pc s w = WIdle" "steps_along s l"
  shows "slot_run (run_of s l)"
proof -
  have "run_of s l (Suc n) = run_of s l n \<or> (\<exists>w. slot_step w (run_of s l n) (run_of s l (Suc n)))" for n
    using steps_along_nth [OF assms(2), of n]
    by (cases "n < length l") (auto simp: run_of_def min_def not_less Suc_le_eq)
  then show ?thesis using assms(1) by (simp add: slot_run_def run_of_def)
qed

lemma run_of_all: "(\<And>s'. s' \<in> set (s # map snd l) \<Longrightarrow> P s') \<Longrightarrow> P (run_of s l n)"
  unfolding run_of_def by (metis nth_mem length_Cons length_map min.cobounded2 le_imp_less_Suc)

text \<open>One writer changes the stage of an order while it is read.\<close>

definition watched_slot :: OrderSlot where
  "watched_slot = OrderSlot_default\<lparr>slot_stage := UpstreamQueued\<rparr>"

definition watched_after :: OrderSlot where
  "watched_after = watched_slot\<lparr>slot_stage := UpstreamDequeued\<rparr>"

definition watched_start :: slot_sys where
  "watched_start = \<lparr>ws_slot = watched_slot, ws_pc = (\<lambda>_. WIdle)\<rparr>"

definition stage_write :: "(nat \<times> slot_sys) list" where
  "stage_write = [
     (0, \<lparr>ws_slot = watched_slot, ws_pc = (\<lambda>_. WIdle)(0 := WLoaded 0)\<rparr>),
     (0, \<lparr>ws_slot = watched_slot\<lparr>slot_seq := 1\<rparr>, ws_pc = (\<lambda>_. WIdle)(0 := WBegun 0)\<rparr>),
     (0, \<lparr>ws_slot = watched_after\<lparr>slot_seq := 1\<rparr>, ws_pc = (\<lambda>_. WIdle)(0 := WBegun 0)\<rparr>),
     (0, \<lparr>ws_slot = watched_after\<lparr>slot_seq := 2\<rparr>, ws_pc = (\<lambda>_. WIdle)\<rparr>)]"

definition pool_showing :: "(nat \<Rightarrow> OrderSlot) \<Rightarrow> orders_view" where
  "pool_showing slot k = orders_segment_zero\<lparr>og_pool := \<lparr>os_capacity = 1, os_next_index = 1,
     os_full_reject_count = 0, os_last_update = 0, os_slots = (\<lambda>_. slot k)\<rparr>\<rparr>"

definition monitor_context :: acct_orders_monitor_context where
  "monitor_context = \<lparr>omc_mapped = Some 0, omc_base_name = [], omc_trading_day = [], omc_dated_name = [],
     omc_initialized = True\<rparr>"

lemma slot_view_showing [simp]: "slot_view (pool_showing slot) index k = slot k"
  by (simp add: slot_view_def pool_showing_def)

lemmas watched_simps = watched_start_def watched_slot_def watched_after_def OrderSlot_default_def even_seq_def

lemma stage_write_run: "slot_run (run_of watched_start stage_write)"
proof (rule run_of_run)
  show "steps_along watched_start stage_write"
    by (auto simp: stage_write_def slot_step.simps watched_simps fun_eq_iff)
qed (simp add: watched_start_def)

lemma stage_write_turns: "writers_take_turns (run_of watched_start stage_write)"
  unfolding writers_take_turns_def
proof (intro allI)
  fix n w w'
  show "ws_pc (run_of watched_start stage_write n) w \<noteq> WIdle \<longrightarrow>
    ws_pc (run_of watched_start stage_write n) w' \<noteq> WIdle \<longrightarrow> w = w'"
    by (rule run_of_all) (auto simp: stage_write_def watched_start_def split: if_splits)
qed


definition stage_view :: orders_view where
  "stage_view = pool_showing (\<lambda>k. ws_slot (run_of watched_start stage_write (k - 4)))"

lemma stage_view_read: "acct_orders_mon_read (Some monitor_context) 0 True stage_view
    = (MON_OK, Some (slot_report 0 (watched_after\<lparr>slot_seq := 2\<rparr>)))"
  by code_simp

lemma order_monitor_atomic_witness:
  "\<exists>n \<le> 1184. settled (run_of watched_start stage_write n)
    \<and> slot_report 0 (watched_after\<lparr>slot_seq := 2\<rparr>) = slot_report 0 (ws_slot (run_of watched_start stage_write n))"
proof -
  have "mono (\<lambda>k :: nat. k - 4)" by (simp add: mono_def diff_le_mono)
  moreover have "\<forall>k. slot_view stage_view 0 k = ws_slot (run_of watched_start stage_write (k - 4))"
    by (simp add: stage_view_def)
  ultimately show ?thesis
    using order_monitor_atomic [OF stage_write_run stage_write_turns _ _ _ stage_view_read, of "\<lambda>k. k - 4"]
    by auto
qed

text \<open>
  Two writers that do not take turns, as the account service, which sets the stage after it has pushed
  the index, and the gateway, which pops the index and sets the stage: the second to begin stores the
  number of the first again, whose publication then shows an even number while the second still writes.
\<close>

definition half_traded :: OrderSlot where
  "half_traded = watched_slot\<lparr>slot_seq := 2, slot_request := (slot_request watched_slot)
     \<lparr>volume_traded := 100, dvalue_traded := 1000\<rparr>\<rparr>"

definition two_writers :: "(nat \<times> slot_sys) list" where
  "two_writers = [
     (0, \<lparr>ws_slot = watched_slot, ws_pc = (\<lambda>_. WIdle)(0 := WLoaded 0)\<rparr>),
     (1, \<lparr>ws_slot = watched_slot, ws_pc = (\<lambda>_. WIdle)(0 := WLoaded 0, 1 := WLoaded 0)\<rparr>),
     (0, \<lparr>ws_slot = watched_slot\<lparr>slot_seq := 1\<rparr>, ws_pc = (\<lambda>_. WIdle)(0 := WBegun 0, 1 := WLoaded 0)\<rparr>),
     (1, \<lparr>ws_slot = watched_slot\<lparr>slot_seq := 1\<rparr>, ws_pc = (\<lambda>_. WIdle)(0 := WBegun 0, 1 := WBegun 0)\<rparr>),
     (0, \<lparr>ws_slot = watched_slot\<lparr>slot_seq := 2\<rparr>, ws_pc = (\<lambda>_. WIdle)(1 := WBegun 0)\<rparr>),
     (1, \<lparr>ws_slot = half_traded, ws_pc = (\<lambda>_. WIdle)(1 := WBegun 0)\<rparr>)]"

definition torn_instant :: "nat \<Rightarrow> nat" where
  "torn_instant k = (if k \<le> 25 then 5 else 6)"

lemma two_writers_tear:
  "\<exists>snap. slot_run (run_of watched_start two_writers) \<and> mono torn_instant
    \<and> acct_orders_mon_read (Some monitor_context) 0 True
        (pool_showing (\<lambda>k. ws_slot (run_of watched_start two_writers (torn_instant k)))) = (MON_OK, Some snap)
    \<and> (\<forall>n. snap \<noteq> slot_report 0 (ws_slot (run_of watched_start two_writers n)))"
proof -
  define snap where "snap = (slot_report 0 half_traded)\<lparr>om_volume_traded := 0\<rparr>"
  have "slot_run (run_of watched_start two_writers)"
  proof (rule run_of_run)
    show "steps_along watched_start two_writers"
      by (auto simp: two_writers_def slot_step.simps watched_simps half_traded_def fun_eq_iff)
  qed (simp add: watched_start_def)
  moreover have "mono torn_instant" by (simp add: mono_def torn_instant_def)
  moreover have "acct_orders_mon_read (Some monitor_context) 0 True
      (pool_showing (\<lambda>k. ws_slot (run_of watched_start two_writers (torn_instant k)))) = (MON_OK, Some snap)"
    unfolding snap_def by code_simp
  moreover have "snap \<noteq> slot_report 0 (ws_slot (run_of watched_start two_writers n))" for n
  proof (rule run_of_all)
    fix s assume "s \<in> set (watched_start # map snd two_writers)"
    then have "ws_slot s \<in> {watched_slot, watched_slot\<lparr>slot_seq := 1\<rparr>, watched_slot\<lparr>slot_seq := 2\<rparr>, half_traded}"
      by (auto simp: two_writers_def watched_start_def)
    then show "snap \<noteq> slot_report 0 (ws_slot s)"
      by (auto simp: snap_def slot_report_def fill_snapshot_def half_traded_def watched_slot_def
          OrderSlot_default_def OrderRequest_default_def)
  qed
  ultimately show ?thesis by blast
qed

lemma fund_first_attempt:
  assumes "0 < n" "pos_locked (ps_positions (view k) 0) = 0" "pos_locked (ps_positions (view (k + 9)) 0) = 0"
  shows "fund_attempts n view k = Some \<lparr>fs_last_update_ns = ph_last_update (ps_header (view (k + 1))),
     fs_id = pos_id (ps_positions (view (k + 2)) 0), fs_name = pos_name (ps_positions (view (k + 3)) 0),
     fs_total_asset = volume_available_t0 (ps_positions (view (k + 4)) 0),
     fs_available = pos_available (ps_positions (view (k + 5)) 0),
     fs_frozen = volume_available_t1 (ps_positions (view (k + 6)) 0),
     fs_market_value = volume_buy (ps_positions (view (k + 7)) 0),
     fs_count_order = count_order (ps_positions (view (k + 8)) 0)\<rparr>"
  using assms by (cases n) (simp_all add: kFundPositionIndex_def Let_def)

text \<open>
  C34: The snapshot of the funds can be torn.  When a reservation of \<open>amount\<close> is made between the
  monitor's reading of the available and of the frozen fund, the lock is free at both checks, the call
  succeeds, and the snapshot shows the amount twice: as still available and as frozen.  It agrees with
  the FUND row neither before nor after.
\<close>

theorem fund_snapshot_tears:
  assumes "freeze_fund amount now pm = (True, pm')" and "0 < amount"
    and "pm_shm pm = Some shm" and "pm_shm pm' = Some shm'"
    and "pos_locked (ps_positions shm 0) = 0" and "positions_context_error ctx True = POS_MON_OK"
  shows "\<exists>snap. acct_positions_mon_read_fund ctx True (\<lambda>k. if k \<le> 5 then shm else shm') = (POS_MON_OK, Some snap)
    \<and> fs_available snap = pos_available (ps_positions shm 0)
    \<and> fs_frozen snap = volume_available_t1 (ps_positions shm 0) + amount
    \<and> fs_total_asset snap = volume_available_t0 (ps_positions shm 0)
    \<and> (\<forall>s \<in> {shm, shm'}. (fs_available snap, fs_frozen snap)
         \<noteq> (pos_available (ps_positions s 0), volume_available_t1 (ps_positions s 0)))"
proof -
  have s': "shm' = put_row 0 ((ps_positions shm 0)\<lparr>pos_available := pos_available (ps_positions shm 0) - amount,
      volume_available_t1 := volume_available_t1 (ps_positions shm 0) + amount\<rparr>) now shm"
    using assms(1,3,4) by (auto simp: freeze_fund_def kFundPositionIndex_def Let_def split: if_splits)
  have "acct_positions_mon_read_fund ctx True (\<lambda>k. if k \<le> 5 then shm else shm') = (POS_MON_OK, Some
    \<lparr>fs_last_update_ns = ph_last_update (ps_header shm), fs_id = pos_id (ps_positions shm 0),
     fs_name = pos_name (ps_positions shm 0), fs_total_asset = volume_available_t0 (ps_positions shm 0),
     fs_available = pos_available (ps_positions shm 0),
     fs_frozen = volume_available_t1 (ps_positions shm 0) + amount,
     fs_market_value = volume_buy (ps_positions shm 0), fs_count_order = count_order (ps_positions shm 0)\<rparr>)"
    using assms(5,6)
    by (simp add: acct_positions_mon_read_fund_def try_read_stable_fund_snapshot_def fund_first_attempt
        s' put_row_def)
  then show ?thesis using assms(2) by (auto simp: s' put_row_def)
qed


lemma fund_snapshot_tears_witness:
  "\<exists>pm' shm shm' snap. freeze_fund 60 9 (pm_example 100) = (True, pm') \<and> pm_shm (pm_example 100) = Some shm
    \<and> pm_shm pm' = Some shm'
    \<and> acct_positions_mon_read_fund (Some \<lparr>pmc_mapped = Some 0, pmc_name = [], pmc_initialized = True\<rparr>) True
        (\<lambda>k. if k \<le> 5 then shm else shm') = (POS_MON_OK, Some snap)
    \<and> fs_total_asset snap = 100 \<and> fs_available snap + fs_frozen snap = 160"
proof -
  obtain shm where s: "pm_shm (pm_example 100) = Some shm" by (simp add: pm_example_def)
  obtain pm' shm' where f: "freeze_fund 60 9 (pm_example 100) = (True, pm')" and s': "pm_shm pm' = Some shm'"
  proof -
    have "case freeze_fund 60 9 (pm_example 100) of (ok, pm') \<Rightarrow> ok \<and> (case pm_shm pm' of None \<Rightarrow> False | Some _ \<Rightarrow> True)"
      by code_simp
    then show thesis by (auto intro: that split: prod.splits option.splits)
  qed
  have z: "pos_locked (ps_positions shm 0) = 0" "pos_available (ps_positions shm 0) = 100"
    "volume_available_t1 (ps_positions shm 0) = 0" "volume_available_t0 (ps_positions shm 0) = 100"
    using s by (auto simp: pm_example_def position_zero_def)
  have c: "positions_context_error (Some \<lparr>pmc_mapped = Some 0, pmc_name = [], pmc_initialized = True\<rparr>) True = POS_MON_OK"
    by (simp add: positions_context_error_def)
  have "(0 :: u64) < 60" by simp
  from fund_snapshot_tears [OF f this s s' z(1) c] f s s' z(2-) show ?thesis by force
qed

end
