(* ===== verification/Records.thy ===== *)
theory Records
  imports Monitor_Api Config_Manager
begin

text \<open>
  \<^verbatim>\<open>src/portfolio/trade_record.cpp\<close> and \<^verbatim>\<open>src/portfolio/entrust_record.cpp\<close>: the day's trades and
  orders as records, with their indices, queries and export.  A pointer to a record is the record; a
  hash table of row numbers is a function.  A file that is written is the text, \<open>None\<close> if it could not
  be opened.  \<open>cstr_view\<close> of a string field is the field, as fixed strings are modelled.
\<close>

section \<open>Trades\<close>

record trade_record =
  tr_trade_id :: u64
  tr_order_id :: InternalOrderId
  tr_security_id :: InternalSecurityId
  tr_side :: TradeSide
  tr_volume :: Volume
  tr_price :: DPrice
  tr_value :: DValue
  tr_fee :: DValue
  tr_trade_time :: MdTime
  tr_local_time :: TimestampNs
  tr_broker_trade_id :: string

record trade_record_manager =
  tm_trades :: "trade_record list"
  tm_id_index :: "u64 \<Rightarrow> nat option"
  tm_order_index :: "InternalOrderId \<Rightarrow> nat list"
  tm_security_index :: "InternalSecurityId \<Rightarrow> nat list"
  tm_next_trade_id :: u64

definition trade_manager_new :: trade_record_manager where
  "trade_manager_new = \<lparr>tm_trades = [], tm_id_index = Map.empty, tm_order_index = (\<lambda>_. []),
     tm_security_index = (\<lambda>_. []), tm_next_trade_id = 1\<rparr>"

text \<open>The database is not read; the call empties the manager.\<close>

definition load_today_trades :: "trade_record_manager \<Rightarrow> bool \<times> trade_record_manager" where
  "load_today_trades m = (True, m\<lparr>tm_trades := [], tm_id_index := Map.empty, tm_order_index := (\<lambda>_. []),
     tm_security_index := (\<lambda>_. []), tm_next_trade_id := 1\<rparr>)"

text \<open>The record as it is kept, and the next id.\<close>

definition stored_trade :: "trade_record \<Rightarrow> trade_record_manager \<Rightarrow> trade_record \<times> u64" where
  "stored_trade r m =
     (if tr_trade_id r = 0 \<or> tm_id_index m (tr_trade_id r) \<noteq> None
      then (r\<lparr>tr_trade_id := tm_next_trade_id m\<rparr>, tm_next_trade_id m + 1)
      else if tr_trade_id r \<ge> tm_next_trade_id m then (r, tr_trade_id r + 1)
      else (r, tm_next_trade_id m))"

definition add_trade :: "trade_record \<Rightarrow> trade_record_manager \<Rightarrow> trade_record_manager" where
  "add_trade rec m =
     (let (stored, next_id) = stored_trade rec m;
          index = length (tm_trades m)
      in \<lparr>tm_trades = tm_trades m @ [stored],
          tm_id_index = (tm_id_index m)(tr_trade_id stored \<mapsto> index),
          tm_order_index = (tm_order_index m)(tr_order_id stored := tm_order_index m (tr_order_id stored) @ [index]),
          tm_security_index = (tm_security_index m)(tr_security_id stored :=
            tm_security_index m (tr_security_id stored) @ [index]),
          tm_next_trade_id = next_id\<rparr>)"

definition find_trade :: "u64 \<Rightarrow> trade_record_manager \<Rightarrow> trade_record option" where
  "find_trade trade_id m = map_option (\<lambda>i. tm_trades m ! i) (tm_id_index m trade_id)"

definition get_trades_by_order :: "InternalOrderId \<Rightarrow> trade_record_manager \<Rightarrow> trade_record list" where
  "get_trades_by_order order_id m = map (\<lambda>i. tm_trades m ! i) (tm_order_index m order_id)"

definition get_trades_by_security :: "InternalSecurityId \<Rightarrow> trade_record_manager \<Rightarrow> trade_record list" where
  "get_trades_by_security sid m = map (\<lambda>i. tm_trades m ! i) (tm_security_index m sid)"

definition get_all_trades :: "trade_record_manager \<Rightarrow> trade_record list" where
  "get_all_trades m = tm_trades m"

definition trade_count :: "trade_record_manager \<Rightarrow> nat" where
  "trade_count m = length (tm_trades m)"

definition total_traded_value :: "trade_record_manager \<Rightarrow> DValue" where
  "total_traded_value m = foldl (\<lambda>acc r. acc + tr_value r) 0 (tm_trades m)"

definition total_fee :: "trade_record_manager \<Rightarrow> DValue" where
  "total_fee m = foldl (\<lambda>acc r. acc + tr_fee r) 0 (tm_trades m)"

fun join_columns :: "string list \<Rightarrow> string" where
  "join_columns [] = []"
| "join_columns [c] = c"
| "join_columns (c # cs) = c @ '','' @ join_columns cs"

definition show_word :: "'a::len word \<Rightarrow> string" where
  "show_word w = show_nat (unat w)"

definition trade_line :: "trade_record \<Rightarrow> string" where
  "trade_line r = join_columns [show_word (tr_trade_id r), show_word (tr_order_id r), tr_security_id r,
     show_word (trade_side_byte (tr_side r)), show_word (tr_volume r), show_word (tr_price r),
     show_word (tr_value r), show_word (tr_fee r), show_word (tr_trade_time r), show_word (tr_local_time r),
     tr_broker_trade_id r] @ [CHR 0x0A]"

definition save_trades :: "(string \<Rightarrow> bool) \<Rightarrow> string \<Rightarrow> trade_record_manager \<Rightarrow> (string \<times> string) option" where
  "save_trades can_open path m =
     (if path = [] then None
      else let file = path @ ''.trades.csv''
           in if \<not> can_open file then None else Some (file, concat (map trade_line (tm_trades m))))"

section \<open>Orders\<close>

record entrust_record =
  er_order_id :: InternalOrderId
  er_security_id :: InternalSecurityId
  er_order_type :: OrderType
  er_side :: TradeSide
  er_market :: Market
  er_status :: OrderState
  er_volume_entrust :: Volume
  er_volume_traded :: Volume
  er_price_entrust :: DPrice
  er_price_traded_avg :: DPrice
  er_value_traded :: DValue
  er_fee :: DValue
  er_time_entrust :: MdTime
  er_time_first_trade :: MdTime
  er_time_last_update :: MdTime
  er_broker_order_id :: string
  er_security_code :: SecurityId

definition from_order_request :: "OrderRequest \<Rightarrow> entrust_record" where
  "from_order_request req = \<lparr>er_order_id = internal_order_id req, er_security_id = internal_security_id req,
     er_order_type = order_type req, er_side = trade_side req, er_market = market req,
     er_status = order_state req, er_volume_entrust = volume_entrust req,
     er_volume_traded = volume_traded req, er_price_entrust = dprice_entrust req,
     er_price_traded_avg = dprice_traded req, er_value_traded = dvalue_traded req,
     er_fee = dfee_executed req, er_time_entrust = md_time_entrust req,
     er_time_first_trade = md_time_traded_first req,
     er_time_last_update = (if md_time_market_response req \<noteq> 0 then md_time_market_response req
       else md_time_broker_response req),
     er_broker_order_id = broker_id_string (broker_order_id req), er_security_code = security_id req\<rparr>"

record entrust_record_manager =
  em_entrusts :: "entrust_record list"
  em_id_index :: "InternalOrderId \<Rightarrow> nat option"
  em_security_index :: "InternalSecurityId \<Rightarrow> nat list"

definition entrust_manager_new :: entrust_record_manager where
  "entrust_manager_new = \<lparr>em_entrusts = [], em_id_index = Map.empty, em_security_index = (\<lambda>_. [])\<rparr>"

definition load_today_entrusts :: "entrust_record_manager \<Rightarrow> bool \<times> entrust_record_manager" where
  "load_today_entrusts m =
     (True, m\<lparr>em_entrusts := [], em_id_index := Map.empty, em_security_index := (\<lambda>_. [])\<rparr>)"

definition add_or_update :: "entrust_record \<Rightarrow> entrust_record_manager \<Rightarrow> entrust_record_manager" where
  "add_or_update r m =
     (case em_id_index m (er_order_id r) of
        Some i \<Rightarrow> m\<lparr>em_entrusts := (em_entrusts m)[i := r]\<rparr>
      | None \<Rightarrow>
          let index = length (em_entrusts m)
          in \<lparr>em_entrusts = em_entrusts m @ [r], em_id_index = (em_id_index m)(er_order_id r \<mapsto> index),
              em_security_index = (em_security_index m)(er_security_id r :=
                em_security_index m (er_security_id r) @ [index])\<rparr>)"

definition update_from_order :: "OrderRequest \<Rightarrow> entrust_record_manager \<Rightarrow> entrust_record_manager" where
  "update_from_order req m = add_or_update (from_order_request req) m"

definition find_entrust :: "InternalOrderId \<Rightarrow> entrust_record_manager \<Rightarrow> entrust_record option" where
  "find_entrust order_id m = map_option (\<lambda>i. em_entrusts m ! i) (em_id_index m order_id)"

definition get_entrusts_by_security :: "InternalSecurityId \<Rightarrow> entrust_record_manager \<Rightarrow> entrust_record list" where
  "get_entrusts_by_security sid m = map (\<lambda>i. em_entrusts m ! i) (em_security_index m sid)"

definition get_active_entrusts :: "entrust_record_manager \<Rightarrow> entrust_record list" where
  "get_active_entrusts m = filter (\<lambda>r. \<not> is_terminal_state (er_status r)) (em_entrusts m)"

definition get_all_entrusts :: "entrust_record_manager \<Rightarrow> entrust_record list" where
  "get_all_entrusts m = em_entrusts m"

definition entrust_count :: "entrust_record_manager \<Rightarrow> nat" where
  "entrust_count m = length (em_entrusts m)"

definition entrust_active_count :: "entrust_record_manager \<Rightarrow> nat" where
  "entrust_active_count m =
     foldl (\<lambda>n r. if \<not> is_terminal_state (er_status r) then n + 1 else n) 0 (em_entrusts m)"

definition entrust_line :: "entrust_record \<Rightarrow> string" where
  "entrust_line r = join_columns [show_word (er_order_id r), er_security_id r,
     show_word (order_type_byte (er_order_type r)), show_word (trade_side_byte (er_side r)),
     show_word (market_byte (er_market r)), show_word (order_state_byte (er_status r)),
     show_word (er_volume_entrust r), show_word (er_volume_traded r), show_word (er_price_entrust r),
     show_word (er_price_traded_avg r), show_word (er_value_traded r), show_word (er_fee r),
     show_word (er_time_entrust r), show_word (er_time_first_trade r), show_word (er_time_last_update r),
     er_broker_order_id r, er_security_code r] @ [CHR 0x0A]"

definition save_entrusts :: "(string \<Rightarrow> bool) \<Rightarrow> string \<Rightarrow> entrust_record_manager \<Rightarrow> (string \<times> string) option" where
  "save_entrusts can_open path m =
     (if path = [] then None
      else let file = path @ ''.entrusts.csv''
           in if \<not> can_open file then None else Some (file, concat (map entrust_line (em_entrusts m))))"

section \<open>What the indices mean\<close>

text \<open>Positions of a list's elements with a property, which the indices list.\<close>

definition rows_where :: "('a \<Rightarrow> bool) \<Rightarrow> 'a list \<Rightarrow> nat list" where
  "rows_where P xs = filter (\<lambda>i. P (xs ! i)) [0..<length xs]"

lemma rows_where_snoc: "rows_where P (xs @ [x]) = rows_where P xs @ (if P x then [length xs] else [])"
  by (auto simp: rows_where_def nth_append intro!: filter_cong)

lemma nth_rows_where: "map (\<lambda>i. xs ! i) (rows_where P xs) = filter P xs"
proof (induction xs rule: rev_induct)
  case (snoc x xs)
  have "map (\<lambda>i. (xs @ [x]) ! i) (rows_where P xs) = map (\<lambda>i. xs ! i) (rows_where P xs)"
    by (rule map_cong) (auto simp: rows_where_def nth_append)
  with snoc show ?case by (simp add: rows_where_snoc)
qed (simp add: rows_where_def)

definition trades_ok :: "trade_record_manager \<Rightarrow> bool" where
  "trades_ok m \<longleftrightarrow> (\<forall>i k. tm_id_index m i = Some k \<longleftrightarrow> k < length (tm_trades m) \<and> tr_trade_id (tm_trades m ! k) = i)
     \<and> (\<forall>order_id. tm_order_index m order_id = rows_where (\<lambda>r. tr_order_id r = order_id) (tm_trades m))
     \<and> (\<forall>sid. tm_security_index m sid = rows_where (\<lambda>r. tr_security_id r = sid) (tm_trades m))
     \<and> (\<forall>r \<in> set (tm_trades m). 0 < tr_trade_id r \<and> tr_trade_id r < tm_next_trade_id m) \<and> 0 < tm_next_trade_id m"

lemma trades_ok_new: "trades_ok trade_manager_new"
  by (simp add: trades_ok_def trade_manager_new_def rows_where_def)

lemma unat_minus_1: "unat (- 1 :: u64) = 2 ^ 64 - 1"
  by (simp add: unsigned_minus_1_eq_mask mask_eq_exp_minus_1)

lemma word_inc:
  assumes "(x :: u64) \<noteq> - 1"
  shows "x < x + 1" "unat (x + 1) = unat x + 1"
proof -
  have "unat x \<noteq> unat (- 1 :: u64)" using assms by (simp add: word_unat_eq_iff)
  moreover have "unat (- 1 :: u64) = 2 ^ 64 - 1" by (rule unat_minus_1)
  moreover have "unat x < 2 ^ 64" using unsigned_less [of x, where ?'a = nat] by simp
  ultimately have "unat x + unat (1 :: u64) < 2 ^ 64" by simp
  then show u: "unat (x + 1) = unat x + 1" using unat_add_lem [of x 1] by simp
  then show "x < x + 1" by (simp add: word_less_nat_alt)
qed

lemma stored_trade_fresh:
  assumes "trades_ok m" "stored_trade r m = (st, nxt)" "tr_trade_id r \<noteq> - 1" "tm_next_trade_id m \<noteq> - 1"
  shows "0 < tr_trade_id st" "tr_trade_id st < nxt" "tm_next_trade_id m \<le> nxt"
    "tm_id_index m (tr_trade_id st) = None" "st\<lparr>tr_trade_id := 0\<rparr> = r\<lparr>tr_trade_id := 0\<rparr>"
    "tr_order_id st = tr_order_id r" "tr_security_id st = tr_security_id r"
    "unat nxt \<le> max (unat (tr_trade_id r)) (unat (tm_next_trade_id m)) + 1"
proof -
  have n: "0 < tm_next_trade_id m" "tm_id_index m (tm_next_trade_id m) = None"
  proof -
    show "0 < tm_next_trade_id m" using assms(1) by (simp add: trades_ok_def)
    show "tm_id_index m (tm_next_trade_id m) = None"
    proof (rule ccontr)
      assume "tm_id_index m (tm_next_trade_id m) \<noteq> None"
      then obtain k where "k < length (tm_trades m)" "tr_trade_id (tm_trades m ! k) = tm_next_trade_id m"
        using assms(1) by (auto simp: trades_ok_def)
      moreover have "tr_trade_id (tm_trades m ! k) < tm_next_trade_id m"
        using assms(1) \<open>k < length (tm_trades m)\<close> by (simp add: trades_ok_def)
      ultimately show False by simp
    qed
  qed
  note inc = word_inc [OF assms(3)] word_inc [OF assms(4)]
  have "0 < tr_trade_id st \<and> tr_trade_id st < nxt \<and> tm_next_trade_id m \<le> nxt
    \<and> tm_id_index m (tr_trade_id st) = None \<and> st\<lparr>tr_trade_id := 0\<rparr> = r\<lparr>tr_trade_id := 0\<rparr>
    \<and> tr_order_id st = tr_order_id r \<and> tr_security_id st = tr_security_id r
    \<and> unat nxt \<le> max (unat (tr_trade_id r)) (unat (tm_next_trade_id m)) + 1"
  proof (cases "tr_trade_id r = 0 \<or> tm_id_index m (tr_trade_id r) \<noteq> None")
    case True
    then have "st = r\<lparr>tr_trade_id := tm_next_trade_id m\<rparr>" "nxt = tm_next_trade_id m + 1"
      using assms(2) by (simp_all only: stored_trade_def if_True prod.inject)
    then show ?thesis by (simp add: n inc less_imp_le)
  next
    case new: False
    show ?thesis
    proof (cases "tm_next_trade_id m \<le> tr_trade_id r")
      case True
      with new have s: "st = r" "nxt = tr_trade_id r + 1"
        using assms(2) by (auto simp: stored_trade_def)
      have "tm_next_trade_id m \<le> tr_trade_id r + 1" using True inc(1) by (meson less_imp_le order.trans)
      with new s show ?thesis by (simp add: word_gt_0 inc)
    next
      case False
      with new have s: "st = r" "nxt = tm_next_trade_id m"
        using assms(2) by (auto simp: stored_trade_def)
      with new False show ?thesis by (simp add: word_gt_0 not_le)
    qed
  qed
  then show "0 < tr_trade_id st" "tr_trade_id st < nxt" "tm_next_trade_id m \<le> nxt"
    "tm_id_index m (tr_trade_id st) = None" "st\<lparr>tr_trade_id := 0\<rparr> = r\<lparr>tr_trade_id := 0\<rparr>"
    "tr_order_id st = tr_order_id r" "tr_security_id st = tr_security_id r"
    "unat nxt \<le> max (unat (tr_trade_id r)) (unat (tm_next_trade_id m)) + 1" by blast+
qed

lemma add_trade_eq:
  "stored_trade r m = (st, nxt) \<Longrightarrow> add_trade r m = \<lparr>tm_trades = tm_trades m @ [st],
     tm_id_index = (tm_id_index m)(tr_trade_id st \<mapsto> length (tm_trades m)),
     tm_order_index = (tm_order_index m)(tr_order_id st := tm_order_index m (tr_order_id st) @ [length (tm_trades m)]),
     tm_security_index = (tm_security_index m)(tr_security_id st :=
       tm_security_index m (tr_security_id st) @ [length (tm_trades m)]),
     tm_next_trade_id = nxt\<rparr>"
  by (simp add: add_trade_def Let_def)

lemma add_trade_ok:
  assumes "trades_ok m" "tr_trade_id r \<noteq> - 1" "tm_next_trade_id m \<noteq> - 1"
  shows "trades_ok (add_trade r m)"
proof -
  obtain st nxt where s: "stored_trade r m = (st, nxt)" by fastforce
  note f = stored_trade_fresh [OF assms(1) s assms(2,3)]
  have ids: "tm_id_index (add_trade r m) i = Some k \<longleftrightarrow>
      k < length (tm_trades (add_trade r m)) \<and> tr_trade_id (tm_trades (add_trade r m) ! k) = i" for i k
  proof -
    have old: "tm_id_index m i = Some k \<longleftrightarrow> k < length (tm_trades m) \<and> tr_trade_id (tm_trades m ! k) = i" for i k
      using assms(1) by (simp add: trades_ok_def)
    show ?thesis using f(4) old [of "tr_trade_id st"] old [of i]
      by (auto simp: add_trade_eq [OF s] nth_append less_Suc_eq)
  qed
  have bound: "0 < tr_trade_id x \<and> tr_trade_id x < nxt" if "x \<in> set (tm_trades m @ [st])" for x
  proof (cases "x = st")
    case False
    with that have "0 < tr_trade_id x" "tr_trade_id x < tm_next_trade_id m"
      using assms(1) by (auto simp: trades_ok_def)
    then show ?thesis using f(3) by (blast intro: less_le_trans)
  qed (use f in simp)
  have "0 < nxt" using f(1,2) by (rule less_trans)
  with ids bound assms(1) show ?thesis
    unfolding trades_ok_def by (auto simp: add_trade_eq [OF s] rows_where_snoc)
qed

definition erase_id :: "trade_record \<Rightarrow> trade_record" where
  "erase_id r = r\<lparr>tr_trade_id := 0\<rparr>"

lemma add_trades:
  assumes "\<forall>r \<in> set rs. unat (tr_trade_id r) < 2 ^ 63" "length rs < 2 ^ 63"
  shows "trades_ok (fold add_trade rs trade_manager_new)
    \<and> map erase_id (tm_trades (fold add_trade rs trade_manager_new)) = map erase_id rs
    \<and> unat (tm_next_trade_id (fold add_trade rs trade_manager_new)) \<le> 2 ^ 63 + length rs"
  using assms
proof (induction rs rule: rev_induct)
  case Nil
  then show ?case by (simp add: trades_ok_new) (simp add: trade_manager_new_def)
next
  case (snoc r rs)
  define m where "m = fold add_trade rs trade_manager_new"
  have m: "trades_ok m" "map erase_id (tm_trades m) = map erase_id rs" "unat (tm_next_trade_id m) \<le> 2 ^ 63 + length rs"
    using snoc unfolding m_def by simp_all
  have "unat (tr_trade_id r) < 2 ^ 63" using snoc.prems by simp
  then have b: "tr_trade_id r \<noteq> - 1" "tm_next_trade_id m \<noteq> - 1"
    using m(3) snoc.prems(2) by (auto simp: unat_minus_1)
  obtain st nxt where s: "stored_trade r m = (st, nxt)" by fastforce
  note f = stored_trade_fresh [OF m(1) s b]
  have "unat nxt \<le> 2 ^ 63 + length (rs @ [r])"
    using f(8) \<open>unat (tr_trade_id r) < 2 ^ 63\<close> m(3) by simp
  moreover have "erase_id st = erase_id r" using f(5) by (simp add: erase_id_def)
  ultimately show ?case using add_trade_ok [OF m(1) b] m(2)
    by (simp add: m_def [symmetric]) (simp add: add_trade_eq [OF s])
qed

text \<open>
  C35: The trade records.  However records are added to a new manager, with given ids below \<open>2 ^ 63\<close> or
  none, all of them are kept in order and only their ids may have been changed; the ids are distinct
  and not zero, each is found again under its id, and the records of an order or of a security are all
  of its records, in order.
\<close>

theorem trade_records_complete:
  assumes "\<forall>r \<in> set rs. unat (tr_trade_id r) < 2 ^ 63" and "length rs < 2 ^ 63"
  shows "let m = fold add_trade rs trade_manager_new in
    map erase_id (get_all_trades m) = map erase_id rs
    \<and> distinct (map tr_trade_id (get_all_trades m)) \<and> 0 \<notin> set (map tr_trade_id (get_all_trades m))
    \<and> (\<forall>r \<in> set (get_all_trades m). find_trade (tr_trade_id r) m = Some r)
    \<and> (\<forall>order_id. get_trades_by_order order_id m = filter (\<lambda>r. tr_order_id r = order_id) (get_all_trades m))
    \<and> (\<forall>sid. get_trades_by_security sid m = filter (\<lambda>r. tr_security_id r = sid) (get_all_trades m))"
proof -
  define m where "m = fold add_trade rs trade_manager_new"
  have m: "trades_ok m" "map erase_id (tm_trades m) = map erase_id rs"
    using add_trades [OF assms] by (simp_all add: m_def)
  have idx: "tm_id_index m (tr_trade_id (tm_trades m ! k)) = Some k" if "k < length (tm_trades m)" for k
    using m(1) that by (simp add: trades_ok_def)
  have "distinct (map tr_trade_id (tm_trades m))"
    unfolding distinct_conv_nth using idx by (metis length_map nth_map option.inject)
  moreover have "find_trade (tr_trade_id r) m = Some r" if "r \<in> set (tm_trades m)" for r
    using that idx by (auto simp: in_set_conv_nth find_trade_def)
  moreover have "0 \<notin> set (map tr_trade_id (tm_trades m))" using m(1) by (auto simp: trades_ok_def)
  ultimately show ?thesis using m
    by (simp add: m_def [symmetric] get_all_trades_def get_trades_by_order_def get_trades_by_security_def
        trades_ok_def nth_rows_where)
qed


lemma trade_records_complete_witness:
  "let r = \<lparr>tr_trade_id = 7, tr_order_id = 3, tr_security_id = ''XSHG_600000'', tr_side = Buy, tr_volume = 100,
     tr_price = 1000, tr_value = 100000, tr_fee = 500, tr_trade_time = 93000000, tr_local_time = 1,
     tr_broker_trade_id = ''b''\<rparr>; m = fold add_trade [r, r] trade_manager_new
   in length (get_trades_by_order 3 m) = 2 \<and> distinct (map tr_trade_id (get_all_trades m))"
proof -
  define r where "r = \<lparr>tr_trade_id = 7, tr_order_id = 3, tr_security_id = ''XSHG_600000'', tr_side = Buy, tr_volume = 100,
     tr_price = 1000, tr_value = 100000, tr_fee = 500, tr_trade_time = 93000000, tr_local_time = 1,
     tr_broker_trade_id = ''b''\<rparr>"
  have b: "\<forall>x \<in> set [r, r]. unat (tr_trade_id x) < 2 ^ 63" "length [r, r] < 2 ^ 63" by (simp_all add: r_def)
  have "length (get_trades_by_order 3 (fold add_trade [r, r] trade_manager_new)) = 2"
    unfolding r_def by code_simp
  with trade_records_complete [OF b] show ?thesis by (simp add: Let_def r_def)
qed

text \<open>The ids of the kept orders are distinct, in the order of their first records, and each keeps its last.\<close>

definition entrusts_ok :: "entrust_record list \<Rightarrow> entrust_record_manager \<Rightarrow> bool" where
  "entrusts_ok rs m \<longleftrightarrow> map er_order_id (em_entrusts m) = rev (remdups (rev (map er_order_id rs)))
     \<and> (\<forall>i k. em_id_index m i = Some k \<longleftrightarrow> k < length (em_entrusts m) \<and> er_order_id (em_entrusts m ! k) = i)
     \<and> (\<forall>r \<in> set (em_entrusts m). List.find (\<lambda>x. er_order_id x = er_order_id r) (rev rs) = Some r)"

lemma entrusts_ok_None:
  assumes "entrusts_ok rs m" "em_id_index m i = None"
  shows "i \<notin> set (map er_order_id (em_entrusts m))"
proof
  assume "i \<in> set (map er_order_id (em_entrusts m))"
  then obtain k where "k < length (em_entrusts m)" "er_order_id (em_entrusts m ! k) = i"
    by (metis in_set_conv_nth length_map nth_map)
  then have "em_id_index m i = Some k" using assms(1) unfolding entrusts_ok_def by blast
  with assms(2) show False by simp
qed

lemma entrusts_ok_ids:
  assumes "entrusts_ok rs m"
  shows "set (map er_order_id (em_entrusts m)) = set (map er_order_id rs)"
proof -
  have "map er_order_id (em_entrusts m) = rev (remdups (rev (map er_order_id rs)))"
    using assms by (simp add: entrusts_ok_def)
  then show ?thesis by (simp only: set_rev set_remdups)
qed

lemma add_or_update_ok:
  assumes "entrusts_ok rs m"
  shows "entrusts_ok (rs @ [r]) (add_or_update r m)"
proof (cases "em_id_index m (er_order_id r)")
  case None
  have ids: "set (map er_order_id (em_entrusts m)) = set (map er_order_id rs)"
    using assms by (rule entrusts_ok_ids)
  have new: "er_order_id r \<notin> set (map er_order_id (em_entrusts m))"
    using assms None by (rule entrusts_ok_None)
  have kept: "List.find (\<lambda>x. er_order_id x = er_order_id y) (rev (rs @ [r])) = Some y" if "y \<in> set (em_entrusts m)" for y
    using new that assms by (auto simp: entrusts_ok_def)
  have idx: "((em_id_index m)(er_order_id r \<mapsto> length (em_entrusts m))) i = Some k
      \<longleftrightarrow> k < length (em_entrusts m @ [r]) \<and> er_order_id ((em_entrusts m @ [r]) ! k) = i" for i k
  proof -
    have "em_id_index m i = Some k \<longleftrightarrow> k < length (em_entrusts m) \<and> er_order_id (em_entrusts m ! k) = i"
      using assms by (simp add: entrusts_ok_def)
    moreover have "\<not> (k < length (em_entrusts m) \<and> er_order_id (em_entrusts m ! k) = er_order_id r)"
      using new by (metis length_map nth_map nth_mem)
    ultimately show ?thesis by (auto simp: nth_append less_Suc_eq)
  qed
  have "er_order_id r \<notin> er_order_id ` set rs" using new ids by simp
  then have dup: "map er_order_id (em_entrusts m @ [r]) = rev (remdups (rev (map er_order_id (rs @ [r]))))"
    using assms by (simp add: entrusts_ok_def)
  show ?thesis unfolding entrusts_ok_def
    using None kept idx dup by (simp add: add_or_update_def Let_def)
next
  case (Some k)
  then have k: "k < length (em_entrusts m)" "er_order_id (em_entrusts m ! k) = er_order_id r"
    using assms by (auto simp: entrusts_ok_def)
  have same: "map er_order_id ((em_entrusts m)[k := r]) = map er_order_id (em_entrusts m)"
    using k by (simp add: map_update list_update_same_conv)
  have "er_order_id r \<in> set (map er_order_id (em_entrusts m))" using k by (metis length_map nth_map nth_mem)
  then have "er_order_id r \<in> set (map er_order_id rs)" using entrusts_ok_ids [OF assms] by blast
  then have dup: "map er_order_id ((em_entrusts m)[k := r]) = rev (remdups (rev (map er_order_id (rs @ [r]))))"
    using assms same by (simp add: entrusts_ok_def)
  have dist: "distinct (map er_order_id (em_entrusts m))" using assms by (simp add: entrusts_ok_def)
  have kept: "List.find (\<lambda>x. er_order_id x = er_order_id y) (rev (rs @ [r])) = Some y"
    if y: "y \<in> set ((em_entrusts m)[k := r])" for y
  proof (cases "y = r")
    case False
    obtain j where j: "j < length (em_entrusts m)" "y = (em_entrusts m)[k := r] ! j"
      using y by (auto simp: in_set_conv_nth)
    with False have jk: "j \<noteq> k" by auto
    then have "er_order_id (em_entrusts m ! j) \<noteq> er_order_id (em_entrusts m ! k)"
      using dist j(1) k(1) nth_eq_iff_index_eq [of "map er_order_id (em_entrusts m)" j k] by simp
    then have "er_order_id y \<noteq> er_order_id r" using j jk k by simp
    moreover have "y \<in> set (em_entrusts m)" using j jk by simp
    ultimately show ?thesis using assms by (auto simp: entrusts_ok_def)
  qed simp
  have idx: "em_id_index m i = Some l \<longleftrightarrow> l < length ((em_entrusts m)[k := r])
      \<and> er_order_id ((em_entrusts m)[k := r] ! l) = i" for i l
  proof -
    have "em_id_index m i = Some l \<longleftrightarrow> l < length (em_entrusts m) \<and> er_order_id (em_entrusts m ! l) = i"
      using assms by (simp add: entrusts_ok_def)
    then show ?thesis using k by (cases "l = k") auto
  qed
  have a: "add_or_update r m = m\<lparr>em_entrusts := (em_entrusts m)[k := r]\<rparr>"
    using Some by (simp add: add_or_update_def)
  have "em_entrusts (add_or_update r m) = (em_entrusts m)[k := r]" "em_id_index (add_or_update r m) = em_id_index m"
    by (simp_all add: a)
  then show ?thesis unfolding entrusts_ok_def using dup idx kept by simp
qed

lemma entrusts_ok_fold: "entrusts_ok rs (fold add_or_update rs entrust_manager_new)"
  by (induction rs rule: rev_induct) (simp_all add: add_or_update_ok, simp add: entrusts_ok_def entrust_manager_new_def)

lemma find_Some_id: "List.find (\<lambda>x. f x = i) xs = Some r \<Longrightarrow> f r = i"
  by (auto simp: find_Some_iff)

text \<open>
  The order records.  After any sequence of updates from orders, a query by id answers the record of
  the last update with that id, or nothing if there was none; every id has one record, in the order in
  which the ids first came; and the number of active records is the length of their list.
\<close>

theorem entrust_records_latest:
  "let m = fold update_from_order orders entrust_manager_new in
    (\<forall>i. find_entrust i m = map_option from_order_request
       (List.find (\<lambda>req. internal_order_id req = i) (rev orders)))
    \<and> map er_order_id (get_all_entrusts m) = rev (remdups (rev (map internal_order_id orders)))
    \<and> entrust_active_count m = length (get_active_entrusts m)"
proof -
  define rs where "rs = map from_order_request orders"
  define m where "m = fold add_or_update rs entrust_manager_new"
  have f: "fold update_from_order orders entrust_manager_new = m"
    by (simp add: m_def rs_def fold_map comp_def update_from_order_def [abs_def] cong: fold_cong)
  have ok: "entrusts_ok rs m" unfolding m_def by (rule entrusts_ok_fold)
  have id: "er_order_id (from_order_request req) = internal_order_id req" for req
    by (simp add: from_order_request_def)
  have find_map: "List.find (\<lambda>x. er_order_id x = i) (map from_order_request xs)
      = map_option from_order_request (List.find (\<lambda>req. internal_order_id req = i) xs)" for i xs
    by (induction xs) (simp_all add: id)
  have "find_entrust i m = List.find (\<lambda>x. er_order_id x = i) (rev rs)" for i
  proof (cases "em_id_index m i")
    case None
    have "i \<notin> set (map er_order_id (em_entrusts m))"
      using ok None by (rule entrusts_ok_None)
    then have "i \<notin> set (map er_order_id rs)" using entrusts_ok_ids [OF ok] by blast
    then have "List.find (\<lambda>x. er_order_id x = i) (rev rs) = None" by (auto simp: find_None_iff)
    then show ?thesis using None by (simp add: find_entrust_def)
  next
    case (Some k)
    then have k: "k < length (em_entrusts m)" "er_order_id (em_entrusts m ! k) = i"
      using ok by (auto simp: entrusts_ok_def)
    then have "List.find (\<lambda>x. er_order_id x = i) (rev rs) = Some (em_entrusts m ! k)"
      using ok by (auto simp: entrusts_ok_def)
    then show ?thesis using Some by (simp add: find_entrust_def)
  qed
  then have "find_entrust i m = map_option from_order_request
      (List.find (\<lambda>req. internal_order_id req = i) (rev orders))" for i
    by (simp add: rs_def rev_map find_map)
  moreover have "map er_order_id (get_all_entrusts m) = rev (remdups (rev (map internal_order_id orders)))"
    using ok by (simp add: entrusts_ok_def get_all_entrusts_def rs_def comp_def id)
  moreover have "entrust_active_count m = length (get_active_entrusts m)"
  proof -
    have "foldl (\<lambda>n r. if \<not> is_terminal_state (er_status r) then n + 1 else n) c xs
      = c + length (filter (\<lambda>r. \<not> is_terminal_state (er_status r)) xs)" for c :: nat and xs
      by (induction xs arbitrary: c) simp_all
    from this [of 0 "em_entrusts m"] show ?thesis
      unfolding entrust_active_count_def get_active_entrusts_def by simp
  qed
  ultimately show ?thesis by (simp add: f Let_def)
qed

end
