(* ===== verification/Account_Loader.thy ===== *)
theory Account_Loader
  imports Account_Info Position_Loader
begin

text \<open>
  \<open>load_from_config\<close> of \<^verbatim>\<open>src/portfolio/account_info.cpp\<close>: the reader of account data from a file of
  sections and \<open>key = value\<close> lines.  The text of a file is an argument, \<open>None\<close> if it cannot be opened, and
  so is \<open>std::stod\<close> (\<open>None\<close>: it throws); an infinite value or a NaN, for which it does not throw, is left
  out, as in \<^verbatim>\<open>Account_Info.thy\<close>.
\<close>

section \<open>Values\<close>

definition account_parse_bool :: "string \<Rightarrow> bool option" where
  "account_parse_bool text =
     (let v = map to_lower (trim_copy text)
      in if v = ''1'' \<or> v = ''true'' \<or> v = ''yes'' \<or> v = ''on'' then Some True
         else if v = ''0'' \<or> v = ''false'' \<or> v = ''no'' \<or> v = ''off'' then Some False
         else None)"

definition account_parse_u32 :: "string \<Rightarrow> u32 option" where
  "account_parse_u32 text =
     (case stoull (trim_copy text) of
        None \<Rightarrow> None
      | Some parsed \<Rightarrow> if parsed > 0xFFFFFFFF then None else Some (ucast parsed))"

definition account_parse_double :: "(string \<Rightarrow> double option) \<Rightarrow> string \<Rightarrow> double option" where
  "account_parse_double stod text = stod (trim_copy text)"

definition parse_account_type :: "string \<Rightarrow> AccountType option" where
  "parse_account_type text =
     (let v = map to_lower (trim_copy text)
      in if v = ''1'' \<or> v = ''stock'' then Some Stock
         else if v = ''2'' \<or> v = ''futures'' then Some Futures
         else if v = ''3'' \<or> v = ''option'' then Some Option
         else None)"

section \<open>Keys\<close>

text \<open>\<open>None\<close>: the value is refused.  A key that is not known is passed over.\<close>

definition apply_key :: "(string \<Rightarrow> double option) \<Rightarrow> account_info \<Rightarrow> string \<Rightarrow> string \<Rightarrow> account_info option" where
  "apply_key stod info key raw_value =
     (let v = trim_copy raw_value
      in if key = ''account.account_id''
         then map_option (\<lambda>x. info\<lparr>ai_account_id := x\<rparr>) (account_parse_u32 v)
         else if key = ''account.account_type''
         then map_option (\<lambda>x. info\<lparr>ai_account_type := x\<rparr>) (parse_account_type v)
         else if key = ''account.account_name'' then Some (info\<lparr>ai_account_name := fs_assign 32 v\<rparr>)
         else if key = ''account.broker_account'' then Some (info\<lparr>ai_broker_account := fs_assign 32 v\<rparr>)
         else if key = ''account.broker_code'' then Some (info\<lparr>ai_broker_code := fs_assign 16 v\<rparr>)
         else if key = ''account.can_buy'' then map_option (\<lambda>x. info\<lparr>ai_can_buy := x\<rparr>) (account_parse_bool v)
         else if key = ''account.can_sell'' then map_option (\<lambda>x. info\<lparr>ai_can_sell := x\<rparr>) (account_parse_bool v)
         else if key = ''account.can_short'' then map_option (\<lambda>x. info\<lparr>ai_can_short := x\<rparr>) (account_parse_bool v)
         else if key = ''account.can_margin'' then map_option (\<lambda>x. info\<lparr>ai_can_margin := x\<rparr>) (account_parse_bool v)
         else if key = ''account.commission_rate''
         then map_option (\<lambda>x. info\<lparr>commission_rate := x\<rparr>) (account_parse_double stod v)
         else if key = ''account.stamp_tax_rate''
         then map_option (\<lambda>x. info\<lparr>stamp_tax_rate := x\<rparr>) (account_parse_double stod v)
         else if key = ''account.transfer_fee_rate''
         then map_option (\<lambda>x. info\<lparr>transfer_fee_rate := x\<rparr>) (account_parse_double stod v)
         else if key = ''account.min_commission''
         then map_option (\<lambda>x. info\<lparr>min_commission := x\<rparr>) (parse_u64_field v)
         else if key = ''account.max_single_order''
         then map_option (\<lambda>x. info\<lparr>ai_max_single_order := x\<rparr>) (parse_u64_field v)
         else if key = ''account.max_daily_amount''
         then map_option (\<lambda>x. info\<lparr>ai_max_daily_amount := x\<rparr>) (parse_u64_field v)
         else Some info)"

section \<open>The file\<close>

definition strip_ini_comment :: "string \<Rightarrow> string" where
  "strip_ini_comment line = trim_copy (takeWhile (\<lambda>c. c \<noteq> CHR ''#'' \<and> c \<noteq> CHR '';'') line)"

definition unquote :: "string \<Rightarrow> string" where
  "unquote v = (if length v \<ge> 2 \<and> hd v = CHR 0x22 \<and> last v = CHR 0x22 then butlast (tl v) else v)"

fun load_ini_lines :: "(string \<Rightarrow> double option) \<Rightarrow> string list \<Rightarrow> string \<Rightarrow> account_info \<Rightarrow> account_info option" where
  "load_ini_lines stod [] ini_section info = Some info"
| "load_ini_lines stod (line # ls) ini_section info =
     (let line = strip_ini_comment line
      in if line = [] then load_ini_lines stod ls ini_section info
         else if hd line = CHR ''['' \<and> last line = CHR '']''
         then load_ini_lines stod ls (trim_copy (butlast (tl line))) info
         else if CHR ''='' \<notin> set line then load_ini_lines stod ls ini_section info
         else let key = trim_copy (takeWhile (\<lambda>c. c \<noteq> CHR ''='') line);
                  v = unquote (trim_copy (tl (dropWhile (\<lambda>c. c \<noteq> CHR ''='') line)));
                  full_key = (if ini_section = [] then key else ini_section @ ''.'' @ key)
              in case apply_key stod info full_key v of
                   None \<Rightarrow> None
                 | Some info \<Rightarrow> load_ini_lines stod ls ini_section info)"

definition account_load_from_config ::
    "(string \<Rightarrow> double option) \<Rightarrow> (string \<Rightarrow> string option) \<Rightarrow> string \<Rightarrow> account_info \<Rightarrow> bool \<times> account_info" where
  "account_load_from_config stod files config_path info =
     (case files config_path of
        None \<Rightarrow> (False, info)
      | Some text \<Rightarrow>
          (case load_ini_lines stod (lines_of text) [] info of
             None \<Rightarrow> (False, info)
           | Some loaded \<Rightarrow> (True, loaded\<lparr>ai_state := Ready\<rparr>)))"

section \<open>A file that is not of this form\<close>

lemma load_ini_lines_no_assignment:
  assumes "\<forall>line \<in> set ls. CHR ''='' \<notin> set (strip_ini_comment line)"
  shows "load_ini_lines stod ls ini_section info = Some info"
  using assms by (induction ls arbitrary: ini_section) (auto simp: Let_def)

text \<open>
  A readable file in which no line has an equals sign in front of its comment, a YAML file of plain
  \<open>key: value\<close> lines for one, is accepted by the account reader whatever it says, and only marks the account
  ready: every permission, limit and rate stays what it was.
\<close>

theorem account_yaml_ignored:
  assumes "files path = Some text"
    and "\<forall>line \<in> set (lines_of text). CHR ''='' \<notin> set (strip_ini_comment line)"
  shows "account_load_from_config stod files path info = (True, info\<lparr>ai_state := Ready\<rparr>)"
  using assms by (simp add: account_load_from_config_def load_ini_lines_no_assignment)

text \<open>The text \<open>account:\<close>, newline, \<open>can_buy: false\<close> leaves buying allowed; as \<open>[account]\<close>, \<open>can_buy = false\<close> it forbids it.\<close>

lemma account_yaml_ignored_witness:
  "account_load_from_config (\<lambda>_. None)
      (\<lambda>_. Some (''account:'' @ CHR 0x0A # ''  can_buy: false'')) ''a.yaml'' account_info_default
    = (True, account_info_default\<lparr>ai_state := Ready\<rparr>)
   \<and> ai_can_buy (snd (account_load_from_config (\<lambda>_. None)
      (\<lambda>_. Some (''[account]'' @ CHR 0x0A # ''can_buy = false'')) ''a.ini'' account_info_default)) = False"
proof
  show "account_load_from_config (\<lambda>_. None)
      (\<lambda>_. Some (''account:'' @ CHR 0x0A # ''  can_buy: false'')) ''a.yaml'' account_info_default
    = (True, account_info_default\<lparr>ai_state := Ready\<rparr>)"
    by (rule account_yaml_ignored [OF refl]) code_simp
  show "ai_can_buy (snd (account_load_from_config (\<lambda>_. None)
      (\<lambda>_. Some (''[account]'' @ CHR 0x0A # ''can_buy = false'')) ''a.ini'' account_info_default)) = False"
    by code_simp
qed

end
