(* ===== verification/Account_Service.thy ===== *)
theory Account_Service
  imports Order_Recovery Shm_Manager Records Account_Loader
begin

text \<open>
  \<^verbatim>\<open>src/core/account_service.cpp\<close> and \<^verbatim>\<open>src/main.cpp\<close>: the life of the account service, composed from the
  operations of its components.

  The record holds the members of the class (\<open>state_\<close> is \<open>sv_state\<close>, and so on) and, in front of them, what is outside the process: the tables of
  shared memory and the error state.  A pointer into a segment is the number of its object.  Once the event loop
  exists it holds the components it refers to; \<open>give_back\<close> writes them back into the members and the segments
  when the loop returns.  \<open>std::make_unique\<close> never gives null, so the branches for that do not occur; nor is
  anything logged.  Two segments have different names, as in \<open>Shm_Manager\<close>.
\<close>

section \<open>State\<close>

datatype ServiceState = SvcCreated | SvcInitializing | SvcReady | SvcRunning | SvcStopping | SvcStopped | SvcError

record service_environment =
  sv_queues :: "OrderIndex queue_segment shm_os"
  sv_trade_queues :: "TradeResponse queue_segment shm_os"
  sv_pools :: "orders_segment shm_os"
  sv_tables :: "positions_shm_layout shm_os"
  sv_errors :: error_state

record AccountService = service_environment +
  sv_last_error :: ErrorStatus
  sv_shutdown_reason :: ErrorSeverity
  sv_state :: ServiceState
  sv_config_manager :: ConfigManager
  sv_upstream_shm_manager :: SHMManager
  sv_downstream_shm_manager :: SHMManager
  sv_trades_shm_manager :: SHMManager
  sv_orders_shm_manager :: SHMManager
  sv_positions_shm_manager :: SHMManager
  sv_upstream_shm :: "nat option"
  sv_downstream_shm :: "nat option"
  sv_trades_shm :: "nat option"
  sv_orders_shm :: "nat option"
  sv_positions_shm :: "nat option"
  sv_account_info :: "account_info option"
  sv_position_manager :: "PositionManager option"
  sv_router_world :: "world option"
  sv_order_event_recorder :: bool
  sv_risk_manager :: "RiskManager option"
  sv_market_data_service :: "MarketDataService option"
  sv_execution_engine :: "ExecutionEngine option"
  sv_trade_records :: "trade_record_manager option"
  sv_entrust_records :: "entrust_record_manager option"
  sv_event_loop :: "EventLoop option"

text \<open>\<open>sv_router_world\<close> stands for \<open>order_book_\<close> and \<open>order_router_\<close>, which are always set together.\<close>

definition AccountService_new :: "service_environment \<Rightarrow> AccountService" where
  "AccountService_new env = service_environment.extend env
     \<lparr>sv_last_error = ErrorStatus_default, sv_shutdown_reason = Recoverable, sv_state = SvcCreated,
      sv_config_manager = config_manager_new (sv_errors env),
      sv_upstream_shm_manager = SHMManager_new, sv_downstream_shm_manager = SHMManager_new,
      sv_trades_shm_manager = SHMManager_new, sv_orders_shm_manager = SHMManager_new,
      sv_positions_shm_manager = SHMManager_new, sv_upstream_shm = None, sv_downstream_shm = None, sv_trades_shm = None,
      sv_orders_shm = None, sv_positions_shm = None, sv_account_info = None, sv_position_manager = None,
      sv_router_world = None, sv_order_event_recorder = False, sv_risk_manager = None, sv_market_data_service = None,
      sv_execution_engine = None, sv_trade_records = None, sv_entrust_records = None, sv_event_loop = None\<rparr>"

text \<open>What a start reads from outside.\<close>

record segment_input =
  sg_bytes :: nat
  sg_faults :: os_faults

record start_input =
  si_now :: TimestampNs
  si_stod :: "string \<Rightarrow> stod_result"
  si_yaml :: "string \<Rightarrow> yaml_node option"
  si_account_stod :: "string \<Rightarrow> double option"
  si_sources :: load_sources
  si_to_float :: "float64 \<Rightarrow> float32"
  si_logger_ok :: bool
  si_recorder_ok :: bool
  si_file_backend :: bool
  si_upstream :: segment_input
  si_downstream :: segment_input
  si_trades :: segment_input
  si_orders :: segment_input
  si_positions :: segment_input
  si_capacity :: nat
  si_walk :: "InternalOrderId list"
  si_md_opened :: bool
  si_md_header_ok :: bool
  si_md_reader :: "string \<Rightarrow> ReadResult option"

section \<open>Errors and clean-up\<close>

definition make_service_error :: "ErrorCode \<Rightarrow> string \<Rightarrow> TimestampNs \<Rightarrow> ErrorStatus" where
  "make_service_error code message now = make_error_status D_core code ''AccountService'' [] 0 message 0 now"

definition raise_service_error :: "ErrorStatus \<Rightarrow> AccountService \<Rightarrow> AccountService" where
  "raise_service_error status s =
     (let s = s\<lparr>sv_last_error := status, sv_errors := record_error status (sv_errors s)\<rparr>;
          policy = classify (es_domain status) (es_code status)
      in if severity_value (sv_shutdown_reason s) < severity_value (severity policy)
         then s\<lparr>sv_shutdown_reason := severity policy\<rparr> else s)"

abbreviation service_fails :: "ErrorCode \<Rightarrow> string \<Rightarrow> TimestampNs \<Rightarrow> AccountService \<Rightarrow> bool \<times> AccountService" where
  "service_fails code message now s \<equiv> (False, raise_service_error (make_service_error code message now) s)"

definition should_terminate_due_to_error :: "AccountService \<Rightarrow> bool" where
  "should_terminate_due_to_error s = (severity_value (sv_shutdown_reason s) \<ge> severity_value Critical)"

definition has_fatal_error :: "AccountService \<Rightarrow> bool" where
  "has_fatal_error s = (sv_shutdown_reason s = Fatal)"

definition cleanup :: "AccountService \<Rightarrow> AccountService" where
  "cleanup s = s
     \<lparr>sv_event_loop := None, sv_execution_engine := None, sv_market_data_service := None, sv_router_world := None,
      sv_order_event_recorder := False, sv_risk_manager := None, sv_entrust_records := None, sv_trade_records := None,
      sv_position_manager := None, sv_account_info := None,
      sv_upstream_shm := None, sv_downstream_shm := None, sv_trades_shm := None, sv_orders_shm := None,
      sv_positions_shm := None,
      sv_upstream_shm_manager := sm_close (sv_upstream_shm_manager s),
      sv_downstream_shm_manager := sm_close (sv_downstream_shm_manager s),
      sv_trades_shm_manager := sm_close (sv_trades_shm_manager s),
      sv_orders_shm_manager := sm_close (sv_orders_shm_manager s),
      sv_positions_shm_manager := sm_close (sv_positions_shm_manager s)\<rparr>"

text \<open>The \<open>||\<close> chains of negated calls: the first that answers false ends the chain.\<close>

type_synonym service_step = "AccountService \<Rightarrow> bool \<times> AccountService"

fun run_steps :: "service_step list \<Rightarrow> service_step" where
  "run_steps [] s = (True, s)"
| "run_steps (step # steps) s = (case step s of (False, s) \<Rightarrow> (False, s) | (True, s) \<Rightarrow> run_steps steps s)"

section \<open>The components\<close>

abbreviation service_config :: "AccountService \<Rightarrow> Config" where
  "service_config s \<equiv> cm_config (sv_config_manager s)"

definition init_config :: "start_input \<Rightarrow> string \<Rightarrow> service_step" where
  "init_config inp config_path s =
     (if config_path = []
      then service_fails ErrorCode.InvalidConfig ''config path must not be empty'' (si_now inp) s
      else let (ok, m) = load_from_file (si_stod inp) (si_yaml inp) (si_now inp) config_path
                 ((sv_config_manager s)\<lparr>cm_errors := sv_errors s\<rparr>);
               s = s\<lparr>sv_config_manager := m, sv_errors := cm_errors m\<rparr>
           in if \<not> ok then service_fails ConfigParseFailed ''failed to load config file'' (si_now inp) s
              else (True, s))"

definition init_service_logger :: "start_input \<Rightarrow> service_step" where
  "init_service_logger inp s =
     (if \<not> si_logger_ok inp then service_fails LoggerInitFailed ''failed to initialize logger'' (si_now inp) s
      else (True, s))"

definition init_order_event_recorder :: "start_input \<Rightarrow> service_step" where
  "init_order_event_recorder inp s =
     (let s = s\<lparr>sv_order_event_recorder := True\<rparr>
      in if \<not> si_recorder_ok inp
         then service_fails LoggerInitFailed ''failed to initialize order event recorder'' (si_now inp) s
         else (True, s))"

definition service_shm_mode :: "AccountService \<Rightarrow> shm_mode" where
  "service_shm_mode s = (if create_if_not_exist (cf_shm (service_config s)) then ModeOpenOrCreate else ModeOpen)"

text \<open>The five blocks of \<open>init_shared_memory\<close>.\<close>

definition init_upstream_shm :: "start_input \<Rightarrow> service_step" where
  "init_upstream_shm inp s =
     (case open_upstream (sg_bytes (si_upstream inp)) (upstream_shm_name (cf_shm (service_config s)))
             (service_shm_mode s) (si_file_backend inp) (sg_faults (si_upstream inp)) (si_now inp)
             (sv_upstream_shm_manager s, \<lparr>se_os = sv_queues s, se_errors = sv_errors s\<rparr>) of
        (p, m, env) \<Rightarrow>
          let s = s\<lparr>sv_upstream_shm := p, sv_upstream_shm_manager := m, sv_queues := se_os env,
                    sv_errors := se_errors env\<rparr>
          in if p = None then service_fails ShmOpenFailed ''failed to open upstream shm'' (si_now inp) s
             else (True, s))"

definition init_downstream_shm :: "start_input \<Rightarrow> service_step" where
  "init_downstream_shm inp s =
     (case open_downstream (sg_bytes (si_downstream inp)) (downstream_shm_name (cf_shm (service_config s)))
             (service_shm_mode s) (si_file_backend inp) (sg_faults (si_downstream inp)) (si_now inp)
             (sv_downstream_shm_manager s, \<lparr>se_os = sv_queues s, se_errors = sv_errors s\<rparr>) of
        (p, m, env) \<Rightarrow>
          let s = s\<lparr>sv_downstream_shm := p, sv_downstream_shm_manager := m, sv_queues := se_os env,
                    sv_errors := se_errors env\<rparr>
          in if p = None then service_fails ShmOpenFailed ''failed to open downstream shm'' (si_now inp) s
             else (True, s))"

definition init_trades_shm :: "start_input \<Rightarrow> service_step" where
  "init_trades_shm inp s =
     (case open_trades (sg_bytes (si_trades inp)) (trades_shm_name (cf_shm (service_config s)))
             (service_shm_mode s) (si_file_backend inp) (sg_faults (si_trades inp)) (si_now inp)
             (sv_trades_shm_manager s, \<lparr>se_os = sv_trade_queues s, se_errors = sv_errors s\<rparr>) of
        (p, m, env) \<Rightarrow>
          let s = s\<lparr>sv_trades_shm := p, sv_trades_shm_manager := m, sv_trade_queues := se_os env,
                    sv_errors := se_errors env\<rparr>
          in if p = None then service_fails ShmOpenFailed ''failed to open trades shm'' (si_now inp) s
             else (True, s))"

definition init_orders_shm :: "start_input \<Rightarrow> service_step" where
  "init_orders_shm inp s =
     (let dated_orders_name = make_orders_shm_name (orders_shm_name (cf_shm (service_config s)))
            (cf_trading_day (service_config s))
      in case open_orders (sg_bytes (si_orders inp)) dated_orders_name
             (service_shm_mode s) (si_file_backend inp) (sg_faults (si_orders inp)) (si_now inp)
             (sv_orders_shm_manager s, \<lparr>se_os = sv_pools s, se_errors = sv_errors s\<rparr>) of
        (p, m, env) \<Rightarrow>
          let s = s\<lparr>sv_orders_shm := p, sv_orders_shm_manager := m, sv_pools := se_os env,
                    sv_errors := se_errors env\<rparr>
          in if p = None then service_fails ShmOpenFailed ''failed to open orders shm'' (si_now inp) s
             else (True, s))"

definition init_positions_shm :: "start_input \<Rightarrow> service_step" where
  "init_positions_shm inp s =
     (case open_positions (sg_bytes (si_positions inp)) (positions_shm_name (cf_shm (service_config s)))
             (service_shm_mode s) (si_file_backend inp) (sg_faults (si_positions inp)) (si_now inp)
             (sv_positions_shm_manager s, \<lparr>se_os = sv_tables s, se_errors = sv_errors s\<rparr>) of
        (p, m, env) \<Rightarrow>
          let s = s\<lparr>sv_positions_shm := p, sv_positions_shm_manager := m, sv_tables := se_os env,
                    sv_errors := se_errors env\<rparr>
          in if p = None then service_fails ShmOpenFailed ''failed to open positions shm'' (si_now inp) s
             else (True, s))"

definition init_shared_memory :: "start_input \<Rightarrow> service_step" where
  "init_shared_memory inp =
     run_steps [init_upstream_shm inp, init_downstream_shm inp, init_trades_shm inp, init_orders_shm inp,
       init_positions_shm inp]"

text \<open>The position manager works on its segment in place.\<close>

definition write_positions :: "PositionManager \<Rightarrow> AccountService \<Rightarrow> AccountService" where
  "write_positions pm s =
     (case (sv_positions_shm s, pm_shm pm) of
        (Some p, Some shm) \<Rightarrow> s\<lparr>sv_tables := px_update p (\<lambda>_. shm) (sv_tables s)\<rparr>
      | _ \<Rightarrow> s)"

definition init_position_manager :: "start_input \<Rightarrow> service_step" where
  "init_position_manager inp s =
     (let cfg = service_config s;
          pm = PositionManager_new (map_option (\<lambda>p. px_read p (sv_tables s)) (sv_positions_shm s))
                 (cf_config_file cfg) (db_file_path (cf_db cfg)) (enable_persistence (cf_db cfg));
          (ok, pm, errors) = initialize (si_sources inp) (sg_bytes (si_positions inp)) (cf_account_id cfg)
                 (si_now inp) pm (sv_errors s);
          s = write_positions pm (s\<lparr>sv_account_info := Some account_info_default,
                 sv_trade_records := Some trade_manager_new, sv_entrust_records := Some entrust_manager_new,
                 sv_position_manager := Some pm, sv_errors := errors\<rparr>)
      in if \<not> ok then service_fails ComponentUnavailable ''failed to initialize position manager'' (si_now inp) s
         else (True, s))"

definition load_account_info :: "start_input \<Rightarrow> service_step" where
  "load_account_info inp s =
     (case sv_account_info s of
        None \<Rightarrow> service_fails ComponentUnavailable ''account info manager unavailable'' (si_now inp) s
      | Some info \<Rightarrow>
          let cfg = service_config s;
              (loaded, info) = (if cf_config_file cfg \<noteq> []
                 then account_load_from_config (si_account_stod inp) (ls_files (si_sources inp)) (cf_config_file cfg) info
                 else (False, info));
              (loaded, info) = (if \<not> loaded \<and> enable_persistence (cf_db cfg) \<and> db_file_path (cf_db cfg) \<noteq> []
                 then (True, account_load_from_db (cf_account_id cfg) info) else (loaded, info));
              info = info\<lparr>ai_account_id := cf_account_id cfg\<rparr>;
              info = (if \<not> loaded then info\<lparr>ai_state := Ready\<rparr> else info)
          in (True, s\<lparr>sv_account_info := Some info\<rparr>))"

definition load_positions :: "start_input \<Rightarrow> service_step" where
  "load_positions inp s =
     (if sv_position_manager s = None
      then service_fails ComponentUnavailable ''position manager unavailable while loading positions'' (si_now inp) s
      else (True, s))"

definition service_load_today_trades :: "start_input \<Rightarrow> service_step" where
  "service_load_today_trades inp s =
     (case sv_trade_records s of
        None \<Rightarrow> service_fails ComponentUnavailable ''trade record manager unavailable'' (si_now inp) s
      | Some m \<Rightarrow>
          let db = cf_db (service_config s)
          in if \<not> enable_persistence db \<or> db_file_path db = [] then (True, s)
             else let (ok, m) = load_today_trades m; s = s\<lparr>sv_trade_records := Some m\<rparr>
                  in if \<not> ok then service_fails InternalError ''failed to load today trades'' (si_now inp) s
                     else (True, s))"

definition service_load_today_entrusts :: "start_input \<Rightarrow> service_step" where
  "service_load_today_entrusts inp s =
     (case sv_entrust_records s of
        None \<Rightarrow> service_fails ComponentUnavailable ''entrust record manager unavailable'' (si_now inp) s
      | Some m \<Rightarrow>
          let db = cf_db (service_config s)
          in if \<not> enable_persistence db \<or> db_file_path db = [] then (True, s)
             else let (ok, m) = load_today_entrusts m; s = s\<lparr>sv_entrust_records := Some m\<rparr>
                  in if \<not> ok then service_fails InternalError ''failed to load today entrusts'' (si_now inp) s
                     else (True, s))"

definition init_portfolio :: "start_input \<Rightarrow> service_step" where
  "init_portfolio inp =
     run_steps [init_position_manager inp, load_account_info inp, load_positions inp,
       service_load_today_trades inp, service_load_today_entrusts inp]"

definition init_risk_manager :: "start_input \<Rightarrow> service_step" where
  "init_risk_manager inp s =
     (if sv_position_manager s = None
      then service_fails ComponentUnavailable ''position manager unavailable'' (si_now inp) s
      else (True, s\<lparr>sv_risk_manager := Some (RiskManager_new (cf_risk (service_config s)))\<rparr>))"

text \<open>The shared memories the book and the router work on.\<close>

definition service_world :: "nat \<Rightarrow> AccountService \<Rightarrow> world" where
  "service_world capacity s =
     \<lparr>w_book = OrderBook_new capacity,
      w_downstream = map_option (\<lambda>p. qs_queue (px_read p (sv_queues s))) (sv_downstream_shm s),
      w_orders = map_option (\<lambda>p. og_pool (px_read p (sv_pools s))) (sv_orders_shm s),
      w_upstream = map_option (\<lambda>p. \<lparr>us_next_order_id = sh_next_order_id (qs_header (px_read p (sv_queues s))),
          us_queue = qs_queue (px_read p (sv_queues s))\<rparr>) (sv_upstream_shm s),
      w_errors = sv_errors s, w_router = router_stats_zero, w_callback = False\<rparr>"

definition init_order_components :: "start_input \<Rightarrow> service_step" where
  "init_order_components inp s =
     (if sv_downstream_shm s = None \<or> sv_orders_shm s = None
      then service_fails ComponentUnavailable ''downstream/orders shm unavailable'' (si_now inp) s
      else let (ok, w, stats) = recover_downstream_active_orders (si_now inp) (si_walk inp)
                 (service_world (si_capacity inp) s);
               s = s\<lparr>sv_router_world := Some w, sv_errors := w_errors w\<rparr>
           in if \<not> ok
              then service_fails ComponentUnavailable ''failed to recover downstream active orders'' (si_now inp) s
              else (True, s))"

definition init_market_data :: "start_input \<Rightarrow> service_step" where
  "init_market_data inp s =
     (let (ok, md) = md_initialize (si_md_opened inp) (si_md_header_ok inp)
            \<lparr>md_config = cf_market_data (service_config s), md_ready = False, md_reader = si_md_reader inp\<rparr>;
          s = s\<lparr>sv_market_data_service := Some md\<rparr>
      in if \<not> ok then service_fails ComponentUnavailable ''failed to initialize market data service'' (si_now inp) s
         else (True, s))"

definition strategy_config :: "start_input \<Rightarrow> ActiveStrategyOptions \<Rightarrow> ActiveStrategyConfig" where
  "strategy_config inp c = \<lparr>asc_enabled = aso_enabled c, asc_name = aso_name c,
     asc_signal_threshold = si_to_float inp (aso_signal_threshold c)\<rparr>"

definition init_execution_engine :: "start_input \<Rightarrow> service_step" where
  "init_execution_engine inp s =
     (if sv_router_world s = None
      then service_fails ComponentUnavailable ''execution engine dependencies unavailable'' (si_now inp) s
      else let c = cf_active_strategy (service_config s);
               active_strategy = create_strategy (strategy_config inp c)
           in if aso_enabled c \<and> aso_name c \<noteq> ''none'' \<and> active_strategy = None
              then service_fails ErrorCode.InvalidConfig ''unknown active strategy name'' (si_now inp) s
              else (True, s\<lparr>sv_execution_engine := Some
                \<lparr>en_split_config = split_config.truncate (cf_split (service_config s)),
                 en_env = \<lparr>ee_market_data = sv_market_data_service s, ee_active_strategy = active_strategy\<rparr>,
                 en_sessions = []\<rparr>\<rparr>))"

definition init_event_loop :: "start_input \<Rightarrow> service_step" where
  "init_event_loop inp s =
     (case (sv_router_world s, sv_position_manager s, sv_risk_manager s) of
        (Some w, Some pm, Some rm) \<Rightarrow>
          if sv_upstream_shm s = None \<or> sv_downstream_shm s = None \<or> sv_trades_shm s = None \<or> sv_orders_shm s = None
             \<or> sv_execution_engine s = None
          then service_fails ComponentUnavailable ''event loop dependencies unavailable'' (si_now inp) s
          else (True, s\<lparr>sv_event_loop := Some (event_loop_new
                 (EventLoopConfig.truncate (cf_event_loop (service_config s))) w
                 (map_option (\<lambda>p. qs_queue (px_read p (sv_trade_queues s))) (sv_trades_shm s)) pm rm (sv_account_info s)
                 (sv_execution_engine s))\<rparr>)
      | _ \<Rightarrow> service_fails ComponentUnavailable ''event loop dependencies unavailable'' (si_now inp) s)"

section \<open>The life of the service\<close>

definition service_components :: "start_input \<Rightarrow> service_step" where
  "service_components inp =
     run_steps [init_order_event_recorder inp, init_shared_memory inp, init_portfolio inp, init_risk_manager inp,
       init_order_components inp, init_market_data inp, init_execution_engine inp, init_event_loop inp]"

definition service_initialize :: "start_input \<Rightarrow> string \<Rightarrow> service_step" where
  "service_initialize inp config_path s =
     (let s = s\<lparr>sv_errors := clear_last_error (clear_shutdown_reason (sv_errors s))\<rparr>
      in if sv_state s = SvcInitializing \<or> sv_state s = SvcRunning
         then service_fails InvalidState ''initialize called in invalid state'' (si_now inp) s
         else let s = cleanup (s\<lparr>sv_state := SvcInitializing\<rparr>)
              in case run_steps [init_config inp config_path, init_service_logger inp, service_components inp] s of
                   (False, s) \<Rightarrow> (False, cleanup (s\<lparr>sv_state := SvcError\<rparr>))
                 | (True, s) \<Rightarrow> (True, s\<lparr>sv_state := SvcReady\<rparr>))"

definition service_stop :: "AccountService \<Rightarrow> AccountService" where
  "service_stop s =
     (let s = (if sv_state s = SvcRunning then s\<lparr>sv_state := SvcStopping\<rparr> else s)
      in s\<lparr>sv_event_loop := map_option stop_loop (sv_event_loop s)\<rparr>)"

text \<open>What the loop has done to the components and the segments it refers to.\<close>

definition put_queue :: "nat \<Rightarrow> 'q spsc_queue \<Rightarrow> 'q queue_segment shm_os \<Rightarrow> 'q queue_segment shm_os" where
  "put_queue p q = px_update p (\<lambda>seg. seg\<lparr>qs_queue := q\<rparr>)"

definition give_back :: "EventLoop \<Rightarrow> AccountService \<Rightarrow> AccountService" where
  "give_back loop s =
     (let w = el_world loop;
          queues = (case (sv_downstream_shm s, w_downstream w) of
             (Some p, Some q) \<Rightarrow> put_queue p q (sv_queues s) | _ \<Rightarrow> sv_queues s);
          queues = (case (sv_upstream_shm s, w_upstream w) of
             (Some p, Some up) \<Rightarrow> px_update p (\<lambda>seg. seg\<lparr>qs_queue := us_queue up,
                 qs_header := (qs_header seg)\<lparr>sh_next_order_id := us_next_order_id up\<rparr>\<rparr>) queues
           | _ \<Rightarrow> queues);
          s = s\<lparr>sv_event_loop := Some loop, sv_errors := w_errors w, sv_router_world := Some w,
                sv_position_manager := Some (el_positions loop), sv_risk_manager := Some (el_risk loop),
                sv_execution_engine := el_engine loop, sv_queues := queues,
                sv_trade_queues := (case (sv_trades_shm s, el_trades loop) of
                   (Some p, Some q) \<Rightarrow> put_queue p q (sv_trade_queues s) | _ \<Rightarrow> sv_trade_queues s),
                sv_pools := (case (sv_orders_shm s, w_orders w) of
                   (Some p, Some pool) \<Rightarrow> px_update p (\<lambda>seg. seg\<lparr>og_pool := pool\<rparr>) (sv_pools s)
                 | _ \<Rightarrow> sv_pools s)\<rparr>
      in write_positions (el_positions loop) s)"

text \<open>
  \<open>inputs\<close> is what the turns of the loop read, in \<open>li_stop\<close> whether a signal or another thread's \<open>stop\<close> asks it to
  stop; a run of a loop that is still running after them has not returned: \<open>None\<close>.
\<close>

definition service_run ::
    "TimestampNs \<Rightarrow> TimestampNs \<Rightarrow> loop_input list \<Rightarrow> AccountService \<Rightarrow> (int \<times> AccountService) option" where
  "service_run now now_monotonic inputs s =
     (case sv_event_loop s of
        None \<Rightarrow> Some (- 1, raise_service_error
                  (make_service_error ComponentUnavailable ''event loop not initialized'' now) s)
      | Some loop \<Rightarrow>
          if sv_state s \<noteq> SvcReady \<and> sv_state s \<noteq> SvcStopped
          then Some (- 1, raise_service_error
                  (make_service_error InvalidState ''run called in invalid state'' now) s)
          else let s = s\<lparr>sv_state := SvcRunning\<rparr>;
                   loop = run_loop now now_monotonic inputs (in_world (\<lambda>w. w\<lparr>w_errors := sv_errors s\<rparr>) loop);
                   s = give_back loop s
               in if el_running loop then None
                  else if should_terminate_due_to_error s \<or> should_stop_service (sv_errors s)
                  then Some (- 1, (service_stop s)\<lparr>sv_state := SvcError\<rparr>)
                  else let s = (if sv_state s = SvcStopping \<or> sv_state s = SvcRunning
                                then s\<lparr>sv_state := SvcStopped\<rparr> else s)
                       in Some (if sv_state s = SvcStopped then 0 else - 1, s))"

definition service_destroy :: "AccountService \<Rightarrow> AccountService" where
  "service_destroy s = (cleanup (service_stop s))\<lparr>sv_state := SvcStopped\<rparr>"

section \<open>The program\<close>

definition kDefaultConfigPath :: string where
  "kDefaultConfigPath = ''config/default.yaml''"

datatype main_args = MainOk string | MainHelp | MainError

fun main_parse_args :: "string option list \<Rightarrow> string \<Rightarrow> main_args" where
  "main_parse_args [] config_path = MainOk config_path"
| "main_parse_args (None # args) config_path = main_parse_args args config_path"
| "main_parse_args (Some arg # args) config_path =
     (if arg = ''-h'' \<or> arg = ''--help'' then MainHelp
      else if arg = ''--config''
      then (case args of Some v # args \<Rightarrow> main_parse_args args v | _ \<Rightarrow> MainError)
      else if arg \<noteq> [] \<and> hd arg = CHR ''-'' then MainError
      else if config_path \<noteq> [] then MainError
      else main_parse_args args arg)"

text \<open>\<open>argv\<close> without the program's name; the exit code, \<open>None\<close> if the program does not end.\<close>

definition account_main ::
    "start_input \<Rightarrow> TimestampNs \<Rightarrow> TimestampNs \<Rightarrow> loop_input list \<Rightarrow> service_environment \<Rightarrow> string option list
      \<Rightarrow> int option" where
  "account_main inp now now_monotonic inputs env argv =
     (case main_parse_args argv [] of
        MainHelp \<Rightarrow> Some 0
      | MainError \<Rightarrow> Some 2
      | MainOk config_path \<Rightarrow>
          let config_path = (if config_path = [] then kDefaultConfigPath else config_path)
          in case service_initialize inp config_path (AccountService_new env) of
               (False, s) \<Rightarrow> Some 1
             | (True, s) \<Rightarrow>
                 (case service_run now now_monotonic inputs s of
                    None \<Rightarrow> None
                  | Some (run_rc, s) \<Rightarrow>
                      if severity_value (shutdown_reason (sv_errors s)) \<ge> severity_value Critical then Some 1
                      else Some (if run_rc = 0 then 0 else 1)))"

end
