(* ===== verification/Event_Loop_Running.thy ===== *)
theory Event_Loop_Running
  imports Event_Loop
begin

text \<open>
  No handler of the event loop touches \<open>running_\<close>: only a request to stop, or the check for an error that
  stops the service at the end of a turn, ends the loop.
\<close>

lemma run_parts [simp]:
  "el_running (in_world f s) = el_running s" "el_running (write_entry i g s) = el_running s"
  "el_running (snd (in_positions h s)) = el_running s"
  by (simp_all add: in_world_def write_entry_def in_positions_def split_beta)

lemmas run_simps = Let_def split_beta

lemma run_reserve [simp]: "el_running (snd (reserve_order_resources i now s)) = el_running s"
  by (simp add: reserve_order_resources_def run_simps split: option.split)

lemma run_release [simp]: "el_running (release_order_resources i now s) = el_running s"
  by (simp add: release_order_resources_def run_simps split: option.split)

lemma run_settle [simp]: "el_running (snd (settle_buy_trade_fund i amount fee now s)) = el_running s"
  by (simp add: settle_buy_trade_fund_def run_simps split: option.split)

lemma run_managed [simp]: "el_running (start_managed_order index i now engine s) = el_running s"
  by (simp add: start_managed_order_def run_simps split: option.split)

lemma run_route [simp]: "el_running (route_accepted_order index i now s) = el_running s"
  by (simp add: route_accepted_order_def run_simps split: option.split)

lemma run_risk [simp]: "el_running (snd (risk_stage index req now s)) = el_running s"
  by (simp add: risk_stage_def run_simps)

lemma run_admit [simp]: "el_running (admit_order index req now s) = el_running s"
  by (simp add: admit_order_def run_simps split: option.split)

lemma run_handle [simp]: "el_running (handle_order_request index req now s) = el_running s"
  by (simp add: handle_order_request_def run_simps split: option.split)

lemma run_trade_fund [simp]: "el_running (settle_trade_fund i response now s) = el_running s"
  by (simp add: settle_trade_fund_def run_simps)

lemma run_missing [simp]: "el_running (create_missing_row sid r now s) = el_running s"
  by (simp add: create_missing_row_def run_simps)

lemma run_trade_position [simp]: "el_running (settle_trade_position sid response now s) = el_running s"
  by (simp add: settle_trade_position_def run_simps)

lemma run_trade [simp]: "el_running (apply_trade response now s) = el_running s"
  by (simp add: apply_trade_def run_simps split: option.split)

lemma run_after [simp]: "el_running (release_after_response i now s) = el_running s"
  by (simp add: release_after_response_def run_simps split: option.split)

lemma run_schedule [simp]: "el_running (schedule_archive i st now s) = el_running s"
  by (simp add: schedule_archive_def run_simps)

lemma run_response [simp]: "el_running (handle_trade_response response now s) = el_running s"
  by (simp add: handle_trade_response_def run_simps)

lemma run_pops [simp]: "el_running (snd (pop_upstream s)) = el_running s" "el_running (snd (pop_response s)) = el_running s"
  by (simp_all add: pop_upstream_def pop_response_def run_simps split: option.split)

lemma run_take [simp]: "el_running (snd (take_order index now s)) = el_running s"
  by (simp add: take_order_def run_simps split: option.split)

lemma run_upstream_loop [simp]: "el_running (snd (upstream_loop fuel limit now s)) = el_running s"
proof (induction fuel arbitrary: limit s)
  case (Suc fuel)
  have "el_running s' = el_running s" if "pop_upstream s = (x, s')" for x s'
    using run_pops(1) [of s] that by simp
  then show ?case by (auto simp: run_simps Suc split: prod.split option.split)
qed simp

lemma run_response_loop [simp]: "el_running (snd (response_loop fuel limit now s)) = el_running s"
proof (induction fuel arbitrary: limit s)
  case (Suc fuel)
  have "el_running s' = el_running s" if "pop_response s = (x, s')" for x s'
    using run_pops(2) [of s] that by simp
  then show ?case by (auto simp: run_simps Suc split: prod.split option.split)
qed simp

lemma run_processes [simp]: "el_running (snd (process_upstream_orders now s)) = el_running s"
  "el_running (snd (process_downstream_responses now s)) = el_running s"
  by (simp_all add: process_upstream_orders_def process_downstream_responses_def run_simps)

lemma run_archives [simp]: "el_running (process_pending_archives walk now s) = el_running s"
proof -
  have "el_running (archive_due now i t) = el_running t" for i t
    by (simp add: archive_due_def run_simps split: option.split)
  then have "el_running (fold (archive_due now) is t) = el_running t" for "is" t
    by (induction "is" arbitrary: t) simp_all
  then show ?thesis by (simp add: process_pending_archives_def)
qed

lemma run_iteration [simp]: "el_running (loop_iteration inp s) = el_running s"
  by (simp add: loop_iteration_def run_simps split: option.split)

text \<open>A loop that has come to an end was asked to stop, or has recorded an error that stops the service.\<close>

lemma run_turns_end:
  assumes "el_running s" "\<not> el_running (run_turns inputs s)"
  shows "(\<exists>inp \<in> set inputs. li_stop inp) \<or> should_stop_service (w_errors (el_world (run_turns inputs s)))"
  using assms
proof (induction inputs arbitrary: s)
  case (Cons inp inputs)
  let ?s1 = "loop_iteration inp s"
  have stays: "run_turns inputs t = t" if "\<not> el_running t" for t using that by (cases inputs) simp_all
  show ?case
  proof (cases "li_stop inp")
    case False
    show ?thesis
    proof (cases "should_stop_service (w_errors (el_world ?s1))")
      case True
      with Cons.prems(1) False stays [of "?s1\<lparr>el_running := False\<rparr>"] show ?thesis by simp
    next
      case no: False
      have r: "run_turns (inp # inputs) s = run_turns inputs ?s1"
        using Cons.prems(1) False no by (simp add: Let_def)
      with Cons.prems Cons.IH [of ?s1] show ?thesis by auto
    qed
  qed simp
qed simp

end
