(* ===== verification/Service_Facts.thy ===== *)
theory Service_Facts
  imports Account_Service Loader_Facts Event_Loop_Running
begin

text \<open>
  What the account service promises around its event loop: a start either leaves nothing behind but an error, or
  a service whose components stand on the segments it has mapped and on a valid configuration; once it has raised
  an error no run ends well; and the exit code of the program.
\<close>

section \<open>Errors of the service\<close>

definition has_raised :: "AccountService \<Rightarrow> bool" where
  "has_raised s \<longleftrightarrow> sv_shutdown_reason s \<noteq> Recoverable"

definition failed_with_error :: "AccountService \<Rightarrow> bool" where
  "failed_with_error s \<longleftrightarrow> has_raised s \<and> es_domain (sv_last_error s) = D_core \<and> es_code (sv_last_error s) \<noteq> Ok"

lemma should_terminate_iff: "should_terminate_due_to_error s \<longleftrightarrow> has_raised s"
  by (cases "sv_shutdown_reason s") (simp_all add: should_terminate_due_to_error_def has_raised_def)

lemma raise_keeps: "has_raised s \<Longrightarrow> has_raised (raise_service_error e s)"
  by (cases "sv_shutdown_reason s"; cases "severity (classify (es_domain e) (es_code e))")
     (simp_all add: raise_service_error_def has_raised_def Let_def)

lemma raise_severe:
  assumes "code \<in> {InvalidState, ComponentUnavailable, ErrorCode.InvalidConfig, ConfigParseFailed, ShmOpenFailed,
    LoggerInitFailed, InternalError}"
  shows "failed_with_error (raise_service_error (make_service_error code message now) s)"
  using assms
  by (cases "sv_shutdown_reason s")
     (auto simp: raise_service_error_def failed_with_error_def has_raised_def make_service_error_def
       make_error_status_def Let_def classify_domain policy_defs)

text \<open>A step that fails has raised an error, and no step takes one back.\<close>

definition outcome_ok :: "AccountService \<Rightarrow> bool \<times> AccountService \<Rightarrow> bool" where
  "outcome_ok s r \<longleftrightarrow> (fst r \<or> failed_with_error (snd r)) \<and> (has_raised s \<longrightarrow> has_raised (snd r))"

definition step_ok :: "service_step \<Rightarrow> bool" where
  "step_ok f \<longleftrightarrow> (\<forall>s. outcome_ok s (f s))"

lemma outcome_intros:
  "(\<And>x. x = e \<Longrightarrow> outcome_ok s (g x)) \<Longrightarrow> outcome_ok s (Let e g)"
  "(\<And>a b. outcome_ok s (h a b)) \<Longrightarrow> outcome_ok s (case p of (a, b) \<Rightarrow> h a b)"
  "outcome_ok s n \<Longrightarrow> (\<And>y. outcome_ok s (k y)) \<Longrightarrow> outcome_ok s (case oo of None \<Rightarrow> n | Some y \<Rightarrow> k y)"
  "outcome_ok s r1 \<Longrightarrow> outcome_ok s r2 \<Longrightarrow> outcome_ok s (if P then r1 else r2)"
  by (auto simp: Let_def split: prod.splits option.splits)

lemma outcome_ends:
  "sv_shutdown_reason s' = sv_shutdown_reason s \<Longrightarrow> code \<in> {InvalidState, ComponentUnavailable,
     ErrorCode.InvalidConfig, ConfigParseFailed, ShmOpenFailed, LoggerInitFailed, InternalError}
   \<Longrightarrow> outcome_ok s (service_fails code message now s')"
  "sv_shutdown_reason s' = sv_shutdown_reason s \<Longrightarrow> outcome_ok s (True, s')"
  using raise_severe [of code message now s']
  by (auto simp: outcome_ok_def failed_with_error_def has_raised_def simp del: insert_iff)

lemma run_steps_outcome: "\<forall>f \<in> set fs. step_ok f \<Longrightarrow> outcome_ok s (run_steps fs s)"
proof (induction fs arbitrary: s)
  case (Cons f fs)
  obtain ok s1 where f: "f s = (ok, s1)" by fastforce
  have "outcome_ok s (ok, s1)" using Cons.prems f [symmetric] by (simp add: step_ok_def)
  moreover have "outcome_ok s1 (run_steps fs s1)" using Cons by simp
  ultimately show ?case by (cases ok) (auto simp: f outcome_ok_def)
qed (simp add: outcome_ok_def)

lemma run_steps_ok: "\<forall>f \<in> set fs. step_ok f \<Longrightarrow> step_ok (run_steps fs)"
  unfolding step_ok_def [of "run_steps fs"] by (blast intro: run_steps_outcome)

lemma run_steps_True:
  "run_steps (f # fs) s = (True, s') \<longleftrightarrow> (\<exists>s1. f s = (True, s1) \<and> run_steps fs s1 = (True, s'))"
  by (auto split: prod.splits bool.splits)

lemma write_positions_sel [simp]: "sv_shutdown_reason (write_positions pm s) = sv_shutdown_reason s"
  "sv_state (write_positions pm s) = sv_state s" "sv_errors (write_positions pm s) = sv_errors s"
  by (simp_all add: write_positions_def split: option.splits)

lemma step_ok_config: "step_ok (init_config inp path)"
  unfolding step_ok_def init_config_def by (intro allI outcome_intros outcome_ends) simp_all

lemma step_ok_logger: "step_ok (init_service_logger inp)"
  unfolding step_ok_def init_service_logger_def by (intro allI outcome_intros outcome_ends) simp_all

lemma step_ok_recorder: "step_ok (init_order_event_recorder inp)"
  unfolding step_ok_def init_order_event_recorder_def by (intro allI outcome_intros outcome_ends) simp_all

lemma step_ok_segments: "step_ok (init_upstream_shm inp)" "step_ok (init_downstream_shm inp)"
  "step_ok (init_trades_shm inp)" "step_ok (init_orders_shm inp)" "step_ok (init_positions_shm inp)"
  unfolding step_ok_def init_upstream_shm_def init_downstream_shm_def init_trades_shm_def init_orders_shm_def
      init_positions_shm_def
  by (intro allI outcome_intros outcome_ends; simp)+

lemma step_ok_portfolio: "step_ok (init_position_manager inp)" "step_ok (load_account_info inp)"
  "step_ok (load_positions inp)" "step_ok (service_load_today_trades inp)" "step_ok (service_load_today_entrusts inp)"
  unfolding step_ok_def init_position_manager_def load_account_info_def load_positions_def
      service_load_today_trades_def service_load_today_entrusts_def
  by (intro allI outcome_intros outcome_ends; simp)+

lemma step_ok_components: "step_ok (init_risk_manager inp)" "step_ok (init_order_components inp)"
  "step_ok (init_market_data inp)" "step_ok (init_execution_engine inp)" "step_ok (init_event_loop inp)"
  unfolding step_ok_def init_risk_manager_def init_order_components_def init_market_data_def
      init_execution_engine_def init_event_loop_def
  by (intro allI outcome_intros outcome_ends; simp)+

lemma step_ok_all: "step_ok (run_steps [init_config inp path, init_service_logger inp, service_components inp])"
proof -
  have "step_ok (init_shared_memory inp)" "step_ok (init_portfolio inp)"
    unfolding init_shared_memory_def init_portfolio_def
    by (rule run_steps_ok; simp only: list.set ball_simps step_ok_segments step_ok_portfolio; simp)+
  then have "step_ok (service_components inp)"
    unfolding service_components_def
    by (intro run_steps_ok) (simp add: step_ok_recorder step_ok_components)
  then show ?thesis by (intro run_steps_ok) (simp add: step_ok_config step_ok_logger)
qed

section \<open>A start that fails\<close>

definition nothing_left :: "AccountService \<Rightarrow> bool" where
  "nothing_left s \<longleftrightarrow>
     sv_event_loop s = None \<and> sv_execution_engine s = None \<and> sv_market_data_service s = None
     \<and> sv_router_world s = None \<and> \<not> sv_order_event_recorder s \<and> sv_risk_manager s = None
     \<and> sv_entrust_records s = None \<and> sv_trade_records s = None \<and> sv_position_manager s = None
     \<and> sv_account_info s = None
     \<and> sv_upstream_shm s = None \<and> sv_downstream_shm s = None \<and> sv_trades_shm s = None
     \<and> sv_orders_shm s = None \<and> sv_positions_shm s = None
     \<and> (\<forall>m \<in> {sv_upstream_shm_manager s, sv_downstream_shm_manager s, sv_trades_shm_manager s,
          sv_orders_shm_manager s, sv_positions_shm_manager s}. \<not> sm_is_open m)"

lemma cleanup_nothing_left: "nothing_left (cleanup s)"
  by (simp add: nothing_left_def cleanup_def sm_is_open_def)

lemma cleanup_sel [simp]: "sv_state (cleanup s) = sv_state s" "sv_shutdown_reason (cleanup s) = sv_shutdown_reason s"
  "sv_last_error (cleanup s) = sv_last_error s"
  by (simp_all add: cleanup_def)

abbreviation may_start :: "AccountService \<Rightarrow> bool" where
  "may_start s \<equiv> sv_state s \<noteq> SvcInitializing \<and> sv_state s \<noteq> SvcRunning"

lemma failed_start:
  assumes "service_initialize inp path s = (False, s')" and "may_start s"
  shows "sv_state s' = SvcError \<and> nothing_left s' \<and> failed_with_error s'"
proof -
  let ?s = "cleanup (s\<lparr>sv_errors := clear_last_error (clear_shutdown_reason (sv_errors s)),
    sv_state := SvcInitializing\<rparr>)"
  let ?f = "run_steps [init_config inp path, init_service_logger inp, service_components inp]"
  obtain s1 where "?f ?s = (False, s1)" "s' = cleanup (s1\<lparr>sv_state := SvcError\<rparr>)"
    using assms unfolding service_initialize_def Let_def
    by (auto simp del: run_steps.simps split: prod.splits bool.splits)
  moreover have "outcome_ok ?s (?f ?s)" using step_ok_all by (simp add: step_ok_def del: run_steps.simps)
  ultimately show ?thesis
    by (simp add: cleanup_nothing_left outcome_ok_def failed_with_error_def has_raised_def)
qed

lemma run_without_loop: "sv_event_loop s = None \<Longrightarrow> \<exists>s'. service_run now now_monotonic inputs s = Some (- 1, s')"
  by (simp add: service_run_def)

text \<open>
  C39: A start that fails leaves nothing behind.  If \<open>initialize\<close> answers false, except on a service that is
  starting or running, the service is in the error state, none of its components exists, all five segments are
  unmapped, an error of a stopping severity is its last error, and \<open>run\<close> refuses.
\<close>

theorem failed_start_leaves_nothing:
  assumes "service_initialize inp path s = (False, s')" and "may_start s"
  shows "sv_state s' = SvcError \<and> nothing_left s' \<and> failed_with_error s'
    \<and> (\<exists>s''. service_run now now_monotonic inputs s' = Some (- 1, s''))"
  using failed_start [OF assms] run_without_loop by (auto simp: nothing_left_def)

section \<open>A run after an error\<close>

lemma initialize_keeps_raised: "has_raised s \<Longrightarrow> has_raised (snd (service_initialize inp path s))"
proof -
  assume r: "has_raised s"
  let ?c = "s\<lparr>sv_errors := clear_last_error (clear_shutdown_reason (sv_errors s))\<rparr>"
  let ?s = "cleanup (?c\<lparr>sv_state := SvcInitializing\<rparr>)"
  let ?f = "run_steps [init_config inp path, init_service_logger inp, service_components inp]"
  have "outcome_ok ?s (?f ?s)" using step_ok_all by (simp add: step_ok_def del: run_steps.simps)
  then have f: "has_raised (snd (?f ?s))" using r by (simp add: outcome_ok_def has_raised_def del: run_steps.simps)
  have c: "has_raised (raise_service_error e ?c)" for e
    using r by (intro raise_keeps) (simp add: has_raised_def)
  show ?thesis
  proof (cases "may_start s")
    case True
    with f show ?thesis
      by (auto simp: service_initialize_def Let_def has_raised_def simp del: run_steps.simps split: prod.splits bool.splits)
  next
    case False
    with c show ?thesis by (auto simp: service_initialize_def Let_def simp del: run_steps.simps)
  qed
qed

lemma give_back_sel [simp]: "sv_shutdown_reason (give_back loop s) = sv_shutdown_reason s"
  "sv_state (give_back loop s) = sv_state s" "sv_errors (give_back loop s) = w_errors (el_world loop)"
  by (simp_all add: give_back_def Let_def)

lemma service_stop_sel [simp]: "sv_shutdown_reason (service_stop s) = sv_shutdown_reason s"
  "sv_errors (service_stop s) = sv_errors s"
  by (simp_all add: service_stop_def Let_def)

lemma run_after_error:
  assumes "has_raised s" "service_run now now_monotonic inputs s = Some (rc, s')"
  shows "rc = - 1"
  using assms
  by (auto simp: service_run_def Let_def should_terminate_iff has_raised_def split: option.splits if_splits)

text \<open>
  C40: A service that failed to start once never runs well.  After a failed start a second one may succeed and
  its run may end because it was asked to stop, with no error recorded that would stop a service; \<open>run\<close> returns
  \<open>-1\<close> all the same, because the severity the failure left in \<open>shutdown_reason_\<close> is never reset.
\<close>

theorem failed_start_spoils_runs:
  assumes "service_initialize inp path s = (False, s1)" and "may_start s"
    and "service_initialize inp2 path2 s1 = (True, s2)"
    and "service_run now now_monotonic inputs s2 = Some (rc, s3)"
  shows "rc = - 1"
proof -
  have "has_raised s1" using failed_start [OF assms(1,2)] by (simp add: failed_with_error_def)
  from initialize_keeps_raised [OF this, of inp2 path2] have "has_raised s2" by (simp add: assms(3))
  from run_after_error [OF this assms(4)] show ?thesis by simp
qed

section \<open>A start that succeeds\<close>

text \<open>What the start has settled once the segments are open; no later step touches it.\<close>

definition boot_view where
  "boot_view s = (sv_config_manager s,
     (sv_upstream_shm s, sv_downstream_shm s, sv_trades_shm s, sv_orders_shm s, sv_positions_shm s),
     (sv_upstream_shm_manager s, sv_downstream_shm_manager s, sv_trades_shm_manager s, sv_orders_shm_manager s,
      sv_positions_shm_manager s),
     (sv_queues s, sv_trade_queues s, sv_pools s))"

definition segments_mapped :: "AccountService \<Rightarrow> bool" where
  "segments_mapped s \<longleftrightarrow> (\<forall>(p, m) \<in> {(sv_upstream_shm s, sv_upstream_shm_manager s),
     (sv_downstream_shm s, sv_downstream_shm_manager s), (sv_trades_shm s, sv_trades_shm_manager s),
     (sv_orders_shm s, sv_orders_shm_manager s), (sv_positions_shm s, sv_positions_shm_manager s)}.
       p \<noteq> None \<and> sm_mapped m = p)"

lemma open_segment_mapped:
  "open_segment zero bytes ini complaint name mode fb fl now (m, env) = (Some i, m', env') \<Longrightarrow> sm_mapped m' = Some i"
  by (auto simp: open_segment_def split: prod.splits option.splits if_splits dest: open_impl_mapped)

lemma segments_ready:
  assumes "init_shared_memory inp s = (True, s')"
  shows "segments_mapped s' \<and> sv_config_manager s' = sv_config_manager s"
proof -
  obtain s1 s2 s3 s4 where st: "init_upstream_shm inp s = (True, s1)" "init_downstream_shm inp s1 = (True, s2)"
    "init_trades_shm inp s2 = (True, s3)" "init_orders_shm inp s3 = (True, s4)" "init_positions_shm inp s4 = (True, s')"
    using assms by (auto simp: init_shared_memory_def run_steps_True simp del: run_steps.simps(2))
  note opens = open_upstream_def open_downstream_def open_trades_def open_queue_segment_def open_orders_def
    open_positions_def
  have 1: "sv_upstream_shm s1 \<noteq> None \<and> sm_mapped (sv_upstream_shm_manager s1) = sv_upstream_shm s1
      \<and> sv_config_manager s1 = sv_config_manager s"
    using st(1) unfolding opens init_upstream_shm_def
    by (auto simp: Let_def split: prod.splits if_splits dest: open_segment_mapped)
  have 2: "sv_downstream_shm s2 \<noteq> None \<and> sm_mapped (sv_downstream_shm_manager s2) = sv_downstream_shm s2
      \<and> sv_upstream_shm s2 = sv_upstream_shm s1 \<and> sv_upstream_shm_manager s2 = sv_upstream_shm_manager s1
      \<and> sv_config_manager s2 = sv_config_manager s1"
    using st(2) unfolding opens init_downstream_shm_def
    by (auto simp: Let_def split: prod.splits if_splits dest: open_segment_mapped)
  have 3: "sv_trades_shm s3 \<noteq> None \<and> sm_mapped (sv_trades_shm_manager s3) = sv_trades_shm s3
      \<and> sv_upstream_shm s3 = sv_upstream_shm s2 \<and> sv_upstream_shm_manager s3 = sv_upstream_shm_manager s2
      \<and> sv_downstream_shm s3 = sv_downstream_shm s2 \<and> sv_downstream_shm_manager s3 = sv_downstream_shm_manager s2
      \<and> sv_config_manager s3 = sv_config_manager s2"
    using st(3) unfolding opens init_trades_shm_def
    by (auto simp: Let_def split: prod.splits if_splits dest: open_segment_mapped)
  have 4: "sv_orders_shm s4 \<noteq> None \<and> sm_mapped (sv_orders_shm_manager s4) = sv_orders_shm s4
      \<and> sv_upstream_shm s4 = sv_upstream_shm s3 \<and> sv_upstream_shm_manager s4 = sv_upstream_shm_manager s3
      \<and> sv_downstream_shm s4 = sv_downstream_shm s3 \<and> sv_downstream_shm_manager s4 = sv_downstream_shm_manager s3
      \<and> sv_trades_shm s4 = sv_trades_shm s3 \<and> sv_trades_shm_manager s4 = sv_trades_shm_manager s3
      \<and> sv_config_manager s4 = sv_config_manager s3"
    using st(4) unfolding opens init_orders_shm_def
    by (auto simp: Let_def split: prod.splits if_splits dest: open_segment_mapped)
  have 5: "sv_positions_shm s' \<noteq> None \<and> sm_mapped (sv_positions_shm_manager s') = sv_positions_shm s'
      \<and> sv_upstream_shm s' = sv_upstream_shm s4 \<and> sv_upstream_shm_manager s' = sv_upstream_shm_manager s4
      \<and> sv_downstream_shm s' = sv_downstream_shm s4 \<and> sv_downstream_shm_manager s' = sv_downstream_shm_manager s4
      \<and> sv_trades_shm s' = sv_trades_shm s4 \<and> sv_trades_shm_manager s' = sv_trades_shm_manager s4
      \<and> sv_orders_shm s' = sv_orders_shm s4 \<and> sv_orders_shm_manager s' = sv_orders_shm_manager s4
      \<and> sv_config_manager s' = sv_config_manager s4"
    using st(5) unfolding opens init_positions_shm_def
    by (auto simp: Let_def split: prod.splits if_splits dest: open_segment_mapped)
  from 1 2 3 4 5 show ?thesis by (simp add: segments_mapped_def)
qed

lemma boot_view_config: "boot_view s' = boot_view s \<Longrightarrow> sv_config_manager s' = sv_config_manager s"
  by (simp add: boot_view_def)

lemma boot_view_mapped: "boot_view s' = boot_view s \<Longrightarrow> segments_mapped s' = segments_mapped s"
  by (simp add: boot_view_def segments_mapped_def)

lemma boot_view_world:
  "boot_view s' = boot_view s \<Longrightarrow> service_world cap s = (service_world cap s')\<lparr>w_errors := sv_errors s\<rparr>"
  by (simp add: boot_view_def service_world_def)

lemma initialize_shm:
  assumes "initialize sources bytes account_id now pm errors = (True, pm', errors')"
  shows "\<exists>shm. pm_shm pm' = Some shm"
proof -
  from assms obtain shm where shm: "pm_shm pm = Some shm" by (auto simp: initialize_def split: option.splits)
  let ?pm = "pm\<lparr>security_to_row := Map.empty\<rparr>"
  show ?thesis
  proof (cases "ph_init_state (ps_header shm) = 1")
    case True
    with assms shm show ?thesis
      by (auto simp: initialize_def initialize_restart_def Let_def split: if_splits prod.splits bool.splits)
  next
    case False
    with assms shm have f: "initialize_fresh sources bytes account_id now shm ?pm errors = (True, pm', errors')"
      by (simp add: initialize_def Let_def split: if_splits)
    then have "ps_position_count shm = 0" by (simp add: initialize_fresh_def split: if_splits)
    from initialize_fresh_outcome [OF this _ f] show ?thesis by fastforce
  qed
qed

definition portfolio_ready :: "start_input \<Rightarrow> AccountService \<Rightarrow> bool" where
  "portfolio_ready inp s \<longleftrightarrow> (\<exists>info pm p pm0 e e'.
     sv_account_info s = Some info \<and> ai_account_id info = cf_account_id (service_config s)
     \<and> sv_position_manager s = Some pm \<and> sv_positions_shm s = Some p
     \<and> pm_shm pm = Some (px_read p (sv_tables s))
     \<and> initialize (si_sources inp) (sg_bytes (si_positions inp)) (cf_account_id (service_config s)) (si_now inp) pm0 e
        = (True, pm, e'))"

lemma position_manager_ready:
  assumes "init_position_manager inp s = (True, s1)" and "sv_positions_shm s \<noteq> None"
  shows "boot_view s1 = boot_view s \<and> (\<exists>pm p pm0 e e'. sv_position_manager s1 = Some pm \<and> sv_positions_shm s1 = Some p
     \<and> pm_shm pm = Some (px_read p (sv_tables s1)) \<and> (\<exists>info. sv_account_info s1 = Some info)
     \<and> initialize (si_sources inp) (sg_bytes (si_positions inp)) (cf_account_id (service_config s1)) (si_now inp) pm0 e
        = (True, pm, e'))"
proof -
  obtain p where p: "sv_positions_shm s = Some p" using assms(2) by blast
  let ?cfg = "service_config s"
  let ?pm0 = "PositionManager_new (Some (px_read p (sv_tables s))) (cf_config_file ?cfg)
    (db_file_path (cf_db ?cfg)) (enable_persistence (cf_db ?cfg))"
  obtain ok pm e where i: "initialize (si_sources inp) (sg_bytes (si_positions inp)) (cf_account_id ?cfg)
      (si_now inp) ?pm0 (sv_errors s) = (ok, pm, e)" by (metis prod_cases3)
  then have ok: "ok" and s1: "s1 = write_positions pm (s\<lparr>sv_account_info := Some account_info_default,
       sv_trade_records := Some trade_manager_new, sv_entrust_records := Some entrust_manager_new,
       sv_position_manager := Some pm, sv_errors := e\<rparr>)"
    using assms(1) p by (auto simp: init_position_manager_def Let_def split: if_splits)
  have "initialize (si_sources inp) (sg_bytes (si_positions inp)) (cf_account_id ?cfg)
      (si_now inp) ?pm0 (sv_errors s) = (True, pm, e)" using i ok by simp
  then obtain shm where shm: "pm_shm pm = Some shm" using initialize_shm by blast
  show ?thesis
    using i ok p shm by (simp add: s1 write_positions_def boot_view_def px_read_def px_update_def) blast
qed

lemma portfolio_started:
  assumes "init_portfolio inp s = (True, s')" and "sv_positions_shm s \<noteq> None"
  shows "boot_view s' = boot_view s \<and> portfolio_ready inp s'"
proof -
  obtain s1 s2 s3 s4 where st: "init_position_manager inp s = (True, s1)" "load_account_info inp s1 = (True, s2)"
    "load_positions inp s2 = (True, s3)" "service_load_today_trades inp s3 = (True, s4)"
    "service_load_today_entrusts inp s4 = (True, s')"
    using assms(1) by (auto simp: init_portfolio_def run_steps_True simp del: run_steps.simps(2))
  obtain info where "s2 = s1\<lparr>sv_account_info := Some info\<rparr>" "ai_account_id info = cf_account_id (service_config s1)"
    using st(2) by (auto simp: load_account_info_def Let_def split: option.splits prod.splits)
  moreover have "s3 = s2" using st(3) by (simp add: load_positions_def split: if_splits)
  moreover have "\<exists>m. s4 = s3\<lparr>sv_trade_records := m\<rparr>"
    using st(4) by (auto simp: service_load_today_trades_def Let_def split: option.splits prod.splits if_splits intro: exI [of _ "sv_trade_records s3"])
  moreover have "\<exists>m. s' = s4\<lparr>sv_entrust_records := m\<rparr>"
    using st(5) by (auto simp: service_load_today_entrusts_def Let_def split: option.splits prod.splits if_splits intro: exI [of _ "sv_entrust_records s4"])
  ultimately obtain m m' where s': "s' = s1\<lparr>sv_account_info := Some info, sv_trade_records := m, sv_entrust_records := m'\<rparr>"
    and info: "ai_account_id info = cf_account_id (service_config s1)" by fastforce
  from position_manager_ready [OF st(1) assms(2)] have bv: "boot_view s1 = boot_view s" by blast
  from position_manager_ready [OF st(1) assms(2)] obtain pm p pm0 e e' where
    "sv_position_manager s1 = Some pm" "sv_positions_shm s1 = Some p" "pm_shm pm = Some (px_read p (sv_tables s1))"
    "initialize (si_sources inp) (sg_bytes (si_positions inp)) (cf_account_id (service_config s1)) (si_now inp) pm0 e
      = (True, pm, e')" by blast
  then have "portfolio_ready inp s'" using info by (simp add: portfolio_ready_def s') blast
  with bv show ?thesis by (simp add: boot_view_def s')
qed

text \<open>The loop stands on what was mapped, recovered and configured.\<close>

definition loop_ready :: "start_input \<Rightarrow> AccountService \<Rightarrow> bool" where
  "loop_ready inp s \<longleftrightarrow> (\<exists>loop errors w stats engine.
     sv_event_loop s = Some loop \<and> \<not> el_running loop \<and> sv_state s = SvcReady
     \<and> recover_downstream_active_orders (si_now inp) (si_walk inp)
          ((service_world (si_capacity inp) s)\<lparr>w_errors := errors\<rparr>) = (True, w, stats)
     \<and> el_world loop = w\<lparr>w_callback := True\<rparr>
     \<and> el_config loop = EventLoopConfig.truncate (cf_event_loop (service_config s))
     \<and> el_risk loop = RiskManager_new (cf_risk (service_config s))
     \<and> el_trades loop = map_option (\<lambda>p. qs_queue (px_read p (sv_trade_queues s))) (sv_trades_shm s)
     \<and> Some (el_positions loop) = sv_position_manager s \<and> el_account loop = sv_account_info s
     \<and> el_engine loop = Some engine \<and> en_sessions engine = [])"

lemma components_started:
  assumes "service_components inp s = (True, s')"
  shows "segments_mapped s' \<and> sv_config_manager s' = sv_config_manager s \<and> portfolio_ready inp s'
    \<and> loop_ready inp (s'\<lparr>sv_state := SvcReady\<rparr>)"
proof -
  obtain s1 s2 s3 s4 s5 s6 s7 where st: "init_order_event_recorder inp s = (True, s1)"
    "init_shared_memory inp s1 = (True, s2)" "init_portfolio inp s2 = (True, s3)"
    "init_risk_manager inp s3 = (True, s4)" "init_order_components inp s4 = (True, s5)"
    "init_market_data inp s5 = (True, s6)" "init_execution_engine inp s6 = (True, s7)"
    "init_event_loop inp s7 = (True, s')"
    using assms by (auto simp: service_components_def run_steps_True simp del: run_steps.simps(2))
  have c1: "sv_config_manager s1 = sv_config_manager s"
    using st(1) by (auto simp: init_order_event_recorder_def Let_def split: if_splits)
  note seg = segments_ready [OF st(2)]
  have port: "boot_view s3 = boot_view s2" "portfolio_ready inp s3"
    using portfolio_started [OF st(3)] seg by (simp_all add: segments_mapped_def)
  have s4: "s4 = s3\<lparr>sv_risk_manager := Some (RiskManager_new (cf_risk (service_config s3)))\<rparr>"
    using st(4) by (auto simp: init_risk_manager_def split: if_splits)
  obtain w stats where w: "recover_downstream_active_orders (si_now inp) (si_walk inp)
      (service_world (si_capacity inp) s4) = (True, w, stats)"
    and s5: "s5 = s4\<lparr>sv_router_world := Some w, sv_errors := w_errors w\<rparr>"
    using st(5) by (auto simp: init_order_components_def Let_def split: if_splits prod.splits)
  obtain md where s6: "s6 = s5\<lparr>sv_market_data_service := Some md\<rparr>"
    using st(6) by (auto simp: init_market_data_def Let_def split: if_splits prod.splits)
  define engine where "engine = the (sv_execution_engine s7)"
  have e: "en_sessions engine = []" and s7: "s7 = s6\<lparr>sv_execution_engine := Some engine\<rparr>"
    using st(7) by (auto simp: engine_def init_execution_engine_def Let_def split: if_splits option.splits)
  obtain pm where pm: "sv_position_manager s3 = Some pm" using port(2) by (auto simp: portfolio_ready_def)
  define loop where "loop = event_loop_new (EventLoopConfig.truncate (cf_event_loop (service_config s7)))
      w (map_option (\<lambda>p. qs_queue (px_read p (sv_trade_queues s7))) (sv_trades_shm s7)) pm
      (RiskManager_new (cf_risk (service_config s3))) (sv_account_info s7) (sv_execution_engine s7)"
  have s': "s' = s7\<lparr>sv_event_loop := Some loop\<rparr>"
    using st(8) pm by (auto simp: init_event_loop_def loop_def s4 s5 s6 s7 split: if_splits)
  have bv: "boot_view s' = boot_view s3" by (simp add: boot_view_def s' s7 s6 s5 s4)
  have "segments_mapped s'" "sv_config_manager s' = sv_config_manager s"
    using seg boot_view_mapped [OF bv] boot_view_mapped [OF port(1)] boot_view_config [OF bv]
      boot_view_config [OF port(1)] c1 by simp_all
  moreover have "portfolio_ready inp s'" using port(2) by (simp add: portfolio_ready_def s' s7 s6 s5 s4)
  moreover have "service_world (si_capacity inp) s4
      = (service_world (si_capacity inp) (s'\<lparr>sv_state := SvcReady\<rparr>))\<lparr>w_errors := sv_errors s4\<rparr>"
    by (rule boot_view_world) (simp add: boot_view_def s' s7 s6 s5 s4)
  with w have w': "recover_downstream_active_orders (si_now inp) (si_walk inp)
      ((service_world (si_capacity inp) (s'\<lparr>sv_state := SvcReady\<rparr>))\<lparr>w_errors := sv_errors s4\<rparr>) = (True, w, stats)"
    by simp
  have loop: "el_world loop = w\<lparr>w_callback := True\<rparr>" "\<not> el_running loop" "el_positions loop = pm"
    "el_config loop = EventLoopConfig.truncate (cf_event_loop (service_config s'))"
    "el_risk loop = RiskManager_new (cf_risk (service_config s'))" "el_account loop = sv_account_info s'"
    "el_trades loop = map_option (\<lambda>p. qs_queue (px_read p (sv_trade_queues s'))) (sv_trades_shm s')"
    "el_engine loop = Some engine" "sv_event_loop s' = Some loop" "sv_position_manager s' = Some pm"
    by (simp_all add: loop_def event_loop_new_def s' s7 s6 s5 s4 pm)
  have "loop_ready inp (s'\<lparr>sv_state := SvcReady\<rparr>)"
    unfolding loop_ready_def
    by (rule exI [of _ loop], rule exI [of _ "sv_errors s4"], rule exI [of _ w], rule exI [of _ stats],
        rule exI [of _ engine]) (use w' loop e in simp)
  ultimately show ?thesis by blast
qed

lemma start_ready:
  assumes "service_initialize inp path s = (True, s')"
  shows "path \<noteq> [] \<and> validate_config (service_config s') \<and> segments_mapped s' \<and> portfolio_ready inp s'
    \<and> loop_ready inp s'"
proof -
  let ?s = "cleanup (s\<lparr>sv_errors := clear_last_error (clear_shutdown_reason (sv_errors s)),
    sv_state := SvcInitializing\<rparr>)"
  obtain s1 s2 s3 where st: "init_config inp path ?s = (True, s1)" "init_service_logger inp s1 = (True, s2)"
    "service_components inp s2 = (True, s3)" and s': "s' = s3\<lparr>sv_state := SvcReady\<rparr>"
    using assms unfolding service_initialize_def Let_def
    by (auto simp: run_steps_True simp del: run_steps.simps(2) split: prod.splits bool.splits if_splits)
  obtain m where "path \<noteq> []" and m: "load_from_file (si_stod inp) (si_yaml inp) (si_now inp) path
      ((sv_config_manager ?s)\<lparr>cm_errors := sv_errors ?s\<rparr>) = (True, m)" "sv_config_manager s1 = m"
    using st(1) by (auto simp: init_config_def Let_def split: prod.splits if_splits)
  from m(1) have "validate_config (cm_config m)"
    by (auto simp: load_from_file_def validate_def Let_def split: option.splits sum.splits if_splits)
  moreover have "s2 = s1" using st(2) by (simp add: init_service_logger_def split: if_splits)
  moreover have "portfolio_ready inp s3" using components_started [OF st(3)] by blast
  then have "portfolio_ready inp s'" by (simp add: portfolio_ready_def s')
  ultimately show ?thesis
    using components_started [OF st(3)] \<open>path \<noteq> []\<close> m(2) by (simp add: s' segments_mapped_def)
qed

text \<open>
  C36: A start that succeeds leaves a service that is ready to run: on a valid configuration, with each of its five
  segments mapped by its manager, positions that \<open>initialize\<close> of the position manager has accepted and that are the
  content of the mapped segment, the account under the configured id, and an event loop that stands on the mapped
  queues, on the order book recovered from the mapped pool, on the configured risk rules, and on these positions.
\<close>

theorem service_start_ready:
  assumes "service_initialize inp path s = (True, s')"
  shows "path \<noteq> [] \<and> validate_config (service_config s') \<and> segments_mapped s' \<and> portfolio_ready inp s'
    \<and> loop_ready inp s'"
  by (rule start_ready [OF assms])

section \<open>The exit code\<close>

lemma clean_run:
  assumes "service_run now now_monotonic inputs s = Some (0, s')" "sv_event_loop s = Some loop" "\<not> el_running loop"
  shows "\<not> should_stop_service (sv_errors s') \<and> (\<exists>i \<in> set inputs. li_stop i)"
proof -
  let ?loop = "in_world (\<lambda>w. w\<lparr>w_errors := sv_errors s\<rparr>) loop\<lparr>el_running := True, el_last_stats_time := now_monotonic,
    el_stats := (el_stats loop)\<lparr>st_start_time := now\<rparr>\<rparr>"
  define fin where "fin = run_loop now now_monotonic inputs (in_world (\<lambda>w. w\<lparr>w_errors := sv_errors s\<rparr>) loop)"
  have e: "fin = run_turns inputs ?loop" using assms(3) by (simp add: fin_def run_loop_def in_world_def)
  from assms have "\<not> el_running fin \<and> \<not> should_stop_service (w_errors (el_world fin)) \<and> sv_errors s' = w_errors (el_world fin)"
    by (auto simp: service_run_def Let_def fin_def split: if_splits)
  with run_turns_end [of ?loop inputs] show ?thesis by (auto simp: e)
qed

text \<open>
  C38: The exit code tells.  If the program ends with \<open>0\<close> and was not asked for help, the service had started, with
  all that means, some turn of its loop was asked to stop, and no error that stops a service was recorded from
  the start to the end.
\<close>

theorem exit_code_zero:
  assumes "account_main inp now now_monotonic inputs env argv = Some 0" and "main_parse_args argv [] \<noteq> MainHelp"
  shows "(\<exists>i \<in> set inputs. li_stop i) \<and> (\<exists>path s s'.
    service_initialize inp path (AccountService_new env) = (True, s) \<and> validate_config (service_config s)
    \<and> segments_mapped s \<and> portfolio_ready inp s \<and> loop_ready inp s
    \<and> service_run now now_monotonic inputs s = Some (0, s') \<and> \<not> should_stop_service (sv_errors s'))"
proof -
  obtain p where "main_parse_args argv [] = MainOk p"
    using assms by (cases "main_parse_args argv []") (auto simp: account_main_def)
  then obtain path s s' where i: "service_initialize inp path (AccountService_new env) = (True, s)"
    and r: "service_run now now_monotonic inputs s = Some (0, s')"
    using assms(1)
    by (auto simp: account_main_def Let_def split: prod.splits bool.splits option.splits if_splits)
  note ready = start_ready [OF i]
  then obtain loop where "sv_event_loop s = Some loop" "\<not> el_running loop" by (auto simp: loop_ready_def)
  from clean_run [OF r this] i r ready show ?thesis by blast
qed

section \<open>A first start on a clean machine\<close>

text \<open>
  What is needed: a configuration that loads and is valid, creates its segments, and uses no database, no market
  data and no strategy; no file of initial positions; new names for the segments; system calls that work.
\<close>

definition clean_slate :: "start_input \<Rightarrow> string \<Rightarrow> Config \<Rightarrow> AccountService \<Rightarrow> bool" where
  "clean_slate inp path cfg s \<longleftrightarrow>
     path \<noteq> [] \<and> (\<exists>root. si_yaml inp path = Some root
        \<and> parse_root (si_stod inp) root ((service_config s)\<lparr>cf_config_file := path\<rparr>) = Inr cfg)
     \<and> validate_config cfg \<and> create_if_not_exist (cf_shm cfg) \<and> \<not> enable_persistence (cf_db cfg)
     \<and> \<not> mdc_enabled (cf_market_data cfg) \<and> \<not> aso_enabled (cf_active_strategy cfg)
     \<and> (cf_config_file cfg = [] \<or> ls_files (si_sources inp) (cf_config_file cfg @ ''.positions.csv'') = None)
     \<and> si_logger_ok inp \<and> si_recorder_ok inp \<and> \<not> si_file_backend inp
     \<and> (\<forall>g \<in> {si_upstream inp, si_downstream inp, si_trades inp, si_orders inp, si_positions inp}.
          sg_faults g = no_faults)
     \<and> px_names (sv_queues s) (upstream_shm_name (cf_shm cfg)) = None
     \<and> px_names (sv_queues s) (downstream_shm_name (cf_shm cfg)) = None
     \<and> downstream_shm_name (cf_shm cfg) \<noteq> upstream_shm_name (cf_shm cfg)
     \<and> px_names (sv_trade_queues s) (trades_shm_name (cf_shm cfg)) = None
     \<and> px_names (sv_pools s) (make_orders_shm_name (orders_shm_name (cf_shm cfg)) (cf_trading_day cfg)) = None
     \<and> px_names (sv_tables s) (positions_shm_name (cf_shm cfg)) = None"

lemma create_segment:
  assumes "px_names (se_os env) name = None" "sm_mapped m = None"
  shows "open_segment zero bytes ini complaint name ModeOpenOrCreate False no_faults now (m, env)
    = (Some (px_fresh (se_os env)), m\<lparr>sm_name := name, sm_mapped := Some (px_fresh (se_os env)),
        sm_last_open_is_new := True\<rparr>,
       env\<lparr>se_os := px_update (px_fresh (se_os env)) ini (created_os zero name bytes (se_os env))\<rparr>)"
  using assms
  by (cases m, cases "se_os env") (simp add: open_segment_def open_impl_def create_region_def create_and_open_def open_existing_region_def
      writer_open_def sm_is_open_def no_faults_def Let_def on_os_def created_os_def)

lemma px_read_after [simp]:
  "px_read i (px_update j ini os) = (if i = j then ini (px_read i os) else px_read i os)"
  "px_read i (created_os zero name bytes os) = (if i = px_fresh os then zero else px_read i os)"
  by (simp_all add: px_read_def px_update_def created_os_def)

lemma px_names_created [simp]:
  "px_names (px_update i ini (created_os zero name bytes os)) = (px_names os)(name \<mapsto> px_fresh os)"
  by (simp add: px_update_def created_os_def)

lemma px_fresh_created [simp]: "px_fresh (px_update i ini (created_os zero name bytes os)) = px_fresh os + 1"
  by (simp add: px_update_def created_os_def)

lemma initialize_empty:
  assumes "file = [] \<or> ls_files sources (file @ ''.positions.csv'') = None"
  shows "\<exists>pm. initialize sources bytes account_id now (PositionManager_new
      (Some (init_positions_segment bytes now positions_segment_zero)) file db False) errors = (True, pm, errors)"
  using assms
  by (auto simp: initialize_def header_compatible_def init_positions_segment_def positions_segment_zero_def
      PositionManager_new_def initialize_fresh_def loader_load_def loader_from_file_def
      load_positions_csv_if_exists_def Let_def)

lemma recover_empty:
  assumes "w_orders w = Some pool" "os_next_index pool = 0"
  shows "\<exists>stats b. recover_downstream_active_orders now walk w = (True, w\<lparr>w_book := b\<rparr>, stats)"
proof -
  have "scan_pool pool = (Map.empty, order_recovery_stats_zero)" using assms(2) by (simp add: scan_pool_def)
  moreover have "fold (restore_one now Map.empty) walk x = x" for x
    by (induction walk) (simp_all add: restore_one_def split: prod.split)
  ultimately have "\<exists>stats b. recover_downstream_active_orders now walk w = (True, w\<lparr>w_book := b\<rparr>, stats) \<or>
      recover_downstream_active_orders now walk w = (True, w, stats)"
    using assms(1) by (auto simp: recover_downstream_active_orders_def Let_def)
  moreover have "w = w\<lparr>w_book := w_book w\<rparr>" by simp
  ultimately show ?thesis by metis
qed

text \<open>A loop with nothing to do, and what a turn of it leaves alone.\<close>

definition idle_loop :: "EventLoop \<Rightarrow> bool" where
  "idle_loop s \<longleftrightarrow> upstream_size s = 0 \<and> response_size s = 0 \<and> el_pending s = Map.empty
     \<and> (\<forall>engine. el_engine s = Some engine \<longrightarrow> en_sessions engine = [])"

lemma idle_turn: "idle_loop s \<Longrightarrow> el_world (loop_iteration inp s) = el_world s"
  by (auto simp: idle_loop_def loop_iteration_def process_upstream_orders_def process_downstream_responses_def
      process_pending_archives_def upstream_size_def response_size_def engine_tick_def Let_def split: option.split)

lemma idle_run:
  assumes "sv_event_loop s = Some loop" "idle_loop loop" "\<not> el_running loop" "li_stop i" "sv_state s = SvcReady"
    "\<not> should_stop_service (sv_errors s)"
  shows "\<exists>s'. service_run now now_monotonic [i] s = Some (if has_raised s then - 1 else 0, s')"
proof -
  let ?loop = "in_world (\<lambda>w. w\<lparr>w_errors := sv_errors s\<rparr>) loop\<lparr>el_running := True, el_last_stats_time := now_monotonic,
    el_stats := (el_stats loop)\<lparr>st_start_time := now\<rparr>\<rparr>"
  define fin where "fin = run_loop now now_monotonic [i] (in_world (\<lambda>w. w\<lparr>w_errors := sv_errors s\<rparr>) loop)"
  have "idle_loop ?loop" using assms(2) by (simp add: idle_loop_def in_world_def upstream_size_def response_size_def)
  then have e: "w_errors (el_world (loop_iteration i ?loop)) = sv_errors s" by (simp add: idle_turn in_world_def)
  have "\<not> el_running fin \<and> w_errors (el_world fin) = sv_errors s"
    using assms(3,4,6) e by (simp add: fin_def run_loop_def in_world_def stop_loop_def Let_def)
  then show ?thesis
    using assms(1,5,6) by (simp add: service_run_def Let_def should_terminate_iff has_raised_def fin_def [symmetric])
qed

lemma run_steps_go: "f s = (True, s1) \<Longrightarrow> run_steps fs s1 = r \<Longrightarrow> run_steps (f # fs) s = r"
  by simp

lemma segments_created:
  assumes "clean_slate inp path cfg s" "service_config s0 = cfg" "sv_queues s0 = sv_queues s"
    "sv_trade_queues s0 = sv_trade_queues s" "sv_pools s0 = sv_pools s" "sv_tables s0 = sv_tables s"
    "sm_mapped (sv_upstream_shm_manager s0) = None" "sm_mapped (sv_downstream_shm_manager s0) = None"
    "sm_mapped (sv_trades_shm_manager s0) = None" "sm_mapped (sv_orders_shm_manager s0) = None"
    "sm_mapped (sv_positions_shm_manager s0) = None"
  shows "\<exists>s1 pu pd pt po pp. init_shared_memory inp s0 = (True, s1)
    \<and> sv_config_manager s1 = sv_config_manager s0 \<and> sv_errors s1 = sv_errors s0
    \<and> sv_shutdown_reason s1 = sv_shutdown_reason s0
    \<and> sv_upstream_shm s1 = Some pu \<and> sv_downstream_shm s1 = Some pd \<and> sv_trades_shm s1 = Some pt
    \<and> sv_orders_shm s1 = Some po \<and> sv_positions_shm s1 = Some pp
    \<and> qs_queue (px_read pu (sv_queues s1)) = qs_queue (queue_segment_zero 0)
    \<and> qs_queue (px_read pt (sv_trade_queues s1)) = qs_queue (queue_segment_zero TradeResponse_zero)
    \<and> os_next_index (og_pool (px_read po (sv_pools s1))) = 0
    \<and> px_read pp (sv_tables s1) = init_positions_segment (sg_bytes (si_positions inp)) (si_now inp) positions_segment_zero"
  using assms
  by (simp add: clean_slate_def init_shared_memory_def init_upstream_shm_def init_downstream_shm_def
      init_trades_shm_def init_orders_shm_def init_positions_shm_def service_shm_mode_def
      open_upstream_def open_downstream_def open_trades_def open_queue_segment_def open_orders_def
      open_positions_def create_segment Let_def init_orders_segment_def [of _ _ _ orders_segment_zero])

definition cleared_errors :: "AccountService \<Rightarrow> error_state" where
  "cleared_errors s = clear_last_error (clear_shutdown_reason (sv_errors s))"

lemma portfolio_from_empty:
  assumes "clean_slate inp path cfg s" "service_config s0 = cfg" "sv_positions_shm s0 = Some pp"
    "px_read pp (sv_tables s0) = init_positions_segment (sg_bytes (si_positions inp)) (si_now inp) positions_segment_zero"
  shows "\<exists>s1 pm. init_portfolio inp s0 = (True, s1) \<and> boot_view s1 = boot_view s0 \<and> sv_errors s1 = sv_errors s0
    \<and> sv_shutdown_reason s1 = sv_shutdown_reason s0 \<and> sv_position_manager s1 = Some pm"
proof -
  have db: "\<not> enable_persistence (cf_db cfg)" and csv: "cf_config_file cfg = []
      \<or> ls_files (si_sources inp) (cf_config_file cfg @ ''.positions.csv'') = None"
    using assms(1) by (simp_all add: clean_slate_def)
  obtain pm where pm: "initialize (si_sources inp) (sg_bytes (si_positions inp)) (cf_account_id cfg) (si_now inp)
      (PositionManager_new (Some (init_positions_segment (sg_bytes (si_positions inp)) (si_now inp)
         positions_segment_zero)) (cf_config_file cfg) (db_file_path (cf_db cfg)) False) (sv_errors s0)
      = (True, pm, sv_errors s0)"
    using initialize_empty [OF csv] by blast
  define s1 where "s1 = write_positions pm (s0\<lparr>sv_account_info := Some account_info_default,
      sv_trade_records := Some trade_manager_new, sv_entrust_records := Some entrust_manager_new,
      sv_position_manager := Some pm, sv_errors := sv_errors s0\<rparr>)"
  have i: "init_position_manager inp s0 = (True, s1)"
    using pm db assms(2-4) by (simp add: init_position_manager_def s1_def)
  have s1: "boot_view s1 = boot_view s0" "sv_errors s1 = sv_errors s0" "sv_account_info s1 = Some account_info_default"
    "sv_shutdown_reason s1 = sv_shutdown_reason s0" "sv_position_manager s1 = Some pm" "service_config s1 = cfg"
    "sv_trade_records s1 = Some trade_manager_new" "sv_entrust_records s1 = Some entrust_manager_new"
    using assms(2) by (simp_all add: s1_def boot_view_def write_positions_def split: option.split)
  have "\<exists>info. load_account_info inp s1 = (True, s1\<lparr>sv_account_info := Some info\<rparr>)"
    unfolding load_account_info_def s1(3) option.case Let_def split_beta by (rule exI, rule refl)
  then obtain info where "load_account_info inp s1 = (True, s1\<lparr>sv_account_info := Some info\<rparr>)" by blast
  with i s1 db show ?thesis
    by (auto simp: init_portfolio_def load_positions_def service_load_today_trades_def
        service_load_today_entrusts_def boot_view_def)
qed

lemma clean_start:
  assumes "clean_slate inp path cfg s" "may_start s"
  shows "\<exists>s' loop. service_initialize inp path s = (True, s') \<and> sv_shutdown_reason s' = sv_shutdown_reason s
    \<and> sv_errors s' = cleared_errors s \<and> sv_event_loop s' = Some loop \<and> idle_loop loop \<and> \<not> el_running loop
    \<and> sv_state s' = SvcReady"
proof -
  let ?s0 = "cleanup (s\<lparr>sv_errors := cleared_errors s, sv_state := SvcInitializing\<rparr>)"
  note cs = assms(1) [unfolded clean_slate_def]
  define s1 where "s1 = ?s0\<lparr>sv_config_manager := (sv_config_manager s)\<lparr>cm_errors := cleared_errors s,
    cm_config := cfg, cm_path := path\<rparr>\<rparr>"
  have config: "init_config inp path ?s0 = (True, s1)"
    using cs by (auto simp: init_config_def load_from_file_def validate_def cleanup_def s1_def Let_def)
  have logger: "init_service_logger inp s1 = (True, s1)" using cs by (simp add: init_service_logger_def)
  define s2 where "s2 = s1\<lparr>sv_order_event_recorder := True\<rparr>"
  have recorder: "init_order_event_recorder inp s1 = (True, s2)"
    using cs by (simp add: init_order_event_recorder_def s2_def)
  have "\<exists>s3 pu pd pt po pp. init_shared_memory inp s2 = (True, s3)
    \<and> sv_config_manager s3 = sv_config_manager s2 \<and> sv_errors s3 = sv_errors s2
    \<and> sv_shutdown_reason s3 = sv_shutdown_reason s2
    \<and> sv_upstream_shm s3 = Some pu \<and> sv_downstream_shm s3 = Some pd \<and> sv_trades_shm s3 = Some pt
    \<and> sv_orders_shm s3 = Some po \<and> sv_positions_shm s3 = Some pp
    \<and> qs_queue (px_read pu (sv_queues s3)) = qs_queue (queue_segment_zero 0)
    \<and> qs_queue (px_read pt (sv_trade_queues s3)) = qs_queue (queue_segment_zero TradeResponse_zero)
    \<and> os_next_index (og_pool (px_read po (sv_pools s3))) = 0
    \<and> px_read pp (sv_tables s3) = init_positions_segment (sg_bytes (si_positions inp)) (si_now inp) positions_segment_zero"
    by (rule segments_created [OF assms(1)]) (simp_all add: s2_def s1_def cleanup_def)
  then obtain s3 pu pd pt po pp where segments: "init_shared_memory inp s2 = (True, s3)"
    and s3: "sv_config_manager s3 = sv_config_manager s2" "sv_errors s3 = sv_errors s2"
      "sv_shutdown_reason s3 = sv_shutdown_reason s2" "sv_upstream_shm s3 = Some pu" "sv_downstream_shm s3 = Some pd"
      "sv_trades_shm s3 = Some pt" "sv_orders_shm s3 = Some po" "sv_positions_shm s3 = Some pp"
    and reads: "qs_queue (px_read pu (sv_queues s3)) = qs_queue (queue_segment_zero 0)"
      "qs_queue (px_read pt (sv_trade_queues s3)) = qs_queue (queue_segment_zero TradeResponse_zero)"
      "os_next_index (og_pool (px_read po (sv_pools s3))) = 0"
      "px_read pp (sv_tables s3) = init_positions_segment (sg_bytes (si_positions inp)) (si_now inp) positions_segment_zero"
    by blast
  have c3: "service_config s3 = cfg" by (simp add: s3 s2_def s1_def)
  obtain s4 pm where portfolio: "init_portfolio inp s3 = (True, s4)" and bv: "boot_view s4 = boot_view s3"
    and s4: "sv_errors s4 = sv_errors s3" "sv_shutdown_reason s4 = sv_shutdown_reason s3"
      "sv_position_manager s4 = Some pm"
    using portfolio_from_empty [OF assms(1) c3 s3(8) reads(4)] by blast
  define s5 where "s5 = s4\<lparr>sv_risk_manager := Some (RiskManager_new (cf_risk cfg))\<rparr>"
  have c4: "service_config s4 = cfg" using c3 bv by (simp add: boot_view_def)
  then have risk: "init_risk_manager inp s4 = (True, s5)" using s4 by (simp add: init_risk_manager_def s5_def)
  have bv5: "boot_view s5 = boot_view s3" using bv by (simp add: s5_def boot_view_def)
  let ?w = "service_world (si_capacity inp) s5"
  have p5: "sv_downstream_shm s5 = Some pd" "sv_orders_shm s5 = Some po" "sv_upstream_shm s5 = Some pu"
    "sv_trades_shm s5 = Some pt" "sv_trade_queues s5 = sv_trade_queues s3" "service_config s5 = cfg"
    "sv_queues s5 = sv_queues s3" "sv_pools s5 = sv_pools s3"
    using bv5 s3 c3 by (simp_all add: boot_view_def)
  have w: "w_orders ?w = Some (og_pool (px_read po (sv_pools s3)))"
    "map_option us_queue (w_upstream ?w) = Some (qs_queue (px_read pu (sv_queues s3)))"
    "w_errors ?w = sv_errors s5"
    using p5 by (simp_all add: service_world_def)
  obtain stats b where rec: "recover_downstream_active_orders (si_now inp) (si_walk inp) ?w = (True, ?w\<lparr>w_book := b\<rparr>, stats)"
    using recover_empty [OF w(1) reads(3)] by blast
  define s6 where "s6 = s5\<lparr>sv_router_world := Some (?w\<lparr>w_book := b\<rparr>), sv_errors := sv_errors s5\<rparr>"
  have book: "init_order_components inp s5 = (True, s6)"
    using rec p5 w(3) by (simp add: init_order_components_def s6_def)
  define md where "md = \<lparr>md_config = cf_market_data cfg, md_ready = False, md_reader = si_md_reader inp\<rparr>"
  define s7 where "s7 = s6\<lparr>sv_market_data_service := Some md\<rparr>"
  have market: "init_market_data inp s6 = (True, s7)"
    using cs p5 by (simp add: init_market_data_def s7_def md_def md_initialize_def s6_def)
  define engine where "engine = \<lparr>en_split_config = split_config.truncate (cf_split cfg),
    en_env = \<lparr>ee_market_data = Some md, ee_active_strategy = None\<rparr>, en_sessions = []\<rparr>"
  define s8 where "s8 = s7\<lparr>sv_execution_engine := Some engine\<rparr>"
  have eng: "init_execution_engine inp s7 = (True, s8)"
    using cs p5 by (simp add: init_execution_engine_def s8_def s7_def s6_def engine_def create_strategy_def
      strategy_config_def)
  define loop where "loop = event_loop_new (EventLoopConfig.truncate (cf_event_loop cfg)) (?w\<lparr>w_book := b\<rparr>)
    (Some (qs_queue (px_read pt (sv_trade_queues s3)))) pm (RiskManager_new (cf_risk cfg)) (sv_account_info s8) (Some engine)"
  define s9 where "s9 = s8\<lparr>sv_event_loop := Some loop\<rparr>"
  have "sv_position_manager s8 = Some pm" by (simp add: s8_def s7_def s6_def s5_def s4)
  then have event: "init_event_loop inp s8 = (True, s9)"
    using p5 by (simp add: init_event_loop_def s9_def s8_def s7_def s6_def loop_def) (simp add: s5_def)
  have components: "service_components inp s1 = (True, s9)"
    unfolding service_components_def
    by (rule run_steps_go, rule recorder, rule run_steps_go, rule segments, rule run_steps_go, rule portfolio,
        rule run_steps_go, rule risk, rule run_steps_go, rule book, rule run_steps_go, rule market,
        rule run_steps_go, rule eng, rule run_steps_go, rule event) simp
  have "run_steps [init_config inp path, init_service_logger inp, service_components inp] ?s0 = (True, s9)"
    by (rule run_steps_go, rule config, rule run_steps_go, rule logger, rule run_steps_go, rule components) simp
  then have init: "service_initialize inp path s = (True, s9\<lparr>sv_state := SvcReady\<rparr>)"
    using assms(2) by (simp add: service_initialize_def Let_def cleared_errors_def del: run_steps.simps)
  have "idle_loop loop"
    using w(2) reads(1,2)
    by (auto simp: idle_loop_def loop_def event_loop_new_def upstream_size_def response_size_def engine_def
        queue_segment_zero_def queue_size_def kMask_def kQueueCapacity_def split: option.split)
  moreover have "sv_shutdown_reason s9 = sv_shutdown_reason s" "sv_errors s9 = cleared_errors s"
    by (simp_all add: s9_def s8_def s7_def s6_def s5_def s4 s3 s2_def s1_def cleanup_def)
  moreover have "\<not> el_running loop" by (simp add: loop_def event_loop_new_def)
  moreover have "sv_event_loop s9 = Some loop" by (simp add: s9_def)
  ultimately show ?thesis using init by (intro exI [of _ "s9\<lparr>sv_state := SvcReady\<rparr>"] exI [of _ loop]) simp
qed

lemma start_and_run:
  assumes "clean_slate inp path cfg s" and "may_start s" and "li_stop turn"
  shows "\<exists>s1 s2. service_initialize inp path s = (True, s1)
    \<and> service_run now now_monotonic [turn] s1 = Some (if has_raised s then - 1 else 0, s2)
    \<and> \<not> should_stop_service (sv_errors s1)"
proof -
  obtain s1 loop where i: "service_initialize inp path s = (True, s1)" and s1: "sv_shutdown_reason s1 = sv_shutdown_reason s"
    "sv_errors s1 = cleared_errors s" "sv_event_loop s1 = Some loop" "idle_loop loop" "\<not> el_running loop"
    "sv_state s1 = SvcReady" using clean_start [OF assms(1,2)] by blast
  have "\<not> should_stop_service (sv_errors s1)"
    by (simp add: s1 cleared_errors_def should_stop_service_def clear_last_error_def clear_shutdown_reason_def)
  with idle_run [OF s1(3-5) assms(3) s1(6) this, of now now_monotonic] i s1(1) show ?thesis
    by (auto simp: has_raised_def)
qed


section \<open>Examples\<close>

definition sample_yaml :: "string \<Rightarrow> yaml_node option" where
  "sample_yaml = [''a.yaml'' \<mapsto> YMap [(YScalar ''db'', YMap [(YScalar ''enable_persistence'', YScalar ''false'')])]]"

definition sample_segment :: segment_input where
  "sample_segment = \<lparr>sg_bytes = 4096, sg_faults = no_faults\<rparr>"

definition sample_start :: start_input where
  "sample_start = \<lparr>si_now = 50, si_stod = (\<lambda>_. StodInvalid), si_yaml = sample_yaml, si_account_stod = (\<lambda>_. None),
     si_sources = \<lparr>ls_files = Map.empty, ls_databases = Map.empty\<rparr>, si_to_float = (\<lambda>_. 0), si_logger_ok = True,
     si_recorder_ok = True, si_file_backend = False, si_upstream = sample_segment, si_downstream = sample_segment,
     si_trades = sample_segment, si_orders = sample_segment, si_positions = sample_segment, si_capacity = 4,
     si_walk = [], si_md_opened = False, si_md_header_ok = False, si_md_reader = (\<lambda>_. None)\<rparr>"

definition sample_env :: service_environment where
  "sample_env = \<lparr>sv_queues = se_os (empty_env (queue_segment_zero 0)),
     sv_trade_queues = se_os (empty_env (queue_segment_zero TradeResponse_zero)),
     sv_pools = se_os (empty_env orders_segment_zero), sv_tables = se_os (empty_env positions_segment_zero),
     sv_errors = error_state_init\<rparr>"

definition sample_turn :: loop_input where
  "sample_turn = \<lparr>li_start = 60, li_now = 61, li_end = 62, li_walk = [], li_stop = True\<rparr>"


lemma clean_sample:
  assumes "sv_queues s = sv_queues sample_env" "sv_trade_queues s = sv_trade_queues sample_env"
    "sv_pools s = sv_pools sample_env" "sv_tables s = sv_tables sample_env" "service_config s = Config_default"
  shows "\<exists>cfg. clean_slate sample_start ''a.yaml'' cfg s"
proof -
  let ?cfg = "Config_default\<lparr>cf_config_file := ''a.yaml'', cf_db := (cf_db Config_default)\<lparr>enable_persistence := False\<rparr>\<rparr>"
  have "parse_root (\<lambda>_. StodInvalid) (YMap [(YScalar ''db'', YMap [(YScalar ''enable_persistence'', YScalar ''false'')])])
     (Config_default\<lparr>cf_config_file := ''a.yaml''\<rparr>) = Inr ?cfg" by code_simp
  moreover have "validate_config ?cfg" by code_simp
  ultimately have "clean_slate sample_start ''a.yaml'' ?cfg s"
    by (simp add: clean_slate_def assms sample_env_def sample_start_def sample_segment_def sample_yaml_def
        empty_env_def Config_default_def)
  then show ?thesis by blast
qed

abbreviation sample_service :: AccountService where
  "sample_service \<equiv> AccountService_new sample_env"

lemma sample_service_sel: "sv_queues sample_service = sv_queues sample_env"
  "sv_trade_queues sample_service = sv_trade_queues sample_env" "sv_pools sample_service = sv_pools sample_env"
  "sv_tables sample_service = sv_tables sample_env" "service_config sample_service = Config_default"
  "may_start sample_service" "\<not> has_raised sample_service"
  by (simp_all add: AccountService_new_def service_environment.extend_def sample_env_def config_manager_new_def
      has_raised_def)

lemma sample_clean: "\<exists>cfg. clean_slate sample_start ''a.yaml'' cfg sample_service"
  by (rule clean_sample) (simp_all only: sample_service_sel)

lemma sample_turn_stops: "li_stop sample_turn"
  by (simp add: sample_turn_def)


lemma sample_run:
  "\<exists>s1 s2. service_initialize sample_start ''a.yaml'' sample_service = (True, s1)
    \<and> service_run 55 56 [sample_turn] s1 = Some (0, s2)"
proof -
  obtain cfg where c: "clean_slate sample_start ''a.yaml'' cfg sample_service" using sample_clean by blast
  from start_and_run [OF c sample_service_sel(6) sample_turn_stops, of 55 56] show ?thesis
    using sample_service_sel(7) by auto
qed

lemma service_start_ready_witness:
  "\<exists>s. service_initialize sample_start ''a.yaml'' sample_service = (True, s) \<and> validate_config (service_config s)
    \<and> segments_mapped s \<and> portfolio_ready sample_start s \<and> loop_ready sample_start s"
proof -
  obtain s where i: "service_initialize sample_start ''a.yaml'' sample_service = (True, s)" using sample_run by blast
  from service_start_ready [OF i] i show ?thesis by blast
qed

lemma sample_failure:
  "\<exists>s. service_initialize sample_start [] sample_service = (False, s) \<and> may_start s
    \<and> sv_queues s = sv_queues sample_env \<and> sv_trade_queues s = sv_trade_queues sample_env
    \<and> sv_pools s = sv_pools sample_env \<and> sv_tables s = sv_tables sample_env \<and> service_config s = Config_default"
  using sample_service_sel
  by (auto simp: service_initialize_def Let_def init_config_def raise_service_error_def cleanup_def)

lemma failed_start_leaves_nothing_witness:
  "\<exists>s s'. service_initialize sample_start [] sample_service = (False, s) \<and> sv_state s = SvcError \<and> nothing_left s
    \<and> failed_with_error s \<and> service_run 55 56 [] s = Some (- 1, s')"
proof -
  obtain s where i: "service_initialize sample_start [] sample_service = (False, s)" using sample_failure by blast
  from failed_start_leaves_nothing [OF i sample_service_sel(6), of 55 56 "[]"] i show ?thesis by blast
qed

lemma failed_start_spoils_runs_witness:
  "\<exists>s1 s2 s3. service_initialize sample_start [] sample_service = (False, s1)
    \<and> service_initialize sample_start ''a.yaml'' s1 = (True, s2) \<and> \<not> should_stop_service (sv_errors s2)
    \<and> service_run 55 56 [sample_turn] s2 = Some (- 1, s3)"
proof -
  obtain s1 where f: "service_initialize sample_start [] sample_service = (False, s1)" and s1: "may_start s1"
    "sv_queues s1 = sv_queues sample_env" "sv_trade_queues s1 = sv_trade_queues sample_env"
    "sv_pools s1 = sv_pools sample_env" "sv_tables s1 = sv_tables sample_env" "service_config s1 = Config_default"
    using sample_failure by blast
  obtain cfg where "clean_slate sample_start ''a.yaml'' cfg s1" using clean_sample [OF s1(2-6)] by blast
  from start_and_run [OF this s1(1) sample_turn_stops, of 55 56] obtain s2 s3 rc where
    "service_initialize sample_start ''a.yaml'' s1 = (True, s2)" "service_run 55 56 [sample_turn] s2 = Some (rc, s3)"
    "\<not> should_stop_service (sv_errors s2)" by blast
  with failed_start_spoils_runs [OF f sample_service_sel(6) this(1,2)] f show ?thesis by blast
qed

lemma exit_code_zero_witness:
  "account_main sample_start 55 56 [sample_turn] sample_env [Some ''a.yaml''] = Some 0
   \<and> (\<exists>path s. service_initialize sample_start path sample_service = (True, s) \<and> loop_ready sample_start s)"
proof -
  obtain s1 s2 where i: "service_initialize sample_start ''a.yaml'' sample_service = (True, s1)"
    and r: "service_run 55 56 [sample_turn] s1 = Some (0, s2)" using sample_run by blast
  obtain loop where "sv_event_loop s1 = Some loop" "\<not> el_running loop"
    using start_ready [OF i] by (auto simp: loop_ready_def)
  with clean_run [OF r] have "\<not> should_stop_service (sv_errors s2)" by blast
  then have "\<not> severity_value (shutdown_reason (sv_errors s2)) \<ge> severity_value Critical"
    by (simp add: shutdown_reason_def should_stop_service_def Let_def)
  with i r have m: "account_main sample_start 55 56 [sample_turn] sample_env [Some ''a.yaml''] = Some 0"
    by (simp add: account_main_def)
  have "main_parse_args [Some ''a.yaml''] [] \<noteq> MainHelp" by simp
  from exit_code_zero [OF m this] m show ?thesis by blast
qed

end
