(* ===== verification/Gateway_Config.thy ===== *)
theory Gateway_Config
  imports Gateway Config_Facts
begin

text \<open>
  \<^verbatim>\<open>gateway/src/gateway_config.cpp\<close>: the gateway's settings, from its command line and its YAML file.
  The YAML reader is third party: \<open>yaml\<close> gives the tree of a file, or the text of the exception that
  \<open>YAML::LoadFile\<close> throws.  The settings are changed in place, so a call that fails leaves them partly set;
  the functions return them on every branch.
\<close>

section \<open>The settings\<close>

record gateway_settings = gateway_config +
  gs_config_file :: string
  gs_account_id :: AccountId
  gs_downstream_shm_name :: string
  gs_trades_shm_name :: string
  gs_orders_shm_name :: string
  gs_trading_day :: string
  gs_broker_type :: string
  gs_adapter_plugin_so :: string
  gs_create_if_not_exist :: bool

definition gateway_settings_default :: gateway_settings where
  "gateway_settings_default =
     \<lparr>gc_poll_batch_size = 64, gc_idle_sleep_us = 50, gc_stats_interval_ms = 1000,
      gc_max_retry_attempts = 3, gc_retry_interval_us = 200,
      gs_config_file = [], gs_account_id = 1, gs_downstream_shm_name = ''/downstream_order_shm'',
      gs_trades_shm_name = ''/trades_shm'', gs_orders_shm_name = ''/orders_shm'',
      gs_trading_day = ''19700101'', gs_broker_type = ''sim'', gs_adapter_plugin_so = [],
      gs_create_if_not_exist = False\<rparr>"

datatype GatewayConfigParseError =
    GwInvalidBool | GwInvalidU32 | GwInvalidTradingDay | GwNonPositiveValue | GwOutOfRange | GwUnknownKey

fun gateway_config_parse_error_message :: "GatewayConfigParseError \<Rightarrow> string" where
  "gateway_config_parse_error_message GwInvalidBool = ''invalid boolean value''"
| "gateway_config_parse_error_message GwInvalidU32 = ''invalid uint32 value''"
| "gateway_config_parse_error_message GwInvalidTradingDay = ''invalid trading day''"
| "gateway_config_parse_error_message GwNonPositiveValue = ''value must be positive''"
| "gateway_config_parse_error_message GwOutOfRange = ''numeric value out of range''"
| "gateway_config_parse_error_message GwUnknownKey = ''unknown key''"

section \<open>Values\<close>

type_synonym 'a gw_parsed = "GatewayConfigParseError + 'a"

text \<open>\<open>parse_integral\<close> at \<open>uint32_t\<close>, its only instance.\<close>

definition gateway_parse_integral :: "GatewayConfigParseError \<Rightarrow> string \<Rightarrow> u32 gw_parsed" where
  "gateway_parse_integral invalid_error raw_value =
     (let v = trim_copy raw_value
      in if v = [] then Inl invalid_error
         else let v = strip_plus v
              in if v = [] then Inl invalid_error
                 else case from_chars_unsigned v of
                   None \<Rightarrow> Inl invalid_error
                 | Some (parsed, rest) \<Rightarrow>
                     if \<not> (0 \<le> parsed \<and> parsed \<le> 2 ^ 32 - 1) then Inl GwOutOfRange
                     else if rest = [] then Inr (of_int parsed) else Inl invalid_error)"

definition gateway_parse_u32 :: "string \<Rightarrow> u32 gw_parsed" where
  "gateway_parse_u32 text = gateway_parse_integral GwInvalidU32 text"

definition gateway_parse_bool :: "string \<Rightarrow> bool gw_parsed" where
  "gateway_parse_bool raw_text =
     (let text = map to_lower (trim_copy raw_text)
      in if text = ''1'' \<or> text = ''true'' \<or> text = ''yes'' \<or> text = ''on'' then Inr True
         else if text = ''0'' \<or> text = ''false'' \<or> text = ''no'' \<or> text = ''off'' then Inr False
         else Inl GwInvalidBool)"

definition gateway_is_valid_trading_day :: "string \<Rightarrow> bool" where
  "gateway_is_valid_trading_day trading_day = (if length trading_day \<noteq> 8 then False else list_all is_digit trading_day)"

definition contains_key :: "string \<Rightarrow> string list \<Rightarrow> bool" where
  "contains_key key allowed_keys = list_ex (\<lambda>allowed. key = allowed) allowed_keys"

definition assign_parsed :: "'a gw_parsed \<Rightarrow> ('a \<Rightarrow> gateway_settings) \<Rightarrow> gateway_settings gw_parsed" where
  "assign_parsed parsed assign = (case parsed of Inl e \<Rightarrow> Inl e | Inr v \<Rightarrow> Inr (assign v))"

definition assign_positive :: "u32 gw_parsed \<Rightarrow> (u32 \<Rightarrow> gateway_settings) \<Rightarrow> gateway_settings gw_parsed" where
  "assign_positive parsed assign =
     (case parsed of Inl e \<Rightarrow> Inl e | Inr v \<Rightarrow> if v = 0 then Inl GwNonPositiveValue else Inr (assign v))"

definition make_invalid_value_message :: "string \<Rightarrow> GatewayConfigParseError \<Rightarrow> string" where
  "make_invalid_value_message key err =
     ''invalid value for '' @ key @ '': '' @ gateway_config_parse_error_message err"

definition apply_config_value :: "gateway_settings \<Rightarrow> string \<Rightarrow> string \<Rightarrow> gateway_settings gw_parsed" where
  "apply_config_value config key raw_value =
     (let v = trim_copy raw_value
      in if key = ''account_id'' then assign_positive (gateway_parse_u32 v) (\<lambda>x. config\<lparr>gs_account_id := x\<rparr>)
         else if key = ''downstream_shm'' \<or> key = ''downstream_shm_name''
         then Inr (config\<lparr>gs_downstream_shm_name := v\<rparr>)
         else if key = ''trades_shm'' \<or> key = ''trades_shm_name'' then Inr (config\<lparr>gs_trades_shm_name := v\<rparr>)
         else if key = ''orders_shm'' \<or> key = ''orders_shm_name'' then Inr (config\<lparr>gs_orders_shm_name := v\<rparr>)
         else if key = ''trading_day''
         then (if \<not> gateway_is_valid_trading_day v then Inl GwInvalidTradingDay else Inr (config\<lparr>gs_trading_day := v\<rparr>))
         else if key = ''broker_type'' then Inr (config\<lparr>gs_broker_type := v\<rparr>)
         else if key = ''adapter_so'' \<or> key = ''adapter_plugin_so'' then Inr (config\<lparr>gs_adapter_plugin_so := v\<rparr>)
         else if key = ''create_if_not_exist''
         then assign_parsed (gateway_parse_bool v) (\<lambda>x. config\<lparr>gs_create_if_not_exist := x\<rparr>)
         else if key = ''poll_batch_size''
         then assign_positive (gateway_parse_u32 v) (\<lambda>x. config\<lparr>gc_poll_batch_size := x\<rparr>)
         else if key = ''idle_sleep_us''
         then assign_parsed (gateway_parse_u32 v) (\<lambda>x. config\<lparr>gc_idle_sleep_us := x\<rparr>)
         else if key = ''stats_interval_ms''
         then assign_parsed (gateway_parse_u32 v) (\<lambda>x. config\<lparr>gc_stats_interval_ms := x\<rparr>)
         else if key = ''max_retries'' \<or> key = ''max_retry_attempts''
         then assign_parsed (gateway_parse_u32 v) (\<lambda>x. config\<lparr>gc_max_retry_attempts := x\<rparr>)
         else if key = ''retry_interval_us''
         then assign_parsed (gateway_parse_u32 v) (\<lambda>x. config\<lparr>gc_retry_interval_us := x\<rparr>)
         else Inl GwUnknownKey)"

section \<open>The file\<close>

definition kAllowedKeys :: "string list" where
  "kAllowedKeys = [''account_id'', ''downstream_shm'', ''downstream_shm_name'', ''trades_shm'',
     ''trades_shm_name'', ''orders_shm'', ''orders_shm_name'', ''trading_day'', ''broker_type'', ''adapter_so'',
     ''adapter_plugin_so'', ''create_if_not_exist'', ''poll_batch_size'', ''idle_sleep_us'',
     ''stats_interval_ms'', ''max_retries'', ''max_retry_attempts'', ''retry_interval_us'']"

text \<open>The loop over the entries of the root; the message is that of the failure.\<close>

fun load_config_entries :: "(yaml_node \<times> yaml_node) list \<Rightarrow> gateway_settings \<Rightarrow> bool \<times> gateway_settings \<times> string" where
  "load_config_entries [] config = (True, config, [])"
| "load_config_entries ((key_node, value_node) # entries) config =
     (case key_node of
        YScalar key \<Rightarrow>
          (case value_node of
             YScalar v \<Rightarrow>
               if \<not> contains_key key kAllowedKeys then (False, config, ''unknown gateway config key: '' @ key)
               else (case apply_config_value config key v of
                       Inl err \<Rightarrow> (False, config, make_invalid_value_message key err)
                     | Inr config \<Rightarrow> load_config_entries entries config)
           | _ \<Rightarrow> (False, config, ''gateway config value must be scalar: '' @ key))
      | _ \<Rightarrow> (False, config, ''gateway config key must be scalar''))"

definition load_config_yaml ::
    "(string \<Rightarrow> string + yaml_node) \<Rightarrow> string \<Rightarrow> gateway_settings \<Rightarrow> bool \<times> gateway_settings \<times> string" where
  "load_config_yaml yaml config_path config =
     (if config_path = [] then (False, config, ''empty --config path'')
      else case yaml config_path of
        Inl what \<Rightarrow> (False, config, ''failed to load config file: '' @ what)
      | Inr YNull \<Rightarrow> (True, config\<lparr>gs_config_file := config_path\<rparr>, [])
      | Inr (YMap entries) \<Rightarrow>
          (case load_config_entries entries config of
             (False, config, message) \<Rightarrow> (False, config, message)
           | (True, config, message) \<Rightarrow> (True, config\<lparr>gs_config_file := config_path\<rparr>, message))
      | Inr _ \<Rightarrow> (False, config, ''gateway config root must be a YAML map''))"

text \<open>\<open>validate_config\<close>: the complaint, if there is one.\<close>

definition validate_gateway :: "gateway_settings \<Rightarrow> string option" where
  "validate_gateway config =
     (if gs_downstream_shm_name config = [] \<or> gs_trades_shm_name config = [] \<or> gs_orders_shm_name config = []
      then Some ''shared memory names must be non-empty''
      else if \<not> gateway_is_valid_trading_day (gs_trading_day config) then Some ''trading_day must be YYYYMMDD''
      else if gs_broker_type config \<noteq> ''sim'' \<and> gs_broker_type config \<noteq> ''plugin''
      then Some ''--broker-type must be sim or plugin''
      else if gs_broker_type config = ''plugin'' \<and> gs_adapter_plugin_so config = []
      then Some ''--adapter-so is required when --broker-type=plugin''
      else None)"

section \<open>The command line\<close>

datatype parse_result_t = ParseOk | ParseHelp | ParseError

definition kDefaultGatewayConfigPath :: string where
  "kDefaultGatewayConfigPath = ''config/gateway.yaml''"

text \<open>
  The loop over \<open>argv\<close> behind the program's name; an argument can be a null pointer.  \<open>Inr\<close> is the path it
  ends with.
\<close>

fun scan_args :: "string option list \<Rightarrow> string \<Rightarrow> (parse_result_t \<times> string) + string" where
  "scan_args [] config_path = Inr config_path"
| "scan_args (None # args) config_path = scan_args args config_path"
| "scan_args (Some option # args) config_path =
     (if option = ''-h'' \<or> option = ''--help'' then Inl (ParseHelp, [])
      else if option = ''--config''
      then (case args of
              Some v # args \<Rightarrow>
                if config_path \<noteq> [] then Inl (ParseError, ''duplicated Config path'') else scan_args args v
            | _ \<Rightarrow> Inl (ParseError, ''missing value for '' @ option))
      else if option \<noteq> [] \<and> hd option = CHR ''-'' then Inl (ParseError, ''unknown option: '' @ option)
      else if config_path \<noteq> [] then Inl (ParseError, ''duplicated Config path: '' @ option)
      else scan_args args option)"

definition gateway_parse_args ::
    "(string \<Rightarrow> string + yaml_node) \<Rightarrow> string option list \<Rightarrow> gateway_settings
      \<Rightarrow> parse_result_t \<times> gateway_settings \<times> string" where
  "gateway_parse_args yaml argv config =
     (case scan_args argv [] of
        Inl (result, message) \<Rightarrow> (result, config, message)
      | Inr config_path \<Rightarrow>
          let config_path = (if config_path = [] then kDefaultGatewayConfigPath else config_path)
          in case load_config_yaml yaml config_path config of
               (False, config, message) \<Rightarrow> (ParseError, config, message)
             | (True, config, message) \<Rightarrow>
                 (case validate_gateway config of
                    Some complaint \<Rightarrow> (ParseError, config, complaint)
                  | None \<Rightarrow> (ParseOk, config, message)))"

section \<open>What a call can end with\<close>

definition settings_ok :: "gateway_settings \<Rightarrow> bool" where
  "settings_ok c \<longleftrightarrow>
     gs_account_id c \<noteq> 0 \<and> gc_poll_batch_size c \<noteq> 0
     \<and> gs_downstream_shm_name c \<noteq> [] \<and> gs_trades_shm_name c \<noteq> [] \<and> gs_orders_shm_name c \<noteq> []
     \<and> gateway_is_valid_trading_day (gs_trading_day c)
     \<and> (gs_broker_type c = ''sim'' \<or> gs_broker_type c = ''plugin'' \<and> gs_adapter_plugin_so c \<noteq> [])"

text \<open>The part of it that the keys keep; the rest is the final validation.\<close>

definition numbers_positive :: "gateway_settings \<Rightarrow> bool" where
  "numbers_positive c \<longleftrightarrow> gs_account_id c \<noteq> 0 \<and> gc_poll_batch_size c \<noteq> 0"

definition keeps_positive :: "gateway_settings gw_parsed \<Rightarrow> bool" where
  "keeps_positive r = (case r of Inl e \<Rightarrow> True | Inr c \<Rightarrow> numbers_positive c)"

lemma keeps_positive_intros:
  "keeps_positive a \<Longrightarrow> keeps_positive b \<Longrightarrow> keeps_positive (if P then a else b)"
  "keeps_positive (Inl e)"
  "numbers_positive c \<Longrightarrow> keeps_positive (Inr c)"
  "(\<And>v. numbers_positive (g v)) \<Longrightarrow> keeps_positive (assign_parsed p g)"
  "(\<And>v. v \<noteq> 0 \<Longrightarrow> numbers_positive (f v)) \<Longrightarrow> keeps_positive (assign_positive q f)"
  by (auto simp: keeps_positive_def assign_parsed_def assign_positive_def split: sum.splits)

lemma apply_config_value_positive:
  assumes "apply_config_value config key v = Inr config'" "numbers_positive config"
  shows "numbers_positive config'"
proof -
  have "keeps_positive (apply_config_value config key v)"
    unfolding apply_config_value_def Let_def
    by (intro keeps_positive_intros) (use assms(2) in \<open>simp_all add: numbers_positive_def\<close>)
  with assms(1) show ?thesis by (simp add: keeps_positive_def)
qed

lemma load_config_entries_positive:
  assumes "load_config_entries entries config = (True, config', m)" "numbers_positive config"
  shows "numbers_positive config' \<and> m = []"
  using assms
  by (induction entries config rule: load_config_entries.induct)
     (auto split: yaml_node.splits if_splits sum.splits dest: apply_config_value_positive)

lemma load_config_entries_message: "load_config_entries entries config = (False, config', m) \<Longrightarrow> m \<noteq> []"
  by (induction entries config rule: load_config_entries.induct)
     (auto simp: make_invalid_value_message_def split: yaml_node.splits if_splits sum.splits)

lemma load_config_yaml_outcome:
  assumes "numbers_positive config" "path \<noteq> []"
  shows "case load_config_yaml yaml path config of
           (True, c, m) \<Rightarrow> numbers_positive c \<and> gs_config_file c = path \<and> m = []
         | (False, c, m) \<Rightarrow> m \<noteq> []"
  using assms load_config_entries_positive [OF _ assms(1)] load_config_entries_message [of _ config]
  unfolding load_config_yaml_def
  by (auto simp: numbers_positive_def split: sum.splits yaml_node.splits prod.splits bool.splits)

definition scan_outcome :: "string option set \<Rightarrow> (parse_result_t \<times> string) + string \<Rightarrow> bool" where
  "scan_outcome A r = (case r of
     Inl (result, m) \<Rightarrow>
       (case result of ParseOk \<Rightarrow> False | ParseHelp \<Rightarrow> Some ''-h'' \<in> A \<or> Some ''--help'' \<in> A | ParseError \<Rightarrow> m \<noteq> [])
   | Inr p \<Rightarrow> True)"

lemma scan_outcome_mono: "scan_outcome A r \<Longrightarrow> A \<subseteq> B \<Longrightarrow> scan_outcome B r"
  by (auto simp: scan_outcome_def split: sum.splits prod.splits parse_result_t.splits)

lemma scan_args_outcome: "scan_outcome (set args) (scan_args args path)"
proof (induction args path rule: scan_args.induct)
  case (3 option args path)
  let ?A = "set (Some option # args)"
  consider "option = ''-h'' \<or> option = ''--help''" | "option = ''--config''"
    | "option \<noteq> ''-h''" "option \<noteq> ''--help''" "option \<noteq> ''--config''" by blast
  then show ?case
  proof cases
    case 1
    then have "scan_args (Some option # args) path = Inl (ParseHelp, [])" by (simp only: scan_args.simps if_True)
    with 1 show ?thesis by (auto simp: scan_outcome_def)
  next
    case 2
    show ?thesis
    proof (cases args)
      case Nil
      with 2 show ?thesis by (simp add: scan_outcome_def)
    next
      case (Cons a rest)
      show ?thesis
      proof (cases a)
        case None
        with Cons 2 show ?thesis by (simp add: scan_outcome_def)
      next
        case (Some w)
        show ?thesis
        proof (cases "path = []")
          case True
          have "scan_outcome (set rest) (scan_args rest w)"
            using "3.IH"(1) [OF _ _ Cons Some] 2 True by auto
          then have "scan_outcome ?A (scan_args rest w)" by (rule scan_outcome_mono) (auto simp: Cons)
          with 2 Cons Some True show ?thesis by simp
        next
          case False
          with 2 Cons Some show ?thesis by (simp add: scan_outcome_def)
        qed
      qed
    qed
  next
    case 3
    show ?thesis
    proof (cases "option \<noteq> [] \<and> hd option = CHR ''-'' \<or> path \<noteq> []")
      case True
      with 3 show ?thesis by (auto simp only: scan_args.simps if_False scan_outcome_def simp_thms
        sum.case prod.case parse_result_t.case append_is_Nil_conv list.distinct split: if_split)
    next
      case False
      then have "scan_outcome (set args) (scan_args args option)" using "3.IH"(2) 3 by blast
      then have "scan_outcome ?A (scan_args args option)" by (rule scan_outcome_mono) auto
      moreover have "scan_args (Some option # args) path = scan_args args option"
        using 3 False by (simp only: scan_args.simps if_False simp_thms de_Morgan_disj)
      ultimately show ?thesis by simp
    qed
  qed
qed (auto simp: scan_outcome_def split: sum.splits prod.splits parse_result_t.splits)

lemma validate_gateway_None: "validate_gateway c = None \<Longrightarrow> numbers_positive c \<Longrightarrow> settings_ok c"
  by (auto simp: validate_gateway_def settings_ok_def numbers_positive_def split: if_splits)

lemma validate_gateway_message: "validate_gateway c = Some m \<Longrightarrow> m \<noteq> []"
  by (auto simp: validate_gateway_def split: if_splits)

text \<open>
  The gateway starts only on settings it can run with.  If its command line is accepted, the account and
  the batch size are not zero, the three segment names are not empty, the day has eight digits, a plug-in has
  a path, and the settings name the file they come from; help is answered only if it was asked for and changes
  nothing; everything else is refused with a message.
\<close>

theorem gateway_args_outcome:
  "case gateway_parse_args yaml argv gateway_settings_default of
     (ParseOk, c, m) \<Rightarrow> settings_ok c \<and> gs_config_file c \<noteq> [] \<and> m = []
   | (ParseHelp, c, m) \<Rightarrow>
       c = gateway_settings_default \<and> (Some ''-h'' \<in> set argv \<or> Some ''--help'' \<in> set argv)
   | (ParseError, c, m) \<Rightarrow> m \<noteq> []"
proof (cases "scan_args argv []")
  case (Inl r)
  with scan_args_outcome [of argv "[]"] show ?thesis
    by (auto simp: gateway_parse_args_def scan_outcome_def split: prod.splits parse_result_t.splits)
next
  case (Inr p)
  define path where "path = (if p = [] then kDefaultGatewayConfigPath else p)"
  have "path \<noteq> []" by (simp add: path_def kDefaultGatewayConfigPath_def)
  moreover have "numbers_positive gateway_settings_default"
    by (simp add: numbers_positive_def gateway_settings_default_def)
  ultimately have "case load_config_yaml yaml path gateway_settings_default of
           (True, c, m) \<Rightarrow> numbers_positive c \<and> gs_config_file c = path \<and> m = []
         | (False, c, m) \<Rightarrow> m \<noteq> []" by (rule load_config_yaml_outcome [rotated])
  with Inr \<open>path \<noteq> []\<close> show ?thesis
    by (auto simp: gateway_parse_args_def path_def [symmetric] validate_gateway_message validate_gateway_None
        split: prod.splits bool.splits option.splits)
qed

section \<open>Every setting can be configured\<close>

definition settings_entries :: "gateway_settings \<Rightarrow> (string \<times> string) list" where
  "settings_entries c =
     [(''account_id'', show_nat (unat (gs_account_id c))),
      (''downstream_shm'', gs_downstream_shm_name c), (''trades_shm'', gs_trades_shm_name c),
      (''orders_shm'', gs_orders_shm_name c), (''trading_day'', gs_trading_day c),
      (''broker_type'', gs_broker_type c), (''adapter_so'', gs_adapter_plugin_so c),
      (''create_if_not_exist'', if gs_create_if_not_exist c then ''true'' else ''false''),
      (''poll_batch_size'', show_nat (unat (gc_poll_batch_size c))),
      (''idle_sleep_us'', show_nat (unat (gc_idle_sleep_us c))),
      (''stats_interval_ms'', show_nat (unat (gc_stats_interval_ms c))),
      (''max_retries'', show_nat (unat (gc_max_retry_attempts c))),
      (''retry_interval_us'', show_nat (unat (gc_retry_interval_us c)))]"

definition settings_tree :: "gateway_settings \<Rightarrow> yaml_node" where
  "settings_tree c = YMap (map (\<lambda>(k, v). (YScalar k, YScalar v)) (settings_entries c))"

text \<open>The gateway's number parser is the configuration manager's.\<close>

lemma gateway_parse_u32_eq: "gateway_parse_u32 s = Inr v \<longleftrightarrow> parse_u32 s = Inr v"
  by (auto simp: gateway_parse_u32_def gateway_parse_integral_def parse_u32_def parse_integral_def
      map_parsed_def Let_def split: option.splits sum.splits if_splits)

lemma gateway_parse_u32_show [simp]: "gateway_parse_u32 (show_nat (unat (w :: u32))) = Inr w"
  by (simp add: gateway_parse_u32_eq)

lemma gateway_parse_bool_show [simp]: "gateway_parse_bool (if b then ''true'' else ''false'') = Inr b"
  by (cases b) (simp_all add: gateway_parse_bool_def Let_def trim_copy_def is_space_def to_lower_def)

lemma valid_day_trim: "gateway_is_valid_trading_day d \<Longrightarrow> trim_copy d = d"
  by (simp add: gateway_is_valid_trading_day_def trim_digits split: if_splits)

lemma set_keys:
  "w \<noteq> 0 \<Longrightarrow> apply_config_value d ''account_id'' (show_nat (unat w)) = Inr (d\<lparr>gs_account_id := w\<rparr>)"
  "trimmed s \<Longrightarrow> apply_config_value d ''downstream_shm'' s = Inr (d\<lparr>gs_downstream_shm_name := s\<rparr>)"
  "trimmed s \<Longrightarrow> apply_config_value d ''trades_shm'' s = Inr (d\<lparr>gs_trades_shm_name := s\<rparr>)"
  "trimmed s \<Longrightarrow> apply_config_value d ''orders_shm'' s = Inr (d\<lparr>gs_orders_shm_name := s\<rparr>)"
  "gateway_is_valid_trading_day s \<Longrightarrow> apply_config_value d ''trading_day'' s = Inr (d\<lparr>gs_trading_day := s\<rparr>)"
  "trimmed s \<Longrightarrow> apply_config_value d ''broker_type'' s = Inr (d\<lparr>gs_broker_type := s\<rparr>)"
  "trimmed s \<Longrightarrow> apply_config_value d ''adapter_so'' s = Inr (d\<lparr>gs_adapter_plugin_so := s\<rparr>)"
  "apply_config_value d ''create_if_not_exist'' (if b then ''true'' else ''false'') = Inr (d\<lparr>gs_create_if_not_exist := b\<rparr>)"
  "w \<noteq> 0 \<Longrightarrow> apply_config_value d ''poll_batch_size'' (show_nat (unat w)) = Inr (d\<lparr>gc_poll_batch_size := w\<rparr>)"
  "apply_config_value d ''idle_sleep_us'' (show_nat (unat w)) = Inr (d\<lparr>gc_idle_sleep_us := w\<rparr>)"
  "apply_config_value d ''stats_interval_ms'' (show_nat (unat w)) = Inr (d\<lparr>gc_stats_interval_ms := w\<rparr>)"
  "apply_config_value d ''max_retries'' (show_nat (unat w)) = Inr (d\<lparr>gc_max_retry_attempts := w\<rparr>)"
  "apply_config_value d ''retry_interval_us'' (show_nat (unat w)) = Inr (d\<lparr>gc_retry_interval_us := w\<rparr>)"
  by (simp_all only: trim_show gateway_parse_u32_show gateway_parse_bool_show apply_config_value_def Let_def
      list.inject char.inject list.distinct simp_thms if_True if_False assign_parsed_def assign_positive_def
      sum.case trimmed_def valid_day_trim)

fun set_all :: "(string \<times> string) list \<Rightarrow> gateway_settings \<Rightarrow> gateway_settings gw_parsed" where
  "set_all [] d = Inr d"
| "set_all ((k, v) # kvs) d = (case apply_config_value d k v of Inl e \<Rightarrow> Inl e | Inr d \<Rightarrow> set_all kvs d)"

lemma load_set_all:
  assumes "set_all kvs d = Inr d'" "\<forall>(k, v) \<in> set kvs. k \<in> set kAllowedKeys"
  shows "load_config_entries (map (\<lambda>(k, v). (YScalar k, YScalar v)) kvs) d = (True, d', [])"
  using assms
  by (induction kvs d rule: set_all.induct) (auto simp: contains_key_def list_ex_iff split: sum.splits)

lemma set_all_settings:
  assumes "settings_ok c" "trimmed (gs_downstream_shm_name c)" "trimmed (gs_trades_shm_name c)"
    "trimmed (gs_orders_shm_name c)" "trimmed (gs_adapter_plugin_so c)" "trimmed (gs_broker_type c)"
  shows "set_all (settings_entries c) d = Inr (c\<lparr>gs_config_file := gs_config_file d\<rparr>)"
  using assms unfolding settings_ok_def settings_entries_def
  by (cases c, cases d) (simp add: set_keys)

lemma settings_keys_allowed: "\<forall>(k, v) \<in> set (settings_entries c). k \<in> set kAllowedKeys"
  by (simp add: settings_entries_def kAllowedKeys_def)

text \<open>
  Whatever settings the gateway can run with, there is a file that gives exactly them: loading a map of
  thirteen keys with the printed values returns the settings they were printed from, whatever was set before.
\<close>

theorem gateway_settings_roundtrip:
  assumes "settings_ok c" and "path \<noteq> []" and "yaml path = Inr (settings_tree c)"
    and "\<forall>s \<in> {gs_downstream_shm_name c, gs_trades_shm_name c, gs_orders_shm_name c, gs_adapter_plugin_so c}.
           trimmed s"
  shows "gateway_parse_args yaml [Some ''--config'', Some path] d = (ParseOk, c\<lparr>gs_config_file := path\<rparr>, [])"
proof -
  have "gs_broker_type c = ''sim'' \<or> gs_broker_type c = ''plugin''" using assms(1) by (auto simp: settings_ok_def)
  then have "trimmed (gs_broker_type c)"
    unfolding trimmed_def by (elim disjE) (simp_all add: trim_copy_def is_space_def)
  with assms(1,4) have "set_all (settings_entries c) d = Inr (c\<lparr>gs_config_file := gs_config_file d\<rparr>)"
    by (intro set_all_settings) auto
  from load_set_all [OF this settings_keys_allowed]
  have load: "load_config_yaml yaml path d = (True, c\<lparr>gs_config_file := path\<rparr>, [])"
    using assms(2,3) by (simp add: load_config_yaml_def settings_tree_def)
  have "validate_gateway (c\<lparr>gs_config_file := path\<rparr>) = None"
    using assms(1) by (auto simp: settings_ok_def validate_gateway_def)
  moreover have "scan_args [Some ''--config'', Some path] [] = Inr path" by simp
  ultimately show ?thesis using load assms(2) by (simp add: gateway_parse_args_def del: scan_args.simps)
qed

text \<open>A plug-in for account 7, created segments, batches of one.\<close>

definition sample_settings :: gateway_settings where
  "sample_settings = gateway_settings_default\<lparr>gs_account_id := 7, gs_broker_type := ''plugin'',
     gs_adapter_plugin_so := ''libx.so'', gs_create_if_not_exist := True, gc_poll_batch_size := 1\<rparr>"

lemma gateway_settings_roundtrip_witness:
  "gateway_parse_args (\<lambda>_. Inr (settings_tree sample_settings)) [Some ''--config'', Some ''g.yaml'']
      gateway_settings_default
    = (ParseOk, sample_settings\<lparr>gs_config_file := ''g.yaml''\<rparr>, [])"
proof (rule gateway_settings_roundtrip)
  show "settings_ok sample_settings" by code_simp
  show "\<forall>s \<in> {gs_downstream_shm_name sample_settings, gs_trades_shm_name sample_settings,
      gs_orders_shm_name sample_settings, gs_adapter_plugin_so sample_settings}. trimmed s"
    by code_simp
qed simp_all

end
