(* ===== verification/Spec2Isabelle.thy ===== *)
theory Spec2Isabelle
  imports Spsc_Concurrent Orders_Shm Execution_Facts Event_Loop_Facts Order_Recovery Gateway_Facts
    Config_Facts Order_Api_Facts Price_Facts Loader_Facts Monitor_Facts Records Service_Facts Gateway_Config
begin

text \<open>
  A verification development for account_services, the service that takes the orders of an
  account from shared memory, checks them, hands them to a trading gateway, and books what
  comes back.

  The program.  Clients write an \<open>OrderRequest\<close> into a slot of the order pool and push the
  slot's index into the upstream queue.  The event loop (\<^verbatim>\<open>src/src/core/event_loop.cpp\<close>) takes
  the indices in batches, puts each order into the order book, runs the risk rules, freezes the
  money of a buy order, and gives the order to the router, which pushes the slot index into the
  downstream queue; orders with an execution algorithm go to the execution engine instead,
  which works them off in child orders through the same router.  Trade responses come back
  through a third queue and change the order, the FUND row, the positions and the sessions of
  the engine; terminal orders are archived.  Every change of an order in the book is announced
  to the event loop, which mirrors it into the order's pool slot, where monitors read it.

  The theories, in the order of their imports:

  \<^item> \<open>Prelude\<close>: machine integers, saturating addition, word and list lemmas.
  \<^item> \<open>Order_Types\<close>: \<^verbatim>\<open>common/types.hpp\<close>, \<^verbatim>\<open>common/fixed_string.hpp\<close>, \<^verbatim>\<open>order/order_request.hpp\<close>.
  \<^item> \<open>Security_Identity\<close>: \<^verbatim>\<open>common/security_identity.hpp\<close>, the keys of securities.
  \<^item> \<open>Error_Model\<close>: \<^verbatim>\<open>common/error.cpp\<close>, the error policies, the ring of recent errors and
    the shutdown latch.
  \<^item> \<open>Spsc_Queue\<close> and \<open>Spsc_Concurrent\<close>: \<^verbatim>\<open>shm/spsc_queue.hpp\<close>, first as a sequential data
    type that refines a bounded list, then as two interleaved programs.
  \<^item> \<open>Orders_Shm\<close>: \<^verbatim>\<open>shm/orders_shm.hpp\<close>, the order pool and its names.
  \<^item> \<open>Positions\<close>: \<^verbatim>\<open>portfolio/position_manager.cpp\<close>, the FUND row, which refines a ledger of
    natural numbers, and the rows of the securities.
  \<^item> \<open>Order_Book\<close> and \<open>Order_Book_Facts\<close>: \<^verbatim>\<open>order/order_book.cpp\<close>, with the invariant of its
    indices and what its operations do to an order and its parent.
  \<^item> \<open>Risk\<close>: \<^verbatim>\<open>risk/risk_checker.cpp\<close> and \<^verbatim>\<open>risk/risk_manager.cpp\<close>.
  \<^item> \<open>Order_Router\<close>: \<^verbatim>\<open>order/order_router.cpp\<close> and the world it works on (book, queues, pool,
    errors), with the change callback.
  \<^item> \<open>World_Invariant\<close>: a locale; what holds of the world under the elementary actions holds
    after every call of the router.  \<open>Order_Mirror\<close> interprets it: the pool mirrors the book.
  \<^item> \<open>Market_Data\<close>: \<^verbatim>\<open>market_data/market_data_service.cpp\<close> and \<^verbatim>\<open>strategy/active_strategy.cpp\<close>.
  \<^item> \<open>Execution\<close>, \<open>Execution_Facts\<close>, \<open>Execution_Invariant\<close>: \<^verbatim>\<open>execution/execution_engine.cpp\<close>
    and \<^verbatim>\<open>order/passive_execution.hpp\<close>; the budget of a session, its completion once the market fills its children, and the locale
    carried on to the engine.
  \<^item> \<open>Account_Info\<close> and \<open>Account_Loader\<close>: \<^verbatim>\<open>portfolio/account_info.cpp\<close>, fees in double precision, and the
    reader of the account file.
  \<^item> \<open>Event_Loop\<close> and \<open>Event_Loop_Invariant\<close>: the event loop, and the locale carried on to its
    handlers.
  \<^item> \<open>Reservations\<close>, \<open>Order_Funds\<close>, \<open>Event_Loop_Facts\<close>: what the composition does with the
    money of orders, with cancels, rejections, unknown fills, batches and stop requests.
  \<^item> \<open>Order_Recovery\<close>: \<^verbatim>\<open>order/order_recovery.cpp\<close>, how a restart rebuilds the book from the pool.
  \<^item> \<open>Shm_Manager\<close>: \<^verbatim>\<open>shm/shm_manager.cpp\<close>, opening and creating segments over POSIX shared
    memory, with a locale for the kinds of segment that the queues, the order pool and the
    positions interpret.
  \<^item> \<open>Position_Loader\<close> and \<open>Loader_Facts\<close>: \<^verbatim>\<open>portfolio/position_loader.cpp\<close> and \<open>initialize\<close> of the
    position manager: the bootstrap from a CSV file or a database and the take-over after a
    restart; a locale of what a load keeps, interpreted for the header and for the key table.
  \<^item> \<open>Order_Api\<close>, \<open>Order_Api_Facts\<close>, \<open>Price_Facts\<close>: \<^verbatim>\<open>api/order_api.cpp\<close>, the calls of a
    strategy, and the conversion of its prices to cents.
  \<^item> \<open>Monitor_Api\<close> and \<open>Monitor_Facts\<close>: \<^verbatim>\<open>api/order_monitor_api.cpp\<close> and \<^verbatim>\<open>api/position_monitor_api.cpp\<close>, the
    read-only views of other processes.  A view gives the content of the segment at each access of a call,
    so the writers may run between any two of them; a run of the writers of a slot is a step relation
    on the accesses of \<open>orders_shm_mutate_slot\<close>.
  \<^item> \<open>Records\<close>: \<^verbatim>\<open>portfolio/trade_record.cpp\<close> and \<^verbatim>\<open>portfolio/entrust_record.cpp\<close>.
  \<^item> \<open>Broker_Api\<close>, \<open>Gateway\<close>, \<open>Sim_Broker\<close>, \<open>Gateway_Facts\<close>: the process at the other end of the
    downstream and trade queues (\<^verbatim>\<open>gateway/src\<close>): the mappers, the loop over any broker adapter
    with its retries, the simulated broker; the locale of what an adapter may answer, interpreted
    by the simulated broker.  \<open>Gateway_Config\<close>: \<^verbatim>\<open>gateway/src/gateway_config.cpp\<close>, its settings and command line.
  \<^item> \<open>Config_Manager\<close> and \<open>Config_Facts\<close>: \<^verbatim>\<open>core/config_manager.cpp\<close>, from the text of a value to
    the validated configuration and back to an exported file.
  \<^item> \<open>Account_Service\<close>, \<open>Event_Loop_Running\<close>, \<open>Service_Facts\<close>: \<^verbatim>\<open>core/account_service.cpp\<close> and \<^verbatim>\<open>main.cpp\<close>, the start
    of the service from the operations of all the components above, its run and its end: what a start leaves
    when it succeeds and when it fails, that a first start on a clean machine succeeds, and what the exit code
    says.

  How state is modelled.  Each class or shared-memory layout is a record; the shared memories
  around the book are the record \<open>world\<close>, the event loop the record \<open>EventLoop\<close>.  Operations
  take the state last and return it last.  Integers keep their width as words, and overflow
  checks are those of the code.  A null pointer is \<open>None\<close>.  Fixed tables are functions from
  indices with their capacity as a parameter or constant.  Clock readings are arguments, one
  per handler: readings that a handler takes one after the other (the slot's and then the header's in
  \<open>orders_shm_mutate_slot\<close>) are the same value.  The calls the book makes outside while it runs (the change callback, error
  records) are returned as a list of effects and performed after it by \<open>on_book\<close>; the callback
  reads only the entry it is given, so this is the same.

  Fuel.  \<open>orders_shm_read_snapshot\<close> retries a bounded number of times, as the code does.  The
  batch loops of the event loop run with the number of queued items as fuel; the property on
  batches shows that more fuel makes no difference.  \<open>run_turns\<close> takes the list of what each
  turn reads from outside.  All other recursion is structural or has a termination proof.

  Not modelled.  Logging and the order event recorder (output only); signals and threads
  (operating system); the snapshot reader of the market data and the YAML reader (third party,
  parameters); the plug-in loader and the main program of the gateway (dynamic linking and
  wiring); the command-line tools and examples; the general-purpose parts of BaseCore that the
  service does not call.  Under interleaving are modelled the queue, with its producer and its consumer, and
  the slots of the order pool, with their writers and a monitor; the other operations on shared memory run as
  one step of one process.
\<close>

end
